(* ===== verification/Sdk_Prelude.thy ===== *)
theory Sdk_Prelude
  imports Main "HOL-Library.AList" "HOL-Library.Word" "HOL-Library.List_Lexorder"
    "HOL-Library.Char_ord" "HOL-Library.Sublist"
begin

text \<open>
  Vocabulary and lemmas shared by every component.

  \<^item> A JavaScript \<^verbatim>\<open>Map\<close> (and an object used as a record) is an association list in
    iteration order, with distinct keys: \<open>jm_get\<close>, \<open>jm_set\<close> (in place for a key that is
    present, at the end for a new one), \<open>jm_del\<close>, \<open>jm_drop_oldest\<close>.
  \<^item> \<open>to_int32\<close> is the bitwise idiom \<^verbatim>\<open>x | 0\<close> on an integral number.
  \<^item> Times are \<^typ>\<open>int\<close> milliseconds, the value of \<^verbatim>\<open>Date.now()\<close> passed in as an argument.
  \<^item> The collection \<open>jm_simps\<close> holds the laws of the map model.
\<close>

named_theorems jm_simps "laws of the insertion-ordered map model"

section \<open>Insertion-ordered maps\<close>

type_synonym ('k, 'v) jsmap = "('k \<times> 'v) list"

abbreviation jm_get :: "('k, 'v) jsmap \<Rightarrow> 'k \<Rightarrow> 'v option" where
  "jm_get m k \<equiv> map_of m k"

abbreviation jm_has :: "('k, 'v) jsmap \<Rightarrow> 'k \<Rightarrow> bool" where
  "jm_has m k \<equiv> map_of m k \<noteq> None"

abbreviation jm_set :: "'k \<Rightarrow> 'v \<Rightarrow> ('k, 'v) jsmap \<Rightarrow> ('k, 'v) jsmap" where
  "jm_set k v m \<equiv> AList.update k v m"

abbreviation jm_del :: "'k \<Rightarrow> ('k, 'v) jsmap \<Rightarrow> ('k, 'v) jsmap" where
  "jm_del k m \<equiv> AList.delete k m"

abbreviation jm_size :: "('k, 'v) jsmap \<Rightarrow> int" where
  "jm_size m \<equiv> int (length m)"

abbreviation jm_ok :: "('k, 'v) jsmap \<Rightarrow> bool" where
  "jm_ok m \<equiv> distinct (map fst m)"

text \<open>
  \<^verbatim>\<open>const oldest = m.keys().next().value; if (oldest !== undefined) m.delete(oldest)\<close>
\<close>

fun jm_drop_oldest :: "('k, 'v) jsmap \<Rightarrow> ('k, 'v) jsmap" where
  "jm_drop_oldest [] = []"
| "jm_drop_oldest ((k, v) # m) = jm_del k ((k, v) # m)"

lemma jm_get_set [jm_simps]: "jm_get (jm_set k v m) k' = (if k' = k then Some v else jm_get m k')"
  by (simp add: update_conv')

lemma jm_get_del [jm_simps]: "jm_get (jm_del k m) k' = (if k' = k then None else jm_get m k')"
  by (simp add: delete_conv')

lemma jm_del_id: "k \<notin> fst ` set m \<Longrightarrow> jm_del k m = m"
  by (induction m) auto

lemma jm_drop_oldest_tl: "jm_ok m \<Longrightarrow> jm_drop_oldest m = tl m"
  by (cases m) (auto simp: jm_del_id)

lemma jm_get_drop_oldest: "jm_get (jm_drop_oldest m) k = Some v \<Longrightarrow> jm_get m k = Some v"
  by (cases m) (auto simp: delete_conv' split: if_splits)

lemma jm_ok_set [jm_simps]: "jm_ok m \<Longrightarrow> jm_ok (jm_set k v m)"
  by (rule distinct_update)

lemma jm_ok_del [jm_simps]: "jm_ok m \<Longrightarrow> jm_ok (jm_del k m)"
  by (rule distinct_delete)

lemma jm_ok_drop_oldest [jm_simps]: "jm_ok m \<Longrightarrow> jm_ok (jm_drop_oldest m)"
  by (cases m) (auto simp: jm_del_id)

lemma length_jm_set: "length (jm_set k v m) = (if jm_has m k then length m else Suc (length m))"
  by (induction m) auto

lemma length_jm_del_le [jm_simps]: "length (jm_del k m) \<le> length m"
  by (rule length_delete_le)

lemma length_jm_del: "jm_ok m \<Longrightarrow> jm_get m k = Some v \<Longrightarrow> Suc (length (jm_del k m)) = length m"
  by (induction m) (auto simp: jm_del_id split: if_splits)

lemma jm_size_del_le: "jm_size (jm_del k m) \<le> jm_size m"
  by (simp add: length_delete_le)

text \<open>A hit re-inserts the entry at the end (\<^verbatim>\<open>delete\<close> then \<^verbatim>\<open>set\<close>): same content, same size.\<close>

lemma jm_bump:
  assumes "jm_ok m" and "jm_get m k = Some v"
  shows "jm_ok (jm_set k v (jm_del k m))"
    and "jm_size (jm_set k v (jm_del k m)) = jm_size m"
    and "jm_get (jm_set k v (jm_del k m)) k' = jm_get m k'"
  using assms length_jm_del [OF assms] by (auto simp: jm_simps length_jm_set)

lemma length_jm_drop_oldest: "jm_ok m \<Longrightarrow> length (jm_drop_oldest m) = length m - 1"
  by (cases m) (auto simp: jm_del_id)

text \<open>The insertion that evicts the oldest entry when a new key meets a full map.\<close>

lemma jm_size_bounded_set:
  assumes "jm_ok m" and "1 \<le> (n::int)" and "jm_size m \<le> n"
  shows "jm_size (jm_set k v (if jm_size m \<ge> n \<and> \<not> jm_has m k then jm_drop_oldest m else m)) \<le> n"
  using assms by (auto simp: length_jm_set length_jm_drop_oldest)

lemma jm_get_bounded_set:
  "jm_get (jm_set k v (if b then jm_drop_oldest m else m)) k' = Some x \<Longrightarrow>
    (k' = k \<and> x = v) \<or> jm_get m k' = Some x"
  by (auto simp: jm_simps split: if_splits dest: jm_get_drop_oldest)

section \<open>Joined keys\<close>

lemma separator_inject:
  "c \<notin> set a \<Longrightarrow> c \<notin> set b \<Longrightarrow> a @ c # x = b @ c # y \<longleftrightarrow> a = b \<and> x = y"
proof (induction a arbitrary: b)
  case Nil
  then show ?case by (cases b) auto
next
  case (Cons a1 a2)
  then show ?case by (cases b) auto
qed

lemma separator_inject_last:
  assumes "c \<notin> set x" and "c \<notin> set y"
  shows "a @ c # x = b @ c # y \<longleftrightarrow> a = b \<and> x = y"
proof -
  have "a @ c # x = b @ c # y \<longleftrightarrow> rev x @ c # rev a = rev y @ c # rev b"
    by (metis append.assoc append_Cons append_Nil rev.simps(2) rev_append rev_rev_ident)
  then show ?thesis using assms by (simp add: separator_inject) blast
qed

section \<open>The 32-bit truncation of a number\<close>

definition to_int32 :: "int \<Rightarrow> int" where
  "to_int32 x = sint (word_of_int x :: 32 word)"

lemma to_int32_id: "- (2 ^ 31) \<le> x \<Longrightarrow> x < 2 ^ 31 \<Longrightarrow> to_int32 x = x"
  by (simp add: to_int32_def sint_sbintrunc' signed_take_bit_int_eq_self)

lemma to_int32_less: "to_int32 x < 2 ^ 31"
  using sint_lt [of "word_of_int x :: 32 word"] by (simp add: to_int32_def)

section \<open>Postconditions of computations that may throw\<close>

text \<open>\<open>yields P r\<close>: if the computation returns, its result satisfies \<open>P\<close>. The rules follow the control flow,
  so that \<open>intro yields_intros\<close> leaves one goal per return.\<close>

definition yields :: "('a \<Rightarrow> bool) \<Rightarrow> 'a option \<Rightarrow> bool" where
  "yields P r \<longleftrightarrow> (\<forall>y. r = Some y \<longrightarrow> P y)"

lemma yields_intros:
  "yields P None"
  "P y \<Longrightarrow> yields P (Some y)"
  "(\<And>y. x = Some y \<Longrightarrow> yields P (g y)) \<Longrightarrow> yields P (Option.bind x g)"
  "yields P (h z) \<Longrightarrow> yields P (Let z h)"
  "(b \<Longrightarrow> yields P r) \<Longrightarrow> (\<not> b \<Longrightarrow> yields P s) \<Longrightarrow> yields P (if b then r else s)"
  "(o' = None \<Longrightarrow> yields P r) \<Longrightarrow> (\<And>a. o' = Some a \<Longrightarrow> yields P (k a)) \<Longrightarrow>
     yields P (case o' of None \<Rightarrow> r | Some a \<Rightarrow> k a)"
  "(xs = [] \<Longrightarrow> yields P r) \<Longrightarrow> (\<And>a as. xs = a # as \<Longrightarrow> yields P (l a as)) \<Longrightarrow>
     yields P (case xs of [] \<Rightarrow> r | a # as \<Rightarrow> l a as)"
  "(c \<Longrightarrow> yields P r) \<Longrightarrow> (\<not> c \<Longrightarrow> yields P s) \<Longrightarrow> yields P (case c of True \<Rightarrow> r | False \<Rightarrow> s)"
  "(\<And>a b. q = (a, b) \<Longrightarrow> yields P (m a b)) \<Longrightarrow> yields P (case q of (a, b) \<Rightarrow> m a b)"
  "yields (\<lambda>y. P (u y)) w \<Longrightarrow> yields P (map_option u w)"
  by (auto simp: yields_def bind_eq_Some_conv split: option.splits list.splits prod.splits bool.splits)

lemma yieldsD: "yields P r \<Longrightarrow> r = Some y \<Longrightarrow> P y"
  by (simp add: yields_def)

lemma yields_mono: "yields P r \<Longrightarrow> (\<And>y. P y \<Longrightarrow> Q y) \<Longrightarrow> yields Q r"
  by (simp add: yields_def)

end
