(* ===== verification/Ttl_Cache.thy ===== *)
theory Ttl_Cache
  imports Sdk_Prelude
begin

text \<open>
  The interface that the decision caches and the approval ledger share: a bounded cache
  whose entries carry an expiry time. \<open>lookup\<close> is the abstraction (stored value and
  expiry), \<open>get\<close>, \<open>put\<close> and \<open>clear\<close> are the operations a client calls. The locale
  \<open>ttl_cache\<close> states what the operations may never do (invent, resurrect or keep an
  entry past its expiry) and proves the client's theorem once, over every sequence of
  operations; \<open>ttl_cache_hits\<close> adds what they must do. Decision_Cache, Simulate_Cache
  and Approval_Grants interpret them.
\<close>

section \<open>Sequences of cache operations\<close>

datatype ('k, 'v) cache_op =
    Op_Get 'k int
  | Op_Put 'k 'v int int
  | Op_Clear

fun cache_step :: "('c \<Rightarrow> 'k \<Rightarrow> int \<Rightarrow> 'v option \<times> 'c) \<Rightarrow> ('c \<Rightarrow> 'k \<Rightarrow> 'v \<Rightarrow> int \<Rightarrow> int \<Rightarrow> 'c) \<Rightarrow>
    ('c \<Rightarrow> 'c) \<Rightarrow> 'c \<Rightarrow> ('k, 'v) cache_op \<Rightarrow> 'c" where
  "cache_step get put clear c (Op_Get k now) = snd (get c k now)"
| "cache_step get put clear c (Op_Put k v ttl now) = put c k v ttl now"
| "cache_step get put clear c Op_Clear = clear c"

definition cache_run :: "('c \<Rightarrow> 'k \<Rightarrow> int \<Rightarrow> 'v option \<times> 'c) \<Rightarrow> ('c \<Rightarrow> 'k \<Rightarrow> 'v \<Rightarrow> int \<Rightarrow> int \<Rightarrow> 'c) \<Rightarrow>
    ('c \<Rightarrow> 'c) \<Rightarrow> 'c \<Rightarrow> ('k, 'v) cache_op list \<Rightarrow> 'c" where
  "cache_run get put clear c ops = foldl (cache_step get put clear) c ops"

text \<open>What was put since the last clear, with its time to live and the time of the put.\<close>

fun live_put :: "('k \<times> 'v \<times> int \<times> int) list \<Rightarrow> ('k, 'v) cache_op \<Rightarrow> ('k \<times> 'v \<times> int \<times> int) list" where
  "live_put ps (Op_Get k now) = ps"
| "live_put ps (Op_Put k v ttl now) = ps @ [(k, v, ttl, now)]"
| "live_put ps Op_Clear = []"

definition live_puts :: "('k, 'v) cache_op list \<Rightarrow> ('k \<times> 'v \<times> int \<times> int) list" where
  "live_puts ops = foldl live_put [] ops"

lemma cache_run_simps [simp]:
  "cache_run get put clear c [] = c"
  "cache_run get put clear c (ops @ [x]) = cache_step get put clear (cache_run get put clear c ops) x"
  by (simp_all add: cache_run_def)

lemma live_puts_simps [simp]:
  "live_puts [] = []"
  "live_puts (ops @ [x]) = live_put (live_puts ops) x"
  by (simp_all add: live_puts_def)

section \<open>The contract\<close>

locale ttl_cache =
  fixes inv :: "'c \<Rightarrow> bool"
    and lookup :: "'c \<Rightarrow> 'k \<Rightarrow> ('v \<times> int) option"
    and get :: "'c \<Rightarrow> 'k \<Rightarrow> int \<Rightarrow> 'v option \<times> 'c"
    and put :: "'c \<Rightarrow> 'k \<Rightarrow> 'v \<Rightarrow> int \<Rightarrow> int \<Rightarrow> 'c"
    and clear :: "'c \<Rightarrow> 'c"
    and expiry :: "int \<Rightarrow> int \<Rightarrow> int"
  assumes inv_get: "inv c \<Longrightarrow> inv (snd (get c k now))"
    and inv_put: "inv c \<Longrightarrow> inv (put c k v ttl now)"
    and inv_clear: "inv c \<Longrightarrow> inv (clear c)"
    and get_sound: "inv c \<Longrightarrow> fst (get c k now) = Some v \<Longrightarrow>
      \<exists>e. lookup c k = Some (v, e) \<and> now < e"
    and get_keeps: "inv c \<Longrightarrow> lookup (snd (get c k now)) k' = Some x \<Longrightarrow> lookup c k' = Some x"
    and put_keeps: "inv c \<Longrightarrow> lookup (put c k v ttl now) k' = Some x \<Longrightarrow>
      (k' = k \<and> x = (v, expiry ttl now)) \<or> lookup c k' = Some x"
    and clear_empties: "inv c \<Longrightarrow> lookup (clear c) k = None"
begin

lemma run_inv: "inv c \<Longrightarrow> inv (cache_run get put clear c ops)"
proof (induction ops rule: rev_induct)
  case (snoc x ops)
  then show ?case by (cases x) (simp_all add: inv_get inv_put inv_clear)
qed simp

lemma run_lookup:
  assumes "inv c" and "\<And>k. lookup c k = None"
  shows "lookup (cache_run get put clear c ops) k = Some (v, e) \<Longrightarrow>
    \<exists>ttl t. (k, v, ttl, t) \<in> set (live_puts ops) \<and> e = expiry ttl t"
proof (induction ops arbitrary: k v e rule: rev_induct)
  case Nil
  then show ?case by (simp add: assms(2))
next
  case (snoc x ops)
  have i: "inv (cache_run get put clear c ops)" by (rule run_inv) (rule assms(1))
  show ?case
  proof (cases x)
    case (Op_Get k' now)
    with snoc.prems i have "lookup (cache_run get put clear c ops) k = Some (v, e)"
      by (auto dest: get_keeps)
    with snoc.IH Op_Get show ?thesis by auto
  next
    case (Op_Put k' v' ttl now)
    with snoc.prems put_keeps [OF i] snoc.IH show ?thesis by fastforce
  next
    case Op_Clear
    with snoc.prems i show ?thesis by (simp add: clear_empties)
  qed
qed

theorem served_was_put:
  assumes "inv c" and "\<And>k. lookup c k = None"
    and "fst (get (cache_run get put clear c ops) k now) = Some v"
  shows "\<exists>ttl t. (k, v, ttl, t) \<in> set (live_puts ops) \<and> now < expiry ttl t"
proof -
  obtain e where "lookup (cache_run get put clear c ops) k = Some (v, e)" "now < e"
    using get_sound [OF run_inv [OF assms(1)] assms(3)] by blast
  then show ?thesis using run_lookup [OF assms(1,2)] by blast
qed

end

locale ttl_cache_hits = ttl_cache +
  fixes accepts :: "'c \<Rightarrow> int \<Rightarrow> bool"
  assumes get_hit: "inv c \<Longrightarrow> lookup c k = Some (v, e) \<Longrightarrow> now < e \<Longrightarrow>
      fst (get c k now) = Some v \<and> lookup (snd (get c k now)) k = Some (v, e)"
    and put_stores: "inv c \<Longrightarrow> accepts c ttl \<Longrightarrow>
      lookup (put c k v ttl now) k = Some (v, expiry ttl now)"
begin

text \<open>A put is served until its expiry, however often the key is read meanwhile.\<close>

lemma reads_keep:
  assumes "inv c" and "lookup c k = Some (v, e)" and "\<forall>t \<in> set ts. t < e"
  shows "inv (cache_run get put clear c (map (Op_Get k) ts)) \<and>
    lookup (cache_run get put clear c (map (Op_Get k) ts)) k = Some (v, e)"
  using assms(3)
proof (induction ts rule: rev_induct)
  case Nil
  then show ?case using assms(1,2) by simp
next
  case (snoc t ts)
  then have "inv (cache_run get put clear c (map (Op_Get k) ts))"
    and "lookup (cache_run get put clear c (map (Op_Get k) ts)) k = Some (v, e)" and "t < e"
    by auto
  then show ?case using get_hit inv_get by auto
qed

theorem put_then_served:
  assumes "inv c" and "accepts c ttl" and "now < expiry ttl t"
    and "\<forall>t' \<in> set ts. t' < expiry ttl t"
  shows "fst (get (cache_run get put clear (put c k v ttl t) (map (Op_Get k) ts)) k now) = Some v"
  using reads_keep [OF inv_put [OF assms(1)] put_stores [OF assms(1,2)] assms(4)] get_hit assms(3)
  by blast

end

end
