(* ===== verification/Js_Text.thy ===== *)
theory Js_Text
  imports Sdk_Prelude Complex_Main
begin

text \<open>
  The string and number functions of the JavaScript library that the SDK calls, on
  strings of code units below 256 (\<^typ>\<open>string\<close>): \<^verbatim>\<open>trim\<close>, \<^verbatim>\<open>toLowerCase\<close>, \<^verbatim>\<open>indexOf\<close>,
  \<^verbatim>\<open>includes\<close>, \<^verbatim>\<open>startsWith\<close>, \<^verbatim>\<open>endsWith\<close>, and \<^verbatim>\<open>Number(text)\<close> on decimal literals, whose
  value is the exact rational of the literal (no rounding to a double). \<open>js_number\<close> is
  \<^const>\<open>None\<close> where \<^verbatim>\<open>Number\<close> gives NaN or an infinity; the \<^verbatim>\<open>0x\<close>, \<^verbatim>\<open>0o\<close> and \<^verbatim>\<open>0b\<close> forms,
  which no caller of the SDK produces, are read as NaN. Case mapping is the ASCII one.
\<close>

section \<open>Characters\<close>

definition is_ws :: "char \<Rightarrow> bool" where
  "is_ws c \<longleftrightarrow> of_char c \<in> {9, 10, 11, 12, 13, 32, 160 :: nat}"

definition is_digit :: "char \<Rightarrow> bool" where
  "is_digit c \<longleftrightarrow> (48 :: nat) \<le> of_char c \<and> of_char c \<le> (57 :: nat)"

definition is_lower :: "char \<Rightarrow> bool" where
  "is_lower c \<longleftrightarrow> (97 :: nat) \<le> of_char c \<and> of_char c \<le> (122 :: nat)"

definition is_upper :: "char \<Rightarrow> bool" where
  "is_upper c \<longleftrightarrow> (65 :: nat) \<le> of_char c \<and> of_char c \<le> (90 :: nat)"

definition lower_char :: "char \<Rightarrow> char" where
  "lower_char c = (if is_upper c then char_of (of_char c + 32 :: nat) else c)"

definition upper_char :: "char \<Rightarrow> char" where
  "upper_char c = (if is_lower c then char_of (of_char c - 32 :: nat) else c)"

section \<open>Strings\<close>

definition js_lower :: "string \<Rightarrow> string" where
  "js_lower s = map lower_char s"

definition js_upper :: "string \<Rightarrow> string" where
  "js_upper s = map upper_char s"

definition js_trim :: "string \<Rightarrow> string" where
  "js_trim s = rev (dropWhile is_ws (rev (dropWhile is_ws s)))"

definition js_startsWith :: "string \<Rightarrow> string \<Rightarrow> bool" where
  "js_startsWith s p \<longleftrightarrow> take (length p) s = p"

definition js_endsWith :: "string \<Rightarrow> string \<Rightarrow> bool" where
  "js_endsWith s p \<longleftrightarrow> js_startsWith (rev s) (rev p)"

text \<open>\<^verbatim>\<open>s.indexOf(p)\<close>: \<^const>\<open>None\<close> for \<^verbatim>\<open>-1\<close>.\<close>

fun js_indexOf :: "string \<Rightarrow> string \<Rightarrow> nat option" where
  "js_indexOf s p =
     (if js_startsWith s p then Some 0
      else case s of [] \<Rightarrow> None | _ # s' \<Rightarrow> map_option Suc (js_indexOf s' p))"

declare js_indexOf.simps [simp del]

definition js_includes :: "string \<Rightarrow> string \<Rightarrow> bool" where
  "js_includes s p \<longleftrightarrow> js_indexOf s p \<noteq> None"

lemma js_startsWith_iff: "js_startsWith s p \<longleftrightarrow> (\<exists>r. s = p @ r)"
  by (auto simp: js_startsWith_def) (metis append_take_drop_id)

lemma js_endsWith_iff: "js_endsWith s p \<longleftrightarrow> (\<exists>r. s = r @ p)"
  by (simp add: js_endsWith_def js_startsWith_iff)
    (metis rev_append rev_rev_ident)

section \<open>Numbers\<close>

definition digit_val :: "char \<Rightarrow> nat" where
  "digit_val c = of_char c - 48"

definition digits_val :: "string \<Rightarrow> nat" where
  "digits_val s = foldl (\<lambda>n c. 10 * n + digit_val c) 0 s"

text \<open>The optional exponent at the end of a decimal literal.\<close>

definition exponent_val :: "string \<Rightarrow> int option" where
  "exponent_val s =
     (case s of
        [] \<Rightarrow> Some 0
      | c # r \<Rightarrow>
          if c = CHR ''e'' \<or> c = CHR ''E'' then
            (let (neg, d) = (case r of
                 x # r' \<Rightarrow> if x = CHR ''-'' then (True, r') else if x = CHR ''+'' then (False, r') else (False, r)
               | [] \<Rightarrow> (False, r))
             in if d \<noteq> [] \<and> list_all is_digit d
                then Some (if neg then - int (digits_val d) else int (digits_val d)) else None)
          else None)"

definition unsigned_val :: "string \<Rightarrow> rat option" where
  "unsigned_val s =
     (let i = takeWhile is_digit s; r = dropWhile is_digit s;
          (f, e) = (case r of
              c # r' \<Rightarrow> if c = CHR ''.'' then (takeWhile is_digit r', dropWhile is_digit r') else ([], r)
            | [] \<Rightarrow> ([], r))
      in if i = [] \<and> f = [] then None
         else case exponent_val e of
           None \<Rightarrow> None
         | Some x \<Rightarrow>
             let m = rat_of_nat (digits_val (i @ f)); k = x - int (length f)
             in Some (if k \<ge> 0 then m * 10 ^ nat k else m / 10 ^ nat (- k)))"

definition js_number :: "string \<Rightarrow> rat option" where
  "js_number s =
     (case js_trim s of
        [] \<Rightarrow> Some 0
      | c # r \<Rightarrow>
          if c = CHR ''-'' then map_option uminus (unsigned_val r)
          else if c = CHR ''+'' then unsigned_val r
          else unsigned_val (c # r))"

definition js_round :: "rat \<Rightarrow> int" where
  "js_round x = \<lfloor>x + 1 / 2\<rfloor>"

end
