(* ===== verification/Simulate_Cache.thy ===== *)
theory Simulate_Cache
  imports Ttl_Cache Js_Text
begin

text \<open>
  \<^verbatim>\<open>simulate-cache.ts\<close>, class \<open>SimulateDecisionCache\<close>: the client-side cache whose time to
  live comes with each put (from the response headers), with the policy-generation
  eviction, and \<open>parseMaxAgeMs\<close>. It interprets the shared cache contract.
\<close>

section \<open>State and operations\<close>

record 'v sim_entry =
  se_value :: 'v
  se_expiresAt :: int

record 'v sim_cache =
  sc_enabled :: bool
  sc_maxSize :: int
  sc_entries :: "(string, 'v sim_entry) jsmap"
  sc_generation :: rat

definition sc_new :: "bool option \<Rightarrow> int option \<Rightarrow> 'v sim_cache" where
  "sc_new enabled maxSize =
     \<lparr>sc_enabled = (case enabled of None \<Rightarrow> True | Some b \<Rightarrow> b),
      sc_maxSize = max 1 (to_int32 (case maxSize of None \<Rightarrow> 512 | Some m \<Rightarrow> m)),
      sc_entries = [], sc_generation = 0\<rparr>"

definition sc_key :: "string \<Rightarrow> string \<Rightarrow> string \<Rightarrow> string \<Rightarrow> string \<Rightarrow> string" where
  "sc_key agentId action resource userHash contextHash =
     agentId @ ''|'' @ action @ ''|'' @ resource @ ''|'' @ userHash @ ''|'' @ contextHash"

definition sc_get :: "'v sim_cache \<Rightarrow> string \<Rightarrow> int \<Rightarrow> 'v option \<times> 'v sim_cache" where
  "sc_get c key now =
     (if \<not> sc_enabled c then (None, c)
      else case jm_get (sc_entries c) key of
        None \<Rightarrow> (None, c)
      | Some entry \<Rightarrow>
          if se_expiresAt entry \<le> now then (None, c\<lparr>sc_entries := jm_del key (sc_entries c)\<rparr>)
          else (Some (se_value entry),
                c\<lparr>sc_entries := jm_set key entry (jm_del key (sc_entries c))\<rparr>))"

definition sc_put :: "'v sim_cache \<Rightarrow> string \<Rightarrow> 'v \<Rightarrow> int \<Rightarrow> int \<Rightarrow> 'v sim_cache" where
  "sc_put c key v ttlMs now =
     (if \<not> sc_enabled c \<or> ttlMs \<le> 0 then c
      else let entries = (if jm_size (sc_entries c) \<ge> sc_maxSize c \<and> \<not> jm_has (sc_entries c) key
                          then jm_drop_oldest (sc_entries c) else sc_entries c)
           in c\<lparr>sc_entries := jm_set key \<lparr>se_value = v, se_expiresAt = now + ttlMs\<rparr> entries\<rparr>)"

definition sc_invalidateAll :: "'v sim_cache \<Rightarrow> 'v sim_cache" where
  "sc_invalidateAll c = c\<lparr>sc_entries := []\<rparr>"

definition sc_observeGeneration :: "'v sim_cache \<Rightarrow> string option \<Rightarrow> 'v sim_cache" where
  "sc_observeGeneration c newGeneration =
     (case newGeneration of
        None \<Rightarrow> c
      | Some g \<Rightarrow>
          if g = [] then c
          else case js_number g of
            None \<Rightarrow> c
          | Some parsed \<Rightarrow>
              if parsed \<le> 0 then c
              else if parsed \<noteq> sc_generation c then
                (let c' = (if sc_generation c \<noteq> 0 then sc_invalidateAll c else c)
                 in c'\<lparr>sc_generation := parsed\<rparr>)
              else c)"

definition sc_size :: "'v sim_cache \<Rightarrow> int" where
  "sc_size c = jm_size (sc_entries c)"

text \<open>
  The regular expression \<^verbatim>\<open>max-age\s*=\s*(\d+)\<close>, searched from the left: the digits of the
  first match. The blanks, the equals sign and the digits are disjoint classes, so no
  backtracking inside a match can succeed.
\<close>

definition max_age_here :: "string \<Rightarrow> string option" where
  "max_age_here s =
     (if js_startsWith s ''max-age'' then
        (case dropWhile is_ws (drop 7 s) of
           c # r \<Rightarrow> if c = CHR ''='' then
               (let d = takeWhile is_digit (dropWhile is_ws r) in if d = [] then None else Some d)
             else None
         | [] \<Rightarrow> None)
      else None)"

fun max_age_match :: "string \<Rightarrow> string option" where
  "max_age_match [] = None"
| "max_age_match (c # s) =
     (case max_age_here (c # s) of Some d \<Rightarrow> Some d | None \<Rightarrow> max_age_match s)"

definition seconds_to_ms :: "string \<Rightarrow> int option" where
  "seconds_to_ms s =
     (case js_number s of
        Some n \<Rightarrow> if 0 \<le> n then Some (js_round (n * 1000)) else None
      | None \<Rightarrow> None)"

text \<open>\<open>get\<close> is \<^verbatim>\<open>headers.get\<close>, with lower-case names. \<^const>\<open>None\<close> is the result \<^verbatim>\<open>null\<close>.\<close>

definition parseMaxAgeMs :: "(string \<Rightarrow> string option) \<Rightarrow> int option" where
  "parseMaxAgeMs get =
     (case Option.bind (get ''x-agentum-cache-max-age'') seconds_to_ms of
        Some ms \<Rightarrow> Some ms
      | None \<Rightarrow>
          (case get ''cache-control'' of
             None \<Rightarrow> None
           | Some cc \<Rightarrow>
               if cc = [] then None
               else let lower = js_lower cc in
                 if js_includes lower ''no-store'' \<or> js_includes lower ''no-cache'' then Some 0
                 else Option.bind (max_age_match lower) seconds_to_ms))"

section \<open>Invariant and contract\<close>

definition sc_inv :: "'v sim_cache \<Rightarrow> bool" where
  "sc_inv c \<longleftrightarrow> 1 \<le> sc_maxSize c \<and> jm_ok (sc_entries c) \<and> jm_size (sc_entries c) \<le> sc_maxSize c"

definition sc_lookup :: "'v sim_cache \<Rightarrow> string \<Rightarrow> ('v \<times> int) option" where
  "sc_lookup c k =
     (if sc_enabled c then map_option (\<lambda>e. (se_value e, se_expiresAt e)) (jm_get (sc_entries c) k)
      else None)"

lemma sc_inv_new: "sc_inv (sc_new e m)"
  by (simp add: sc_inv_def sc_new_def)

lemma sc_inv_put: "sc_inv c \<Longrightarrow> sc_inv (sc_put c k v ttl now)"
  using jm_size_bounded_set [of "sc_entries c" "sc_maxSize c" k]
  by (auto simp: sc_inv_def sc_put_def Let_def jm_simps)

lemma sc_inv_get: "sc_inv c \<Longrightarrow> sc_inv (snd (sc_get c k now))"
  by (auto simp: sc_inv_def sc_get_def jm_bump jm_simps simp del: jm_get_set split: option.splits
      intro: order_trans [OF jm_size_del_le])

lemma sc_inv_observeGeneration: "sc_inv c \<Longrightarrow> sc_inv (sc_observeGeneration c g)"
  by (auto simp: sc_inv_def sc_observeGeneration_def sc_invalidateAll_def Let_def split: option.splits)

lemma sc_get_Some:
  "fst (sc_get c k now) = Some v \<longleftrightarrow> (\<exists>e. sc_lookup c k = Some (v, e) \<and> now < e)"
  by (auto simp: sc_get_def sc_lookup_def split: option.splits if_splits)

lemma sc_lookup_get:
  "sc_inv c \<Longrightarrow> sc_lookup (snd (sc_get c k now)) k' =
    (if k' = k \<and> fst (sc_get c k now) = None then None else sc_lookup c k')"
  by (auto simp: sc_inv_def sc_get_def sc_lookup_def jm_bump jm_simps split: option.splits)

lemma sc_lookup_put_same:
  "sc_enabled c \<Longrightarrow> 0 < ttl \<Longrightarrow> sc_lookup (sc_put c k v ttl now) k = Some (v, now + ttl)"
  by (simp add: sc_lookup_def sc_put_def Let_def jm_simps)

lemma sc_lookup_put:
  "sc_lookup (sc_put c k v ttl now) k' = Some x \<Longrightarrow>
    (k' = k \<and> x = (v, now + ttl)) \<or> sc_lookup c k' = Some x"
  by (cases "sc_enabled c \<and> 0 < ttl")
    (auto simp: sc_lookup_def sc_put_def Let_def dest!: jm_get_bounded_set)

interpretation sc: ttl_cache_hits sc_inv sc_lookup sc_get sc_put sc_invalidateAll
  "\<lambda>ttl now. now + ttl" "\<lambda>c ttl. sc_enabled c \<and> 0 < ttl"
proof (unfold_locales, goal_cases)
  case (6 c k v ttl now k' x)
  then show ?case using sc_lookup_put [of c k v ttl now k' x] by simp
next
  case (3 c)
  then show ?case by (simp add: sc_inv_def sc_invalidateAll_def)
next
  case (7 c k)
  then show ?case by (simp add: sc_lookup_def sc_invalidateAll_def)
qed (auto simp: sc_inv_get sc_inv_put sc_get_Some sc_lookup_get sc_lookup_put_same split: if_splits)

section \<open>Properties\<close>

text \<open>A value the simulate cache serves was put under that key since the last
  invalidation, and the time to live given with that put has not run out.\<close>

theorem simulate_cache_served_was_put:
  assumes "fst (sc_get (cache_run sc_get sc_put sc_invalidateAll (sc_new e m) ops) k now) = Some v"
  shows "\<exists>ttl t. (k, v, ttl, t) \<in> set (live_puts ops) \<and> now < t + ttl"
  by (rule sc.served_was_put [OF sc_inv_new _ assms]) (simp add: sc_lookup_def sc_new_def)

theorem simulate_cache_served_was_put_witness:
  "\<exists>ttl t. (''k'', True, ttl, t) \<in> set (live_puts [Op_Put ''k'' True 30 5]) \<and> (7::int) < t + ttl"
  by (rule simulate_cache_served_was_put [where e = None and m = None]) code_simp

text \<open>Once a first generation was recorded, seeing a different positive generation
  leaves nothing to serve and records it; seeing the same one, or no usable header, changes
  nothing.\<close>

theorem simulate_cache_generation:
  assumes "sc_generation c \<noteq> 0" and "js_number g = Some n" and "g \<noteq> []"
  shows "if 0 < n \<and> n \<noteq> sc_generation c
    then fst (sc_get (sc_observeGeneration c (Some g)) k now) = None \<and>
      sc_generation (sc_observeGeneration c (Some g)) = n
    else sc_observeGeneration c (Some g) = c"
  using assms by (auto simp: sc_observeGeneration_def sc_invalidateAll_def sc_get_def)

theorem simulate_cache_generation_witness:
  "fst (sc_get (sc_observeGeneration
      (sc_put (sc_observeGeneration (sc_new None None) (Some ''7'')) ''k'' True 30 5) (Some ''8''))
      ''k'' 6) = None"
proof -
  let ?c = "sc_put (sc_observeGeneration (sc_new None None) (Some ''7'')) ''k'' True 30 5"
  have g: "sc_generation ?c = 7" "js_number ''8'' = Some 8"
    by code_simp+
  show ?thesis
    using simulate_cache_generation [of ?c "''8''" 8 "''k''" 6] g by simp
qed

end
