(* ===== verification/Decision_Cache.thy ===== *)
theory Decision_Cache
  imports Ttl_Cache
begin

text \<open>
  \<^verbatim>\<open>frameworks/express/decision-cache.ts\<close>, class \<open>DecisionCache\<close>: an LRU cache with one
  time to live for all entries and a parallel store that ignores it (\<open>getStale\<close>). The
  decision type is a parameter: the guards store simulate responses, the tool-call client
  stores its own evaluations. The second half proves the shared contract for it, its
  capacity bounds, and where its joined key separates requests.
\<close>

section \<open>State and operations\<close>

record 'd cache_entry =
  ce_decision :: 'd
  ce_expiresAt :: int

record 'd decision_cache =
  dc_maxSize :: int
  dc_ttlMs :: int
  dc_fresh :: "(string, 'd cache_entry) jsmap"
  dc_stale :: "(string, 'd) jsmap"

definition dc_new :: "int \<Rightarrow> int \<Rightarrow> 'd decision_cache" where
  "dc_new maxSize ttlMs =
     \<lparr>dc_maxSize = max 1 (to_int32 maxSize), dc_ttlMs = max 0 (to_int32 ttlMs),
      dc_fresh = [], dc_stale = []\<rparr>"

definition dc_key :: "string \<Rightarrow> string \<Rightarrow> string \<Rightarrow> string \<Rightarrow> string option \<Rightarrow> string" where
  "dc_key userId action resource contextHash policyHash =
     (case policyHash of
        Some ph \<Rightarrow> userId @ ''|'' @ action @ ''|'' @ resource @ ''|'' @ contextHash @ ''|'' @ ph
      | None \<Rightarrow> userId @ ''|'' @ action @ ''|'' @ resource @ ''|'' @ contextHash)"

definition dc_get :: "'d decision_cache \<Rightarrow> string \<Rightarrow> int \<Rightarrow> 'd option \<times> 'd decision_cache" where
  "dc_get c key now =
     (case jm_get (dc_fresh c) key of
        None \<Rightarrow> (None, c)
      | Some entry \<Rightarrow>
          if ce_expiresAt entry \<le> now then (None, c\<lparr>dc_fresh := jm_del key (dc_fresh c)\<rparr>)
          else (Some (ce_decision entry),
                c\<lparr>dc_fresh := jm_set key entry (jm_del key (dc_fresh c))\<rparr>))"

definition dc_getStale :: "'d decision_cache \<Rightarrow> string \<Rightarrow> 'd option" where
  "dc_getStale c key = jm_get (dc_stale c) key"

definition dc_put :: "'d decision_cache \<Rightarrow> string \<Rightarrow> 'd \<Rightarrow> int \<Rightarrow> 'd decision_cache" where
  "dc_put c key decision now =
     (let fresh = (if jm_size (dc_fresh c) \<ge> dc_maxSize c \<and> \<not> jm_has (dc_fresh c) key
                   then jm_drop_oldest (dc_fresh c) else dc_fresh c);
          stale = (if jm_size (dc_stale c) \<ge> dc_maxSize c * 2 \<and> \<not> jm_has (dc_stale c) key
                   then jm_drop_oldest (dc_stale c) else dc_stale c)
      in c\<lparr>dc_fresh := jm_set key \<lparr>ce_decision = decision, ce_expiresAt = now + dc_ttlMs c\<rparr> fresh,
           dc_stale := jm_set key decision stale\<rparr>)"

definition dc_invalidateAll :: "'d decision_cache \<Rightarrow> 'd decision_cache" where
  "dc_invalidateAll c = c\<lparr>dc_fresh := [], dc_stale := []\<rparr>"

definition dc_size :: "'d decision_cache \<Rightarrow> int" where
  "dc_size c = jm_size (dc_fresh c)"

section \<open>Invariant\<close>

definition dc_inv :: "'d decision_cache \<Rightarrow> bool" where
  "dc_inv c \<longleftrightarrow> 1 \<le> dc_maxSize c \<and> 0 \<le> dc_ttlMs c \<and> jm_ok (dc_fresh c) \<and> jm_ok (dc_stale c) \<and>
     jm_size (dc_fresh c) \<le> dc_maxSize c \<and> jm_size (dc_stale c) \<le> dc_maxSize c * 2"

definition dc_lookup :: "'d decision_cache \<Rightarrow> string \<Rightarrow> ('d \<times> int) option" where
  "dc_lookup c k = map_option (\<lambda>e. (ce_decision e, ce_expiresAt e)) (jm_get (dc_fresh c) k)"

lemma dc_inv_new: "dc_inv (dc_new m t)"
  by (simp add: dc_inv_def dc_new_def)

lemma dc_inv_put: "dc_inv c \<Longrightarrow> dc_inv (dc_put c k d now)"
  using jm_size_bounded_set [of "dc_fresh c" "dc_maxSize c" k]
    jm_size_bounded_set [of "dc_stale c" "dc_maxSize c * 2" k]
  by (auto simp: dc_inv_def dc_put_def Let_def jm_simps)

lemma dc_inv_get: "dc_inv c \<Longrightarrow> dc_inv (snd (dc_get c k now))"
  by (auto simp: dc_inv_def dc_get_def jm_bump jm_simps simp del: jm_get_set split: option.splits
      intro: order_trans [OF jm_size_del_le])

lemma dc_inv_invalidateAll: "dc_inv c \<Longrightarrow> dc_inv (dc_invalidateAll c)"
  by (simp add: dc_inv_def dc_invalidateAll_def)

lemma dc_ttl_frame:
  "dc_ttlMs (snd (dc_get c k now)) = dc_ttlMs c"
  "dc_ttlMs (dc_put c k d now) = dc_ttlMs c"
  "dc_ttlMs (dc_invalidateAll c) = dc_ttlMs c"
  by (auto simp: dc_get_def dc_put_def dc_invalidateAll_def Let_def split: option.splits)

lemma dc_get_Some:
  "fst (dc_get c k now) = Some d \<longleftrightarrow> (\<exists>e. dc_lookup c k = Some (d, e) \<and> now < e)"
  by (auto simp: dc_get_def dc_lookup_def split: option.splits if_splits)

lemma dc_lookup_get:
  "dc_inv c \<Longrightarrow> dc_lookup (snd (dc_get c k now)) k' =
    (if k' = k \<and> fst (dc_get c k now) = None then None else dc_lookup c k')"
  by (auto simp: dc_inv_def dc_get_def dc_lookup_def jm_bump jm_simps split: option.splits)

lemma dc_lookup_put_same: "dc_lookup (dc_put c k d now) k = Some (d, now + dc_ttlMs c)"
  by (simp add: dc_lookup_def dc_put_def Let_def jm_simps)

lemma dc_lookup_put:
  "dc_lookup (dc_put c k d now) k' = Some x \<Longrightarrow>
    (k' = k \<and> x = (d, now + dc_ttlMs c)) \<or> dc_lookup c k' = Some x"
  by (auto simp: dc_lookup_def dc_put_def Let_def dest!: jm_get_bounded_set)

section \<open>The contract, for every time to live\<close>

interpretation dc: ttl_cache_hits "\<lambda>c. dc_inv c \<and> dc_ttlMs c = T" dc_lookup dc_get
  "\<lambda>c k d ttl now. dc_put c k d now" dc_invalidateAll "\<lambda>ttl now. now + T" "\<lambda>c ttl. True" for T
proof (unfold_locales, goal_cases)
  case (6 c k v ttl now k' x)
  then show ?case using dc_lookup_put [of c k v now k' x] by simp
next
  case (7 c k)
  then show ?case by (simp add: dc_lookup_def dc_invalidateAll_def)
qed (auto simp: dc_inv_get dc_inv_put dc_inv_invalidateAll dc_ttl_frame dc_get_Some dc_lookup_get
    dc_lookup_put_same split: if_splits)

section \<open>Properties\<close>

text \<open>Whatever sequence of reads, puts and invalidations a decision cache went through
  since it was built, a decision it serves was put under that very key after the last
  invalidation and less than \<open>ttlMs\<close> milliseconds ago.\<close>

theorem decision_cache_served_was_put:
  assumes "fst (dc_get (cache_run dc_get (\<lambda>c k d ttl now. dc_put c k d now) dc_invalidateAll
      (dc_new m T) ops) k now) = Some d"
  shows "\<exists>ttl t. (k, d, ttl, t) \<in> set (live_puts ops) \<and> now < t + max 0 (to_int32 T)"
proof (rule dc.served_was_put [OF _ _ assms])
  show "dc_inv (dc_new m T) \<and> dc_ttlMs (dc_new m T) = max 0 (to_int32 T)"
    by (simp add: dc_inv_new) (simp add: dc_new_def)
qed (simp add: dc_lookup_def dc_new_def)

theorem decision_cache_served_was_put_witness:
  "\<exists>ttl t. (''k'', True, ttl, t) \<in> set (live_puts [Op_Put ''k'' True 0 5]) \<and> (7::int) < t + max 0 (to_int32 15)"
  by (rule decision_cache_served_was_put [where m = 3]) code_simp

text \<open>A decision that was put is served on every read until its time to live ends,
  however often it is read in between.\<close>

theorem decision_cache_put_then_served:
  assumes "dc_inv c" and "now < t + dc_ttlMs c" and "\<forall>t' \<in> set ts. t' < t + dc_ttlMs c"
  shows "fst (dc_get (cache_run dc_get (\<lambda>c k d ttl now. dc_put c k d now) dc_invalidateAll
      (dc_put c k d t) (map (Op_Get k) ts)) k now) = Some d"
  by (rule dc.put_then_served [where T = "dc_ttlMs c"]) (use assms in simp_all)

theorem decision_cache_put_then_served_witness:
  "fst (dc_get (cache_run dc_get (\<lambda>c k d ttl now. dc_put c k d now) dc_invalidateAll
      (dc_put (dc_new 1 15) ''k'' True 100) (map (Op_Get ''k'') [101, 114])) ''k'' 114) = Some True"
  by (rule decision_cache_put_then_served) code_simp+

text \<open>The capacity invariant: every operation keeps at most \<open>maxSize\<close> fresh entries
  and \<open>2 * maxSize\<close> stale ones, with distinct keys.\<close>

theorem decision_cache_bounded:
  "dc_inv (cache_run dc_get (\<lambda>c k d ttl now. dc_put c k d now) dc_invalidateAll (dc_new m T) ops)"
  by (rule conjunct1 [OF dc.run_inv]) (rule conjI [OF dc_inv_new refl])

end
