(* ===== verification/Breaker_Interface.thy ===== *)
theory Breaker_Interface
  imports Sdk_Prelude
begin

text \<open>
  The interface of the two circuit breakers (the one of the HTTP guards and the per-webhook
  one of the enrichment client): \<open>admit\<close> asks whether a call may go out, \<open>success\<close> and
  \<open>failure\<close> report its outcome. \<open>opened\<close> is the time the breaker tripped, when it is open.
  The client's lemma, that an open breaker rejects every call of its cool-down however the
  calls are spread, is proved once.
\<close>

fun admit_run :: "('b \<Rightarrow> int \<Rightarrow> bool \<times> 'b) \<Rightarrow> 'b \<Rightarrow> int list \<Rightarrow> bool list \<times> 'b" where
  "admit_run admit b [] = ([], b)"
| "admit_run admit b (t # ts) =
     (let (ok, b') = admit b t; (oks, b'') = admit_run admit b' ts in (ok # oks, b''))"

locale breaker =
  fixes inv :: "'b \<Rightarrow> bool"
    and admit :: "'b \<Rightarrow> int \<Rightarrow> bool \<times> 'b"
    and success :: "'b \<Rightarrow> 'b"
    and failure :: "'b \<Rightarrow> int \<Rightarrow> 'b"
    and closed :: "'b \<Rightarrow> bool"
    and opened :: "'b \<Rightarrow> int option"
    and cooldown :: int
  assumes inv_admit: "inv b \<Longrightarrow> inv (snd (admit b now))"
    and inv_success: "inv b \<Longrightarrow> inv (success b)"
    and inv_failure: "inv b \<Longrightarrow> inv (failure b now)"
    and admit_closed: "inv b \<Longrightarrow> closed b \<Longrightarrow> fst (admit b now) \<and> closed (snd (admit b now))"
    and reject_open: "inv b \<Longrightarrow> opened b = Some t \<Longrightarrow> now - t < cooldown \<Longrightarrow>
      \<not> fst (admit b now) \<and> opened (snd (admit b now)) = Some t"
    and probe_open: "inv b \<Longrightarrow> opened b = Some t \<Longrightarrow> cooldown \<le> now - t \<Longrightarrow>
      fst (admit b now) \<and> opened (snd (admit b now)) = None \<and> \<not> closed (snd (admit b now))"
    and success_closes: "inv b \<Longrightarrow> closed (success b)"
    and probe_fails: "inv b \<Longrightarrow> opened b = None \<Longrightarrow> \<not> closed b \<Longrightarrow> opened (failure b now) = Some now"
begin

lemma admits_inv: "inv b \<Longrightarrow> inv (snd (admit_run admit b ts))"
  by (induction ts arbitrary: b) (auto simp: case_prod_unfold Let_def inv_admit)

theorem rejected_while_open:
  assumes "inv b" and "opened b = Some t" and "\<forall>now \<in> set ts. now - t < cooldown"
  shows "fst (admit_run admit b ts) = replicate (length ts) False \<and>
    opened (snd (admit_run admit b ts)) = Some t"
  using assms
proof (induction ts arbitrary: b)
  case (Cons now ts)
  from reject_open [OF Cons.prems(1,2), of now] Cons.prems(3)
  have "\<not> fst (admit b now)" and o: "opened (snd (admit b now)) = Some t" by auto
  moreover note Cons.IH [OF inv_admit [OF Cons.prems(1)] o]
  ultimately show ?case using Cons.prems(3) by (simp add: case_prod_unfold Let_def)
qed simp

text \<open>The recovery cycle: after the cool-down one call goes out; its success closes the
  breaker, its failure opens it again from that moment.\<close>

theorem recovery_cycle:
  assumes "inv b" and "opened b = Some t" and "cooldown \<le> now - t"
  shows "fst (admit b now)" and "closed (success (snd (admit b now)))"
    and "opened (failure (snd (admit b now)) later) = Some later"
  using probe_open [OF assms] inv_admit [OF assms(1)] success_closes probe_fails by auto

end

end
