(* ===== verification/Express_Breaker.thy ===== *)
theory Express_Breaker
  imports Breaker_Interface
begin

text \<open>
  \<^verbatim>\<open>frameworks/express/circuit-breaker.ts\<close>, class \<open>CircuitBreaker\<close>, shared by the Express,
  Fastify, NestJS and Next.js guards. \<open>shouldSkip\<close> returns the answer and the new state.
\<close>

section \<open>State and operations\<close>

datatype breaker_state = Closed | Open | Half_Open

record circuit_breaker =
  cb_state :: breaker_state
  cb_failures :: int
  cb_openedAt :: int
  cb_probing :: bool
  cb_threshold :: int
  cb_resetTimeoutMs :: int

definition cb_new :: "int \<Rightarrow> int \<Rightarrow> circuit_breaker" where
  "cb_new failureThreshold resetTimeoutMs =
     \<lparr>cb_state = Closed, cb_failures = 0, cb_openedAt = 0, cb_probing = False,
      cb_threshold = max 1 (to_int32 failureThreshold),
      cb_resetTimeoutMs = max 0 (to_int32 resetTimeoutMs)\<rparr>"

definition cb_shouldSkip :: "circuit_breaker \<Rightarrow> int \<Rightarrow> bool \<times> circuit_breaker" where
  "cb_shouldSkip b now =
     (if cb_state b = Closed then (False, b)
      else if cb_state b = Open then
        (if now - cb_openedAt b \<ge> cb_resetTimeoutMs b then
           (if \<not> cb_probing b then (False, b\<lparr>cb_state := Half_Open, cb_probing := True\<rparr>)
            else (True, b))
         else (True, b))
      else (True, b))"

definition cb_recordSuccess :: "circuit_breaker \<Rightarrow> circuit_breaker" where
  "cb_recordSuccess b = b\<lparr>cb_failures := 0, cb_state := Closed, cb_probing := False\<rparr>"

definition cb_recordFailure :: "circuit_breaker \<Rightarrow> int \<Rightarrow> circuit_breaker" where
  "cb_recordFailure b now =
     (if cb_state b = Half_Open then
        b\<lparr>cb_state := Open, cb_openedAt := now, cb_probing := False\<rparr>
      else
        (let b' = b\<lparr>cb_failures := cb_failures b + 1\<rparr> in
         if cb_failures b' \<ge> cb_threshold b' then b'\<lparr>cb_state := Open, cb_openedAt := now\<rparr>
         else b'))"

section \<open>Invariant and contract\<close>

definition cb_inv :: "circuit_breaker \<Rightarrow> bool" where
  "cb_inv b \<longleftrightarrow> 1 \<le> cb_threshold b \<and> 0 \<le> cb_resetTimeoutMs b \<and> 0 \<le> cb_failures b \<and>
     (cb_probing b \<longleftrightarrow> cb_state b = Half_Open) \<and>
     (cb_state b = Closed \<longrightarrow> cb_failures b < cb_threshold b)"

definition cb_opened :: "circuit_breaker \<Rightarrow> int option" where
  "cb_opened b = (if cb_state b = Open then Some (cb_openedAt b) else None)"

lemmas cb_defs = cb_inv_def cb_opened_def cb_shouldSkip_def cb_recordSuccess_def
  cb_recordFailure_def Let_def

lemma cb_inv_new: "cb_inv (cb_new n t)"
  by (simp add: cb_inv_def cb_new_def)

lemma cb_inv_shouldSkip: "cb_inv b \<Longrightarrow> cb_inv (snd (cb_shouldSkip b now))"
  by (auto simp: cb_defs)

lemma cb_inv_recordSuccess: "cb_inv b \<Longrightarrow> cb_inv (cb_recordSuccess b)"
  by (auto simp: cb_defs)

lemma cb_inv_recordFailure: "cb_inv b \<Longrightarrow> cb_inv (cb_recordFailure b now)"
  by (cases "cb_state b") (auto simp: cb_defs)

lemma cb_config_frame:
  "cb_resetTimeoutMs (snd (cb_shouldSkip b now)) = cb_resetTimeoutMs b"
  "cb_resetTimeoutMs (cb_recordSuccess b) = cb_resetTimeoutMs b"
  "cb_resetTimeoutMs (cb_recordFailure b now) = cb_resetTimeoutMs b"
  "cb_threshold (snd (cb_shouldSkip b now)) = cb_threshold b"
  "cb_threshold (cb_recordSuccess b) = cb_threshold b"
  "cb_threshold (cb_recordFailure b now) = cb_threshold b"
  by (auto simp: cb_defs)

definition cb_admit :: "circuit_breaker \<Rightarrow> int \<Rightarrow> bool \<times> circuit_breaker" where
  "cb_admit b now = (let (skip, b') = cb_shouldSkip b now in (\<not> skip, b'))"

lemma cb_open_cases:
  "cb_opened b = Some t \<longleftrightarrow> cb_state b = Open \<and> cb_openedAt b = t"
  "cb_opened b = None \<and> cb_state b \<noteq> Closed \<longleftrightarrow> cb_state b = Half_Open"
  by (cases "cb_state b"; simp add: cb_opened_def)+

interpretation cb: breaker "\<lambda>b. cb_inv b \<and> cb_resetTimeoutMs b = T" cb_admit cb_recordSuccess
  cb_recordFailure "\<lambda>b. cb_state b = Closed" cb_opened T for T
proof (unfold_locales, goal_cases)
  case (8 b now)
  then have "cb_state b = Half_Open" using cb_open_cases(2) by blast
  then show ?case by (simp add: cb_opened_def cb_recordFailure_def)
qed (auto simp: cb_admit_def case_prod_unfold cb_inv_shouldSkip cb_inv_recordSuccess
      cb_inv_recordFailure cb_config_frame cb_open_cases, auto simp: cb_defs split: if_splits)

section \<open>Half-open: one probe\<close>

lemma half_open_stuck:
  "cb_state b = Half_Open \<Longrightarrow> admit_run cb_admit b ts = (replicate (length ts) False, b)"
  by (induction ts) (auto simp: cb_admit_def cb_shouldSkip_def)

section \<open>Runs of failures\<close>

fun cb_fails :: "circuit_breaker \<Rightarrow> int list \<Rightarrow> circuit_breaker" where
  "cb_fails b [] = b"
| "cb_fails b (t # ts) = cb_fails (cb_recordFailure b t) ts"

lemma cb_fails_count:
  assumes "cb_state b = Closed" and "cb_failures b + int (length ts) < cb_threshold b"
  shows "cb_state (cb_fails b ts) = Closed \<and> cb_failures (cb_fails b ts) = cb_failures b + int (length ts) \<and>
    cb_threshold (cb_fails b ts) = cb_threshold b"
  using assms by (induction ts arbitrary: b) (auto simp: cb_recordFailure_def Let_def)

lemma cb_fails_open:
  "cb_inv b \<Longrightarrow> cb_state b = Open \<Longrightarrow> cb_threshold b \<le> cb_failures b \<Longrightarrow> cb_state (cb_fails b ts) = Open"
proof (induction ts arbitrary: b)
  case (Cons t ts)
  show ?case using Cons.prems
    by (simp, intro Cons.IH cb_inv_recordFailure) (auto simp: cb_recordFailure_def Let_def)
qed simp

lemma cb_fails_append: "cb_fails b (xs @ ys) = cb_fails (cb_fails b xs) ys"
  by (induction b xs rule: cb_fails.induct) auto

lemma cb_inv_fails: "cb_inv b \<Longrightarrow> cb_inv (cb_fails b ts)"
  by (induction b ts rule: cb_fails.induct) (auto simp: cb_inv_recordFailure)

datatype cb_event = Ev_Ask int | Ev_Success | Ev_Failure int

fun cb_event_step :: "circuit_breaker \<Rightarrow> cb_event \<Rightarrow> circuit_breaker" where
  "cb_event_step b (Ev_Ask now) = snd (cb_shouldSkip b now)"
| "cb_event_step b Ev_Success = cb_recordSuccess b"
| "cb_event_step b (Ev_Failure now) = cb_recordFailure b now"

definition cb_run :: "circuit_breaker \<Rightarrow> cb_event list \<Rightarrow> circuit_breaker" where
  "cb_run b es = foldl cb_event_step b es"

lemma cb_run_config:
  "cb_inv b \<Longrightarrow> cb_inv (cb_run b es) \<and> cb_threshold (cb_run b es) = cb_threshold b \<and>
    cb_resetTimeoutMs (cb_run b es) = cb_resetTimeoutMs b"
proof (induction es arbitrary: b)
  case (Cons e es)
  have "cb_inv (cb_event_step b e)" using Cons.prems
    by (cases e) (auto simp: cb_inv_shouldSkip cb_inv_recordSuccess cb_inv_recordFailure)
  from Cons.IH [OF this] show ?case
    by (cases e) (auto simp: cb_run_def cb_config_frame)
qed (simp add: cb_run_def)

text \<open>Whatever happened before, after a success the guard's breaker is tripped by exactly
  \<open>max(1, failureThreshold | 0)\<close> consecutive failures: fewer leave it closed, that many or
  more open it.\<close>

theorem breaker_trips_exactly_at_threshold:
  "cb_state (cb_fails (cb_recordSuccess (cb_run (cb_new n r) es)) ts) =
     (if int (length ts) < max 1 (to_int32 n) then Closed else Open)"
proof -
  define b where "b = cb_recordSuccess (cb_run (cb_new n r) es)"
  have inv: "cb_inv b" and th: "cb_threshold b = max 1 (to_int32 n)" and st: "cb_state b = Closed"
    and f: "cb_failures b = 0"
    using cb_run_config [OF cb_inv_new, of n r es]
    by (auto simp: b_def cb_inv_recordSuccess cb_config_frame) (auto simp: cb_recordSuccess_def cb_new_def)
  define k where "k = nat (cb_threshold b) - 1"
  have k: "int k = cb_threshold b - 1" using th by (simp add: k_def)
  show ?thesis
  proof (cases "int (length ts) < cb_threshold b")
    case True then show ?thesis using cb_fails_count [OF st, of ts] f th by (simp add: b_def)
  next
    case False
    then have len: "k < length ts" using k by linarith
    define c where "c = cb_fails b (take k ts)"
    have c: "cb_state c = Closed" "cb_failures c = int k" "cb_threshold c = cb_threshold b" "cb_inv c"
      using cb_fails_count [OF st, of "take k ts"] f k len cb_inv_fails [OF inv] by (auto simp: c_def)
    have ts: "ts = take k ts @ ts ! k # drop (Suc k) ts" using len by (rule id_take_nth_drop)
    have "cb_state (cb_fails (cb_recordFailure c (ts ! k)) (drop (Suc k) ts)) = Open"
      using c k by (intro cb_fails_open cb_inv_recordFailure) (auto simp: cb_recordFailure_def Let_def)
    then have "cb_state (cb_fails b ts) = Open" using ts by (metis c_def cb_fails.simps(2) cb_fails_append)
    then show ?thesis using False th by (simp add: b_def)
  qed
qed

text \<open>Once the breaker is open, every call asked for less than \<open>resetTimeoutMs\<close> after it
  tripped is skipped, however many there are; the first one after that is let through, and its
  outcome decides: a success closes the breaker, a failure opens it again from that moment.\<close>

theorem breaker_cool_down:
  assumes "cb_state (cb_run (cb_new n r) es) = Open"
    and "\<forall>now \<in> set ts. now - cb_openedAt (cb_run (cb_new n r) es) < max 0 (to_int32 r)"
    and "max 0 (to_int32 r) \<le> probe - cb_openedAt (cb_run (cb_new n r) es)"
  shows "let b = snd (admit_run cb_admit (cb_run (cb_new n r) es) ts); p = snd (cb_shouldSkip b probe)
    in fst (admit_run cb_admit (cb_run (cb_new n r) es) ts) = replicate (length ts) False \<and>
       \<not> fst (cb_shouldSkip b probe) \<and>
       cb_state (cb_recordSuccess p) = Closed \<and>
       cb_state (cb_recordFailure p later) = Open \<and> cb_openedAt (cb_recordFailure p later) = later"
proof -
  define c where "c = cb_run (cb_new n r) es"
  define T where "T = max 0 (to_int32 r)"
  have i: "cb_inv c \<and> cb_resetTimeoutMs c = T" using cb_run_config [OF cb_inv_new, of n r es]
    by (simp add: c_def T_def) (simp add: cb_new_def)
  have o: "cb_opened c = Some (cb_openedAt c)" using assms(1) by (simp add: cb_opened_def c_def)
  note rej = cb.rejected_while_open [OF i o, of ts]
  have ib: "cb_inv (snd (admit_run cb_admit c ts)) \<and> cb_resetTimeoutMs (snd (admit_run cb_admit c ts)) = T"
    by (rule cb.admits_inv [OF i])
  have ob: "cb_opened (snd (admit_run cb_admit c ts)) = Some (cb_openedAt c)"
    using rej assms(2) by (simp add: c_def T_def)
  note rec = cb.recovery_cycle [OF ib ob, of probe]
  show ?thesis using rej rec assms(2,3)
    by (simp add: Let_def c_def [symmetric] T_def [symmetric] cb_admit_def case_prod_unfold cb_open_cases)
qed

theorem breaker_cool_down_witness:
  "let c = cb_run (cb_new 2 1000) [Ev_Failure 5, Ev_Failure 10];
       b = snd (admit_run cb_admit c [11, 500, 1009]); p = snd (cb_shouldSkip b 1010) in
   fst (admit_run cb_admit c [11, 500, 1009]) = [False, False, False] \<and> \<not> fst (cb_shouldSkip b 1010) \<and>
   cb_state (cb_recordSuccess p) = Closed \<and> cb_state (cb_recordFailure p 1200) = Open \<and>
   cb_openedAt (cb_recordFailure p 1200) = 1200"
proof -
  have c: "cb_run (cb_new 2 1000) [Ev_Failure 5, Ev_Failure 10] =
      \<lparr>cb_state = Open, cb_failures = 2, cb_openedAt = 10, cb_probing = False,
       cb_threshold = 2, cb_resetTimeoutMs = 1000\<rparr>"
    by (simp add: cb_run_def cb_new_def cb_recordFailure_def to_int32_id)
  have t: "max 0 (to_int32 1000) = 1000" by (simp add: to_int32_id)
  show ?thesis
    using breaker_cool_down [of 2 1000 "[Ev_Failure 5, Ev_Failure 10]" "[11, 500, 1009]" 1010 1200]
    by (simp add: c t Let_def)
qed

end
