(* ===== verification/Json_Text.thy ===== *)
theory Json_Text
  imports Js_Text "HOL-Library.Multiset"
begin

text \<open>
  JSON-shaped values and the deterministic text forms the SDK keys its caches by:
  \<open>stable_stringify\<close> (\<^verbatim>\<open>simulate-cache.ts\<close>, and word for word again in
  \<^verbatim>\<open>frameworks/express/decision-cache.ts\<close>) and \<open>canonicalJsonStringify\<close>
  (\<^verbatim>\<open>evaluation/cedar-client.ts\<close>). A finite number is represented by its
  \<^verbatim>\<open>Number::toString\<close> text, which is what \<^verbatim>\<open>JSON.stringify\<close> prints; functions, symbols,
  bigints, class instances and \<^verbatim>\<open>toJSON\<close> methods are not values of the model. An object is
  the list of its own enumerable entries. The main result is that both text forms determine
  the value up to the order of object keys.
\<close>

section \<open>Values\<close>

datatype jval =
    JUndefined
  | JNull
  | JBool bool
  | JNum string
  | JStr string
  | JArr "jval list"
  | JObj "(string \<times> jval) list"

fun js_join :: "string \<Rightarrow> string list \<Rightarrow> string" where
  "js_join sep [] = []"
| "js_join sep [x] = x"
| "js_join sep (x # y # xs) = x @ sep @ js_join sep (y # xs)"

definition hex_digit :: "nat \<Rightarrow> char" where
  "hex_digit n = (if n < 10 then char_of (48 + n) else char_of (87 + n))"

text \<open>The escapes of \<^verbatim>\<open>JSON.stringify\<close> on a string.\<close>

definition quote_char :: "char \<Rightarrow> string" where
  "quote_char c =
     (let n = of_char c :: nat in
      if n = 34 then [CHR 0x5C, CHR 0x22]
      else if n = 92 then [CHR 0x5C, CHR 0x5C]
      else if n = 8 then [CHR 0x5C, CHR ''b'']
      else if n = 9 then [CHR 0x5C, CHR ''t'']
      else if n = 10 then [CHR 0x5C, CHR ''n'']
      else if n = 12 then [CHR 0x5C, CHR ''f'']
      else if n = 13 then [CHR 0x5C, CHR ''r'']
      else if n < 32 then [CHR 0x5C, CHR ''u'', CHR ''0'', CHR ''0'', hex_digit (n div 16), hex_digit (n mod 16)]
      else [c])"

definition json_quote :: "string \<Rightarrow> string" where
  "json_quote s = CHR 0x22 # concat (map quote_char s) @ [CHR 0x22]"

text \<open>\<^verbatim>\<open>JSON.stringify\<close> of a value that is not an object: \<^const>\<open>None\<close> is \<^verbatim>\<open>undefined\<close>.\<close>

fun json_primitive :: "jval \<Rightarrow> string option" where
  "json_primitive JUndefined = None"
| "json_primitive JNull = Some ''null''"
| "json_primitive (JBool b) = Some (if b then ''true'' else ''false'')"
| "json_primitive (JNum t) = Some t"
| "json_primitive (JStr s) = Some (json_quote s)"
| "json_primitive _ = None"

section \<open>The two text forms\<close>

lemma size_elem [termination_simp]: "v \<in> set vs \<Longrightarrow> size v < Suc (size_list size vs)"
  by (simp add: less_Suc_eq_le size_list_estimation')

lemma size_entry [termination_simp]:
  "(k, v) \<in> set kvs \<Longrightarrow> size v < Suc (size_list (size_prod (\<lambda>_. 0) size) kvs)"
  by (induction kvs) auto

text \<open>
  In an array, \<^verbatim>\<open>join\<close> prints an undefined element as the empty string; in an object the
  concatenation prints an undefined value as the word. The keys are sorted, then each value
  is printed; here each value is printed, then the entries are sorted.
\<close>

fun stable_stringify :: "jval \<Rightarrow> string option" where
  "stable_stringify (JArr vs) =
     Some (''['' @ js_join '','' (map (\<lambda>v. case stable_stringify v of None \<Rightarrow> [] | Some t \<Rightarrow> t) vs) @ '']'')"
| "stable_stringify (JObj kvs) =
     Some (''{'' @ js_join '',''
       (map (\<lambda>(k, t). json_quote k @ '':'' @ (case t of None \<Rightarrow> ''undefined'' | Some t \<Rightarrow> t))
         (sort_key fst (map (\<lambda>(k, v). (k, stable_stringify v)) kvs))) @ ''}'')"
| "stable_stringify v = json_primitive v"

definition hashContext :: "jval \<Rightarrow> string" where
  "hashContext ctx =
     (if ctx = JUndefined \<or> ctx = JNull then []
      else case stable_stringify ctx of None \<Rightarrow> ''undefined'' | Some t \<Rightarrow> t)"

fun canonicalJsonStringify :: "jval \<Rightarrow> string" where
  "canonicalJsonStringify JUndefined = ''null''"
| "canonicalJsonStringify (JArr vs) =
     ''['' @ js_join '','' (map canonicalJsonStringify vs) @ '']''"
| "canonicalJsonStringify (JObj kvs) =
     ''{'' @ js_join '',''
       (map (\<lambda>(k, t). json_quote k @ '':'' @ t)
         (sort_key fst (map (\<lambda>(k, v). (k, canonicalJsonStringify v))
           (filter (\<lambda>(k, v). v \<noteq> JUndefined) kvs)))) @ ''}''"
| "canonicalJsonStringify v = (case json_primitive v of None \<Rightarrow> ''null'' | Some t \<Rightarrow> t)"

section \<open>Well-formed values and their normal form\<close>

definition is_num_char :: "char \<Rightarrow> bool" where
  "is_num_char c \<longleftrightarrow> is_digit c \<or> c \<in> set ''+-.e''"

text \<open>A value \<^verbatim>\<open>JSON.parse\<close> can return: no \<^verbatim>\<open>undefined\<close>, distinct keys, numbers with their text.\<close>

fun json_ok :: "jval \<Rightarrow> bool" where
  "json_ok JUndefined = False"
| "json_ok (JNum t) = (t \<noteq> [] \<and> list_all is_num_char t)"
| "json_ok (JArr vs) = list_all json_ok vs"
| "json_ok (JObj kvs) = (distinct (map fst kvs) \<and> list_all (\<lambda>(k, v). json_ok v) kvs)"
| "json_ok v = True"

text \<open>The normal form: every object's keys in order. Two values with the same normal form
  are the same up to the order of keys.\<close>

fun jcanon :: "jval \<Rightarrow> jval" where
  "jcanon (JArr vs) = JArr (map jcanon vs)"
| "jcanon (JObj kvs) = JObj (sort_key fst (map (\<lambda>(k, v). (k, jcanon v)) kvs))"
| "jcanon v = v"

fun render :: "jval \<Rightarrow> string" where
  "render (JArr vs) = ''['' @ js_join '','' (map render vs) @ '']''"
| "render (JObj kvs) = ''{'' @ js_join '','' (map (\<lambda>(k, v). json_quote k @ '':'' @ render v) kvs) @ ''}''"
| "render v = (case json_primitive v of None \<Rightarrow> ''null'' | Some t \<Rightarrow> t)"

lemma sort_key_map_entry:
  "sort_key fst (map (\<lambda>p. (fst p, h p)) xs) = map (\<lambda>p. (fst p, h p)) (sort_key fst xs)"
proof (induction xs)
  case (Cons x xs)
  have "insort_key fst (fst x, h x) (map (\<lambda>p. (fst p, h p)) ys) = map (\<lambda>p. (fst p, h p)) (insort_key fst x ys)" for ys
    by (induction ys) auto
  with Cons show ?case by simp
qed simp

lemma json_ok_entry: "json_ok (JObj kvs) \<Longrightarrow> (k, v) \<in> set kvs \<Longrightarrow> json_ok v"
  by (auto simp: list_all_iff)

lemma json_ok_not_undefined: "json_ok v \<Longrightarrow> v \<noteq> JUndefined"
  by auto

lemma stable_stringify_render: "json_ok v \<Longrightarrow> stable_stringify v = Some (render (jcanon v))"
proof (induction v rule: json_ok.induct)
  case (3 vs)
  then have eq: "map (\<lambda>v. case stable_stringify v of None \<Rightarrow> [] | Some t \<Rightarrow> t) vs = map (render \<circ> jcanon) vs"
    by (auto simp: list_all_iff)
  show ?case by (simp only: stable_stringify.simps jcanon.simps render.simps eq map_map)
next
  case (4 kvs)
  have "map (\<lambda>(k, v). (k, stable_stringify v)) kvs = map (\<lambda>(k, v). (k, Some (render (jcanon v)))) kvs"
    using "4.IH" "4.prems" by (auto simp: list_all_iff)
  then show ?case by (simp add: sort_key_map_entry o_def case_prod_unfold cong: map_cong)
qed auto

lemma canonicalJsonStringify_render: "json_ok v \<Longrightarrow> canonicalJsonStringify v = render (jcanon v)"
proof (induction v rule: json_ok.induct)
  case (3 vs)
  then have eq: "map canonicalJsonStringify vs = map (render \<circ> jcanon) vs"
    by (auto simp: list_all_iff)
  show ?case by (simp only: canonicalJsonStringify.simps jcanon.simps render.simps eq map_map)
next
  case (4 kvs)
  have f: "filter (\<lambda>(k, v). v \<noteq> JUndefined) kvs = kvs"
    using json_ok_entry [OF "4.prems"] by (fastforce simp: filter_id_conv)
  have "map (\<lambda>(k, v). (k, canonicalJsonStringify v)) kvs = map (\<lambda>(k, v). (k, render (jcanon v))) kvs"
    using "4.IH" "4.prems" by (auto simp: list_all_iff)
  then show ?case using f by (simp add: sort_key_map_entry o_def case_prod_unfold cong: map_cong)
qed auto

lemma json_ok_jcanon: "json_ok v \<Longrightarrow> json_ok (jcanon v)"
proof (induction v rule: json_ok.induct)
  case (4 kvs)
  have "mset (map fst (sort_key fst (map (\<lambda>(k, v). (k, jcanon v)) kvs))) = mset (map fst kvs)"
    by (simp add: o_def case_prod_unfold image_mset.compositionality)
  then have "distinct (map fst (sort_key fst (map (\<lambda>(k, v). (k, jcanon v)) kvs))) = distinct (map fst kvs)"
    by (rule mset_eq_imp_distinct_iff)
  with 4 show ?case by (auto simp: list_all_iff)
qed (auto simp: list_all_iff)

section \<open>The texts are self-delimiting\<close>

definition delim :: "string \<Rightarrow> bool" where
  "delim r \<longleftrightarrow> r = [] \<or> hd r \<in> set '',]}''"

lemma delim_simps [simp]: "delim []" "delim (c # r) \<longleftrightarrow> c \<in> set '',]}''"
  by (simp_all add: delim_def)

lemma is_num_char_delim: "is_num_char c \<Longrightarrow> c \<notin> set ''\",]}[{ntf''"
  by (auto simp: is_num_char_def is_digit_def)

lemma num_split:
  assumes "list_all is_num_char t" and "list_all is_num_char u" and "delim r" and "delim s"
    and "t @ r = u @ s"
  shows "t = u \<and> r = s"
proof -
  have stop: "delim r \<Longrightarrow> r = [] \<or> \<not> is_num_char (hd r)" for r
    by (auto simp: delim_def dest: is_num_char_delim)
  have "takeWhile is_num_char (t @ r) = t" "takeWhile is_num_char (u @ s) = u"
    using assms(1-4) stop
    by (auto simp: list_all_iff takeWhile_append2 takeWhile_eq_Nil_iff)
  with assms(5) show ?thesis by auto
qed

definition hex_val :: "char \<Rightarrow> nat" where
  "hex_val c = (if of_char c < (58 :: nat) then of_char c - 48 else of_char c - 87)"

lemma hex_val_digit: "n < 16 \<Longrightarrow> hex_val (hex_digit n) = n"
  by (simp add: hex_val_def hex_digit_def)

text \<open>Escapes are a prefix code: two texts that start with escapes agree on the first character.\<close>

definition escaped :: "char \<Rightarrow> bool" where
  "escaped c \<longleftrightarrow> (let n = of_char c :: nat in n < 32 \<or> n = 34 \<or> n = 92)"

definition escape_code :: "nat \<Rightarrow> string" where
  "escape_code n =
     (if n = 34 then [CHR 0x22] else if n = 92 then [CHR 0x5C] else if n = 8 then [CHR ''b'']
      else if n = 9 then [CHR ''t''] else if n = 10 then [CHR ''n''] else if n = 12 then [CHR ''f'']
      else if n = 13 then [CHR ''r'']
      else [CHR ''u'', CHR ''0'', CHR ''0'', hex_digit (n div 16), hex_digit (n mod 16)])"

lemma quote_char_alt: "quote_char c = (if escaped c then CHR 0x5C # escape_code (of_char c) else [c])"
  by (simp add: quote_char_def escaped_def escape_code_def Let_def)

text \<open>The reader of an escape: its character code and what follows.\<close>

definition read_escape :: "string \<Rightarrow> nat \<times> string" where
  "read_escape t =
     (let c = hd t; r = tl t in
      if c = CHR 0x22 then (34, r) else if c = CHR 0x5C then (92, r) else if c = CHR ''b'' then (8, r)
      else if c = CHR ''t'' then (9, r) else if c = CHR ''n'' then (10, r) else if c = CHR ''f'' then (12, r)
      else if c = CHR ''r'' then (13, r)
      else (case r of _ # _ # a # b # r' \<Rightarrow> (16 * hex_val a + hex_val b, r') | _ \<Rightarrow> (0, [])))"

lemma read_escape_code:
  assumes "n < 32 \<or> n = 34 \<or> n = 92"
  shows "read_escape (escape_code n @ r) = (n, r)"
proof -
  have "n div 16 < 16" and "n mod 16 < 16" using assms by auto
  then show ?thesis
    by (simp add: read_escape_def escape_code_def Let_def hex_val_digit)
qed

lemma escape_code_split:
  assumes "m < 32 \<or> m = 34 \<or> m = 92" and "n < 32 \<or> n = 34 \<or> n = 92"
    and "escape_code m @ r = escape_code n @ s"
  shows "m = n \<and> r = s"
proof -
  have "(m, r) = read_escape (escape_code m @ r)" by (rule read_escape_code [OF assms(1), symmetric])
  also have "\<dots> = (n, s)" unfolding assms(3) by (rule read_escape_code [OF assms(2)])
  finally show ?thesis by simp
qed

lemma quote_char_split:
  assumes "quote_char c @ r = quote_char d @ s"
  shows "c = d \<and> r = s"
proof (cases "escaped c = escaped d")
  case True
  with assms have "(of_char c :: nat) = of_char d \<and> r = s" if "escaped c"
    using that escape_code_split [of "of_char c" "of_char d" r s]
    by (simp add: quote_char_alt escaped_def Let_def)
  with assms True show ?thesis by (cases "escaped c") (auto simp: quote_char_alt)
next
  case False
  have "escaped (CHR 0x5C)" by (simp add: escaped_def)
  with False assms show ?thesis by (auto simp: quote_char_alt split: if_splits)
qed

lemma quote_char_end: "quote_char c @ r \<noteq> CHR 0x22 # s"
  by (auto simp: quote_char_def Let_def)

lemma json_quote_split:
  "json_quote a @ r = json_quote b @ s \<Longrightarrow> a = b \<and> r = s"
proof (induction a arbitrary: b)
  case Nil
  then show ?case
    using quote_char_end by (cases b) (auto simp: json_quote_def dest: sym)
next
  case (Cons c a)
  then show ?case
  proof (cases b)
    case Nil
    with Cons.prems show ?thesis using quote_char_end by (auto simp: json_quote_def)
  next
    case b: (Cons d b')
    with Cons.prems have "c = d \<and> json_quote a @ r = json_quote b' @ s"
      using quote_char_split [of c "concat (map quote_char a) @ CHR 0x22 # r" d
          "concat (map quote_char b') @ CHR 0x22 # s"] by (simp add: json_quote_def)
    with Cons.IH b show ?thesis by blast
  qed
qed

text \<open>
  A list of texts joined by commas and closed by a bracket: if each text is self-delimiting
  before a delimiter, so is the whole.
\<close>

lemma js_join_Cons:
  "js_join '','' (x # xs) @ c # r = x @ (if xs = [] then c # r else CHR '','' # js_join '','' xs @ c # r)"
  by (cases xs) auto

definition join_tail :: "char \<Rightarrow> string list \<Rightarrow> string \<Rightarrow> string" where
  "join_tail cl ts r = (if ts = [] then cl # r else CHR '','' # js_join '','' ts @ cl # r)"

lemma js_join_tail: "js_join '','' (x # xs) @ c # r = x @ join_tail c xs r"
  by (simp add: js_join_Cons join_tail_def)

lemma join_tail_delim: "cl = CHR '']'' \<or> cl = CHR ''}'' \<Longrightarrow> delim (join_tail cl ts r)"
  by (auto simp: join_tail_def)

lemma join_tail_inject:
  "cl = CHR '']'' \<or> cl = CHR ''}'' \<Longrightarrow> join_tail cl ts r = join_tail cl us s \<Longrightarrow>
    js_join '','' ts @ cl # r = js_join '','' us @ cl # s"
  by (auto simp: join_tail_def split: if_splits)

lemma joined_split:
  assumes item: "\<And>x y r s. x \<in> set xs \<Longrightarrow> P y \<Longrightarrow> delim r \<Longrightarrow> delim s \<Longrightarrow>
      enc x @ r = enc y @ s \<Longrightarrow> x = y \<and> r = s"
    and start: "\<And>x t. P x \<Longrightarrow> \<not> delim (enc x @ t)" and cl: "cl = CHR '']'' \<or> cl = CHR ''}''"
    and "\<forall>x \<in> set xs. P x" and "\<forall>y \<in> set ys. P y"
    and "js_join '','' (map enc xs) @ cl # r = js_join '','' (map enc ys) @ cl # s"
  shows "xs = ys \<and> r = s"
  using assms(4-6) item
proof (induction xs arbitrary: ys)
  case Nil
  have d: "delim (cl # r)" using cl by auto
  show ?case
  proof (cases ys)
    case (Cons y ys')
    have "cl # r = enc y @ join_tail cl (map enc ys') s"
      using Nil.prems(3) by (simp only: Cons list.map js_join_tail js_join.simps append_Nil)
    then have "\<not> delim (cl # r)" using start [of y] Nil.prems(2) Cons by simp
    with d show ?thesis by blast
  next
    case Nil': Nil
    with Nil.prems(3) show ?thesis by simp
  qed
next
  case (Cons x xs)
  have d: "delim (cl # s)" using cl by auto
  show ?case
  proof (cases ys)
    case Nil
    have "cl # s = enc x @ join_tail cl (map enc xs) r"
      using Cons.prems(3) by (simp only: Nil list.map js_join_tail js_join.simps append_Nil)
    then have "\<not> delim (cl # s)" using start [of x] Cons.prems(1) by simp
    with d show ?thesis by blast
  next
    case ys: (Cons y ys')
    have "enc x @ join_tail cl (map enc xs) r = enc y @ join_tail cl (map enc ys') s"
      using Cons.prems(3) by (simp only: ys list.map js_join_tail)
    then have eq: "x = y \<and> join_tail cl (map enc xs) r = join_tail cl (map enc ys') s"
      by (intro Cons.prems(4)) (use Cons.prems(2) ys in \<open>simp_all add: join_tail_delim [OF cl]\<close>)
    have "xs = ys' \<and> r = s"
    proof (rule Cons.IH)
      show "js_join '','' (map enc xs) @ cl # r = js_join '','' (map enc ys') @ cl # s"
        by (rule join_tail_inject [OF cl]) (use eq in simp)
      show "\<forall>x \<in> set xs. P x" "\<forall>y \<in> set ys'. P y" using Cons.prems(1,2) ys by simp_all
      show "x = y \<and> r = s" if "x \<in> set xs" "P y" "delim r" "delim s" "enc x @ r = enc y @ s" for x y r s
        by (rule Cons.prems(4) [OF _ that(2-5)]) (simp add: that(1))
    qed
    with eq ys show ?thesis by simp
  qed
qed

lemma num_hd: "t \<noteq> [] \<Longrightarrow> list_all is_num_char t \<Longrightarrow> hd t \<notin> set ''\",]}[{ntf''"
  by (cases t) (auto dest: is_num_char_delim)

lemma render_hd:
  "json_ok v \<Longrightarrow> render v \<noteq> [] \<and>
    (case v of JNull \<Rightarrow> hd (render v) = CHR ''n''
     | JBool b \<Rightarrow> hd (render v) = (if b then CHR ''t'' else CHR ''f'')
     | JNum t \<Rightarrow> hd (render v) \<notin> set ''\",]}[{ntf''
     | JStr s \<Rightarrow> hd (render v) = CHR 0x22
     | JArr vs \<Rightarrow> hd (render v) = CHR ''[''
     | JObj kvs \<Rightarrow> hd (render v) = CHR ''{'' | JUndefined \<Rightarrow> True)"
  using num_hd by (cases v) (auto simp: json_quote_def)

lemma render_start: "json_ok v \<Longrightarrow> \<not> delim (render v @ r)"
  using render_hd [of v] by (cases v) (auto simp: delim_def hd_append split: if_splits)

lemma render_hd_eq:
  "json_ok v \<Longrightarrow> json_ok w \<Longrightarrow> render v @ r = render w @ s \<Longrightarrow> hd (render v) = hd (render w)"
  using render_hd [of v] render_hd [of w] by (metis hd_append2)

lemma entry_split:
  assumes "json_quote a @ '':'' @ render v @ r = json_quote b @ '':'' @ render w @ s"
    and "\<And>r s. delim r \<Longrightarrow> delim s \<Longrightarrow> render v @ r = render w @ s \<Longrightarrow> v = w \<and> r = s"
    and "delim r" and "delim s"
  shows "(a, v) = (b, w) \<and> r = s"
  using json_quote_split [OF assms(1)] assms(2-4) by auto

text \<open>The text of a value, followed by a delimiter or nothing, determines the value.\<close>

lemma render_split:
  "json_ok v \<Longrightarrow> json_ok w \<Longrightarrow> delim r \<Longrightarrow> delim s \<Longrightarrow> render v @ r = render w @ s \<Longrightarrow> v = w \<and> r = s"
proof (induction v arbitrary: w r s)
  case JUndefined
  then show ?case by simp
next
  case JNull
  then show ?case
    using render_hd [of w] render_hd_eq [OF JNull.prems(1,2,5)] by (cases w) (auto split: if_splits)
next
  case (JBool b)
  then show ?case
    using render_hd [of w] render_hd_eq [OF JBool.prems(1,2,5)] by (cases w) (auto split: if_splits)
next
  case (JNum t)
  obtain u where w: "w = JNum u"
    using render_hd [of w] render_hd [of "JNum t"] render_hd_eq [OF JNum.prems(1,2,5)] JNum.prems(1,2)
    by (cases w) (auto split: if_splits)
  then show ?case using num_split [of t u r s] JNum.prems by simp
next
  case (JStr t)
  then show ?case
    using render_hd [of "JStr t"] render_hd [of w] render_hd_eq [OF JStr.prems(1,2,5)]
    by (cases w) (auto dest: json_quote_split split: if_splits)
next
  case (JArr vs)
  obtain ws where w: "w = JArr ws"
    using render_hd [of w] render_hd_eq [OF JArr.prems(1,2,5)] JArr.prems(2)
    by (cases w) (auto split: if_splits)
  have "vs = ws \<and> r = s"
  proof (rule joined_split [where P = json_ok and enc = render and cl = "CHR '']''"])
    show "js_join '','' (map render vs) @ CHR '']'' # r = js_join '','' (map render ws) @ CHR '']'' # s"
      using JArr.prems(5) w by simp
  qed (use JArr w in \<open>auto simp: list_all_iff render_start\<close>)
  with w show ?case by simp
next
  case (JObj kvs)
  obtain ws where w: "w = JObj ws"
    using render_hd [of w] render_hd_eq [OF JObj.prems(1,2,5)] JObj.prems(2)
    by (cases w) (auto split: if_splits)
  let ?enc = "\<lambda>(k, v). json_quote k @ '':'' @ render v"
  have "kvs = ws \<and> r = s"
  proof (rule joined_split [where P = "\<lambda>(k, v). json_ok v" and enc = ?enc and cl = "CHR ''}''"])
    show "js_join '','' (map ?enc kvs) @ CHR ''}'' # r = js_join '','' (map ?enc ws) @ CHR ''}'' # s"
      using JObj.prems(5) w by simp
  next
    fix x y r s
    assume x: "x \<in> set kvs" and y: "case y of (k, v) \<Rightarrow> json_ok v" and d: "delim r" "delim s"
      and eq: "?enc x @ r = ?enc y @ s"
    obtain a v b u where xy: "x = (a, v)" "y = (b, u)" by fastforce
    have ok: "json_ok v" using JObj.prems(1) x xy by (auto simp: list_all_iff)
    show "x = y \<and> r = s"
      unfolding xy
    proof (rule entry_split [OF _ _ d])
      show "json_quote a @ '':'' @ render v @ r = json_quote b @ '':'' @ render u @ s"
        using eq xy by simp
      show "v = u \<and> r' = s'" if "delim r'" "delim s'" "render v @ r' = render u @ s'" for r' s'
        using JObj.IH [of "(a, v)" v u r' s'] x xy y ok that by simp
    qed
  qed (use JObj.prems w in \<open>auto simp: list_all_iff json_quote_def\<close>)
  with w show ?case by simp
qed

theorem render_inject: "json_ok v \<Longrightarrow> json_ok w \<Longrightarrow> render v = render w \<longleftrightarrow> v = w"
  using render_split [of v w "[]" "[]"] by auto

lemma jcanon_eq_iff:
  "json_ok v \<Longrightarrow> json_ok w \<Longrightarrow> render (jcanon v) = render (jcanon w) \<longleftrightarrow> jcanon v = jcanon w"
  by (rule render_inject) (simp_all add: json_ok_jcanon)

lemma stable_stringify_obj_end:
  "stable_stringify (JObj kvs) = Some t \<Longrightarrow> \<exists>u. t = u @ ''}''"
  by auto

section \<open>Properties\<close>

text \<open>Two JSON values have the same cache text exactly when they are the same value up
  to the order of object keys.\<close>

theorem stable_stringify_inject:
  assumes "json_ok v" and "json_ok w"
  shows "stable_stringify v = stable_stringify w \<longleftrightarrow> jcanon v = jcanon w"
  using assms by (simp add: stable_stringify_render jcanon_eq_iff)

theorem stable_stringify_inject_witness:
  "stable_stringify (JObj [(''b'', JNum ''1''), (''a'', JArr [JNull, JStr ''x'' ])]) =
   stable_stringify (JObj [(''a'', JArr [JNull, JStr ''x'']), (''b'', JNum ''1'')])"
  by (rule stable_stringify_inject [THEN iffD2]) code_simp+

text \<open>The canonical text hashed for an approval grant separates any two argument
  values that differ in more than the order of object keys.\<close>

theorem canonicalJsonStringify_inject:
  assumes "json_ok v" and "json_ok w"
  shows "canonicalJsonStringify v = canonicalJsonStringify w \<longleftrightarrow> jcanon v = jcanon w"
  using assms by (simp add: canonicalJsonStringify_render jcanon_eq_iff)

theorem canonicalJsonStringify_inject_witness:
  "canonicalJsonStringify (JObj [(''to'', JStr ''a'')]) \<noteq> canonicalJsonStringify (JObj [(''to'', JStr ''b'')])"
  using canonicalJsonStringify_inject [of "JObj [(''to'', JStr ''a'')]" "JObj [(''to'', JStr ''b'')]"]
  by simp

text \<open>Outside JSON the cache text does collide: an array holding one \<^verbatim>\<open>undefined\<close> has the
  text of the empty array.\<close>

theorem stable_stringify_undefined_collision:
  "stable_stringify (JArr [JUndefined]) = stable_stringify (JArr [])"
  by simp

end
