(* ===== verification/Express_Guard.thy ===== *)
theory Express_Guard
  imports Decision_Cache Express_Breaker Json_Text
begin

text \<open>
  \<^verbatim>\<open>frameworks/express/guard.ts\<close>, the per-route policy guard, with the helpers it calls in
  \<^verbatim>\<open>types.ts\<close> (\<open>parseHitlAdvice\<close>) and \<^verbatim>\<open>frameworks/_pdp-observability.ts\<close>. A request is handled
  in two steps, split where the handler awaits the policy server: \<open>guard_begin\<close> (cache, breaker
  and health short cuts) and \<open>guard_finish\<close> (the answer, the human escalation, the cache
  write). Between the two other requests may run, so the shared state (cache and breaker) is
  threaded through each step. The server's answer, the host's hook and the approval service
  are arguments. Audit events are returned in the order they are sent.
\<close>

section \<open>Advice\<close>

fun js_split :: "char \<Rightarrow> string \<Rightarrow> string list" where
  "js_split d [] = [[]]"
| "js_split d (c # cs) =
     (if c = d then [] # js_split d cs
      else case js_split d cs of [] \<Rightarrow> [[c]] | w # ws \<Rightarrow> (c # w) # ws)"

text \<open>\<^verbatim>\<open>Number.parseInt(s, 10)\<close>: \<^const>\<open>None\<close> is NaN.\<close>

definition js_parseInt :: "string \<Rightarrow> int option" where
  "js_parseInt s =
     (let t = dropWhile is_ws s;
          (neg, r) = (case t of [] \<Rightarrow> (False, [])
            | c # cs \<Rightarrow> if c = CHR ''-'' then (True, cs) else if c = CHR ''+'' then (False, cs) else (False, c # cs));
          ds = takeWhile is_digit r
      in if ds = [] then None else Some (if neg then - int (digits_val ds) else int (digits_val ds)))"

record hitl_advice =
  ha_requiredApprovals :: "int option"
  ha_timeoutSeconds :: "int option"

definition no_hitl_params :: hitl_advice where
  "no_hitl_params = \<lparr>ha_requiredApprovals = None, ha_timeoutSeconds = None\<rparr>"

definition hitl_pair :: "hitl_advice \<Rightarrow> string \<Rightarrow> hitl_advice" where
  "hitl_pair out pair =
     (case js_indexOf pair ''='' of
        None \<Rightarrow> out
      | Some eq \<Rightarrow>
          let key = js_trim (take eq pair); val = js_trim (drop (eq + 1) pair) in
          if key = ''approvals'' then
            (case js_parseInt val of Some n \<Rightarrow> if n > 0 then out\<lparr>ha_requiredApprovals := Some n\<rparr> else out | None \<Rightarrow> out)
          else if key = ''timeout'' then
            (case js_parseInt val of Some n \<Rightarrow> if n > 0 then out\<lparr>ha_timeoutSeconds := Some n\<rparr> else out | None \<Rightarrow> out)
          else out)"

fun first_hitl :: "string list \<Rightarrow> hitl_advice option" where
  "first_hitl [] = None"
| "first_hitl (raw # rest) =
     (if raw = ''require_hitl'' then Some no_hitl_params
      else if js_startsWith raw ''require_hitl:'' then
        Some (foldl hitl_pair no_hitl_params (js_split CHR '','' (drop (length ''require_hitl:'') raw)))
      else first_hitl rest)"

definition parseHitlAdvice :: "string list option \<Rightarrow> hitl_advice option" where
  "parseHitlAdvice advice = (case advice of None \<Rightarrow> None | Some a \<Rightarrow> if a = [] then None else first_hitl a)"

section \<open>Data\<close>

datatype policy_outcome = Allow | Deny

record simulate_response =
  sr_outcome :: policy_outcome
  sr_rule_id :: "string option"
  sr_reason :: "string option"
  sr_advice :: "string list option"
  sr_policy_hash :: "string option"
  sr_decision_source :: "string option"

datatype fail_mode = Fail_Closed | Fail_Open | Fail_Cached

datatype decision_path = Src_Network | Src_Cache | Src_Fail fail_mode | Src_Breaker_Open
  | Src_Health_Down | Src_Hitl_Approved | Src_Hitl_Denied | Src_Hitl_Timeout

record guard_decision =
  gd_allowed :: bool
  gd_outcome :: policy_outcome
  gd_rule_id :: "string option"
  gd_reason :: "string option"
  gd_source :: decision_path
  gd_policy_hash :: "string option"
  gd_decision_source :: "string option"

record guard_user =
  gu_id :: string
  gu_email :: string
  gu_trust :: "string option"

record guard_request =
  gr_path :: string

record hitl_info =
  hi_action :: string
  hi_resource :: string
  hi_advice :: "string list"
  hi_requiredApprovals :: "int option"
  hi_timeoutSeconds :: "int option"

record hitl_override =
  ho_timeoutMs :: "int option"
  ho_requiredApprovals :: "int option"
  ho_context :: "jval option"
  ho_reason :: "string option"

datatype hook_result = Hook_Nothing | Hook_Override hitl_override | Hook_Throws string

record approval_request =
  ar_action :: string
  ar_resource :: string
  ar_context :: "jval option"
  ar_reason :: "string option"
  ar_timeout :: "int option"
  ar_requiredApprovals :: "int option"

datatype approval_result = Approved_By string | Denied_By string | Approval_Timeout | Approval_Error string

datatype path_like = Path_Fn "guard_request \<Rightarrow> string" | Path_Text string | Path_Unset

record guard_opts =
  go_action :: string
  go_resource :: string
  go_pathLike :: path_like
  go_contextExtra :: "(guard_request \<Rightarrow> (string \<times> jval) list option) option"
  go_failModeOverride :: "fail_mode option"
  go_skipCache :: bool
  go_autoEscalateHitl :: "bool option"
  go_onHitlRequested :: "(hitl_info \<Rightarrow> guard_request \<Rightarrow> hook_result) option"
  go_onDeny :: bool

record guard_internals =
  gi_agentId :: string
  gi_failMode :: fail_mode
  gi_user :: "guard_user option"

record guard_shared =
  gs_cache :: "simulate_response decision_cache option"
  gs_breaker :: "circuit_breaker option"

record simulate_call =
  cl_agent_id :: string
  cl_action :: string
  cl_resource :: string
  cl_context :: jval
  cl_user :: "guard_user option"

record audit_event =
  ae_event_type :: string
  ae_outcome :: "string option"
  ae_policy_hash :: "string option"
  ae_decision_source :: "string option"
  ae_detail :: "(string \<times> jval) list"

datatype guard_response = Next | On_Deny guard_decision | Forbidden_403 guard_decision | Missing_500

datatype simulate_result = Sim_Ok simulate_response | Sim_Throws string

section \<open>Decisions and their dispatch\<close>

definition toDecision :: "simulate_response \<Rightarrow> decision_path \<Rightarrow> guard_decision" where
  "toDecision res source =
     \<lparr>gd_allowed = (sr_outcome res = Allow), gd_outcome = sr_outcome res, gd_rule_id = sr_rule_id res,
      gd_reason = sr_reason res, gd_source = source, gd_policy_hash = sr_policy_hash res,
      gd_decision_source = sr_decision_source res\<rparr>"

definition plain_decision :: "policy_outcome \<Rightarrow> string option \<Rightarrow> string option \<Rightarrow> decision_path \<Rightarrow> guard_decision" where
  "plain_decision out rule reason source =
     \<lparr>gd_allowed = (out = Allow), gd_outcome = out, gd_rule_id = rule, gd_reason = reason,
      gd_source = source, gd_policy_hash = None, gd_decision_source = None\<rparr>"

definition fallback :: "fail_mode \<Rightarrow> simulate_response decision_cache option \<Rightarrow> string option \<Rightarrow>
    decision_path \<Rightarrow> guard_decision" where
  "fallback mode cache cacheKey source =
     (if mode = Fail_Open then plain_decision Allow None (Some ''fail_open'') source
      else
        (case (if mode = Fail_Cached then
                 (case (cache, cacheKey) of (Some c, Some k) \<Rightarrow> dc_getStale c k | _ \<Rightarrow> None)
               else None) of
           Some stale \<Rightarrow> plain_decision (sr_outcome stale) (sr_rule_id stale) (sr_reason stale) source
         | None \<Rightarrow> plain_decision Deny None (Some ''fail_closed'') source))"

definition path_text :: "decision_path \<Rightarrow> string" where
  "path_text p = (case p of
     Src_Network \<Rightarrow> ''network'' | Src_Cache \<Rightarrow> ''cache''
   | Src_Fail m \<Rightarrow> (case m of Fail_Closed \<Rightarrow> ''fail-closed'' | Fail_Open \<Rightarrow> ''fail-open'' | Fail_Cached \<Rightarrow> ''fail-cached'')
   | Src_Breaker_Open \<Rightarrow> ''breaker-open'' | Src_Health_Down \<Rightarrow> ''health-down''
   | Src_Hitl_Approved \<Rightarrow> ''hitl-approved'' | Src_Hitl_Denied \<Rightarrow> ''hitl-denied''
   | Src_Hitl_Timeout \<Rightarrow> ''hitl-timeout'')"

definition opt_entry :: "string \<Rightarrow> string option \<Rightarrow> (string \<times> jval) list" where
  "opt_entry k v = (case v of None \<Rightarrow> [] | Some t \<Rightarrow> [(k, JStr t)])"

definition pdpObservabilityDetailRaw :: "string option \<Rightarrow> string option \<Rightarrow> (string \<times> jval) list" where
  "pdpObservabilityDetailRaw rule_id reason = opt_entry ''rule_id'' rule_id @ opt_entry ''reason'' reason"

definition denied_audit :: "guard_opts \<Rightarrow> guard_decision \<Rightarrow> audit_event" where
  "denied_audit opts d =
     \<lparr>ae_event_type = ''request_denied'', ae_outcome = Some ''deny'',
      ae_policy_hash = gd_policy_hash d, ae_decision_source = gd_decision_source d,
      ae_detail = [(''action'', JStr (go_action opts)), (''resource'', JStr (go_resource opts)),
        (''source'', JStr (path_text (gd_source d)))] @ pdpObservabilityDetailRaw (gd_rule_id d) (gd_reason d)\<rparr>"

definition dispatch :: "guard_opts \<Rightarrow> guard_decision \<Rightarrow> guard_response \<times> audit_event list" where
  "dispatch opts d =
     (if gd_allowed d then (Next, [])
      else (if go_onDeny opts then On_Deny d else Forbidden_403 d, [denied_audit opts d]))"

section \<open>Human escalation\<close>

definition hook_threw_audit :: "guard_opts \<Rightarrow> string \<Rightarrow> audit_event" where
  "hook_threw_audit opts err =
     \<lparr>ae_event_type = ''request_denied'', ae_outcome = None, ae_policy_hash = None, ae_decision_source = None,
      ae_detail = [(''action'', JStr (go_action opts)), (''resource'', JStr (go_resource opts)),
        (''reason'', JStr ''hitl_hook_threw''), (''error'', JStr err)]\<rparr>"

definition first_some :: "'a option \<Rightarrow> 'a option \<Rightarrow> 'a option" where
  "first_some a b = (case a of Some _ \<Rightarrow> a | None \<Rightarrow> b)"

definition approval_decision :: "simulate_response \<Rightarrow> approval_result \<Rightarrow> guard_decision" where
  "approval_decision result r = (case r of
     Approved_By who \<Rightarrow> plain_decision Allow (sr_rule_id result) (Some (''hitl_approved_by:'' @ who)) Src_Hitl_Approved
   | Denied_By who \<Rightarrow> plain_decision Deny (sr_rule_id result) (Some (''hitl_denied_by:'' @ who)) Src_Hitl_Denied
   | Approval_Timeout \<Rightarrow> plain_decision Deny (sr_rule_id result) (Some ''hitl_timeout'') Src_Hitl_Timeout
   | Approval_Error msg \<Rightarrow> plain_decision Deny (sr_rule_id result) (Some (''hitl_error:'' @ msg)) Src_Hitl_Denied)"

definition runHitlEscalation :: "(approval_request \<Rightarrow> approval_result) \<Rightarrow> guard_request \<Rightarrow> guard_opts \<Rightarrow>
    simulate_response \<Rightarrow> hitl_advice \<Rightarrow> guard_decision option \<times> audit_event list" where
  "runHitlEscalation requestApproval req opts result parsed =
     (let info = \<lparr>hi_action = go_action opts, hi_resource = go_resource opts,
            hi_advice = (case sr_advice result of None \<Rightarrow> [] | Some a \<Rightarrow> a),
            hi_requiredApprovals = ha_requiredApprovals parsed, hi_timeoutSeconds = ha_timeoutSeconds parsed\<rparr>;
          (cancelled, override, audits) = (case go_onHitlRequested opts of
              None \<Rightarrow> (False, None, [])
            | Some hook \<Rightarrow> (case hook info req of
                Hook_Override ov \<Rightarrow> (False, Some ov, [])
              | Hook_Nothing \<Rightarrow> (True, None, [])
              | Hook_Throws err \<Rightarrow> (True, None, [hook_threw_audit opts err])))
      in if cancelled then (None, audits)
         else
           (let timeoutMs = first_some (Option.bind override ho_timeoutMs)
                  (map_option (\<lambda>s. s * 1000) (ha_timeoutSeconds parsed));
                approvals = first_some (Option.bind override ho_requiredApprovals) (ha_requiredApprovals parsed);
                r = requestApproval \<lparr>ar_action = go_action opts, ar_resource = go_resource opts,
                  ar_context = Option.bind override ho_context, ar_reason = Option.bind override ho_reason,
                  ar_timeout = timeoutMs, ar_requiredApprovals = approvals\<rparr>
            in (Some (approval_decision result r), audits)))"

section \<open>The two steps of the handler\<close>

record guard_pending =
  gp_req :: guard_request
  gp_opts :: guard_opts
  gp_failMode :: fail_mode
  gp_cacheKey :: "string option"
  gp_path :: string
  gp_call :: simulate_call

datatype guard_step = Answered guard_response "audit_event list" | Awaiting guard_pending

definition guard_path :: "guard_opts \<Rightarrow> guard_request \<Rightarrow> string" where
  "guard_path opts req = (case go_pathLike opts of
     Path_Fn f \<Rightarrow> f req | Path_Text p \<Rightarrow> p | Path_Unset \<Rightarrow> gr_path req)"

definition guard_context :: "guard_opts \<Rightarrow> guard_request \<Rightarrow> jval" where
  "guard_context opts req =
     (let extra = (case go_contextExtra opts of None \<Rightarrow> None | Some f \<Rightarrow> f req) in
      JObj (foldl (\<lambda>m (k, v). jm_set k v m) [(''path'', JStr (guard_path opts req))]
        (case extra of None \<Rightarrow> [] | Some kvs \<Rightarrow> kvs)))"

definition guard_key :: "guard_opts \<Rightarrow> guard_internals \<Rightarrow> guard_request \<Rightarrow> guard_shared \<Rightarrow> string option" where
  "guard_key opts ints req sh =
     (case (gs_cache sh, gi_user ints) of
        (Some _, Some user) \<Rightarrow>
          Some (dc_key (gu_id user) (go_action opts) (go_resource opts) (hashContext (guard_context opts req)) None)
      | _ \<Rightarrow> None)"

definition guard_mode :: "guard_opts \<Rightarrow> guard_internals \<Rightarrow> fail_mode" where
  "guard_mode opts ints = (case go_failModeOverride opts of Some m \<Rightarrow> m | None \<Rightarrow> gi_failMode ints)"

definition answer :: "guard_opts \<Rightarrow> guard_decision \<Rightarrow> audit_event list \<Rightarrow> guard_step" where
  "answer opts d audits = (let (r, more) = dispatch opts d in Answered r (audits @ more))"

definition guard_cache_read :: "guard_opts \<Rightarrow> string option \<Rightarrow> int \<Rightarrow> guard_shared \<Rightarrow>
    simulate_response option \<times> guard_shared" where
  "guard_cache_read opts cacheKey now sh =
     (case (gs_cache sh, cacheKey) of
        (Some c, Some k) \<Rightarrow>
          if go_skipCache opts then (None, sh)
          else (let (hit, c') = dc_get c k now in (hit, sh\<lparr>gs_cache := Some c'\<rparr>))
      | _ \<Rightarrow> (None, sh))"

definition guard_breaker_skip :: "int \<Rightarrow> guard_shared \<Rightarrow> bool \<times> guard_shared" where
  "guard_breaker_skip now sh =
     (case gs_breaker sh of
        None \<Rightarrow> (False, sh)
      | Some b \<Rightarrow> (let (skip, b') = cb_shouldSkip b now in (skip, sh\<lparr>gs_breaker := Some b'\<rparr>)))"

definition guard_begin :: "guard_opts \<Rightarrow> guard_internals option \<Rightarrow> guard_request \<Rightarrow> bool option \<Rightarrow> int \<Rightarrow>
    guard_shared \<Rightarrow> guard_step \<times> guard_shared" where
  "guard_begin opts internals req health now sh =
     (case internals of
        None \<Rightarrow> (Answered Missing_500 [], sh)
      | Some ints \<Rightarrow>
          let failMode = guard_mode opts ints; cacheKey = guard_key opts ints req sh;
              (hit, sh) = guard_cache_read opts cacheKey now sh in
          case hit of
            Some cached \<Rightarrow> (answer opts (toDecision cached Src_Cache) [], sh)
          | None \<Rightarrow>
              let (skip, sh) = guard_breaker_skip now sh in
              if skip then (answer opts (fallback failMode (gs_cache sh) cacheKey Src_Breaker_Open) [], sh)
              else if health = Some False then
                (answer opts (fallback failMode (gs_cache sh) cacheKey Src_Health_Down) [], sh)
              else
                (Awaiting \<lparr>gp_req = req, gp_opts = opts, gp_failMode = failMode, gp_cacheKey = cacheKey,
                   gp_path = guard_path opts req,
                   gp_call = \<lparr>cl_agent_id = gi_agentId ints, cl_action = go_action opts,
                     cl_resource = go_resource opts, cl_context = guard_context opts req,
                     cl_user = map_option (\<lambda>u. u\<lparr>gu_trust := Some (case gu_trust u of Some t \<Rightarrow> t | None \<Rightarrow> ''trusted'')\<rparr>)
                       (gi_user ints)\<rparr>\<rparr>, sh))"

definition degraded_audit :: "guard_pending \<Rightarrow> string \<Rightarrow> audit_event" where
  "degraded_audit p err =
     \<lparr>ae_event_type = ''policy_check_degraded'', ae_outcome = None, ae_policy_hash = None,
      ae_decision_source = None,
      ae_detail = [(''action'', JStr (go_action (gp_opts p))), (''resource'', JStr (go_resource (gp_opts p))),
        (''path'', JStr (gp_path p)), (''fail_mode'', JStr ''open''), (''error'', JStr err)]\<rparr>"

definition cacheable :: "simulate_response \<Rightarrow> bool" where
  "cacheable result \<longleftrightarrow> sr_outcome result = Allow \<or> sr_advice result = None \<or> sr_advice result = Some []"

definition guard_finish :: "(approval_request \<Rightarrow> approval_result) \<Rightarrow> bool \<Rightarrow> guard_pending \<Rightarrow>
    simulate_result \<Rightarrow> int \<Rightarrow> guard_shared \<Rightarrow> guard_step \<times> guard_shared" where
  "guard_finish requestApproval hitlEnabled p r now sh =
     (case r of
        Sim_Throws err \<Rightarrow>
          let sh = sh\<lparr>gs_breaker := map_option (\<lambda>b. cb_recordFailure b now) (gs_breaker sh)\<rparr>;
              audits = (if gp_failMode p = Fail_Open then [degraded_audit p err] else []) in
          (answer (gp_opts p) (fallback (gp_failMode p) (gs_cache sh) (gp_cacheKey p) (Src_Fail (gp_failMode p))) audits, sh)
      | Sim_Ok result \<Rightarrow>
          let sh = sh\<lparr>gs_breaker := map_option cb_recordSuccess (gs_breaker sh)\<rparr>;
              shouldEscalate = (go_autoEscalateHitl (gp_opts p) \<noteq> Some False \<and> hitlEnabled);
              parsed = (if shouldEscalate \<and> sr_outcome result = Deny then parseHitlAdvice (sr_advice result) else None);
              (hitl, audits) = (case parsed of
                  None \<Rightarrow> (None, [])
                | Some adv \<Rightarrow> runHitlEscalation requestApproval (gp_req p) (gp_opts p) result adv) in
          case hitl of
            Some d \<Rightarrow> (answer (gp_opts p) d audits, sh)
          | None \<Rightarrow>
              let cache = (case (gs_cache sh, gp_cacheKey p) of
                    (Some c, Some k) \<Rightarrow> if cacheable result then Some (dc_put c k result now) else Some c
                  | (c, _) \<Rightarrow> c) in
              (answer (gp_opts p) (toDecision result Src_Network) audits, sh\<lparr>gs_cache := cache\<rparr>))"

end
