(* ===== verification/Guard_System.thy ===== *)
theory Guard_System
  imports Express_Guard
begin

text \<open>
  The guard as a system: requests begin and finish in any interleaving over one shared cache
  and breaker. A log of the policy server's answers (the key they were asked under and the
  time they arrived) is kept beside the state to say where an Allow came from; the code has
  no such lg.
\<close>

section \<open>Interleaved requests\<close>

record guard_sys =
  gy_shared :: guard_shared
  gy_pending :: "(nat \<times> guard_pending) list"
  gy_log :: "(string \<times> simulate_response \<times> int) list"

datatype guard_event =
    Ge_Begin nat guard_opts "guard_internals option" guard_request "bool option" int
  | Ge_Finish nat "approval_request \<Rightarrow> approval_result" bool simulate_result int

definition log_answer :: "guard_pending \<Rightarrow> simulate_result \<Rightarrow> int \<Rightarrow> (string \<times> simulate_response \<times> int) list" where
  "log_answer p r now = (case (r, gp_cacheKey p) of (Sim_Ok res, Some k) \<Rightarrow> [(k, res, now)] | _ \<Rightarrow> [])"

fun gy_step :: "guard_sys \<Rightarrow> guard_event \<Rightarrow> guard_sys" where
  "gy_step g (Ge_Begin i opts ints req health now) =
     (case guard_begin opts ints req health now (gy_shared g) of
        (Answered _ _, sh) \<Rightarrow> g\<lparr>gy_shared := sh\<rparr>
      | (Awaiting p, sh) \<Rightarrow> g\<lparr>gy_shared := sh, gy_pending := (i, p) # gy_pending g\<rparr>)"
| "gy_step g (Ge_Finish i appr hitl r now) =
     (case map_of (gy_pending g) i of
        None \<Rightarrow> g
      | Some p \<Rightarrow>
          g\<lparr>gy_shared := snd (guard_finish appr hitl p r now (gy_shared g)),
            gy_pending := AList.delete i (gy_pending g),
            gy_log := log_answer p r now @ gy_log g\<rparr>)"

definition gy_init :: "guard_shared \<Rightarrow> guard_sys" where
  "gy_init sh = \<lparr>gy_shared = sh, gy_pending = [], gy_log = []\<rparr>"

definition gy_run :: "guard_shared \<Rightarrow> guard_event list \<Rightarrow> guard_sys" where
  "gy_run sh es = foldl gy_step (gy_init sh) es"

section \<open>The cache holds only logged answers\<close>

definition cache_backed :: "int \<Rightarrow> simulate_response decision_cache option \<Rightarrow>
    (string \<times> simulate_response \<times> int) list \<Rightarrow> bool" where
  "cache_backed T cache lg \<longleftrightarrow> (\<forall>c. cache = Some c \<longrightarrow> dc_inv c \<and> dc_ttlMs c = T \<and>
     (\<forall>k d e. dc_lookup c k = Some (d, e) \<longrightarrow> (k, d, e - T) \<in> set lg \<and> cacheable d) \<and>
     (\<forall>k d. dc_getStale c k = Some d \<longrightarrow> (\<exists>t. (k, d, t) \<in> set lg)))"

lemma dc_getStale_get [simp]: "dc_getStale (snd (dc_get c k now)) k' = dc_getStale c k'"
  by (auto simp: dc_getStale_def dc_get_def split: option.splits)

lemma dc_getStale_put:
  "dc_getStale (dc_put c k d now) k' = Some x \<Longrightarrow> (k' = k \<and> x = d) \<or> dc_getStale c k' = Some x"
  by (auto simp: dc_getStale_def dc_put_def Let_def dest!: jm_get_bounded_set)

lemma cache_backed_get:
  "cache_backed T (Some c) lg \<Longrightarrow> cache_backed T (Some (snd (dc_get c k now))) lg"
  by (auto simp: cache_backed_def dc_inv_get dc_ttl_frame dc_lookup_get split: if_splits)

lemma cache_backed_put:
  assumes "cache_backed T (Some c) lg" and "cacheable d"
  shows "cache_backed T (Some (dc_put c k d now)) ((k, d, now) # lg)"
  using assms
  by (auto simp: cache_backed_def dc_inv_put dc_ttl_frame dest!: dc_lookup_put dc_getStale_put) blast

lemma cache_backed_mono: "cache_backed T c lg \<Longrightarrow> cache_backed T c (l @ lg)"
  unfolding cache_backed_def by fastforce

lemma guard_cache_read_backed:
  "cache_backed T (gs_cache sh) lg \<Longrightarrow>
     cache_backed T (gs_cache (snd (guard_cache_read opts k now sh))) lg"
  by (auto simp: guard_cache_read_def case_prod_unfold Let_def cache_backed_get split: option.splits)

lemma guard_breaker_skip_cache [simp]: "gs_cache (snd (guard_breaker_skip now sh)) = gs_cache sh"
  by (auto simp: guard_breaker_skip_def case_prod_unfold Let_def split: option.splits)

lemma guard_begin_cache:
  "gs_cache (snd (guard_begin opts ints req health now sh)) =
     (case ints of None \<Rightarrow> gs_cache sh
      | Some i \<Rightarrow> gs_cache (snd (guard_cache_read opts (guard_key opts i req sh) now sh)))"
  by (auto simp: guard_begin_def case_prod_unfold Let_def split: option.splits)

lemma guard_begin_backed:
  "cache_backed T (gs_cache sh) lg \<Longrightarrow>
     cache_backed T (gs_cache (snd (guard_begin opts ints req health now sh))) lg"
  by (auto simp: guard_begin_cache guard_cache_read_backed split: option.splits)

lemma guard_finish_backed:
  assumes "cache_backed T (gs_cache sh) lg"
  shows "cache_backed T (gs_cache (snd (guard_finish appr hitl p r now sh))) (log_answer p r now @ lg)"
  using assms cache_backed_mono [OF assms, of "log_answer p r now"] cache_backed_put [of T _ lg _ _ now]
  by (auto simp: guard_finish_def log_answer_def case_prod_unfold Let_def
      split: option.splits simulate_result.splits)

lemma gy_run_backed:
  assumes "gs_cache sh = Some (dc_new m ttl) \<or> gs_cache sh = None"
  shows "cache_backed (max 0 (to_int32 ttl)) (gs_cache (gy_shared (gy_run sh es))) (gy_log (gy_run sh es))"
proof (induction es rule: rev_induct)
  case Nil
  then show ?case using assms dc_inv_new [of m ttl]
    by (auto simp: gy_run_def gy_init_def cache_backed_def) (auto simp: dc_new_def dc_lookup_def dc_getStale_def)
next
  case (snoc e es)
  show ?case
  proof (cases e)
    case (Ge_Begin i opts ints req health now)
    then show ?thesis using guard_begin_backed [OF snoc.IH, of opts ints req health now]
      by (auto simp: gy_run_def split: prod.splits guard_step.splits)
  next
    case (Ge_Finish i appr hitl r now)
    then show ?thesis using guard_finish_backed [OF snoc.IH] snoc.IH
      by (auto simp: gy_run_def split: option.splits)
  qed
qed

section \<open>Where an Allow comes from\<close>

lemma answer_Next: "answer opts d a = Answered Next b \<longleftrightarrow> gd_allowed d \<and> b = a"
  by (auto simp: answer_def dispatch_def split: if_splits)

lemma fallback_allowed:
  "gd_allowed (fallback mode cache key src) \<longleftrightarrow>
     mode = Fail_Open \<or> (mode = Fail_Cached \<and> (\<exists>c k d. cache = Some c \<and> key = Some k \<and>
       dc_getStale c k = Some d \<and> sr_outcome d = Allow))"
  by (auto simp: fallback_def plain_decision_def split: option.splits)

lemma guard_cache_read_hit:
  "fst (guard_cache_read opts key now sh) = Some d \<Longrightarrow>
     \<not> go_skipCache opts \<and> (\<exists>c k e. gs_cache sh = Some c \<and> key = Some k \<and> dc_lookup c k = Some (d, e) \<and> now < e)"
  by (auto simp: guard_cache_read_def case_prod_unfold Let_def dc_get_Some split: option.splits if_splits)

lemma guard_cache_read_stale:
  "gs_cache (snd (guard_cache_read opts key now sh)) = Some c \<Longrightarrow>
     \<exists>c0. gs_cache sh = Some c0 \<and> dc_getStale c k = dc_getStale c0 k"
  by (auto simp: guard_cache_read_def case_prod_unfold Let_def split: option.splits if_splits)

definition logged_allow :: "(string \<times> simulate_response \<times> int) list \<Rightarrow> string option \<Rightarrow> (int \<Rightarrow> bool) \<Rightarrow> bool" where
  "logged_allow lg key ok \<longleftrightarrow> list_ex (\<lambda>(k, d, t). key = Some k \<and> sr_outcome d = Allow \<and> ok t) lg"

lemma begin_allow_cases:
  assumes "fst (guard_begin opts (Some ints) req health now sh) = Answered Next audits"
    and "cache_backed T (gs_cache sh) lg"
  shows "guard_mode opts ints = Fail_Open \<or>
    (guard_mode opts ints = Fail_Cached \<and> logged_allow lg (guard_key opts ints req sh) (\<lambda>t. True)) \<or>
    (\<not> go_skipCache opts \<and> logged_allow lg (guard_key opts ints req sh) (\<lambda>t. now < t + T))"
proof (cases "fst (guard_cache_read opts (guard_key opts ints req sh) now sh)")
  case (Some d)
  from guard_cache_read_hit [OF Some] obtain c k e where
    h: "\<not> go_skipCache opts" "gs_cache sh = Some c" "guard_key opts ints req sh = Some k"
      "dc_lookup c k = Some (d, e)" "now < e" by auto
  have "(k, d, e - T) \<in> set lg" using assms(2) h by (auto simp: cache_backed_def)
  moreover have "sr_outcome d = Allow" using assms(1) Some
    by (simp add: guard_begin_def case_prod_unfold Let_def answer_Next toDecision_def)
  ultimately have "logged_allow lg (guard_key opts ints req sh) (\<lambda>t. now < t + T)"
    using h by (force simp: logged_allow_def list_ex_iff)
  then show ?thesis using h by simp
next
  case None
  let ?sh = "snd (guard_cache_read opts (guard_key opts ints req sh) now sh)"
  have "\<exists>src. gd_allowed (fallback (guard_mode opts ints) (gs_cache ?sh) (guard_key opts ints req sh) src)"
    using assms(1) None
    by (auto simp: guard_begin_def case_prod_unfold Let_def answer_Next split: if_splits)
  then consider "guard_mode opts ints = Fail_Open"
    | c k d where "guard_mode opts ints = Fail_Cached" "gs_cache ?sh = Some c"
        "guard_key opts ints req sh = Some k" "dc_getStale c k = Some d" "sr_outcome d = Allow"
    unfolding fallback_allowed by blast
  then show ?thesis
  proof cases
    case 2
    from guard_cache_read_stale [OF 2(2), of k] 2(4) obtain c0
      where "gs_cache sh = Some c0" "dc_getStale c0 k = Some d" by auto
    with assms(2) obtain t where "(k, d, t) \<in> set lg" unfolding cache_backed_def by blast
    with 2 have "logged_allow lg (guard_key opts ints req sh) (\<lambda>t. True)"
      by (auto simp: logged_allow_def list_ex_iff)
    with 2 show ?thesis by simp
  qed simp
qed

lemma finish_allow_cases:
  assumes "fst (guard_finish appr hitl p r now sh) = Answered Next audits"
    and "cache_backed T (gs_cache sh) lg"
  shows "case r of
      Sim_Throws err \<Rightarrow> gp_failMode p = Fail_Open \<or>
        (gp_failMode p = Fail_Cached \<and> logged_allow lg (gp_cacheKey p) (\<lambda>t. True))
    | Sim_Ok res \<Rightarrow> sr_outcome res = Allow \<or>
        (hitl \<and> go_autoEscalateHitl (gp_opts p) \<noteq> Some False \<and> parseHitlAdvice (sr_advice res) \<noteq> None \<and>
         (\<exists>q who. appr q = Approved_By who))"
proof (cases r)
  case (Sim_Throws err)
  then have "\<exists>src. gd_allowed (fallback (gp_failMode p) (gs_cache sh) (gp_cacheKey p) src)"
    using assms(1) by (auto simp: guard_finish_def Let_def answer_Next)
  then show ?thesis using assms(2) Sim_Throws
    unfolding fallback_allowed cache_backed_def logged_allow_def list_ex_iff by fastforce
next
  case (Sim_Ok res)
  show ?thesis
  proof (cases "sr_outcome res = Allow")
    case False
    have deny: "sr_outcome res = Deny" using False by (cases "sr_outcome res") auto
    have *: "\<not> gd_allowed (toDecision res Src_Network)" using False by (simp add: toDecision_def)
    have appr: "gd_allowed d \<Longrightarrow> fst (runHitlEscalation appr rq op res adv) = Some d \<Longrightarrow>
        \<exists>q who. appr q = Approved_By who" for d rq op adv
      by (auto simp: runHitlEscalation_def Let_def case_prod_unfold approval_decision_def plain_decision_def
          split: if_splits approval_result.splits)
    show ?thesis using assms(1) Sim_Ok deny * appr
      by (fastforce simp: guard_finish_def Let_def case_prod_unfold answer_Next split: option.splits if_splits)
  qed (simp add: Sim_Ok)
qed

section \<open>A sample route\<close>

definition sample_opts :: "fail_mode option \<Rightarrow> bool \<Rightarrow> guard_opts" where
  "sample_opts mode skip = \<lparr>go_action = ''http.get'', go_resource = ''api'', go_pathLike = Path_Unset,
     go_contextExtra = None, go_failModeOverride = mode, go_skipCache = skip, go_autoEscalateHitl = None,
     go_onHitlRequested = None, go_onDeny = False\<rparr>"

definition sample_ints :: guard_internals where
  "sample_ints = \<lparr>gi_agentId = ''a1'', gi_failMode = Fail_Closed,
     gi_user = Some \<lparr>gu_id = ''u1'', gu_email = ''u@x'', gu_trust = None\<rparr>\<rparr>"

definition sample_response :: "policy_outcome \<Rightarrow> string list option \<Rightarrow> simulate_response" where
  "sample_response out advice = \<lparr>sr_outcome = out, sr_rule_id = None, sr_reason = None,
     sr_advice = advice, sr_policy_hash = None, sr_decision_source = None\<rparr>"

lemmas sample_defs = sample_opts_def sample_ints_def sample_response_def guard_begin_def guard_finish_def
  guard_mode_def guard_key_def guard_path_def guard_cache_read_def guard_breaker_skip_def
  cacheable_def Let_def dc_new_def dc_get_def dc_put_def to_int32_id

section \<open>Properties\<close>

definition guard_init :: "int \<Rightarrow> int \<Rightarrow> circuit_breaker option \<Rightarrow> guard_shared" where
  "guard_init maxSize ttlMs br = \<lparr>gs_cache = Some (dc_new maxSize ttlMs), gs_breaker = br\<rparr>"

text \<open>C3: a request the guard lets through without asking the policy server is backed: however
  requests interleaved before it, either the route fails open, or the route is in cached mode and
  the server once answered Allow for the very same user, action, resource and context, or the
  cache is in use and the server answered Allow for them less than the time to live ago.\<close>

theorem guard_local_allow_is_backed:
  assumes "fst (guard_begin opts (Some ints) req health now (gy_shared (gy_run (guard_init m ttl br) es)))
      = Answered Next audits"
  shows "guard_mode opts ints = Fail_Open \<or>
    (guard_mode opts ints = Fail_Cached \<and> logged_allow (gy_log (gy_run (guard_init m ttl br) es))
      (guard_key opts ints req (gy_shared (gy_run (guard_init m ttl br) es))) (\<lambda>t. True)) \<or>
    (\<not> go_skipCache opts \<and> logged_allow (gy_log (gy_run (guard_init m ttl br) es))
      (guard_key opts ints req (gy_shared (gy_run (guard_init m ttl br) es)))
      (\<lambda>t. now < t + max 0 (to_int32 ttl)))"
  by (rule begin_allow_cases [OF assms gy_run_backed]) (simp add: guard_init_def)

theorem guard_local_allow_is_backed_witness:
  "let es = [Ge_Begin 0 (sample_opts None False) (Some sample_ints) \<lparr>gr_path = ''/o''\<rparr> None 100,
       Ge_Finish 0 (\<lambda>_. Approval_Timeout) False (Sim_Ok (sample_response Allow None)) 150];
     g = gy_run (guard_init 10 1000 None) es in
   logged_allow (gy_log g) (guard_key (sample_opts None False) sample_ints \<lparr>gr_path = ''/o''\<rparr> (gy_shared g))
     (\<lambda>t. 1149 < t + 1000)"
  using guard_local_allow_is_backed [of "sample_opts None False" sample_ints "\<lparr>gr_path = ''/o''\<rparr>" None 1149
      10 1000 None "[Ge_Begin 0 (sample_opts None False) (Some sample_ints) \<lparr>gr_path = ''/o''\<rparr> None 100,
       Ge_Finish 0 (\<lambda>_. Approval_Timeout) False (Sim_Ok (sample_response Allow None)) 150]" "[]"]
  by (simp add: gy_run_def gy_init_def guard_init_def sample_defs answer_def dispatch_def toDecision_def log_answer_def)

text \<open>C4: when the server was asked, an Allow is the server's own, or a human's approval of a Deny
  that carried the escalation advice (with the add-on on and the route not opted out), or, when
  the call threw, the fail mode's: open, or cached with an earlier Allow for the same key.\<close>

theorem guard_asked_allow_is_backed:
  assumes "fst (guard_finish appr hitl p r now (gy_shared (gy_run (guard_init m ttl br) es)))
      = Answered Next audits"
  shows "case r of
      Sim_Throws err \<Rightarrow> gp_failMode p = Fail_Open \<or>
        (gp_failMode p = Fail_Cached \<and>
         logged_allow (gy_log (gy_run (guard_init m ttl br) es)) (gp_cacheKey p) (\<lambda>t. True))
    | Sim_Ok res \<Rightarrow> sr_outcome res = Allow \<or>
        (hitl \<and> go_autoEscalateHitl (gp_opts p) \<noteq> Some False \<and> parseHitlAdvice (sr_advice res) \<noteq> None \<and>
         (\<exists>q who. appr q = Approved_By who))"
  by (rule finish_allow_cases [OF assms gy_run_backed]) (simp add: guard_init_def)

definition sample_pending :: guard_pending where
  "sample_pending = \<lparr>gp_req = \<lparr>gr_path = ''/o''\<rparr>, gp_opts = sample_opts None False, gp_failMode = Fail_Closed,
     gp_cacheKey = Some ''k'', gp_path = ''/o'',
     gp_call = \<lparr>cl_agent_id = ''a1'', cl_action = ''http.get'', cl_resource = ''api'', cl_context = JObj [], cl_user = None\<rparr>\<rparr>"

lemma parse_bare_hitl: "parseHitlAdvice (Some [''require_hitl'']) = Some no_hitl_params"
  by (simp add: parseHitlAdvice_def)

theorem guard_asked_allow_is_backed_witness:
  "parseHitlAdvice (sr_advice (sample_response Deny (Some [''require_hitl'']))) \<noteq> None \<and>
   (\<exists>q who. (\<lambda>_ :: approval_request. Approved_By ''bob'') q = Approved_By who)"
  using guard_asked_allow_is_backed [of "\<lambda>_. Approved_By ''bob''" True sample_pending
      "Sim_Ok (sample_response Deny (Some [''require_hitl'']))" 7 10 1000 None "[]" "[]"]
  by (simp add: gy_run_def gy_init_def guard_init_def sample_defs sample_pending_def parse_bare_hitl
      runHitlEscalation_def approval_decision_def plain_decision_def answer_def dispatch_def)

text \<open>A Deny that carries advice is never remembered, whatever the human decided: the next
  request for the same key asks the server again.\<close>

theorem guard_escalation_not_cached:
  assumes "sr_outcome res = Deny" and "sr_advice res = Some (a # as)"
  shows "gs_cache (snd (guard_finish appr hitl p (Sim_Ok res) now sh)) = gs_cache sh"
  using assms
  by (auto simp: guard_finish_def Let_def case_prod_unfold cacheable_def split: option.splits)

theorem guard_escalation_not_cached_witness:
  "gs_cache (snd (guard_finish (\<lambda>_. Approved_By ''bob'') True sample_pending
      (Sim_Ok (sample_response Deny (Some [''require_hitl'']))) 7 (guard_init 10 1000 None)))
   = Some (dc_new 10 1000)"
  using guard_escalation_not_cached [of "sample_response Deny (Some [''require_hitl''])" "''require_hitl''" "[]"
      "\<lambda>_. Approved_By ''bob''" True sample_pending 7 "guard_init 10 1000 None"]
  by (simp add: guard_init_def sample_response_def)

section \<open>A probe that is never reported\<close>

lemma half_open_begin:
  assumes "gs_breaker sh = Some b" and "cb_state b = Half_Open"
  shows "\<exists>r a. fst (guard_begin opts ints req health now sh) = Answered r a"
    and "gs_breaker (snd (guard_begin opts ints req health now sh)) = Some b"
  using assms
  by (auto simp: guard_begin_def guard_breaker_skip_def guard_cache_read_def cb_shouldSkip_def answer_def
      case_prod_unfold Let_def split: option.splits)

text \<open>A breaker can be lost. When the breaker's cool-down is over but the health monitor still
  reports the server down, the guard takes the one half-open probe and answers from the fail mode
  without reporting an outcome; after that every request, at any later time and with the server
  reachable again, is refused by the breaker: none is ever sent.\<close>

theorem guard_lost_probe:
  assumes "gs_breaker sh = Some b" and "cb_state b = Open" and "\<not> cb_probing b"
    and "cb_resetTimeoutMs b \<le> now - cb_openedAt b" and "go_skipCache opts"
    and "\<forall>e \<in> set es. \<exists>i opts ints req health t. e = Ge_Begin i opts ints req health t"
  shows "let g = foldl gy_step (gy_init sh) (Ge_Begin i opts (Some ints) req (Some False) now # es) in
    gy_pending g = [] \<and> map_option cb_state (gs_breaker (gy_shared g)) = Some Half_Open"
proof -
  define g0 where "g0 = gy_step (gy_init sh) (Ge_Begin i opts (Some ints) req (Some False) now)"
  have g0: "gy_pending g0 = [] \<and> map_option cb_state (gs_breaker (gy_shared g0)) = Some Half_Open"
    using assms(1-5)
    by (auto simp: g0_def gy_init_def guard_begin_def guard_cache_read_def guard_breaker_skip_def
        cb_shouldSkip_def answer_def case_prod_unfold Let_def split: option.splits)
  have "gy_pending g = [] \<and> map_option cb_state (gs_breaker (gy_shared g)) = Some Half_Open \<Longrightarrow>
      gy_pending (foldl gy_step g es) = [] \<and>
      map_option cb_state (gs_breaker (gy_shared (foldl gy_step g es))) = Some Half_Open" for g
    using assms(6)
  proof (induction es arbitrary: g)
    case (Cons e es)
    obtain j o2 in2 rq h t where e: "e = Ge_Begin j o2 in2 rq h t" using Cons.prems(2) by auto
    obtain b2 where b2: "gs_breaker (gy_shared g) = Some b2" "cb_state b2 = Half_Open"
      using Cons.prems(1) by auto
    have "gy_pending (gy_step g e) = [] \<and>
        map_option cb_state (gs_breaker (gy_shared (gy_step g e))) = Some Half_Open"
      using half_open_begin [OF b2, of o2 in2 rq h t] b2 Cons.prems(1)
      by (auto simp: e split: prod.splits guard_step.splits)
    then show ?case using Cons.IH Cons.prems(2) by simp
  qed simp
  from this [OF g0] show ?thesis by (simp add: g0_def Let_def)
qed

theorem guard_lost_probe_witness:
  "let g = foldl gy_step (gy_init \<lparr>gs_cache = None, gs_breaker = Some (cb_run (cb_new 1 1000) [Ev_Failure 5])\<rparr>)
       [Ge_Begin 0 (sample_opts None True) (Some sample_ints) \<lparr>gr_path = ''/o''\<rparr> (Some False) 1005,
        Ge_Begin 1 (sample_opts None True) (Some sample_ints) \<lparr>gr_path = ''/o''\<rparr> (Some True) 90000]
   in gy_pending g = [] \<and> map_option cb_state (gs_breaker (gy_shared g)) = Some Half_Open"
  by (rule guard_lost_probe [where b = "cb_run (cb_new 1 1000) [Ev_Failure 5]"])
    (simp_all add: cb_run_def cb_new_def cb_recordFailure_def to_int32_id sample_opts_def)

end
