(* ===== verification/Js_Value.thy ===== *)
theory Js_Value
  imports Json_Text
begin

text \<open>
  Reading a dynamically typed value the way the SDK's handlers do: a property access that
  throws on \<^verbatim>\<open>null\<close> and \<^verbatim>\<open>undefined\<close> (\<^const>\<open>None\<close>), truthiness, \<^verbatim>\<open>typeof\<close> tests, the nullish default,
  and the decimal text of an integer in a template string.
\<close>

definition j_prop :: "jval \<Rightarrow> string \<Rightarrow> jval option" where
  "j_prop v k = (case v of
     JUndefined \<Rightarrow> None
   | JNull \<Rightarrow> None
   | JObj kvs \<Rightarrow> Some (case map_of kvs k of Some w \<Rightarrow> w | None \<Rightarrow> JUndefined)
   | _ \<Rightarrow> Some JUndefined)"

text \<open>The property of a value already known not to be nullish.\<close>

definition j_field :: "jval \<Rightarrow> string \<Rightarrow> jval" where
  "j_field v k = (case j_prop v k of Some w \<Rightarrow> w | None \<Rightarrow> JUndefined)"

definition j_nullish :: "jval \<Rightarrow> bool" where
  "j_nullish v \<longleftrightarrow> v = JUndefined \<or> v = JNull"

definition j_default :: "jval \<Rightarrow> jval \<Rightarrow> jval" where
  "j_default v d = (if j_nullish v then d else v)"

definition j_truthy :: "jval \<Rightarrow> bool" where
  "j_truthy v = (case v of
     JUndefined \<Rightarrow> False | JNull \<Rightarrow> False | JBool b \<Rightarrow> b
   | JNum t \<Rightarrow> t \<noteq> ''0'' \<and> t \<noteq> ''NaN'' | JStr s \<Rightarrow> s \<noteq> [] | _ \<Rightarrow> True)"

definition j_is_object :: "jval \<Rightarrow> bool" where
  "j_is_object v = (case v of JObj _ \<Rightarrow> True | _ \<Rightarrow> False)"

definition j_array :: "jval \<Rightarrow> jval list option" where
  "j_array v = (case v of JArr vs \<Rightarrow> Some vs | _ \<Rightarrow> None)"

definition j_string :: "jval \<Rightarrow> string option" where
  "j_string v = (case v of JStr s \<Rightarrow> Some s | _ \<Rightarrow> None)"

definition j_number :: "jval \<Rightarrow> rat option" where
  "j_number v = (case v of JNum t \<Rightarrow> js_number t | _ \<Rightarrow> None)"

definition j_num_text :: "jval \<Rightarrow> string option" where
  "j_num_text v = (case v of JNum t \<Rightarrow> Some t | _ \<Rightarrow> None)"

definition j_bool :: "jval \<Rightarrow> bool option" where
  "j_bool v = (case v of JBool b \<Rightarrow> Some b | _ \<Rightarrow> None)"

text \<open>The elements of an array that are strings (\<^verbatim>\<open>filter((s): s is string => typeof s === "string")\<close>).\<close>

definition j_strings :: "jval list \<Rightarrow> string list" where
  "j_strings vs = List.map_filter j_string vs"

definition j_nonempty_string :: "jval \<Rightarrow> string option" where
  "j_nonempty_string v = (case v of JStr s \<Rightarrow> if s \<noteq> [] then Some s else None | _ \<Rightarrow> None)"

definition j_opt_str :: "string option \<Rightarrow> jval" where
  "j_opt_str s = (case s of Some t \<Rightarrow> JStr t | None \<Rightarrow> JNull)"

fun nat_text :: "nat \<Rightarrow> string" where
  "nat_text n = (if n < 10 then [hex_digit n] else nat_text (n div 10) @ [hex_digit (n mod 10)])"

declare nat_text.simps [simp del]

definition int_text :: "int \<Rightarrow> string" where
  "int_text n = (if n < 0 then CHR ''-'' # nat_text (nat (- n)) else nat_text (nat n))"

text \<open>\<^verbatim>\<open>JSON.stringify\<close> of a tree: \<^const>\<open>None\<close> is \<^verbatim>\<open>undefined\<close>.\<close>

fun json_stringify :: "jval \<Rightarrow> string option" where
  "json_stringify (JArr vs) =
     Some (''['' @ js_join '','' (map (\<lambda>v. case json_stringify v of None \<Rightarrow> ''null'' | Some t \<Rightarrow> t) vs) @ '']'')"
| "json_stringify (JObj kvs) =
     Some (''{'' @ js_join '','' (List.map_filter (\<lambda>(k, t). map_option (\<lambda>t. json_quote k @ '':'' @ t) t)
       (map (\<lambda>(k, v). (k, json_stringify v)) kvs)) @ ''}'')"
| "json_stringify v = json_primitive v"

text \<open>A value in a template string, \<^verbatim>\<open>typeof\<close>, and \<^verbatim>\<open>===\<close> between two values of different origin (two
  containers are never the same object).\<close>

fun j_text :: "jval \<Rightarrow> string" where
  "j_text JUndefined = ''undefined''"
| "j_text JNull = ''null''"
| "j_text (JBool b) = (if b then ''true'' else ''false'')"
| "j_text (JNum t) = t"
| "j_text (JStr s) = s"
| "j_text (JArr vs) = js_join '','' (map (\<lambda>v. if v = JUndefined \<or> v = JNull then [] else j_text v) vs)"
| "j_text (JObj _) = ''[object Object]''"

definition j_typeof :: "jval \<Rightarrow> string" where
  "j_typeof v = (case v of JUndefined \<Rightarrow> ''undefined'' | JBool _ \<Rightarrow> ''boolean'' | JNum _ \<Rightarrow> ''number''
     | JStr _ \<Rightarrow> ''string'' | _ \<Rightarrow> ''object'')"

definition j_same :: "jval \<Rightarrow> jval \<Rightarrow> bool" where
  "j_same v w = (case v of JArr _ \<Rightarrow> False | JObj _ \<Rightarrow> False | JNum t \<Rightarrow> t \<noteq> ''NaN'' \<and> w = v | _ \<Rightarrow> w = v)"

text \<open>\<^verbatim>\<open>k in v\<close> for an object or array that came from JSON: its own keys and those of its prototypes;
  \<^const>\<open>None\<close> where \<^verbatim>\<open>in\<close> throws.\<close>

definition object_prototype_keys :: "string list" where
  "object_prototype_keys = [''constructor'', ''__defineGetter__'', ''__defineSetter__'', ''hasOwnProperty'',
     ''__lookupGetter__'', ''__lookupSetter__'', ''isPrototypeOf'', ''propertyIsEnumerable'', ''toString'',
     ''valueOf'', ''__proto__'', ''toLocaleString'']"

definition array_prototype_keys :: "string list" where
  "array_prototype_keys = [''length'', ''at'', ''concat'', ''copyWithin'', ''fill'', ''find'', ''findIndex'',
     ''findLast'', ''findLastIndex'', ''lastIndexOf'', ''pop'', ''push'', ''reverse'', ''shift'', ''unshift'',
     ''slice'', ''sort'', ''splice'', ''includes'', ''indexOf'', ''join'', ''keys'', ''entries'', ''values'',
     ''forEach'', ''filter'', ''flat'', ''flatMap'', ''map'', ''every'', ''some'', ''reduce'', ''reduceRight'',
     ''toReversed'', ''toSorted'', ''toSpliced'', ''with'']"

definition j_in :: "string \<Rightarrow> jval \<Rightarrow> bool option" where
  "j_in k v = (case v of
     JObj kvs \<Rightarrow> Some (k \<in> fst ` set kvs \<or> k \<in> set object_prototype_keys)
   | JArr vs \<Rightarrow> Some (k \<in> nat_text ` set [0..<length vs] \<or> k \<in> set array_prototype_keys \<or> k \<in> set object_prototype_keys)
   | _ \<Rightarrow> None)"

text \<open>The dimensions resolved so far (\<^verbatim>\<open>Record<string, string | null>\<close>): \<open>resolved[k]\<close>, where \<^verbatim>\<open>null\<close> and
  absent are both \<^const>\<open>None\<close>. Names of \<^verbatim>\<open>Object.prototype\<close> members are read as absent.\<close>

type_synonym dims = "(string \<times> string option) list"

definition dim_get :: "dims \<Rightarrow> string \<Rightarrow> string option" where
  "dim_get resolved k = (case jm_get resolved k of Some (Some v) \<Rightarrow> Some v | _ \<Rightarrow> None)"

end
