(* ===== verification/Approval_Grants.thy ===== *)
theory Approval_Grants
  imports Ttl_Cache Json_Text
begin

text \<open>
  \<^verbatim>\<open>evaluation/cedar-client.ts\<close>: the ledger of human approvals (class
  \<open>ApprovalGrantCache\<close>) and the hash of the approved arguments (\<open>hashArgsCanonical\<close>).
  The digest functions of the runtime are parameters (record \<open>runtime_crypto\<close>). The ledger
  interprets the shared cache contract; the key lemmas say when a grant can only answer for
  the call it was given for.
\<close>

section \<open>Hash of the arguments\<close>

text \<open>
  \<open>rc_subtle\<close> is \<^verbatim>\<open>crypto.subtle.digest("SHA-256", \<dots>)\<close> as a list of bytes, \<open>rc_node\<close> the
  hexadecimal digest of \<^verbatim>\<open>node:crypto\<close>; \<^const>\<open>None\<close> when the runtime lacks it. Both read the
  UTF-8 form of the text.
\<close>

record runtime_crypto =
  rc_subtle :: "(string \<Rightarrow> nat list) option"
  rc_node :: "(string \<Rightarrow> string) option"

definition hex_byte :: "nat \<Rightarrow> string" where
  "hex_byte b = [hex_digit (b div 16), hex_digit (b mod 16)]"

definition toHex :: "nat list \<Rightarrow> string" where
  "toHex bytes = concat (map hex_byte bytes)"

definition hashArgsCanonical :: "runtime_crypto \<Rightarrow> jval \<Rightarrow> string option" where
  "hashArgsCanonical rc args =
     (let serialised = canonicalJsonStringify args in
      case rc_subtle rc of
        Some digest \<Rightarrow> Some (toHex (digest serialised))
      | None \<Rightarrow> (case rc_node rc of Some digest \<Rightarrow> Some (digest serialised) | None \<Rightarrow> None))"

section \<open>The ledger\<close>

record grant_entry =
  ge_expiresAt :: int
  ge_requestId :: "string option"

record grant_cache =
  ag_maxSize :: int
  ag_entries :: "(string, grant_entry) jsmap"

definition ag_new :: "int \<Rightarrow> grant_cache" where
  "ag_new maxSize = \<lparr>ag_maxSize = max 1 (to_int32 maxSize), ag_entries = []\<rparr>"

definition ag_key :: "string \<Rightarrow> string \<Rightarrow> string \<Rightarrow> string" where
  "ag_key agentId toolName argsHash = agentId @ ''|'' @ toolName @ ''|'' @ argsHash"

definition ag_put_key :: "grant_cache \<Rightarrow> string \<Rightarrow> string option \<Rightarrow> int \<Rightarrow> int \<Rightarrow> grant_cache" where
  "ag_put_key c key requestId ttlMs now =
     (let entries = jm_del key (ag_entries c);
          entries' = (if jm_size entries \<ge> ag_maxSize c then jm_drop_oldest entries else entries)
      in c\<lparr>ag_entries := jm_set key \<lparr>ge_expiresAt = now + ttlMs, ge_requestId = requestId\<rparr> entries'\<rparr>)"

definition ag_put :: "grant_cache \<Rightarrow> string \<Rightarrow> string \<Rightarrow> string \<Rightarrow> int \<Rightarrow> string option \<Rightarrow> int \<Rightarrow> grant_cache" where
  "ag_put c agentId toolName argsHash ttlMs requestId now =
     ag_put_key c (ag_key agentId toolName argsHash) requestId ttlMs now"

definition ag_find_key :: "grant_cache \<Rightarrow> string \<Rightarrow> int \<Rightarrow> grant_entry option \<times> grant_cache" where
  "ag_find_key c key now =
     (case jm_get (ag_entries c) key of
        None \<Rightarrow> (None, c)
      | Some entry \<Rightarrow>
          if ge_expiresAt entry \<le> now then (None, c\<lparr>ag_entries := jm_del key (ag_entries c)\<rparr>)
          else (Some entry, c\<lparr>ag_entries := jm_set key entry (jm_del key (ag_entries c))\<rparr>))"

definition ag_find :: "grant_cache \<Rightarrow> string \<Rightarrow> string \<Rightarrow> string \<Rightarrow> int \<Rightarrow> grant_entry option \<times> grant_cache" where
  "ag_find c agentId toolName argsHash now = ag_find_key c (ag_key agentId toolName argsHash) now"

definition ag_clear :: "grant_cache \<Rightarrow> grant_cache" where
  "ag_clear c = c\<lparr>ag_entries := []\<rparr>"

definition ag_size :: "grant_cache \<Rightarrow> int" where
  "ag_size c = jm_size (ag_entries c)"

section \<open>Invariant and contract\<close>

definition ag_inv :: "grant_cache \<Rightarrow> bool" where
  "ag_inv c \<longleftrightarrow> 1 \<le> ag_maxSize c \<and> jm_ok (ag_entries c) \<and> jm_size (ag_entries c) \<le> ag_maxSize c"

definition ag_lookup :: "grant_cache \<Rightarrow> string \<Rightarrow> (string option \<times> int) option" where
  "ag_lookup c k = map_option (\<lambda>e. (ge_requestId e, ge_expiresAt e)) (jm_get (ag_entries c) k)"

lemma ag_inv_new: "ag_inv (ag_new m)"
  by (simp add: ag_inv_def ag_new_def)

lemma ag_inv_put: "ag_inv c \<Longrightarrow> ag_inv (ag_put_key c k r ttl now)"
  using jm_size_bounded_set [of "jm_del k (ag_entries c)" "ag_maxSize c" k]
    order_trans [OF jm_size_del_le [of k "ag_entries c"], of "ag_maxSize c"]
  by (auto simp: ag_inv_def ag_put_key_def Let_def jm_simps)

lemma ag_inv_find: "ag_inv c \<Longrightarrow> ag_inv (snd (ag_find_key c k now))"
  by (auto simp: ag_inv_def ag_find_key_def jm_bump jm_simps simp del: jm_get_set split: option.splits
      intro: order_trans [OF jm_size_del_le])

lemma ag_find_Some:
  "fst (ag_find_key c k now) = Some e \<longleftrightarrow> jm_get (ag_entries c) k = Some e \<and> now < ge_expiresAt e"
  by (auto simp: ag_find_key_def split: option.splits if_splits)

lemma ag_lookup_find:
  "ag_inv c \<Longrightarrow> ag_lookup (snd (ag_find_key c k now)) k' =
    (if k' = k \<and> fst (ag_find_key c k now) = None then None else ag_lookup c k')"
  by (auto simp: ag_inv_def ag_find_key_def ag_lookup_def jm_bump jm_simps split: option.splits)

lemma ag_lookup_put_same: "ag_lookup (ag_put_key c k r ttl now) k = Some (r, now + ttl)"
  by (simp add: ag_lookup_def ag_put_key_def Let_def jm_simps)

lemma ag_lookup_put:
  "ag_lookup (ag_put_key c k r ttl now) k' = Some x \<Longrightarrow>
    (k' = k \<and> x = (r, now + ttl)) \<or> ag_lookup c k' = Some x"
  by (auto simp: ag_lookup_def ag_put_key_def Let_def dest!: jm_get_bounded_set)
     (auto simp: jm_simps split: if_splits)

interpretation ag: ttl_cache_hits ag_inv ag_lookup
  "\<lambda>c k now. (map_option ge_requestId (fst (ag_find_key c k now)), snd (ag_find_key c k now))"
  ag_put_key ag_clear "\<lambda>ttl now. now + ttl" "\<lambda>c ttl. True"
proof (unfold_locales, goal_cases)
  case (6 c k v ttl now k' x)
  then show ?case using ag_lookup_put [of c k v ttl now k' x] by simp
next
  case (3 c)
  then show ?case by (simp add: ag_inv_def ag_clear_def)
next
  case (7 c k)
  then show ?case by (simp add: ag_lookup_def ag_clear_def)
next
  case (4 c k now v)
  then show ?case by (auto simp: ag_find_Some ag_lookup_def)
next
  case (8 c k v e now)
  then obtain g where g: "jm_get (ag_entries c) k = Some g" "ge_requestId g = v" "now < ge_expiresAt g"
    by (auto simp: ag_lookup_def)
  then have f: "fst (ag_find_key c k now) = Some g" by (simp add: ag_find_Some)
  with 8 have "ag_lookup (snd (ag_find_key c k now)) k = ag_lookup c k" by (simp add: ag_lookup_find)
  with 8 f g show ?case by simp
qed (auto simp: ag_inv_find ag_inv_put ag_lookup_find ag_lookup_put_same split: if_splits)

section \<open>Keys\<close>

lemma ag_key_inject:
  assumes "CHR ''|'' \<notin> set h" and "CHR ''|'' \<notin> set h'"
  shows "ag_key a t h = ag_key a t' h' \<longleftrightarrow> t = t' \<and> h = h'"
  using separator_inject_last [OF assms, of t t'] by (auto simp: ag_key_def)

lemma hex_digit_no_pipe:
  assumes "n < 16"
  shows "hex_digit n \<noteq> CHR ''|''"
proof
  assume "hex_digit n = CHR ''|''"
  then have "hex_val (CHR ''|'') = n" using hex_val_digit [OF assms] by metis
  moreover have "hex_val (CHR ''|'') = 37" by (simp add: hex_val_def)
  ultimately show False using assms by simp
qed

lemma hex_byte_no_pipe:
  assumes "b < 256"
  shows "CHR ''|'' \<notin> set (hex_byte b)"
proof -
  have d: "b div 16 < 16" "b mod 16 < 16" using assms by auto
  show ?thesis
    using hex_digit_no_pipe [OF d(1), THEN not_sym] hex_digit_no_pipe [OF d(2), THEN not_sym]
    by (simp add: hex_byte_def)
qed

lemma toHex_no_pipe: "\<forall>b \<in> set bs. b < 256 \<Longrightarrow> CHR ''|'' \<notin> set (toHex bs)"
  using hex_byte_no_pipe by (auto simp: toHex_def)

section \<open>Properties\<close>

text \<open>A grant found for a tool and an argument hash was recorded for exactly that tool
  and that hash (hashes hold no separator, as the hexadecimal ones do), since the last
  clear, and its window has not closed. An approval cannot answer for other arguments.\<close>

theorem grant_answers_only_its_call:
  assumes run: "c = cache_run (\<lambda>c k now. (map_option ge_requestId (fst (ag_find_key c k now)),
        snd (ag_find_key c k now))) ag_put_key ag_clear (ag_new m)
        (map (\<lambda>(t, h, r, ttl, now). Op_Put (ag_key a t h) r ttl now) puts)"
    and hex: "\<forall>(t, h, r, ttl, now) \<in> set puts. CHR ''|'' \<notin> set h" and hex_h: "CHR ''|'' \<notin> set h"
    and found: "fst (ag_find c a t h now) = Some e"
  shows "\<exists>ttl t0. (t, h, ge_requestId e, ttl, t0) \<in> set puts \<and> now < t0 + ttl"
proof -
  have lp: "live_puts (map (\<lambda>(t, h, r, ttl, now). Op_Put (ag_key a t h) r ttl now) ps) =
      map (\<lambda>(t, h, r, ttl, now). (ag_key a t h, r, ttl, now)) ps" for ps
    by (induction ps rule: rev_induct) auto
  have "\<exists>ttl t0. (ag_key a t h, ge_requestId e, ttl, t0) \<in>
      set (live_puts (map (\<lambda>(t, h, r, ttl, now). Op_Put (ag_key a t h) r ttl now) puts)) \<and> now < t0 + ttl"
    by (rule ag.served_was_put [OF ag_inv_new [of m]])
       (use found run in \<open>auto simp: ag_find_def ag_lookup_def ag_new_def\<close>)
  then obtain t' h' ttl t0 where p: "(t', h', ge_requestId e, ttl, t0) \<in> set puts"
    and k: "ag_key a t' h' = ag_key a t h" and w: "now < t0 + ttl"
    by (auto simp: lp)
  have "CHR ''|'' \<notin> set h'" using hex p by auto
  then have "t' = t \<and> h' = h" using k hex_h by (simp add: ag_key_inject)
  with p w show ?thesis by auto
qed

theorem grant_answers_only_its_call_witness:
  "\<exists>ttl t0. (''mail'', ''ab'', Some ''r1'', ttl, t0) \<in> set [(''mail'', ''ab'', Some ''r1'', 100, 5)] \<and> (50::int) < t0 + ttl"
  using grant_answers_only_its_call [OF refl, where m = 4 and a = "''A''" and t = "''mail''"
      and h = "''ab''" and now = 50 and puts = "[(''mail'', ''ab'', Some ''r1'', 100, 5)]"
      and e = "\<lparr>ge_expiresAt = 105, ge_requestId = Some ''r1''\<rparr>"]
  by (simp add: ag_find_def ag_find_key_def cache_run_def ag_put_key_def ag_new_def ag_key_def to_int32_def)

end
