(* ===== verification/Tool_Evaluation.thy ===== *)
theory Tool_Evaluation
  imports Js_Value Decision_Cache Approval_Grants
begin

text \<open>
  \<^verbatim>\<open>evaluation/cedar-client.ts\<close>, the data of the tool-call evaluator: the evaluation it returns,
  the request bodies it sends to the local policy sidecar and to the central service, the
  reading of their answers, and the audit rows it emits. Bodies are parsed JSON values;
  reading a property of \<^verbatim>\<open>null\<close> throws, which is \<^const>\<open>None\<close>. Log lines are not modelled.
\<close>

section \<open>Evaluations\<close>

datatype tool_decision = Dec_Allow | Dec_Deny

datatype eval_plane = Plane_Pdp | Plane_Central

record evaluation =
  te_decision :: tool_decision
  te_ruleId :: "jval option"
  te_reason :: "jval option"
  te_denyCode :: "string option"
  te_advice :: "jval list option"
  te_hitlPending :: bool
  te_ttlMs :: rat
  te_policyHash :: "string option"
  te_decisionSource :: "eval_plane option"
  te_evaluatedLocally :: "bool option"
  te_pdpLatencyUs :: "string option"

definition bare_evaluation :: "tool_decision \<Rightarrow> rat \<Rightarrow> evaluation" where
  "bare_evaluation d ttl = \<lparr>te_decision = d, te_ruleId = None, te_reason = None, te_denyCode = None,
     te_advice = None, te_hitlPending = False, te_ttlMs = ttl, te_policyHash = None,
     te_decisionSource = None, te_evaluatedLocally = None, te_pdpLatencyUs = None\<rparr>"

definition failClosed :: "bool \<Rightarrow> string option \<Rightarrow> evaluation" where
  "failClosed allowMode reason =
     (if allowMode then bare_evaluation Dec_Allow 0
      else (bare_evaluation Dec_Deny 0)
        \<lparr>te_reason := Some (JStr (case reason of
             Some r \<Rightarrow> if r \<noteq> [] then ''agentum-fail-closed: '' @ r else ''agentum-fail-closed''
           | None \<Rightarrow> ''agentum-fail-closed'')),
         te_denyCode := Some (if reason = Some ''pdp_unauthorized'' then ''deny_pdp_unauthorized''
           else ''deny_fail_closed'')\<rparr>)"

section \<open>Calls and their request bodies\<close>

record tool_call =
  tq_toolName :: string
  tq_arguments :: jval
  tq_mcpServerUrl :: "string option"
  tq_mcpServerName :: "string option"

record agentum_ctx =
  cx_sessionId :: "string option"
  cx_userId :: "string option"

definition mcp_entries :: "tool_call \<Rightarrow> (string \<times> jval) list" where
  "mcp_entries q =
     (case tq_mcpServerUrl q of Some u \<Rightarrow> [(''mcp_server_url'', JStr u)] | None \<Rightarrow> []) @
     (case tq_mcpServerName q of Some n \<Rightarrow> [(''mcp_server_name'', JStr n)] | None \<Rightarrow> [])"

text \<open>Only string dimensions go on the wire.\<close>

definition wire_dims :: "(string \<times> string option) list \<Rightarrow> (string \<times> string) list" where
  "wire_dims dimsWithNulls = List.map_filter (\<lambda>(k, v). map_option (Pair k) v) dimsWithNulls"

definition dims_json :: "(string \<times> string) list \<Rightarrow> jval" where
  "dims_json dims = JObj (map (\<lambda>(k, v). (k, JStr v)) dims)"

definition authorize_body :: "string \<Rightarrow> tool_call \<Rightarrow> agentum_ctx \<Rightarrow> (string \<times> string) list \<Rightarrow> jval" where
  "authorize_body agentId q ctx dims =
     JObj [(''principal'', JStr agentId), (''action'', JStr (''tool:'' @ tq_toolName q)),
       (''resource'', JStr (tq_toolName q)),
       (''context'', JObj ([(''arguments'', j_default (tq_arguments q) JNull),
          (''session_id'', j_opt_str (cx_sessionId ctx)), (''user_id'', j_opt_str (cx_userId ctx))] @ mcp_entries q)),
       (''dimensions'', dims_json dims)]"

definition evaluate_body :: "string \<Rightarrow> tool_call \<Rightarrow> agentum_ctx \<Rightarrow> (string \<times> string) list \<Rightarrow> jval" where
  "evaluate_body agentId q ctx dims =
     JObj ([(''agent_id'', JStr agentId), (''tool_name'', JStr (tq_toolName q)),
       (''arguments'', j_default (tq_arguments q) JNull), (''session_id'', j_opt_str (cx_sessionId ctx)),
       (''user_id'', j_opt_str (cx_userId ctx)), (''dimensions'', dims_json dims)] @ mcp_entries q)"

section \<open>Reading the answers\<close>

text \<open>An HTTP exchange: the request throws (with the error's name and message), or a response
  comes with its status and its parsed body, or the error \<^verbatim>\<open>resp.json()\<close> throws.\<close>

datatype http_reply = Http_Throws string string | Http_Reply nat "(string \<times> string) + jval"

definition http_ok :: "nat \<Rightarrow> bool" where
  "http_ok status \<longleftrightarrow> 200 \<le> status \<and> status \<le> 299"

definition read_decision :: "jval \<Rightarrow> tool_decision" where
  "read_decision data = (if j_field data ''decision'' = JStr ''allow'' then Dec_Allow else Dec_Deny)"

definition truthy_field :: "jval \<Rightarrow> string \<Rightarrow> jval option" where
  "truthy_field data k = (let v = j_field data k in if j_truthy v then Some v else None)"

definition read_central :: "jval \<Rightarrow> evaluation option" where
  "read_central data =
     (if j_nullish data then None
      else Some \<lparr>te_decision = read_decision data,
        te_ruleId = truthy_field data ''rule_id'', te_reason = truthy_field data ''reason'',
        te_denyCode = j_nonempty_string (j_field data ''deny_code''),
        te_advice = j_array (j_field data ''advice''),
        te_hitlPending = (j_field data ''hitl_pending'' = JBool True),
        te_ttlMs = (case j_number (j_field data ''ttl_ms'') of Some n \<Rightarrow> n | None \<Rightarrow> 0),
        te_policyHash = j_nonempty_string (j_field data ''policy_hash''),
        te_decisionSource = Some Plane_Central, te_evaluatedLocally = None, te_pdpLatencyUs = None\<rparr>)"

definition read_pdp :: "jval \<Rightarrow> evaluation option" where
  "read_pdp data =
     (if j_nullish data then None
      else Some \<lparr>te_decision = read_decision data,
        te_ruleId = truthy_field data ''rule_id'', te_reason = truthy_field data ''reason'',
        te_denyCode = None,
        te_advice = (case j_array (j_field data ''advice'') of
            Some vs \<Rightarrow> (let a = j_strings vs in if a \<noteq> [] then Some (map JStr a) else None)
          | None \<Rightarrow> None),
        te_hitlPending = (j_field data ''hitl_pending'' = JBool True),
        te_ttlMs = 1000,
        te_policyHash = j_nonempty_string (j_field data ''policy_hash''),
        te_decisionSource = Some Plane_Pdp,
        te_evaluatedLocally = j_bool (j_field data ''evaluated_locally''),
        te_pdpLatencyUs = j_num_text (j_field data ''latency_us'')\<rparr>)"

section \<open>Audit rows\<close>

record tool_audit =
  ta_agent_id :: string
  ta_session_id :: string
  ta_event_type :: string
  ta_outcome :: string
  ta_tool :: string
  ta_decision_source :: "string option"
  ta_policy_hash :: "string option"
  ta_cache_hit :: bool
  ta_hitl_grant_id :: "string option"
  ta_detail :: "(string \<times> jval) list"

definition is_hex_char :: "char \<Rightarrow> bool" where
  "is_hex_char c \<longleftrightarrow> is_digit c \<or> (let l = lower_char c in (97 :: nat) \<le> of_char l \<and> of_char l \<le> (102 :: nat))"

definition isUuidV4Shape :: "string \<Rightarrow> bool" where
  "isUuidV4Shape s \<longleftrightarrow> length s = 36 \<and>
     list_all (\<lambda>(i, c). if i = 8 \<or> i = 13 \<or> i = 18 \<or> i = 23 then c = CHR ''-'' else is_hex_char c)
       (zip [0..<36] s)"

datatype audit_plane = From_Local_Pdp | From_Central | From_Cache | From_Approval_Grant

definition plane_text :: "audit_plane \<Rightarrow> string" where
  "plane_text p = (case p of From_Local_Pdp \<Rightarrow> ''local_pdp'' | From_Central \<Rightarrow> ''central''
     | From_Cache \<Rightarrow> ''cache'' | From_Approval_Grant \<Rightarrow> ''approval_grant'')"

definition decision_text :: "tool_decision \<Rightarrow> string" where
  "decision_text d = (case d of Dec_Allow \<Rightarrow> ''allow'' | Dec_Deny \<Rightarrow> ''deny'')"

definition decision_detail :: "string \<Rightarrow> evaluation \<Rightarrow> string option \<Rightarrow> (string \<times> jval) list" where
  "decision_detail toolName e approvalRequestId =
     [(''tool'', JStr toolName), (''decision'', JStr (decision_text (te_decision e)))] @
     (case te_ruleId e of Some v \<Rightarrow> if j_truthy v then [(''rule_id'', v)] else [] | None \<Rightarrow> []) @
     (case te_reason e of Some v \<Rightarrow> if j_truthy v then [(''reason'', v)] else [] | None \<Rightarrow> []) @
     (case te_evaluatedLocally e of Some b \<Rightarrow> [(''evaluated_locally'', JBool b)] | None \<Rightarrow> []) @
     (case te_pdpLatencyUs e of Some n \<Rightarrow> [(''pdp_latency_us'', JNum n)] | None \<Rightarrow> []) @
     (case approvalRequestId of Some r \<Rightarrow> if r \<noteq> [] then [(''approval_request_id'', JStr r)] else [] | None \<Rightarrow> [])"

definition emitLocalPdpDecisionAudit :: "string \<Rightarrow> agentum_ctx \<Rightarrow> string \<Rightarrow> evaluation \<Rightarrow>
    audit_plane \<Rightarrow> string option \<Rightarrow> tool_audit" where
  "emitLocalPdpDecisionAudit agentId ctx toolName e source approvalRequestId =
     \<lparr>ta_agent_id = agentId, ta_session_id = (case cx_sessionId ctx of Some s \<Rightarrow> s | None \<Rightarrow> []),
      ta_event_type = ''local_pdp_decision'', ta_outcome = decision_text (te_decision e), ta_tool = toolName,
      ta_decision_source = Some (plane_text source),
      ta_policy_hash = (case te_policyHash e of Some h \<Rightarrow> if h \<noteq> [] then Some h else None | None \<Rightarrow> None),
      ta_cache_hit = (source = From_Cache \<or> source = From_Approval_Grant),
      ta_hitl_grant_id = (case approvalRequestId of
          Some r \<Rightarrow> if source = From_Approval_Grant \<and> r \<noteq> [] \<and> isUuidV4Shape r then Some r else None
        | None \<Rightarrow> None),
      ta_detail = decision_detail toolName e approvalRequestId\<rparr>"

definition emitLocalPdpStaleAudit :: "string \<Rightarrow> agentum_ctx \<Rightarrow> string \<Rightarrow> string \<Rightarrow> string \<Rightarrow> tool_audit" where
  "emitLocalPdpStaleAudit agentId ctx toolName expected observed =
     \<lparr>ta_agent_id = agentId, ta_session_id = (case cx_sessionId ctx of Some s \<Rightarrow> s | None \<Rightarrow> []),
      ta_event_type = ''local_pdp_stale'', ta_outcome = ''stale'', ta_tool = toolName,
      ta_decision_source = Some ''local_pdp'', ta_policy_hash = Some observed,
      ta_cache_hit = False, ta_hitl_grant_id = None,
      ta_detail = [(''tool'', JStr toolName), (''expected_policy_hash'', JStr expected),
        (''observed_policy_hash'', JStr observed)]\<rparr>"

definition emitMcpAudit :: "string \<Rightarrow> agentum_ctx \<Rightarrow> string \<Rightarrow> string \<Rightarrow> string \<Rightarrow> (string \<times> jval) list option \<Rightarrow> tool_audit" where
  "emitMcpAudit agentId ctx eventType toolName out detail =
     \<lparr>ta_agent_id = agentId, ta_session_id = (case cx_sessionId ctx of Some s \<Rightarrow> s | None \<Rightarrow> []),
      ta_event_type = eventType, ta_outcome = out, ta_tool = toolName, ta_decision_source = None,
      ta_policy_hash = None, ta_cache_hit = False, ta_hitl_grant_id = None,
      ta_detail = (case detail of Some d \<Rightarrow> d | None \<Rightarrow> [(''tool'', JStr toolName)])\<rparr>"

end
