(* ===== verification/Tool_Client.thy ===== *)
theory Tool_Client
  imports Tool_Evaluation
begin

text \<open>
  \<^verbatim>\<open>evaluation/cedar-client.ts\<close>, class \<open>CedarToolCallClient\<close>. \<open>evaluateToolCall\<close> is split where it
  awaits (the digest of the arguments, the dimensions, the sidecar's health probe, the sidecar's
  answer, the central answer): each step reads and updates the client's state at once, and other
  calls and server events may run between two steps. The digest is an argument (\<open>runtime_crypto\<close>),
  as are the resolved dimensions (\<^const>\<open>None\<close> when resolving throws), the HTTP replies and the clock.
\<close>

section \<open>State\<close>

record tool_client =
  tc_agentId :: string
  tc_timeoutMs :: int
  tc_allowMode :: bool
  tc_pdpUrl :: "string option"
  tc_pdpDiscoveryTtlMs :: int
  tc_cache :: "evaluation decision_cache"
  tc_pdpAlive :: "bool option"
  tc_pdpAliveExpiresAt :: int
  tc_lastPolicyHash :: "string option"
  tc_lastEnabledAddons :: "string list"
  tc_snapshotReceived :: bool
  tc_approvalGrants :: grant_cache
  tc_suspendedAgents :: "string list"

record tool_client_options =
  to_baseUrl :: string
  to_apiKey :: string
  to_agentId :: string
  to_timeoutMs :: "int option"
  to_cacheMaxSize :: "int option"
  to_allowMode :: bool
  to_pdpUrl :: "string option"
  to_pdpDiscoveryTtlMs :: "int option"

definition strip_slash :: "string \<Rightarrow> string" where
  "strip_slash s = (if js_endsWith s ''/'' then butlast s else s)"

definition opt_default :: "'a option \<Rightarrow> 'a \<Rightarrow> 'a" where
  "opt_default a d = (case a of Some x \<Rightarrow> x | None \<Rightarrow> d)"

definition tc_new :: "tool_client_options \<Rightarrow> string + tool_client" where
  "tc_new opts =
     (if to_baseUrl opts = [] then Inl ''CedarToolCallClient: baseUrl required''
      else if to_apiKey opts = [] then Inl ''CedarToolCallClient: apiKey required''
      else if to_agentId opts = [] then Inl ''CedarToolCallClient: agentId required''
      else Inr \<lparr>tc_agentId = to_agentId opts, tc_timeoutMs = opt_default (to_timeoutMs opts) 200,
        tc_allowMode = to_allowMode opts,
        tc_pdpUrl = (case to_pdpUrl opts of Some u \<Rightarrow> if u \<noteq> [] then Some (strip_slash u) else None | None \<Rightarrow> None),
        tc_pdpDiscoveryTtlMs = opt_default (to_pdpDiscoveryTtlMs opts) 30000,
        tc_cache = dc_new (opt_default (to_cacheMaxSize opts) 1024) 60000,
        tc_pdpAlive = None, tc_pdpAliveExpiresAt = 0, tc_lastPolicyHash = None,
        tc_lastEnabledAddons = [], tc_snapshotReceived = False,
        tc_approvalGrants = ag_new 256, tc_suspendedAgents = []\<rparr>)"

section \<open>Small operations\<close>

definition tc_fail :: "tool_client \<Rightarrow> string option \<Rightarrow> evaluation" where
  "tc_fail c reason = failClosed (tc_allowMode c) reason"

definition markPdpUnhealthy :: "tool_client \<Rightarrow> int \<Rightarrow> tool_client" where
  "markPdpUnhealthy c now =
     c\<lparr>tc_pdpAlive := Some False, tc_pdpAliveExpiresAt := now + tc_pdpDiscoveryTtlMs c\<rparr>"

datatype feature_state = Feature_Enabled | Feature_Disabled | Feature_Unknown

definition featureState :: "tool_client \<Rightarrow> string \<Rightarrow> feature_state" where
  "featureState c addonId =
     (if \<not> tc_snapshotReceived c then Feature_Unknown
      else if addonId \<in> set (tc_lastEnabledAddons c) then Feature_Enabled else Feature_Disabled)"

definition hasAddonSnapshot :: "tool_client \<Rightarrow> bool" where
  "hasAddonSnapshot c = tc_snapshotReceived c"

definition enabledAddonsSnapshot :: "tool_client \<Rightarrow> string list" where
  "enabledAddonsSnapshot c = tc_lastEnabledAddons c"

definition tc_invalidateAll :: "tool_client \<Rightarrow> tool_client" where
  "tc_invalidateAll c = c\<lparr>tc_cache := dc_invalidateAll (tc_cache c), tc_approvalGrants := ag_clear (tc_approvalGrants c)\<rparr>"

definition drop_policy_state :: "tool_client \<Rightarrow> tool_client" where
  "drop_policy_state c = c\<lparr>tc_cache := dc_invalidateAll (tc_cache c), tc_lastPolicyHash := None,
     tc_lastEnabledAddons := [], tc_snapshotReceived := False\<rparr>"

definition invalidatePolicyCache :: "tool_client \<Rightarrow> string option \<Rightarrow> tool_client" where
  "invalidatePolicyCache c agentId =
     (case agentId of
        Some a \<Rightarrow> if a \<noteq> tc_agentId c then c else drop_policy_state c
      | None \<Rightarrow> drop_policy_state c)"

definition invalidateCapabilityCache :: "tool_client \<Rightarrow> string option \<Rightarrow> tool_client" where
  "invalidateCapabilityCache c scopeValue = drop_policy_state c"

definition recordApprovalGrant :: "runtime_crypto \<Rightarrow> tool_client \<Rightarrow> string \<Rightarrow> string \<Rightarrow> int \<Rightarrow> string option \<Rightarrow>
    jval \<Rightarrow> int \<Rightarrow> tool_client" where
  "recordApprovalGrant rc c agentId toolName ttlMs requestId toolArgs now =
     (if agentId \<noteq> tc_agentId c then c
      else if toolName = [] then c
      else (let ttl = max 0 (to_int32 ttlMs) in
        if ttl = 0 then c
        else (case hashArgsCanonical rc toolArgs of
          None \<Rightarrow> c
        | Some h \<Rightarrow> c\<lparr>tc_approvalGrants := ag_put (tc_approvalGrants c) agentId toolName h ttl requestId now\<rparr>)))"

definition findApprovalGrant :: "runtime_crypto \<Rightarrow> tool_client \<Rightarrow> string \<Rightarrow> string \<Rightarrow> jval \<Rightarrow> int \<Rightarrow>
    grant_entry option \<times> tool_client" where
  "findApprovalGrant rc c agentId toolName toolArgs now =
     (if agentId \<noteq> tc_agentId c then (None, c)
      else (case hashArgsCanonical rc toolArgs of
          None \<Rightarrow> (None, c)
        | Some h \<Rightarrow> (let (g, gs) = ag_find (tc_approvalGrants c) agentId toolName h now
            in (g, c\<lparr>tc_approvalGrants := gs\<rparr>))))"

definition recordApprovalGrantByHash :: "tool_client \<Rightarrow> string \<Rightarrow> string \<Rightarrow> string \<Rightarrow> int \<Rightarrow> string option \<Rightarrow>
    int \<Rightarrow> tool_client" where
  "recordApprovalGrantByHash c agentId toolName argsHash ttlMs requestId now =
     (if agentId \<noteq> tc_agentId c then c
      else if toolName = [] \<or> argsHash = [] then c
      else (let ttl = max 0 (to_int32 ttlMs) in
        if ttl = 0 then c
        else c\<lparr>tc_approvalGrants := ag_put (tc_approvalGrants c) agentId toolName argsHash ttl requestId now\<rparr>))"

definition markSuspended :: "tool_client \<Rightarrow> string \<Rightarrow> tool_client" where
  "markSuspended c agentId =
     (if agentId \<noteq> tc_agentId c then c else c\<lparr>tc_suspendedAgents := List.insert agentId (tc_suspendedAgents c)\<rparr>)"

definition clearSuspended :: "tool_client \<Rightarrow> string \<Rightarrow> tool_client" where
  "clearSuspended c agentId =
     (if agentId \<noteq> tc_agentId c then c
      else c\<lparr>tc_suspendedAgents := filter (\<lambda>a. a \<noteq> agentId) (tc_suspendedAgents c)\<rparr>)"

definition isSuspended :: "tool_client \<Rightarrow> string \<Rightarrow> bool" where
  "isSuspended c agentId \<longleftrightarrow> agentId \<in> set (tc_suspendedAgents c)"

section \<open>The steps of \<open>evaluateToolCall\<close>\<close>

datatype eval_wait =
    Wait_Hash tool_call
  | Wait_Dims tool_call
  | Wait_Probe tool_call "(string \<times> string) list" string int
  | Wait_Authorize tool_call "(string \<times> string) list" string
  | Wait_Central tool_call "(string \<times> string) list" string

datatype eval_outcome = Finished evaluation "tool_audit list" | Rejected | Waiting eval_wait

definition tc_audit :: "tool_client \<Rightarrow> agentum_ctx \<Rightarrow> tool_call \<Rightarrow> evaluation \<Rightarrow> audit_plane \<Rightarrow> string option \<Rightarrow> tool_audit" where
  "tc_audit c ctx q e source requestId =
     emitLocalPdpDecisionAudit (tc_agentId c) ctx (tq_toolName q) e source requestId"

definition eval_start :: "tool_client \<Rightarrow> agentum_ctx \<Rightarrow> tool_call \<Rightarrow> eval_outcome" where
  "eval_start c ctx q =
     (if isSuspended c (tc_agentId c) then
        (let out = (bare_evaluation Dec_Deny 0)\<lparr>te_reason := Some (JStr ''agent suspended'')\<rparr>
         in Finished out [tc_audit c ctx q out From_Local_Pdp None])
      else if ag_size (tc_approvalGrants c) > 0 then Waiting (Wait_Hash q)
      else Waiting (Wait_Dims q))"

definition eval_grant :: "runtime_crypto \<Rightarrow> tool_client \<Rightarrow> agentum_ctx \<Rightarrow> tool_call \<Rightarrow> int \<Rightarrow>
    eval_outcome \<times> tool_client" where
  "eval_grant rc c ctx q now =
     (case hashArgsCanonical rc (tq_arguments q) of
        None \<Rightarrow> (Waiting (Wait_Dims q), c)
      | Some h \<Rightarrow>
          let (grant, gs) = ag_find (tc_approvalGrants c) (tc_agentId c) (tq_toolName q) h now;
              c = c\<lparr>tc_approvalGrants := gs\<rparr> in
          case grant of
            None \<Rightarrow> (Waiting (Wait_Dims q), c)
          | Some g \<Rightarrow>
              let out = bare_evaluation Dec_Allow 0
              in (Finished out [tc_audit c ctx q out From_Approval_Grant (ge_requestId g)], c))"

definition eval_ctxHash :: "tool_call \<Rightarrow> (string \<times> string) list \<Rightarrow> string" where
  "eval_ctxHash q dims = hashContext (JObj [(''args'', tq_arguments q), (''dims'', dims_json dims)])"

definition eval_key :: "tool_client \<Rightarrow> tool_call \<Rightarrow> string \<Rightarrow> string option \<Rightarrow> string" where
  "eval_key c q ctxHash policyHash =
     dc_key (tc_agentId c) (''tool:'' @ tq_toolName q) ''*'' ctxHash policyHash"

definition pdp_configured :: "tool_client \<Rightarrow> bool" where
  "pdp_configured c \<longleftrightarrow> tc_pdpUrl c \<noteq> None \<and> tc_pdpUrl c \<noteq> Some []"

text \<open>\<open>discoverPdp\<close> up to the probe: a known answer, or the probe is sent.\<close>

definition discover_start :: "tool_client \<Rightarrow> int \<Rightarrow> bool option" where
  "discover_start c now =
     (if \<not> pdp_configured c then Some False
      else (case tc_pdpAlive c of
          Some alive \<Rightarrow> if now < tc_pdpAliveExpiresAt c then Some alive else None
        | None \<Rightarrow> None))"

definition probe_alive :: "tool_client \<Rightarrow> http_reply \<Rightarrow> bool" where
  "probe_alive c reply =
     (case reply of
        Http_Throws n m \<Rightarrow> False
      | Http_Reply status body \<Rightarrow>
          http_ok status \<and>
          (case body of Inl _ \<Rightarrow> False
           | Inr parsed \<Rightarrow> j_string (j_field parsed ''agent_id'') = Some (tc_agentId c)))"

definition discover_finish :: "tool_client \<Rightarrow> http_reply \<Rightarrow> int \<Rightarrow> bool \<times> tool_client" where
  "discover_finish c reply started =
     (let alive = probe_alive c reply
      in (alive, c\<lparr>tc_pdpAlive := Some alive, tc_pdpAliveExpiresAt := started + tc_pdpDiscoveryTtlMs c\<rparr>))"

definition route :: "bool \<Rightarrow> tool_call \<Rightarrow> (string \<times> string) list \<Rightarrow> string \<Rightarrow> eval_outcome" where
  "route alive q dims ctxHash =
     Waiting (if alive then Wait_Authorize q dims ctxHash else Wait_Central q dims ctxHash)"

definition eval_lookup :: "tool_client \<Rightarrow> agentum_ctx \<Rightarrow> tool_call \<Rightarrow> (string \<times> string option) list option \<Rightarrow>
    int \<Rightarrow> eval_outcome \<times> tool_client" where
  "eval_lookup c ctx q dimsWithNulls now =
     (let dims = wire_dims (opt_default dimsWithNulls []); ctxHash = eval_ctxHash q dims;
          (cached, cache) = dc_get (tc_cache c) (eval_key c q ctxHash (tc_lastPolicyHash c)) now;
          c = c\<lparr>tc_cache := cache\<rparr> in
      case cached of
        Some e \<Rightarrow> (Finished e [tc_audit c ctx q e From_Cache None], c)
      | None \<Rightarrow> (case discover_start c now of
            None \<Rightarrow> (Waiting (Wait_Probe q dims ctxHash now), c)
          | Some alive \<Rightarrow> (route alive q dims ctxHash, c)))"

definition eval_probed :: "tool_client \<Rightarrow> tool_call \<Rightarrow> (string \<times> string) list \<Rightarrow> string \<Rightarrow> int \<Rightarrow> http_reply \<Rightarrow>
    eval_outcome \<times> tool_client" where
  "eval_probed c q dims ctxHash started reply =
     (let (alive, c) = discover_finish c reply started in (route alive q dims ctxHash, c))"

definition settle :: "tool_client \<Rightarrow> tool_call \<Rightarrow> string \<Rightarrow> evaluation \<Rightarrow> int \<Rightarrow> tool_client" where
  "settle c q ctxHash out now =
     (let c = (case te_policyHash out of Some h \<Rightarrow> c\<lparr>tc_lastPolicyHash := Some h\<rparr> | None \<Rightarrow> c)
      in if te_ttlMs out > 0
         then c\<lparr>tc_cache := dc_put (tc_cache c) (eval_key c q ctxHash (te_policyHash out)) out now\<rparr> else c)"

definition take_snapshot :: "tool_client \<Rightarrow> jval \<Rightarrow> tool_client" where
  "take_snapshot c data =
     (case j_array (j_field data ''enabled_addons'') of
        Some vs \<Rightarrow> c\<lparr>tc_lastEnabledAddons := j_strings vs, tc_snapshotReceived := True\<rparr>
      | None \<Rightarrow>
          if j_field data ''bundle_loaded'' = JBool True
          then c\<lparr>tc_lastEnabledAddons := [], tc_snapshotReceived := True\<rparr>
          else c\<lparr>tc_lastEnabledAddons := []\<rparr>)"

text \<open>\<open>attemptPdp\<close> once the reply is there.\<close>

datatype pdp_result = Pdp_Fallback | Pdp_Evaluation evaluation | Pdp_Rejects

definition attemptPdp :: "tool_client \<Rightarrow> http_reply \<Rightarrow> int \<Rightarrow> pdp_result \<times> tool_client" where
  "attemptPdp c reply now =
     (if \<not> pdp_configured c then (Pdp_Fallback, c)
      else (case reply of
        Http_Throws n m \<Rightarrow> (Pdp_Fallback, markPdpUnhealthy c now)
      | Http_Reply status body \<Rightarrow>
          if status = 401 then (Pdp_Evaluation (tc_fail c (Some ''pdp_unauthorized'')), c)
          else if status \<ge> 500 then (Pdp_Fallback, markPdpUnhealthy c now)
          else if \<not> http_ok status then (Pdp_Fallback, c)
          else (case body of
              Inl _ \<Rightarrow> (Pdp_Rejects, c)
            | Inr data \<Rightarrow> (case read_pdp data of
                  None \<Rightarrow> (Pdp_Rejects, c)
                | Some out \<Rightarrow> (Pdp_Evaluation out, take_snapshot c data)))))"

definition stale_audit :: "tool_client \<Rightarrow> agentum_ctx \<Rightarrow> tool_call \<Rightarrow> evaluation \<Rightarrow> tool_audit list" where
  "stale_audit c ctx q out =
     (case (tc_lastPolicyHash c, te_policyHash out) of
        (Some prior, Some observed) \<Rightarrow>
          if prior \<noteq> observed then [emitLocalPdpStaleAudit (tc_agentId c) ctx (tq_toolName q) prior observed] else []
      | _ \<Rightarrow> [])"

definition eval_authorized :: "tool_client \<Rightarrow> agentum_ctx \<Rightarrow> tool_call \<Rightarrow> (string \<times> string) list \<Rightarrow> string \<Rightarrow>
    http_reply \<Rightarrow> int \<Rightarrow> eval_outcome \<times> tool_client" where
  "eval_authorized c ctx q dims ctxHash reply now =
     (let (r, c) = attemptPdp c reply now in
      case r of
        Pdp_Fallback \<Rightarrow> (Waiting (Wait_Central q dims ctxHash), c)
      | Pdp_Rejects \<Rightarrow> (Rejected, c)
      | Pdp_Evaluation out \<Rightarrow>
          (Finished out (stale_audit c ctx q out @ [tc_audit c ctx q out From_Local_Pdp None]),
           settle c q ctxHash out now))"

definition timeout_reason :: "tool_client \<Rightarrow> string \<Rightarrow> string \<Rightarrow> string" where
  "timeout_reason c errName msg =
     (if errName = ''AbortError'' \<or> errName = ''TimeoutError''
      then ''timeout after '' @ int_text (tc_timeoutMs c) @ ''ms'' else msg)"

text \<open>\<open>nullText\<close> is the message of the error the engine throws on reading a property of \<^verbatim>\<open>null\<close>.\<close>

definition eval_central :: "string \<Rightarrow> tool_client \<Rightarrow> agentum_ctx \<Rightarrow> tool_call \<Rightarrow> string \<Rightarrow> http_reply \<Rightarrow> int \<Rightarrow>
    eval_outcome \<times> tool_client" where
  "eval_central nullText c ctx q ctxHash reply now =
     (case reply of
        Http_Throws n m \<Rightarrow> (Finished (tc_fail c (Some (timeout_reason c n m))) [], c)
      | Http_Reply status body \<Rightarrow>
          if \<not> http_ok status then (Finished (tc_fail c None) [], c)
          else (case body of
              Inl (n, m) \<Rightarrow> (Finished (tc_fail c (Some (timeout_reason c n m))) [], c)
            | Inr data \<Rightarrow> (case read_central data of
                  None \<Rightarrow> (Finished (tc_fail c (Some nullText)) [], c)
                | Some out \<Rightarrow> (Finished out [tc_audit c ctx q out From_Central None], settle c q ctxHash out now))))"

datatype eval_input = In_Digest | In_Dims "(string \<times> string option) list option" | In_Reply http_reply

record eval_env =
  ev_crypto :: runtime_crypto
  ev_ctx :: agentum_ctx
  ev_nullText :: string

definition eval_resume :: "eval_env \<Rightarrow> tool_client \<Rightarrow> eval_wait \<Rightarrow> eval_input \<Rightarrow> int \<Rightarrow> eval_outcome \<times> tool_client" where
  "eval_resume env c w i now =
     (case (w, i) of
        (Wait_Hash q, In_Digest) \<Rightarrow> eval_grant (ev_crypto env) c (ev_ctx env) q now
      | (Wait_Dims q, In_Dims dims) \<Rightarrow> eval_lookup c (ev_ctx env) q dims now
      | (Wait_Probe q dims h started, In_Reply r) \<Rightarrow> eval_probed c q dims h started r
      | (Wait_Authorize q dims h, In_Reply r) \<Rightarrow> eval_authorized c (ev_ctx env) q dims h r now
      | (Wait_Central q dims h, In_Reply r) \<Rightarrow> eval_central (ev_nullText env) c (ev_ctx env) q h r now
      | _ \<Rightarrow> (Waiting w, c))"

end
