(* ===== verification/Tool_System.thy ===== *)
theory Tool_System
  imports Tool_Client
begin

text \<open>
  The tool-call evaluator as a system: evaluations in any interleaving with each other and with
  the events that invalidate, suspend and grant. Two logs are kept beside the state to say where
  an Allow came from (the code has none): the answers that were cached, and the approvals that
  were recorded.
\<close>

section \<open>Events\<close>

datatype client_op =
    Co_InvalidateAll
  | Co_InvalidatePolicy "string option"
  | Co_InvalidateCapability "string option"
  | Co_RecordGrant string string int "string option" jval int
  | Co_FindGrant string string jval int
  | Co_RecordGrantByHash string string string int "string option" int
  | Co_Suspend string
  | Co_Activate string

fun client_step :: "eval_env \<Rightarrow> tool_client \<Rightarrow> client_op \<Rightarrow> tool_client" where
  "client_step env c Co_InvalidateAll = tc_invalidateAll c"
| "client_step env c (Co_InvalidatePolicy a) = invalidatePolicyCache c a"
| "client_step env c (Co_InvalidateCapability s) = invalidateCapabilityCache c s"
| "client_step env c (Co_RecordGrant a t ttl r args now) =
     recordApprovalGrant (ev_crypto env) c a t ttl r args now"
| "client_step env c (Co_FindGrant a t args now) = snd (findApprovalGrant (ev_crypto env) c a t args now)"
| "client_step env c (Co_RecordGrantByHash a t h ttl r now) = recordApprovalGrantByHash c a t h ttl r now"
| "client_step env c (Co_Suspend a) = markSuspended c a"
| "client_step env c (Co_Activate a) = clearSuspended c a"

datatype tool_event =
    Te_Call nat tool_call
  | Te_Resume nat eval_input int
  | Te_Op client_op

record tool_sys =
  ts_client :: tool_client
  ts_waiting :: "(nat \<times> eval_wait) list"
  ts_answers :: "(string \<times> evaluation \<times> int) list"
  ts_grants :: "(string \<times> int) list"

definition waiting_on :: "nat \<Rightarrow> eval_outcome \<Rightarrow> (nat \<times> eval_wait) list \<Rightarrow> (nat \<times> eval_wait) list" where
  "waiting_on i out ws = (case out of Waiting w \<Rightarrow> AList.update i w ws | _ \<Rightarrow> AList.delete i ws)"

definition wire_answer :: "eval_wait \<Rightarrow> eval_input \<Rightarrow> (tool_call \<times> string \<times> evaluation) option" where
  "wire_answer w i = (case i of
     In_Reply (Http_Reply status (Inr data)) \<Rightarrow>
       if \<not> http_ok status then None
       else (case w of
           Wait_Authorize q dims h \<Rightarrow> map_option (\<lambda>e. (q, h, e)) (read_pdp data)
         | Wait_Central q dims h \<Rightarrow> map_option (\<lambda>e. (q, h, e)) (read_central data)
         | _ \<Rightarrow> None)
   | _ \<Rightarrow> None)"

definition answer_log :: "tool_client \<Rightarrow> eval_wait \<Rightarrow> eval_input \<Rightarrow> int \<Rightarrow> (string \<times> evaluation \<times> int) list" where
  "answer_log c w i now = (case wire_answer w i of
     Some (q, h, e) \<Rightarrow> [(eval_key c q h (te_policyHash e), e, now)] | None \<Rightarrow> [])"

definition grant_log :: "eval_env \<Rightarrow> tool_client \<Rightarrow> client_op \<Rightarrow> (string \<times> int) list" where
  "grant_log env c op = (case op of
     Co_RecordGrant a t ttl r args now \<Rightarrow>
       (case hashArgsCanonical (ev_crypto env) args of
          Some h \<Rightarrow> if a = tc_agentId c then [(ag_key a t h, now + max 0 (to_int32 ttl))] else [] | None \<Rightarrow> [])
   | Co_RecordGrantByHash a t h ttl r now \<Rightarrow>
       if a = tc_agentId c then [(ag_key a t h, now + max 0 (to_int32 ttl))] else []
   | _ \<Rightarrow> [])"

fun ts_step :: "eval_env \<Rightarrow> tool_sys \<Rightarrow> tool_event \<Rightarrow> tool_sys" where
  "ts_step env s (Te_Call i q) =
     s\<lparr>ts_waiting := waiting_on i (eval_start (ts_client s) (ev_ctx env) q) (ts_waiting s)\<rparr>"
| "ts_step env s (Te_Resume i input now) =
     (case map_of (ts_waiting s) i of
        None \<Rightarrow> s
      | Some w \<Rightarrow>
          (let (out, c') = eval_resume env (ts_client s) w input now in
           s\<lparr>ts_client := c', ts_waiting := waiting_on i out (ts_waiting s),
             ts_answers := answer_log (ts_client s) w input now @ ts_answers s\<rparr>))"
| "ts_step env s (Te_Op op) =
     s\<lparr>ts_client := client_step env (ts_client s) op, ts_grants := grant_log env (ts_client s) op @ ts_grants s\<rparr>"

definition ts_run :: "eval_env \<Rightarrow> tool_client \<Rightarrow> tool_event list \<Rightarrow> tool_sys" where
  "ts_run env c es =
     foldl (ts_step env) \<lparr>ts_client = c, ts_waiting = [], ts_answers = [], ts_grants = []\<rparr> es"

section \<open>What the client's state is backed by\<close>

definition client_backed :: "tool_sys \<Rightarrow> bool" where
  "client_backed s \<longleftrightarrow>
     dc_inv (tc_cache (ts_client s)) \<and> dc_ttlMs (tc_cache (ts_client s)) = 60000 \<and>
     ag_inv (tc_approvalGrants (ts_client s)) \<and>
     (\<forall>k e x. dc_lookup (tc_cache (ts_client s)) k = Some (e, x) \<longrightarrow> (k, e, x - 60000) \<in> set (ts_answers s)) \<and>
     (\<forall>k r x. ag_lookup (tc_approvalGrants (ts_client s)) k = Some (r, x) \<longrightarrow> (k, x) \<in> set (ts_grants s))"

definition cache_ok :: "evaluation decision_cache \<Rightarrow> (string \<times> evaluation \<times> int) list \<Rightarrow> bool" where
  "cache_ok c lg \<longleftrightarrow> dc_inv c \<and> dc_ttlMs c = 60000 \<and>
     (\<forall>k e x. dc_lookup c k = Some (e, x) \<longrightarrow> (k, e, x - 60000) \<in> set lg)"

definition grants_ok :: "grant_cache \<Rightarrow> (string \<times> int) list \<Rightarrow> bool" where
  "grants_ok g lg \<longleftrightarrow> ag_inv g \<and> (\<forall>k r x. ag_lookup g k = Some (r, x) \<longrightarrow> (k, x) \<in> set lg)"

lemma client_backed_iff:
  "client_backed s \<longleftrightarrow> cache_ok (tc_cache (ts_client s)) (ts_answers s) \<and>
     grants_ok (tc_approvalGrants (ts_client s)) (ts_grants s)"
  by (auto simp: client_backed_def cache_ok_def grants_ok_def)

lemma cache_ok_get: "cache_ok c lg \<Longrightarrow> cache_ok (snd (dc_get c k now)) lg"
  by (auto simp: cache_ok_def dc_inv_get dc_ttl_frame dc_lookup_get split: if_splits)

lemma cache_ok_put: "cache_ok c lg \<Longrightarrow> cache_ok (dc_put c k e now) ((k, e, now) # lg)"
  by (auto simp: cache_ok_def dc_inv_put dc_ttl_frame dest!: dc_lookup_put)

lemma dc_lookup_clear: "dc_lookup (dc_invalidateAll c) k = None"
  by (simp add: dc_lookup_def dc_invalidateAll_def)

lemma cache_ok_clear: "cache_ok c lg \<Longrightarrow> cache_ok (dc_invalidateAll c) lg"
  by (simp add: cache_ok_def dc_inv_invalidateAll dc_ttl_frame dc_lookup_clear)

lemma cache_ok_mono: "cache_ok c lg \<Longrightarrow> cache_ok c (l @ lg)"
  by (auto simp: cache_ok_def)

lemma grants_ok_find: "grants_ok g lg \<Longrightarrow> grants_ok (snd (ag_find_key g k now)) lg"
  by (auto simp: grants_ok_def ag_inv_find ag_lookup_find split: if_splits)

lemma grants_ok_put: "grants_ok g lg \<Longrightarrow> grants_ok (ag_put_key g k r ttl now) ((k, now + ttl) # lg)"
  by (auto simp: grants_ok_def ag_inv_put dest!: ag_lookup_put)

lemma grants_ok_clear: "grants_ok g lg \<Longrightarrow> grants_ok (ag_clear g) lg"
  by (auto simp: grants_ok_def ag_inv_def ag_lookup_def ag_clear_def)

lemma grants_ok_mono: "grants_ok g lg \<Longrightarrow> grants_ok g (l @ lg)"
  by (auto simp: grants_ok_def)

lemmas backed_simps = cache_ok_get cache_ok_put cache_ok_clear cache_ok_mono
  grants_ok_find grants_ok_put grants_ok_clear grants_ok_mono

section \<open>Frames\<close>

lemma settle_frame:
  "tc_agentId (settle c q h e now) = tc_agentId c" "tc_allowMode (settle c q h e now) = tc_allowMode c"
  "tc_approvalGrants (settle c q h e now) = tc_approvalGrants c"
  "tc_suspendedAgents (settle c q h e now) = tc_suspendedAgents c"
  by (auto simp: settle_def Let_def split: option.splits)

lemma settle_cache:
  "tc_cache (settle c q h e now) =
     (if te_ttlMs e > 0 then dc_put (tc_cache c) (eval_key c q h (te_policyHash e)) e now else tc_cache c)"
  by (auto simp: settle_def Let_def eval_key_def split: option.splits)

lemma take_snapshot_frame:
  "tc_agentId (take_snapshot c d) = tc_agentId c" "tc_allowMode (take_snapshot c d) = tc_allowMode c"
  "tc_cache (take_snapshot c d) = tc_cache c"
  "tc_approvalGrants (take_snapshot c d) = tc_approvalGrants c"
  "tc_suspendedAgents (take_snapshot c d) = tc_suspendedAgents c"
  by (auto simp: take_snapshot_def split: option.splits)

lemma eval_key_agent: "tc_agentId c = tc_agentId c' \<Longrightarrow> eval_key c = eval_key c'"
  by (intro ext) (simp add: eval_key_def)

lemma attemptPdp_cases:
  "attemptPdp c r now = (Pdp_Fallback, c) \<or> attemptPdp c r now = (Pdp_Fallback, markPdpUnhealthy c now) \<or>
   attemptPdp c r now = (Pdp_Rejects, c) \<or>
   attemptPdp c r now = (Pdp_Evaluation (tc_fail c (Some ''pdp_unauthorized'')), c) \<or>
   (\<exists>st data e. r = Http_Reply st (Inr data) \<and> http_ok st \<and> read_pdp data = Some e \<and>
      attemptPdp c r now = (Pdp_Evaluation e, take_snapshot c data))"
  by (auto simp: attemptPdp_def split: http_reply.splits sum.splits option.splits)

lemma failClosed_ttl [simp]: "te_ttlMs (failClosed m r) = 0"
  by (simp add: failClosed_def bare_evaluation_def)

lemma tc_fail_ttl [simp]: "te_ttlMs (tc_fail c r) = 0"
  by (simp add: tc_fail_def)

lemma failClosed_hash [simp]: "te_policyHash (failClosed m r) = None"
  by (simp add: failClosed_def bare_evaluation_def)

lemma tc_fail_hash [simp]: "te_policyHash (tc_fail c r) = None"
  by (simp add: tc_fail_def)

lemma settle_fail [simp]: "settle c q h (tc_fail c' r) now = c"
  by (simp add: settle_def)

lemma eval_authorized_client:
  "snd (eval_authorized c ctx q dims h r now) = c \<or>
   snd (eval_authorized c ctx q dims h r now) = markPdpUnhealthy c now \<or>
   (\<exists>st data e. r = Http_Reply st (Inr data) \<and> http_ok st \<and> read_pdp data = Some e \<and>
      snd (eval_authorized c ctx q dims h r now) = settle (take_snapshot c data) q h e now)"
  using attemptPdp_cases [of c r now] by (auto simp: eval_authorized_def)

lemma eval_central_client:
  "snd (eval_central nt c ctx q h r now) = c \<or>
   (\<exists>st data e. r = Http_Reply st (Inr data) \<and> http_ok st \<and> read_central data = Some e \<and>
      snd (eval_central nt c ctx q h r now) = settle c q h e now)"
  by (auto simp: eval_central_def split: http_reply.splits sum.splits option.splits prod.splits)

lemma markPdpUnhealthy_frame:
  "tc_cache (markPdpUnhealthy c now) = tc_cache c"
  "tc_approvalGrants (markPdpUnhealthy c now) = tc_approvalGrants c"
  "tc_agentId (markPdpUnhealthy c now) = tc_agentId c"
  "tc_suspendedAgents (markPdpUnhealthy c now) = tc_suspendedAgents c"
  by (simp_all add: markPdpUnhealthy_def)

section \<open>Every step keeps the backing\<close>

lemma eval_grant_backed:
  assumes "cache_ok (tc_cache c) la" and "grants_ok (tc_approvalGrants c) lg"
  shows "cache_ok (tc_cache (snd (eval_grant rc c ctx q now))) la"
    and "grants_ok (tc_approvalGrants (snd (eval_grant rc c ctx q now))) lg"
  using assms
  by (auto simp: eval_grant_def ag_find_def case_prod_unfold Let_def grants_ok_find split: option.splits)

lemma eval_lookup_client:
  "tc_cache (snd (eval_lookup c ctx q d now)) =
     snd (dc_get (tc_cache c) (eval_key c q (eval_ctxHash q (wire_dims (opt_default d []))) (tc_lastPolicyHash c)) now)"
  "tc_approvalGrants (snd (eval_lookup c ctx q d now)) = tc_approvalGrants c"
  "tc_agentId (snd (eval_lookup c ctx q d now)) = tc_agentId c"
  "tc_suspendedAgents (snd (eval_lookup c ctx q d now)) = tc_suspendedAgents c"
  by (auto simp: eval_lookup_def case_prod_unfold Let_def split: option.splits)

lemma eval_probed_client:
  "tc_cache (snd (eval_probed c q d h t r)) = tc_cache c"
  "tc_approvalGrants (snd (eval_probed c q d h t r)) = tc_approvalGrants c"
  "tc_agentId (snd (eval_probed c q d h t r)) = tc_agentId c"
  "tc_suspendedAgents (snd (eval_probed c q d h t r)) = tc_suspendedAgents c"
  by (auto simp: eval_probed_def discover_finish_def Let_def)

lemma settle_backed:
  assumes "cache_ok (tc_cache c) la"
  shows "cache_ok (tc_cache (settle c q h e now)) ((eval_key c q h (te_policyHash e), e, now) # la)"
  using cache_ok_put [OF assms] cache_ok_mono [OF assms, of "[_]"] by (simp add: settle_cache)

lemma eval_resume_backed:
  assumes "cache_ok (tc_cache c) la" and "grants_ok (tc_approvalGrants c) lg"
  shows "cache_ok (tc_cache (snd (eval_resume env c w i now))) (answer_log c w i now @ la) \<and>
    grants_ok (tc_approvalGrants (snd (eval_resume env c w i now))) lg"
proof -
  note m = cache_ok_mono [OF assms(1), of "answer_log c w i now"]
  consider q where "w = Wait_Hash q" "i = In_Digest" | q d where "w = Wait_Dims q" "i = In_Dims d"
    | q d h t r where "w = Wait_Probe q d h t" "i = In_Reply r"
    | q d h r where "w = Wait_Authorize q d h" "i = In_Reply r"
    | q d h r where "w = Wait_Central q d h" "i = In_Reply r"
    | "eval_resume env c w i now = (Waiting w, c)"
    by (cases w; cases i) (auto simp: eval_resume_def)
  then show ?thesis
  proof cases
    case 1 then show ?thesis using eval_grant_backed [OF assms]
      by (simp add: eval_resume_def answer_log_def wire_answer_def)
  next
    case 2 then show ?thesis using assms
      by (simp add: eval_resume_def eval_lookup_client answer_log_def wire_answer_def cache_ok_get)
  next
    case (3 q d h t r) then show ?thesis using assms m
      by (simp add: eval_resume_def eval_probed_client)
  next
    case (4 q d h r)
    have k: "eval_key (take_snapshot c data) = eval_key c" for data
      by (rule eval_key_agent) (simp add: take_snapshot_frame)
    from eval_authorized_client [of c "ev_ctx env" q d h r now] show ?thesis
    proof (elim disjE exE conjE)
      fix st data e
      assume r: "r = Http_Reply st (Inr data)" "http_ok st" "read_pdp data = Some e"
        and s: "snd (eval_authorized c (ev_ctx env) q d h r now) = settle (take_snapshot c data) q h e now"
      have "cache_ok (tc_cache (take_snapshot c data)) la" using assms by (simp add: take_snapshot_frame)
      from settle_backed [OF this] show ?thesis using 4 r s assms
        by (simp add: eval_resume_def answer_log_def wire_answer_def k settle_frame take_snapshot_frame)
    qed (use 4 m assms in \<open>simp_all add: eval_resume_def markPdpUnhealthy_frame\<close>)
  next
    case (5 q d h r)
    from eval_central_client [of "ev_nullText env" c "ev_ctx env" q h r now] show ?thesis
    proof (elim disjE exE conjE)
      fix st data e
      assume r: "r = Http_Reply st (Inr data)" "http_ok st" "read_central data = Some e"
        and s: "snd (eval_central (ev_nullText env) c (ev_ctx env) q h r now) = settle c q h e now"
      from settle_backed [OF assms(1)] show ?thesis using 5 r s assms
        by (simp add: eval_resume_def answer_log_def wire_answer_def settle_frame)
    qed (use 5 m assms in \<open>simp_all add: eval_resume_def\<close>)
  next
    case 6 then show ?thesis using m assms by simp
  qed
qed

lemma drop_policy_state_frame:
  "tc_cache (drop_policy_state c) = dc_invalidateAll (tc_cache c)"
  "tc_approvalGrants (drop_policy_state c) = tc_approvalGrants c"
  "tc_agentId (drop_policy_state c) = tc_agentId c"
  "tc_suspendedAgents (drop_policy_state c) = tc_suspendedAgents c"
  by (simp_all add: drop_policy_state_def)

lemmas client_op_defs = tc_invalidateAll_def invalidatePolicyCache_def invalidateCapabilityCache_def
  recordApprovalGrant_def recordApprovalGrantByHash_def findApprovalGrant_def markSuspended_def
  clearSuspended_def ag_put_def ag_find_def

lemma client_step_backed:
  assumes "cache_ok (tc_cache c) la" and "grants_ok (tc_approvalGrants c) lg"
  shows "cache_ok (tc_cache (client_step env c op)) la"
    and "grants_ok (tc_approvalGrants (client_step env c op)) (grant_log env c op @ lg)"
  using assms grants_ok_mono [OF assms(2), of "grant_log env c op"]
  by (cases op; auto simp: client_op_defs drop_policy_state_frame backed_simps grant_log_def Let_def
      case_prod_unfold split: option.splits)+

lemma client_step_agent: "tc_agentId (client_step env c op) = tc_agentId c"
  by (cases op) (auto simp: client_op_defs drop_policy_state_frame Let_def case_prod_unfold split: option.splits)

definition tc_fresh :: "tool_client \<Rightarrow> bool" where
  "tc_fresh c \<longleftrightarrow> (\<exists>opts. tc_new opts = Inr c)"

lemma tc_fresh_backed:
  assumes "tc_fresh c"
  shows "cache_ok (tc_cache c) []" and "grants_ok (tc_approvalGrants c) []"
proof -
  have "cache_ok (dc_new m 60000) []" for m
    using dc_inv_new [of m 60000]
    by (simp add: cache_ok_def dc_lookup_def) (simp add: dc_new_def dc_lookup_def to_int32_id)
  moreover have "grants_ok (ag_new m) []" for m
    using ag_inv_new [of m] by (simp add: grants_ok_def) (simp add: ag_new_def ag_lookup_def)
  ultimately show "cache_ok (tc_cache c) []" "grants_ok (tc_approvalGrants c) []"
    using assms by (auto simp: tc_fresh_def tc_new_def split: if_splits)
qed

lemma ts_run_snoc: "ts_run env c (es @ [e]) = ts_step env (ts_run env c es) e"
  by (simp add: ts_run_def)

lemma ts_run_backed: "tc_fresh c \<Longrightarrow> client_backed (ts_run env c es)"
proof (induction es rule: rev_induct)
  case Nil
  then show ?case using tc_fresh_backed by (simp add: client_backed_iff ts_run_def)
next
  case (snoc e es)
  then have "client_backed (ts_run env c es)" by simp
  then show ?case
  proof (cases e)
    case (Te_Resume i input now)
    note b = \<open>client_backed (ts_run env c es)\<close> [unfolded client_backed_iff]
    show ?thesis using b eval_resume_backed [OF b [THEN conjunct1] b [THEN conjunct2], of env _ input now] Te_Resume
      by (simp add: ts_run_snoc client_backed_iff case_prod_unfold Let_def split: option.splits)
  next
    case (Te_Op op)
    note b = \<open>client_backed (ts_run env c es)\<close> [unfolded client_backed_iff]
    show ?thesis using client_step_backed [OF b [THEN conjunct1] b [THEN conjunct2]] Te_Op
      by (simp add: ts_run_snoc client_backed_iff)
  qed (simp add: ts_run_snoc client_backed_iff)
qed

section \<open>Where an Allow comes from\<close>

definition granted_live :: "tool_sys \<Rightarrow> string \<Rightarrow> int \<Rightarrow> bool" where
  "granted_live s k now \<longleftrightarrow> list_ex (\<lambda>(k', x). k' = k \<and> now < x) (ts_grants s)"

definition answered_recently :: "tool_sys \<Rightarrow> string \<Rightarrow> evaluation \<Rightarrow> int \<Rightarrow> bool" where
  "answered_recently s k e now \<longleftrightarrow> list_ex (\<lambda>(k', e', t). k' = k \<and> e' = e \<and> now < t + 60000) (ts_answers s)"

lemma eval_grant_finished:
  assumes "eval_grant rc c ctx q now = (Finished e audits, c')" and "grants_ok (tc_approvalGrants c) lg"
  shows "\<exists>h x. hashArgsCanonical rc (tq_arguments q) = Some h \<and>
    (ag_key (tc_agentId c) (tq_toolName q) h, x) \<in> set lg \<and> now < x"
proof -
  from assms(1) obtain h g where h: "hashArgsCanonical rc (tq_arguments q) = Some h"
    and g: "fst (ag_find_key (tc_approvalGrants c) (ag_key (tc_agentId c) (tq_toolName q) h) now) = Some g"
    by (auto simp: eval_grant_def ag_find_def case_prod_unfold Let_def split: option.splits)
  then have "ag_lookup (tc_approvalGrants c) (ag_key (tc_agentId c) (tq_toolName q) h) =
      Some (ge_requestId g, ge_expiresAt g)" and "now < ge_expiresAt g"
    by (simp_all add: ag_find_Some ag_lookup_def)
  then show ?thesis using assms(2) h by (auto simp: grants_ok_def)
qed

lemma eval_lookup_finished:
  assumes "eval_lookup c ctx q d now = (Finished e audits, c')" and "cache_ok (tc_cache c) la"
  shows "\<exists>t. (eval_key c q (eval_ctxHash q (wire_dims (opt_default d []))) (tc_lastPolicyHash c), e, t) \<in> set la \<and>
    now < t + 60000"
proof -
  let ?k = "eval_key c q (eval_ctxHash q (wire_dims (opt_default d []))) (tc_lastPolicyHash c)"
  have "fst (dc_get (tc_cache c) ?k now) = Some e" using assms(1)
    by (auto simp: eval_lookup_def case_prod_unfold Let_def route_def split: option.splits)
  then obtain x where "dc_lookup (tc_cache c) ?k = Some (e, x)" "now < x" by (auto simp: dc_get_Some)
  then show ?thesis using assms(2) by (intro exI [of _ "x - 60000"]) (auto simp: cache_ok_def)
qed

definition allowing_reply :: "eval_input \<Rightarrow> bool" where
  "allowing_reply i = (case i of
     In_Reply (Http_Reply status (Inr data)) \<Rightarrow> http_ok status \<and> j_field data ''decision'' = JStr ''allow''
   | _ \<Rightarrow> False)"

lemma fail_allow: "te_decision (tc_fail c r) = Dec_Allow \<longleftrightarrow> tc_allowMode c"
  by (simp add: tc_fail_def failClosed_def bare_evaluation_def)

lemma read_allow:
  "read_pdp data = Some e \<Longrightarrow> te_decision e = Dec_Allow \<longleftrightarrow> j_field data ''decision'' = JStr ''allow''"
  "read_central data = Some e \<Longrightarrow> te_decision e = Dec_Allow \<longleftrightarrow> j_field data ''decision'' = JStr ''allow''"
  by (auto simp: read_pdp_def read_central_def read_decision_def split: if_splits)

lemma eval_authorized_allow:
  assumes "eval_authorized c ctx q d h r now = (Finished e audits, c')" and "te_decision e = Dec_Allow"
    and "\<not> tc_allowMode c"
  shows "allowing_reply (In_Reply r)"
  using attemptPdp_cases [of c r now] assms
  by (auto simp: eval_authorized_def allowing_reply_def fail_allow read_allow)

lemma eval_central_allow:
  assumes "eval_central nt c ctx q h r now = (Finished e audits, c')" and "te_decision e = Dec_Allow"
    and "\<not> tc_allowMode c"
  shows "allowing_reply (In_Reply r)"
  using assms
  by (auto simp: eval_central_def allowing_reply_def fail_allow read_allow
      split: http_reply.splits sum.splits option.splits prod.splits if_splits)

section \<open>A sample client\<close>

definition sample_client_opts :: tool_client_options where
  "sample_client_opts = \<lparr>to_baseUrl = ''http://c'', to_apiKey = ''key'', to_agentId = ''a1'', to_timeoutMs = None,
     to_cacheMaxSize = None, to_allowMode = False, to_pdpUrl = Some ''http://p/'', to_pdpDiscoveryTtlMs = None\<rparr>"

definition sample_client :: tool_client where
  "sample_client = \<lparr>tc_agentId = ''a1'', tc_timeoutMs = 200, tc_allowMode = False,
     tc_pdpUrl = Some ''http://p'', tc_pdpDiscoveryTtlMs = 30000, tc_cache = dc_new 1024 60000,
     tc_pdpAlive = None, tc_pdpAliveExpiresAt = 0, tc_lastPolicyHash = None,
     tc_lastEnabledAddons = [], tc_snapshotReceived = False, tc_approvalGrants = ag_new 256,
     tc_suspendedAgents = []\<rparr>"

lemma sample_client_fresh: "tc_fresh sample_client"
  unfolding tc_fresh_def
  by (rule exI [of _ sample_client_opts])
    (simp add: tc_new_def sample_client_opts_def sample_client_def opt_default_def strip_slash_def
      js_endsWith_def js_startsWith_def)

definition sample_env :: eval_env where
  "sample_env = \<lparr>ev_crypto = \<lparr>rc_subtle = None, rc_node = Some (\<lambda>t. ''ab'')\<rparr>,
     ev_ctx = \<lparr>cx_sessionId = None, cx_userId = None\<rparr>, ev_nullText = ''null''\<rparr>"

definition sample_call :: tool_call where
  "sample_call = \<lparr>tq_toolName = ''mail'', tq_arguments = JObj [(''to'', JStr ''bob'')],
     tq_mcpServerUrl = None, tq_mcpServerName = None\<rparr>"

section \<open>Properties\<close>

text \<open>C1: in fail mode deny every Allow of the tool-call evaluator is backed, in any interleaving of evaluations,
  invalidations, suspensions and approvals: it is either an approval
  recorded for the same agent, tool and argument hash whose window is still open, or a cached
  answer of a policy service received for the same key less than a minute ago, or the answer
  just received, with a 2xx status and the decision \<^verbatim>\<open>allow\<close>. (In fail mode allow a failure allows, too.)\<close>

theorem tool_allow_is_backed:
  assumes "tc_fresh c" and "s = ts_run env c es" and "\<not> tc_allowMode (ts_client s)"
    and "eval_resume env (ts_client s) w i now = (Finished e audits, c')" and "te_decision e = Dec_Allow"
  shows "case w of
      Wait_Hash q \<Rightarrow> \<exists>h. hashArgsCanonical (ev_crypto env) (tq_arguments q) = Some h \<and>
        granted_live s (ag_key (tc_agentId (ts_client s)) (tq_toolName q) h) now
    | Wait_Dims q \<Rightarrow> \<exists>d. i = In_Dims d \<and> answered_recently s (eval_key (ts_client s) q
        (eval_ctxHash q (wire_dims (opt_default d []))) (tc_lastPolicyHash (ts_client s))) e now
    | Wait_Probe q d h t \<Rightarrow> False
    | Wait_Authorize q d h \<Rightarrow> allowing_reply i
    | Wait_Central q d h \<Rightarrow> allowing_reply i"
proof -
  have b: "cache_ok (tc_cache (ts_client s)) (ts_answers s)"
    "grants_ok (tc_approvalGrants (ts_client s)) (ts_grants s)"
    using ts_run_backed [OF assms(1)] assms(2) by (auto simp: client_backed_iff)
  show ?thesis
  proof (cases w)
    case (Wait_Hash q)
    then have "eval_grant (ev_crypto env) (ts_client s) (ev_ctx env) q now = (Finished e audits, c')"
      using assms(4) by (cases i) (auto simp: eval_resume_def)
    from eval_grant_finished [OF this b(2)] Wait_Hash show ?thesis
      by (auto simp: granted_live_def list_ex_iff)
  next
    case (Wait_Dims q)
    then obtain d where i: "i = In_Dims d"
      and "eval_lookup (ts_client s) (ev_ctx env) q d now = (Finished e audits, c')"
      using assms(4) by (cases i) (auto simp: eval_resume_def)
    from eval_lookup_finished [OF this(2) b(1)] i Wait_Dims show ?thesis
      by (auto simp: answered_recently_def list_ex_iff)
  next
    case (Wait_Probe q d h t)
    then show ?thesis using assms(4)
      by (cases i) (auto simp: eval_resume_def eval_probed_def route_def split: prod.splits)
  next
    case (Wait_Authorize q d h)
    then obtain r where i: "i = In_Reply r"
      and "eval_authorized (ts_client s) (ev_ctx env) q d h r now = (Finished e audits, c')"
      using assms(4) by (cases i) (auto simp: eval_resume_def)
    from eval_authorized_allow [OF this(2) assms(5,3)] i Wait_Authorize show ?thesis by simp
  next
    case (Wait_Central q d h)
    then obtain r where i: "i = In_Reply r"
      and "eval_central (ev_nullText env) (ts_client s) (ev_ctx env) q h r now = (Finished e audits, c')"
      using assms(4) by (cases i) (auto simp: eval_resume_def)
    from eval_central_allow [OF this(2) assms(5,3)] i Wait_Central show ?thesis by simp
  qed
qed

theorem tool_allow_is_backed_witness:
  "granted_live (ts_run sample_env sample_client
      [Te_Op (Co_RecordGrant ''a1'' ''mail'' 1000 (Some ''r'') (JObj [(''to'', JStr ''bob'')]) 5)])
     (ag_key ''a1'' ''mail'' ''ab'') 100"
proof -
  have h: "hashArgsCanonical (ev_crypto sample_env) a = Some ''ab''" for a
    by (simp add: hashArgsCanonical_def sample_env_def Let_def)
  define s where "s = ts_run sample_env sample_client
      [Te_Op (Co_RecordGrant ''a1'' ''mail'' 1000 (Some ''r'') (JObj [(''to'', JStr ''bob'')]) 5)]"
  have c: "ts_client s = sample_client\<lparr>tc_approvalGrants :=
      \<lparr>ag_maxSize = 256, ag_entries = [(ag_key ''a1'' ''mail'' ''ab'', \<lparr>ge_expiresAt = 1005, ge_requestId = Some ''r''\<rparr>)]\<rparr>\<rparr>"
    by (simp add: s_def ts_run_def recordApprovalGrant_def h)
      (simp add: h sample_client_def ag_put_def ag_put_key_def ag_new_def to_int32_id Let_def)
  show ?thesis
    using tool_allow_is_backed [OF sample_client_fresh s_def, of "Wait_Hash sample_call" In_Digest 100
        "bare_evaluation Dec_Allow 0"]
    by (simp add: s_def [symmetric] c h eval_resume_def eval_grant_def sample_call_def ag_find_def ag_find_key_def)
      (simp add: sample_client_def bare_evaluation_def Let_def)
qed

lemma eval_resume_suspended:
  "tc_suspendedAgents (snd (eval_resume env c w i now)) = tc_suspendedAgents c \<and>
   tc_agentId (snd (eval_resume env c w i now)) = tc_agentId c"
proof -
  have g: "tc_suspendedAgents (snd (eval_grant rc c ctx q t)) = tc_suspendedAgents c \<and>
      tc_agentId (snd (eval_grant rc c ctx q t)) = tc_agentId c" for rc ctx q t
    by (auto simp: eval_grant_def case_prod_unfold Let_def split: option.splits)
  have a: "tc_suspendedAgents (snd (eval_authorized c ctx q d h r t)) = tc_suspendedAgents c \<and>
      tc_agentId (snd (eval_authorized c ctx q d h r t)) = tc_agentId c" for ctx q d h r t
    using eval_authorized_client [of c ctx q d h r t]
    by (auto simp: settle_frame take_snapshot_frame markPdpUnhealthy_frame)
  have z: "tc_suspendedAgents (snd (eval_central nt c ctx q h r t)) = tc_suspendedAgents c \<and>
      tc_agentId (snd (eval_central nt c ctx q h r t)) = tc_agentId c" for nt ctx q h r t
    using eval_central_client [of nt c ctx q h r t] by (auto simp: settle_frame)
  show ?thesis
    by (cases w; cases i) (simp_all add: eval_resume_def g a z eval_lookup_client eval_probed_client)
qed

lemma client_step_suspended:
  assumes "isSuspended c (tc_agentId c)" and "op \<noteq> Co_Activate (tc_agentId c)"
  shows "isSuspended (client_step env c op) (tc_agentId (client_step env c op))"
  using assms
  by (cases op) (auto simp: isSuspended_def client_op_defs drop_policy_state_frame Let_def case_prod_unfold
      client_step_agent split: option.splits)

lemma ts_step_suspended:
  assumes "isSuspended (ts_client s) (tc_agentId (ts_client s))"
    and "e \<noteq> Te_Op (Co_Activate (tc_agentId (ts_client s)))"
  shows "isSuspended (ts_client (ts_step env s e)) (tc_agentId (ts_client (ts_step env s e))) \<and>
    tc_agentId (ts_client (ts_step env s e)) = tc_agentId (ts_client s)"
proof (cases e)
  case (Te_Resume i input now)
  then show ?thesis using assms eval_resume_suspended
    by (auto simp: case_prod_unfold Let_def isSuspended_def split: option.splits)
qed (use assms client_step_suspended client_step_agent in auto)

lemma ts_run_agent: "tc_agentId (ts_client (ts_run env c es)) = tc_agentId c"
proof (induction es rule: rev_induct)
  case (snoc e es)
  then show ?case
    by (cases e) (auto simp: ts_run_snoc client_step_agent eval_resume_suspended case_prod_unfold Let_def
        split: option.splits)
qed (simp add: ts_run_def)

lemma suspension_lasts:
  assumes "isSuspended (ts_client t) (tc_agentId (ts_client t))"
    and "Te_Op (Co_Activate (tc_agentId (ts_client t))) \<notin> set later"
  shows "isSuspended (ts_client (foldl (ts_step env) t later)) (tc_agentId (ts_client (foldl (ts_step env) t later)))"
  using assms
proof (induction later arbitrary: t)
  case (Cons e es)
  have s: "isSuspended (ts_client (ts_step env t e)) (tc_agentId (ts_client (ts_step env t e)))"
    and a: "tc_agentId (ts_client (ts_step env t e)) = tc_agentId (ts_client t)"
    using ts_step_suspended [OF Cons.prems(1), of e env] Cons.prems(2) by (auto simp del: ts_step.simps)
  have "Te_Op (Co_Activate (tc_agentId (ts_client (ts_step env t e)))) \<notin> set es"
    using Cons.prems(2) by (simp add: a del: ts_step.simps)
  from Cons.IH [OF s this] show ?case by (simp del: ts_step.simps)
qed simp

lemma suspended_in_run:
  assumes "Te_Op (Co_Activate (tc_agentId c)) \<notin> set later"
  shows "isSuspended (ts_client (ts_run env c (before @ Te_Op (Co_Suspend (tc_agentId c)) # later)))
    (tc_agentId (ts_client (ts_run env c (before @ Te_Op (Co_Suspend (tc_agentId c)) # later))))"
proof -
  let ?t = "ts_step env (ts_run env c before) (Te_Op (Co_Suspend (tc_agentId c)))"
  have "ts_run env c (before @ Te_Op (Co_Suspend (tc_agentId c)) # later) = foldl (ts_step env) ?t later"
    by (simp add: ts_run_def)
  then show ?thesis using suspension_lasts [of ?t later env] assms
    by (simp add: markSuspended_def isSuspended_def ts_run_agent)
qed

lemma suspended_call_denied:
  assumes "isSuspended c (tc_agentId c)"
  shows "\<exists>e audit. eval_start c ctx q = Finished e [audit] \<and> te_decision e = Dec_Deny \<and>
      te_reason e = Some (JStr ''agent suspended'')"
  using assms by (simp add: eval_start_def Let_def bare_evaluation_def)

text \<open>C2: suspension is immediate and outlives everything but the agent's reactivation: once the
  agent is marked suspended, every later call is denied on the spot, whatever approvals, cached
  answers or replies there are, until it is activated.\<close>

theorem suspended_agent_is_denied:
  assumes "Te_Op (Co_Activate (tc_agentId c)) \<notin> set later"
  shows "let s = ts_run env c (before @ Te_Op (Co_Suspend (tc_agentId c)) # later) in
    \<exists>e audit. eval_start (ts_client s) ctx q = Finished e [audit] \<and> te_decision e = Dec_Deny \<and>
      te_reason e = Some (JStr ''agent suspended'')"
  unfolding Let_def by (rule suspended_call_denied [OF suspended_in_run [OF assms]])

theorem suspended_agent_is_denied_witness:
  "let s = ts_run sample_env sample_client
       ([Te_Op (Co_RecordGrant ''a1'' ''mail'' 1000 None (JObj [(''to'', JStr ''bob'')]) 5)] @
        Te_Op (Co_Suspend (tc_agentId sample_client)) # [Te_Op (Co_Activate ''a2'')]) in
    \<exists>e audit. eval_start (ts_client s) (ev_ctx sample_env) sample_call = Finished e [audit] \<and>
      te_decision e = Dec_Deny \<and> te_reason e = Some (JStr ''agent suspended'')"
  by (rule suspended_agent_is_denied) (simp add: sample_client_def)

end
