(* ===== verification/Tool_Safety.thy ===== *)
theory Tool_Safety
  imports Tool_System
begin

text \<open>
  The evaluator branch by branch: what every failure of the sidecar and of the central service
  turns into, which calls can share a cache entry, what an invalidation forgets (and what a
  reply still in flight brings back), and the feature states read off the sidecar's answers.
\<close>

section \<open>Failures\<close>

definition usable_reply :: "http_reply \<Rightarrow> bool" where
  "usable_reply r = (case r of Http_Reply status (Inr data) \<Rightarrow> http_ok status \<and> \<not> j_nullish data | _ \<Rightarrow> False)"

text \<open>Without a usable answer of the central service (a 2xx status with a body that is a JSON value
  other than \<^verbatim>\<open>null\<close>) a call is denied with a fail-closed code, nothing is cached, and the client's
  state is as before.\<close>

theorem central_failure_denies:
  assumes "\<not> tc_allowMode c" and "\<not> usable_reply r"
  shows "\<exists>e. eval_central nullText c ctx q h r now = (Finished e [], c) \<and> te_decision e = Dec_Deny \<and>
    te_denyCode e \<in> {Some ''deny_fail_closed'', Some ''deny_pdp_unauthorized''} \<and> te_ttlMs e = 0"
  using assms
  by (auto simp: eval_central_def usable_reply_def tc_fail_def failClosed_def bare_evaluation_def
      read_central_def split: http_reply.splits sum.splits option.splits prod.splits)

theorem central_failure_denies_witness:
  "\<exists>e. eval_central ''null'' sample_client (ev_ctx sample_env) sample_call ''h''
      (Http_Throws ''TimeoutError'' ''aborted'') 5 = (Finished e [], sample_client) \<and> te_decision e = Dec_Deny \<and>
    te_denyCode e \<in> {Some ''deny_fail_closed'', Some ''deny_pdp_unauthorized''} \<and> te_ttlMs e = 0"
  by (rule central_failure_denies) (simp_all add: sample_client_def usable_reply_def)

text \<open>C27: what each failure of the sidecar leads to: a refused token denies at once and never
  reaches the central service; a thrown request or a server error goes to the central service and
  keeps the sidecar out for the discovery window; any other non-2xx status goes to the central
  service and leaves the sidecar in use; a 2xx answer that is not JSON, or is \<^verbatim>\<open>null\<close>, makes the whole
  call throw instead of failing closed.\<close>

theorem sidecar_failure_routes:
  assumes "\<not> tc_allowMode c" and "pdp_configured c" and "\<not> usable_reply r"
  shows "case r of
      Http_Throws n m \<Rightarrow> eval_authorized c ctx q dims h r now =
        (Waiting (Wait_Central q dims h), markPdpUnhealthy c now)
    | Http_Reply status body \<Rightarrow>
        if status = 401 then \<exists>e a. eval_authorized c ctx q dims h r now = (Finished e a, c) \<and>
          te_decision e = Dec_Deny \<and> te_denyCode e = Some ''deny_pdp_unauthorized''
        else if 500 \<le> status then eval_authorized c ctx q dims h r now =
          (Waiting (Wait_Central q dims h), markPdpUnhealthy c now)
        else if \<not> http_ok status then eval_authorized c ctx q dims h r now = (Waiting (Wait_Central q dims h), c)
        else eval_authorized c ctx q dims h r now = (Rejected, c)"
proof (cases r)
  case (Http_Throws n m)
  then show ?thesis using assms(2) by (simp add: eval_authorized_def attemptPdp_def)
next
  case (Http_Reply status body)
  show ?thesis
  proof (cases "status = 401")
    case True
    then have "fst (attemptPdp c r now) = Pdp_Evaluation (tc_fail c (Some ''pdp_unauthorized''))"
      and "snd (attemptPdp c r now) = c"
      using assms(2) Http_Reply by (simp_all add: attemptPdp_def)
    then show ?thesis using assms(1) Http_Reply True
      by (simp add: eval_authorized_def case_prod_unfold)
        (simp add: tc_fail_def failClosed_def bare_evaluation_def)
  next
    case False
    then show ?thesis using assms Http_Reply
      by (auto simp: eval_authorized_def attemptPdp_def usable_reply_def http_ok_def read_pdp_def
          split: sum.splits)
  qed
qed

theorem sidecar_failure_routes_witness:
  "\<exists>e a. eval_authorized sample_client (ev_ctx sample_env) sample_call [] ''h'' (Http_Reply 401 (Inr JNull)) 5
      = (Finished e a, sample_client) \<and>
    te_decision e = Dec_Deny \<and> te_denyCode e = Some ''deny_pdp_unauthorized''"
proof -
  have "\<not> tc_allowMode sample_client" "pdp_configured sample_client" "\<not> usable_reply (Http_Reply 401 (Inr JNull))"
    by (simp_all add: sample_client_def pdp_configured_def usable_reply_def http_ok_def)
  from sidecar_failure_routes [OF this, of "ev_ctx sample_env" sample_call "[]" "''h''" 5] show ?thesis by simp
qed

section \<open>Which calls share a cache entry\<close>

definition hash_text :: "string option \<Rightarrow> bool" where
  "hash_text ph = (case ph of None \<Rightarrow> True | Some t \<Rightarrow> t \<noteq> [] \<and> CHR ''|'' \<notin> set t \<and> CHR ''}'' \<notin> set t)"

definition call_json :: "tool_call \<Rightarrow> (string \<times> string) list \<Rightarrow> jval" where
  "call_json q dims = JObj [(''args'', tq_arguments q), (''dims'', dims_json dims)]"

lemma ctxHash_end: "\<exists>u. eval_ctxHash q dims = u @ ''}''"
  using stable_stringify_obj_end [of "[(''args'', tq_arguments q), (''dims'', dims_json dims)]"]
  by (auto simp: eval_ctxHash_def hashContext_def split: option.splits)

lemma ctxHash_inject:
  assumes "json_ok (tq_arguments q)" "json_ok (tq_arguments q')"
    and "distinct (map fst dims)" "distinct (map fst dims')"
  shows "eval_ctxHash q dims = eval_ctxHash q' dims' \<longleftrightarrow>
    jcanon (tq_arguments q) = jcanon (tq_arguments q') \<and> jcanon (dims_json dims) = jcanon (dims_json dims')"
proof -
  have d: "json_ok (dims_json ds)" if "distinct (map fst ds)" for ds
    using that by (auto simp: dims_json_def list_all_iff case_prod_unfold comp_def)
  have ok: "json_ok (call_json q dims)" "json_ok (call_json q' dims')"
    using assms d by (simp_all add: call_json_def)
  have "eval_ctxHash q dims = eval_ctxHash q' dims' \<longleftrightarrow>
      stable_stringify (call_json q dims) = stable_stringify (call_json q' dims')"
    by (auto simp: eval_ctxHash_def hashContext_def call_json_def)
  also have "\<dots> \<longleftrightarrow> jcanon (call_json q dims) = jcanon (call_json q' dims')"
    using ok by (simp add: stable_stringify_render jcanon_eq_iff)
  finally show ?thesis by (auto simp: call_json_def dims_json_def)
qed

lemma suffix_hash:
  assumes "x @ ''}'' = y @ CHR ''|'' # t" and "t \<noteq> []" and "CHR ''}'' \<notin> set t"
  shows False
proof -
  have "last (x @ ''}'') = last t" using assms(1,2) by simp
  then show False using assms(2,3) last_in_set [of t] by simp
qed

text \<open>Two calls of one client share a cache entry exactly when they name the same tool, carry the same
  arguments and dimensions up to the order of object keys, and are looked up under the same
  policy hash: nothing else can be served for them (tool names and hashes hold no separator,
  arguments are JSON values).\<close>

theorem cache_key_separates_calls:
  assumes "json_ok (tq_arguments q)" "json_ok (tq_arguments q')"
    and "distinct (map fst dims)" "distinct (map fst dims')"
    and "CHR ''|'' \<notin> set (tq_toolName q)" "CHR ''|'' \<notin> set (tq_toolName q')"
    and "hash_text ph" "hash_text ph'"
  shows "eval_key c q (eval_ctxHash q dims) ph = eval_key c q' (eval_ctxHash q' dims') ph' \<longleftrightarrow>
    tq_toolName q = tq_toolName q' \<and> jcanon (tq_arguments q) = jcanon (tq_arguments q') \<and>
    jcanon (dims_json dims) = jcanon (dims_json dims') \<and> ph = ph'"
proof -
  let ?x = "eval_ctxHash q dims" and ?y = "eval_ctxHash q' dims'"
  define tl where "tl p = (case p of Some h \<Rightarrow> CHR ''|'' # h | None \<Rightarrow> ([] :: string))" for p
  have key: "eval_key c r x p = tc_agentId c @ ''|'' @ (''tool:'' @ tq_toolName r) @ CHR ''|'' # ''*|'' @ x @ tl p"
    for r x p by (simp add: eval_key_def dc_key_def tl_def split: option.splits)
  have "eval_key c q ?x ph = eval_key c q' ?y ph' \<longleftrightarrow>
      (''tool:'' @ tq_toolName q) @ CHR ''|'' # ''*|'' @ ?x @ tl ph =
      (''tool:'' @ tq_toolName q') @ CHR ''|'' # ''*|'' @ ?y @ tl ph'"
    by (simp add: key)
  also have "\<dots> \<longleftrightarrow> tq_toolName q = tq_toolName q' \<and> ?x @ tl ph = ?y @ tl ph'"
    using assms(5,6) by (subst separator_inject) auto
  also have "?x @ tl ph = ?y @ tl ph' \<longleftrightarrow> ?x = ?y \<and> ph = ph'"
  proof -
    obtain u v where e: "?x = u @ ''}''" "?y = v @ ''}''" using ctxHash_end by blast
    show ?thesis
    proof (cases ph; cases ph')
      fix h assume p: "ph = None" "ph' = Some h"
      then show ?thesis using suffix_hash [of u ?y h] assms(8) e by (auto simp: tl_def hash_text_def)
    next
      fix h assume p: "ph = Some h" "ph' = None"
      then show ?thesis using suffix_hash [of v ?x h] assms(7) e by (auto simp: tl_def hash_text_def)
    next
      fix h h' assume "ph = Some h" "ph' = Some h'"
      then show ?thesis using assms(7,8) by (simp add: tl_def hash_text_def separator_inject_last)
    qed (simp add: tl_def)
  qed
  finally show ?thesis using ctxHash_inject [OF assms(1-4)] by simp
qed

theorem cache_key_separates_calls_witness:
  "eval_key sample_client sample_call (eval_ctxHash sample_call []) (Some ''ab'') \<noteq>
   eval_key sample_client (sample_call\<lparr>tq_arguments := JObj [(''to'', JStr ''eve'')]\<rparr>)
     (eval_ctxHash (sample_call\<lparr>tq_arguments := JObj [(''to'', JStr ''eve'')]\<rparr>) []) (Some ''ab'')"
proof -
  define q' where "q' = sample_call\<lparr>tq_arguments := JObj [(''to'', JStr ''eve'')]\<rparr>"
  have "eval_key sample_client sample_call (eval_ctxHash sample_call []) (Some ''ab'') =
      eval_key sample_client q' (eval_ctxHash q' []) (Some ''ab'') \<longleftrightarrow>
      tq_toolName sample_call = tq_toolName q' \<and> jcanon (tq_arguments sample_call) = jcanon (tq_arguments q') \<and>
      jcanon (dims_json []) = jcanon (dims_json []) \<and> Some ''ab'' = Some ''ab''"
    by (rule cache_key_separates_calls) (simp_all add: q'_def sample_call_def hash_text_def)
  then show ?thesis by (simp add: q'_def [symmetric]) (simp add: q'_def sample_call_def)
qed

section \<open>How long an answer is served, and what invalidation misses\<close>

definition serves :: "tool_client \<Rightarrow> agentum_ctx \<Rightarrow> tool_call \<Rightarrow> (string \<times> string option) list option \<Rightarrow> evaluation \<Rightarrow> int \<Rightarrow> bool" where
  "serves c ctx q d e now \<longleftrightarrow> fst (eval_lookup c ctx q d now) = Finished e [tc_audit c ctx q e From_Cache None]"

lemma serves_iff:
  "serves c ctx q d e now \<longleftrightarrow>
     fst (dc_get (tc_cache c) (eval_key c q (eval_ctxHash q (wire_dims (opt_default d []))) (tc_lastPolicyHash c)) now) = Some e"
  by (auto simp: serves_def eval_lookup_def case_prod_unfold Let_def route_def tc_audit_def
      split: option.splits)

lemma settle_serves:
  assumes "0 < te_ttlMs e" and "te_policyHash e = None \<longrightarrow> tc_lastPolicyHash c = None"
    and "dc_ttlMs (tc_cache c) = 60000" and "now < t + 60000"
    and "dims = wire_dims (opt_default d [])"
  shows "serves (settle c q (eval_ctxHash q dims) e t) ctx q d e now"
proof -
  let ?c = "settle c q (eval_ctxHash q dims) e t"
  have h: "tc_lastPolicyHash ?c = te_policyHash e"
    using assms(2) by (auto simp: settle_def Let_def split: option.splits)
  have k: "eval_key ?c = eval_key c" by (rule eval_key_agent) (simp add: settle_frame)
  have "dc_lookup (tc_cache ?c) (eval_key c q (eval_ctxHash q dims) (te_policyHash e)) = Some (e, t + 60000)"
    using assms(1,3) by (simp add: settle_cache dc_lookup_put_same)
  then show ?thesis using assms(4) by (simp add: serves_iff assms(5) [symmetric] h k dc_get_Some)
qed

text \<open>An answer with any positive time to live is served to the same call for a full minute,
  not for the \<^verbatim>\<open>ttl_ms\<close> the service gave it (which the file's header says is honoured).\<close>

theorem answer_served_for_a_minute:
  assumes "0 < te_ttlMs e" and "te_policyHash e = None \<longrightarrow> tc_lastPolicyHash c = None"
    and "dc_ttlMs (tc_cache c) = 60000" and "http_ok status" and "read_central data = Some e"
    and "now < t + 60000"
  shows "serves (snd (eval_central nullText c ctx q (eval_ctxHash q (wire_dims (opt_default d [])))
    (Http_Reply status (Inr data)) t)) ctx q d e now"
proof -
  have "snd (eval_central nullText c ctx q (eval_ctxHash q (wire_dims (opt_default d [])))
      (Http_Reply status (Inr data)) t) = settle c q (eval_ctxHash q (wire_dims (opt_default d []))) e t"
    using assms(4,5) by (simp add: eval_central_def)
  then show ?thesis using settle_serves [OF assms(1-3,6) refl] by simp
qed

definition sample_answer :: jval where
  "sample_answer = JObj [(''decision'', JStr ''allow''), (''ttl_ms'', JNum ''5''), (''policy_hash'', JStr ''old'')]"

lemma read_sample:
  "read_central sample_answer = Some ((bare_evaluation Dec_Allow 5)\<lparr>te_policyHash := Some ''old'',
     te_decisionSource := Some Plane_Central\<rparr>)"
proof -
  have "js_number ''5'' = Some 5" by code_simp
  then show ?thesis
    by (simp add: read_central_def sample_answer_def j_field_def j_prop_def j_nullish_def read_decision_def
        truthy_field_def j_truthy_def j_nonempty_string_def j_array_def j_number_def bare_evaluation_def Let_def)
qed

theorem answer_served_for_a_minute_witness:
  "serves (snd (eval_central ''null'' sample_client (ev_ctx sample_env) sample_call
     (eval_ctxHash sample_call (wire_dims (opt_default None []))) (Http_Reply 200 (Inr sample_answer)) 1000))
     (ev_ctx sample_env) sample_call None ((bare_evaluation Dec_Allow 5)\<lparr>te_policyHash := Some ''old'',
       te_decisionSource := Some Plane_Central\<rparr>) 60999"
  by (rule answer_served_for_a_minute [OF _ _ _ _ read_sample])
    (simp_all add: bare_evaluation_def sample_client_def dc_new_def to_int32_id http_ok_def)

text \<open>C26: a policy event for the agent, or for all, forgets every cached decision, the policy hash and the add-on snapshot, and
  keeps the human approvals; but a 2xx answer with a policy hash that was already on its way from a configured policy service
  brings its old decision and hash back, and for a minute the next identical call is served from it, although the policy
  changed (the cache having its default time to live).\<close>

theorem invalidation_forgets_except_in_flight:
  assumes "pdp_configured c" and "http_ok status" and "read_pdp data = Some e"
    and "te_policyHash e = Some ph" and "dc_ttlMs (tc_cache c) = 60000" and "now < t + 60000"
    and "who = None \<or> who = Some (tc_agentId c)"
  shows "let c1 = invalidatePolicyCache c who;
      c2 = snd (eval_authorized c1 ctx q (wire_dims (opt_default d []))
        (eval_ctxHash q (wire_dims (opt_default d []))) (Http_Reply status (Inr data)) t) in
    (\<forall>q' d' e' now'. \<not> serves c1 ctx q' d' e' now') \<and> tc_lastPolicyHash c1 = None \<and>
    (\<forall>a. featureState c1 a = Feature_Unknown) \<and> tc_approvalGrants c1 = tc_approvalGrants c \<and>
    serves c2 ctx q d e now \<and> tc_lastPolicyHash c2 = Some ph"
proof -
  define c1 where "c1 = invalidatePolicyCache c who"
  have c1: "tc_cache c1 = dc_invalidateAll (tc_cache c)" "tc_snapshotReceived c1 = False"
    "tc_approvalGrants c1 = tc_approvalGrants c" "pdp_configured c1" "tc_lastPolicyHash c1 = None"
    using assms(1,7) by (auto simp: c1_def invalidatePolicyCache_def drop_policy_state_def pdp_configured_def)
  have none: "\<not> serves c1 ctx q' d' e' now'" for q' d' e' now'
    by (simp add: serves_iff c1 dc_get_Some dc_lookup_clear)
  have "status \<noteq> 401" "\<not> 500 \<le> status" using assms(2) by (auto simp: http_ok_def)
  then have c2: "snd (eval_authorized c1 ctx q (wire_dims (opt_default d []))
        (eval_ctxHash q (wire_dims (opt_default d []))) (Http_Reply status (Inr data)) t) =
      settle (take_snapshot c1 data) q (eval_ctxHash q (wire_dims (opt_default d []))) e t"
    using c1(4) assms(2,3) by (simp add: eval_authorized_def attemptPdp_def)
  have "0 < te_ttlMs e" using assms(3) by (auto simp: read_pdp_def split: if_splits)
  then have "serves (settle (take_snapshot c1 data) q (eval_ctxHash q (wire_dims (opt_default d []))) e t) ctx q d e now"
    using assms(4-6) by (intro settle_serves) (simp_all add: take_snapshot_frame c1 dc_ttl_frame)
  moreover have "tc_lastPolicyHash (settle (take_snapshot c1 data) q (eval_ctxHash q (wire_dims (opt_default d []))) e t) = Some ph"
    using assms(4) by (simp add: settle_def Let_def)
  ultimately show ?thesis using none c1 by (simp add: c1_def [symmetric] Let_def c2 featureState_def)
qed

theorem invalidation_forgets_except_in_flight_witness:
  "let e = (bare_evaluation Dec_Allow 1000)\<lparr>te_policyHash := Some ''old'', te_decisionSource := Some Plane_Pdp\<rparr>;
     c1 = invalidatePolicyCache sample_client None;
     c2 = snd (eval_authorized c1 (ev_ctx sample_env) sample_call (wire_dims (opt_default None []))
        (eval_ctxHash sample_call (wire_dims (opt_default None []))) (Http_Reply 200 (Inr sample_answer)) 1000) in
   serves c2 (ev_ctx sample_env) sample_call None e 60999 \<and> tc_lastPolicyHash c2 = Some ''old''"
proof -
  have r: "read_pdp sample_answer = Some ((bare_evaluation Dec_Allow 1000)\<lparr>te_policyHash := Some ''old'',
      te_decisionSource := Some Plane_Pdp\<rparr>)"
    by (simp add: read_pdp_def sample_answer_def j_field_def j_prop_def j_nullish_def read_decision_def
        truthy_field_def j_truthy_def j_nonempty_string_def j_array_def j_bool_def j_num_text_def
        bare_evaluation_def Let_def)
  have "pdp_configured sample_client" "http_ok 200" "dc_ttlMs (tc_cache sample_client) = 60000"
    by (simp_all add: pdp_configured_def sample_client_def http_ok_def dc_new_def to_int32_id)
  from invalidation_forgets_except_in_flight [OF this(1,2) r _ this(3), of "''old''" 60999 1000 None
      "ev_ctx sample_env" sample_call None]
  show ?thesis by (simp add: Let_def)
qed

section \<open>Feature states\<close>

text \<open>What the sidecar's answer says of an add-on: with an \<^verbatim>\<open>enabled_addons\<close> array it is enabled
  exactly when it is listed; with only \<^verbatim>\<open>bundle_loaded\<close> it is disabled; with neither, it stays unknown on
  a client that has seen no snapshot, but on one that has, every add-on becomes disabled, also those
  enabled before (the comment says the prior snapshot is preserved).\<close>

theorem feature_state_after_answer:
  "featureState (take_snapshot c data) a =
     (case j_array (j_field data ''enabled_addons'') of
        Some vs \<Rightarrow> if JStr a \<in> set vs then Feature_Enabled else Feature_Disabled
      | None \<Rightarrow> if j_field data ''bundle_loaded'' = JBool True \<or> tc_snapshotReceived c then Feature_Disabled
          else Feature_Unknown)"
proof -
  have "a \<in> set (j_strings vs) \<longleftrightarrow> JStr a \<in> set vs" for vs
    by (induction vs) (auto simp: j_strings_def j_string_def List.map_filter_def split: jval.splits)
  then show ?thesis by (auto simp: take_snapshot_def featureState_def split: option.splits)
qed

section \<open>Stale-policy audit rows\<close>

text \<open>The sidecar's answer is reported stale exactly when its policy hash differs from the one seen
  before, and the same hash is never reported twice in a row.\<close>

theorem stale_reported_once:
  assumes "te_policyHash e = Some h"
  shows "(stale_audit c ctx q e \<noteq> [] \<longleftrightarrow> (\<exists>prior. tc_lastPolicyHash c = Some prior \<and> prior \<noteq> h)) \<and>
    length (stale_audit c ctx q e) \<le> 1 \<and>
    (te_policyHash e' = Some h \<longrightarrow> stale_audit (settle c q ctxHash e now) ctx q' e' = [])"
  using assms by (auto simp: stale_audit_def settle_def Let_def split: option.splits)

theorem stale_reported_once_witness:
  "stale_audit (sample_client\<lparr>tc_lastPolicyHash := Some ''old''\<rparr>) (ev_ctx sample_env) sample_call
     ((bare_evaluation Dec_Deny 0)\<lparr>te_policyHash := Some ''new''\<rparr>) \<noteq> []"
  using stale_reported_once [of "(bare_evaluation Dec_Deny 0)\<lparr>te_policyHash := Some ''new''\<rparr>" "''new''"
      "sample_client\<lparr>tc_lastPolicyHash := Some ''old''\<rparr>" "ev_ctx sample_env" sample_call]
  by simp

end
