(* ===== verification/Field_Rules.thy ===== *)
theory Field_Rules
  imports Js_Value
begin

text \<open>
  Layer 1 of the masking pipeline: the secrets and modes (\<^verbatim>\<open>pii/secrets.ts\<close>,
  \<^verbatim>\<open>pii/pii-key-fingerprint.ts\<close>, \<^verbatim>\<open>pii/modes/*.ts\<close>, \<^verbatim>\<open>pii/mask.ts\<close>) and the field-rule trie
  (\<^verbatim>\<open>pii/field-rule-trie.ts\<close>): the parser of rule paths and the walk that masks what they select.
  The keyed digest, the cipher and its random nonces are arguments (record \<open>pii_crypto\<close>); the
  walk threads the number of nonces drawn and whether a keyed mode fired. A failure is an error
  text. Values are JSON trees: class instances and shared or cyclic objects are left out.
\<close>

section \<open>Secrets and modes\<close>

record pii_secrets =
  ps_hashSecret :: "string option"
  ps_tokenizeKey :: "string option"

record pii_crypto =
  pc_base64 :: "string \<Rightarrow> string"
  pc_hmacHex :: "string \<Rightarrow> string \<Rightarrow> string"
  pc_sealed :: "string \<Rightarrow> nat \<Rightarrow> string \<Rightarrow> string"
  pc_sha256Hex :: "(string \<Rightarrow> string) option"

definition decodeSecret :: "pii_crypto \<Rightarrow> string option \<Rightarrow> string option" where
  "decodeSecret pc raw = (case raw of
     None \<Rightarrow> None
   | Some t \<Rightarrow> if t = [] then None
       else (let buf = pc_base64 pc t in if length buf \<noteq> 32 then None else Some buf))"

definition loadPiiSecrets :: "pii_crypto \<Rightarrow> (string \<Rightarrow> string option) \<Rightarrow> pii_secrets" where
  "loadPiiSecrets pc env =
     \<lparr>ps_hashSecret = decodeSecret pc (env ''LUPID_PII_HASH_SECRET''),
      ps_tokenizeKey = decodeSecret pc (env ''LUPID_PII_TOKENIZE_KEY'')\<rparr>"

definition getPiiSecrets :: "pii_secrets option \<Rightarrow> string + pii_secrets" where
  "getPiiSecrets holder = (case holder of
     None \<Rightarrow> Inl ''agentum: PII secrets not loaded -- call init() first'' | Some s \<Rightarrow> Inr s)"

definition getActiveKeyFingerprint :: "pii_crypto \<Rightarrow> pii_secrets option \<Rightarrow> string option" where
  "getActiveKeyFingerprint pc holder =
     (case getPiiSecrets holder of
        Inl _ \<Rightarrow> None
      | Inr secrets \<Rightarrow>
          (case (case ps_hashSecret secrets of Some k \<Rightarrow> Some k | None \<Rightarrow> ps_tokenizeKey secrets) of
             None \<Rightarrow> None
           | Some key \<Rightarrow> map_option (\<lambda>digest. take 16 (digest key)) (pc_sha256Hex pc)))"

definition redacted_literal :: string where "redacted_literal = ''<redacted>''"
definition mask_literal :: string where "mask_literal = ''***''"

definition pii_hash :: "pii_crypto \<Rightarrow> string \<Rightarrow> pii_secrets \<Rightarrow> string + string" where
  "pii_hash pc value secrets = (case ps_hashSecret secrets of
     None \<Rightarrow> Inl ''agentum.pii.hash: hashSecret not loaded; either LUPID_PII_HASH_SECRET is unset or init() has not run''
   | Some key \<Rightarrow> Inr (''h:'' @ pc_hmacHex pc key value))"

definition pii_tokenize :: "pii_crypto \<Rightarrow> nat \<Rightarrow> string \<Rightarrow> pii_secrets \<Rightarrow> string + string" where
  "pii_tokenize pc draw value secrets = (case ps_tokenizeKey secrets of
     None \<Rightarrow> Inl ''agentum.pii.tokenize: tokenizeKey not loaded; either LUPID_PII_TOKENIZE_KEY is unset or init() has not run''
   | Some key \<Rightarrow> Inr (''t:'' @ pc_sealed pc key draw value))"

datatype pii_mode = Mode_None | Mode_Drop | Mode_Hash | Mode_Tokenize

definition applyPii :: "pii_crypto \<Rightarrow> pii_secrets option \<Rightarrow> nat \<Rightarrow> string \<Rightarrow> pii_mode \<Rightarrow> string + string" where
  "applyPii pc holder draw value mode = (case mode of
     Mode_None \<Rightarrow> Inr value
   | Mode_Drop \<Rightarrow> Inr redacted_literal
   | Mode_Hash \<Rightarrow> (case getPiiSecrets holder of Inl e \<Rightarrow> Inl e | Inr s \<Rightarrow> pii_hash pc value s)
   | Mode_Tokenize \<Rightarrow> (case getPiiSecrets holder of Inl e \<Rightarrow> Inl e | Inr s \<Rightarrow> pii_tokenize pc draw value s))"

section \<open>Rules and their paths\<close>

datatype rule_mode = Rule_Drop | Rule_Hash | Rule_Tokenize | Rule_Mask

record field_rule =
  fr_tool :: string
  fr_path :: string
  fr_mode :: rule_mode

datatype segment = Seg_Key string | Seg_Wildcard | Seg_Index nat | Seg_Descent

record compiled_rule =
  cr_segments :: "segment list"
  cr_mode :: rule_mode

record field_rule_trie =
  ft_byTool :: "(string \<times> compiled_rule list) list"
  ft_wildcardTool :: "compiled_rule list"
  ft_empty :: bool

definition dq :: char where "dq = CHR 0x22"
definition sq :: char where "sq = CHR 0x27"

text \<open>The errors carry the \<open>detail\<close> of \<^verbatim>\<open>FieldRuleCompileError\<close>.\<close>

definition quoted :: "string \<Rightarrow> string" where
  "quoted s = [dq] @ s @ [dq]"

definition parseBracket :: "string \<Rightarrow> string + segment" where
  "parseBracket inner =
     (let got = '' (got '' @ quoted (''['' @ inner @ '']'') @ '')'' in
      if inner = ''*'' then Inr Seg_Wildcard
      else if CHR '','' \<in> set inner then Inl (''bracket unions are not supported in Y03'' @ got)
      else if CHR '':'' \<in> set inner then Inl (''array slices are not supported in Y03'' @ got)
      else if js_startsWith inner ''?'' then Inl (''filter expressions are not supported in Y03'' @ got)
      else if length inner \<ge> 2 \<and> ((hd inner = dq \<and> last inner = dq) \<or> (hd inner = sq \<and> last inner = sq)) then
        (let name = butlast (tl inner) in
         if name = [] then Inl ''empty bracketed key''
         else if CHR 0x5C \<in> set name then Inl ''escape sequences in bracketed keys are not supported''
         else Inr (Seg_Key name))
      else if inner \<noteq> [] \<and> list_all is_digit inner then
        (let value = digits_val inner in
         if value > 2 ^ 53 - 1 then Inl (''array index out of range: '' @ inner) else Inr (Seg_Index value))
      else Inl (''unrecognised bracket contents '' @ quoted (''['' @ inner @ '']'')))"

definition key_char :: "char \<Rightarrow> bool" where
  "key_char c \<longleftrightarrow> c \<noteq> CHR ''.'' \<and> c \<noteq> CHR ''[''"

definition add_segments :: "segment list \<Rightarrow> string + segment list \<Rightarrow> string + segment list" where
  "add_segments ss r = (case r of Inl e \<Rightarrow> Inl e | Inr rest \<Rightarrow> Inr (ss @ rest))"

text \<open>The loop of \<open>parsePath\<close> on the unread rest of a path of length \<open>len\<close>.\<close>

function parse_rest :: "nat \<Rightarrow> string \<Rightarrow> string + segment list" where
  "parse_rest len s =
     (case s of
        [] \<Rightarrow> Inr []
      | c # r \<Rightarrow>
          if c = CHR ''.'' then
            (if r \<noteq> [] \<and> hd r = CHR ''.'' then
               (let r' = tl r in
                if r' = [] then Inl (''trailing '' @ quoted ''..'' @ '' without a following segment'')
                else if hd r' = CHR ''*'' then add_segments [Seg_Descent, Seg_Wildcard] (parse_rest len (tl r'))
                else if hd r' = CHR ''['' then add_segments [Seg_Descent] (parse_rest len r')
                else (let key = takeWhile key_char r' in
                  if key = [] then Inl (''empty key after '' @ quoted ''..'')
                  else add_segments [Seg_Descent, Seg_Key key] (parse_rest len (dropWhile key_char r'))))
             else if r = [] then Inl (''trailing '' @ quoted ''.'')
             else if hd r = CHR ''*'' then add_segments [Seg_Wildcard] (parse_rest len (tl r))
             else (let key = takeWhile key_char r in
               if key = [] then Inl (''empty key after '' @ quoted ''.'')
               else add_segments [Seg_Key key] (parse_rest len (dropWhile key_char r))))
          else if c = CHR ''['' then
            (if CHR '']'' \<notin> set r then Inl (''unbalanced '' @ quoted ''['')
             else (case parseBracket (takeWhile (\<lambda>x. x \<noteq> CHR '']'') r) of
                 Inl e \<Rightarrow> Inl e
               | Inr seg \<Rightarrow> add_segments [seg] (parse_rest len (tl (dropWhile (\<lambda>x. x \<noteq> CHR '']'') r)))))
          else Inl (''unexpected character '' @ quoted [c] @ '' at offset '' @ nat_text (len - length s)))"
  by pat_completeness auto

termination parse_rest
  by (relation "measure (\<lambda>(len, s). length s)")
    (auto simp: less_Suc_eq_le length_dropWhile_le intro: order_trans [OF diff_le_self]
      order_trans [OF length_dropWhile_le] le_imp_less_Suc split: list.splits)

declare parse_rest.simps [simp del]

definition parsePath :: "string \<Rightarrow> string + segment list" where
  "parsePath expr =
     (if \<not> js_startsWith expr ''$'' then Inl (''must start with '' @ quoted ''$'')
      else if length expr = 1 then
        Inl (''path '' @ quoted ''$'' @ '' alone matches the entire value -- add at least one segment'')
      else (case parse_rest (length expr) (tl expr) of
          Inl e \<Rightarrow> Inl e
        | Inr segs \<Rightarrow> if segs = [] then Inl (''no segments after '' @ quoted ''$'' @ '' -- path matches nothing'')
            else Inr segs))"

definition add_rule :: "field_rule_trie \<Rightarrow> field_rule \<Rightarrow> compiled_rule \<Rightarrow> field_rule_trie" where
  "add_rule t rule c =
     (if fr_tool rule = ''*'' then t\<lparr>ft_wildcardTool := ft_wildcardTool t @ [c]\<rparr>
      else t\<lparr>ft_byTool := jm_set (fr_tool rule)
        ((case jm_get (ft_byTool t) (fr_tool rule) of Some b \<Rightarrow> b | None \<Rightarrow> []) @ [c]) (ft_byTool t)\<rparr>)"

fun compile_rules :: "field_rule_trie \<Rightarrow> field_rule list \<Rightarrow> (field_rule \<times> string) + field_rule_trie" where
  "compile_rules t [] = Inr (t\<lparr>ft_empty := (ft_byTool t = [] \<and> ft_wildcardTool t = [])\<rparr>)"
| "compile_rules t (rule # rules) =
     (case parsePath (fr_path rule) of
        Inl detail \<Rightarrow> Inl (rule, detail)
      | Inr segs \<Rightarrow> compile_rules (add_rule t rule \<lparr>cr_segments = segs, cr_mode = fr_mode rule\<rparr>) rules)"

definition compileFieldRuleTrie :: "field_rule list \<Rightarrow> (field_rule \<times> string) + field_rule_trie" where
  "compileFieldRuleTrie rules = compile_rules \<lparr>ft_byTool = [], ft_wildcardTool = [], ft_empty = True\<rparr> rules"

section \<open>The walk\<close>

record walk_state =
  wk_draws :: nat
  wk_fired :: bool

type_synonym 'a walk = "walk_state \<Rightarrow> (string + 'a) \<times> walk_state"

definition wret :: "'a \<Rightarrow> 'a walk" where
  "wret a st = (Inr a, st)"

definition wbind :: "'a walk \<Rightarrow> ('a \<Rightarrow> 'b walk) \<Rightarrow> 'b walk" where
  "wbind m f st = (case m st of (Inl e, st') \<Rightarrow> (Inl e, st') | (Inr a, st') \<Rightarrow> f a st')"

fun wmap :: "('a \<Rightarrow> 'b walk) \<Rightarrow> 'a list \<Rightarrow> 'b list walk" where
  "wmap f [] = wret []"
| "wmap f (x # xs) = wbind (f x) (\<lambda>y. wbind (wmap f xs) (\<lambda>ys. wret (y # ys)))"

definition stringifyForMasking :: "jval \<Rightarrow> string" where
  "stringifyForMasking v = (case v of
     JStr s \<Rightarrow> s | JNull \<Rightarrow> ''null'' | JUndefined \<Rightarrow> ''undefined'' | JNum t \<Rightarrow> t
   | JBool b \<Rightarrow> (if b then ''true'' else ''false'')
   | _ \<Rightarrow> (case json_stringify v of Some t \<Rightarrow> t | None \<Rightarrow> []))"

record pii_env =
  pe_crypto :: pii_crypto
  pe_secrets :: "pii_secrets option"

definition walk_lift :: "string + string \<Rightarrow> jval walk" where
  "walk_lift r st = (map_sum id JStr r, st)"

definition applyMode :: "pii_env \<Rightarrow> rule_mode \<Rightarrow> jval \<Rightarrow> jval walk" where
  "applyMode env mode v st = (case mode of
     Rule_Drop \<Rightarrow> (Inr (JStr redacted_literal), st)
   | Rule_Mask \<Rightarrow> (Inr (JStr mask_literal), st)
   | Rule_Hash \<Rightarrow>
       (let st = st\<lparr>wk_fired := True\<rparr> in
        case getPiiSecrets (pe_secrets env) of Inl e \<Rightarrow> (Inl e, st)
        | Inr s \<Rightarrow> walk_lift (pii_hash (pe_crypto env) (stringifyForMasking v) s) st)
   | Rule_Tokenize \<Rightarrow>
       (let st = st\<lparr>wk_fired := True\<rparr> in
        case getPiiSecrets (pe_secrets env) of Inl e \<Rightarrow> (Inl e, st)
        | Inr s \<Rightarrow> walk_lift (pii_tokenize (pe_crypto env) (wk_draws st) (stringifyForMasking v) s)
            (st\<lparr>wk_draws := Suc (wk_draws st)\<rparr>)))"

definition walkChildren :: "(jval \<Rightarrow> jval walk) \<Rightarrow> jval \<Rightarrow> jval walk" where
  "walkChildren f v = (case v of
     JArr vs \<Rightarrow> wbind (wmap f vs) (\<lambda>ys. wret (JArr ys))
   | JObj kvs \<Rightarrow> wbind (wmap (\<lambda>(k, x). wbind (f x) (\<lambda>y. wret (k, y))) kvs) (\<lambda>ys. wret (JObj ys))
   | _ \<Rightarrow> wret v)"

text \<open>The nesting depth, the fuel of the recursive descent.\<close>

fun jdepth :: "jval \<Rightarrow> nat" where
  "jdepth (JArr vs) = Suc (foldr max (map jdepth vs) 0)"
| "jdepth (JObj kvs) = Suc (foldr max (map (\<lambda>(k, v). jdepth v) kvs) 0)"
| "jdepth v = 0"

fun descend :: "(jval \<Rightarrow> jval walk) \<Rightarrow> nat \<Rightarrow> jval \<Rightarrow> jval walk" where
  "descend f 0 v = f v"
| "descend f (Suc n) v = wbind (f v) (walkChildren (descend f n))"

fun applyAtSegment :: "pii_env \<Rightarrow> rule_mode \<Rightarrow> segment list \<Rightarrow> jval \<Rightarrow> jval walk" where
  "applyAtSegment env mode [] v = applyMode env mode v"
| "applyAtSegment env mode (Seg_Descent # segs) v = descend (applyAtSegment env mode segs) (jdepth v) v"
| "applyAtSegment env mode (Seg_Wildcard # segs) v = walkChildren (applyAtSegment env mode segs) v"
| "applyAtSegment env mode (Seg_Key k # segs) v = (case v of
     JObj kvs \<Rightarrow> (case jm_get kvs k of
         None \<Rightarrow> wret v
       | Some x \<Rightarrow>
           if segs = [] \<and> mode = Rule_Drop then wret (JObj (jm_del k kvs))
           else wbind (applyAtSegment env mode segs x) (\<lambda>y. wret (JObj (jm_set k y kvs))))
   | _ \<Rightarrow> wret v)"
| "applyAtSegment env mode (Seg_Index i # segs) v = (case v of
     JArr vs \<Rightarrow>
       if i \<ge> length vs then wret v
       else wbind (applyAtSegment env mode segs (vs ! i)) (\<lambda>y. wret (JArr (vs[i := y])))
   | _ \<Rightarrow> wret v)"

fun applyRules :: "pii_env \<Rightarrow> compiled_rule list \<Rightarrow> jval \<Rightarrow> jval walk" where
  "applyRules env [] v = wret v"
| "applyRules env (r # rs) v = wbind (applyAtSegment env (cr_mode r) (cr_segments r) v) (applyRules env rs)"

definition applyTrie :: "pii_env \<Rightarrow> field_rule_trie \<Rightarrow> string \<Rightarrow> jval \<Rightarrow> jval walk" where
  "applyTrie env trie tool v =
     (if ft_empty trie then wret v
      else (let toolSpecific = (case jm_get (ft_byTool trie) tool of Some b \<Rightarrow> b | None \<Rightarrow> []) in
        if ft_wildcardTool trie = [] \<and> toolSpecific = [] then wret v
        else wbind (applyRules env (ft_wildcardTool trie) v) (applyRules env toolSpecific)))"

end
