(* ===== verification/Field_Rules_Sound.thy ===== *)
theory Field_Rules_Sound
  imports Field_Rules
begin

text \<open>
  What a mask rule does to a value, against an independent reading of its path: \<open>selects\<close> says
  which locations a parsed path names (the JSONPath meaning), and the walk masks every one of
  them (or something above it) and touches no leaf elsewhere. The walk with its error and nonce
  state is first shown to be a pure function on mask rules.
\<close>

section \<open>Locations\<close>

datatype jstep = At_Key string | At_Index nat

fun get_at :: "jval \<Rightarrow> jstep list \<Rightarrow> jval option" where
  "get_at v [] = Some v"
| "get_at v (s # p) = (case (v, s) of
     (JObj kvs, At_Key k) \<Rightarrow> (case jm_get kvs k of Some x \<Rightarrow> get_at x p | None \<Rightarrow> None)
   | (JArr vs, At_Index i) \<Rightarrow> if i < length vs then get_at (vs ! i) p else None
   | _ \<Rightarrow> None)"

fun selects :: "segment list \<Rightarrow> jstep list \<Rightarrow> bool" where
  "selects [] p = (p = [])"
| "selects (Seg_Descent # segs) [] = selects segs []"
| "selects (Seg_Descent # segs) (s # p) = (selects segs (s # p) \<or> selects (Seg_Descent # segs) p)"
| "selects (Seg_Wildcard # segs) [] = False"
| "selects (Seg_Wildcard # segs) (s # p) = selects segs p"
| "selects (Seg_Key k # segs) [] = False"
| "selects (Seg_Key k # segs) (s # p) = (s = At_Key k \<and> selects segs p)"
| "selects (Seg_Index i # segs) [] = False"
| "selects (Seg_Index i # segs) (s # p) = (s = At_Index i \<and> selects segs p)"

fun leaf :: "jval \<Rightarrow> bool" where
  "leaf (JArr _) = False"
| "leaf (JObj _) = False"
| "leaf _ = True"

definition masked_above :: "jval \<Rightarrow> jstep list \<Rightarrow> bool" where
  "masked_above v p \<longleftrightarrow> (\<exists>q r. p = q @ r \<and> get_at v q = Some (JStr mask_literal))"

section \<open>The walk on mask rules is pure\<close>

definition pwalk :: "(jval \<Rightarrow> jval) \<Rightarrow> jval \<Rightarrow> jval" where
  "pwalk f v = (case v of
     JArr vs \<Rightarrow> JArr (map f vs) | JObj kvs \<Rightarrow> JObj (map (\<lambda>(k, x). (k, f x)) kvs) | _ \<Rightarrow> v)"

fun pdescend :: "(jval \<Rightarrow> jval) \<Rightarrow> nat \<Rightarrow> jval \<Rightarrow> jval" where
  "pdescend f 0 v = f v"
| "pdescend f (Suc n) v = pwalk (pdescend f n) (f v)"

fun mask_at :: "segment list \<Rightarrow> jval \<Rightarrow> jval" where
  "mask_at [] v = JStr mask_literal"
| "mask_at (Seg_Descent # segs) v = pdescend (mask_at segs) (jdepth v) v"
| "mask_at (Seg_Wildcard # segs) v = pwalk (mask_at segs) v"
| "mask_at (Seg_Key k # segs) v = (case v of
     JObj kvs \<Rightarrow> (case jm_get kvs k of None \<Rightarrow> v | Some x \<Rightarrow> JObj (jm_set k (mask_at segs x) kvs)) | _ \<Rightarrow> v)"
| "mask_at (Seg_Index i # segs) v = (case v of
     JArr vs \<Rightarrow> if i \<ge> length vs then v else JArr (vs[i := mask_at segs (vs ! i)]) | _ \<Rightarrow> v)"

lemma wbind_ret [simp]: "wbind (wret a) f = f a"
  by (rule ext) (simp add: wbind_def wret_def)

lemma wmap_ret: "(\<And>x. f x = wret (g x)) \<Longrightarrow> wmap f xs = wret (map g xs)"
  by (induction xs) simp_all

lemma walkChildren_ret:
  assumes "\<And>x. f x = wret (g x)"
  shows "walkChildren f v = wret (pwalk g v)"
proof -
  have "(case p of (k, x) \<Rightarrow> wbind (f x) (\<lambda>y. wret (k, y))) = wret (case p of (k, x) \<Rightarrow> (k, g x))" for p :: "string \<times> jval"
    by (cases p) (simp add: assms)
  then show ?thesis
    by (cases v) (simp_all add: walkChildren_def pwalk_def wmap_ret [OF assms] wmap_ret)
qed

lemma descend_ret: "f = (\<lambda>x. wret (g x)) \<Longrightarrow> descend f n = (\<lambda>v. wret (pdescend g n v))"
proof (induction n)
  case (Suc n)
  have "walkChildren (descend f n) w = wret (pwalk (pdescend g n) w)" for w
    by (rule walkChildren_ret) (rule fun_cong [OF Suc.IH [OF Suc.prems]])
  then show ?case using Suc.prems by (auto intro!: ext)
qed auto

lemma applyAtSegment_mask: "applyAtSegment env Rule_Mask segs = (\<lambda>v. wret (mask_at segs v))"
proof (induction segs)
  case Nil
  show ?case by (intro ext) (simp add: applyMode_def wret_def)
next
  case (Cons s segs)
  note w = walkChildren_ret [of "applyAtSegment env Rule_Mask segs" "mask_at segs"]
  show ?case
    by (cases s; rule ext)
      (auto simp: Cons descend_ret [OF refl] walkChildren_ret split: jval.splits option.splits)
qed

section \<open>Locations through the walk\<close>

lemma get_pwalk:
  "get_at (pwalk f v) (s # p) = (case get_at v [s] of Some c \<Rightarrow> get_at (f c) p | None \<Rightarrow> None)"
proof -
  have "jm_get (map (\<lambda>(k, x). (k, f x)) kvs) k = map_option f (jm_get kvs k)" for kvs :: "(string \<times> jval) list" and k
    by (induction kvs) auto
  then show ?thesis by (cases v; cases s) (auto simp: pwalk_def split: option.splits)
qed

lemma get_at_cons: "get_at v (s # p) = Some x \<longleftrightarrow> (\<exists>c. get_at v [s] = Some c \<and> get_at c p = Some x)"
  by (cases v; cases s) (auto split: option.splits)

declare get_at.simps(2) [simp del]

lemma pwalk_leaf: "leaf v \<Longrightarrow> pwalk f v = v"
  by (cases v) (simp_all add: pwalk_def)

lemma masked_above_nil: "masked_above v [] \<longleftrightarrow> v = JStr mask_literal"
  by (simp add: masked_above_def)

lemma masked_above_cons:
  "masked_above v (s # p) \<longleftrightarrow> v = JStr mask_literal \<or> (\<exists>c. get_at v [s] = Some c \<and> masked_above c p)"
proof
  assume "masked_above v (s # p)"
  then obtain q r where q: "s # p = q @ r" "get_at v q = Some (JStr mask_literal)"
    by (auto simp: masked_above_def)
  show "v = JStr mask_literal \<or> (\<exists>c. get_at v [s] = Some c \<and> masked_above c p)"
  proof (cases q)
    case (Cons a q')
    then have "get_at v (s # q') = Some (JStr mask_literal)" "p = q' @ r" using q by auto
    then show ?thesis unfolding get_at_cons [of v s q'] masked_above_def by blast
  qed (use q in simp)
next
  assume "v = JStr mask_literal \<or> (\<exists>c. get_at v [s] = Some c \<and> masked_above c p)"
  then show "masked_above v (s # p)"
  proof
    assume "\<exists>c. get_at v [s] = Some c \<and> masked_above c p"
    then obtain c q r where "get_at v [s] = Some c" "p = q @ r" "get_at c q = Some (JStr mask_literal)"
      by (auto simp: masked_above_def)
    then have "s # p = (s # q) @ r" "get_at v (s # q) = Some (JStr mask_literal)"
      using get_at_cons [of v s q] by auto
    then show ?thesis unfolding masked_above_def by blast
  next
    assume "v = JStr mask_literal"
    then have "s # p = [] @ (s # p)" "get_at v [] = Some (JStr mask_literal)" by simp_all
    then show ?thesis unfolding masked_above_def by blast
  qed
qed

text \<open>A masking function keeps every location, or masks something at or above it; a leaf it does
  not mask stays as it is.\<close>

definition keeps :: "(jval \<Rightarrow> jval) \<Rightarrow> bool" where
  "keeps f \<longleftrightarrow> (\<forall>v p x. get_at v p = Some x \<longrightarrow> masked_above (f v) p \<or>
     (\<exists>y. get_at (f v) p = Some y \<and> (leaf x \<longrightarrow> y = x)))"

lemma keeps_pwalk: "keeps f \<Longrightarrow> keeps (pwalk f)"
  unfolding keeps_def
proof (intro allI impI)
  fix v p x
  assume f: "\<forall>v p x. get_at v p = Some x \<longrightarrow> masked_above (f v) p \<or>
     (\<exists>y. get_at (f v) p = Some y \<and> (leaf x \<longrightarrow> y = x))" and g: "get_at v p = Some x"
  show "masked_above (pwalk f v) p \<or> (\<exists>y. get_at (pwalk f v) p = Some y \<and> (leaf x \<longrightarrow> y = x))"
  proof (cases p)
    case (Cons s p')
    then obtain c where c: "get_at v [s] = Some c" "get_at c p' = Some x" using g get_at_cons by blast
    have w: "get_at (pwalk f v) (s # q) = get_at (f c) q" for q by (simp add: get_pwalk c)
    from f c have "masked_above (f c) p' \<or> (\<exists>y. get_at (f c) p' = Some y \<and> (leaf x \<longrightarrow> y = x))" by blast
    moreover have "get_at (pwalk f v) [s] = Some (f c)" using w [of "[]"] by simp
    ultimately show ?thesis unfolding Cons masked_above_cons w by blast
  qed (use g in \<open>auto simp: pwalk_leaf\<close>)
qed

lemma keeps_masked: "keeps f \<Longrightarrow> masked_above v p \<Longrightarrow> masked_above (f v) p"
proof -
  assume k: "keeps f" and "masked_above v p"
  then obtain q r where q: "p = q @ r" "get_at v q = Some (JStr mask_literal)" by (auto simp: masked_above_def)
  then have "masked_above (f v) q \<or> get_at (f v) q = Some (JStr mask_literal)"
    using k unfolding keeps_def by (metis leaf.simps(7))
  then show "masked_above (f v) p" using q(1) unfolding masked_above_def by (metis append.assoc)
qed

lemma keeps_comp: "keeps f \<Longrightarrow> keeps g \<Longrightarrow> keeps (\<lambda>v. g (f v))"
proof -
  assume f: "keeps f" and g: "keeps g"
  show "keeps (\<lambda>v. g (f v))" unfolding keeps_def
  proof (intro allI impI)
    fix v p x assume x: "get_at v p = Some x"
    from f x consider "masked_above (f v) p" | y where "get_at (f v) p = Some y" "leaf x \<longrightarrow> y = x"
      unfolding keeps_def by blast
    then show "masked_above (g (f v)) p \<or> (\<exists>y. get_at (g (f v)) p = Some y \<and> (leaf x \<longrightarrow> y = x))"
    proof cases
      case 1 then show ?thesis using keeps_masked [OF g] by blast
    next
      case 2 then show ?thesis using g unfolding keeps_def by blast
    qed
  qed
qed

lemma keeps_pdescend: "keeps f \<Longrightarrow> keeps (pdescend f n)"
proof (induction n)
  case 0
  have "pdescend f 0 = f" by (rule ext) simp
  with 0 show ?case by simp
next
  case (Suc n)
  have "pdescend f (Suc n) = (\<lambda>v. pwalk (pdescend f n) (f v))" by (rule ext) simp
  with Suc show ?case by (simp add: keeps_comp keeps_pwalk)
qed

section \<open>One step into a container\<close>

definition upd_at :: "jval \<Rightarrow> jstep \<Rightarrow> jval \<Rightarrow> jval" where
  "upd_at v s y = (case (v, s) of
     (JObj kvs, At_Key k) \<Rightarrow> JObj (jm_set k y kvs) | (JArr vs, At_Index i) \<Rightarrow> JArr (vs[i := y]) | _ \<Rightarrow> v)"

lemma get_upd_at:
  "get_at v [s] = Some c \<Longrightarrow> get_at (upd_at v s y) (a # p) = (if a = s then get_at y p else get_at v (a # p))"
  by (cases v; cases s; cases a) (auto simp: upd_at_def get_at.simps(2) jm_simps split: option.splits if_splits)

lemma upd_at_shape: "get_at v [s] = Some c \<Longrightarrow> \<not> leaf (upd_at v s y) \<and> \<not> leaf v"
  by (cases v; cases s) (auto simp: upd_at_def get_at.simps(2))

definition focus :: "jstep \<Rightarrow> (jval \<Rightarrow> jval) \<Rightarrow> jval \<Rightarrow> jval" where
  "focus s f v = (case get_at v [s] of None \<Rightarrow> v | Some c \<Rightarrow> upd_at v s (f c))"

lemma mask_at_focus:
  "mask_at (Seg_Key k # segs) = focus (At_Key k) (mask_at segs)"
  "mask_at (Seg_Index i # segs) = focus (At_Index i) (mask_at segs)"
  by (rule ext; simp add: focus_def upd_at_def get_at.simps(2) split: jval.splits option.splits)+

lemma masked_focus:
  assumes "get_at v [s] = Some c" and "masked_above (f c) p"
  shows "masked_above (focus s f v) (s # p)"
  using assms get_upd_at [OF assms(1), of "f c" s "[]"] by (simp add: masked_above_cons focus_def)

lemma get_focus:
  "get_at v [s] = Some c \<Longrightarrow> get_at (focus s f v) (a # p) = (if a = s then get_at (f c) p else get_at v (a # p))"
  by (simp add: focus_def get_upd_at)

lemma focus_none: "get_at v [s] = None \<Longrightarrow> focus s f v = v"
  by (simp add: focus_def)

lemma keeps_focus: "keeps f \<Longrightarrow> keeps (focus s f)"
  unfolding keeps_def
proof (intro allI impI)
  fix v p x
  assume f: "\<forall>v p x. get_at v p = Some x \<longrightarrow> masked_above (f v) p \<or>
     (\<exists>y. get_at (f v) p = Some y \<and> (leaf x \<longrightarrow> y = x))" and g: "get_at v p = Some x"
  show "masked_above (focus s f v) p \<or> (\<exists>y. get_at (focus s f v) p = Some y \<and> (leaf x \<longrightarrow> y = x))"
  proof (cases "get_at v [s]")
    case None then show ?thesis using g by (simp add: focus_none)
  next
    case (Some c)
    show ?thesis
    proof (cases p)
      case Nil then show ?thesis using g upd_at_shape [OF Some] by auto
    next
      case (Cons a p')
      show ?thesis
      proof (cases "a = s")
        case True
        then have "get_at c p' = Some x" using g Cons Some get_at_cons [of v s p'] by auto
        with f have "masked_above (f c) p' \<or> (\<exists>y. get_at (f c) p' = Some y \<and> (leaf x \<longrightarrow> y = x))" by blast
        then show ?thesis using masked_focus [OF Some, of f p'] get_focus [OF Some, of f s p'] Cons True by auto
      qed (use g Cons get_focus [OF Some] in simp)
    qed
  qed
qed

lemma keeps_mask_at: "keeps (mask_at segs)"
proof (induction segs)
  case Nil
  have "masked_above (JStr mask_literal) p" for p
    by (cases p) (simp_all add: masked_above_nil masked_above_cons)
  then show ?case by (simp add: keeps_def)
next
  case (Cons s segs)
  then show ?case
  proof (cases s)
    case Seg_Wildcard
    then have "mask_at (s # segs) = pwalk (mask_at segs)" by (intro ext) simp
    then show ?thesis using keeps_pwalk [OF Cons] by simp
  next
    case Seg_Descent
    then show ?thesis using keeps_pdescend [OF Cons] by (simp add: keeps_def)
  qed (use Cons in \<open>simp_all add: mask_at_focus keeps_focus\<close>)
qed

section \<open>Every selected location is masked\<close>

definition covers :: "(jstep list \<Rightarrow> bool) \<Rightarrow> (jval \<Rightarrow> jval) \<Rightarrow> bool" where
  "covers sel f \<longleftrightarrow> (\<forall>v p x. get_at v p = Some x \<longrightarrow> sel p \<longrightarrow> masked_above (f v) p)"

lemma depth_child: "get_at v [s] = Some c \<Longrightarrow> jdepth c < jdepth v"
proof -
  have m: "x \<in> set xs \<Longrightarrow> (f x :: nat) \<le> foldr max (map f xs) 0" for x xs and f :: "'z \<Rightarrow> nat"
    by (induction xs) (auto simp: max.coboundedI2)
  show "get_at v [s] = Some c \<Longrightarrow> jdepth c < jdepth v"
    using m [of _ _ jdepth] m [of _ _ "\<lambda>(k, v). jdepth v"]
    by (cases v; cases s)
      (fastforce simp: get_at.simps(2) less_Suc_eq_le dest!: map_of_SomeD split: option.splits if_splits)+
qed

lemma depth_path: "get_at v p = Some x \<Longrightarrow> length p \<le> jdepth v"
proof (induction p arbitrary: v)
  case (Cons s p)
  then obtain c where c: "get_at v [s] = Some c" "get_at c p = Some x" using get_at_cons by blast
  with Cons.IH [OF c(2)] depth_child [OF c(1)] show ?case by simp
qed simp

lemma masked_pwalk:
  "get_at v [s] = Some c \<Longrightarrow> masked_above (f c) p \<Longrightarrow> masked_above (pwalk f v) (s # p)"
  using get_pwalk [of f v s "[]"] by (simp add: masked_above_cons)

lemma covers_pdescend:
  assumes f: "covers (selects segs) f" and k: "keeps f"
  shows "length p \<le> n \<Longrightarrow> get_at v p = Some x \<Longrightarrow> selects (Seg_Descent # segs) p \<Longrightarrow>
    masked_above (pdescend f n v) p"
proof (induction n arbitrary: v p x)
  case 0
  then show ?case using f by (simp add: covers_def)
next
  case (Suc n)
  have kn: "keeps (pwalk (pdescend f n))" using keeps_pwalk [OF keeps_pdescend [OF k]] .
  show ?case
  proof (cases "masked_above (f v) p")
    case True then show ?thesis using keeps_masked [OF kn] by simp
  next
    case False
    then have ns: "\<not> selects segs p" using f Suc.prems(2) unfolding covers_def by blast
    then obtain s p' where p: "p = s # p'" and sel: "selects (Seg_Descent # segs) p'"
      using Suc.prems(3) by (cases p) auto
    obtain y where "get_at (f v) p = Some y" using k Suc.prems(2) False unfolding keeps_def by blast
    then obtain c where c: "get_at (f v) [s] = Some c" "get_at c p' = Some y" using p get_at_cons by blast
    have "masked_above (pdescend f n c) p'" using Suc.IH [OF _ c(2) sel] Suc.prems(1) p by simp
    with masked_pwalk [OF c(1), of "pdescend f n" p'] show ?thesis by (simp add: p)
  qed
qed

lemma covers_mask_at: "covers (selects segs) (mask_at segs)"
proof (induction segs)
  case Nil
  show ?case by (simp add: covers_def masked_above_nil)
next
  case (Cons s segs)
  have child: "\<And>v a p x. get_at v (a # p) = Some x \<Longrightarrow> selects segs p \<Longrightarrow>
      \<exists>c. get_at v [a] = Some c \<and> masked_above (mask_at segs c) p"
    using Cons get_at_cons unfolding covers_def by blast
  show ?case unfolding covers_def
  proof (intro allI impI)
    fix v p x assume g: "get_at v p = Some x" and sel: "selects (s # segs) p"
    show "masked_above (mask_at (s # segs) v) p"
    proof (cases s)
      case Seg_Descent
      then show ?thesis
        using covers_pdescend [OF Cons keeps_mask_at depth_path [OF g] g] sel by simp
    next
      case Seg_Wildcard
      then obtain a p' where p: "p = a # p'" "selects segs p'" using sel by (cases p) auto
      with child [of v a p' x] g masked_pwalk show ?thesis by (auto simp: Seg_Wildcard)
    next
      case (Seg_Key k)
      then obtain p' where p: "p = At_Key k # p'" "selects segs p'" using sel by (cases p) auto
      with child [of v "At_Key k" p' x] g masked_focus show ?thesis by (auto simp: Seg_Key mask_at_focus)
    next
      case (Seg_Index i)
      then obtain p' where p: "p = At_Index i # p'" "selects segs p'" using sel by (cases p) auto
      with child [of v "At_Index i" p' x] g masked_focus show ?thesis by (auto simp: Seg_Index mask_at_focus)
    qed
  qed
qed

section \<open>Nothing else is touched\<close>

definition apart :: "(jstep list \<Rightarrow> bool) \<Rightarrow> jstep list \<Rightarrow> bool" where
  "apart sel p \<longleftrightarrow> (\<forall>q r. p = q @ r \<longrightarrow> \<not> sel q)"

definition frames :: "(jstep list \<Rightarrow> bool) \<Rightarrow> (jval \<Rightarrow> jval) \<Rightarrow> bool" where
  "frames sel f \<longleftrightarrow> (\<forall>v p x. get_at v p = Some x \<longrightarrow> leaf x \<longrightarrow> apart sel p \<longrightarrow> get_at (f v) p = Some x)"

lemma apart_cons:
  "apart sel (s # p) \<longleftrightarrow> \<not> sel [] \<and> apart (\<lambda>q. sel (s # q)) p"
  unfolding apart_def by (auto simp: Cons_eq_append_conv)

lemma apart_mono: "apart sel p \<Longrightarrow> (\<And>q. sel' q \<Longrightarrow> sel q) \<Longrightarrow> apart sel' p"
  unfolding apart_def by blast

lemma frames_pdescend:
  assumes f: "frames (selects segs) f"
  shows "get_at v p = Some x \<Longrightarrow> leaf x \<Longrightarrow> apart (selects (Seg_Descent # segs)) p \<Longrightarrow>
    get_at (pdescend f n v) p = Some x"
proof (induction n arbitrary: v p)
  case 0
  have "apart (selects segs) p"
    using 0(3) by (rule apart_mono) (metis selects.simps(2,3) neq_Nil_conv)
  with f 0 show ?case by (simp add: frames_def)
next
  case (Suc n)
  have "apart (selects segs) p"
    using Suc.prems(3) by (rule apart_mono) (metis selects.simps(2,3) neq_Nil_conv)
  with f Suc.prems have g: "get_at (f v) p = Some x" by (simp add: frames_def)
  show ?case
  proof (cases p)
    case Nil then show ?thesis using g Suc.prems(2) by (simp add: pwalk_leaf)
  next
    case (Cons s p')
    obtain c where c: "get_at (f v) [s] = Some c" "get_at c p' = Some x" using g Cons get_at_cons by blast
    have "apart (\<lambda>q. selects (Seg_Descent # segs) (s # q)) p'" using Suc.prems(3) Cons by (simp add: apart_cons)
    then have "apart (selects (Seg_Descent # segs)) p'" by (rule apart_mono) simp
    from Suc.IH [OF c(2) Suc.prems(2) this] show ?thesis by (simp add: Cons get_pwalk c)
  qed
qed

lemma frames_mask_at: "frames (selects segs) (mask_at segs)"
proof (induction segs)
  case Nil
  show ?case unfolding frames_def apart_def by (metis append_Nil selects.simps(1))
next
  case (Cons s segs)
  have foc: "get_at (focus a (mask_at segs) v) p = Some x"
    if "get_at v p = Some x" "leaf x" and ap: "\<And>p'. p = a # p' \<Longrightarrow> apart (selects segs) p'" for a v p x
  proof (cases "get_at v [a]")
    case None then show ?thesis using that by (simp add: focus_none)
  next
    case (Some c)
    show ?thesis
    proof (cases p)
      case Nil then show ?thesis using that upd_at_shape [OF Some] by auto
    next
      case (Cons b p')
      then show ?thesis using that Some \<open>frames (selects segs) (mask_at segs)\<close> get_at_cons [of v a p' x]
        by (auto simp: get_focus frames_def)
    qed
  qed
  show ?case unfolding frames_def
  proof (intro allI impI)
    fix v p x assume g: "get_at v p = Some x" "leaf x" and ap: "apart (selects (s # segs)) p"
    show "get_at (mask_at (s # segs) v) p = Some x"
    proof (cases s)
      case Seg_Descent
      then show ?thesis using frames_pdescend [OF Cons g] ap by simp
    next
      case Seg_Wildcard
      show ?thesis
      proof (cases p)
        case Nil then show ?thesis using g by (simp add: Seg_Wildcard pwalk_leaf)
      next
        case p: (Cons a p')
        obtain c where c: "get_at v [a] = Some c" "get_at c p' = Some x" using g p get_at_cons by blast
        have "apart (selects segs) p'" using ap by (simp add: p Seg_Wildcard apart_cons)
        then show ?thesis using Cons c g by (simp add: Seg_Wildcard p get_pwalk frames_def)
      qed
    next
      case (Seg_Key k)
      have "apart (selects segs) p'" if "p = At_Key k # p'" for p'
        using ap that by (simp add: Seg_Key apart_cons)
      then show ?thesis using foc [OF g, of "At_Key k"] by (simp add: Seg_Key mask_at_focus)
    next
      case (Seg_Index i)
      have "apart (selects segs) p'" if "p = At_Index i # p'" for p'
        using ap that by (simp add: Seg_Index apart_cons)
      then show ?thesis using foc [OF g, of "At_Index i"] by (simp add: Seg_Index mask_at_focus)
    qed
  qed
qed

section \<open>Properties\<close>

text \<open>C31: a mask rule masks every location its path selects: whatever value the tool was called with,
  after the rule no selected location can be read any more, because it, or something above it, is
  the mask. The rule cannot fail and draws no nonce.\<close>

theorem mask_rule_masks_every_selected_location:
  assumes "get_at v p = Some x" and "selects segs p"
  shows "\<exists>w. applyAtSegment env Rule_Mask segs v st = (Inr w, st) \<and> masked_above w p"
  using covers_mask_at [of segs] assms by (auto simp: applyAtSegment_mask wret_def covers_def)

definition sample_pii_env :: pii_env where
  "sample_pii_env = \<lparr>pe_crypto = \<lparr>pc_base64 = (\<lambda>t. t), pc_hmacHex = (\<lambda>k t. ''ab''), pc_sealed = (\<lambda>k n t. ''cd''),
     pc_sha256Hex = None\<rparr>, pe_secrets = None\<rparr>"

definition sample_walk :: walk_state where
  "sample_walk = \<lparr>wk_draws = 0, wk_fired = False\<rparr>"

definition sample_payload :: jval where
  "sample_payload = JObj [(''args'', JObj [(''email'', JStr ''a@b''), (''n'', JNum ''1'')]), (''cc'', JArr [JObj [(''email'', JStr ''c@d'')]])]"

theorem mask_rule_masks_every_selected_location_witness:
  "\<exists>w. applyAtSegment sample_pii_env Rule_Mask [Seg_Descent, Seg_Key ''email''] sample_payload sample_walk =
     (Inr w, sample_walk) \<and>
     masked_above w [At_Key ''cc'', At_Index 0, At_Key ''email'']"
  by (rule mask_rule_masks_every_selected_location [of _ _ "JStr ''c@d''"])
    (simp_all add: sample_payload_def get_at.simps(2))

text \<open>And nothing else: a leaf that the path selects neither directly nor through something above
  it is read back unchanged.\<close>

theorem mask_rule_touches_nothing_else:
  assumes "get_at v p = Some x" and "leaf x" and "\<forall>q r. p = q @ r \<longrightarrow> \<not> selects segs q"
  shows "\<exists>w. applyAtSegment env Rule_Mask segs v st = (Inr w, st) \<and> get_at w p = Some x"
  using frames_mask_at [of segs] assms by (auto simp: applyAtSegment_mask wret_def frames_def apart_def)

theorem mask_rule_touches_nothing_else_witness:
  "\<exists>w. applyAtSegment sample_pii_env Rule_Mask [Seg_Descent, Seg_Key ''email''] sample_payload sample_walk =
     (Inr w, sample_walk) \<and>
     get_at w [At_Key ''args'', At_Key ''n''] = Some (JNum ''1'')"
  by (rule mask_rule_touches_nothing_else)
    (auto simp: sample_payload_def get_at.simps(2) Cons_eq_append_conv)

end
