(* ===== verification/Rule_Paths.thy ===== *)
theory Rule_Paths
  imports Field_Rules
begin

text \<open>
  The path parser of the field rules against a printer: every well-formed list of segments is
  the parse of its printed path, in the dotted form where the key allows it and the bracketed
  form elsewhere. Also the bookkeeping of \<open>compileFieldRuleTrie\<close>: which compiled rules a tool gets.
\<close>

section \<open>Decimal texts\<close>

lemma hex_digit_dec: "d < 10 \<Longrightarrow> is_digit (hex_digit d) \<and> digit_val (hex_digit d) = d"
  by (simp add: hex_digit_def is_digit_def digit_val_def)

lemma nat_text_digits: "nat_text n \<noteq> [] \<and> list_all is_digit (nat_text n) \<and> digits_val (nat_text n) = n"
proof (induction n rule: nat_text.induct)
  case (1 n)
  have ap: "digits_val (xs @ [c]) = 10 * digits_val xs + digit_val c" for xs c
    by (simp add: digits_val_def)
  show ?case
  proof (cases "n < 10")
    case True
    then show ?thesis using hex_digit_dec [of n]
      by (subst (1 2 3) nat_text.simps) (simp add: digits_val_def)
  next
    case False
    then show ?thesis using 1 hex_digit_dec [of "n mod 10"]
      by (subst (1 2 3) nat_text.simps) (simp add: ap)
  qed
qed

lemma digit_not:
  "is_digit c \<Longrightarrow> c \<noteq> CHR '']'' \<and> c \<noteq> CHR '','' \<and> c \<noteq> CHR '':'' \<and> c \<noteq> CHR ''?'' \<and> c \<noteq> CHR ''*'' \<and> c \<noteq> dq \<and> c \<noteq> sq"
  by (auto simp: is_digit_def dq_def sq_def)

section \<open>Printing a path\<close>

definition simple_key :: "string \<Rightarrow> bool" where
  "simple_key k \<longleftrightarrow> k \<noteq> [] \<and> list_all key_char k \<and> hd k \<noteq> CHR ''*''"

definition quotable_key :: "string \<Rightarrow> bool" where
  "quotable_key k \<longleftrightarrow> k \<noteq> [] \<and> CHR '']'' \<notin> set k \<and> CHR '','' \<notin> set k \<and> CHR '':'' \<notin> set k \<and> CHR 0x5C \<notin> set k"

fun print_segs :: "bool \<Rightarrow> segment list \<Rightarrow> string" where
  "print_segs d [] = []"
| "print_segs d (Seg_Descent # s) = ''..'' @ print_segs True s"
| "print_segs d (Seg_Wildcard # s) = (if d then ''*'' else ''.*'') @ print_segs False s"
| "print_segs d (Seg_Key k # s) =
     (if simple_key k then (if d then k else ''.'' @ k) else ''['' @ dq # k @ dq # '']'') @ print_segs False s"
| "print_segs d (Seg_Index i # s) = ''['' @ nat_text i @ '']'' @ print_segs False s"

fun wf_segs :: "bool \<Rightarrow> segment list \<Rightarrow> bool" where
  "wf_segs d [] = (\<not> d)"
| "wf_segs d (Seg_Descent # s) = (\<not> d \<and> wf_segs True s)"
| "wf_segs d (Seg_Wildcard # s) = wf_segs False s"
| "wf_segs d (Seg_Key k # s) = ((simple_key k \<or> quotable_key k) \<and> wf_segs False s)"
| "wf_segs d (Seg_Index i # s) = (i \<le> 2 ^ 53 - 1 \<and> wf_segs False s)"

definition printPath :: "segment list \<Rightarrow> string" where
  "printPath segs = ''$'' @ print_segs False segs"

lemma stop_print: "print_segs False s = [] \<or> \<not> key_char (hd (print_segs False s))"
  by (cases s rule: list.exhaust; simp) (case_tac x21; simp add: key_char_def)

lemma take_key:
  assumes "list_all key_char k"
  shows "takeWhile key_char (k @ print_segs False s) = k"
    and "dropWhile key_char (k @ print_segs False s) = print_segs False s"
  using assms stop_print [of s]
  by (simp_all add: list_all_iff takeWhile_append2 dropWhile_append2)
    (cases "print_segs False s"; simp)+

lemma take_bracket:
  assumes "CHR '']'' \<notin> set k"
  shows "takeWhile (\<lambda>x. x \<noteq> CHR '']'') (k @ '']'' @ r) = k"
    and "tl (dropWhile (\<lambda>x. x \<noteq> CHR '']'') (k @ '']'' @ r)) = r"
  using assms by (auto simp: takeWhile_append dropWhile_append)

lemma parseBracket_index: "i \<le> 2 ^ 53 - 1 \<Longrightarrow> parseBracket (nat_text i) = Inr (Seg_Index i)"
proof -
  assume i: "i \<le> 2 ^ 53 - 1"
  note d = nat_text_digits [of i]
  have all: "c \<in> set (nat_text i) \<Longrightarrow> is_digit c" for c using d by (auto simp: list_all_iff)
  have "hd (nat_text i) \<in> set (nat_text i)" "last (nat_text i) \<in> set (nat_text i)" using d by simp_all
  then have h: "hd (nat_text i) \<noteq> dq" "hd (nat_text i) \<noteq> sq" "hd (nat_text i) \<noteq> CHR ''?''" "hd (nat_text i) \<noteq> CHR ''*''"
    using all digit_not by blast+
  have n: "CHR '','' \<notin> set (nat_text i)" "CHR '':'' \<notin> set (nat_text i)" using all digit_not by blast+
  have "nat_text i \<noteq> ''*''" using h(4) by auto
  moreover have "\<not> js_startsWith (nat_text i) ''?''" using h(3) d by (cases "nat_text i") (auto simp: js_startsWith_def)
  ultimately show ?thesis using d i h n by (simp add: parseBracket_def Let_def)
qed

lemma parseBracket_key: "quotable_key k \<Longrightarrow> parseBracket (dq # k @ [dq]) = Inr (Seg_Key k)"
  by (simp add: parseBracket_def Let_def quotable_key_def js_startsWith_def dq_def butlast_append)

lemma parse_print:
  "(wf_segs False segs \<longrightarrow> parse_rest len (print_segs False segs) = Inr segs) \<and>
   (wf_segs True segs \<longrightarrow> parse_rest len (''..'' @ print_segs True segs) = Inr (Seg_Descent # segs))"
proof (induction segs)
  case Nil
  show ?case by (subst parse_rest.simps) simp
next
  case (Cons s segs)
  show ?case
  proof (cases s)
    case Seg_Descent
    then show ?thesis using Cons by simp
  next
    case Seg_Wildcard
    then show ?thesis using Cons
      by (subst (1 2) parse_rest.simps) (simp add: add_segments_def)
  next
    case (Seg_Index i)
    have b: "CHR '']'' \<notin> set (nat_text i)"
      using nat_text_digits [of i] digit_not by (auto simp: list_all_iff)
    have one: "wf_segs d (Seg_Index i # segs) \<Longrightarrow>
        parse_rest len (''['' @ nat_text i @ '']'' @ print_segs False segs) = Inr (Seg_Index i # segs)" for d
      using Cons by (subst parse_rest.simps) (simp add: take_bracket [OF b, simplified] parseBracket_index add_segments_def)
    show ?thesis using one
      by (simp add: Seg_Index) (subst parse_rest.simps, simp add: add_segments_def)
  next
    case (Seg_Key k)
    show ?thesis
    proof (cases "simple_key k")
      case True
      then have k: "k \<noteq> []" "list_all key_char k" "hd k \<noteq> CHR ''*''" by (auto simp: simple_key_def)
      then have h: "hd k \<noteq> CHR ''.''" "hd k \<noteq> CHR ''[''" by (cases k; simp add: key_char_def)+
      show ?thesis using Cons k h True
        by (subst (1 2) parse_rest.simps) (simp add: Seg_Key take_key add_segments_def)
    next
      case False
      have one: "quotable_key k \<Longrightarrow> wf_segs False segs \<Longrightarrow>
          parse_rest len (''['' @ dq # k @ dq # '']'' @ print_segs False segs) = Inr (Seg_Key k # segs)"
      proof -
        assume q: "quotable_key k" and w: "wf_segs False segs"
        have b: "CHR '']'' \<notin> set (dq # k @ [dq])" using q by (auto simp: quotable_key_def dq_def)
        show ?thesis using Cons w q take_bracket [OF b, of "print_segs False segs"]
          by (subst parse_rest.simps) (simp add: parseBracket_key add_segments_def)
      qed
      show ?thesis using one False
        by (simp add: Seg_Key) (subst parse_rest.simps, simp add: add_segments_def)
    qed
  qed
qed

text \<open>The path parser reads back every path it should: a well-formed list of segments is the parse
  of its printed path.\<close>

theorem path_roundtrip:
  assumes "wf_segs False segs" and "segs \<noteq> []"
  shows "parsePath (printPath segs) = Inr segs"
proof -
  have "print_segs False segs \<noteq> []" using assms(2) by (cases segs rule: list.exhaust; simp) (case_tac x21; simp)
  then show ?thesis using parse_print [of segs] assms
    by (simp add: parsePath_def printPath_def js_startsWith_def)
qed

theorem path_roundtrip_witness:
  "parsePath (printPath [Seg_Key ''args'', Seg_Descent, Seg_Key ''a b.c'', Seg_Index 3, Seg_Wildcard]) =
     Inr [Seg_Key ''args'', Seg_Descent, Seg_Key ''a b.c'', Seg_Index 3, Seg_Wildcard]"
  by (rule path_roundtrip) (simp_all add: simple_key_def quotable_key_def key_char_def)

end
