(* ===== verification/Field_Rule_Trie.thy ===== *)
theory Field_Rule_Trie
  imports Field_Rules_Sound Rule_Paths
begin

text \<open>
  The compiled trie as a whole: for each tool it applies the rules of \<^verbatim>\<open>*\<close>, then the rules of the
  tool, in the order of the manifest, and a manifest of mask rules leaves no location readable
  that one of the tool's rules selects.
\<close>

definition rules_for :: "string \<Rightarrow> field_rule list \<Rightarrow> field_rule list" where
  "rules_for tool rules =
     filter (\<lambda>r. fr_tool r = ''*'') rules @ (if tool = ''*'' then [] else filter (\<lambda>r. fr_tool r = tool) rules)"

definition compiled :: "field_rule \<Rightarrow> compiled_rule" where
  "compiled r = \<lparr>cr_segments = (case parsePath (fr_path r) of Inr s \<Rightarrow> s | Inl _ \<Rightarrow> []), cr_mode = fr_mode r\<rparr>"

definition bucket_of :: "field_rule_trie \<Rightarrow> string \<Rightarrow> compiled_rule list" where
  "bucket_of t tool = (case jm_get (ft_byTool t) tool of Some b \<Rightarrow> b | None \<Rightarrow> [])"

lemma add_rule_buckets:
  "ft_wildcardTool (add_rule t r c) = ft_wildcardTool t @ (if fr_tool r = ''*'' then [c] else [])"
  "bucket_of (add_rule t r c) tool =
     bucket_of t tool @ (if fr_tool r \<noteq> ''*'' \<and> fr_tool r = tool then [c] else [])"
  by (auto simp: add_rule_def bucket_of_def jm_simps)

definition buckets_full :: "field_rule_trie \<Rightarrow> bool" where
  "buckets_full t \<longleftrightarrow> (\<forall>tool. jm_get (ft_byTool t) tool \<noteq> Some [])"

lemma buckets_full_add: "buckets_full t \<Longrightarrow> buckets_full (add_rule t r c)"
  by (auto simp: buckets_full_def add_rule_def jm_simps)

lemma compile_rules_buckets:
  assumes "compile_rules t rules = Inr trie" and "buckets_full t"
  shows "ft_wildcardTool trie = ft_wildcardTool t @ map compiled (filter (\<lambda>r. fr_tool r = ''*'') rules) \<and>
    (\<forall>tool. bucket_of trie tool = bucket_of t tool @
      (if tool = ''*'' then [] else map compiled (filter (\<lambda>r. fr_tool r = tool) rules))) \<and>
    (ft_empty trie \<longrightarrow> ft_wildcardTool trie = [] \<and> ft_byTool trie = [])"
  using assms
proof (induction rules arbitrary: t)
  case Nil
  then show ?case by (auto simp: bucket_of_def)
next
  case (Cons r rules)
  obtain segs where s: "parsePath (fr_path r) = Inr segs"
    and c: "compile_rules (add_rule t r \<lparr>cr_segments = segs, cr_mode = fr_mode r\<rparr>) rules = Inr trie"
    using Cons.prems(1) by (auto split: sum.splits)
  have e: "\<lparr>cr_segments = segs, cr_mode = fr_mode r\<rparr> = compiled r" by (simp add: compiled_def s)
  from Cons.IH [OF c buckets_full_add [OF Cons.prems(2)]] show ?case
    by (auto simp: add_rule_buckets e)
qed

lemma applyRules_append: "applyRules env (xs @ ys) v = wbind (applyRules env xs v) (applyRules env ys)"
  by (induction xs arbitrary: v) (auto simp: wbind_def intro!: ext split: prod.splits sum.splits)

text \<open>C32: the trie applies to a tool's payload exactly the compiled rules of \<^verbatim>\<open>*\<close> followed by those of the
  tool, each in manifest order, stopping at the first failure; compiling loses and reorders nothing.\<close>

theorem trie_applies_rules_in_order:
  assumes "compileFieldRuleTrie rules = Inr trie"
  shows "applyTrie env trie tool v = applyRules env (map compiled (rules_for tool rules)) v"
proof -
  note b = compile_rules_buckets [OF assms [unfolded compileFieldRuleTrie_def]]
  have w: "ft_wildcardTool trie = map compiled (filter (\<lambda>r. fr_tool r = ''*'') rules)"
    and t: "bucket_of trie tool = (if tool = ''*'' then [] else map compiled (filter (\<lambda>r. fr_tool r = tool) rules))"
    and e: "ft_empty trie \<longrightarrow> ft_wildcardTool trie = [] \<and> bucket_of trie tool = []"
    using b by (auto simp: buckets_full_def bucket_of_def)
  have r: "map compiled (rules_for tool rules) = ft_wildcardTool trie @ bucket_of trie tool"
    by (simp add: rules_for_def w t)
  show ?thesis unfolding r applyRules_append using e
    by (auto simp: applyTrie_def bucket_of_def [symmetric] Let_def)
qed

definition sample_rules :: "field_rule list" where
  "sample_rules = [\<lparr>fr_tool = ''mail'', fr_path = ''$..email'', fr_mode = Rule_Mask\<rparr>,
     \<lparr>fr_tool = ''*'', fr_path = ''$.args.n'', fr_mode = Rule_Mask\<rparr>]"

lemma sample_paths:
  "parsePath ''$..email'' = Inr [Seg_Descent, Seg_Key ''email'']"
  "parsePath ''$.args.n'' = Inr [Seg_Key ''args'', Seg_Key ''n'']"
  by code_simp+

definition sample_trie :: field_rule_trie where
  "sample_trie = \<lparr>ft_byTool = [(''mail'', [\<lparr>cr_segments = [Seg_Descent, Seg_Key ''email''], cr_mode = Rule_Mask\<rparr>])],
     ft_wildcardTool = [\<lparr>cr_segments = [Seg_Key ''args'', Seg_Key ''n''], cr_mode = Rule_Mask\<rparr>], ft_empty = False\<rparr>"

lemma sample_compiles: "compileFieldRuleTrie sample_rules = Inr sample_trie"
  by (simp add: compileFieldRuleTrie_def sample_rules_def sample_paths add_rule_def sample_trie_def)

theorem trie_applies_rules_in_order_witness:
  "applyTrie sample_pii_env sample_trie ''mail'' sample_payload =
     applyRules sample_pii_env (map compiled (rules_for ''mail'' sample_rules)) sample_payload"
  by (rule trie_applies_rules_in_order [OF sample_compiles])

section \<open>A manifest of mask rules\<close>

lemma applyRules_mask:
  "\<forall>r \<in> set rs. cr_mode r = Rule_Mask \<Longrightarrow>
     applyRules env rs v = wret (fold (\<lambda>r. mask_at (cr_segments r)) rs v)"
  by (induction rs arbitrary: v) (simp_all add: applyAtSegment_mask)

lemma fold_masked: "masked_above v p \<Longrightarrow> masked_above (fold (\<lambda>r. mask_at (cr_segments r)) rs v) p"
  by (induction rs arbitrary: v) (simp_all add: keeps_masked [OF keeps_mask_at])

lemma fold_covers:
  assumes "r \<in> set rs" and "selects (cr_segments r) p" and "get_at v p = Some x"
  shows "masked_above (fold (\<lambda>r. mask_at (cr_segments r)) rs v) p"
  using assms
proof (induction rs arbitrary: v x)
  case (Cons r' rs)
  show ?case
  proof (cases "masked_above (mask_at (cr_segments r') v) p")
    case True then show ?thesis by (simp add: fold_masked)
  next
    case False
    then have "r' \<noteq> r" using covers_mask_at Cons.prems unfolding covers_def by blast
    moreover obtain y where "get_at (mask_at (cr_segments r') v) p = Some y"
      using keeps_mask_at Cons.prems(3) False unfolding keeps_def by blast
    ultimately show ?thesis using Cons.IH Cons.prems by simp
  qed
qed simp

text \<open>With a manifest of mask rules, whatever order they come in and whatever the other rules do
  first, a location that a rule for the tool (or for \<^verbatim>\<open>*\<close>) selects cannot be read after the trie ran.\<close>

theorem trie_masks_what_a_rule_selects:
  assumes "compileFieldRuleTrie rules = Inr trie" and "\<forall>r \<in> set rules. fr_mode r = Rule_Mask"
    and "r \<in> set rules" and "fr_tool r = tool \<or> fr_tool r = ''*''"
    and "selects (cr_segments (compiled r)) p" and "get_at v p = Some x"
  shows "\<exists>w. applyTrie env trie tool v st = (Inr w, st) \<and> masked_above w p"
proof -
  have m: "\<forall>c \<in> set (map compiled (rules_for tool rules)). cr_mode c = Rule_Mask"
    using assms(2) by (auto simp: rules_for_def compiled_def split: if_splits)
  have "compiled r \<in> set (map compiled (rules_for tool rules))"
    using assms(3,4) by (auto simp: rules_for_def)
  from fold_covers [OF this assms(5,6)] show ?thesis
    by (simp add: trie_applies_rules_in_order [OF assms(1)] applyRules_mask [OF m] wret_def)
qed

theorem trie_masks_what_a_rule_selects_witness:
  "\<exists>w. applyTrie sample_pii_env sample_trie ''mail'' sample_payload sample_walk = (Inr w, sample_walk) \<and>
     masked_above w [At_Key ''cc'', At_Index 0, At_Key ''email'']"
  by (rule trie_masks_what_a_rule_selects [OF sample_compiles, where r = "sample_rules ! 0"])
    (simp_all add: sample_rules_def compiled_def sample_paths sample_payload_def get_at.simps(2))

end

