(* ===== verification/Pii_Pipeline.thy ===== *)
theory Pii_Pipeline
  imports Field_Rule_Trie Tool_Evaluation
begin

text \<open>
  Layer 2 and the orchestrator: \<^verbatim>\<open>pii/text-scanner.ts\<close>, \<^verbatim>\<open>pii/pipeline.ts\<close>, the module state of
  \<^verbatim>\<open>pii/trie-state.ts\<close> and \<^verbatim>\<open>pii/scanner-state.ts\<close>, and the gate every audit row of the tool-call
  client goes through (\<open>postAuditEvent\<close> in \<^verbatim>\<open>evaluation/cedar-client.ts\<close>). A regular expression is an
  argument: its global \<^verbatim>\<open>replace\<close> and the text of its first match; so are the engine that compiles one
  (\<^const>\<open>None\<close> where \<^verbatim>\<open>new RegExp\<close> throws) and the generated table of default patterns. On trees the
  walk's set of visited objects never fires, so it is left out.
\<close>

section \<open>The scanner\<close>

record regex =
  rx_replace :: "string \<Rightarrow> string \<Rightarrow> string"
  rx_exec :: "string \<Rightarrow> string option"

record embedded_pattern =
  ep_id :: string
  ep_severity :: string
  ep_regexSource :: string
  ep_regexFlags :: string

record compiled_pattern =
  cp_id :: string
  cp_regex :: regex
  cp_severity :: string

type_synonym scanner = "compiled_pattern list"

record custom_pattern =
  cu_id :: string
  cu_pattern :: string
  cu_severity :: "string option"

record scanner_config =
  sn_enabled :: bool
  sn_patterns :: "string list option"
  sn_custom :: "custom_pattern list option"

fun compile_all :: "(string \<Rightarrow> string \<Rightarrow> regex option) \<Rightarrow> (string \<times> string \<times> string \<times> string) list \<Rightarrow> scanner option" where
  "compile_all engine [] = Some []"
| "compile_all engine ((i, src, flags, sev) # ps) =
     (case engine src flags of
        None \<Rightarrow> None
      | Some rx \<Rightarrow> map_option (Cons \<lparr>cp_id = i, cp_regex = rx, cp_severity = sev\<rparr>) (compile_all engine ps))"

definition compileScanner :: "(string \<Rightarrow> string \<Rightarrow> regex option) \<Rightarrow> embedded_pattern list \<Rightarrow>
    scanner_config option \<Rightarrow> scanner option" where
  "compileScanner engine default_patterns cfg =
     (if (case cfg of Some c \<Rightarrow> \<not> sn_enabled c | None \<Rightarrow> False) then Some []
      else
        (let defaults = (case Option.bind cfg sn_patterns of
               Some ids \<Rightarrow> filter (\<lambda>p. ep_id p \<in> set ids) default_patterns | None \<Rightarrow> default_patterns);
             custom = (case Option.bind cfg sn_custom of Some cs \<Rightarrow> cs | None \<Rightarrow> [])
         in compile_all engine
           (map (\<lambda>p. (ep_id p, ep_regexSource p, ep_regexFlags p, ep_severity p)) defaults @
            map (\<lambda>c. (cu_id c, cu_pattern c, ''g'', case cu_severity c of Some s \<Rightarrow> s | None \<Rightarrow> ''medium'')) custom)))"

definition scan_pass :: "scanner \<Rightarrow> string \<Rightarrow> string" where
  "scan_pass ps text = foldl (\<lambda>out p. rx_replace (cp_regex p) out (''***'' @ cp_id p @ ''***'')) text ps"

fun scan_loop :: "nat \<Rightarrow> scanner \<Rightarrow> string \<Rightarrow> string" where
  "scan_loop 0 ps out = out"
| "scan_loop (Suc n) ps out = (let out' = scan_pass ps out in if out' = out then out' else scan_loop n ps out')"

definition scanAndMask :: "string \<Rightarrow> scanner \<Rightarrow> string" where
  "scanAndMask text ps = (if ps = [] \<or> text = [] then text else scan_loop 4 ps text)"

datatype pii_error = Self_Check_Failed string string | Pii_Error string

text \<open>The sample ends in an ellipsis when the match was cut (\<^verbatim>\<open>...\<close> stands for that character).\<close>

fun selfCheck :: "string \<Rightarrow> scanner \<Rightarrow> pii_error option" where
  "selfCheck masked [] = None"
| "selfCheck masked (p # ps) =
     (case rx_exec (cp_regex p) masked of
        Some m \<Rightarrow>
          if m \<noteq> [] then
            Some (Self_Check_Failed (cp_id p) (if length m > 30 then take 30 m @ ''...'' else m))
          else selfCheck masked ps
      | None \<Rightarrow> selfCheck masked ps)"

section \<open>The pipeline\<close>

record pii_state =
  pi_env :: pii_env
  pi_trie :: "field_rule_trie option"
  pi_scanner :: "scanner option"

definition getActiveFieldRuleTrie :: "pii_state \<Rightarrow> field_rule_trie" where
  "getActiveFieldRuleTrie s = (case pi_trie s of Some t \<Rightarrow> t
     | None \<Rightarrow> \<lparr>ft_byTool = [], ft_wildcardTool = [], ft_empty = True\<rparr>)"

definition getActiveTextScanner :: "pii_state \<Rightarrow> scanner" where
  "getActiveTextScanner s = (case pi_scanner s of Some sc \<Rightarrow> sc | None \<Rightarrow> [])"

definition isPiiPipelineNoOp :: "pii_state \<Rightarrow> bool" where
  "isPiiPipelineNoOp s \<longleftrightarrow> ft_empty (getActiveFieldRuleTrie s) \<and> getActiveTextScanner s = []"

fun walkStrings :: "(string \<Rightarrow> string) \<Rightarrow> jval \<Rightarrow> jval" where
  "walkStrings f (JStr s) = JStr (f s)"
| "walkStrings f (JArr vs) = JArr (map (walkStrings f) vs)"
| "walkStrings f (JObj kvs) = JObj (map (\<lambda>(k, v). (k, walkStrings f v)) kvs)"
| "walkStrings f v = v"

fun first_error :: "pii_error option list \<Rightarrow> pii_error option" where
  "first_error [] = None"
| "first_error (e # es) = (case e of Some x \<Rightarrow> Some x | None \<Rightarrow> first_error es)"

fun walkStringsReadOnly :: "scanner \<Rightarrow> jval \<Rightarrow> pii_error option" where
  "walkStringsReadOnly ps (JStr s) = selfCheck s ps"
| "walkStringsReadOnly ps (JArr vs) = first_error (map (walkStringsReadOnly ps) vs)"
| "walkStringsReadOnly ps (JObj kvs) = first_error (map (\<lambda>(k, v). walkStringsReadOnly ps v) kvs)"
| "walkStringsReadOnly ps v = None"

definition runPiiPipeline :: "pii_state \<Rightarrow> nat \<Rightarrow> jval \<Rightarrow> string \<Rightarrow> (pii_error + jval \<times> string option) \<times> nat" where
  "runPiiPipeline s draws detail tool =
     (let (r, st) = applyTrie (pi_env s) (getActiveFieldRuleTrie s) tool detail \<lparr>wk_draws = draws, wk_fired = False\<rparr>;
          scanner = getActiveTextScanner s in
      case r of
        Inl e \<Rightarrow> (Inl (Pii_Error e), wk_draws st)
      | Inr masked \<Rightarrow>
          let masked = (if scanner \<noteq> [] then walkStrings (\<lambda>t. scanAndMask t scanner) masked else masked) in
          case (if scanner \<noteq> [] then walkStringsReadOnly scanner masked else None) of
            Some e \<Rightarrow> (Inl e, wk_draws st)
          | None \<Rightarrow>
              (Inr (masked, if wk_fired st then getActiveKeyFingerprint (pe_crypto (pi_env s)) (pe_secrets (pi_env s))
                 else None), wk_draws st))"

section \<open>The gate before the wire\<close>

record sent_audit =
  sa_event :: tool_audit
  sa_detail :: jval
  sa_pii_key_id :: "string option"

text \<open>What \<open>postAuditEvent\<close> puts on the wire, \<^const>\<open>None\<close> when it drops the row.\<close>

definition postAuditEvent :: "pii_state \<Rightarrow> nat \<Rightarrow> tool_audit \<Rightarrow> sent_audit option \<times> nat" where
  "postAuditEvent s draws event =
     (let detail = JObj (ta_detail event) in
      if isPiiPipelineNoOp s then (Some \<lparr>sa_event = event, sa_detail = detail, sa_pii_key_id = None\<rparr>, draws)
      else (case runPiiPipeline s draws detail (ta_tool event) of
          (Inl _, d) \<Rightarrow> (None, d)
        | (Inr (scrubbed, key), d) \<Rightarrow>
            (Some \<lparr>sa_event = event, sa_detail = scrubbed, sa_pii_key_id = key\<rparr>, d)))"

section \<open>String leaves\<close>

fun string_leaves :: "jval \<Rightarrow> string list" where
  "string_leaves (JStr s) = [s]"
| "string_leaves (JArr vs) = concat (map string_leaves vs)"
| "string_leaves (JObj kvs) = concat (map (\<lambda>(k, v). string_leaves v) kvs)"
| "string_leaves v = []"

definition clean :: "scanner \<Rightarrow> string \<Rightarrow> bool" where
  "clean ps t \<longleftrightarrow> (\<forall>p \<in> set ps. rx_exec (cp_regex p) t = None \<or> rx_exec (cp_regex p) t = Some [])"

lemma selfCheck_clean: "selfCheck t ps = None \<longleftrightarrow> clean ps t"
  by (induction ps) (auto simp: clean_def split: option.splits)

lemma first_error_None: "first_error es = None \<longleftrightarrow> (\<forall>e \<in> set es. e = None)"
  by (induction es) (auto split: option.splits)

lemma read_only_clean: "walkStringsReadOnly ps v = None \<longleftrightarrow> (\<forall>t \<in> set (string_leaves v). clean ps t)"
  by (induction v rule: string_leaves.induct) (auto simp: selfCheck_clean first_error_None)

lemma pipeline_clean:
  "runPiiPipeline s d v tool = (Inr (w, key), d') \<Longrightarrow> t \<in> set (string_leaves w) \<Longrightarrow> clean (getActiveTextScanner s) t"
  by (cases "getActiveTextScanner s = []")
    (auto simp: runPiiPipeline_def Let_def read_only_clean clean_def split: prod.splits sum.splits option.splits if_splits)

section \<open>Unkeyed rules\<close>

lemma wmap_unkeyed:
  assumes "\<And>x st. \<exists>w. f x st = (Inr w, st)"
  shows "\<exists>ws. wmap f xs st = (Inr ws, st)"
proof (induction xs)
  case (Cons x xs)
  obtain w where "f x st = (Inr w, st)" using assms by blast
  with Cons show ?case by (auto simp: wbind_def wret_def)
qed (simp add: wret_def)

lemma walkChildren_unkeyed:
  assumes "\<And>x st. \<exists>w. f x st = (Inr w, st)"
  shows "\<exists>w. walkChildren f v st = (Inr w, st)"
proof -
  have p: "\<exists>w. (case p of (k, x) \<Rightarrow> wbind (f x) (\<lambda>y. wret (k, y))) st = (Inr w, st)" for p :: "string \<times> jval" and st
    using assms [of "snd p" st] by (auto simp: wbind_def wret_def split: prod.splits)
  show ?thesis
  proof (cases v)
    case (JArr vs)
    then show ?thesis using wmap_unkeyed [of f vs st] assms by (auto simp: walkChildren_def wbind_def wret_def)
  next
    case (JObj kvs)
    obtain ws where "wmap (\<lambda>p. case p of (k, x) \<Rightarrow> wbind (f x) (\<lambda>y. wret (k, y))) kvs st = (Inr ws, st)"
      using wmap_unkeyed [of "\<lambda>p. case p of (k, x) \<Rightarrow> wbind (f x) (\<lambda>y. wret (k, y))" kvs st] p by blast
    then show ?thesis by (simp add: JObj walkChildren_def wbind_def wret_def)
  qed (simp_all add: walkChildren_def wret_def)
qed

lemma descend_unkeyed:
  "(\<And>x st. \<exists>w. f x st = (Inr w, st)) \<Longrightarrow> \<exists>w. descend f n v st = (Inr w, st)"
proof (induction n arbitrary: v st)
  case (Suc n)
  obtain w where w: "f v st = (Inr w, st)" using Suc.prems by blast
  have "\<exists>u. walkChildren (descend f n) w st = (Inr u, st)"
    using Suc.IH [OF Suc.prems] by (rule walkChildren_unkeyed)
  then show ?case using w by (simp add: wbind_def)
qed simp

lemma rule_unkeyed:
  assumes "mode = Rule_Drop \<or> mode = Rule_Mask"
  shows "\<exists>w. applyAtSegment env mode segs v st = (Inr w, st)"
proof (induction segs arbitrary: v st)
  case Nil
  show ?case using assms by (auto simp: applyMode_def)
next
  case (Cons s segs)
  have b: "\<exists>w. wbind (applyAtSegment env mode segs x) (\<lambda>y. wret (g y)) st = (Inr w, st)" for x g
    using Cons [of x st] by (auto simp: wbind_def wret_def)
  show ?case
    using descend_unkeyed [OF Cons] walkChildren_unkeyed [OF Cons] b
    by (cases s) (auto simp: wret_def split: jval.splits option.splits)
qed

lemma rules_unkeyed:
  "\<forall>r \<in> set rs. cr_mode r = Rule_Drop \<or> cr_mode r = Rule_Mask \<Longrightarrow> \<exists>w. applyRules env rs v st = (Inr w, st)"
proof (induction rs arbitrary: v)
  case (Cons r rs)
  obtain w where "applyAtSegment env (cr_mode r) (cr_segments r) v st = (Inr w, st)"
    using rule_unkeyed [of "cr_mode r" env "cr_segments r" v st] Cons.prems by auto
  then show ?case using Cons by (simp add: wbind_def)
qed (simp add: wret_def)

section \<open>Properties\<close>

text \<open>C28: fail-closed masking: in the detail of a row that reaches the wire no active pattern matches any string value (at
  any depth; the names of properties are not scanned, and the row's other fields are sent as they are), and a row
  is dropped exactly where a pipeline is active and the masking or the check after it fails.\<close>

theorem sent_rows_are_clean:
  "(\<forall>sent. fst (postAuditEvent s d event) = Some sent \<longrightarrow>
      (\<forall>t \<in> set (string_leaves (sa_detail sent)). clean (getActiveTextScanner s) t)) \<and>
    (fst (postAuditEvent s d event) = None \<longleftrightarrow>
      \<not> isPiiPipelineNoOp s \<and> isl (fst (runPiiPipeline s d (JObj (ta_detail event)) (ta_tool event))))"
proof (cases "isPiiPipelineNoOp s")
  case True
  then show ?thesis by (simp add: postAuditEvent_def isPiiPipelineNoOp_def clean_def Let_def)
next
  case False
  then show ?thesis using pipeline_clean [of s d "JObj (ta_detail event)" "ta_tool event"]
    by (auto simp: postAuditEvent_def Let_def split: prod.splits sum.splits)
qed

definition sample_regex :: regex where
  "sample_regex = \<lparr>rx_replace = (\<lambda>t r. if t = ''a@b'' then r else t),
     rx_exec = (\<lambda>t. if t = ''a@b'' then Some t else None)\<rparr>"

definition sample_pii :: pii_state where
  "sample_pii = \<lparr>pi_env = sample_pii_env, pi_trie = Some sample_trie,
     pi_scanner = Some [\<lparr>cp_id = ''email'', cp_regex = sample_regex, cp_severity = ''medium''\<rparr>]\<rparr>"

definition sample_row :: "(string \<times> jval) list \<Rightarrow> tool_audit" where
  "sample_row detail = emitMcpAudit ''a1'' \<lparr>cx_sessionId = None, cx_userId = None\<rparr> ''mcp_tool_call'' ''mail'' ''allow'' (Some detail)"

lemma sample_sent:
  "postAuditEvent sample_pii 0 (sample_row [(''to'', JStr ''a@b''), (''a@b'', JStr ''x'')]) =
     (Some \<lparr>sa_event = sample_row [(''to'', JStr ''a@b''), (''a@b'', JStr ''x'')],
        sa_detail = JObj [(''to'', JStr ''***email***''), (''a@b'', JStr ''x'')], sa_pii_key_id = None\<rparr>, 0)"
proof -
  have k: "jm_get (ft_byTool sample_trie) ''mail'' = Some [\<lparr>cr_segments = [Seg_Descent, Seg_Key ''email''], cr_mode = Rule_Mask\<rparr>]"
    by (simp add: sample_trie_def)
  show ?thesis
    by (simp add: postAuditEvent_def isPiiPipelineNoOp_def getActiveFieldRuleTrie_def getActiveTextScanner_def
        sample_pii_def sample_row_def emitMcpAudit_def runPiiPipeline_def applyTrie_def k Let_def)
      (simp add: sample_trie_def applyAtSegment_mask wret_def pwalk_def scanAndMask_def scan_pass_def
        sample_regex_def numeral_eq_Suc Let_def wbind_def)
qed

lemma sample_no_op: "\<not> isPiiPipelineNoOp sample_pii"
  by (simp add: isPiiPipelineNoOp_def sample_pii_def getActiveTextScanner_def)

theorem sent_rows_are_clean_witness:
  "\<exists>sent. fst (postAuditEvent sample_pii 0 (sample_row [(''to'', JStr ''a@b''), (''a@b'', JStr ''x'')])) = Some sent \<and>
     string_leaves (sa_detail sent) = [''***email***'', ''x''] \<and>
     (\<forall>t \<in> set (string_leaves (sa_detail sent)). clean (getActiveTextScanner sample_pii) t) \<and>
     \<not> clean (getActiveTextScanner sample_pii) ''a@b''"
proof -
  have "\<not> clean (getActiveTextScanner sample_pii) ''a@b''"
    by (simp add: clean_def sample_pii_def getActiveTextScanner_def sample_regex_def)
  moreover have "\<forall>sent. fst (postAuditEvent sample_pii 0 (sample_row [(''to'', JStr ''a@b''), (''a@b'', JStr ''x'')])) = Some sent \<longrightarrow>
      (\<forall>t \<in> set (string_leaves (sa_detail sent)). clean (getActiveTextScanner sample_pii) t)"
    by (rule sent_rows_are_clean [THEN conjunct1])
  ultimately show ?thesis by (simp add: sample_sent)
qed

fun object_keys :: "jval \<Rightarrow> string list" where
  "object_keys (JArr vs) = concat (map object_keys vs)"
| "object_keys (JObj kvs) = concat (map (\<lambda>(k, v). k # object_keys v) kvs)"
| "object_keys v = []"

lemma object_keys_walkStrings: "object_keys (walkStrings f v) = object_keys v"
  by (induction v rule: object_keys.induct)
    (auto simp: comp_def case_prod_unfold intro!: arg_cong [where f = concat] map_cong)

text \<open>Only values are scanned: with no field rules, every object key of the row reaches the wire as
  it is, also one that a pattern matches.\<close>

theorem object_keys_are_not_masked:
  assumes "postAuditEvent s d event = (Some sent, d')" and "pi_trie s = None"
  shows "object_keys (sa_detail sent) = object_keys (JObj (ta_detail event))"
  using assms
  by (auto simp: postAuditEvent_def runPiiPipeline_def applyTrie_def getActiveFieldRuleTrie_def wret_def
      object_keys_walkStrings Let_def simp del: object_keys.simps walkStrings.simps walkStringsReadOnly.simps
      split: if_splits option.splits prod.splits sum.splits)

theorem object_keys_are_not_masked_witness:
  "\<exists>sent d'. postAuditEvent (sample_pii\<lparr>pi_trie := None\<rparr>) 0 (sample_row [(''a@b'', JStr ''x'')]) = (Some sent, d') \<and>
     object_keys (sa_detail sent) = [''a@b'']"
proof -
  have "postAuditEvent (sample_pii\<lparr>pi_trie := None\<rparr>) 0 (sample_row [(''a@b'', JStr ''x'')]) =
      (Some \<lparr>sa_event = sample_row [(''a@b'', JStr ''x'')], sa_detail = JObj [(''a@b'', JStr ''x'')],
         sa_pii_key_id = None\<rparr>, 0)"
    by (simp add: postAuditEvent_def isPiiPipelineNoOp_def getActiveFieldRuleTrie_def getActiveTextScanner_def
        sample_pii_def sample_row_def emitMcpAudit_def runPiiPipeline_def applyTrie_def Let_def wret_def
        scanAndMask_def scan_pass_def sample_regex_def numeral_eq_Suc)
  with object_keys_are_not_masked [OF this] show ?thesis by (simp add: sample_row_def emitMcpAudit_def)
qed

text \<open>A row carries a key fingerprint only when a keyed mode can have run: under a manifest of drop
  and mask rules it never does, even with secrets loaded.\<close>

theorem unkeyed_rules_send_no_fingerprint:
  assumes "compileFieldRuleTrie rules = Inr trie" and "\<forall>r \<in> set rules. fr_mode r = Rule_Drop \<or> fr_mode r = Rule_Mask"
    and "pi_trie s = Some trie" and "postAuditEvent s d event = (Some sent, d')"
  shows "sa_pii_key_id sent = None \<and> d' = d"
proof -
  have "\<forall>c \<in> set (map compiled (rules_for (ta_tool event) rules)). cr_mode c = Rule_Drop \<or> cr_mode c = Rule_Mask"
    using assms(2) by (auto simp: rules_for_def compiled_def split: if_splits)
  from rules_unkeyed [OF this] obtain w where
    "applyTrie (pi_env s) trie (ta_tool event) (JObj (ta_detail event)) \<lparr>wk_draws = d, wk_fired = False\<rparr> =
      (Inr w, \<lparr>wk_draws = d, wk_fired = False\<rparr>)"
    using trie_applies_rules_in_order [OF assms(1)] by metis
  then show ?thesis using assms(3,4)
    by (auto simp: postAuditEvent_def runPiiPipeline_def getActiveFieldRuleTrie_def Let_def
        split: if_splits option.splits)
qed

theorem unkeyed_rules_send_no_fingerprint_witness:
  "sa_pii_key_id \<lparr>sa_event = sample_row [(''to'', JStr ''a@b''), (''a@b'', JStr ''x'')],
     sa_detail = JObj [(''to'', JStr ''***email***''), (''a@b'', JStr ''x'')], sa_pii_key_id = None\<rparr> = None \<and> (0 :: nat) = 0"
  by (rule unkeyed_rules_send_no_fingerprint [OF sample_compiles _ _ sample_sent])
    (simp_all add: sample_rules_def sample_pii_def)

end
