(* ===== verification/Derived_Template.thy ===== *)
theory Derived_Template
  imports Js_Value
begin

text \<open>
  \<^verbatim>\<open>instrumentation/derived-template.ts\<close>: the template language of derived dimensions, its
  tokenizer, the parsers of an interpolation, of a pipe operator and of its quoted argument, and the
  evaluator. A \<^verbatim>\<open>TemplateParseError\<close> is a left value (its text without the prefix \<^verbatim>\<open>derived-template: \<close>). The
  regular expression engine is a parameter: the error of compiling a pattern, and the match of a text
  with its first group.
\<close>

section \<open>Syntax\<close>

datatype tmpl_op = Op_Regex_Extract string | Op_Lowercase | Op_Uppercase | Op_Default string

datatype tmpl_segment = Tseg_Literal string | Tseg_Interp string "tmpl_op list"

definition t_quote :: char where "t_quote = CHR 0x22"
definition t_escape :: char where "t_escape = CHR 0x5C"

definition in_ticks :: "string \<Rightarrow> string" where
  "in_ticks s = [CHR 0x27] @ s @ [CHR 0x27]"

definition ident_start :: "char \<Rightarrow> bool" where
  "ident_start c \<longleftrightarrow> is_lower c \<or> is_upper c \<or> c = CHR ''_''"

definition ident_char :: "char \<Rightarrow> bool" where
  "ident_char c \<longleftrightarrow> ident_start c \<or> is_digit c"

text \<open>\<^verbatim>\<open>/^[A-Za-z_][A-Za-z0-9_]*$/\<close>\<close>

definition dim_ident :: "string \<Rightarrow> bool" where
  "dim_ident s \<longleftrightarrow> s \<noteq> [] \<and> ident_start (hd s) \<and> list_all ident_char s"

section \<open>Parsing\<close>

text \<open>The scan for the closing brace, outside quotes: the inner text and the text after the brace.\<close>

fun interp_scan :: "bool \<Rightarrow> bool \<Rightarrow> string \<Rightarrow> (string \<times> string) option" where
  "interp_scan inQuote esc [] = None"
| "interp_scan inQuote esc (ch # s) =
     (if esc then map_option (apfst (Cons ch)) (interp_scan inQuote False s)
      else if ch = t_escape \<and> inQuote then map_option (apfst (Cons ch)) (interp_scan inQuote True s)
      else if ch = t_quote then map_option (apfst (Cons ch)) (interp_scan (\<not> inQuote) False s)
      else if ch = CHR ''}'' \<and> \<not> inQuote then Some ([], s)
      else map_option (apfst (Cons ch)) (interp_scan inQuote False s))"

definition on_head :: "char \<Rightarrow> string list \<Rightarrow> string list" where
  "on_head c ps = (case ps of [] \<Rightarrow> [[c]] | p # ps \<Rightarrow> (c # p) # ps)"

text \<open>The split on \<^verbatim>\<open>|\<close> outside quotes.\<close>

fun split_pipes :: "bool \<Rightarrow> bool \<Rightarrow> string \<Rightarrow> string list" where
  "split_pipes inQuote esc [] = [[]]"
| "split_pipes inQuote esc (ch # s) =
     (if esc then on_head ch (split_pipes inQuote False s)
      else if inQuote then
        (if ch = t_escape then on_head ch (split_pipes True True s)
         else on_head ch (split_pipes (ch \<noteq> t_quote) False s))
      else if ch = t_quote then on_head ch (split_pipes True False s)
      else if ch = CHR ''|'' then [] # split_pipes False False s
      else on_head ch (split_pipes False False s))"

text \<open>The text up to the closing quote, unescaped, and the rest; \<^const>\<open>None\<close> when there is no closing quote.\<close>

fun quoted_rest :: "string \<Rightarrow> string + (string \<times> string) option" where
  "quoted_rest [] = Inr None"
| "quoted_rest (ch # s) =
     (if ch = t_escape then
        (case s of
           [] \<Rightarrow> Inl (''invalid escape '' @ in_ticks [t_escape])
         | next # s' \<Rightarrow>
             if next = t_escape \<or> next = t_quote then map_sum id (map_option (apfst (Cons next))) (quoted_rest s')
             else Inl (''invalid escape '' @ in_ticks [t_escape, next]))
      else if ch = t_quote then Inr (Some ([], s))
      else map_sum id (map_option (apfst (Cons ch))) (quoted_rest s))"

definition parseQuotedArg :: "string \<Rightarrow> string + string" where
  "parseQuotedArg src =
     (if src = [] \<or> hd src \<noteq> t_quote then
        Inl (''expected '' @ in_ticks [t_quote] @ '' at start of arg; got '' @ in_ticks src)
      else case quoted_rest (tl src) of
        Inl e \<Rightarrow> Inl e
      | Inr None \<Rightarrow> Inl (''unterminated quoted arg in '' @ in_ticks src)
      | Inr (Some (out, rest)) \<Rightarrow>
          if js_trim rest \<noteq> [] then Inl (''trailing characters after quoted arg: '' @ in_ticks rest)
          else Inr out)"

definition parseOp :: "string \<Rightarrow> string + tmpl_op" where
  "parseOp spec =
     (if spec = [] then Inl ''empty pipe operator''
      else if \<not> ident_start (hd spec) then Inl (''unparseable pipe operator '' @ in_ticks spec)
      else
        (let name = takeWhile ident_char spec; rest = js_trim (dropWhile ident_char spec) in
         if name = ''lowercase'' \<or> name = ''uppercase'' then
           (if rest \<noteq> [] then Inl (in_ticks name @ '' takes no argument; got '' @ in_ticks rest)
            else Inr (if name = ''lowercase'' then Op_Lowercase else Op_Uppercase))
         else if name = ''regex_extract'' \<or> name = ''default'' then
           (if rest = [] then Inl (in_ticks name @ '' requires a quoted argument'')
            else map_sum id (if name = ''regex_extract'' then Op_Regex_Extract else Op_Default) (parseQuotedArg rest))
         else Inl (''unknown pipe operator '' @ in_ticks name)))"

fun parse_ops :: "string list \<Rightarrow> string + tmpl_op list" where
  "parse_ops [] = Inr []"
| "parse_ops (p # ps) =
     (case parseOp (js_trim p) of Inl e \<Rightarrow> Inl e | Inr op \<Rightarrow> map_sum id (Cons op) (parse_ops ps))"

definition parseInterpolation :: "string \<Rightarrow> string + tmpl_segment" where
  "parseInterpolation inner =
     (let parts = split_pipes False False inner; first = js_trim (hd parts) in
      if first = [] then Inl ''empty dimension name in interpolation''
      else if \<not> dim_ident first then Inl (''invalid dimension name '' @ in_ticks first)
      else map_sum id (Tseg_Interp first) (parse_ops (tl parts)))"

definition flush_literal :: "string \<Rightarrow> tmpl_segment list" where
  "flush_literal lit = (if lit \<noteq> [] then [Tseg_Literal lit] else [])"

lemma interp_scan_shorter: "interp_scan q e s = Some (inner, rest) \<Longrightarrow> length rest < length s"
  by (induction q e s arbitrary: inner rule: interp_scan.induct) (fastforce split: if_splits)+

function tokenize_from :: "string \<Rightarrow> string \<Rightarrow> string \<Rightarrow> string + tmpl_segment list" where
  "tokenize_from tmpl lit s =
     (case s of
        [] \<Rightarrow> Inr (flush_literal lit)
      | c # r \<Rightarrow>
          if c = CHR ''$'' \<and> r \<noteq> [] \<and> hd r = CHR ''{'' then
            (case interp_scan False False (tl r) of
               None \<Rightarrow> Inl (''unterminated interpolation in '' @ json_quote tmpl)
             | Some (inner, rest) \<Rightarrow> (case parseInterpolation inner of
                   Inl e \<Rightarrow> Inl e
                 | Inr seg \<Rightarrow> map_sum id (append (flush_literal lit @ [seg])) (tokenize_from tmpl [] rest)))
          else tokenize_from tmpl (lit @ [c]) r)"
  by pat_completeness auto

termination tokenize_from
  by (relation "measure (\<lambda>(tmpl, lit, s). length s)") (auto dest!: interp_scan_shorter simp: less_Suc_eq)

declare tokenize_from.simps [simp del]

definition tmpl_tokenize :: "string \<Rightarrow> string + tmpl_segment list" where
  "tmpl_tokenize tmpl = tokenize_from tmpl [] tmpl"

section \<open>Evaluation\<close>

record regex_engine =
  rx_error :: "string \<Rightarrow> string option"
  rx_exec :: "string \<Rightarrow> string \<Rightarrow> (string \<times> string option) option"

definition applyOp :: "regex_engine \<Rightarrow> tmpl_op \<Rightarrow> string option \<Rightarrow> string + string option" where
  "applyOp rx op value = (case (op, value) of
     (Op_Default literal, None) \<Rightarrow> Inr (Some literal)
   | (Op_Default literal, Some v) \<Rightarrow> Inr (Some v)
   | (_, None) \<Rightarrow> Inr None
   | (Op_Lowercase, Some v) \<Rightarrow> Inr (Some (js_lower v))
   | (Op_Uppercase, Some v) \<Rightarrow> Inr (Some (js_upper v))
   | (Op_Regex_Extract pattern, Some v) \<Rightarrow> (case rx_error rx pattern of
         Some msg \<Rightarrow> Inl (''invalid regex '' @ in_ticks pattern @ '': '' @ msg)
       | None \<Rightarrow> Inr (case rx_exec rx pattern v of
             None \<Rightarrow> None
           | Some (whole, Some grp) \<Rightarrow> Some grp
           | Some (whole, None) \<Rightarrow> Some whole)))"

fun apply_ops :: "regex_engine \<Rightarrow> tmpl_op list \<Rightarrow> string option \<Rightarrow> string + string option" where
  "apply_ops rx [] value = Inr value"
| "apply_ops rx (op # ops) value = (case applyOp rx op value of Inl e \<Rightarrow> Inl e | Inr v \<Rightarrow> apply_ops rx ops v)"

fun render :: "regex_engine \<Rightarrow> tmpl_segment list \<Rightarrow> dims \<Rightarrow> string + string" where
  "render rx [] resolved = Inr []"
| "render rx (Tseg_Literal t # segs) resolved = map_sum id (append t) (render rx segs resolved)"
| "render rx (Tseg_Interp n ops # segs) resolved =
     (case apply_ops rx ops (dim_get resolved n) of
        Inl e \<Rightarrow> Inl e
      | Inr v \<Rightarrow> map_sum id (append (case v of Some t \<Rightarrow> t | None \<Rightarrow> [])) (render rx segs resolved))"

definition evaluateTemplate :: "regex_engine \<Rightarrow> string \<Rightarrow> dims \<Rightarrow> string + string option" where
  "evaluateTemplate rx tmpl resolved =
     (case tmpl_tokenize tmpl of
        Inl e \<Rightarrow> Inl e
      | Inr [] \<Rightarrow> Inr (Some [])
      | Inr [Tseg_Interp n ops] \<Rightarrow> apply_ops rx ops (dim_get resolved n)
      | Inr [Tseg_Literal t] \<Rightarrow> Inr (Some t)
      | Inr segs \<Rightarrow> map_sum id Some (render rx segs resolved))"

section \<open>The printed form of a template\<close>

definition escape_arg :: "string \<Rightarrow> string" where
  "escape_arg s = concat (map (\<lambda>c. if c = t_escape \<or> c = t_quote then [t_escape, c] else [c]) s)"

definition print_op :: "tmpl_op \<Rightarrow> string" where
  "print_op op = (case op of
     Op_Lowercase \<Rightarrow> ''lowercase'' | Op_Uppercase \<Rightarrow> ''uppercase''
   | Op_Regex_Extract a \<Rightarrow> ''regex_extract '' @ t_quote # escape_arg a @ [t_quote]
   | Op_Default a \<Rightarrow> ''default '' @ t_quote # escape_arg a @ [t_quote])"

fun print_segment :: "tmpl_segment \<Rightarrow> string" where
  "print_segment (Tseg_Literal t) = t"
| "print_segment (Tseg_Interp n ops) =
     ''${'' @ n @ concat (map (\<lambda>op. CHR ''|'' # print_op op) ops) @ ''}''"

definition print_template :: "tmpl_segment list \<Rightarrow> string" where
  "print_template segs = concat (map print_segment segs)"

fun template_ok :: "tmpl_segment list \<Rightarrow> bool" where
  "template_ok [] = True"
| "template_ok (Tseg_Literal t # segs) \<longleftrightarrow> t \<noteq> [] \<and> \<not> js_includes t ''${'' \<and>
     (case segs of Tseg_Literal _ # _ \<Rightarrow> False | _ \<Rightarrow> True) \<and> template_ok segs"
| "template_ok (Tseg_Interp n ops # segs) \<longleftrightarrow> dim_ident n \<and> template_ok segs"

section \<open>Round trip\<close>

definition plain_char :: "char \<Rightarrow> bool" where
  "plain_char c \<longleftrightarrow> c \<noteq> t_quote \<and> c \<noteq> CHR ''}'' \<and> c \<noteq> CHR ''|'' \<and> c \<noteq> t_escape \<and> \<not> is_ws c"

lemma ident_plain: "ident_char c \<Longrightarrow> plain_char c"
  by (auto simp: ident_char_def ident_start_def is_lower_def is_upper_def is_digit_def plain_char_def t_quote_def
      t_escape_def is_ws_def)

lemma quote_chars [simp]:
  "t_quote \<noteq> t_escape" "t_quote \<noteq> CHR ''}''" "t_quote \<noteq> CHR ''|''" "CHR ''}'' \<noteq> t_quote" "CHR ''|'' \<noteq> t_quote"
  "CHR ''}'' \<noteq> t_escape" "CHR ''|'' \<noteq> t_escape" "t_escape \<noteq> t_quote"
  by (simp_all add: t_quote_def t_escape_def)

lemma scan_plain:
  "\<forall>c \<in> set x. c \<noteq> t_quote \<and> c \<noteq> CHR ''}'' \<Longrightarrow>
    interp_scan False False (x @ s) = map_option (apfst (append x)) (interp_scan False False s)"
  by (induction x) (auto simp: option.map_comp o_def apfst_def map_prod_def case_prod_unfold option.map_ident)

lemma scan_quoted:
  "interp_scan True False (escape_arg a @ t_quote # s) =
    map_option (apfst (append (escape_arg a @ [t_quote]))) (interp_scan False False s)"
  by (induction a) (auto simp: escape_arg_def option.map_comp o_def apfst_def map_prod_def case_prod_unfold
      t_escape_def t_quote_def)

lemma on_head_append: "on_head c ((x @ p) # ps) = ((c # x) @ p) # ps"
  by (simp add: on_head_def)

lemma split_nonempty: "split_pipes q e s \<noteq> []"
  by (induction q e s rule: split_pipes.induct) (auto simp: on_head_def split: list.splits)

lemma split_plain:
  "\<forall>c \<in> set x. c \<noteq> t_quote \<and> c \<noteq> CHR ''|'' \<Longrightarrow>
    split_pipes False False (x @ s) = (x @ hd (split_pipes False False s)) # tl (split_pipes False False s)"
  by (induction x) (auto simp: on_head_def split_nonempty)

lemma split_quoted:
  "split_pipes True False (escape_arg a @ t_quote # s) =
    (escape_arg a @ t_quote # hd (split_pipes False False s)) # tl (split_pipes False False s)"
  by (induction a) (auto simp: escape_arg_def on_head_def t_escape_def t_quote_def split_nonempty split: list.splits)

lemma quoted_rest_escaped: "quoted_rest (escape_arg a @ t_quote # s) = Inr (Some (a, s))"
  by (induction a) (auto simp: escape_arg_def t_escape_def t_quote_def)

lemma parseQuotedArg_escaped: "parseQuotedArg (t_quote # escape_arg a @ [t_quote]) = Inr a"
  by (simp add: parseQuotedArg_def quoted_rest_escaped js_trim_def)

text \<open>Neither end of the text is white space.\<close>

lemma js_trim_id: "s = [] \<or> \<not> is_ws (hd s) \<and> \<not> is_ws (last s) \<Longrightarrow> js_trim s = s"
proof -
  assume s: "s = [] \<or> \<not> is_ws (hd s) \<and> \<not> is_ws (last s)"
  have "dropWhile is_ws s = s" "dropWhile is_ws (rev s) = rev s"
    unfolding dropWhile_eq_self_iff using s by (auto simp: hd_rev)
  then show ?thesis by (simp add: js_trim_def)
qed

lemma quote_not_ws: "\<not> is_ws t_quote" by (simp add: is_ws_def t_quote_def)

lemma op_arg_trim: "js_trim (CHR '' '' # t_quote # escape_arg a @ [t_quote]) = t_quote # escape_arg a @ [t_quote]"
proof -
  have "js_trim (CHR '' '' # s) = js_trim s" for s by (simp add: js_trim_def is_ws_def)
  then show ?thesis by (simp add: js_trim_id quote_not_ws)
qed

lemma parseOp_print: "parseOp (js_trim (print_op op)) = Inr op"
proof -
  have name: "ident_char CHR ''_''" "\<not> ident_char CHR '' ''"
    by (simp_all add: ident_char_def ident_start_def is_lower_def is_upper_def is_digit_def)
  have low: "is_lower c \<Longrightarrow> ident_char c" for c by (simp add: ident_char_def ident_start_def)
  have "js_trim (print_op op) = print_op op"
    by (cases op) (auto simp: print_op_def intro!: js_trim_id simp: is_ws_def t_quote_def)
  then show ?thesis
    by (cases op) (simp_all add: print_op_def parseOp_def Let_def ident_start_def is_lower_def ident_char_def is_upper_def
        is_digit_def parseQuotedArg_escaped op_arg_trim js_trim_def [of "[]"])
qed

lemma scan_op: "interp_scan False False (print_op op @ s) = map_option (apfst (append (print_op op))) (interp_scan False False s)"
proof -
  have q: "interp_scan False False (x @ t_quote # escape_arg a @ t_quote # s) =
      map_option (apfst (append (x @ t_quote # escape_arg a @ [t_quote]))) (interp_scan False False s)"
    if "\<forall>c \<in> set x. c \<noteq> t_quote \<and> c \<noteq> CHR ''}''" for x a
    using that by (simp add: scan_plain scan_quoted option.map_comp o_def apfst_def map_prod_def case_prod_unfold)
  show ?thesis
    using q [of "''regex_extract ''"] q [of "''default ''"] scan_plain [of "''lowercase''"] scan_plain [of "''uppercase''"]
    by (cases op) (simp_all add: print_op_def t_quote_def)
qed

lemma split_op:
  "split_pipes False False (print_op op @ s) =
    (print_op op @ hd (split_pipes False False s)) # tl (split_pipes False False s)"
proof -
  have q: "split_pipes False False (x @ t_quote # escape_arg a @ t_quote # s) =
      (x @ t_quote # escape_arg a @ t_quote # hd (split_pipes False False s)) # tl (split_pipes False False s)"
    if "\<forall>c \<in> set x. c \<noteq> t_quote \<and> c \<noteq> CHR ''|''" for x a
    using that by (simp add: split_plain split_quoted on_head_def)
  show ?thesis
    using q [of "''regex_extract ''"] q [of "''default ''"] split_plain [of "''lowercase''"] split_plain [of "''uppercase''"]
    by (cases op) (simp_all add: print_op_def t_quote_def)
qed

definition print_ops :: "tmpl_op list \<Rightarrow> string" where
  "print_ops ops = concat (map (\<lambda>op. CHR ''|'' # print_op op) ops)"

lemma scan_ops: "interp_scan False False (print_ops ops @ CHR ''}'' # s) = Some (print_ops ops, s)"
  by (induction ops) (simp_all add: print_ops_def scan_op t_escape_def t_quote_def apfst_def)

lemma split_ops: "split_pipes False False (print_ops ops) = [] # map print_op ops"
  by (induction ops) (simp_all add: print_ops_def split_op t_quote_def)

lemma parse_ops_print: "parse_ops (map print_op ops) = Inr ops"
  by (induction ops) (simp_all add: parseOp_print)

lemma ident_chars: "dim_ident n \<Longrightarrow> c \<in> set n \<Longrightarrow> plain_char c"
  by (auto simp: dim_ident_def list_all_iff intro: ident_plain)

lemma parseInterpolation_print:
  assumes "dim_ident n" shows "parseInterpolation (n @ print_ops ops) = Inr (Tseg_Interp n ops)"
proof -
  have "split_pipes False False (n @ print_ops ops) = n # map print_op ops"
    using ident_chars [OF assms] by (subst split_plain) (auto simp: split_ops plain_char_def)
  moreover have "js_trim n = n"
    using ident_chars [OF assms] assms by (intro js_trim_id) (auto simp: plain_char_def dim_ident_def)
  ultimately show ?thesis using assms by (simp add: parseInterpolation_def parse_ops_print) (simp add: dim_ident_def)
qed

lemma tokenize_literal:
  assumes "\<not> js_includes t ''${''" and "s = [] \<or> js_startsWith s ''${''"
  shows "tokenize_from tmpl lit (t @ s) = tokenize_from tmpl (lit @ t) s"
  using assms(1)
proof (induction t arbitrary: lit)
  case (Cons c t)
  have "\<not> js_includes t ''${''" and n: "\<not> js_startsWith (c # t) ''${''"
    using Cons.prems by (auto simp: js_includes_def js_indexOf.simps [of "c # t"] split: if_splits)
  from Cons.IH [OF this(1), of "lit @ [c]"]
  show ?case using n assms(2)
    by (subst tokenize_from.simps) (cases t; cases s; auto simp: js_startsWith_def)
qed simp

lemma print_segment_interp: "print_segment (Tseg_Interp n ops) @ s = ''${'' @ n @ print_ops ops @ CHR ''}'' # s"
  by (simp add: print_ops_def)

lemma tokenize_interp:
  assumes "dim_ident n"
  shows "tokenize_from tmpl lit (print_segment (Tseg_Interp n ops) @ s) =
    map_sum id (append (flush_literal lit @ [Tseg_Interp n ops])) (tokenize_from tmpl [] s)"
proof -
  have "interp_scan False False (n @ print_ops ops @ CHR ''}'' # s) = Some (n @ print_ops ops, s)"
    using ident_chars [OF assms] by (subst scan_plain) (auto simp: scan_ops plain_char_def apfst_def)
  then show ?thesis unfolding print_segment_interp
    by (subst tokenize_from.simps) (simp add: parseInterpolation_print [OF assms])
qed

lemma tokenize_print:
  assumes "template_ok segs"
  shows "tokenize_from tmpl [] (print_template segs) = Inr segs"
  using assms
proof (induction segs rule: template_ok.induct)
  case (2 t segs)
  have IH: "tokenize_from tmpl [] (print_template segs) = Inr segs" using 2 by simp
  show ?case
  proof (cases segs)
    case Nil
    then show ?thesis using 2(2) tokenize_literal [of t "[]" tmpl "[]"]
      by (simp add: print_template_def tokenize_from.simps [of _ _ "[]"] flush_literal_def)
  next
    case (Cons a segs')
    then obtain n ops where a: "a = Tseg_Interp n ops" "dim_ident n" using 2(2) by (cases a) auto
    have "print_template segs = print_segment a @ print_template segs'" by (simp add: print_template_def Cons)
    moreover have "js_startsWith (print_segment a @ print_template segs') ''${''"
      unfolding a print_segment_interp by (simp add: js_startsWith_def)
    ultimately have "tokenize_from tmpl [] (print_template (Tseg_Literal t # segs)) =
        tokenize_from tmpl t (print_segment a @ print_template segs')"
      using 2(2) tokenize_literal [of t _ tmpl "[]"] by (simp add: print_template_def)
    moreover have "tokenize_from tmpl [] (print_template segs') = Inr segs'"
      using IH tokenize_interp [OF a(2), of tmpl "[]" ops "print_template segs'"]
      by (cases "tokenize_from tmpl [] (print_template segs')")
        (simp_all add: print_template_def Cons flush_literal_def a(1) del: print_segment.simps)
    ultimately show ?thesis using tokenize_interp [OF a(2), of tmpl t ops "print_template segs'"] 2(2)
      by (simp add: Cons flush_literal_def a(1) del: print_segment.simps)
  qed
next
  case (3 n ops segs)
  then show ?case using tokenize_interp [of n tmpl "[]" ops "print_template segs"]
    by (simp add: print_template_def flush_literal_def del: print_segment.simps)
qed (simp add: print_template_def tokenize_from.simps flush_literal_def)

section \<open>Properties\<close>

text \<open>The tokenizer reads back every template: printing a list of segments (literals that hold no
  \<^verbatim>\<open>${\<close> and do not touch, interpolations with any operators and any quoted texts, braces, pipes, quotes and
  backslashes in them included) and tokenizing it gives the list.\<close>

theorem template_roundtrip:
  assumes "template_ok segs" shows "tmpl_tokenize (print_template segs) = Inr segs"
  using tokenize_print [OF assms] by (simp add: tmpl_tokenize_def)

theorem template_roundtrip_witness:
  "tmpl_tokenize (print_template [Tseg_Literal ''a$'', Tseg_Interp ''team'' [Op_Lowercase, Op_Default ''}|x''],
      Tseg_Interp ''user_1'' []]) =
    Inr [Tseg_Literal ''a$'', Tseg_Interp ''team'' [Op_Lowercase, Op_Default ''}|x''], Tseg_Interp ''user_1'' []]"
proof (rule template_roundtrip)
  have "\<not> js_includes ''a$'' ''${''"
    by (simp add: js_includes_def js_indexOf.simps js_startsWith_def)
  moreover have "dim_ident ''team''" "dim_ident ''user_1''"
    by (simp_all add: dim_ident_def ident_start_def ident_char_def is_lower_def is_upper_def is_digit_def)
  ultimately show "template_ok [Tseg_Literal ''a$'', Tseg_Interp ''team'' [Op_Lowercase, Op_Default ''}|x''],
      Tseg_Interp ''user_1'' []]" by simp
qed

text \<open>Null goes through every operator but \<^verbatim>\<open>default\<close>, which never gives null.\<close>

lemma apply_ops_append:
  "apply_ops rx (ops @ ops') v = (case apply_ops rx ops v of Inl e \<Rightarrow> Inl e | Inr w \<Rightarrow> apply_ops rx ops' w)"
  by (induction ops arbitrary: v) (auto split: sum.splits)

lemma default_last_not_null: "apply_ops rx (ops @ [Op_Default d]) v = Inr w \<Longrightarrow> w \<noteq> None"
  by (auto simp: apply_ops_append applyOp_def split: sum.splits option.splits)

lemma null_without_default:
  "\<forall>d. Op_Default d \<notin> set ops \<Longrightarrow> apply_ops rx ops None = Inr None"
  by (induction ops) (auto simp: applyOp_def split: tmpl_op.splits)

end
