(* ===== verification/Manifest_Validator.thy ===== *)
theory Manifest_Validator
  imports Js_Value
begin

text \<open>
  \<^verbatim>\<open>manifest/validator.ts\<close>: the rules a tenant schema must satisfy before the SDK boots on it, run
  on the raw value a YAML file or an HTTP body was parsed to, so every field access follows the dynamic
  type it finds. Reading a field of a \<^verbatim>\<open>null\<close> dimension throws (\<^const>\<open>None\<close>). Also
  \<^verbatim>\<open>manifest/reconcile.ts\<close>. The second half states what an accepted schema is.
\<close>

section \<open>Issues\<close>

datatype issue_code = MultipleScopingDimensions | UnknownScopingDimension | InvalidDimensionName
  | DuplicateCedarAttribute | DuplicateClickhouseColumn | InvalidClickhouseColumnPrefix
  | DerivedReferenceMissing | UnknownEnrichmentRef | PiiRequiresCedarAttribute | PiiCedarTypeMismatch
  | TooManyMaterialized | Yaml | Validation | DerivedTemplate

record validation_issue =
  vi_code :: issue_code
  vi_path :: string
  vi_message :: string

definition issue :: "issue_code \<Rightarrow> string \<Rightarrow> string \<Rightarrow> validation_issue" where
  "issue c p m = \<lparr>vi_code = c, vi_path = p, vi_message = m\<rparr>"

definition tick :: "string \<Rightarrow> string" where
  "tick s = [CHR 0x27] @ s @ [CHR 0x27]"

definition dim_path :: "nat \<Rightarrow> string \<Rightarrow> string" where
  "dim_path i field = ''dimensions['' @ nat_text i @ '']'' @ field"

section \<open>Patterns\<close>

definition name_char :: "char \<Rightarrow> bool" where
  "name_char c \<longleftrightarrow> is_lower c \<or> is_digit c \<or> c = CHR ''_''"

text \<open>\<^verbatim>\<open>/^[a-z][a-z0-9_]{0,31}$/\<close>\<close>

definition dimension_name :: "string \<Rightarrow> bool" where
  "dimension_name s \<longleftrightarrow> s \<noteq> [] \<and> is_lower (hd s) \<and> list_all name_char (tl s) \<and> length s \<le> 32"

text \<open>A match of \<^verbatim>\<open>DERIVED_VAR_RE\<close> at the start of a text: the name and the text after the match.\<close>

definition derived_here :: "string \<Rightarrow> (string \<times> string) option" where
  "derived_here s =
     (if \<not> js_startsWith s ''${'' then None
      else (let r = dropWhile is_ws (drop 2 s); name = takeWhile name_char r;
                after = dropWhile is_ws (dropWhile name_char r) in
        if dimension_name name \<and> after \<noteq> [] \<and> (hd after = CHR ''|'' \<or> hd after = CHR ''}'')
        then Some (name, tl after) else None))"

lemma derived_here_shorter: "derived_here s = Some (n, r) \<Longrightarrow> length r < length s"
proof -
  assume d: "derived_here s = Some (n, r)"
  define a where "a = dropWhile is_ws (dropWhile name_char (dropWhile is_ws (drop 2 s)))"
  have "length a \<le> length (drop 2 s)"
    unfolding a_def by (meson length_dropWhile_le order_trans)
  moreover have "a \<noteq> []" "r = tl a" using d by (auto simp: derived_here_def Let_def a_def split: if_splits)
  ultimately show ?thesis by (cases a) auto
qed

function parseDerivedReferences :: "string \<Rightarrow> string list" where
  "parseDerivedReferences s =
     (case s of
        [] \<Rightarrow> []
      | c # r \<Rightarrow> (case derived_here s of
            Some (name, rest) \<Rightarrow> name # parseDerivedReferences rest
          | None \<Rightarrow> parseDerivedReferences r))"
  by pat_completeness auto

termination parseDerivedReferences
  by (relation "measure length") (auto dest: derived_here_shorter)

declare parseDerivedReferences.simps [simp del]

section \<open>Shape\<close>

definition coerceSchema :: "jval \<Rightarrow> validation_issue list + jval list" where
  "coerceSchema raw =
     (if \<not> j_is_object raw then
        Inl [issue Validation [] (''tenant-schema root must be a YAML object with `version`, `dimensions`, and (optionally) `scoping_dimension`. Got '' @
          (case raw of JNull \<Rightarrow> ''null'' | JArr _ \<Rightarrow> ''an array'' | _ \<Rightarrow> j_typeof raw))]
      else if j_typeof (j_field raw ''version'') \<noteq> ''number'' then
        Inl [issue Validation ''version'' ''`version` must be a number (tenant-schema version)'']
      else (case j_array (j_field raw ''dimensions'') of
          None \<Rightarrow> Inl [issue InvalidDimensionName ''dimensions'' ''`dimensions` must be an array'']
        | Some dims \<Rightarrow> Inr dims))"

section \<open>Rules\<close>

definition cedarAttribute :: "jval \<Rightarrow> string option" where
  "cedarAttribute c = (if \<not> j_truthy c then None else j_string (j_field c ''attribute''))"

definition cedarTypeOf :: "jval \<Rightarrow> jval" where
  "cedarTypeOf c = j_default (j_field c ''cedar_type'') (j_field c ''type'')"

definition rule1 :: "jval \<Rightarrow> jval list \<Rightarrow> validation_issue list" where
  "rule1 s dims =
     (let scoping = filter (\<lambda>(i, d). j_field d ''scoping'' = JBool True) (enumerate 0 dims);
          declared = j_field s ''scoping_dimension'' in
      if length scoping > 1 then [issue MultipleScopingDimensions ''dimensions'' ''multiple scoping dimensions (max 1)'']
      else (case scoping of
          (i, d) # _ \<Rightarrow>
            if declared \<noteq> JUndefined \<and> \<not> j_same (j_field d ''name'') declared then
              [issue UnknownScopingDimension ''scoping_dimension''
                (''scoping dimension '' @ tick (j_text declared) @ '' not found in dimensions list'')]
            else if declared = JUndefined then
              [issue UnknownScopingDimension (dim_path i ''.scoping'')
                (''scoping dimension '' @ tick (j_text (j_field d ''name'')) @ '' not found in dimensions list'')]
            else []
        | [] \<Rightarrow>
            if declared \<noteq> JUndefined then
              [issue UnknownScopingDimension ''scoping_dimension''
                (''scoping dimension '' @ tick (j_text declared) @ '' not found in dimensions list'')]
            else []))"

definition rule2_at :: "nat \<Rightarrow> jval \<Rightarrow> validation_issue list" where
  "rule2_at i d =
     (if \<not> j_truthy d then []
      else (case j_string (j_field d ''name'') of
          Some n \<Rightarrow> if dimension_name n then []
            else [issue InvalidDimensionName (dim_path i ''.name'')
              (''invalid dimension name '' @ tick n @ '': must match [a-z][a-z0-9_]{0,31}'')]
        | None \<Rightarrow> [issue InvalidDimensionName (dim_path i ''.name'')
            (''invalid dimension name '' @ tick (j_text (j_field d ''name'')) @ '': must match [a-z][a-z0-9_]{0,31}'')]))"

definition rule2 :: "jval list \<Rightarrow> validation_issue list" where
  "rule2 dims = concat (map (\<lambda>(i, d). rule2_at i d) (enumerate 0 dims))"

definition dim_attribute :: "jval \<Rightarrow> string option" where
  "dim_attribute d = (if \<not> j_truthy d then None else cedarAttribute (j_field d ''cedar''))"

fun rule3 :: "nat \<Rightarrow> string list \<Rightarrow> jval list \<Rightarrow> validation_issue list" where
  "rule3 i seen [] = []"
| "rule3 i seen (d # dims) =
     (case dim_attribute d of
        None \<Rightarrow> rule3 (Suc i) seen dims
      | Some attr \<Rightarrow>
          if attr \<in> set seen then
            issue DuplicateCedarAttribute (dim_path i ''.cedar.attribute'') (''duplicate cedar attribute '' @ tick attr)
              # rule3 (Suc i) seen dims
          else rule3 (Suc i) (attr # seen) dims)"

definition dim_clickhouse :: "jval \<Rightarrow> jval option" where
  "dim_clickhouse d = (if \<not> j_truthy d \<or> \<not> j_truthy (j_field d ''clickhouse'') then None
     else Some (j_field (j_field d ''clickhouse'') ''column''))"

fun rule4 :: "nat \<Rightarrow> string list \<Rightarrow> jval list \<Rightarrow> validation_issue list" where
  "rule4 i seen [] = []"
| "rule4 i seen (d # dims) =
     (case dim_clickhouse d of
        None \<Rightarrow> rule4 (Suc i) seen dims
      | Some c \<Rightarrow> (case j_string c of
          None \<Rightarrow> issue InvalidClickhouseColumnPrefix (dim_path i ''.clickhouse.column'') ''clickhouse column must be a string''
            # rule4 (Suc i) seen dims
        | Some col \<Rightarrow>
            if \<not> js_startsWith col ''dim_'' then
              issue InvalidClickhouseColumnPrefix (dim_path i ''.clickhouse.column'')
                (''clickhouse column '' @ tick col @ '' must start with '' @ tick ''dim_'') # rule4 (Suc i) seen dims
            else if col \<in> set seen then
              issue DuplicateClickhouseColumn (dim_path i ''.clickhouse.column'') (''duplicate clickhouse column '' @ tick col)
                # rule4 (Suc i) seen dims
            else rule4 (Suc i) (col # seen) dims))"

definition dim_refs :: "jval \<Rightarrow> string list" where
  "dim_refs d =
     (let src = j_field d ''source'' in
      if j_truthy src \<and> j_field src ''kind'' = JStr ''derived'' then
        (case j_string (j_field src ''template'') of Some t \<Rightarrow> parseDerivedReferences t | None \<Rightarrow> [])
      else [])"

fun rule5 :: "nat \<Rightarrow> string list \<Rightarrow> jval list \<Rightarrow> validation_issue list" where
  "rule5 i seen [] = []"
| "rule5 i seen (d # dims) =
     (if \<not> j_truthy d then rule5 (Suc i) seen dims
      else
        (let seen' = (case j_string (j_field d ''name'') of Some n \<Rightarrow> n # seen | None \<Rightarrow> seen) in
         case filter (\<lambda>r. r \<notin> set seen) (dim_refs d) of
           ref # _ \<Rightarrow> issue DerivedReferenceMissing (dim_path i ''.source.template'')
               (''derived template references undeclared dimension '' @ tick ref) # rule5 (Suc i) seen' dims
         | [] \<Rightarrow> rule5 (Suc i) seen' dims))"

text \<open>\<^const>\<open>None\<close> where \<^verbatim>\<open>ref in enrichments\<close> throws.\<close>

definition rule6_at :: "jval \<Rightarrow> nat \<Rightarrow> jval \<Rightarrow> validation_issue list option" where
  "rule6_at enrichments i d =
     (let src = j_field d ''source'' in
      if j_truthy d \<and> j_truthy src \<and> j_field src ''kind'' = JStr ''enrichment'' then
        (let ref = j_field src ''enrichment_ref'';
             bad = [issue UnknownEnrichmentRef (dim_path i ''.source.enrichment_ref'')
               (''enrichment_ref '' @ tick (j_text ref) @ '' has no matching enrichment block'')] in
         case j_string ref of
           None \<Rightarrow> Some bad
         | Some r \<Rightarrow> map_option (\<lambda>present. if present then [] else bad) (j_in r enrichments))
      else Some [])"

fun concat_options :: "'a list option list \<Rightarrow> 'a list option" where
  "concat_options [] = Some []"
| "concat_options (x # xs) = (case x of None \<Rightarrow> None | Some ys \<Rightarrow> map_option (append ys) (concat_options xs))"

definition rule6 :: "jval \<Rightarrow> jval list \<Rightarrow> validation_issue list option" where
  "rule6 s dims =
     (let enrichments = j_default (j_field s ''enrichments'') (JObj []) in
      concat_options (map (\<lambda>(i, d). rule6_at enrichments i d) (enumerate 0 dims)))"

definition rule9_at :: "nat \<Rightarrow> jval \<Rightarrow> validation_issue list" where
  "rule9_at i d =
     (let pii = j_default (j_field d ''pii'') (JStr ''none''); cedar = j_field d ''cedar'' in
      if \<not> j_truthy d \<or> (pii \<noteq> JStr ''hash'' \<and> pii \<noteq> JStr ''tokenize'') then []
      else if \<not> j_truthy cedar then
        [issue PiiRequiresCedarAttribute (dim_path i ''.cedar'')
          (''pii '' @ tick (j_text pii) @ '' on '' @ tick (j_text (j_field d ''name'')) @ '' requires a cedar binding'')]
      else if cedarTypeOf cedar \<noteq> JStr ''String'' then
        [issue PiiCedarTypeMismatch (dim_path i ''.cedar.cedar_type'')
          (''pii '' @ tick (j_text pii) @ '' on '' @ tick (j_text (j_field d ''name'')) @
           '' requires cedar_type=String, got '' @ tick (j_text (j_default (cedarTypeOf cedar) (JStr ''<unset>''))))]
      else [])"

definition rule9 :: "jval list \<Rightarrow> validation_issue list" where
  "rule9 dims = concat (map (\<lambda>(i, d). rule9_at i d) (enumerate 0 dims))"

definition materialized :: "jval \<Rightarrow> bool" where
  "materialized d \<longleftrightarrow> j_truthy (j_field d ''clickhouse'') \<and>
     j_truthy (j_default (j_field (j_field d ''clickhouse'') ''materialized'') (JBool True))"

definition rule10 :: "jval list \<Rightarrow> validation_issue list" where
  "rule10 dims =
     (let count = length (filter materialized dims) in
      if count > 24 then [issue TooManyMaterialized ''dimensions''
        (''too many materialized dimensions ('' @ nat_text count @ '' > 24); mark some clickhouse.materialized: false'')]
      else [])"

definition missing_values :: "string list" where
  "missing_values = [''reject'', ''null'', ''default'']"

definition ruleWhenMissing_at :: "nat \<Rightarrow> jval \<Rightarrow> validation_issue list" where
  "ruleWhenMissing_at i d =
     (let wm = j_field d ''when_missing'' in
      if wm \<noteq> JUndefined \<and> (case j_string wm of Some w \<Rightarrow> w \<notin> set missing_values | None \<Rightarrow> True) then
        [issue Validation (dim_path i ''.when_missing'')
          (''when_missing must be one of '' @ js_join '' | '' (map json_quote missing_values) @ ''; got '' @
           (case json_stringify wm of Some t \<Rightarrow> t | None \<Rightarrow> ''undefined''))]
      else [])"

definition ruleWhenMissing :: "jval list \<Rightarrow> validation_issue list" where
  "ruleWhenMissing dims = concat (map (\<lambda>(i, d). ruleWhenMissing_at i d) (enumerate 0 dims))"

text \<open>\<open>rule1\<close> reads a field of every dimension first, so a \<^verbatim>\<open>null\<close> one throws there.\<close>

definition validate :: "jval \<Rightarrow> jval list \<Rightarrow> validation_issue list option" where
  "validate s dims =
     (if list_ex j_nullish dims then None
      else (case rule6 s dims of
          None \<Rightarrow> None
        | Some r6 \<Rightarrow> Some (rule1 s dims @ rule2 dims @ rule3 0 [] dims @ rule4 0 [] dims @ rule5 0 [] dims @
            r6 @ rule9 dims @ rule10 dims @ ruleWhenMissing dims)))"

datatype validation_result = Valid_Schema jval | Invalid_Schema "validation_issue list" | Throws_Type_Error

definition parseAndValidate :: "jval \<Rightarrow> validation_result" where
  "parseAndValidate raw =
     (case coerceSchema raw of
        Inl issues \<Rightarrow> Invalid_Schema issues
      | Inr dims \<Rightarrow> (case validate raw dims of
            None \<Rightarrow> Throws_Type_Error
          | Some issues \<Rightarrow> if issues \<noteq> [] then Invalid_Schema issues else Valid_Schema raw))"

section \<open>What an accepted schema is\<close>

definition ok_scoping :: "jval \<Rightarrow> jval list \<Rightarrow> bool" where
  "ok_scoping s dims \<longleftrightarrow>
     (case filter (\<lambda>d. j_field d ''scoping'' = JBool True) dims of
        [] \<Rightarrow> j_field s ''scoping_dimension'' = JUndefined
      | [d] \<Rightarrow> j_field s ''scoping_dimension'' \<noteq> JUndefined \<and>
          j_same (j_field d ''name'') (j_field s ''scoping_dimension'')
      | _ \<Rightarrow> False)"

definition ok_name :: "jval \<Rightarrow> bool" where
  "ok_name d \<longleftrightarrow> j_truthy d \<longrightarrow> (\<exists>n. j_field d ''name'' = JStr n \<and> dimension_name n)"

definition column_of :: "jval \<Rightarrow> string option" where
  "column_of d = Option.bind (dim_clickhouse d) j_string"

definition ok_column :: "jval \<Rightarrow> bool" where
  "ok_column d \<longleftrightarrow> (dim_clickhouse d \<noteq> None \<longrightarrow> (\<exists>col. column_of d = Some col \<and> js_startsWith col ''dim_''))"

definition declares :: "jval \<Rightarrow> string \<Rightarrow> bool" where
  "declares d n \<longleftrightarrow> j_truthy d \<and> j_field d ''name'' = JStr n"

definition ok_derived :: "jval list \<Rightarrow> bool" where
  "ok_derived dims \<longleftrightarrow> (\<forall>i < length dims. j_truthy (dims ! i) \<longrightarrow>
     (\<forall>r \<in> set (dim_refs (dims ! i)). \<exists>j < i. declares (dims ! j) r))"

definition ok_enrichment :: "jval \<Rightarrow> jval \<Rightarrow> bool" where
  "ok_enrichment s d \<longleftrightarrow>
     (j_truthy d \<and> j_truthy (j_field d ''source'') \<and> j_field (j_field d ''source'') ''kind'' = JStr ''enrichment'' \<longrightarrow>
      (\<exists>r. j_field (j_field d ''source'') ''enrichment_ref'' = JStr r \<and>
        j_in r (j_default (j_field s ''enrichments'') (JObj [])) = Some True))"

definition ok_pii :: "jval \<Rightarrow> bool" where
  "ok_pii d \<longleftrightarrow> (j_truthy d \<and> j_field d ''pii'' \<in> {JStr ''hash'', JStr ''tokenize''} \<longrightarrow>
     j_truthy (j_field d ''cedar'') \<and> cedarTypeOf (j_field d ''cedar'') = JStr ''String'')"

definition ok_missing :: "jval \<Rightarrow> bool" where
  "ok_missing d \<longleftrightarrow> j_field d ''when_missing'' \<in> insert JUndefined (JStr ` set missing_values)"

definition schema_ok :: "jval \<Rightarrow> jval list \<Rightarrow> bool" where
  "schema_ok s dims \<longleftrightarrow> (\<forall>d \<in> set dims. \<not> j_nullish d) \<and> ok_scoping s dims \<and> (\<forall>d \<in> set dims. ok_name d) \<and>
     distinct (List.map_filter dim_attribute dims) \<and>
     (\<forall>d \<in> set dims. ok_column d) \<and> distinct (List.map_filter column_of dims) \<and>
     ok_derived dims \<and> (\<forall>d \<in> set dims. ok_enrichment s d) \<and> (\<forall>d \<in> set dims. ok_pii d) \<and>
     length (filter materialized dims) \<le> 24 \<and> (\<forall>d \<in> set dims. ok_missing d)"

subsection \<open>Rule by rule\<close>

lemma j_string_iff: "j_string v = Some n \<longleftrightarrow> v = JStr n" "j_string v = None \<longleftrightarrow> (\<forall>n. v \<noteq> JStr n)"
  by (cases v; simp add: j_string_def)+

lemma enumerated_empty:
  "concat (map (\<lambda>(i, d). f i d) (enumerate n xs)) = [] \<longleftrightarrow> (\<forall>i < length xs. f (n + i) (xs ! i) = [])"
proof (induction xs arbitrary: n)
  case (Cons x xs)
  have "(\<forall>i < Suc (length xs). f (n + i) ((x # xs) ! i) = []) \<longleftrightarrow> f n x = [] \<and> (\<forall>i < length xs. f (Suc n + i) (xs ! i) = [])"
    by (auto simp: All_less_Suc2)
  then show ?case using Cons.IH [of "Suc n"] by simp
qed simp

lemma enumerated_all:
  "(\<forall>x \<in> set (map (\<lambda>(i, d). f i d) (enumerate n xs)). x = c) \<longleftrightarrow> (\<forall>i < length xs. f (n + i) (xs ! i) = c)"
proof (induction xs arbitrary: n)
  case (Cons x xs)
  have "(\<forall>i < Suc (length xs). f (n + i) ((x # xs) ! i) = c) \<longleftrightarrow> f n x = c \<and> (\<forall>i < length xs. f (Suc n + i) (xs ! i) = c)"
    by (auto simp: All_less_Suc2)
  then show ?case using Cons.IH [of "Suc n"] by simp
qed simp

lemma each_dim: "(\<forall>i < length xs. P (xs ! i)) \<longleftrightarrow> (\<forall>x \<in> set xs. P x)"
  by (metis in_set_conv_nth)

lemma rule2_ok: "rule2 dims = [] \<longleftrightarrow> (\<forall>d \<in> set dims. ok_name d)"
proof -
  have "rule2_at i d = [] \<longleftrightarrow> ok_name d" for i d
    by (auto simp: rule2_at_def ok_name_def j_string_iff split: option.splits)
  then show ?thesis unfolding rule2_def enumerated_empty by (simp add: each_dim)
qed

lemma rule9_ok: "rule9 dims = [] \<longleftrightarrow> (\<forall>d \<in> set dims. ok_pii d)"
proof -
  have "rule9_at i d = [] \<longleftrightarrow> ok_pii d" for i d
    by (auto simp: rule9_at_def ok_pii_def Let_def j_default_def j_nullish_def)
  then show ?thesis unfolding rule9_def enumerated_empty by (simp add: each_dim)
qed

lemma ruleWhenMissing_ok: "ruleWhenMissing dims = [] \<longleftrightarrow> (\<forall>d \<in> set dims. ok_missing d)"
proof -
  have "ruleWhenMissing_at i d = [] \<longleftrightarrow> ok_missing d" for i d
    by (cases "j_field d ''when_missing''") (auto simp: ruleWhenMissing_at_def ok_missing_def Let_def j_string_def)
  then show ?thesis unfolding ruleWhenMissing_def enumerated_empty by (simp add: each_dim)
qed

lemma rule10_ok: "rule10 dims = [] \<longleftrightarrow> length (filter materialized dims) \<le> 24"
  by (simp add: rule10_def Let_def)

lemma filter_enumerate: "map snd (filter (\<lambda>(i, d). P d) (enumerate n xs)) = filter P xs"
  by (induction xs arbitrary: n) auto

lemma rule1_ok: "rule1 s dims = [] \<longleftrightarrow> ok_scoping s dims"
proof -
  define P where "P = (\<lambda>d. j_field d ''scoping'' = JBool True)"
  define es where "es = filter (\<lambda>(i, d). P d) (enumerate 0 dims)"
  have f: "filter P dims = map snd es" by (simp add: es_def filter_enumerate)
  show ?thesis
    unfolding rule1_def ok_scoping_def P_def [symmetric] es_def [symmetric] f Let_def
    by (cases es rule: list.exhaust; simp)
      (rename_tac a l, case_tac l; auto split: prod.splits)
qed

lemma rule3_ok:
  "rule3 i seen dims = [] \<longleftrightarrow>
     distinct (List.map_filter dim_attribute dims) \<and> set (List.map_filter dim_attribute dims) \<inter> set seen = {}"
  by (induction i seen dims rule: rule3.induct) (auto simp: List.map_filter_simps split: option.splits)

lemma rule4_ok:
  "rule4 i seen dims = [] \<longleftrightarrow> (\<forall>d \<in> set dims. ok_column d) \<and>
     distinct (List.map_filter column_of dims) \<and> set (List.map_filter column_of dims) \<inter> set seen = {}"
proof (induction i seen dims rule: rule4.induct)
  case (2 i seen d dims)
  show ?case
  proof (cases "dim_clickhouse d")
    case None
    then show ?thesis using 2 by (simp add: ok_column_def column_of_def List.map_filter_simps)
  next
    case (Some c)
    show ?thesis
    proof (cases "j_string c")
      case None
      then show ?thesis using Some by (auto simp: ok_column_def column_of_def)
    next
      case col: (Some col)
      have "column_of d = Some col" using Some col by (simp add: column_of_def)
      then show ?thesis using 2 Some col by (auto simp: ok_column_def List.map_filter_simps)
    qed
  qed
qed (simp add: List.map_filter_simps)

lemma rule5_ok:
  "rule5 i seen dims = [] \<longleftrightarrow> (\<forall>k < length dims. j_truthy (dims ! k) \<longrightarrow>
     (\<forall>r \<in> set (dim_refs (dims ! k)). r \<in> set seen \<or> (\<exists>j < k. declares (dims ! j) r)))"
proof (induction i seen dims rule: rule5.induct)
  case (2 i seen d dims)
  define seen' where "seen' = (if j_truthy d then (case j_string (j_field d ''name'') of Some n \<Rightarrow> n # seen | None \<Rightarrow> seen) else seen)"
  have mem: "r \<in> set seen' \<longleftrightarrow> r \<in> set seen \<or> declares d r" for r
    by (auto simp: seen'_def declares_def j_string_iff split: option.splits)
  have shift: "(\<forall>k < length (d # dims). j_truthy ((d # dims) ! k) \<longrightarrow>
        (\<forall>r \<in> set (dim_refs ((d # dims) ! k)). r \<in> set seen \<or> (\<exists>j < k. declares ((d # dims) ! j) r))) \<longleftrightarrow>
      (j_truthy d \<longrightarrow> set (dim_refs d) \<subseteq> set seen) \<and>
      (\<forall>k < length dims. j_truthy (dims ! k) \<longrightarrow>
        (\<forall>r \<in> set (dim_refs (dims ! k)). r \<in> set seen' \<or> (\<exists>j < k. declares (dims ! j) r)))"
    by (auto simp: All_less_Suc2 Ex_less_Suc2 mem)
  show ?case
  proof (cases "j_truthy d")
    case False
    then have "seen' = seen" by (simp add: seen'_def)
    with shift show ?thesis using 2(1) False by simp
  next
    case True
    then have e: "(case j_string (j_field d ''name'') of Some n \<Rightarrow> n # seen | None \<Rightarrow> seen) = seen'" by (simp add: seen'_def)
    have ih: "rule5 (Suc i) seen' dims = [] \<longleftrightarrow> (\<forall>k < length dims. j_truthy (dims ! k) \<longrightarrow>
        (\<forall>r \<in> set (dim_refs (dims ! k)). r \<in> set seen' \<or> (\<exists>j < k. declares (dims ! j) r)))"
      using 2(2,3) True e by (cases "filter (\<lambda>r. r \<notin> set seen) (dim_refs d)") auto
    have "filter (\<lambda>r. r \<notin> set seen) (dim_refs d) = [] \<longleftrightarrow> set (dim_refs d) \<subseteq> set seen"
      by (auto simp: filter_empty_conv)
    then show ?thesis unfolding shift using True ih
      by (cases "filter (\<lambda>r. r \<notin> set seen) (dim_refs d)") (auto simp: e Let_def)
  qed
qed simp

lemma concat_options_empty: "concat_options xs = Some [] \<longleftrightarrow> (\<forall>x \<in> set xs. x = Some [])"
  by (induction xs) (auto split: option.splits)

lemma rule6_ok: "rule6 s dims = Some [] \<longleftrightarrow> (\<forall>d \<in> set dims. ok_enrichment s d)"
proof -
  let ?e = "j_default (j_field s ''enrichments'') (JObj [])"
  have at: "rule6_at ?e i d = Some [] \<longleftrightarrow> ok_enrichment s d" for i d
    by (auto simp: rule6_at_def ok_enrichment_def Let_def j_string_iff split: option.splits)
  show ?thesis unfolding rule6_def Let_def concat_options_empty enumerated_all
    by (simp add: at each_dim)
qed

section \<open>The rules as they are documented\<close>

text \<open>The same in terms of the schema alone, without a function of the validator: a reader can compare these with the
  rules in the header of \<^verbatim>\<open>validator.ts\<close>. Where the code is laxer than its rules the definitions say so:
  an entry of \<^verbatim>\<open>dimensions\<close> that is falsy but not \<^verbatim>\<open>null\<close> (\<^verbatim>\<open>0\<close>, \<^verbatim>\<open>false\<close>, an empty text) is passed over, a reference to an
  enrichment may be the name of a member that every object inherits, and of a template only what the regular expression
  takes for a reference counts.\<close>

definition legal_name :: "string \<Rightarrow> bool" where
  "legal_name n \<longleftrightarrow> (\<exists>c cs. n = c # cs \<and> is_lower c \<and> length cs \<le> 31 \<and>
     (\<forall>x \<in> set cs. is_lower x \<or> is_digit x \<or> x = CHR ''_''))"

definition mentions :: "string \<Rightarrow> string \<Rightarrow> bool" where
  "mentions template n \<longleftrightarrow> legal_name n \<and> (\<exists>before w1 w2 c after. template = before @ ''${'' @ w1 @ n @ w2 @ c # after \<and>
     (\<forall>x \<in> set w1 \<union> set w2. is_ws x) \<and> c \<in> {CHR ''|'', CHR ''}''})"

definition refers_to :: "jval \<Rightarrow> string \<Rightarrow> bool" where
  "refers_to d n \<longleftrightarrow> j_truthy d \<and> j_truthy (j_field d ''source'') \<and> j_field (j_field d ''source'') ''kind'' = JStr ''derived'' \<and>
     (\<exists>t. j_field (j_field d ''source'') ''template'' = JStr t \<and> mentions t n)"

definition binds_attribute :: "jval \<Rightarrow> string \<Rightarrow> bool" where
  "binds_attribute d a \<longleftrightarrow> j_truthy d \<and> j_truthy (j_field d ''cedar'') \<and> j_field (j_field d ''cedar'') ''attribute'' = JStr a"

definition has_clickhouse :: "jval \<Rightarrow> bool" where
  "has_clickhouse d \<longleftrightarrow> j_truthy d \<and> j_truthy (j_field d ''clickhouse'')"

definition fills_column :: "jval \<Rightarrow> string \<Rightarrow> bool" where
  "fills_column d col \<longleftrightarrow> has_clickhouse d \<and> j_field (j_field d ''clickhouse'') ''column'' = JStr col"

definition is_materialized :: "jval \<Rightarrow> bool" where
  "is_materialized d \<longleftrightarrow> j_truthy (j_field d ''clickhouse'') \<and>
     (j_nullish (j_field (j_field d ''clickhouse'') ''materialized'') \<or> j_truthy (j_field (j_field d ''clickhouse'') ''materialized''))"

definition own_block :: "jval \<Rightarrow> string \<Rightarrow> bool" where
  "own_block blocks ref \<longleftrightarrow> (case blocks of
     JObj kvs \<Rightarrow> ref \<in> fst ` set kvs | JArr vs \<Rightarrow> \<exists>i < length vs. ref = nat_text i | _ \<Rightarrow> False)"

definition inherited_member :: "jval \<Rightarrow> string \<Rightarrow> bool" where
  "inherited_member blocks ref \<longleftrightarrow> (case blocks of
     JObj kvs \<Rightarrow> ref \<in> set object_prototype_keys
   | JArr vs \<Rightarrow> ref \<in> set array_prototype_keys \<union> set object_prototype_keys
   | _ \<Rightarrow> False)"

definition enrichment_blocks :: "jval \<Rightarrow> jval" where
  "enrichment_blocks raw = (if j_nullish (j_field raw ''enrichments'') then JObj [] else j_field raw ''enrichments'')"

definition names_known_block :: "jval \<Rightarrow> jval \<Rightarrow> bool" where
  "names_known_block raw d \<longleftrightarrow>
     (j_truthy d \<and> j_truthy (j_field d ''source'') \<and> j_field (j_field d ''source'') ''kind'' = JStr ''enrichment'' \<longrightarrow>
      (\<exists>ref. j_field (j_field d ''source'') ''enrichment_ref'' = JStr ref \<and>
        (own_block (enrichment_blocks raw) ref \<or> inherited_member (enrichment_blocks raw) ref)))"

definition maskable :: "jval \<Rightarrow> bool" where
  "maskable d \<longleftrightarrow> (j_truthy d \<and> j_field d ''pii'' \<in> {JStr ''hash'', JStr ''tokenize''} \<longrightarrow>
     j_truthy (j_field d ''cedar'') \<and>
     (j_field (j_field d ''cedar'') ''cedar_type'' = JStr ''String'' \<or>
      j_nullish (j_field (j_field d ''cedar'') ''cedar_type'') \<and> j_field (j_field d ''cedar'') ''type'' = JStr ''String''))"

definition scopes :: "jval \<Rightarrow> bool" where
  "scopes d \<longleftrightarrow> j_field d ''scoping'' = JBool True"

definition rules_met :: "jval \<Rightarrow> jval list \<Rightarrow> bool" where
  "rules_met raw dims \<longleftrightarrow> (\<forall>d \<in> set dims. \<not> j_nullish d) \<and>
     \<comment> \<open>rule 1\<close>
     (\<forall>i < length dims. \<forall>j < length dims. scopes (dims ! i) \<and> scopes (dims ! j) \<longrightarrow> i = j) \<and>
     (\<forall>d \<in> set dims. scopes d \<longrightarrow> (\<exists>n. j_field d ''name'' = JStr n \<and> j_field raw ''scoping_dimension'' = JStr n)) \<and>
     ((\<exists>d \<in> set dims. scopes d) \<or> j_field raw ''scoping_dimension'' = JUndefined) \<and>
     \<comment> \<open>rule 2\<close>
     (\<forall>d \<in> set dims. j_truthy d \<longrightarrow> (\<exists>n. j_field d ''name'' = JStr n \<and> legal_name n)) \<and>
     \<comment> \<open>rules 3 and 4\<close>
     (\<forall>i < length dims. \<forall>j < length dims. \<forall>a. binds_attribute (dims ! i) a \<and> binds_attribute (dims ! j) a \<longrightarrow> i = j) \<and>
     (\<forall>d \<in> set dims. has_clickhouse d \<longrightarrow> (\<exists>rest. fills_column d (''dim_'' @ rest))) \<and>
     (\<forall>i < length dims. \<forall>j < length dims. \<forall>col. fills_column (dims ! i) col \<and> fills_column (dims ! j) col \<longrightarrow> i = j) \<and>
     \<comment> \<open>rules 5 and 6\<close>
     (\<forall>i < length dims. \<forall>n. refers_to (dims ! i) n \<longrightarrow> (\<exists>j < i. j_truthy (dims ! j) \<and> j_field (dims ! j) ''name'' = JStr n)) \<and>
     (\<forall>d \<in> set dims. names_known_block raw d) \<and>
     \<comment> \<open>rules 9 and 10, and the values of \<^verbatim>\<open>when_missing\<close>\<close>
     (\<forall>d \<in> set dims. maskable d) \<and>
     card {i. i < length dims \<and> is_materialized (dims ! i)} \<le> 24 \<and>
     (\<forall>d \<in> set dims. j_field d ''when_missing'' \<in> {JUndefined, JStr ''reject'', JStr ''null'', JStr ''default''})"

definition well_formed_schema :: "jval \<Rightarrow> bool" where
  "well_formed_schema raw \<longleftrightarrow> (\<exists>kvs v dims. raw = JObj kvs \<and> j_field raw ''version'' = JNum v \<and>
     j_field raw ''dimensions'' = JArr dims \<and> rules_met raw dims)"

subsection \<open>References of a template\<close>

lemma legal_name_iff: "dimension_name n \<longleftrightarrow> legal_name n"
  by (cases n) (auto simp: dimension_name_def legal_name_def name_char_def list_all_iff)

lemma mark_chars:
  "\<not> is_ws (CHR ''|'')" "\<not> is_ws (CHR ''}'')" "\<not> is_ws (CHR ''$'')"
  "\<not> name_char (CHR ''|'')" "\<not> name_char (CHR ''}'')" "\<not> name_char (CHR ''$'')"
  by (simp_all add: name_char_def is_lower_def is_digit_def is_ws_def)

lemma name_not_ws: "name_char c \<Longrightarrow> \<not> is_ws c"
  by (auto simp: name_char_def is_lower_def is_digit_def is_ws_def)

lemma derived_here_iff:
  "derived_here s = Some (n, rest) \<longleftrightarrow> legal_name n \<and> (\<exists>w1 w2 c. s = ''${'' @ w1 @ n @ w2 @ c # rest \<and>
     (\<forall>x \<in> set w1 \<union> set w2. is_ws x) \<and> c \<in> {CHR ''|'', CHR ''}''})" (is "?l \<longleftrightarrow> ?r")
proof
  assume ?l
  then obtain t where s: "s = ''${'' @ t" and d: "derived_here (''${'' @ t) = Some (n, rest)"
    by (cases "js_startsWith s ''${''") (auto simp: derived_here_def js_startsWith_iff)
  define r where "r = dropWhile is_ws t"
  define after where "after = dropWhile is_ws (dropWhile name_char r)"
  have e: "n = takeWhile name_char r" "legal_name n" "after \<noteq> []" "hd after \<in> {CHR ''|'', CHR ''}''}" "rest = tl after"
    using d by (auto simp: derived_here_def Let_def r_def after_def legal_name_iff js_startsWith_iff split: if_splits)
  have "t = takeWhile is_ws t @ r" "r = n @ dropWhile name_char r"
    "dropWhile name_char r = takeWhile is_ws (dropWhile name_char r) @ after" "after = hd after # rest"
    using e by (simp_all add: r_def after_def)
  then have "s = ''${'' @ takeWhile is_ws t @ n @ takeWhile is_ws (dropWhile name_char r) @ hd after # rest"
    unfolding s by (metis append.assoc)
  moreover have "\<forall>x \<in> set (takeWhile is_ws t) \<union> set (takeWhile is_ws (dropWhile name_char r)). is_ws x"
    by (auto dest: set_takeWhileD)
  ultimately show ?r using e by blast
next
  assume ?r
  then obtain w1 w2 c where n: "legal_name n" and s: "s = ''${'' @ w1 @ n @ w2 @ c # rest"
    and w: "\<forall>x \<in> set w1 \<union> set w2. is_ws x" and c: "c \<in> {CHR ''|'', CHR ''}''}" by blast
  have chars: "\<forall>x \<in> set n. name_char x" "n \<noteq> []" using n by (auto simp: legal_name_def name_char_def)
  have cn: "\<not> name_char c" "\<not> is_ws c" using c mark_chars by auto
  have r: "dropWhile is_ws (w1 @ n @ w2 @ c # rest) = n @ w2 @ c # rest"
    using w chars name_not_ws by (cases n) (auto simp: dropWhile_append2)
  have stop: "w2 @ c # rest \<noteq> []" "\<not> name_char (hd (w2 @ c # rest))"
    using w cn name_not_ws by (cases w2; auto)+
  have n2: "takeWhile name_char (n @ w2 @ c # rest) = n" "dropWhile name_char (n @ w2 @ c # rest) = w2 @ c # rest"
    using chars stop by (cases "w2 @ c # rest"; simp add: takeWhile_append2 dropWhile_append2)+
  have d: "dropWhile is_ws (w2 @ c # rest) = c # rest" using w cn by (auto simp: dropWhile_append2)
  have "js_startsWith (''${'' @ w1 @ n @ w2 @ c # rest) ''${''" "drop 2 (''${'' @ w1 @ n @ w2 @ c # rest) = w1 @ n @ w2 @ c # rest"
    by (simp_all add: js_startsWith_iff)
  then show ?l using n c unfolding derived_here_def s by (simp only: r n2 d Let_def legal_name_iff) auto
qed

text \<open>Two references do not overlap: neither \<^verbatim>\<open>$\<close> nor a bracket occurs inside one.\<close>

lemma reference_apart:
  assumes "before @ ''${'' @ u = w1 @ n @ w2 @ c # rest" and "\<forall>x \<in> set w1 \<union> set w2. is_ws x" and "\<forall>x \<in> set n. name_char x"
    and "c \<in> {CHR ''|'', CHR ''}''}"
  shows "\<exists>b. rest = b @ ''${'' @ u"
proof -
  define p where "p = w1 @ n @ w2 @ [c]"
  have no: "CHR ''$'' \<notin> set p" using assms(2-4) mark_chars by (auto simp: p_def)
  have "before @ ''${'' @ u = p @ rest" using assms(1) by (simp add: p_def)
  then obtain us where "before = p @ us \<and> us @ ''${'' @ u = rest \<or> before @ us = p \<and> ''${'' @ u = us @ rest"
    unfolding append_eq_append_conv2 by blast
  then show ?thesis
  proof (elim disjE conjE)
    assume us: "before @ us = p" "''${'' @ u = us @ rest"
    then have "us = []" using no by (cases us) auto
    then show ?thesis using us by (intro exI [of _ "[]"]) simp
  qed blast
qed

lemma mentions_here: "derived_here s = Some (n, rest) \<Longrightarrow> mentions s m \<longleftrightarrow> m = n \<or> mentions rest m"
proof
  assume h: "derived_here s = Some (n, rest)"
  then obtain w1 w2 c where n: "legal_name n" and s: "s = ''${'' @ w1 @ n @ w2 @ c # rest"
    and w: "\<forall>x \<in> set w1 \<union> set w2. is_ws x" and c: "c \<in> {CHR ''|'', CHR ''}''}" by (auto simp: derived_here_iff)
  assume "mentions s m"
  then obtain before v1 v2 d after where m: "legal_name m" "s = before @ ''${'' @ v1 @ m @ v2 @ d # after"
    "\<forall>x \<in> set v1 \<union> set v2. is_ws x" "d \<in> {CHR ''|'', CHR ''}''}" unfolding mentions_def by blast
  show "m = n \<or> mentions rest m"
  proof (cases before)
    case Nil
    then have "derived_here s = Some (m, after)" using m by (auto simp: derived_here_iff)
    then show ?thesis using h by simp
  next
    case (Cons x before')
    obtain y before'' where b: "before' = y # before''"
      using Cons m(2) s by (cases before') auto
    have "before'' @ ''${'' @ v1 @ m @ v2 @ d # after = w1 @ n @ w2 @ c # rest" using Cons b m(2) s by simp
    from reference_apart [OF this w _ c] n obtain b' where "rest = b' @ ''${'' @ v1 @ m @ v2 @ d # after"
      by (auto simp: legal_name_def name_char_def)
    then show ?thesis using m unfolding mentions_def by blast
  qed
next
  assume h: "derived_here s = Some (n, rest)" and "m = n \<or> mentions rest m"
  then show "mentions s m"
  proof (elim disjE)
    assume "m = n"
    with h show ?thesis unfolding derived_here_iff mentions_def by (metis append_Nil)
  next
    assume "mentions rest m"
    then obtain before v1 v2 d after where m: "legal_name m" "rest = before @ ''${'' @ v1 @ m @ v2 @ d # after"
      "\<forall>x \<in> set v1 \<union> set v2. is_ws x" "d \<in> {CHR ''|'', CHR ''}''}" unfolding mentions_def by blast
    from h obtain p where "s = p @ rest" unfolding derived_here_iff by (metis append.assoc append_Cons append_Nil)
    then have "s = (p @ before) @ ''${'' @ v1 @ m @ v2 @ d # after" using m(2) by simp
    then show ?thesis using m unfolding mentions_def by blast
  qed
qed

lemma mentions_not_here: "derived_here (x # s) = None \<Longrightarrow> mentions (x # s) m \<longleftrightarrow> mentions s m"
proof
  assume h: "derived_here (x # s) = None" and "mentions (x # s) m"
  then obtain before v1 v2 d after where m: "legal_name m" "x # s = before @ ''${'' @ v1 @ m @ v2 @ d # after"
    "\<forall>x \<in> set v1 \<union> set v2. is_ws x" "d \<in> {CHR ''|'', CHR ''}''}" unfolding mentions_def by blast
  show "mentions s m"
  proof (cases before)
    case Nil
    then have "derived_here (x # s) = Some (m, after)" using m by (auto simp: derived_here_iff)
    then show ?thesis using h by simp
  next
    case (Cons y b)
    then show ?thesis using m unfolding mentions_def by (metis append_Cons list.inject)
  qed
next
  assume "mentions s m"
  then show "mentions (x # s) m" unfolding mentions_def by (metis append_Cons)
qed

lemma references_found: "n \<in> set (parseDerivedReferences t) \<longleftrightarrow> mentions t n"
proof (induction t rule: parseDerivedReferences.induct)
  case (1 s)
  show ?case
  proof (cases s)
    case Nil
    then show ?thesis by (simp add: parseDerivedReferences.simps mentions_def)
  next
    case (Cons c r)
    show ?thesis
    proof (cases "derived_here s")
      case None
      then show ?thesis using 1(1) [OF Cons None] mentions_not_here [of c r n] Cons
        by (simp add: parseDerivedReferences.simps [of "c # r"])
    next
      case (Some p)
      obtain m rest where p: "p = (m, rest)" by fastforce
      then show ?thesis using 1(2) [OF Cons Some p [symmetric]] mentions_here [of s m rest n] Some Cons
        by (simp add: parseDerivedReferences.simps [of "c # r"])
    qed
  qed
qed

subsection \<open>The two agree\<close>

lemma found_iff: "a \<in> set (List.map_filter f xs) \<longleftrightarrow> (\<exists>i < length xs. f (xs ! i) = Some a)"
  by (induction xs) (auto simp: List.map_filter_simps Ex_less_Suc2 split: option.splits)

lemma distinct_found:
  "distinct (List.map_filter f xs) \<longleftrightarrow>
     (\<forall>i < length xs. \<forall>j < length xs. \<forall>a. f (xs ! i) = Some a \<and> f (xs ! j) = Some a \<longrightarrow> i = j)"
proof (induction xs)
  case (Cons x xs)
  have "(\<forall>i < length (x # xs). \<forall>j < length (x # xs). \<forall>a. f ((x # xs) ! i) = Some a \<and> f ((x # xs) ! j) = Some a \<longrightarrow> i = j) \<longleftrightarrow>
      (\<forall>i < length xs. \<forall>j < length xs. \<forall>a. f (xs ! i) = Some a \<and> f (xs ! j) = Some a \<longrightarrow> i = j) \<and>
      (\<forall>j < length xs. \<forall>a. \<not> (f x = Some a \<and> f (xs ! j) = Some a))"
    by (simp add: All_less_Suc2) blast
  then show ?case using Cons found_iff [of _ f xs] by (cases "f x") (auto simp: List.map_filter_simps)
qed (simp add: List.map_filter_simps)

lemma attribute_bound: "dim_attribute d = Some a \<longleftrightarrow> binds_attribute d a"
  by (auto simp: dim_attribute_def cedarAttribute_def binds_attribute_def j_string_iff)

lemma column_filled: "column_of d = Some col \<longleftrightarrow> fills_column d col"
  by (auto simp: column_of_def dim_clickhouse_def fills_column_def has_clickhouse_def j_string_iff)

lemma column_prefixed: "ok_column d \<longleftrightarrow> (has_clickhouse d \<longrightarrow> (\<exists>rest. fills_column d (''dim_'' @ rest)))"
  by (auto simp: ok_column_def column_filled js_startsWith_iff) (auto simp: dim_clickhouse_def has_clickhouse_def fills_column_def)

lemma block_known: "ok_enrichment raw d \<longleftrightarrow> names_known_block raw d"
proof -
  have "j_in ref e = Some True \<longleftrightarrow> own_block e ref \<or> inherited_member e ref" for ref e
    by (cases e) (auto simp: j_in_def own_block_def inherited_member_def)
  then show ?thesis by (simp add: ok_enrichment_def names_known_block_def enrichment_blocks_def j_default_def)
qed

lemma pii_maskable: "ok_pii d \<longleftrightarrow> maskable d"
  by (auto simp: ok_pii_def maskable_def cedarTypeOf_def j_default_def j_nullish_def)

lemma materialized_iff: "materialized d \<longleftrightarrow> is_materialized d"
  by (auto simp: materialized_def is_materialized_def j_default_def j_truthy_def)

lemma references_declared: "ok_derived dims \<longleftrightarrow>
    (\<forall>i < length dims. \<forall>n. refers_to (dims ! i) n \<longrightarrow> (\<exists>j < i. j_truthy (dims ! j) \<and> j_field (dims ! j) ''name'' = JStr n))"
proof -
  have t: "n \<in> set (case j_string v of Some t \<Rightarrow> parseDerivedReferences t | None \<Rightarrow> []) \<longleftrightarrow> (\<exists>t. v = JStr t \<and> mentions t n)" for v n
    by (cases v) (simp_all add: j_string_def references_found)
  have "j_truthy d \<and> n \<in> set (dim_refs d) \<longleftrightarrow> refers_to d n" for d n
  proof (cases "j_truthy (j_field d ''source'') \<and> j_field (j_field d ''source'') ''kind'' = JStr ''derived''")
    case True
    then show ?thesis by (simp only: dim_refs_def refers_to_def Let_def if_True t simp_thms)
  next
    case False
    then have "dim_refs d = []" "\<not> refers_to d n" by (auto simp: dim_refs_def refers_to_def Let_def)
    then show ?thesis by simp
  qed
  then show ?thesis unfolding ok_derived_def declares_def by blast
qed

lemma one_scope:
  "(\<forall>i < length dims. \<forall>j < length dims. scopes (dims ! i) \<and> scopes (dims ! j) \<longrightarrow> i = j) \<longleftrightarrow> length (filter scopes dims) \<le> 1"
proof -
  have "length (filter scopes dims) = card {i. i < length dims \<and> scopes (dims ! i)}" by (rule length_filter_conv_card)
  then show ?thesis using card_le_Suc0_iff_eq [of "{i. i < length dims \<and> scopes (dims ! i)}"] by auto
qed

lemma scoping_declared:
  assumes "\<forall>d \<in> set dims. ok_name d"
  shows "ok_scoping raw dims \<longleftrightarrow> length (filter scopes dims) \<le> 1 \<and>
    (\<forall>d \<in> set dims. scopes d \<longrightarrow> (\<exists>n. j_field d ''name'' = JStr n \<and> j_field raw ''scoping_dimension'' = JStr n)) \<and>
    ((\<exists>d \<in> set dims. scopes d) \<or> j_field raw ''scoping_dimension'' = JUndefined)"
proof -
  have f: "filter (\<lambda>d. j_field d ''scoping'' = JBool True) dims = filter scopes dims" by (simp add: scopes_def [abs_def])
  have mem: "d \<in> set (filter scopes dims) \<longleftrightarrow> d \<in> set dims \<and> scopes d" for d by simp
  have name: "\<exists>n. j_field d ''name'' = JStr n" if "d \<in> set dims" "scopes d" for d
  proof -
    have "j_truthy d" using that(2) by (cases d) (auto simp: scopes_def j_field_def j_prop_def j_truthy_def)
    then show ?thesis using assms that(1) by (auto simp: ok_name_def)
  qed
  show ?thesis
  proof (cases "filter scopes dims")
    case Nil
    then have "\<forall>d \<in> set dims. \<not> scopes d" by (simp add: filter_empty_conv)
    then show ?thesis by (auto simp: ok_scoping_def f Nil)
  next
    case (Cons d ds)
    then have d: "d \<in> set dims" "scopes d" using mem [of d] by auto
    from name [OF d] obtain n where n: "j_field d ''name'' = JStr n" by blast
    show ?thesis
    proof (cases ds)
      case Nil
      have "\<forall>e \<in> set dims. scopes e \<longrightarrow> e = d" using mem Cons Nil by auto
      then have "(\<forall>e \<in> set dims. scopes e \<longrightarrow> (\<exists>m. j_field e ''name'' = JStr m \<and> j_field raw ''scoping_dimension'' = JStr m)) \<longleftrightarrow>
          j_field raw ''scoping_dimension'' = JStr n" using n d by fastforce
      then show ?thesis using n d by (auto simp: ok_scoping_def f Cons Nil j_same_def)
    qed (simp add: ok_scoping_def f Cons)
  qed
qed

lemma schema_rules: "schema_ok raw dims \<longleftrightarrow> rules_met raw dims"
proof (cases "\<forall>d \<in> set dims. ok_name d")
  case False
  then show ?thesis unfolding schema_ok_def rules_met_def ok_name_def legal_name_iff by blast
next
  case True
  have name: "(\<forall>d \<in> set dims. ok_name d) \<longleftrightarrow> (\<forall>d \<in> set dims. j_truthy d \<longrightarrow> (\<exists>n. j_field d ''name'' = JStr n \<and> legal_name n))"
    by (simp add: ok_name_def legal_name_iff)
  have wm: "ok_missing d \<longleftrightarrow> j_field d ''when_missing'' \<in> {JUndefined, JStr ''reject'', JStr ''null'', JStr ''default''}" for d
    by (simp add: ok_missing_def missing_values_def)
  have mat: "length (filter materialized dims) = card {i. i < length dims \<and> is_materialized (dims ! i)}"
    by (simp add: length_filter_conv_card materialized_iff)
  show ?thesis
    unfolding schema_ok_def rules_met_def scoping_declared [OF True] one_scope distinct_found attribute_bound column_filled
      column_prefixed references_declared block_known pii_maskable mat wm name
    by (simp only: conj_assoc)
qed

section \<open>Properties\<close>

text \<open>C33: the validator accepts exactly the schemas that meet its rules, stated over the schema itself: an object with a
  numeric version and a list of dimensions, none of them \<^verbatim>\<open>null\<close>; at most one scoping dimension, and it is the declared
  one; legal names; no Cedar attribute and no column bound twice, every column a \<^verbatim>\<open>dim_\<close> one; templates that mention
  only dimensions before their own; an enrichment reference that is a block's own name, or (the code uses \<^verbatim>\<open>in\<close>) that
  of an inherited member; hashed and tokenized dimensions bound to a \<^verbatim>\<open>String\<close> attribute; at most 24 materialised columns;
  known \<^verbatim>\<open>when_missing\<close> values. A falsy entry of the list has no name to check, and what the
  regular expression does not take for a reference is not one.\<close>

theorem accepted_iff_well_formed: "parseAndValidate raw = Valid_Schema raw \<longleftrightarrow> well_formed_schema raw"
proof (cases "coerceSchema raw")
  case (Inl issues)
  have "\<not> well_formed_schema raw"
    using Inl by (auto simp: well_formed_schema_def coerceSchema_def j_is_object_def j_array_def j_typeof_def split: if_splits option.splits)
  then show ?thesis using Inl by (simp add: parseAndValidate_def)
next
  case (Inr dims)
  obtain kvs v where raw: "raw = JObj kvs" "j_field raw ''version'' = JNum v" "j_field raw ''dimensions'' = JArr dims"
    using Inr by (cases raw; cases "j_field raw ''version''"; cases "j_field raw ''dimensions''")
      (auto simp: coerceSchema_def j_is_object_def j_array_def j_typeof_def split: if_splits option.splits)
  have n: "list_ex j_nullish dims \<longleftrightarrow> \<not> (\<forall>d \<in> set dims. \<not> j_nullish d)" by (auto simp: list_ex_iff)
  have "parseAndValidate raw = Valid_Schema raw \<longleftrightarrow> validate raw dims = Some []"
    using Inr by (auto simp: parseAndValidate_def split: option.splits)
  also have "\<dots> \<longleftrightarrow> schema_ok raw dims"
    using rule6_ok [of raw dims]
    by (auto simp: validate_def schema_ok_def n rule1_ok rule2_ok rule3_ok rule4_ok rule5_ok rule9_ok
        rule10_ok ruleWhenMissing_ok ok_derived_def split: option.splits)
  also have "\<dots> \<longleftrightarrow> rules_met raw dims" by (rule schema_rules)
  also have "\<dots> \<longleftrightarrow> well_formed_schema raw" using raw by (simp add: well_formed_schema_def)
  finally show ?thesis .
qed

text \<open>A reference to an enrichment that no block declares passes when it is the name of a property
  every object inherits, such as \<^verbatim>\<open>toString\<close>.\<close>

theorem inherited_names_resolve:
  assumes "ref \<in> set object_prototype_keys"
  shows "rule6 (JObj [(''enrichments'', JObj [])])
    [JObj [(''name'', JStr n), (''source'', JObj [(''kind'', JStr ''enrichment''), (''enrichment_ref'', JStr ref)])]] = Some []"
  using assms
  by (simp add: rule6_def rule6_at_def j_field_def j_prop_def j_truthy_def j_string_def j_in_def j_default_def
      j_nullish_def Let_def)

theorem inherited_names_resolve_witness:
  "rule6 (JObj [(''enrichments'', JObj [])])
    [JObj [(''name'', JStr ''x''), (''source'', JObj [(''kind'', JStr ''enrichment''), (''enrichment_ref'', JStr ''toString'')])]] = Some []"
  by (rule inherited_names_resolve) (simp add: object_prototype_keys_def)

section \<open>Which version boots\<close>

text \<open>\<open>reconcileVersions\<close> with the version of a schema; the warning it logs, if any, is not modelled.\<close>

datatype init_error = No_Schema | Local_Behind int int

definition reconcileVersions :: "('s \<Rightarrow> int) \<Rightarrow> 's option \<Rightarrow> 's option \<Rightarrow> init_error + 's" where
  "reconcileVersions version loc live =
     (case (loc, live) of
        (None, None) \<Rightarrow> Inl No_Schema
      | (None, Some r) \<Rightarrow> Inr r
      | (Some l, None) \<Rightarrow> Inr l
      | (Some l, Some r) \<Rightarrow>
          if version l = version r then Inr l
          else if version l > version r then Inr r
          else Inl (Local_Behind (version l) (version r)))"

text \<open>When a live schema is known, the SDK boots only on its version, and refuses a local schema that
  is behind it.\<close>

theorem boots_on_live_version:
  "(\<exists>s. reconcileVersions version loc (Some r) = Inr s \<and> version s = version r) \<longleftrightarrow>
     (case loc of None \<Rightarrow> True | Some l \<Rightarrow> version r \<le> version l)"
  by (auto simp: reconcileVersions_def split: option.splits)

end
