(* ===== verification/Enrichment_Defs.thy ===== *)
theory Enrichment_Defs
  imports Js_Value
begin

text \<open>
  \<^verbatim>\<open>enrichment/types.ts\<close>: the one place where the loosely typed enrichment block of a tenant
  schema (\<^typ>\<open>jval\<close>, whatever the YAML said) is narrowed to the typed view the webhook client uses,
  with every \<^verbatim>\<open>EnrichmentConfigError\<close> of the source as a left value. Names of
  \<^verbatim>\<open>Object.prototype\<close> members (\<^verbatim>\<open>toString\<close>, \<^verbatim>\<open>constructor\<close>, \<dots>) are read as absent unless the
  block has them. The one-shot warnings go to the log and are not modelled.
\<close>

section \<open>Errors and typed blocks\<close>

datatype enrich_error = Enrichment_Failed string | Enrichment_Config string | Type_Error

datatype shape_type = Shape_String | Shape_Nullable

record cache_block =
  ck_key :: "string list"
  ck_ttl_ms :: rat
  ck_max_entries :: "rat option"
  ck_negative_ttl_ms :: "rat option"

record request_block =
  rq_method :: "string option"
  rq_include_dimensions :: jval

record enrich_full =
  ef_url :: string
  ef_timeout_ms :: jval
  ef_on_failure :: jval
  ef_cache :: cache_block
  ef_secret_ref :: string
  ef_request :: request_block
  ef_shape :: "(string \<times> shape_type) list"
  ef_send_raw :: jval
  ef_allow_http :: jval

definition about_ref :: "string \<Rightarrow> string \<Rightarrow> string" where
  "about_ref ref rest = ''enrichment '' @ [CHR 0x27] @ ref @ [CHR 0x27] @ rest"

definition quoted :: "string \<Rightarrow> string" where
  "quoted s = [CHR 0x27] @ s @ [CHR 0x27]"

section \<open>Durations\<close>

definition unit_ms :: "string \<Rightarrow> rat option" where
  "unit_ms u = (if u = [] \<or> u = ''ms'' then Some 1 else if u = ''s'' then Some 1000
     else if u = ''m'' then Some 60000 else if u = ''h'' then Some 3600000 else None)"

text \<open>\<^verbatim>\<open>/^(\d+)\s*(ms|s|m|h)?$/\<close> on the trimmed text.\<close>

definition duration_text :: "string \<Rightarrow> rat option" where
  "duration_text s =
     (let t = js_trim s; n = takeWhile is_digit t; u = dropWhile is_ws (dropWhile is_digit t) in
      if n = [] then None else map_option (\<lambda>m. of_nat (digits_val n) * m) (unit_ms u))"

definition duration_number :: "jval \<Rightarrow> rat option" where
  "duration_number v = (case j_number v of Some x \<Rightarrow> if x > 0 then Some x else None | None \<Rightarrow> None)"

definition parseDurationMs :: "jval \<Rightarrow> string \<Rightarrow> string \<Rightarrow> enrich_error + rat" where
  "parseDurationMs v field ref =
     (let bad = Inl (Enrichment_Config (about_ref ref ('' field '' @ quoted field @
            '' must be a duration (number ms or '' @ quoted ''5m'' @ ''/'' @ quoted ''30s'' @ ''/'' @ quoted ''250ms'' @ '')'')))
      in case duration_number v of
           Some x \<Rightarrow> Inr x
         | None \<Rightarrow> (case j_string v of
               None \<Rightarrow> bad
             | Some s \<Rightarrow> (case duration_text s of Some x \<Rightarrow> Inr x | None \<Rightarrow> bad)))"

section \<open>Blocks\<close>

definition string_array :: "jval \<Rightarrow> string list option" where
  "string_array v = (case j_array v of
     None \<Rightarrow> None
   | Some vs \<Rightarrow> if list_all (\<lambda>x. j_string x \<noteq> None) vs then Some (j_strings vs) else None)"

definition config_error :: "string \<Rightarrow> string \<Rightarrow> enrich_error + 'a" where
  "config_error ref rest = Inl (Enrichment_Config (about_ref ref rest))"

definition validateCache :: "jval \<Rightarrow> string \<Rightarrow> enrich_error + cache_block" where
  "validateCache raw ref =
     (if \<not> j_is_object raw then config_error ref ('' missing '' @ quoted ''cache'' @ '' block'')
      else case string_array (j_field raw ''key'') of
        None \<Rightarrow> config_error ref '' cache.key must be a string array''
      | Some ks \<Rightarrow>
          (let ttlSource = j_default (j_field raw ''ttl_ms'') (j_field raw ''ttl'') in
           if ttlSource = JUndefined then config_error ref '' cache.ttl missing''
           else case parseDurationMs ttlSource ''cache.ttl'' ref of
             Inl e \<Rightarrow> Inl e
           | Inr ttl \<Rightarrow>
               (let negSource = j_default (j_field raw ''negative_ttl_ms'') (j_field raw ''negative_ttl'');
                    out = \<lparr>ck_key = ks, ck_ttl_ms = ttl,
                       ck_max_entries = duration_number (j_field raw ''max_entries''),
                       ck_negative_ttl_ms = None\<rparr> in
                if negSource = JUndefined then Inr out
                else case parseDurationMs negSource ''cache.negative_ttl'' ref of
                  Inl e \<Rightarrow> Inl e
                | Inr neg \<Rightarrow> Inr (out\<lparr>ck_negative_ttl_ms := Some neg\<rparr>))))"

definition validateAuth :: "jval \<Rightarrow> string \<Rightarrow> enrich_error + string" where
  "validateAuth raw ref =
     (if \<not> j_is_object raw then config_error ref ('' missing '' @ quoted ''auth'' @ '' block'')
      else case j_string (j_field raw ''secret_ref'') of
        None \<Rightarrow> config_error ref '' auth.secret_ref must be a string''
      | Some s \<Rightarrow> Inr s)"

definition validateRequest :: "jval \<Rightarrow> jval \<Rightarrow> request_block" where
  "validateRequest raw fallbackInclude =
     (if \<not> j_is_object raw then \<lparr>rq_method = None, rq_include_dimensions = fallbackInclude\<rparr>
      else \<lparr>rq_method = (if j_field raw ''method'' = JStr ''POST'' \<or> j_field raw ''method'' = JStr ''GET''
                then j_string (j_field raw ''method'') else None),
            rq_include_dimensions = (if string_array (j_field raw ''include_dimensions'') \<noteq> None
                then j_field raw ''include_dimensions'' else fallbackInclude)\<rparr>)"

text \<open>An assignment \<^verbatim>\<open>out[k] = v\<close> of a string or \<^verbatim>\<open>null\<close> on a fresh object: the name \<^verbatim>\<open>__proto__\<close> reaches the
  prototype's setter and creates no key.\<close>

definition set_own :: "string \<Rightarrow> 'v \<Rightarrow> (string \<times> 'v) list \<Rightarrow> (string \<times> 'v) list" where
  "set_own k v m = (if k = ''__proto__'' then m else jm_set k v m)"

definition shape_entry :: "jval \<Rightarrow> shape_type option" where
  "shape_entry v =
     (if v = JStr ''string'' then Some Shape_String
      else if v = JStr ''string|null'' then Some Shape_Nullable
      else if j_is_object v \<and> (j_field v ''type'' = JStr ''string'' \<or> j_field v ''type'' = JUndefined)
      then Some Shape_String else None)"

fun shape_loop :: "string \<Rightarrow> (string \<times> jval) list \<Rightarrow> (string \<times> shape_type) list \<Rightarrow>
    enrich_error + (string \<times> shape_type) list" where
  "shape_loop ref [] shape = Inr shape"
| "shape_loop ref ((k, v) # kvs) shape =
     (case shape_entry v of
        None \<Rightarrow> config_error ref ('' response.shape['' @ quoted k @ ''] must be '' @ quoted ''string'' @ '' or '' @ quoted ''string|null'')
      | Some t \<Rightarrow> shape_loop ref kvs (set_own k t shape))"

definition j_entries :: "jval \<Rightarrow> (string \<times> jval) list" where
  "j_entries v = (case v of JObj kvs \<Rightarrow> kvs | _ \<Rightarrow> [])"

definition validateResponse :: "jval \<Rightarrow> string \<Rightarrow> enrich_error + (string \<times> shape_type) list" where
  "validateResponse raw ref =
     (if \<not> j_is_object raw then config_error ref ('' missing '' @ quoted ''response'' @ '' block'')
      else if \<not> j_is_object (j_field raw ''shape'') then config_error ref '' response.shape must be an object''
      else case shape_loop ref (j_entries (j_field raw ''shape'')) [] of
        Inl e \<Rightarrow> Inl e
      | Inr shape \<Rightarrow>
          if shape = [] then config_error ref '' response.shape must declare at least one key''
          else Inr shape)"

section \<open>The definition as a whole\<close>

definition asFullDef :: "jval \<Rightarrow> string \<Rightarrow> enrich_error + enrich_full" where
  "asFullDef d ref =
     (case j_nonempty_string (j_field d ''url'') of
        None \<Rightarrow> config_error ref ('' missing '' @ quoted ''url'')
      | Some url \<Rightarrow>
          (let allowHttp = (j_field d ''allow_http'' = JBool True) in
           if \<not> js_startsWith url ''https://'' \<and> \<not> (js_startsWith url ''http://'' \<and> allowHttp) then
             Inl (Enrichment_Config (''enrichment URL must be https:// (got '' @ url @ '')''))
           else case validateCache (j_field d ''cache'') ref of
             Inl e \<Rightarrow> Inl e
           | Inr cache \<Rightarrow> (case validateAuth (j_field d ''auth'') ref of
               Inl e \<Rightarrow> Inl e
             | Inr secret_ref \<Rightarrow>
                 (let request = validateRequest (j_field d ''request'')
                        (j_default (j_field d ''include_dimensions'') (JArr [])) in
                  case validateResponse (j_field d ''response'') ref of
                    Inl e \<Rightarrow> Inl e
                  | Inr shape \<Rightarrow>
                      if \<not> jm_has shape ref then
                        config_error ref '' response.shape must include the enrichment ref itself as a key''
                      else Inr \<lparr>ef_url = url, ef_timeout_ms = j_field d ''timeout_ms'',
                        ef_on_failure = j_field d ''on_failure'', ef_cache = cache,
                        ef_secret_ref = secret_ref, ef_request = request, ef_shape = shape,
                        ef_send_raw = j_field d ''send_raw'', ef_allow_http = j_field d ''allow_http''\<rparr>))))"

section \<open>What a narrowed definition is\<close>

lemma duration_nonneg:
  assumes "parseDurationMs v f r = Inr x" shows "0 \<le> x"
proof -
  have "0 \<le> y" if "duration_text s = Some y" for s y
  proof -
    have "0 \<le> m" if "unit_ms u = Some m" for u m using that by (auto simp: unit_ms_def split: if_splits)
    then show ?thesis using that by (auto simp: duration_text_def Let_def split: if_splits)
  qed
  moreover have "0 \<le> y" if "duration_number v = Some y" for y
    using that by (auto simp: duration_number_def split: option.splits if_splits)
  ultimately show ?thesis using assms by (auto simp: parseDurationMs_def Let_def split: option.splits)
qed

lemma validateCache_ttl:
  assumes "validateCache raw ref = Inr c"
  shows "0 \<le> ck_ttl_ms c" and "ck_negative_ttl_ms c = Some n \<Longrightarrow> 0 \<le> n"
    and "ck_max_entries c = Some m \<Longrightarrow> 0 < m" and "string_array (j_field raw ''key'') = Some (ck_key c)"
  using assms
  by (auto simp: validateCache_def Let_def config_error_def duration_number_def
      dest: duration_nonneg split: if_splits option.splits sum.splits)

lemma asFullDef_parts:
  assumes "asFullDef d ref = Inr f"
  shows "j_field d ''url'' = JStr (ef_url f)" "ef_on_failure f = j_field d ''on_failure''"
    "validateCache (j_field d ''cache'') ref = Inr (ef_cache f)" "jm_has (ef_shape f) ref"
    "js_startsWith (ef_url f) ''https://'' \<or> js_startsWith (ef_url f) ''http://'' \<and> j_field d ''allow_http'' = JBool True"
  using assms
  by (auto simp: asFullDef_def Let_def config_error_def j_nonempty_string_def
      split: if_splits option.splits sum.splits jval.splits)

text \<open>An enrichment the client will call is reached over HTTPS, or over plain HTTP only where the
  schema says \<^verbatim>\<open>allow_http: true\<close>; its response shape declares the enrichment's own name; and its times to
  live are not negative.\<close>

theorem narrowed_enrichment_is_safe:
  assumes "asFullDef d ref = Inr f"
  shows "(js_startsWith (ef_url f) ''https://'' \<or>
      js_startsWith (ef_url f) ''http://'' \<and> j_field d ''allow_http'' = JBool True) \<and>
    jm_get (ef_shape f) ref \<noteq> None \<and> 0 \<le> ck_ttl_ms (ef_cache f) \<and>
    (case ck_negative_ttl_ms (ef_cache f) of Some n \<Rightarrow> 0 \<le> n | None \<Rightarrow> True)"
  using asFullDef_parts [OF assms] validateCache_ttl [OF asFullDef_parts(3) [OF assms]]
  by (auto split: option.splits)

definition sample_block :: "string \<Rightarrow> string \<Rightarrow> jval" where
  "sample_block url on_failure = JObj [(''url'', JStr url), (''on_failure'', JStr on_failure),
     (''allow_http'', JBool True), (''include_dimensions'', JArr [JStr ''user'']),
     (''cache'', JObj [(''key'', JArr [JStr ''user'']), (''ttl'', JStr ''5m''), (''negative_ttl'', JStr ''30s'')]),
     (''auth'', JObj [(''secret_ref'', JStr ''env:HOOK'')]),
     (''response'', JObj [(''shape'', JObj [(''team'', JStr ''string|null'')])])]"

definition sample_def :: "string \<Rightarrow> string \<Rightarrow> enrich_full" where
  "sample_def url on_failure = \<lparr>ef_url = url, ef_timeout_ms = JUndefined, ef_on_failure = JStr on_failure,
     ef_cache = \<lparr>ck_key = [''user''], ck_ttl_ms = 300000, ck_max_entries = None, ck_negative_ttl_ms = Some 30000\<rparr>,
     ef_secret_ref = ''env:HOOK'',
     ef_request = \<lparr>rq_method = None, rq_include_dimensions = JArr [JStr ''user'']\<rparr>,
     ef_shape = [(''team'', Shape_Nullable)], ef_send_raw = JUndefined, ef_allow_http = JBool True\<rparr>"

lemma sample_duration:
  "duration_text ''5m'' = Some 300000" "duration_text ''30s'' = Some 30000"
  by (simp_all add: duration_text_def js_trim_def is_ws_def is_digit_def digits_val_def digit_val_def unit_ms_def Let_def)

lemma sample_narrowed:
  assumes "js_startsWith url ''https://'' \<or> js_startsWith url ''http://''"
  shows "asFullDef (sample_block url onf) ''team'' = Inr (sample_def url onf)"
proof -
  have "url \<noteq> []" using assms by (auto simp: js_startsWith_def)
  then show ?thesis using assms
    by (auto simp: asFullDef_def sample_block_def sample_def_def j_field_def j_prop_def j_nonempty_string_def
        validateCache_def validateAuth_def validateRequest_def validateResponse_def j_is_object_def
        string_array_def j_array_def j_string_def j_strings_def map_filter_def j_default_def j_nullish_def
        parseDurationMs_def duration_number_def j_number_def sample_duration shape_entry_def j_entries_def
        set_own_def Let_def)
qed

theorem narrowed_enrichment_is_safe_witness:
  "asFullDef (sample_block ''http://hook'' ''fail_open'') ''team'' = Inr (sample_def ''http://hook'' ''fail_open'') \<and>
   jm_get (ef_shape (sample_def ''http://hook'' ''fail_open'')) ''team'' \<noteq> None"
proof -
  have s: "asFullDef (sample_block ''http://hook'' ''fail_open'') ''team'' = Inr (sample_def ''http://hook'' ''fail_open'')"
    by (rule sample_narrowed) (simp add: js_startsWith_def)
  show ?thesis using narrowed_enrichment_is_safe [OF s] s by blast
qed

end
