(* ===== verification/Resolve_Dimensions.thy ===== *)
theory Resolve_Dimensions
  imports Derived_Template Manifest_Validator Field_Rules Enrichment_Defs
begin

text \<open>
  \<^verbatim>\<open>instrumentation/resolve-dimensions.ts\<close>: the dimensions of an event, one after the other in the order
  the tenant schema declares them, masked as they are resolved, then the pass over the required ones. What an
  enrichment answers (a value, null, or the error it throws) is an argument, a function of its ref and of the
  dimensions resolved before it. Also the priming of header dimensions in \<^verbatim>\<open>frameworks/express/dimensions.ts\<close>.
\<close>

section \<open>Dimensions\<close>

datatype dim_source = Dim_Context string | Dim_Request_Header string | Dim_Derived string | Dim_Enrichment string

datatype when_missing = Wm_Reject | Wm_Null | Wm_Default

text \<open>\<^verbatim>\<open>pii\<close> absent is \<^const>\<open>Mode_None\<close>: the code treats them alike.\<close>

record dimension =
  dm_name :: string
  dm_source :: dim_source
  dm_required :: bool
  dm_pii :: pii_mode
  dm_when_missing :: "when_missing option"

text \<open>A header is a text or a list of texts.\<close>

type_synonym headers = "(string \<times> (string + string list)) list"

record resolve_env =
  re_regex :: regex_engine
  re_crypto :: pii_crypto
  re_secrets :: "pii_secrets option"
  re_enrich :: "string \<Rightarrow> dims \<Rightarrow> enrich_error + string option"

datatype resolve_error = Not_Initialised | Template_Parse_Error string | Enrichment_Error enrich_error
  | Masking_Error string | Required_Dimension_Missing string

section \<open>Resolution\<close>

definition first_header :: "string + string list \<Rightarrow> string option" where
  "first_header v = (case v of Inl t \<Rightarrow> Some t | Inr [] \<Rightarrow> None | Inr (t # _) \<Rightarrow> Some t)"

definition readHeader :: "headers option \<Rightarrow> string \<Rightarrow> string option" where
  "readHeader headers name = (case headers of
     None \<Rightarrow> None
   | Some hs \<Rightarrow> Option.bind (jm_get hs (js_lower name)) first_header)"

definition resolveSingleDimension :: "resolve_env \<Rightarrow> dimension \<Rightarrow> (string \<times> string) list \<Rightarrow> dims \<Rightarrow>
    headers option \<Rightarrow> resolve_error + string option" where
  "resolveSingleDimension env dm ctxDims resolvedSoFar headers = (case dm_source dm of
     Dim_Context path \<Rightarrow> Inr (jm_get ctxDims path)
   | Dim_Request_Header header \<Rightarrow>
       Inr (case jm_get ctxDims (dm_name dm) of Some v \<Rightarrow> Some v | None \<Rightarrow> readHeader headers header)
   | Dim_Derived template \<Rightarrow> map_sum Template_Parse_Error id (evaluateTemplate (re_regex env) template resolvedSoFar)
   | Dim_Enrichment ref \<Rightarrow> map_sum Enrichment_Error id (re_enrich env ref resolvedSoFar))"

text \<open>\<open>draw\<close> numbers the random nonces of the tokenize mode.\<close>

definition mask_dimension :: "resolve_env \<Rightarrow> pii_mode \<Rightarrow> nat \<Rightarrow> string option \<Rightarrow> resolve_error + string option" where
  "mask_dimension env pii draw value = (case value of
     None \<Rightarrow> Inr None
   | Some v \<Rightarrow> if pii = Mode_None then Inr (Some v)
       else map_sum Masking_Error Some (applyPii (re_crypto env) (re_secrets env) draw v pii))"

fun resolve_loop :: "resolve_env \<Rightarrow> (string \<times> string) list \<Rightarrow> headers option \<Rightarrow> dimension list \<Rightarrow> nat \<Rightarrow> dims \<Rightarrow>
    resolve_error + dims" where
  "resolve_loop env ctxDims headers [] draw out = Inr out"
| "resolve_loop env ctxDims headers (dm # dims) draw out =
     (case resolveSingleDimension env dm ctxDims out headers of
        Inl e \<Rightarrow> Inl e
      | Inr raw \<Rightarrow> (case mask_dimension env (dm_pii dm) draw raw of
            Inl e \<Rightarrow> Inl e
          | Inr value \<Rightarrow> resolve_loop env ctxDims headers dims
              (if dm_pii dm = Mode_Tokenize \<and> raw \<noteq> None then Suc draw else draw)
              (jm_set (dm_name dm) value out)))"

definition missing_dimension :: "dims \<Rightarrow> dimension \<Rightarrow> bool" where
  "missing_dimension out dm \<longleftrightarrow> dm_required dm \<and> dim_get out (dm_name dm) = None \<and>
     (case dm_when_missing dm of None \<Rightarrow> True | Some w \<Rightarrow> w = Wm_Reject)"

definition resolveDimensions :: "resolve_env \<Rightarrow> dimension list option \<Rightarrow> (string \<times> string) list option \<Rightarrow>
    headers option \<Rightarrow> nat \<Rightarrow> resolve_error + dims" where
  "resolveDimensions env schema ctxDims headers draw = (case schema of
     None \<Rightarrow> Inl Not_Initialised
   | Some dims \<Rightarrow> (case resolve_loop env (case ctxDims of Some c \<Rightarrow> c | None \<Rightarrow> []) headers dims draw [] of
         Inl e \<Rightarrow> Inl e
       | Inr out \<Rightarrow> (case filter (missing_dimension out) dims of
             dm # _ \<Rightarrow> Inl (Required_Dimension_Missing (dm_name dm))
           | [] \<Rightarrow> Inr out)))"

text \<open>The Express middleware: the header dimensions it seeds the request's context with (\<^const>\<open>None\<close>: no schema,
  nothing is primed).\<close>

definition prime_header :: "headers \<Rightarrow> (string \<times> string) list \<Rightarrow> dimension \<Rightarrow> (string \<times> string) list" where
  "prime_header headers ds dm = (case dm_source dm of
     Dim_Request_Header h \<Rightarrow> (case Option.bind (jm_get headers (js_lower h)) first_header of
         Some v \<Rightarrow> jm_set (dm_name dm) v ds | None \<Rightarrow> ds)
   | _ \<Rightarrow> ds)"

definition agentumExpressAdapter :: "dimension list option \<Rightarrow> headers option \<Rightarrow> (string \<times> string) list option" where
  "agentumExpressAdapter schema headers =
     map_option (foldl (prime_header (case headers of Some h \<Rightarrow> h | None \<Rightarrow> [])) []) schema"

section \<open>Masking\<close>

definition masked_as :: "resolve_env \<Rightarrow> pii_mode \<Rightarrow> string \<Rightarrow> bool" where
  "masked_as env mode v = (case mode of
     Mode_None \<Rightarrow> True
   | Mode_Drop \<Rightarrow> v = redacted_literal
   | Mode_Hash \<Rightarrow> (\<exists>s key w. re_secrets env = Some s \<and> ps_hashSecret s = Some key \<and> v = ''h:'' @ pc_hmacHex (re_crypto env) key w)
   | Mode_Tokenize \<Rightarrow> (\<exists>s key n w. re_secrets env = Some s \<and> ps_tokenizeKey s = Some key \<and> v = ''t:'' @ pc_sealed (re_crypto env) key n w))"

definition masked_dims :: "resolve_env \<Rightarrow> dimension list \<Rightarrow> dims \<Rightarrow> bool" where
  "masked_dims env dims out \<longleftrightarrow> (\<forall>d \<in> set dims. \<forall>v. dim_get out (dm_name d) = Some v \<longrightarrow> masked_as env (dm_pii d) v)"

lemma dim_get_set: "dim_get (jm_set k v out) k' = (if k' = k then v else dim_get out k')"
  by (auto simp: dim_get_def jm_simps split: option.splits)

lemma dim_get_Nil [simp]: "dim_get [] k = None" by (simp add: dim_get_def)

lemma mask_dimension_masked: "mask_dimension env mode n raw = Inr (Some v) \<Longrightarrow> masked_as env mode v"
  by (auto simp: mask_dimension_def masked_as_def applyPii_def getPiiSecrets_def pii_hash_def pii_tokenize_def
      split: option.splits if_splits pii_mode.splits sum.splits)

lemma masked_dims_set:
  assumes "masked_dims env ds out" and "d \<in> set ds" and "distinct (map dm_name ds)"
    and "mask_dimension env (dm_pii d) n raw = Inr value"
  shows "masked_dims env ds (jm_set (dm_name d) value out)"
  unfolding masked_dims_def
proof (intro ballI allI impI)
  fix d' v assume d': "d' \<in> set ds" "dim_get (jm_set (dm_name d) value out) (dm_name d') = Some v"
  show "masked_as env (dm_pii d') v"
  proof (cases "dm_name d' = dm_name d")
    case True
    then have "d' = d" using assms(2,3) d'(1) by (meson eq_key_imp_eq_value distinct_map inj_onD)
    then show ?thesis using d'(2) assms(4) mask_dimension_masked by (simp add: dim_get_set)
  next
    case False
    then show ?thesis using assms(1) d' by (auto simp: masked_dims_def dim_get_set)
  qed
qed

lemma resolve_loop_masked:
  assumes "resolve_loop env c h ds n out = Inr res" and "masked_dims env all out" and "set ds \<subseteq> set all"
    and "distinct (map dm_name all)"
  shows "masked_dims env all res"
  using assms(1-3)
proof (induction ds arbitrary: n out)
  case (Cons d ds)
  then obtain raw v where "resolveSingleDimension env d c out h = Inr raw" and v: "mask_dimension env (dm_pii d) n raw = Inr v"
    and rest: "resolve_loop env c h ds (if dm_pii d = Mode_Tokenize \<and> raw \<noteq> None then Suc n else n) (jm_set (dm_name d) v out) = Inr res"
    by (auto split: sum.splits)
  show ?case
    using Cons.IH [OF rest masked_dims_set [OF Cons.prems(2) _ assms(4) v]] Cons.prems(3) by simp
qed simp

lemma resolve_loop_enrich:
  assumes "\<And>ref r. masked_dims env all r \<Longrightarrow> re_enrich env ref r = f ref r"
    and "masked_dims env all out" and "set ds \<subseteq> set all" and "distinct (map dm_name all)"
  shows "resolve_loop (env\<lparr>re_enrich := f\<rparr>) c h ds n out = resolve_loop env c h ds n out"
  using assms(2,3)
proof (induction ds arbitrary: n out)
  case (Cons d ds)
  have single: "resolveSingleDimension (env\<lparr>re_enrich := f\<rparr>) d c out h = resolveSingleDimension env d c out h"
    using assms(1) [OF Cons.prems(1)] by (simp add: resolveSingleDimension_def split: dim_source.splits)
  have mask: "mask_dimension (env\<lparr>re_enrich := f\<rparr>) p k r = mask_dimension env p k r" for p k r
    by (simp add: mask_dimension_def split: option.splits)
  show ?case
    using Cons.IH [OF masked_dims_set [OF Cons.prems(1) _ assms(4)]] Cons.prems(2)
    by (auto simp: single mask split: sum.splits)
qed simp

section \<open>The check at start-up\<close>

text \<open>\<^verbatim>\<open>assertSecretsForActiveSchema\<close> of \<^verbatim>\<open>pii/secrets.ts\<close>: what \<^verbatim>\<open>init()\<close> refuses to start with; \<^const>\<open>None\<close> when
  every keyed mode that the schema or the field rules declare has its secret.\<close>

datatype boot_error = No_Schema | Secrets_Not_Loaded string | Secret_Missing string

definition set_env_hint :: "string \<Rightarrow> string" where
  "set_env_hint var = '' but '' @ var @ '' is unset. Set it to 32 bytes of base64-encoded random data (e.g., `'' @ var @
     ''=$(openssl rand -base64 32)`). See .claude/plan/PII_MASKING_PIPELINE.md '' @ [CHR 0xA7] @ ''Secret resolution.''"

definition hash_env :: string where "hash_env = ''LUPID_PII_HASH_SECRET''"
definition tokenize_env :: string where "tokenize_env = ''LUPID_PII_TOKENIZE_KEY''"

definition missing_secret :: "pii_secrets \<Rightarrow> bool \<Rightarrow> bool \<Rightarrow> (string \<times> string) option" where
  "missing_secret s is_hash is_tokenize =
     (if is_hash \<and> ps_hashSecret s = None then Some (''hash'', hash_env)
      else if is_tokenize \<and> ps_tokenizeKey s = None then Some (''tokenize'', tokenize_env) else None)"

definition check_dimension :: "pii_secrets \<Rightarrow> dimension \<Rightarrow> string option" where
  "check_dimension s dm =
     map_option (\<lambda>(mode, var). ''agentum.init: schema declares `pii: '' @ mode @ ''` on dimension '' @ tick (dm_name dm) @ set_env_hint var)
       (missing_secret s (dm_pii dm = Mode_Hash) (dm_pii dm = Mode_Tokenize))"

definition check_rule :: "pii_secrets \<Rightarrow> nat \<Rightarrow> field_rule \<Rightarrow> string option" where
  "check_rule s i rule =
     map_option (\<lambda>(mode, var). ''agentum.init: pii.field_rules['' @ nat_text i @ ''] declares `mode: '' @ mode @ ''` for tool '' @
         tick (fr_tool rule) @ '' (path '' @ fr_path rule @ '')'' @ set_env_hint var)
       (missing_secret s (fr_mode rule = Rule_Hash) (fr_mode rule = Rule_Tokenize))"

fun first_message :: "string option list \<Rightarrow> string option" where
  "first_message [] = None"
| "first_message (Some e # _) = Some e"
| "first_message (None # es) = first_message es"

definition assertSecretsForActiveSchema :: "dimension list option \<Rightarrow> pii_secrets option \<Rightarrow> field_rule list option \<Rightarrow>
    boot_error option" where
  "assertSecretsForActiveSchema schema holder field_rules = (case schema of
     None \<Rightarrow> Some No_Schema
   | Some dims \<Rightarrow> (case getPiiSecrets holder of
         Inl e \<Rightarrow> Some (Secrets_Not_Loaded e)
       | Inr secrets \<Rightarrow> map_option Secret_Missing (first_message
           (map (check_dimension secrets) dims @
            (case field_rules of None \<Rightarrow> [] | Some rules \<Rightarrow>
               map (\<lambda>(i, rule). check_rule secrets i rule) (enumerate 0 rules))))))"

lemma first_message_None: "first_message es = None \<longleftrightarrow> (\<forall>e \<in> set es. e = None)"
  by (induction es rule: first_message.induct) auto

lemma boot_dimension:
  assumes "assertSecretsForActiveSchema (Some dims) (Some s) rules = None" and "d \<in> set dims"
  shows "dm_pii d = Mode_Hash \<Longrightarrow> ps_hashSecret s \<noteq> None" and "dm_pii d = Mode_Tokenize \<Longrightarrow> ps_tokenizeKey s \<noteq> None"
proof -
  have "check_dimension s d = None"
    using assms by (auto simp: assertSecretsForActiveSchema_def getPiiSecrets_def first_message_None)
  then show "dm_pii d = Mode_Hash \<Longrightarrow> ps_hashSecret s \<noteq> None" "dm_pii d = Mode_Tokenize \<Longrightarrow> ps_tokenizeKey s \<noteq> None"
    by (auto simp: check_dimension_def missing_secret_def split: if_splits)
qed

lemma booted_masks:
  assumes "assertSecretsForActiveSchema (Some dims) (Some s) rules = None" and "d \<in> set dims" and "re_secrets env = Some s"
  shows "mask_dimension env (dm_pii d) n raw \<noteq> Inl e"
  using boot_dimension [OF assms(1,2)] assms(3)
  by (auto simp: mask_dimension_def applyPii_def getPiiSecrets_def pii_hash_def pii_tokenize_def
      split: option.splits pii_mode.splits)

lemma map_sum_Inl: "map_sum f g x = Inl e \<longleftrightarrow> (\<exists>y. x = Inl y \<and> e = f y)"
  by (cases x) auto

lemma booted_loop:
  assumes "assertSecretsForActiveSchema (Some all) (Some s) rules = None" and "re_secrets env = Some s" and "set ds \<subseteq> set all"
  shows "resolve_loop env c h ds n out \<noteq> Inl (Masking_Error e)"
  using assms(3)
proof (induction ds arbitrary: n out)
  case (Cons d ds)
  have "resolveSingleDimension env d c out h \<noteq> Inl (Masking_Error e)"
    by (auto simp: resolveSingleDimension_def map_sum_Inl split: dim_source.splits)
  then show ?case using Cons booted_masks [OF assms(1) _ assms(2), of d n]
    by (auto split: sum.splits)
qed simp

section \<open>Properties\<close>

text \<open>C30: no dimension declared as personal data is reported in clear: when resolution of dimensions with distinct names succeeds, a
  dimension of mode drop that is not null is the redaction mark, one of mode hash a digest under the loaded hash secret, one of mode
  tokenize a ciphertext under the loaded key. (The validator does not ask for distinct names, and of two
  dimensions with one name the later overwrites the earlier.)\<close>

theorem resolved_dimensions_are_masked:
  assumes "resolveDimensions env (Some dims) ctx h n = Inr out" and "distinct (map dm_name dims)"
    and "d \<in> set dims" and "dim_get out (dm_name d) = Some v"
  shows "masked_as env (dm_pii d) v"
proof -
  have "resolve_loop env (case ctx of Some c \<Rightarrow> c | None \<Rightarrow> []) h dims n [] = Inr out"
    using assms(1) by (auto simp: resolveDimensions_def split: sum.splits list.splits)
  from resolve_loop_masked [OF this, of dims] have "masked_dims env dims out"
    using assms(2) by (simp add: masked_dims_def)
  then show ?thesis using assms(3,4) by (simp add: masked_dims_def)
qed

text \<open>Nor does it leave the process on the way: an enrichment webhook is only ever given dimensions that
  are already masked. Changing what the webhooks answer to unmasked dimensions changes nothing.\<close>

theorem webhooks_see_masked_dimensions:
  assumes "distinct (map dm_name dims)"
    and "\<And>ref r. masked_dims env dims r \<Longrightarrow> re_enrich env ref r = f ref r"
  shows "resolveDimensions (env\<lparr>re_enrich := f\<rparr>) (Some dims) ctx h n = resolveDimensions env (Some dims) ctx h n"
  using resolve_loop_enrich [where env = env and all = dims and f = f and ds = dims and out = "[]"] assms
  by (simp add: resolveDimensions_def masked_dims_def)

text \<open>A process that started under a schema can mask under it: after the start-up check passed, no event is
  ever lost because a dimension could not be masked.\<close>

theorem started_process_can_mask:
  assumes "assertSecretsForActiveSchema (Some dims) (Some s) rules = None" and "re_secrets env = Some s"
  shows "resolveDimensions env (Some dims) ctx h n \<noteq> Inl (Masking_Error e)"
  using booted_loop [OF assms, of dims] by (auto simp: resolveDimensions_def split: sum.splits list.splits)

text \<open>The dimensions an event is sent with hold a value for every required dimension that is not allowed to be
  missing, and an event is refused for the first such dimension without one.\<close>

lemma required_dimensions_are_present:
  assumes "resolve_loop env (case ctx of Some c \<Rightarrow> c | None \<Rightarrow> []) h dims n [] = Inr out"
  shows "resolveDimensions env (Some dims) ctx h n =
    (if \<exists>d \<in> set dims. missing_dimension out d
     then Inl (Required_Dimension_Missing (dm_name (hd (filter (missing_dimension out) dims)))) else Inr out)"
  using assms by (auto simp: resolveDimensions_def filter_empty_conv split: list.splits)

section \<open>Witnesses\<close>

definition sample_renv :: resolve_env where
  "sample_renv = \<lparr>re_regex = \<lparr>rx_error = \<lambda>_. None, rx_exec = \<lambda>_ _. None\<rparr>,
     re_crypto = \<lparr>pc_base64 = id, pc_hmacHex = (@), pc_sealed = \<lambda>k n v. rev v, pc_sha256Hex = None\<rparr>,
     re_secrets = None, re_enrich = \<lambda>ref r. Inr (dim_get r ''user'')\<rparr>"

definition sample_dimensions :: "dimension list" where
  "sample_dimensions =
     [\<lparr>dm_name = ''user'', dm_source = Dim_Context ''uid'', dm_required = True, dm_pii = Mode_Drop, dm_when_missing = None\<rparr>,
      \<lparr>dm_name = ''team'', dm_source = Dim_Enrichment ''team'', dm_required = False, dm_pii = Mode_None, dm_when_missing = None\<rparr>]"

lemma sample_resolution:
  "resolve_loop sample_renv [(''uid'', ''bob'')] None sample_dimensions 0 [] =
     Inr [(''user'', Some redacted_literal), (''team'', Some redacted_literal)]"
  by (simp add: sample_dimensions_def sample_renv_def resolveSingleDimension_def mask_dimension_def applyPii_def
      dim_get_def)

theorem resolved_dimensions_are_masked_witness:
  "resolveDimensions sample_renv (Some sample_dimensions) (Some [(''uid'', ''bob'')]) None 0 =
     Inr [(''user'', Some redacted_literal), (''team'', Some redacted_literal)] \<and>
   masked_as sample_renv Mode_Drop redacted_literal"
proof -
  have r: "resolveDimensions sample_renv (Some sample_dimensions) (Some [(''uid'', ''bob'')]) None 0 =
     Inr [(''user'', Some redacted_literal), (''team'', Some redacted_literal)]"
    by (simp add: resolveDimensions_def sample_resolution) (simp add: sample_dimensions_def missing_dimension_def dim_get_def)
  show ?thesis
    using r resolved_dimensions_are_masked [OF r _, of "hd sample_dimensions" redacted_literal]
    by (simp add: sample_dimensions_def dim_get_def)
qed

theorem webhooks_see_masked_dimensions_witness:
  "resolveDimensions (sample_renv\<lparr>re_enrich := \<lambda>ref r. if dim_get r ''user'' = Some ''bob'' then Inl Type_Error
       else Inr (dim_get r ''user'')\<rparr>) (Some sample_dimensions) (Some [(''uid'', ''bob'')]) None 0 =
   resolveDimensions sample_renv (Some sample_dimensions) (Some [(''uid'', ''bob'')]) None 0"
  by (rule webhooks_see_masked_dimensions)
    (auto simp: sample_dimensions_def sample_renv_def masked_dims_def masked_as_def redacted_literal_def)

lemma required_dimensions_are_present_example:
  "resolveDimensions sample_renv (Some [(hd sample_dimensions)\<lparr>dm_source := Dim_Derived ''${nobody}''\<rparr>]) None None 0 =
     Inl (Required_Dimension_Missing ''user'')"
proof -
  have i: "dim_ident ''nobody''"
    by (simp add: dim_ident_def ident_start_def ident_char_def is_lower_def is_upper_def is_digit_def)
  have "tmpl_tokenize ''${nobody}'' = Inr [Tseg_Interp ''nobody'' []]"
    using tokenize_print [of "[Tseg_Interp ''nobody'' []]"] i by (simp add: tmpl_tokenize_def print_template_def)
  then have "resolve_loop sample_renv (case None of Some c \<Rightarrow> c | None \<Rightarrow> []) None
      [(hd sample_dimensions)\<lparr>dm_source := Dim_Derived ''${nobody}''\<rparr>] 0 [] = Inr [(''user'', None)]"
    by (simp add: sample_dimensions_def resolveSingleDimension_def evaluateTemplate_def mask_dimension_def)
  from required_dimensions_are_present [OF this] show ?thesis
    by (simp add: sample_dimensions_def missing_dimension_def dim_get_def)
qed

theorem started_process_can_mask_witness:
  "assertSecretsForActiveSchema (Some [(hd sample_dimensions)\<lparr>dm_pii := Mode_Hash\<rparr>])
     (Some \<lparr>ps_hashSecret = Some ''k'', ps_tokenizeKey = None\<rparr>) None = None \<and>
   resolveDimensions (sample_renv\<lparr>re_secrets := Some \<lparr>ps_hashSecret = Some ''k'', ps_tokenizeKey = None\<rparr>\<rparr>)
     (Some [(hd sample_dimensions)\<lparr>dm_pii := Mode_Hash\<rparr>]) None None 0 \<noteq> Inl (Masking_Error ''no key'')"
proof -
  have b: "assertSecretsForActiveSchema (Some [(hd sample_dimensions)\<lparr>dm_pii := Mode_Hash\<rparr>])
     (Some \<lparr>ps_hashSecret = Some ''k'', ps_tokenizeKey = None\<rparr>) None = None"
    by (simp add: assertSecretsForActiveSchema_def getPiiSecrets_def check_dimension_def missing_secret_def)
  from b started_process_can_mask [OF b, of "sample_renv\<lparr>re_secrets := Some \<lparr>ps_hashSecret = Some ''k'', ps_tokenizeKey = None\<rparr>\<rparr>"
      None None 0 "''no key''"]
  show ?thesis by simp
qed

section \<open>References the validator does not see\<close>

text \<open>The validator looks for references with lower-case names only; the evaluator reads any identifier, and one
  with a capital letter, which no dimension can have, is null.\<close>

lemma capital_reference_is_not_validated:
  "parseDerivedReferences ''${Team}'' = []" "tmpl_tokenize ''${Team}'' = Inr [Tseg_Interp ''Team'' []]"
    "\<not> dimension_name ''Team''"
proof -
  show "parseDerivedReferences ''${Team}'' = []"
    by (simp add: parseDerivedReferences.simps derived_here_def js_startsWith_def Let_def is_ws_def name_char_def
        is_lower_def is_digit_def dimension_name_def)
  have "dim_ident ''Team''"
    by (simp add: dim_ident_def ident_start_def ident_char_def is_lower_def is_upper_def is_digit_def)
  then show "tmpl_tokenize ''${Team}'' = Inr [Tseg_Interp ''Team'' []]"
    using tokenize_print [of "[Tseg_Interp ''Team'' []]"] by (simp add: tmpl_tokenize_def print_template_def)
  show "\<not> dimension_name ''Team''" by (simp add: dimension_name_def is_lower_def)
qed

end
