(* ===== verification/Enrichment_Limits.thy ===== *)
theory Enrichment_Limits
  imports Complex_Main Breaker_Interface
begin

text \<open>
  What protects a webhook from the SDK and the SDK from a webhook: the per-ref circuit breaker
  (\<^verbatim>\<open>enrichment/circuit-breaker.ts\<close>) and the per-ref token bucket
  (\<^verbatim>\<open>enrichment/rate-limit.ts\<close>). Both keep a module-level \<open>Map\<close> from the ref to a mutable
  record; the model threads the map. Token counts are fractions (JS numbers read as rationals).
\<close>

section \<open>The breaker map\<close>

datatype br_state = Br_Closed | Br_Open | Br_Half_Open

record ref_state =
  rs_state :: br_state
  rs_failureTimes :: "int list"
  rs_openedAt :: int

type_synonym breaker_map = "(string \<times> ref_state) list"

definition failures_to_open :: nat where "failures_to_open = 5"
definition window_ms :: int where "window_ms = 30000"
definition open_duration_ms :: int where "open_duration_ms = 60000"

definition br_fresh :: ref_state where
  "br_fresh = \<lparr>rs_state = Br_Closed, rs_failureTimes = [], rs_openedAt = 0\<rparr>"

definition br_get :: "breaker_map \<Rightarrow> string \<Rightarrow> ref_state \<times> breaker_map" where
  "br_get m ref = (case jm_get m ref of Some s \<Rightarrow> (s, m) | None \<Rightarrow> (br_fresh, jm_set ref br_fresh m))"

definition checkBreaker :: "breaker_map \<Rightarrow> string \<Rightarrow> int \<Rightarrow> br_state \<times> breaker_map" where
  "checkBreaker m ref now =
     (let (s, m) = br_get m ref;
          s = (if rs_state s = Br_Open \<and> now - rs_openedAt s \<ge> open_duration_ms
               then s\<lparr>rs_state := Br_Half_Open\<rparr> else s)
      in (rs_state s, jm_set ref s m))"

definition recordBreakerSuccess :: "breaker_map \<Rightarrow> string \<Rightarrow> breaker_map" where
  "recordBreakerSuccess m ref =
     (let (s, m) = br_get m ref in
      jm_set ref (s\<lparr>rs_state := Br_Closed, rs_failureTimes := [], rs_openedAt := 0\<rparr>) m)"

definition recordBreakerFailure :: "breaker_map \<Rightarrow> string \<Rightarrow> int \<Rightarrow> breaker_map" where
  "recordBreakerFailure m ref now =
     (let (s, m) = br_get m ref in
      if rs_state s = Br_Half_Open then
        jm_set ref (s\<lparr>rs_state := Br_Open, rs_openedAt := now, rs_failureTimes := []\<rparr>) m
      else if rs_state s = Br_Open then m
      else
        (let cutoff = now - window_ms;
             times = dropWhile (\<lambda>t. t < cutoff) (rs_failureTimes s @ [now]) in
         if length times \<ge> failures_to_open then
           jm_set ref (s\<lparr>rs_failureTimes := [], rs_state := Br_Open, rs_openedAt := now\<rparr>) m
         else jm_set ref (s\<lparr>rs_failureTimes := times\<rparr>) m))"

section \<open>The breaker of one ref\<close>

definition br_of :: "breaker_map \<Rightarrow> string \<Rightarrow> ref_state" where
  "br_of m ref = fst (br_get m ref)"

definition br_inv :: "breaker_map \<Rightarrow> bool" where
  "br_inv m \<longleftrightarrow> (\<forall>ref. length (rs_failureTimes (br_of m ref)) < failures_to_open \<and>
     (rs_state (br_of m ref) \<noteq> Br_Closed \<longrightarrow> rs_failureTimes (br_of m ref) = []))"

definition br_closed :: "string \<Rightarrow> breaker_map \<Rightarrow> bool" where
  "br_closed ref m \<longleftrightarrow> rs_state (br_of m ref) = Br_Closed"

definition br_opened :: "string \<Rightarrow> breaker_map \<Rightarrow> int option" where
  "br_opened ref m = (if rs_state (br_of m ref) = Br_Open then Some (rs_openedAt (br_of m ref)) else None)"

definition br_admit :: "string \<Rightarrow> breaker_map \<Rightarrow> int \<Rightarrow> bool \<times> breaker_map" where
  "br_admit ref m now = (let (st, m') = checkBreaker m ref now in (st \<noteq> Br_Open, m'))"

lemma br_of_set: "br_of (jm_set ref s m) ref' = (if ref = ref' then s else br_of m ref')"
  by (simp add: br_of_def br_get_def jm_get_set split: option.splits)

lemma br_get_of: "fst (br_get m ref) = br_of m ref" "br_of (snd (br_get m ref)) r = br_of m r"
  by (auto simp: br_of_def br_get_def jm_get_set split: option.splits)

lemma br_of_check:
  "br_of (snd (checkBreaker m ref now)) r =
     (if r = ref \<and> rs_state (br_of m ref) = Br_Open \<and> now - rs_openedAt (br_of m ref) \<ge> open_duration_ms
      then (br_of m ref)\<lparr>rs_state := Br_Half_Open\<rparr> else br_of m r)"
  "fst (checkBreaker m ref now) =
     (if rs_state (br_of m ref) = Br_Open \<and> now - rs_openedAt (br_of m ref) \<ge> open_duration_ms
      then Br_Half_Open else rs_state (br_of m ref))"
  by (auto simp: checkBreaker_def case_prod_unfold Let_def br_of_set br_get_of)

lemma br_of_success:
  "br_of (recordBreakerSuccess m ref) r = (if r = ref then br_fresh else br_of m r)"
  by (auto simp: recordBreakerSuccess_def case_prod_unfold Let_def br_of_set br_get_of br_fresh_def)

definition br_failed :: "ref_state \<Rightarrow> int \<Rightarrow> ref_state" where
  "br_failed s now =
     (let times = dropWhile (\<lambda>t. t < now - window_ms) (rs_failureTimes s @ [now]) in
      if rs_state s = Br_Half_Open then s\<lparr>rs_state := Br_Open, rs_openedAt := now, rs_failureTimes := []\<rparr>
      else if rs_state s = Br_Open then s
      else if length times \<ge> failures_to_open
      then s\<lparr>rs_failureTimes := [], rs_state := Br_Open, rs_openedAt := now\<rparr>
      else s\<lparr>rs_failureTimes := times\<rparr>)"

lemma br_of_failure:
  "br_of (recordBreakerFailure m ref now) r = (if r = ref then br_failed (br_of m ref) now else br_of m r)"
  by (auto simp: recordBreakerFailure_def br_failed_def case_prod_unfold Let_def br_of_set br_get_of)

lemma br_of_empty: "br_of [] ref = \<lparr>rs_state = Br_Closed, rs_failureTimes = [], rs_openedAt = 0\<rparr>"
  by (simp add: br_of_def br_get_def br_fresh_def)

lemma br_inv_empty: "br_inv []"
  by (simp add: br_inv_def br_of_def br_get_def br_fresh_def failures_to_open_def)

lemma br_cases: "rs_state s \<noteq> Br_Open \<Longrightarrow> rs_state s \<noteq> Br_Half_Open \<Longrightarrow> rs_state s = Br_Closed"
  by (cases "rs_state s") auto

definition rs_inv :: "ref_state \<Rightarrow> bool" where
  "rs_inv s \<longleftrightarrow> length (rs_failureTimes s) < failures_to_open \<and>
     (rs_state s \<noteq> Br_Closed \<longrightarrow> rs_failureTimes s = [])"

lemma br_inv_rs: "br_inv m \<longleftrightarrow> (\<forall>ref. rs_inv (br_of m ref))"
  by (simp add: br_inv_def rs_inv_def)

lemma rs_inv_fresh: "rs_inv br_fresh"
  by (simp add: rs_inv_def br_fresh_def failures_to_open_def)

lemma rs_inv_failed: "rs_inv s \<Longrightarrow> rs_inv (br_failed s now)"
  by (cases "rs_state s") (simp_all add: rs_inv_def br_failed_def failures_to_open_def Let_def)

lemma br_inv_ops:
  assumes "br_inv m"
  shows "br_inv (snd (checkBreaker m ref now))" and "br_inv (recordBreakerSuccess m ref)"
    and "br_inv (recordBreakerFailure m ref now)"
proof -
  note i = assms [unfolded br_inv_rs, rule_format]
  show "br_inv (snd (checkBreaker m ref now))"
    using i by (simp add: br_inv_rs br_of_check) (simp add: rs_inv_def failures_to_open_def)
  show "br_inv (recordBreakerSuccess m ref)" using i by (simp add: br_inv_rs br_of_success rs_inv_fresh)
  show "br_inv (recordBreakerFailure m ref now)"
    using i by (simp add: br_inv_rs br_of_failure rs_inv_failed)
qed

lemma br_opened_iff:
  "br_opened ref m = Some t \<longleftrightarrow> rs_state (br_of m ref) = Br_Open \<and> rs_openedAt (br_of m ref) = t"
  "br_opened ref m = None \<longleftrightarrow> rs_state (br_of m ref) \<noteq> Br_Open"
  by (auto simp: br_opened_def)

lemma br_admit_eqs:
  "fst (br_admit ref m now) = (fst (checkBreaker m ref now) \<noteq> Br_Open)"
  "snd (br_admit ref m now) = snd (checkBreaker m ref now)"
  by (simp_all add: br_admit_def case_prod_unfold Let_def)

interpretation br: breaker br_inv "br_admit ref" "\<lambda>m. recordBreakerSuccess m ref"
  "\<lambda>m. recordBreakerFailure m ref" "br_closed ref" "br_opened ref" open_duration_ms for ref
proof (unfold_locales, goal_cases)
  case (1 m now) then show ?case by (simp add: br_admit_eqs br_inv_ops)
next
  case (2 m) then show ?case by (simp add: br_inv_ops)
next
  case (3 m now) then show ?case by (simp add: br_inv_ops)
next
  case (4 m now) then show ?case by (simp add: br_admit_eqs br_closed_def br_of_check)
next
  case (5 m t now) then show ?case by (simp add: br_admit_eqs br_opened_iff br_of_check)
next
  case (6 m t now) then show ?case by (simp add: br_admit_eqs br_opened_iff br_closed_def br_of_check)
next
  case (7 m) then show ?case by (simp add: br_closed_def br_of_success br_fresh_def)
next
  case (8 m now)
  then have "rs_state (br_of m ref) = Br_Half_Open"
    using br_cases [of "br_of m ref"] by (auto simp: br_opened_iff br_closed_def)
  then show ?case by (simp add: br_opened_iff br_of_failure br_failed_def)
qed

section \<open>When the breaker of a ref opens\<close>

definition br_failures :: "breaker_map \<Rightarrow> string \<Rightarrow> int list \<Rightarrow> breaker_map" where
  "br_failures m ref ts = foldl (\<lambda>m t. recordBreakerFailure m ref t) m ts"

lemma br_failures_snoc: "br_failures m ref (ts @ [t]) = recordBreakerFailure (br_failures m ref ts) ref t"
  by (simp add: br_failures_def)

definition five_within :: "int list \<Rightarrow> bool" where
  "five_within ts = list_ex (\<lambda>i. ts ! (i + 4) - ts ! i \<le> window_ms) [0..<length ts - 4]"

lemma dropWhile_sorted_length:
  "sorted (xs :: int list) \<Longrightarrow> 0 < k \<Longrightarrow>
     (k \<le> length (dropWhile (\<lambda>t. t < c) xs) \<longleftrightarrow> k \<le> length xs \<and> c \<le> xs ! (length xs - k))"
proof (induction xs)
  case (Cons x xs)
  show ?case
  proof (cases "x < c")
    case True
    then show ?thesis using Cons by (cases "k = Suc (length xs)") (auto simp: Suc_diff_le)
  next
    case False
    have "k \<le> Suc (length xs) \<Longrightarrow> c \<le> (x # xs) ! (Suc (length xs) - k)"
      using False Cons.prems
      by (cases "Suc (length xs) - k") (auto intro: order_trans [of c x])
    then show ?thesis using False by auto
  qed
qed simp

lemma dropWhile_twice:
  "c \<le> (d :: int) \<Longrightarrow> dropWhile (\<lambda>t. t < d) (dropWhile (\<lambda>t. t < c) ts @ [t]) = dropWhile (\<lambda>t. t < d) (ts @ [t])"
  by (induction ts) auto

lemma five_within_iff: "five_within ts \<longleftrightarrow> (\<exists>i. i + 4 < length ts \<and> ts ! (i + 4) - ts ! i \<le> window_ms)"
  by (auto simp: five_within_def list_ex_iff less_diff_conv)

lemma five_within_snoc:
  "five_within (ts @ [t]) \<longleftrightarrow> five_within ts \<or> (4 \<le> length ts \<and> t - ts ! (length ts - 4) \<le> window_ms)"
proof
  assume "five_within (ts @ [t])"
  then obtain i where i: "i + 4 < Suc (length ts)" "(ts @ [t]) ! (i + 4) - (ts @ [t]) ! i \<le> window_ms"
    unfolding five_within_iff by auto
  show "five_within ts \<or> (4 \<le> length ts \<and> t - ts ! (length ts - 4) \<le> window_ms)"
  proof (cases "i + 4 = length ts")
    case True
    then have "length ts - 4 = i" by simp
    then show ?thesis using i True by (auto simp: nth_append)
  next
    case False
    then have "i + 4 < length ts" "i < length ts" using i by auto
    then show ?thesis using i unfolding five_within_iff by (auto simp: nth_append)
  qed
next
  assume r: "five_within ts \<or> (4 \<le> length ts \<and> t - ts ! (length ts - 4) \<le> window_ms)"
  show "five_within (ts @ [t])"
  proof (cases "five_within ts")
    case True
    then obtain i where i: "i + 4 < length ts" "ts ! (i + 4) - ts ! i \<le> window_ms"
      unfolding five_within_iff by auto
    have "i < length ts" using i by simp
    with i have "i + 4 < length (ts @ [t]) \<and> (ts @ [t]) ! (i + 4) - (ts @ [t]) ! i \<le> window_ms"
      by (simp add: nth_append)
    then show ?thesis unfolding five_within_iff by blast
  next
    case False
    then have "length ts - 4 + 4 < length (ts @ [t]) \<and>
        (ts @ [t]) ! (length ts - 4 + 4) - (ts @ [t]) ! (length ts - 4) \<le> window_ms"
      using r by (auto simp: nth_append)
    then show ?thesis unfolding five_within_iff by blast
  qed
qed

lemma br_failures_state:
  assumes "br_of m ref = br_fresh" and "sorted ts"
  shows "if five_within ts then rs_state (br_of (br_failures m ref ts) ref) = Br_Open
    else rs_state (br_of (br_failures m ref ts) ref) = Br_Closed \<and>
      (\<exists>c. (ts \<noteq> [] \<longrightarrow> c \<le> last ts - window_ms) \<and>
        rs_failureTimes (br_of (br_failures m ref ts) ref) = dropWhile (\<lambda>t. t < c) ts)"
  using assms(2)
proof (induction ts rule: rev_induct)
  case Nil
  then show ?case using assms(1) by (simp add: br_failures_def br_fresh_def five_within_def)
next
  case (snoc t ts)
  let ?s = "br_of (br_failures m ref ts) ref"
  have sorted: "sorted ts" and le: "ts \<noteq> [] \<longrightarrow> last ts \<le> t"
    using snoc.prems by (auto simp: sorted_append)
  show ?case
  proof (cases "five_within ts")
    case True
    then have "rs_state ?s = Br_Open" using snoc.IH [OF sorted] by simp
    then show ?thesis using True
      by (simp add: five_within_snoc br_failures_snoc br_of_failure br_failed_def)
  next
    case False
    then obtain c where st: "rs_state ?s = Br_Closed" and c: "ts \<noteq> [] \<longrightarrow> c \<le> last ts - window_ms"
      and ft: "rs_failureTimes ?s = dropWhile (\<lambda>t. t < c) ts" using snoc.IH [OF sorted] by auto
    define times where "times = dropWhile (\<lambda>u. u < t - window_ms) (rs_failureTimes ?s @ [t])"
    have times: "times = dropWhile (\<lambda>u. u < t - window_ms) (ts @ [t])"
      unfolding times_def ft using dropWhile_twice [of c "t - window_ms" ts t] c le
      by (cases "ts = []") auto
    have len: "failures_to_open \<le> length times \<longleftrightarrow> 4 \<le> length ts \<and> t - ts ! (length ts - 4) \<le> window_ms"
      using dropWhile_sorted_length [OF snoc.prems, of 5 "t - window_ms"]
      by (auto simp: times failures_to_open_def nth_append)
    show ?thesis using False st len
      by (auto simp: five_within_snoc br_failures_snoc br_of_failure br_failed_def Let_def
          times_def [symmetric] times intro!: exI [of _ "t - window_ms"])
  qed
qed

text \<open>A webhook with no recorded failure is cut off by a sequence of failed fetches exactly
  when five of them, in a row, fall within 30 seconds; otherwise its breaker stays closed. Another
  webhook's breaker is not touched by them.\<close>

theorem webhook_breaker_trips:
  assumes "br_of m ref = br_fresh" and "sorted ts"
  shows "(rs_state (br_of (br_failures m ref ts) ref) = Br_Open \<longleftrightarrow> five_within ts) \<and>
    (rs_state (br_of (br_failures m ref ts) ref) = Br_Closed \<longleftrightarrow> \<not> five_within ts) \<and>
    (\<forall>other. other \<noteq> ref \<longrightarrow> br_of (br_failures m ref ts) other = br_of m other)"
proof -
  have "other \<noteq> ref \<longrightarrow> br_of (br_failures m ref ts) other = br_of m other" for other
    by (induction ts rule: rev_induct) (auto simp: br_failures_def br_of_failure)
  then show ?thesis using br_failures_state [OF assms] by (auto split: if_splits)
qed

theorem webhook_breaker_trips_witness:
  "rs_state (br_of (br_failures [] ''enrich_a'' [0, 9000, 18000, 27000, 30000]) ''enrich_a'') = Br_Open \<and>
   rs_state (br_of (br_failures [] ''enrich_a'' [0, 9000, 18000, 27000, 30001, 39001]) ''enrich_a'') = Br_Closed"
  using webhook_breaker_trips [of "[]" "''enrich_a''" "[0, 9000, 18000, 27000, 30000]"]
    webhook_breaker_trips [of "[]" "''enrich_a''" "[0, 9000, 18000, 27000, 30001, 39001]"]
  by (simp add: br_of_def br_get_def five_within_def window_ms_def upt_rec)

text \<open>Once a webhook's breaker is open no fetch goes out for 60 seconds; after that the
  breaker is half open and, until an outcome is recorded, lets every caller through (the comment
  promises a single probe).\<close>

theorem webhook_breaker_half_open_admits_all:
  assumes "br_inv m" and "rs_state (br_of m ref) = Br_Open"
    and "\<forall>t \<in> set ts. t - rs_openedAt (br_of m ref) < open_duration_ms"
    and "open_duration_ms \<le> probe - rs_openedAt (br_of m ref)"
  shows "let m' = snd (admit_run (br_admit ref) m ts) in
    fst (admit_run (br_admit ref) m ts) = replicate (length ts) False \<and>
    fst (admit_run (br_admit ref) m' (probe # later)) = replicate (Suc (length later)) True"
proof -
  have o: "br_opened ref m = Some (rs_openedAt (br_of m ref))" using assms(2) by (simp add: br_opened_def)
  note rej = br.rejected_while_open [OF assms(1) o assms(3)]
  define m' where "m' = snd (admit_run (br_admit ref) m ts)"
  have o': "rs_state (br_of m' ref) = Br_Open \<and> rs_openedAt (br_of m' ref) = rs_openedAt (br_of m ref)"
    using conjunct2 [OF rej] by (auto simp: br_opened_def m'_def split: if_splits)
  have half: "rs_state (br_of m2 ref) = Br_Half_Open \<Longrightarrow>
      fst (admit_run (br_admit ref) m2 us) = replicate (length us) True" for m2 us
    by (induction us arbitrary: m2) (auto simp: br_admit_def case_prod_unfold Let_def br_of_check)
  show ?thesis using rej o' assms(4)
    by (simp add: m'_def [symmetric] Let_def case_prod_unfold half br_of_check br_admit_def)
qed

theorem webhook_breaker_half_open_admits_all_witness:
  "fst (admit_run (br_admit ''enrich_a'') (br_failures [] ''enrich_a'' [1, 2, 3, 4, 5]) [6, 60004]) = [False, False] \<and>
   fst (admit_run (br_admit ''enrich_a'')
     (snd (admit_run (br_admit ''enrich_a'') (br_failures [] ''enrich_a'' [1, 2, 3, 4, 5]) [6, 60004]))
     [60005, 60006, 60007]) = [True, True, True]"
proof -
  have "br_of (br_failures [] ''enrich_a'' [1, 2, 3, 4, 5]) ''enrich_a'' =
      \<lparr>rs_state = Br_Open, rs_failureTimes = [], rs_openedAt = 5\<rparr>"
    by (simp add: br_failures_def br_of_failure br_of_empty br_failed_def window_ms_def failures_to_open_def)
  moreover have "br_inv (br_failures [] ''enrich_a'' [1, 2, 3, 4, 5])"
    by (simp add: br_failures_def br_inv_ops br_inv_empty)
  ultimately show ?thesis
    using webhook_breaker_half_open_admits_all
      [of "br_failures [] ''enrich_a'' [1, 2, 3, 4, 5]" "''enrich_a''" "[6, 60004]" 60005 "[60006, 60007]"]
    by (simp add: Let_def open_duration_ms_def del: admit_run.simps)
qed

section \<open>The token bucket\<close>

record bucket =
  bk_tokens :: rat
  bk_lastRefillMs :: int

record rate_config =
  rc_capacity :: rat
  rc_refillPerSec :: rat

definition rate_default :: rate_config where
  "rate_default = \<lparr>rc_capacity = 1000, rc_refillPerSec = 1000\<rparr>"

type_synonym buckets = "(string \<times> bucket) list"

definition tryAcquireToken :: "rate_config \<Rightarrow> buckets \<Rightarrow> string \<Rightarrow> int \<Rightarrow> bool \<times> buckets" where
  "tryAcquireToken config m ref now =
     (let b = (case jm_get m ref of Some b \<Rightarrow> b
               | None \<Rightarrow> \<lparr>bk_tokens = rc_capacity config, bk_lastRefillMs = now\<rparr>);
          elapsedSec = max 0 (of_int (now - bk_lastRefillMs b) / 1000);
          b = (if elapsedSec > 0
               then \<lparr>bk_tokens = min (rc_capacity config) (bk_tokens b + elapsedSec * rc_refillPerSec config),
                     bk_lastRefillMs = now\<rparr>
               else b)
      in if bk_tokens b \<ge> 1 then (True, jm_set ref (b\<lparr>bk_tokens := bk_tokens b - 1\<rparr>) m)
         else (False, jm_set ref b m))"

fun acquire_run :: "rate_config \<Rightarrow> buckets \<Rightarrow> (string \<times> int) list \<Rightarrow> bool list \<times> buckets" where
  "acquire_run config m [] = ([], m)"
| "acquire_run config m ((ref, now) # cs) =
     (let (ok, m') = tryAcquireToken config m ref now; (oks, m'') = acquire_run config m' cs
      in (ok # oks, m''))"

definition granted :: "rate_config \<Rightarrow> buckets \<Rightarrow> (string \<times> int) list \<Rightarrow> string \<Rightarrow> nat" where
  "granted config m cs ref =
     length (filter (\<lambda>((r, t), ok). r = ref \<and> ok) (zip cs (fst (acquire_run config m cs))))"

definition rate_inv :: "rate_config \<Rightarrow> buckets \<Rightarrow> int \<Rightarrow> int \<Rightarrow> bool" where
  "rate_inv config m t0 t1 \<longleftrightarrow> (\<forall>ref b. jm_get m ref = Some b \<longrightarrow>
     0 \<le> bk_tokens b \<and> bk_tokens b \<le> rc_capacity config \<and> t0 \<le> bk_lastRefillMs b \<and> bk_lastRefillMs b \<le> t1)"

text \<open>The credit of a ref at the end of a period: what its bucket holds plus what can still be
  refilled before the period ends.\<close>

definition credit :: "rate_config \<Rightarrow> buckets \<Rightarrow> int \<Rightarrow> int \<Rightarrow> string \<Rightarrow> rat" where
  "credit config m t0 t1 ref =
     (case jm_get m ref of
        None \<Rightarrow> rc_capacity config + of_int (t1 - t0) / 1000 * rc_refillPerSec config
      | Some b \<Rightarrow> bk_tokens b + of_int (t1 - bk_lastRefillMs b) / 1000 * rc_refillPerSec config)"

lemma acquire_inv:
  assumes "rate_inv config m t0 t1" and "0 \<le> rc_capacity config" and "0 \<le> rc_refillPerSec config"
    and "t0 \<le> now" and "now \<le> t1"
  shows "rate_inv config (snd (tryAcquireToken config m ref now)) t0 t1"
proof -
  have "jm_get m ref = Some b \<Longrightarrow> bk_tokens b - 1 \<le> rc_capacity config" for b
    using assms(1) by (fastforce simp: rate_inv_def)
  moreover have "t1 \<ge> t0" using assms by simp
  ultimately show ?thesis using assms
    by (auto simp: rate_inv_def tryAcquireToken_def Let_def jm_simps max_def zero_less_divide_iff
        split: option.splits if_splits)
qed

lemma acquire_credit:
  assumes "rate_inv config m t0 t1" and "0 \<le> rc_capacity config" and "0 \<le> rc_refillPerSec config"
    and "t0 \<le> now" and "now \<le> t1"
  shows "(if fst (tryAcquireToken config m ref now) then 1 else 0) +
    credit config (snd (tryAcquireToken config m ref now)) t0 t1 ref \<le> credit config m t0 t1 ref"
proof -
  let ?r = "rc_refillPerSec config"
  have mono: "(of_int (t1 - now) :: rat) / 1000 * ?r \<le> of_int (t1 - t0) / 1000 * ?r"
    using assms by (intro mult_right_mono divide_right_mono) auto
  have split: "of_int (t1 - now) / 1000 * ?r + of_int (now - l) / 1000 * ?r = of_int (t1 - l) / 1000 * ?r"
    for l :: int by (simp add: field_simps)
  show ?thesis
  proof (cases "jm_get m ref")
    case None
    then show ?thesis using mono by (auto simp: tryAcquireToken_def credit_def Let_def jm_simps)
  next
    case (Some b)
    show ?thesis using Some split [of "bk_lastRefillMs b"]
      by (auto simp: tryAcquireToken_def credit_def Let_def jm_simps max_def min_def)
  qed
qed

lemma acquire_other:
  "r \<noteq> ref \<Longrightarrow> jm_get (snd (tryAcquireToken config m ref now)) r = jm_get m r"
  by (auto simp: tryAcquireToken_def Let_def jm_simps)

lemma granted_credit:
  assumes "rate_inv config m t0 t1" and "0 \<le> rc_capacity config" and "0 \<le> rc_refillPerSec config"
    and "\<forall>(r, t) \<in> set cs. t0 \<le> t \<and> t \<le> t1" and "t0 \<le> t1"
  shows "of_nat (granted config m cs ref) \<le> credit config m t0 t1 ref"
  using assms
proof (induction cs arbitrary: m)
  case Nil
  then show ?case
    by (auto simp: granted_def credit_def rate_inv_def split: option.splits intro!: add_nonneg_nonneg)
next
  case (Cons c cs)
  obtain r t where c: "c = (r, t)" by (cases c)
  let ?m = "snd (tryAcquireToken config m r t)"
  have inv: "rate_inv config ?m t0 t1" using Cons.prems c by (intro acquire_inv) auto
  have IH: "of_nat (granted config ?m cs ref) \<le> credit config ?m t0 t1 ref"
    using Cons.IH [OF inv] Cons.prems by auto
  show ?case
  proof (cases "r = ref")
    case True
    have "(if fst (tryAcquireToken config m r t) then 1 else 0) + credit config ?m t0 t1 r \<le> credit config m t0 t1 r"
      using Cons.prems c by (intro acquire_credit) auto
    then show ?thesis using IH True
      by (auto simp: granted_def c case_prod_unfold Let_def split: if_splits)
  next
    case False
    then have "credit config ?m t0 t1 ref = credit config m t0 t1 ref"
      by (simp add: credit_def acquire_other)
    then show ?thesis using IH False by (simp add: granted_def c case_prod_unfold Let_def)
  qed
qed

text \<open>Over any period the SDK sends a webhook at most \<open>capacity\<close> requests plus
  \<open>refillPerSec\<close> for each second of the period, whatever the other webhooks are sent and however
  the requests are spread (even when the clock steps back inside the period).\<close>

theorem rate_limit_bounds_grants:
  assumes "0 \<le> rc_capacity config" and "0 \<le> rc_refillPerSec config"
    and "t0 \<le> t1" and "\<forall>(r, t) \<in> set cs. t0 \<le> t \<and> t \<le> t1"
  shows "of_nat (granted config [] cs ref) \<le>
    rc_capacity config + of_int (t1 - t0) / 1000 * rc_refillPerSec config"
  using granted_credit [of config "[]" t0 t1 cs ref] assms by (simp add: rate_inv_def credit_def)

theorem rate_limit_bounds_grants_witness:
  "of_nat (granted \<lparr>rc_capacity = 2, rc_refillPerSec = 1\<rparr> []
     [(''a'', 0), (''a'', 0), (''b'', 0), (''a'', 500), (''a'', 1000)] ''a'') \<le> (3 :: rat)"
  using rate_limit_bounds_grants [of "\<lparr>rc_capacity = 2, rc_refillPerSec = 1\<rparr>" 0 1000
      "[(''a'', 0), (''a'', 0), (''b'', 0), (''a'', 500), (''a'', 1000)]" "''a''"]
  by simp

lemma burst_bucket:
  assumes "jm_get m ref = Some b" and "of_nat (length ts) \<le> bk_tokens b" and "bk_tokens b \<le> rc_capacity config"
    and "0 \<le> rc_refillPerSec config"
  shows "fst (acquire_run config m (map (Pair ref) ts)) = replicate (length ts) True"
  using assms
proof (induction ts arbitrary: m b)
  case (Cons t ts)
  let ?m = "snd (tryAcquireToken config m ref t)"
  define e :: rat where "e = max 0 ((of_int t - of_int (bk_lastRefillMs b)) / 1000)"
  have e: "0 \<le> e * rc_refillPerSec config" using Cons.prems(4) by (simp add: e_def)
  have "fst (tryAcquireToken config m ref t) \<and> (\<exists>b'. jm_get ?m ref = Some b' \<and>
      of_nat (length ts) \<le> bk_tokens b' \<and> bk_tokens b' \<le> rc_capacity config)"
    using Cons.prems(1-3) e
    by (simp add: tryAcquireToken_def Let_def e_def [symmetric] jm_simps min_def)
  then obtain b' where "fst (tryAcquireToken config m ref t)" "jm_get ?m ref = Some b'"
    "of_nat (length ts) \<le> bk_tokens b'" "bk_tokens b' \<le> rc_capacity config" by blast
  with Cons.IH [of ?m b'] Cons.prems(4) show ?case by (simp add: case_prod_unfold Let_def)
qed simp

text \<open>A burst is served: the first \<open>n \<le> capacity\<close> requests to a webhook nothing was
  sent to yet are all granted.\<close>

theorem rate_limit_serves_burst:
  assumes "jm_get m ref = None" and "of_nat (length ts) \<le> rc_capacity config"
    and "0 \<le> rc_refillPerSec config"
  shows "fst (acquire_run config m (map (Pair ref) ts)) = replicate (length ts) True"
proof (cases ts)
  case (Cons t us)
  let ?m = "snd (tryAcquireToken config m ref t)"
  have "fst (tryAcquireToken config m ref t)"
    and "jm_get ?m ref = Some \<lparr>bk_tokens = rc_capacity config - 1, bk_lastRefillMs = t\<rparr>"
    using assms(1,2) Cons by (auto simp: tryAcquireToken_def Let_def jm_simps)
  with burst_bucket [of ?m ref _ us config] assms(2,3) Cons show ?thesis
    by (simp add: case_prod_unfold Let_def)
qed simp

theorem rate_limit_serves_burst_witness:
  "fst (acquire_run rate_default [] (map (Pair ''enrich_a'') [5, 5, 3, 9])) = [True, True, True, True]"
  using rate_limit_serves_burst [of "[]" "''enrich_a''" "[5, 5, 3, 9]" rate_default]
  by (simp add: rate_default_def del: acquire_run.simps)

end
