(* ===== verification/Enrichment_Client.thy ===== *)
theory Enrichment_Client
  imports Enrichment_Defs Enrichment_Limits
begin

text \<open>
  \<^verbatim>\<open>enrichment/client.ts\<close> and \<^verbatim>\<open>enrichment/cache.ts\<close>: the webhook client behind an enrichment
  dimension. A call of \<^verbatim>\<open>resolveEnrichment\<close> is cut at its \<^verbatim>\<open>await\<close>: \<open>resolveEnrichment\<close> runs to the
  point where it answers, throws or waits on a promise, \<open>promise_settles\<close> is the webhook's outcome
  reaching the promise, \<open>resolveEnrichment_resumes\<close> is a waiting call going on. Other calls may run in
  between, so the module-level maps (\<^verbatim>\<open>IN_FLIGHT\<close>, the cache registry, breakers, buckets) are one state.
  The third-party LRU cache, the process environment and the limiter's configuration are parameters.
\<close>

section \<open>Results and cache keys\<close>

record enrichment_result =
  er_values :: "(string \<times> string option) list"
  er_cachedAt :: int
  er_isNegative :: bool

definition unit_sep :: string where "unit_sep = [CHR 0x1F]"

definition buildCacheKey :: "enrich_full \<Rightarrow> dims \<Rightarrow> string" where
  "buildCacheKey def resolved =
     js_join unit_sep (map (\<lambda>k. case dim_get resolved k of Some v \<Rightarrow> v | None \<Rightarrow> []) (ck_key (ef_cache def)))"

definition inflight_key :: "string \<Rightarrow> string \<Rightarrow> string" where
  "inflight_key ref key = ref @ unit_sep @ key"

definition envMax :: "string option \<Rightarrow> rat" where
  "envMax raw = (case raw of
     None \<Rightarrow> 10000
   | Some t \<Rightarrow> if t = [] then 10000
       else (case js_number t of Some n \<Rightarrow> if n > 0 then of_int \<lfloor>n\<rfloor> else 10000 | None \<Rightarrow> 10000))"

section \<open>The parts outside the client\<close>

text \<open>The LRU cache: construction (\<^const>\<open>None\<close> when the constructor throws), \<^verbatim>\<open>get\<close> and \<^verbatim>\<open>set\<close> with a time
  to live, at a time. \<open>ee_view\<close> is what a cache holds, for the statement of its documented behaviour.\<close>

record 'c enrich_env =
  ee_new :: "rat \<Rightarrow> rat \<Rightarrow> 'c option"
  ee_get :: "'c \<Rightarrow> string \<Rightarrow> int \<Rightarrow> enrichment_result option \<times> 'c"
  ee_set :: "'c \<Rightarrow> string \<Rightarrow> enrichment_result \<Rightarrow> rat \<Rightarrow> int \<Rightarrow> 'c"
  ee_view :: "'c \<Rightarrow> string \<Rightarrow> enrichment_result option"
  ee_rate :: rate_config
  ee_process :: "(string \<Rightarrow> string option) option"

text \<open>A new cache is empty; \<^verbatim>\<open>get\<close> returns what is held; an operation may drop entries (eviction, expiry)
  but holds nothing that was not set.\<close>

definition lru_ok :: "'c enrich_env \<Rightarrow> bool" where
  "lru_ok E \<longleftrightarrow>
     (\<forall>max ttl c k. ee_new E max ttl = Some c \<longrightarrow> ee_view E c k = None) \<and>
     (\<forall>c k t r. fst (ee_get E c k t) = Some r \<longrightarrow> ee_view E c k = Some r) \<and>
     (\<forall>c k t k' r. ee_view E (snd (ee_get E c k t)) k' = Some r \<longrightarrow> ee_view E c k' = Some r) \<and>
     (\<forall>c k v ttl t k' r. ee_view E (ee_set E c k v ttl t) k' = Some r \<longrightarrow>
        (k' = k \<and> r = v) \<or> ee_view E c k' = Some r)"

section \<open>The state of the module\<close>

text \<open>A promise of \<^verbatim>\<open>fetchEnrichment\<close>. \<open>pr_early\<close>: it ended before any request was sent.
  \<open>pr_hit\<close>: it is a background refresh of that cached result.\<close>

record enrich_promise =
  pr_ref :: string
  pr_key :: string
  pr_def :: enrich_full
  pr_early :: "(enrich_error + enrichment_result) option"
  pr_body :: string
  pr_hit :: "enrichment_result option"
  pr_done :: "(enrich_error + enrichment_result) option"

record 'c enrich_state =
  en_breakers :: breaker_map
  en_buckets :: buckets
  en_registry :: "(string \<times> 'c) list"
  en_inflight :: "(string \<times> nat) list"
  en_promises :: "enrich_promise list"

definition en_init :: "'c enrich_state" where
  "en_init = \<lparr>en_breakers = [], en_buckets = [], en_registry = [], en_inflight = [], en_promises = []\<rparr>"

definition getOrCreateCache :: "'c enrich_env \<Rightarrow> 'c enrich_state \<Rightarrow> string \<Rightarrow> enrich_full \<Rightarrow>
    ('c \<times> 'c enrich_state) option" where
  "getOrCreateCache E s ref def =
     (case jm_get (en_registry s) ref of
        Some c \<Rightarrow> Some (c, s)
      | None \<Rightarrow>
          (let max = (case ck_max_entries (ef_cache def) of Some m \<Rightarrow> m
                | None \<Rightarrow> (case ee_process E of None \<Rightarrow> 10000 | Some env \<Rightarrow> envMax (env ''LUPID_ENRICHMENT_CACHE_SIZE''))) in
           case ee_new E max (ck_ttl_ms (ef_cache def)) of
             None \<Rightarrow> None
           | Some c \<Rightarrow> Some (c, s\<lparr>en_registry := jm_set ref c (en_registry s)\<rparr>)))"

section \<open>The request\<close>

definition is_fail_closed :: "enrich_full \<Rightarrow> bool" where
  "is_fail_closed def \<longleftrightarrow> ef_on_failure def = JStr ''fail_closed''"

definition failureResult :: "string \<Rightarrow> enrich_full \<Rightarrow> string \<Rightarrow> int \<Rightarrow> enrich_error + enrichment_result" where
  "failureResult ref def outcome now =
     (if is_fail_closed def then
        Inl (Enrichment_Failed (about_ref ref ('' failed ('' @ outcome @ '') and on_failure is fail_closed'')))
      else Inr \<lparr>er_values = [(ref, None)], er_cachedAt = now, er_isNegative = True\<rparr>)"

text \<open>\<^verbatim>\<open>/^env:(.+)$/\<close>: the dot stops at a line break.\<close>

definition secret_var :: "string \<Rightarrow> string option" where
  "secret_var secret_ref =
     (if js_startsWith secret_ref ''env:'' \<and> drop 4 secret_ref \<noteq> [] \<and>
         list_all (\<lambda>c. c \<noteq> CHR 10 \<and> c \<noteq> CHR 13) (drop 4 secret_ref)
      then Some (drop 4 secret_ref) else None)"

definition getSecret :: "(string \<Rightarrow> string option) option \<Rightarrow> string \<Rightarrow> enrich_error + string" where
  "getSecret process secret_ref =
     (case secret_var secret_ref of
        None \<Rightarrow> Inl (Enrichment_Config (''unsupported secret_ref: '' @ quoted secret_ref @ '' (only '' @ quoted ''env:VAR'' @ '' is supported in v1)''))
      | Some varName \<Rightarrow> (case process of
            None \<Rightarrow> Inl (Enrichment_Config (''env var '' @ varName @ '' unavailable (no process.env)''))
          | Some env \<Rightarrow> (case env varName of
                None \<Rightarrow> Inl (Enrichment_Config (''env var '' @ varName @ '' unset''))
              | Some v \<Rightarrow> if v = [] then Inl (Enrichment_Config (''env var '' @ varName @ '' unset'')) else Inr v)))"

text \<open>\<^verbatim>\<open>for (const k of def.request.include_dimensions)\<close>: the list was taken from the schema unchecked, so it
  may be a text (its characters) or not iterable (a \<^verbatim>\<open>TypeError\<close>, \<^const>\<open>None\<close>).\<close>

definition include_names :: "jval \<Rightarrow> string list option" where
  "include_names v = (case v of JArr vs \<Rightarrow> Some (map j_text vs) | JStr t \<Rightarrow> Some (map (\<lambda>c. [c]) t) | _ \<Rightarrow> None)"

definition request_entries :: "string list \<Rightarrow> dims \<Rightarrow> (string \<times> string option) list" where
  "request_entries ks resolved = foldl (\<lambda>body k. set_own k (dim_get resolved k) body) [] ks"

definition buildRequestBody :: "enrich_full \<Rightarrow> dims \<Rightarrow> string option" where
  "buildRequestBody def resolved =
     (case include_names (rq_include_dimensions (ef_request def)) of
        None \<Rightarrow> None
      | Some ks \<Rightarrow> json_stringify (JObj (map (\<lambda>(k, v). (k, j_opt_str v)) (request_entries ks resolved))))"

fun shape_values :: "string \<Rightarrow> jval \<Rightarrow> (string \<times> shape_type) list \<Rightarrow> (string \<times> string option) list \<Rightarrow>
    enrich_error + (string \<times> string option) list" where
  "shape_values ref obj [] out = Inr out"
| "shape_values ref obj ((k, t) # ks) out =
     (let v = j_field obj k;
          bad = (\<lambda>want. Inl (Enrichment_Failed (about_ref ref ('' response.shape['' @ quoted k @ ''] expected '' @ want @ '', got '' @ j_typeof v)))) in
      case (t, v) of
        (_, JStr x) \<Rightarrow> shape_values ref obj ks (set_own k (Some x) out)
      | (Shape_String, _) \<Rightarrow> bad ''string''
      | (Shape_Nullable, JNull) \<Rightarrow> shape_values ref obj ks (set_own k None out)
      | (Shape_Nullable, JUndefined) \<Rightarrow> shape_values ref obj ks (set_own k None out)
      | (Shape_Nullable, _) \<Rightarrow> bad ''string|null'')"

definition validateResponseShape :: "string \<Rightarrow> (string \<times> shape_type) list \<Rightarrow> jval \<Rightarrow>
    enrich_error + (string \<times> string option) list" where
  "validateResponseShape ref shape parsed =
     (if \<not> j_is_object parsed then Inl (Enrichment_Failed (about_ref ref '' response was not a JSON object''))
      else shape_values ref parsed shape [])"

text \<open>\<^verbatim>\<open>fetchEnrichment\<close> up to the request: \<^const>\<open>Inl\<close> is how it ended without sending one, \<^const>\<open>Inr\<close> the
  body it sends.\<close>

definition fetch_begins :: "'c enrich_env \<Rightarrow> 'c enrich_state \<Rightarrow> string \<Rightarrow> enrich_full \<Rightarrow> dims \<Rightarrow> int \<Rightarrow>
    ((enrich_error + enrichment_result) + string) \<times> 'c enrich_state" where
  "fetch_begins E s ref def resolved now =
     (let (breakerState, bm) = checkBreaker (en_breakers s) ref now;
          s = s\<lparr>en_breakers := bm\<rparr> in
      if breakerState = Br_Open then (Inl (failureResult ref def ''circuit_open'' now), s)
      else
        (let (ok, bk) = tryAcquireToken (ee_rate E) (en_buckets s) ref now;
             s = s\<lparr>en_buckets := bk\<rparr> in
         if \<not> ok then (Inl (failureResult ref def ''rate_limited'' now), s)
         else (case buildRequestBody def resolved of
             None \<Rightarrow> (Inl (Inl Type_Error), s)
           | Some body \<Rightarrow> (case getSecret (ee_process E) (ef_secret_ref def) of
                 Inl e \<Rightarrow> (Inl (Inl e), s)
               | Inr secret \<Rightarrow> (Inr body, s)))))"

text \<open>What comes back: signing failed, \<^verbatim>\<open>fetch\<close> threw (a timeout included), or a response with its
  \<^verbatim>\<open>ok\<close> flag and its parsed body (\<^const>\<open>None\<close>: not JSON).\<close>

datatype webhook_outcome = Sign_Failed string | Fetch_Threw | Responded bool "jval option"

definition fetch_ends :: "breaker_map \<Rightarrow> string \<Rightarrow> enrich_full \<Rightarrow> webhook_outcome \<Rightarrow> int \<Rightarrow>
    (enrich_error + enrichment_result) \<times> breaker_map" where
  "fetch_ends bm ref def outcome now =
     (let failed = (failureResult ref def ''failure'' now, recordBreakerFailure bm ref now) in
      case outcome of
        Sign_Failed m \<Rightarrow> (Inl (Enrichment_Config (about_ref ref ('' HMAC signing requires node:crypto (node-only): '' @ m))), bm)
      | Fetch_Threw \<Rightarrow> failed
      | Responded ok parsed \<Rightarrow>
          if \<not> ok then failed
          else (case parsed of
              None \<Rightarrow> failed
            | Some v \<Rightarrow> (case validateResponseShape ref (ef_shape def) v of
                  Inl e \<Rightarrow> if is_fail_closed def then (Inl e, recordBreakerFailure bm ref now) else failed
                | Inr values \<Rightarrow>
                    (Inr \<lparr>er_values = values, er_cachedAt = now, er_isNegative = False\<rparr>,
                     recordBreakerSuccess bm ref))))"

section \<open>Resolving\<close>

definition result_ttl :: "enrich_full \<Rightarrow> enrichment_result \<Rightarrow> rat" where
  "result_ttl def r =
     (if er_isNegative r then (case ck_negative_ttl_ms (ef_cache def) of Some t \<Rightarrow> t | None \<Rightarrow> ck_ttl_ms (ef_cache def))
      else ck_ttl_ms (ef_cache def))"

definition extractValue :: "enrichment_result \<Rightarrow> string \<Rightarrow> string option" where
  "extractValue r ref = (case jm_get (er_values r) ref of Some (Some v) \<Rightarrow> Some v | _ \<Rightarrow> None)"

text \<open>\<^verbatim>\<open>cache.set\<close> on the cache the registry holds for the ref (it was created before).\<close>

definition cache_set :: "'c enrich_env \<Rightarrow> 'c enrich_state \<Rightarrow> string \<Rightarrow> string \<Rightarrow> enrichment_result \<Rightarrow> rat \<Rightarrow> int \<Rightarrow> 'c enrich_state" where
  "cache_set E s ref key r ttl now =
     (case jm_get (en_registry s) ref of
        None \<Rightarrow> s
      | Some c \<Rightarrow> s\<lparr>en_registry := jm_set ref (ee_set E c key r ttl now) (en_registry s)\<rparr>)"

text \<open>\<^verbatim>\<open>fetchEnrichment(...)\<close> with its promise put in \<^verbatim>\<open>IN_FLIGHT\<close>.\<close>

definition launch :: "'c enrich_env \<Rightarrow> 'c enrich_state \<Rightarrow> string \<Rightarrow> string \<Rightarrow> enrich_full \<Rightarrow> dims \<Rightarrow>
    enrichment_result option \<Rightarrow> int \<Rightarrow> nat \<times> 'c enrich_state" where
  "launch E s ref key def resolved hit now =
     (let (b, s) = fetch_begins E s ref def resolved now;
          p = \<lparr>pr_ref = ref, pr_key = key, pr_def = def,
               pr_early = (case b of Inl r \<Rightarrow> Some r | Inr _ \<Rightarrow> None),
               pr_body = (case b of Inl _ \<Rightarrow> [] | Inr body \<Rightarrow> body),
               pr_hit = hit, pr_done = None\<rparr>;
          pid = length (en_promises s)
      in (pid, s\<lparr>en_inflight := jm_set (inflight_key ref key) pid (en_inflight s),
                 en_promises := en_promises s @ [p]\<rparr>))"

definition maybeBackgroundRefresh :: "'c enrich_env \<Rightarrow> 'c enrich_state \<Rightarrow> string \<Rightarrow> enrich_full \<Rightarrow> dims \<Rightarrow> string \<Rightarrow>
    enrichment_result \<Rightarrow> int \<Rightarrow> 'c enrich_state" where
  "maybeBackgroundRefresh E s ref def resolved key hit now =
     (if er_isNegative hit then s
      else if of_int (now - er_cachedAt hit) \<le> ck_ttl_ms (ef_cache def) / 2 then s
      else if jm_has (en_inflight s) (inflight_key ref key) then s
      else snd (launch E s ref key def resolved (Some hit) now))"

datatype enrich_out = Out_Value "string option" | Out_Error enrich_error | Out_Waits nat | Out_Quiet

text \<open>\<open>raw\<close> is \<^verbatim>\<open>schema.enrichments?.[ref]\<close>.\<close>

definition resolveEnrichment :: "'c enrich_env \<Rightarrow> 'c enrich_state \<Rightarrow> string \<Rightarrow> jval \<Rightarrow> dims \<Rightarrow> int \<Rightarrow>
    enrich_out \<times> 'c enrich_state" where
  "resolveEnrichment E s ref raw resolved now =
     (if \<not> j_truthy raw then (Out_Value None, s)
      else case asFullDef raw ref of
        Inl e \<Rightarrow> (Out_Error e, s)
      | Inr def \<Rightarrow>
          (let key = buildCacheKey def resolved in
           case getOrCreateCache E s ref def of
             None \<Rightarrow> (Out_Error Type_Error, s)
           | Some (c, s) \<Rightarrow>
               (let (hit, c) = ee_get E c key now;
                    s = s\<lparr>en_registry := jm_set ref c (en_registry s)\<rparr> in
                case hit of
                  Some r \<Rightarrow> (Out_Value (extractValue r ref), maybeBackgroundRefresh E s ref def resolved key r now)
                | None \<Rightarrow> (case jm_get (en_inflight s) (inflight_key ref key) of
                      Some pid \<Rightarrow> (Out_Waits pid, s)
                    | None \<Rightarrow> apfst Out_Waits (launch E s ref key def resolved None now)))))"

text \<open>The promise \<open>pid\<close> settles: \<^verbatim>\<open>fetchEnrichment\<close> returns or throws; a background refresh caches what it
  got, or swallows the error and stands for the cached result; \<^verbatim>\<open>finally\<close> takes it out of \<^verbatim>\<open>IN_FLIGHT\<close>.\<close>

definition promise_settles :: "'c enrich_env \<Rightarrow> 'c enrich_state \<Rightarrow> nat \<Rightarrow> webhook_outcome \<Rightarrow> int \<Rightarrow> 'c enrich_state" where
  "promise_settles E s pid outcome now =
     (let p = en_promises s ! pid; ref = pr_ref p; def = pr_def p; key = pr_key p;
          (r, bm) = (case pr_early p of Some r \<Rightarrow> (r, en_breakers s)
                     | None \<Rightarrow> fetch_ends (en_breakers s) ref def outcome now);
          s = s\<lparr>en_breakers := bm\<rparr>;
          (settled, s) = (case pr_hit p of
              None \<Rightarrow> (r, s)
            | Some hit \<Rightarrow> (case r of
                  Inr v \<Rightarrow> (Inr v, cache_set E s ref key v (result_ttl def v) now)
                | Inl _ \<Rightarrow> (Inr hit, s)))
      in s\<lparr>en_inflight := jm_del (inflight_key ref key) (en_inflight s),
           en_promises := (en_promises s)[pid := p\<lparr>pr_done := Some settled\<rparr>]\<rparr>)"

text \<open>A call that waited on a promise goes on with what it settled to.\<close>

definition resolveEnrichment_resumes :: "'c enrich_env \<Rightarrow> 'c enrich_state \<Rightarrow> string \<Rightarrow> enrich_full \<Rightarrow> string \<Rightarrow>
    enrich_error + enrichment_result \<Rightarrow> int \<Rightarrow> enrich_out \<times> 'c enrich_state" where
  "resolveEnrichment_resumes E s ref def key settled now =
     (case settled of
        Inl Type_Error \<Rightarrow> (Out_Error (Enrichment_Failed (about_ref ref '' unexpected error'')), s)
      | Inl e \<Rightarrow> (Out_Error e, s)
      | Inr r \<Rightarrow> (Out_Value (extractValue r ref), cache_set E s ref key r (result_ttl def r) now))"

end
