(* ===== verification/Enrichment_System.thy ===== *)
theory Enrichment_System
  imports Enrichment_Client
begin

text \<open>
  The webhook client under concurrent calls: a step relation over the calls that start, the
  promises that settle and the calls that resume, in any order, with the webhook's well-formed
  replies recorded. An invariant ties every cached or awaited result to a reply for the same ref and
  cache key, or to a failure the schema's \<^verbatim>\<open>on_failure\<close> allows to be swallowed.
\<close>

section \<open>Steps\<close>

record waiter =
  wt_pid :: nat
  wt_ref :: string
  wt_key :: string
  wt_def :: enrich_full

record 'c enrich_sys =
  es_state :: "'c enrich_state"
  es_waiters :: "waiter list"
  es_replies :: "(string \<times> string \<times> jval) list"

datatype enrich_label = Answers string string enrich_out | Settles nat

definition es_init :: "'c enrich_sys" where
  "es_init = \<lparr>es_state = en_init, es_waiters = [], es_replies = []\<rparr>"

definition new_replies :: "enrich_promise \<Rightarrow> webhook_outcome \<Rightarrow> (string \<times> string \<times> jval) list" where
  "new_replies p outcome = (case (pr_early p, outcome) of
     (None, Responded ok (Some v)) \<Rightarrow> if ok then [(pr_ref p, pr_key p, v)] else []
   | _ \<Rightarrow> [])"

text \<open>\<open>ok ref raw\<close>: the schemas that may be active say \<open>raw\<close> for \<open>ref\<close>.\<close>

inductive enrich_step :: "'c enrich_env \<Rightarrow> (string \<Rightarrow> jval \<Rightarrow> bool) \<Rightarrow> 'c enrich_sys \<Rightarrow> enrich_label \<Rightarrow>
    'c enrich_sys \<Rightarrow> bool" for E ok where
  not_configured: "ok ref raw \<Longrightarrow> asFullDef raw ref = Inl e \<or> \<not> j_truthy raw \<Longrightarrow>
    resolveEnrichment E (es_state S) ref raw resolved now = (out, s') \<Longrightarrow>
    enrich_step E ok S (Answers ref [] out) (S\<lparr>es_state := s'\<rparr>)"
| starts: "ok ref raw \<Longrightarrow> j_truthy raw \<Longrightarrow> asFullDef raw ref = Inr def \<Longrightarrow> buildCacheKey def resolved = key \<Longrightarrow>
    resolveEnrichment E (es_state S) ref raw resolved now = (out, s') \<Longrightarrow>
    enrich_step E ok S (Answers ref key out)
      (S\<lparr>es_state := s', es_waiters := (case out of
           Out_Waits pid \<Rightarrow> \<lparr>wt_pid = pid, wt_ref = ref, wt_key = key, wt_def = def\<rparr> # es_waiters S
         | _ \<Rightarrow> es_waiters S)\<rparr>)"
| settles: "pid < length (en_promises (es_state S)) \<Longrightarrow> pr_done (en_promises (es_state S) ! pid) = None \<Longrightarrow>
    enrich_step E ok S (Settles pid)
      (S\<lparr>es_state := promise_settles E (es_state S) pid outcome now,
         es_replies := new_replies (en_promises (es_state S) ! pid) outcome @ es_replies S\<rparr>)"
| resumes: "w \<in> set (es_waiters S) \<Longrightarrow> pr_done (en_promises (es_state S) ! wt_pid w) = Some settled \<Longrightarrow>
    resolveEnrichment_resumes E (es_state S) (wt_ref w) (wt_def w) (wt_key w) settled now = (out, s') \<Longrightarrow>
    enrich_step E ok S (Answers (wt_ref w) (wt_key w) out)
      (S\<lparr>es_state := s', es_waiters := remove1 w (es_waiters S)\<rparr>)"

inductive enrich_reach :: "'c enrich_env \<Rightarrow> (string \<Rightarrow> jval \<Rightarrow> bool) \<Rightarrow> 'c enrich_sys \<Rightarrow> bool" for E ok where
  boots: "enrich_reach E ok es_init"
| steps: "enrich_reach E ok S \<Longrightarrow> enrich_step E ok S l S' \<Longrightarrow> enrich_reach E ok S'"

section \<open>Validated replies\<close>

lemma set_own_get: "jm_get (set_own k v m) k' = (if k' = k \<and> k \<noteq> ''__proto__'' then Some v else jm_get m k')"
  by (simp add: set_own_def jm_simps)

lemma shape_values_sound:
  assumes "shape_values ref obj ks out = Inr vs" and "jm_get vs k = Some x"
  shows "jm_get out k = Some x \<or> (case x of Some v \<Rightarrow> j_field obj k = JStr v | None \<Rightarrow> j_nullish (j_field obj k))"
  using assms
proof (induction ks arbitrary: out)
  case (Cons e ks)
  obtain k' t where e: "e = (k', t)" by fastforce
  from Cons.prems(1) consider
      (str) y where "j_field obj k' = JStr y" "shape_values ref obj ks (set_own k' (Some y) out) = Inr vs"
    | (null) "j_nullish (j_field obj k')" "shape_values ref obj ks (set_own k' None out) = Inr vs"
    by (auto simp: e Let_def j_nullish_def split: shape_type.splits jval.splits)
  then show ?case
  proof cases
    case str
    then show ?thesis using Cons.IH [OF str(2) Cons.prems(2)] by (auto simp: set_own_get split: if_splits)
  next
    case null
    then show ?thesis using Cons.IH [OF null(2) Cons.prems(2)] by (auto simp: set_own_get split: if_splits)
  qed
qed simp

lemma shape_values_keys:
  assumes "shape_values ref obj ks out = Inr vs" and "jm_has ks k \<or> jm_has out k" and "k \<noteq> ''__proto__''"
  shows "jm_has vs k"
  using assms
proof (induction ks arbitrary: out)
  case (Cons e ks)
  obtain k' t where e: "e = (k', t)" by fastforce
  from Cons.prems(1) obtain y where "shape_values ref obj ks (set_own k' y out) = Inr vs"
    by (auto simp: e Let_def split: shape_type.splits jval.splits)
  from Cons.IH [OF this] Cons.prems(2,3) show ?case by (auto simp: e set_own_get split: if_splits)
qed simp

lemma shape_loop_proto:
  "shape_loop ref kvs shape = Inr sh \<Longrightarrow> jm_get shape ''__proto__'' = None \<Longrightarrow> jm_get sh ''__proto__'' = None"
  by (induction kvs arbitrary: shape) (auto simp: config_error_def set_own_get split: option.splits)

lemma asFullDef_shape:
  assumes "asFullDef d ref = Inr f" shows "ref \<noteq> ''__proto__''" and "jm_has (ef_shape f) ref"
  using assms
  by (auto simp: asFullDef_def validateResponse_def Let_def config_error_def dest: shape_loop_proto
      split: if_splits option.splits sum.splits)

section \<open>The invariant\<close>

definition backed :: "(string \<Rightarrow> jval \<Rightarrow> bool) \<Rightarrow> (string \<times> string \<times> jval) list \<Rightarrow> string \<Rightarrow> enrichment_result \<Rightarrow> bool" where
  "backed ok L k r \<longleftrightarrow> (\<exists>ref key. inflight_key ref key = k \<and> jm_has (er_values r) ref \<and>
     (\<exists>raw. ok ref raw \<and> (er_isNegative r \<longrightarrow> j_field raw ''on_failure'' \<noteq> JStr ''fail_closed'')) \<and>
     (if er_isNegative r then er_values r = [(ref, None)]
      else (\<exists>body. (ref, key, body) \<in> set L \<and> (\<forall>n x. jm_get (er_values r) n = Some x \<longrightarrow>
        (case x of Some v \<Rightarrow> j_field body n = JStr v | None \<Rightarrow> j_nullish (j_field body n))))))"

definition narrowed :: "(string \<Rightarrow> jval \<Rightarrow> bool) \<Rightarrow> string \<Rightarrow> enrich_full \<Rightarrow> bool" where
  "narrowed ok ref def \<longleftrightarrow> (\<exists>raw. ok ref raw \<and> asFullDef raw ref = Inr def)"

definition pr_slot :: "enrich_promise \<Rightarrow> string" where
  "pr_slot p = inflight_key (pr_ref p) (pr_key p)"

definition promise_ok :: "(string \<Rightarrow> jval \<Rightarrow> bool) \<Rightarrow> (string \<times> string \<times> jval) list \<Rightarrow> enrich_promise \<Rightarrow> bool" where
  "promise_ok ok L p \<longleftrightarrow> narrowed ok (pr_ref p) (pr_def p) \<and>
     (\<forall>r. pr_early p = Some (Inr r) \<or> pr_hit p = Some r \<or> pr_done p = Some (Inr r) \<longrightarrow> backed ok L (pr_slot p) r)"

definition en_inv :: "'c enrich_env \<Rightarrow> (string \<Rightarrow> jval \<Rightarrow> bool) \<Rightarrow> (string \<times> string \<times> jval) list \<Rightarrow> 'c enrich_state \<Rightarrow> bool" where
  "en_inv E ok L s \<longleftrightarrow>
     (\<forall>ref c key r. jm_get (en_registry s) ref = Some c \<longrightarrow> ee_view E c key = Some r \<longrightarrow>
        backed ok L (inflight_key ref key) r) \<and>
     (\<forall>p \<in> set (en_promises s). promise_ok ok L p) \<and>
     (\<forall>k pid. jm_get (en_inflight s) k = Some pid \<longleftrightarrow>
        pid < length (en_promises s) \<and> pr_slot (en_promises s ! pid) = k \<and> pr_done (en_promises s ! pid) = None)"

definition es_inv :: "'c enrich_env \<Rightarrow> (string \<Rightarrow> jval \<Rightarrow> bool) \<Rightarrow> 'c enrich_sys \<Rightarrow> bool" where
  "es_inv E ok S \<longleftrightarrow> en_inv E ok (es_replies S) (es_state S) \<and>
     (\<forall>w \<in> set (es_waiters S). wt_pid w < length (en_promises (es_state S)) \<and>
        pr_slot (en_promises (es_state S) ! wt_pid w) = inflight_key (wt_ref w) (wt_key w) \<and>
        narrowed ok (wt_ref w) (wt_def w))"

lemma backed_mono: "backed ok L k r \<Longrightarrow> backed ok (L' @ L) k r"
  unfolding backed_def by (elim exE conjE, rule exI, rule exI) (auto split: if_splits)

lemma promise_ok_mono: "promise_ok ok L p \<Longrightarrow> promise_ok ok (L' @ L) p"
  by (auto simp: promise_ok_def intro: backed_mono)

lemma en_inv_mono: "en_inv E ok L s \<Longrightarrow> en_inv E ok (L' @ L) s"
  unfolding en_inv_def by (blast intro: backed_mono promise_ok_mono)

lemma narrowed_failure:
  assumes "narrowed ok ref def" and "failureResult ref def outcome now = Inr r"
  shows "backed ok L (inflight_key ref key) r"
proof -
  obtain raw where "ok ref raw" "asFullDef raw ref = Inr def" using assms(1) by (auto simp: narrowed_def)
  then have "ok ref raw \<and> j_field raw ''on_failure'' \<noteq> JStr ''fail_closed''"
    using assms(2) asFullDef_parts(2) by (fastforce simp: failureResult_def is_fail_closed_def split: if_splits)
  then show ?thesis using assms(2) unfolding backed_def
    by (intro exI [of _ ref] exI [of _ key]) (auto simp: failureResult_def split: if_splits)
qed

lemma fetch_begins_backed:
  assumes "narrowed ok ref def" and "fst (fetch_begins E s ref def resolved now) = Inl (Inr r)"
  shows "backed ok L (inflight_key ref key) r"
  using assms
  by (auto simp: fetch_begins_def getSecret_def Let_def case_prod_unfold intro: narrowed_failure
      split: if_splits option.splits sum.splits)

lemma fetch_begins_frame:
  "en_registry (snd (fetch_begins E s ref def resolved now)) = en_registry s"
  "en_promises (snd (fetch_begins E s ref def resolved now)) = en_promises s"
  "en_inflight (snd (fetch_begins E s ref def resolved now)) = en_inflight s"
  by (auto simp: fetch_begins_def Let_def case_prod_unfold split: option.splits sum.splits)

lemma fetch_ends_backed:
  assumes "narrowed ok (pr_ref p) (pr_def p)" and "pr_early p = None"
    and "fst (fetch_ends bm (pr_ref p) (pr_def p) outcome now) = Inr r"
  shows "backed ok (new_replies p outcome @ L) (pr_slot p) r"
proof (cases "failureResult (pr_ref p) (pr_def p) ''failure'' now = Inr r")
  case True
  then show ?thesis unfolding pr_slot_def by (rule narrowed_failure [OF assms(1)])
next
  case False
  then obtain v vs where o: "outcome = Responded True (Some v)"
    and v: "validateResponseShape (pr_ref p) (ef_shape (pr_def p)) v = Inr vs"
    and r: "r = \<lparr>er_values = vs, er_cachedAt = now, er_isNegative = False\<rparr>"
    using assms(3) by (auto simp: fetch_ends_def Let_def split: webhook_outcome.splits if_splits option.splits sum.splits)
  have sv: "shape_values (pr_ref p) v (ef_shape (pr_def p)) [] = Inr vs"
    using v by (auto simp: validateResponseShape_def split: if_splits)
  have "jm_has vs (pr_ref p)"
    using shape_values_keys [OF sv] asFullDef_shape assms(1) by (auto simp: narrowed_def)
  moreover have "\<exists>raw. ok (pr_ref p) raw" using assms(1) by (auto simp: narrowed_def)
  moreover have "(pr_ref p, pr_key p, v) \<in> set (new_replies p outcome @ L)"
    by (simp add: new_replies_def o assms(2))
  moreover have "\<forall>n x. jm_get vs n = Some x \<longrightarrow>
      (case x of Some y \<Rightarrow> j_field v n = JStr y | None \<Rightarrow> j_nullish (j_field v n))"
    using shape_values_sound [OF sv] by auto
  ultimately show ?thesis unfolding backed_def pr_slot_def r
    by (intro exI [of _ "pr_ref p"] exI [of _ "pr_key p"]) auto
qed

lemma en_inv_registry:
  assumes "en_inv E ok L s" and "\<And>k r. ee_view E c k = Some r \<Longrightarrow> backed ok L (inflight_key ref k) r"
  shows "en_inv E ok L (s\<lparr>en_registry := jm_set ref c (en_registry s)\<rparr>)"
  using assms by (simp add: en_inv_def jm_simps)

lemma en_inv_view:
  "en_inv E ok L s \<Longrightarrow> jm_get (en_registry s) ref = Some c \<Longrightarrow> ee_view E c k = Some r \<Longrightarrow> backed ok L (inflight_key ref k) r"
  by (simp add: en_inv_def)

lemma lru_new: "lru_ok E \<Longrightarrow> ee_new E n ttl = Some c \<Longrightarrow> ee_view E c k = None"
  by (simp add: lru_ok_def)

lemma lru_get: "lru_ok E \<Longrightarrow> fst (ee_get E c k t) = Some r \<Longrightarrow> ee_view E c k = Some r"
  "lru_ok E \<Longrightarrow> ee_view E (snd (ee_get E c k t)) k' = Some r \<Longrightarrow> ee_view E c k' = Some r"
  unfolding lru_ok_def by blast+

lemma lru_set: "lru_ok E \<Longrightarrow> ee_view E (ee_set E c k v ttl t) k' = Some r \<Longrightarrow>
    (k' = k \<and> r = v) \<or> ee_view E c k' = Some r"
  unfolding lru_ok_def by blast

lemma en_inv_cache_set:
  assumes "lru_ok E" and "en_inv E ok L s" and "backed ok L (inflight_key ref key) r"
  shows "en_inv E ok L (cache_set E s ref key r ttl now)"
  using assms
  by (auto simp: cache_set_def dest!: lru_set dest: en_inv_view intro!: en_inv_registry split: option.splits)

lemma cache_set_frame:
  "en_promises (cache_set E s ref key r ttl now) = en_promises s"
  "en_inflight (cache_set E s ref key r ttl now) = en_inflight s"
  by (auto simp: cache_set_def split: option.splits)

section \<open>Every step keeps it\<close>

lemma launch_frame:
  "fst (launch E s ref key def resolved hit now) = length (en_promises s)"
  "en_registry (snd (launch E s ref key def resolved hit now)) = en_registry s"
  "en_inflight (snd (launch E s ref key def resolved hit now)) =
     jm_set (inflight_key ref key) (length (en_promises s)) (en_inflight s)"
  by (simp_all add: launch_def Let_def case_prod_unfold fetch_begins_frame)

lemma launch_promises:
  obtains p where "en_promises (snd (launch E s ref key def resolved hit now)) = en_promises s @ [p]"
    "pr_ref p = ref" "pr_key p = key" "pr_def p = def" "pr_hit p = hit" "pr_done p = None"
    "pr_early p = (case fst (fetch_begins E s ref def resolved now) of Inl r \<Rightarrow> Some r | Inr _ \<Rightarrow> None)"
  by (simp add: launch_def Let_def case_prod_unfold fetch_begins_frame)

lemma launch_inv:
  assumes "en_inv E ok L s" and "narrowed ok ref def" and "jm_get (en_inflight s) (inflight_key ref key) = None"
    and "\<forall>r. hit = Some r \<longrightarrow> backed ok L (inflight_key ref key) r"
  shows "en_inv E ok L (snd (launch E s ref key def resolved hit now))"
proof (rule launch_promises [of E s ref key "def" resolved hit now])
  fix p
  assume ps: "en_promises (snd (launch E s ref key def resolved hit now)) = en_promises s @ [p]"
    and p: "pr_ref p = ref" "pr_key p = key" "pr_def p = def" "pr_hit p = hit" "pr_done p = None"
    and early: "pr_early p = (case fst (fetch_begins E s ref def resolved now) of Inl r \<Rightarrow> Some r | Inr _ \<Rightarrow> None)"
  have slot: "pr_slot p = inflight_key ref key" by (simp add: pr_slot_def p)
  have "promise_ok ok L p"
    using assms(2,4) fetch_begins_backed [OF assms(2), of E s resolved now]
    by (auto simp: promise_ok_def slot p early split: sum.splits)
  moreover have "(jm_get (jm_set (inflight_key ref key) (length (en_promises s)) (en_inflight s)) k = Some pid) \<longleftrightarrow>
      pid < length (en_promises s @ [p]) \<and> pr_slot ((en_promises s @ [p]) ! pid) = k \<and>
      pr_done ((en_promises s @ [p]) ! pid) = None" for k pid
  proof -
    have old: "jm_get (en_inflight s) k = Some pid \<longleftrightarrow> pid < length (en_promises s) \<and>
        pr_slot (en_promises s ! pid) = k \<and> pr_done (en_promises s ! pid) = None" for k pid
      using assms(1) by (simp add: en_inv_def)
    show ?thesis using old [of k pid] old [of "inflight_key ref key" pid] assms(3)
      by (auto simp: jm_simps nth_append slot p less_Suc_eq)
  qed
  ultimately show ?thesis using assms(1) by (simp add: en_inv_def launch_frame ps)
qed

lemma refresh_inv:
  assumes "en_inv E ok L s" and "narrowed ok ref def" and "backed ok L (inflight_key ref key) hit"
  shows "en_inv E ok L (maybeBackgroundRefresh E s ref def resolved key hit now)"
  using assms by (auto simp: maybeBackgroundRefresh_def intro!: launch_inv)

lemma refresh_promises:
  "\<exists>ps. en_promises (maybeBackgroundRefresh E s ref def resolved key hit now) = en_promises s @ ps"
  by (simp add: maybeBackgroundRefresh_def) (metis launch_promises append_Nil2)

lemma getOrCreateCache_inv:
  assumes "lru_ok E" and "en_inv E ok L s" and "getOrCreateCache E s ref def = Some (c, s')"
  shows "en_inv E ok L s'" and "ee_view E c k = Some r \<Longrightarrow> backed ok L (inflight_key ref k) r"
    and "en_promises s' = en_promises s" and "en_inflight s' = en_inflight s"
  using assms
  by (auto simp: getOrCreateCache_def Let_def lru_new dest: en_inv_view intro!: en_inv_registry split: option.splits)

lemma resolve_start:
  assumes "lru_ok E" and "en_inv E ok L s" and "ok ref raw" and "asFullDef raw ref = Inr def" and "j_truthy raw"
    and "resolveEnrichment E s ref raw resolved now = (out, s')" and "buildCacheKey def resolved = key"
  shows "en_inv E ok L s' \<and> (\<exists>ps. en_promises s' = en_promises s @ ps) \<and>
    (\<forall>v. out = Out_Value v \<longrightarrow> (\<exists>r. backed ok L (inflight_key ref key) r \<and> v = extractValue r ref)) \<and>
    (\<forall>pid. out = Out_Waits pid \<longrightarrow> pid < length (en_promises s') \<and>
       pr_slot (en_promises s' ! pid) = inflight_key ref key)"
proof (cases "getOrCreateCache E s ref def")
  case None
  then show ?thesis using assms by (auto simp: resolveEnrichment_def)
next
  case (Some a)
  obtain c s1 where a: "a = (c, s1)" by fastforce
  note g = getOrCreateCache_inv [OF assms(1,2) Some [unfolded a]]
  have n: "narrowed ok ref def" using assms(3,4) by (auto simp: narrowed_def)
  define s2 where "s2 = s1\<lparr>en_registry := jm_set ref (snd (ee_get E c key now)) (en_registry s1)\<rparr>"
  have "backed ok L (inflight_key ref k) r" if "ee_view E (snd (ee_get E c key now)) k = Some r" for k r
    using g(2) lru_get(2) [OF assms(1) that] .
  then have s2: "en_inv E ok L s2" "en_promises s2 = en_promises s" "en_inflight s2 = en_inflight s"
    using en_inv_registry [OF g(1)] g(3,4) by (simp_all add: s2_def)
  have res: "resolveEnrichment E s ref raw resolved now = (case fst (ee_get E c key now) of
      Some r \<Rightarrow> (Out_Value (extractValue r ref), maybeBackgroundRefresh E s2 ref def resolved key r now)
    | None \<Rightarrow> (case jm_get (en_inflight s2) (inflight_key ref key) of
        Some pid \<Rightarrow> (Out_Waits pid, s2)
      | None \<Rightarrow> apfst Out_Waits (launch E s2 ref key def resolved None now)))"
    using assms(4,5,7) Some
    by (simp add: resolveEnrichment_def a s2_def Let_def case_prod_unfold cong: option.case_cong)
  note res = res [unfolded assms(6)]
  show ?thesis
  proof (cases "fst (ee_get E c key now)")
    case hit: (Some r)
    then have "backed ok L (inflight_key ref key) r" using g(2) lru_get(1) [OF assms(1) hit] by blast
    then show ?thesis using res hit refresh_inv [OF s2(1) n] refresh_promises [of E s2 ref "def"] s2(2) by auto
  next
    case miss: None
    show ?thesis
    proof (cases "jm_get (en_inflight s2) (inflight_key ref key)")
      case (Some pid)
      then show ?thesis using res miss s2 by (auto simp: en_inv_def)
    next
      case None
      let ?l = "launch E s2 ref key def resolved None now"
      have "en_inv E ok L (snd ?l)" using launch_inv [OF s2(1) n None] by simp
      moreover have "\<exists>p. en_promises (snd ?l) = en_promises s @ [p] \<and> pr_slot p = inflight_key ref key"
        by (rule launch_promises [of E s2 ref key "def" resolved None now]) (auto simp: s2 pr_slot_def)
      ultimately show ?thesis using res miss None launch_frame(1) [of E s2 ref key "def" resolved None now]
        by (auto simp: apfst_def map_prod_def case_prod_unfold s2)
    qed
  qed
qed

lemma settle_inv:
  assumes "lru_ok E" and "en_inv E ok L s" and "pid < length (en_promises s)"
    and "pr_done (en_promises s ! pid) = None"
  shows "en_inv E ok (new_replies (en_promises s ! pid) outcome @ L) (promise_settles E s pid outcome now)"
    and "length (en_promises (promise_settles E s pid outcome now)) = length (en_promises s)"
    and "i < length (en_promises s) \<Longrightarrow>
      pr_slot (en_promises (promise_settles E s pid outcome now) ! i) = pr_slot (en_promises s ! i)"
proof -
  define p where "p = en_promises s ! pid"
  let ?L = "new_replies p outcome @ L"
  define r where "r = (case pr_early p of Some r \<Rightarrow> r
    | None \<Rightarrow> fst (fetch_ends (en_breakers s) (pr_ref p) (pr_def p) outcome now))"
  define bm where "bm = (case pr_early p of Some _ \<Rightarrow> en_breakers s
    | None \<Rightarrow> snd (fetch_ends (en_breakers s) (pr_ref p) (pr_def p) outcome now))"
  define s1 where "s1 = s\<lparr>en_breakers := bm\<rparr>"
  define s2 where "s2 = (case (pr_hit p, r) of
      (Some hit, Inr v) \<Rightarrow> cache_set E s1 (pr_ref p) (pr_key p) v (result_ttl (pr_def p) v) now | _ \<Rightarrow> s1)"
  define settled where "settled = (case (pr_hit p, r) of (Some hit, Inl _) \<Rightarrow> Inr hit | _ \<Rightarrow> r)"
  have eq: "promise_settles E s pid outcome now = s2\<lparr>en_inflight := jm_del (pr_slot p) (en_inflight s2),
      en_promises := (en_promises s)[pid := p\<lparr>pr_done := Some settled\<rparr>]\<rparr>"
    by (auto simp: promise_settles_def Let_def p_def [symmetric] s2_def s1_def settled_def r_def bm_def pr_slot_def
        case_prod_unfold split: option.splits sum.splits)
      (auto simp: cache_set_frame)
  have f: "en_inflight s2 = en_inflight s" "en_promises s2 = en_promises s"
    by (auto simp: s2_def s1_def cache_set_frame split: option.splits sum.splits)
  have pok: "promise_ok ok L p" using assms(2,3) by (auto simp: en_inv_def p_def)
  have r_ok: "backed ok ?L (pr_slot p) v" if "r = Inr v" for v
  proof (cases "pr_early p")
    case None
    then show ?thesis using that fetch_ends_backed pok by (auto simp: r_def promise_ok_def)
  qed (use that pok in \<open>auto simp: r_def promise_ok_def intro!: backed_mono\<close>)
  have "en_inv E ok ?L s1" using en_inv_mono [OF assms(2)] by (simp add: s1_def en_inv_def)
  then have s2_ok: "en_inv E ok ?L s2"
    using r_ok by (auto simp: s2_def pr_slot_def intro!: en_inv_cache_set [OF assms(1)] split: option.splits sum.splits)
  have "promise_ok ok ?L (p\<lparr>pr_done := Some settled\<rparr>)"
    using promise_ok_mono [OF pok, of "new_replies p outcome"] r_ok
    by (auto simp: promise_ok_def pr_slot_def settled_def split: option.splits sum.splits)
  then have all: "\<forall>q \<in> set ((en_promises s)[pid := p\<lparr>pr_done := Some settled\<rparr>]). promise_ok ok ?L q"
    using s2_ok f set_update_subset_insert [of "en_promises s" pid] by (fastforce simp: en_inv_def)
  have old: "jm_get (en_inflight s) k = Some i \<longleftrightarrow> i < length (en_promises s) \<and>
      pr_slot (en_promises s ! i) = k \<and> pr_done (en_promises s ! i) = None" for k i
    using assms(2) by (simp add: en_inv_def)
  have sl: "pr_slot (p\<lparr>pr_done := x\<rparr>) = pr_slot p" for x by (simp add: pr_slot_def)
  have fl: "jm_get (jm_del (pr_slot p) (en_inflight s)) k = Some i \<longleftrightarrow> i < length (en_promises s) \<and>
      pr_slot ((en_promises s)[pid := p\<lparr>pr_done := Some settled\<rparr>] ! i) = k \<and>
      pr_done ((en_promises s)[pid := p\<lparr>pr_done := Some settled\<rparr>] ! i) = None" for k i
    using old [of k i] old [of "pr_slot p" pid] old [of "pr_slot p" i] assms(3,4)
    by (auto simp: jm_simps nth_list_update sl p_def [symmetric] split: if_splits)
  show "en_inv E ok (new_replies (en_promises s ! pid) outcome @ L) (promise_settles E s pid outcome now)"
    using s2_ok all fl by (simp add: eq en_inv_def f p_def [symmetric])
  show "length (en_promises (promise_settles E s pid outcome now)) = length (en_promises s)"
    by (simp add: eq)
  show "pr_slot (en_promises (promise_settles E s pid outcome now) ! i) = pr_slot (en_promises s ! i)"
    if "i < length (en_promises s)"
    using that sl [of "Some settled"] by (cases "i = pid") (auto simp: eq p_def [symmetric])
qed

lemma resume_inv:
  assumes "lru_ok E" and "en_inv E ok L s" and "i < length (en_promises s)"
    and "pr_slot (en_promises s ! i) = inflight_key ref key" and "pr_done (en_promises s ! i) = Some settled"
    and "resolveEnrichment_resumes E s ref def key settled now = (out, s')"
  shows "en_inv E ok L s' \<and> en_promises s' = en_promises s \<and>
    (\<forall>v. out = Out_Value v \<longrightarrow> (\<exists>r. backed ok L (inflight_key ref key) r \<and> v = extractValue r ref))"
proof -
  have "backed ok L (inflight_key ref key) r" if "settled = Inr r" for r
    using assms(2-5) that nth_mem [OF assms(3)] by (fastforce simp: en_inv_def promise_ok_def)
  then show ?thesis using assms(1,2,6)
    by (auto simp: resolveEnrichment_resumes_def cache_set_frame intro!: en_inv_cache_set
        split: sum.splits enrich_error.splits)
qed

lemma es_inv_step:
  assumes "lru_ok E" and "es_inv E ok S" and "enrich_step E ok S l S'"
  shows "es_inv E ok S'"
  using assms(3)
proof cases
  case (not_configured ref raw e resolved now out s')
  then show ?thesis using assms(2) by (auto simp: resolveEnrichment_def split: if_splits sum.splits)
next
  case (starts ref raw "def" resolved key now out s')
  then have "narrowed ok ref def" by (auto simp: narrowed_def)
  moreover have i: "en_inv E ok (es_replies S) (es_state S)" using assms(2) by (simp add: es_inv_def)
  moreover note resolve_start [OF assms(1) i starts(3) starts(5) starts(4) starts(7) starts(6)]
  ultimately show ?thesis using assms(2) starts(2)
    by (auto simp: es_inv_def nth_append split: enrich_out.splits)
next
  case (settles pid outcome now)
  note inv = settle_inv [OF assms(1) _ settles(3,4), where ok = ok and L = "es_replies S" and outcome = outcome and now = now]
  show ?thesis using assms(2) inv settles(2) by (auto simp: es_inv_def)
next
  case (resumes w settled now out s')
  have "wt_pid w < length (en_promises (es_state S))"
    and "pr_slot (en_promises (es_state S) ! wt_pid w) = inflight_key (wt_ref w) (wt_key w)"
    using assms(2) resumes(3) by (auto simp: es_inv_def)
  from resume_inv [OF assms(1) _ this resumes(4,5)] show ?thesis
    using assms(2) resumes(2) set_remove1_subset [of w "es_waiters S"] by (auto simp: es_inv_def)
qed

lemma es_inv_init: "es_inv E ok es_init"
  by (simp add: es_inv_def es_init_def en_init_def en_inv_def)

lemma es_inv_reach:
  assumes "enrich_reach E ok S" and "lru_ok E" shows "es_inv E ok S"
  using assms by (induction) (auto simp: es_inv_init intro: es_inv_step)

section \<open>Properties\<close>

lemma inflight_key_inject:
  "CHR 0x1F \<notin> set ref \<Longrightarrow> CHR 0x1F \<notin> set ref' \<Longrightarrow> inflight_key ref key = inflight_key ref' key' \<longleftrightarrow> ref = ref' \<and> key = key'"
  by (simp add: inflight_key_def unit_sep_def separator_inject)

text \<open>A call that answers without a result is one the schema has nothing for.\<close>

lemma answer_cases:
  assumes "lru_ok E" and "enrich_reach E ok S" and "enrich_step E ok S (Answers ref key (Out_Value v)) S'"
  shows "(v = None \<and> (\<exists>raw. ok ref raw \<and> \<not> j_truthy raw)) \<or>
    ((\<exists>raw. ok ref raw) \<and> (\<exists>r. backed ok (es_replies S) (inflight_key ref key) r \<and> v = extractValue r ref))"
  using assms(3)
proof cases
  case (not_configured raw e resolved now s')
  then show ?thesis by (auto simp: resolveEnrichment_def split: if_splits sum.splits)
next
  case (starts raw "def" resolved now s')
  have i: "en_inv E ok (es_replies S) (es_state S)" using es_inv_reach [OF assms(2,1)] by (simp add: es_inv_def)
  show ?thesis using resolve_start [OF assms(1) i starts(2) starts(4) starts(3) starts(6) starts(5)] starts(2)
    by auto
next
  case (resumes w settled now s')
  have inv: "es_inv E ok S" by (rule es_inv_reach [OF assms(2,1)])
  then have "wt_pid w < length (en_promises (es_state S))" "narrowed ok (wt_ref w) (wt_def w)"
    and "pr_slot (en_promises (es_state S) ! wt_pid w) = inflight_key (wt_ref w) (wt_key w)"
    using resumes(4) by (auto simp: es_inv_def)
  with resume_inv [OF assms(1) _ this(1,3) resumes(5,6)] inv resumes(1,2) show ?thesis
    by (auto simp: es_inv_def narrowed_def)
qed

lemma backed_same:
  assumes "backed ok L (inflight_key ref key) r" and "\<forall>r raw. ok r raw \<longrightarrow> CHR 0x1F \<notin> set r" and "\<exists>raw. ok ref raw"
  shows "if er_isNegative r then er_values r = [(ref, None)] \<and>
      (\<exists>raw. ok ref raw \<and> j_field raw ''on_failure'' \<noteq> JStr ''fail_closed'')
    else \<exists>body. (ref, key, body) \<in> set L \<and> jm_has (er_values r) ref \<and> (\<forall>n x. jm_get (er_values r) n = Some x \<longrightarrow>
        (case x of Some v \<Rightarrow> j_field body n = JStr v | None \<Rightarrow> j_nullish (j_field body n)))"
proof -
  obtain ref' key' raw where b: "inflight_key ref' key' = inflight_key ref key" "jm_has (er_values r) ref'"
    "ok ref' raw" "er_isNegative r \<Longrightarrow> j_field raw ''on_failure'' \<noteq> JStr ''fail_closed''"
    and c: "if er_isNegative r then er_values r = [(ref', None)]
      else \<exists>body. (ref', key', body) \<in> set L \<and> (\<forall>n x. jm_get (er_values r) n = Some x \<longrightarrow>
        (case x of Some v \<Rightarrow> j_field body n = JStr v | None \<Rightarrow> j_nullish (j_field body n)))"
    using assms(1) unfolding backed_def by blast
  have "ref' = ref \<and> key' = key" using b(1,3) assms(2,3) inflight_key_inject by metis
  then show ?thesis using b c by auto
qed

text \<open>C34: a value an enrichment dimension gets was answered by that enrichment's webhook, in a well-formed
  reply to a request made for the same cache key, whatever calls, refreshes and failures ran in between and
  whatever the active schemas said.\<close>

theorem enrichment_value_was_answered:
  assumes "lru_ok E" and "enrich_reach E ok S" and "\<forall>r raw. ok r raw \<longrightarrow> CHR 0x1F \<notin> set r"
    and "enrich_step E ok S (Answers ref key (Out_Value (Some v))) S'"
  shows "\<exists>body. (ref, key, body) \<in> set (es_replies S) \<and> j_field body ref = JStr v"
proof -
  obtain r where "\<exists>raw. ok ref raw" "backed ok (es_replies S) (inflight_key ref key) r" "Some v = extractValue r ref"
    using answer_cases [OF assms(1,2,4)] by auto
  with backed_same [OF this(2) assms(3) this(1)] show ?thesis
    by (fastforce simp: extractValue_def split: if_splits option.splits)
qed

text \<open>An enrichment that is \<^verbatim>\<open>on_failure: fail_closed\<close> is null only when its webhook answered null (or
  left the key out where the shape allows it): no failure is turned into a null.\<close>

theorem fail_closed_null_was_answered:
  assumes "lru_ok E" and "enrich_reach E ok S" and "\<forall>r raw. ok r raw \<longrightarrow> CHR 0x1F \<notin> set r"
    and "\<forall>raw. ok ref raw \<longrightarrow> j_field raw ''on_failure'' = JStr ''fail_closed''"
    and "enrich_step E ok S (Answers ref key (Out_Value None)) S'"
  shows "\<exists>body. (ref, key, body) \<in> set (es_replies S) \<and> j_nullish (j_field body ref)"
proof -
  have "j_truthy raw" if "ok ref raw" for raw
    using assms(4) that by (cases raw) (auto simp: j_truthy_def j_field_def j_prop_def)
  then obtain r where "\<exists>raw. ok ref raw" "backed ok (es_replies S) (inflight_key ref key) r" "None = extractValue r ref"
    using answer_cases [OF assms(1,2,5)] by blast
  with backed_same [OF this(2) assms(3) this(1)] assms(4) show ?thesis
    by (fastforce simp: extractValue_def split: if_splits option.splits)
qed

definition under_way :: "string \<Rightarrow> string \<Rightarrow> enrich_promise \<Rightarrow> bool" where
  "under_way ref key p \<longleftrightarrow> pr_done p = None \<and> pr_ref p = ref \<and> pr_key p = key"

text \<open>The SDK never has two requests for the same enrichment and cache key under way, foreground and
  background ones together.\<close>

theorem one_request_in_flight:
  assumes "lru_ok E" and "enrich_reach E ok S"
  shows "length (filter (under_way ref key) (en_promises (es_state S))) \<le> 1"
proof -
  let ?ps = "en_promises (es_state S)"
  let ?I = "{i. i < length ?ps \<and> under_way ref key (?ps ! i)}"
  have inv: "jm_get (en_inflight (es_state S)) k = Some i \<longleftrightarrow> i < length ?ps \<and>
      pr_slot (?ps ! i) = k \<and> pr_done (?ps ! i) = None" for k i
    using es_inv_reach [OF assms(2,1)] by (simp add: es_inv_def en_inv_def)
  have slot: "jm_get (en_inflight (es_state S)) (inflight_key ref key) = Some i" if "i \<in> ?I" for i
    using that by (auto simp: inv under_way_def pr_slot_def)
  have "\<forall>i \<in> ?I. \<forall>j \<in> ?I. i = j"
  proof (intro ballI)
    fix i j assume "i \<in> ?I" "j \<in> ?I"
    from slot [OF this(1)] slot [OF this(2)] show "i = j" by simp
  qed
  moreover have "finite ?I" by simp
  ultimately show ?thesis by (simp add: length_filter_conv_card card_le_Suc0_iff_eq)
qed

text \<open>A background refresh that fails does not leave the cached result alone: unless the enrichment is
  \<^verbatim>\<open>fail_closed\<close>, the good entry is overwritten with a null for \<^verbatim>\<open>negative_ttl\<close> (the comment in the source
  says that the original survives until its own time to live).\<close>

theorem failed_refresh_replaces_entry:
  assumes "p = en_promises s ! pid" and "pr_hit p = Some hit" and "pr_early p = None"
    and "outcome = Fetch_Threw \<or> outcome = Responded False parsed"
    and "jm_get (en_registry s) (pr_ref p) = Some c"
  shows "jm_get (en_registry (promise_settles E s pid outcome now)) (pr_ref p) =
    (if is_fail_closed (pr_def p) then Some c
     else (let null = \<lparr>er_values = [(pr_ref p, None)], er_cachedAt = now, er_isNegative = True\<rparr> in
       Some (ee_set E c (pr_key p) null (result_ttl (pr_def p) null) now)))"
  using assms
  by (auto simp: promise_settles_def fetch_ends_def failureResult_def cache_set_def Let_def jm_simps
      split: webhook_outcome.splits)

section \<open>Witnesses\<close>

text \<open>An LRU cache that never evicts, expiring entries by age; a process with the secret set.\<close>

type_synonym assoc_lru = "(string \<times> enrichment_result \<times> rat \<times> int) list"

definition assoc_env :: "assoc_lru enrich_env" where
  "assoc_env = \<lparr>ee_new = \<lambda>n ttl. Some [],
     ee_get = \<lambda>c k now. (case jm_get c k of
        Some (r, ttl, t) \<Rightarrow> if of_int (now - t) \<le> ttl then (Some r, c) else (None, jm_del k c)
      | None \<Rightarrow> (None, c)),
     ee_set = \<lambda>c k r ttl now. jm_set k (r, ttl, now) c,
     ee_view = \<lambda>c k. map_option fst (jm_get c k),
     ee_rate = rate_default,
     ee_process = Some (\<lambda>v. if v = ''HOOK'' then Some ''s3cret'' else None)\<rparr>"

lemma assoc_lru_ok: "lru_ok assoc_env"
  by (auto simp: lru_ok_def assoc_env_def jm_simps split: option.splits if_splits)

definition sample_ok :: "string \<Rightarrow> string \<Rightarrow> jval \<Rightarrow> bool" where
  "sample_ok onf ref raw \<longleftrightarrow> ref = ''team'' \<and> raw = sample_block ''https://hook'' onf"

definition sample_reply :: "string option \<Rightarrow> jval" where
  "sample_reply v = JObj [(''team'', j_opt_str v)]"

definition sample_dims :: dims where "sample_dims = [(''user'', Some ''u1'')]"

definition sample_url_def :: "string \<Rightarrow> enrich_full" where
  "sample_url_def onf = sample_def ''https://hook'' onf"

lemma sample_full: "asFullDef (sample_block ''https://hook'' onf) ''team'' = Inr (sample_url_def onf)"
  unfolding sample_url_def_def by (rule sample_narrowed) (simp add: js_startsWith_def)

lemma sample_truthy: "j_truthy (sample_block u onf)"
  by (simp add: sample_block_def j_truthy_def)

lemma sample_key: "buildCacheKey (sample_url_def onf) sample_dims = ''u1''"
  by (simp add: buildCacheKey_def sample_url_def_def sample_def_def sample_dims_def dim_get_def)

definition sample_promise :: "string \<Rightarrow> enrich_promise" where
  "sample_promise onf = \<lparr>pr_ref = ''team'', pr_key = ''u1'', pr_def = sample_url_def onf, pr_early = None,
     pr_body = ''{'' @ json_quote ''user'' @ '':'' @ json_quote ''u1'' @ ''}'', pr_hit = None, pr_done = None\<rparr>"

definition sample_waiting :: "string \<Rightarrow> assoc_lru enrich_sys" where
  "sample_waiting onf = \<lparr>es_state = snd (resolveEnrichment assoc_env en_init ''team''
       (sample_block ''https://hook'' onf) sample_dims 0),
     es_waiters = [\<lparr>wt_pid = 0, wt_ref = ''team'', wt_key = ''u1'', wt_def = sample_url_def onf\<rparr>], es_replies = []\<rparr>"

lemma sample_resolve:
  "resolveEnrichment assoc_env en_init ''team'' (sample_block ''https://hook'' onf) sample_dims 0 =
     (Out_Waits 0, es_state (sample_waiting onf))"
  "en_promises (es_state (sample_waiting onf)) = [sample_promise onf]"
  by (simp_all add: sample_waiting_def resolveEnrichment_def sample_full sample_truthy sample_key [unfolded sample_url_def_def sample_def_def sample_dims_def]
      getOrCreateCache_def en_init_def assoc_env_def sample_promise_def launch_def fetch_begins_def
      checkBreaker_def br_get_def br_fresh_def tryAcquireToken_def rate_default_def buildRequestBody_def
      include_names_def request_entries_def set_own_def getSecret_def secret_var_def js_startsWith_def
      sample_url_def_def sample_def_def sample_dims_def dim_get_def j_opt_str_def envMax_def map_filter_def Let_def)

lemma sample_waiting_reach:
  "enrich_step assoc_env (sample_ok onf) es_init (Answers ''team'' ''u1'' (Out_Waits 0)) (sample_waiting onf)"
  using enrich_step.starts [of "sample_ok onf" "''team''" "sample_block ''https://hook'' onf" "sample_url_def onf"
      sample_dims "''u1''" assoc_env es_init 0 "Out_Waits 0" "es_state (sample_waiting onf)"]
  by (simp add: sample_ok_def sample_truthy sample_full sample_key sample_resolve es_init_def)
    (simp add: sample_waiting_def)

definition sample_outcome :: "string option \<Rightarrow> webhook_outcome" where
  "sample_outcome v = Responded True (Some (sample_reply v))"

definition sample_settled :: "string \<Rightarrow> string option \<Rightarrow> assoc_lru enrich_sys" where
  "sample_settled onf v = (sample_waiting onf)
     \<lparr>es_state := promise_settles assoc_env (es_state (sample_waiting onf)) 0 (sample_outcome v) 5,
      es_replies := [(''team'', ''u1'', sample_reply v)]\<rparr>"

lemma sample_settled_done:
  "en_promises (es_state (sample_settled onf v)) = [(sample_promise onf)\<lparr>pr_done :=
     Some (Inr \<lparr>er_values = [(''team'', v)], er_cachedAt = 5, er_isNegative = False\<rparr>)\<rparr>]"
  by (cases v) (simp_all add: sample_settled_def promise_settles_def sample_resolve sample_promise_def
      fetch_ends_def sample_outcome_def validateResponseShape_def sample_reply_def j_is_object_def
      sample_url_def_def sample_def_def j_field_def j_prop_def j_opt_str_def set_own_def Let_def)

lemma sample_settled_reach:
  "enrich_step assoc_env (sample_ok onf) (sample_waiting onf) (Settles 0) (sample_settled onf v)"
  using enrich_step.settles [of 0 "sample_waiting onf" assoc_env "sample_ok onf" "sample_outcome v" 5]
  by (simp add: sample_resolve)
    (simp add: sample_settled_def sample_promise_def new_replies_def sample_outcome_def sample_waiting_def)

lemma sample_settled_reached: "enrich_reach assoc_env (sample_ok onf) (sample_settled onf v)"
  by (intro enrich_reach.steps [OF enrich_reach.steps [OF enrich_reach.boots sample_waiting_reach] sample_settled_reach])

lemma sample_resumed:
  "\<exists>S'. enrich_step assoc_env (sample_ok onf) (sample_settled onf v) (Answers ''team'' ''u1'' (Out_Value v)) S'"
proof -
  let ?w = "\<lparr>wt_pid = 0, wt_ref = ''team'', wt_key = ''u1'', wt_def = sample_url_def onf\<rparr>"
  have w: "?w \<in> set (es_waiters (sample_settled onf v))" by (simp add: sample_settled_def sample_waiting_def)
  have d: "pr_done (en_promises (es_state (sample_settled onf v)) ! wt_pid ?w) =
      Some (Inr \<lparr>er_values = [(''team'', v)], er_cachedAt = 5, er_isNegative = False\<rparr>)"
    by (simp add: sample_settled_done)
  show ?thesis
    using enrich_step.resumes [OF w d, of assoc_env 6 "Out_Value v" _ "sample_ok onf"]
    by (cases v) (auto simp: resolveEnrichment_resumes_def extractValue_def)
qed

lemma sample_ref_ok: "\<forall>r raw. sample_ok onf r raw \<longrightarrow> CHR 0x1F \<notin> set r"
  by (simp add: sample_ok_def)

theorem enrichment_value_was_answered_witness:
  "\<exists>S S'. enrich_step assoc_env (sample_ok ''fail_open'') S (Answers ''team'' ''u1'' (Out_Value (Some ''red''))) S' \<and>
    (\<exists>body. (''team'', ''u1'', body) \<in> set (es_replies S) \<and> j_field body ''team'' = JStr ''red'')"
  using sample_resumed [of "''fail_open''" "Some ''red''"]
    enrichment_value_was_answered [OF assoc_lru_ok sample_settled_reached sample_ref_ok] by blast

theorem fail_closed_null_was_answered_witness:
  "\<exists>S S'. enrich_step assoc_env (sample_ok ''fail_closed'') S (Answers ''team'' ''u1'' (Out_Value None)) S' \<and>
    (\<exists>body. (''team'', ''u1'', body) \<in> set (es_replies S) \<and> j_nullish (j_field body ''team''))"
proof -
  have "\<forall>raw. sample_ok ''fail_closed'' ''team'' raw \<longrightarrow> j_field raw ''on_failure'' = JStr ''fail_closed''"
    by (simp add: sample_ok_def sample_block_def j_field_def j_prop_def)
  then show ?thesis
    using sample_resumed [of "''fail_closed''" None]
      fail_closed_null_was_answered [OF assoc_lru_ok sample_settled_reached sample_ref_ok] by blast
qed

theorem one_request_in_flight_witness:
  "enrich_reach assoc_env (sample_ok ''fail_open'') (sample_waiting ''fail_open'') \<and>
   filter (under_way ''team'' ''u1'') (en_promises (es_state (sample_waiting ''fail_open''))) = [sample_promise ''fail_open''] \<and>
   length (filter (under_way ''team'' ''u1'') (en_promises (es_state (sample_waiting ''fail_open'')))) \<le> 1"
proof -
  have r: "enrich_reach assoc_env (sample_ok ''fail_open'') (sample_waiting ''fail_open'')"
    by (rule enrich_reach.steps [OF enrich_reach.boots sample_waiting_reach])
  show ?thesis
    using r one_request_in_flight [OF assoc_lru_ok r, of "''team''" "''u1''"]
    by (simp add: sample_resolve) (simp add: under_way_def sample_promise_def)
qed

definition sample_refreshing :: "assoc_lru enrich_state" where
  "sample_refreshing = \<lparr>en_breakers = [], en_buckets = [], en_registry = [(''team'', [])],
     en_inflight = [(inflight_key ''team'' ''u1'', 0)],
     en_promises = [(sample_promise ''fail_open'')\<lparr>pr_hit :=
       Some \<lparr>er_values = [(''team'', Some ''red'')], er_cachedAt = 0, er_isNegative = False\<rparr>\<rparr>]\<rparr>"

theorem failed_refresh_replaces_entry_witness:
  "jm_get (en_registry (promise_settles assoc_env sample_refreshing 0 Fetch_Threw 200000)) ''team'' =
    Some [(''u1'', \<lparr>er_values = [(''team'', None)], er_cachedAt = 200000, er_isNegative = True\<rparr>, 30000, 200000)]"
  using failed_refresh_replaces_entry [of _ sample_refreshing 0 _ Fetch_Threw undefined "[]" assoc_env 200000, OF refl]
  by (simp add: sample_refreshing_def sample_promise_def is_fail_closed_def sample_url_def_def sample_def_def
      assoc_env_def result_ttl_def Let_def)

end
