(* ===== verification/Live_Updates.thy ===== *)
theory Live_Updates
  imports Tool_Safety Manifest_Validator
begin

text \<open>
  \<^verbatim>\<open>manifest/sse-subscriber.ts\<close> and \<^verbatim>\<open>manifest/client.ts\<close>: what the SDK does on the server's push
  events. The policy stream drives the tool-call evaluator: each handler is the list of the evaluator's
  operations it calls (\<open>client_op\<close>). The schema stream refetches the live schema and swaps the active one
  (\<^verbatim>\<open>manifest/state.ts\<close>). An event's data is the parsed JSON, \<^const>\<open>None\<close> when \<^verbatim>\<open>JSON.parse\<close> throws. \<^verbatim>\<open>Date.parse\<close> is
  an argument. Connections, reconnection and log lines are left out.
\<close>

section \<open>The subscriber\<close>

record subscriber =
  su_started :: bool
  su_closed :: bool
  su_tenantId :: string
  su_agentId :: string
  su_currentSchema :: "jval option"

text \<open>\<^verbatim>\<open>start()\<close> on a Node runtime with a tool-call evaluator; \<open>localSchema\<close> is the schema init booted on.\<close>

definition su_start :: "string \<Rightarrow> string \<Rightarrow> jval option \<Rightarrow> subscriber" where
  "su_start tenantId agentId localSchema =
     \<lparr>su_started = True, su_closed = False, su_tenantId = tenantId, su_agentId = agentId, su_currentSchema = localSchema\<rparr>"

definition su_live :: "subscriber \<Rightarrow> bool" where
  "su_live s \<longleftrightarrow> \<not> su_closed s \<and> su_started s"

definition su_close :: "subscriber \<Rightarrow> subscriber" where
  "su_close s = s\<lparr>su_closed := True\<rparr>"

section \<open>The policy stream\<close>

definition handlePolicyEvent :: "subscriber \<Rightarrow> jval option \<Rightarrow> client_op list" where
  "handlePolicyEvent s data = (if \<not> su_live s then [] else [Co_InvalidatePolicy None])"

text \<open>Reading a field of a \<^verbatim>\<open>null\<close> payload throws out of the listener before anything is invalidated.\<close>

definition handleCapabilityChangedEvent :: "subscriber \<Rightarrow> jval option \<Rightarrow> client_op list" where
  "handleCapabilityChangedEvent s data =
     (if \<not> su_live s then []
      else case data of
        None \<Rightarrow> [Co_InvalidateCapability None]
      | Some wire \<Rightarrow> (case j_prop wire ''scope_value'' of
            None \<Rightarrow> []
          | Some v \<Rightarrow> [Co_InvalidateCapability (if v = JUndefined then None else Some (j_text v))]))"

definition handleCapabilityInvalidateAll :: "subscriber \<Rightarrow> client_op list" where
  "handleCapabilityInvalidateAll s = (if \<not> su_live s then [] else [Co_InvalidateCapability None])"

definition policy_lagged :: "client_op list" where
  "policy_lagged = [Co_InvalidatePolicy None, Co_InvalidateCapability None]"

text \<open>The evaluator ignores an agent id that is not its own, so one that is no text calls nothing.\<close>

definition for_agent :: "jval \<Rightarrow> (string \<Rightarrow> client_op list) \<Rightarrow> client_op list" where
  "for_agent wire f = (case j_string (j_field wire ''agent_id'') of None \<Rightarrow> [] | Some a \<Rightarrow> f a)"

definition tenant_matches :: "subscriber \<Rightarrow> jval \<Rightarrow> bool" where
  "tenant_matches s wire \<longleftrightarrow> j_prop wire ''tenant_id'' = Some (JStr (su_tenantId s))"

definition handleAgentSuspended :: "subscriber \<Rightarrow> jval option \<Rightarrow> client_op list" where
  "handleAgentSuspended s data =
     (if \<not> su_live s then []
      else case data of
        None \<Rightarrow> []
      | Some wire \<Rightarrow> if \<not> tenant_matches s wire then [] else for_agent wire (\<lambda>a. [Co_Suspend a]))"

definition handleAgentActivated :: "subscriber \<Rightarrow> jval option \<Rightarrow> client_op list" where
  "handleAgentActivated s data =
     (if \<not> su_live s then []
      else case data of
        None \<Rightarrow> []
      | Some wire \<Rightarrow> if \<not> tenant_matches s wire then [] else for_agent wire (\<lambda>a. [Co_Activate a]))"

text \<open>A tool name or hash that is no text is read as its text in the grant's key. The clock is read once.\<close>

definition handleHitlGrant :: "(jval \<Rightarrow> int option) \<Rightarrow> subscriber \<Rightarrow> jval option \<Rightarrow> int \<Rightarrow> client_op list" where
  "handleHitlGrant date_parse s data now =
     (if \<not> su_live s then []
      else case data of
        None \<Rightarrow> []
      | Some wire \<Rightarrow>
          if \<not> tenant_matches s wire then []
          else if \<not> j_truthy (j_field wire ''tool'') \<or> \<not> j_truthy (j_field wire ''args_hash'') then []
          else (case date_parse (j_field wire ''expires_at'') of
              None \<Rightarrow> []
            | Some expiresMs \<Rightarrow>
                let ttlMs = expiresMs - now in
                if ttlMs \<le> 0 then []
                else for_agent wire (\<lambda>a. [Co_RecordGrantByHash a (j_text (j_field wire ''tool''))
                  (j_text (j_field wire ''args_hash'')) ttlMs
                  (let r = j_field wire ''request_id'' in if r = JUndefined then None else Some (j_text r)) now])))"

section \<open>The schema stream\<close>

text \<open>The reply to \<^verbatim>\<open>GET agents/{id}/schema\<close>: not found, another failure, or a body.\<close>

datatype schema_reply = Schema_Not_Found | Schema_Request_Fails | Schema_Body jval

text \<open>\<^const>\<open>None\<close>: it throws. \<^term>\<open>Some None\<close>: no schema is installed.\<close>

definition getLiveSchema :: "schema_reply \<Rightarrow> jval option option" where
  "getLiveSchema reply = (case reply of
     Schema_Not_Found \<Rightarrow> Some None
   | Schema_Request_Fails \<Rightarrow> None
   | Schema_Body resp \<Rightarrow> (case j_prop resp ''definition'' of
         None \<Rightarrow> None
       | Some d \<Rightarrow> (case parseAndValidate d of Valid_Schema s \<Rightarrow> Some (Some s) | _ \<Rightarrow> None)))"

definition schema_version :: "jval \<Rightarrow> rat" where
  "schema_version s = (case j_number (j_field s ''version'') of Some v \<Rightarrow> v | None \<Rightarrow> 0)"

text \<open>Does the event start a refresh?\<close>

definition handleEvent :: "subscriber \<Rightarrow> jval option \<Rightarrow> bool" where
  "handleEvent s data = (su_live s \<and> (case data of
     None \<Rightarrow> False | Some wire \<Rightarrow> j_prop wire ''agent_id'' = Some (JStr (su_agentId s))))"

text \<open>The rest of \<^verbatim>\<open>refreshSchema\<close>, when the reply arrives. It does not look at \<open>closed\<close> again.\<close>

definition refreshSchema :: "subscriber \<Rightarrow> jval option \<Rightarrow> schema_reply \<Rightarrow> subscriber \<times> jval option" where
  "refreshSchema s active reply = (case getLiveSchema reply of
     None \<Rightarrow> (s, active)
   | Some None \<Rightarrow> (s, active)
   | Some (Some live) \<Rightarrow>
       if (case su_currentSchema s of Some c \<Rightarrow> schema_version live < schema_version c | None \<Rightarrow> False) then (s, active)
       else (s\<lparr>su_currentSchema := Some live\<rparr>, Some live))"

section \<open>Runs\<close>

datatype live_event =
    Le_Policy "jval option" | Le_Capability "jval option" | Le_Capability_All | Le_Policy_Lagged
  | Le_Suspended "jval option" | Le_Activated "jval option" | Le_Grant "jval option" int
  | Le_Schema_Installed "jval option" | Le_Schema_Lagged | Le_Schema_Reply schema_reply | Le_Close

record live_state =
  lv_sub :: subscriber
  lv_active :: "jval option"
  lv_refreshing :: nat

text \<open>A reply belongs to one of the refreshes under way.\<close>

fun live_ops :: "(jval \<Rightarrow> int option) \<Rightarrow> subscriber \<Rightarrow> live_event \<Rightarrow> client_op list" where
  "live_ops dp s (Le_Policy d) = handlePolicyEvent s d"
| "live_ops dp s (Le_Capability d) = handleCapabilityChangedEvent s d"
| "live_ops dp s Le_Capability_All = handleCapabilityInvalidateAll s"
| "live_ops dp s Le_Policy_Lagged = policy_lagged"
| "live_ops dp s (Le_Suspended d) = handleAgentSuspended s d"
| "live_ops dp s (Le_Activated d) = handleAgentActivated s d"
| "live_ops dp s (Le_Grant d now) = handleHitlGrant dp s d now"
| "live_ops dp s _ = []"

fun live_step :: "live_state \<Rightarrow> live_event \<Rightarrow> live_state" where
  "live_step l (Le_Schema_Installed d) = (if handleEvent (lv_sub l) d then l\<lparr>lv_refreshing := Suc (lv_refreshing l)\<rparr> else l)"
| "live_step l Le_Schema_Lagged = (if su_live (lv_sub l) then l\<lparr>lv_refreshing := Suc (lv_refreshing l)\<rparr> else l)"
| "live_step l (Le_Schema_Reply r) =
     (if lv_refreshing l = 0 then l
      else (let (s, a) = refreshSchema (lv_sub l) (lv_active l) r
            in l\<lparr>lv_sub := s, lv_active := a, lv_refreshing := lv_refreshing l - 1\<rparr>))"
| "live_step l Le_Close = l\<lparr>lv_sub := su_close (lv_sub l)\<rparr>"
| "live_step l _ = l"

text \<open>A run of the process mixes the evaluator's own events with pushed ones; what the evaluator sees of it.\<close>

type_synonym process_event = "tool_event + live_event"

fun process_live :: "live_state \<Rightarrow> process_event list \<Rightarrow> live_state" where
  "process_live l [] = l"
| "process_live l (Inl e # es) = process_live l es"
| "process_live l (Inr e # es) = process_live (live_step l e) es"

fun tool_trace :: "(jval \<Rightarrow> int option) \<Rightarrow> live_state \<Rightarrow> process_event list \<Rightarrow> tool_event list" where
  "tool_trace dp l [] = []"
| "tool_trace dp l (Inl e # es) = e # tool_trace dp l es"
| "tool_trace dp l (Inr e # es) = map Te_Op (live_ops dp (lv_sub l) e) @ tool_trace dp (live_step l e) es"

lemma tool_trace_append:
  "tool_trace dp l (xs @ ys) = tool_trace dp l xs @ tool_trace dp (process_live l xs) ys"
  by (induction l xs rule: process_live.induct) auto

lemma live_step_ids:
  "su_tenantId (lv_sub (live_step l e)) = su_tenantId (lv_sub l)"
  "su_agentId (lv_sub (live_step l e)) = su_agentId (lv_sub l)"
  "su_started (lv_sub (live_step l e)) = su_started (lv_sub l)"
  "e \<noteq> Le_Close \<Longrightarrow> su_closed (lv_sub (live_step l e)) = su_closed (lv_sub l)"
  by (cases e; auto simp: refreshSchema_def su_close_def Let_def split: option.splits)+

lemma process_live_ids:
  "su_tenantId (lv_sub (process_live l es)) = su_tenantId (lv_sub l)"
  "su_started (lv_sub (process_live l es)) = su_started (lv_sub l)"
  "Inr Le_Close \<notin> set es \<Longrightarrow> su_closed (lv_sub (process_live l es)) = su_closed (lv_sub l)"
  by (induction l es rule: process_live.induct) (auto simp: live_step_ids)

section \<open>Suspension reaches every call\<close>

definition lifecycle_for :: "subscriber \<Rightarrow> string \<Rightarrow> jval \<Rightarrow> bool" where
  "lifecycle_for s agent wire \<longleftrightarrow> tenant_matches s wire \<and> j_field wire ''agent_id'' = JStr agent"

lemmas live_op_defs = handlePolicyEvent_def handleCapabilityChangedEvent_def handleCapabilityInvalidateAll_def
  policy_lagged_def handleAgentSuspended_def handleHitlGrant_def for_agent_def

lemma j_string_elim: "j_string v = Some a \<Longrightarrow> v = JStr a"
  by (cases v) (simp_all add: j_string_def)

lemma activation_ops:
  assumes "Co_Activate a \<in> set (live_ops dp s e)"
  shows "\<exists>wire. e = Le_Activated (Some wire) \<and> lifecycle_for s a wire"
proof (cases e)
  case (Le_Activated d)
  then show ?thesis using assms
    by (cases d) (auto simp: handleAgentActivated_def for_agent_def lifecycle_for_def
        split: if_splits option.splits dest!: j_string_elim [OF sym])
qed (use assms in \<open>auto simp: live_op_defs Let_def split: if_splits option.splits\<close>)

text \<open>Nothing in \<open>es\<close> reactivates the agent: neither a call of the evaluator nor a pushed event.\<close>

definition no_activation :: "subscriber \<Rightarrow> string \<Rightarrow> process_event list \<Rightarrow> bool" where
  "no_activation s agent es \<longleftrightarrow> Inl (Te_Op (Co_Activate agent)) \<notin> set es \<and>
     (\<forall>wire. Inr (Le_Activated (Some wire)) \<in> set es \<longrightarrow> \<not> lifecycle_for s agent wire)"

lemma trace_no_activation:
  assumes "no_activation (lv_sub l) agent es"
  shows "Te_Op (Co_Activate agent) \<notin> set (tool_trace dp l es)"
  using assms
proof (induction es arbitrary: l)
  case (Cons e es)
  have lf: "lifecycle_for (lv_sub (live_step l x)) agent wire = lifecycle_for (lv_sub l) agent wire" for x wire
    by (simp add: lifecycle_for_def tenant_matches_def live_step_ids)
  show ?case
  proof (cases e)
    case (Inl te)
    then show ?thesis using Cons by (auto simp: no_activation_def)
  next
    case (Inr le)
    have "no_activation (lv_sub (live_step l le)) agent es"
      using Cons.prems by (auto simp: no_activation_def lf)
    then have "Te_Op (Co_Activate agent) \<notin> set (tool_trace dp (live_step l le) es)" by (rule Cons.IH)
    moreover have "Co_Activate agent \<notin> set (live_ops dp (lv_sub l) le)"
    proof
      assume "Co_Activate agent \<in> set (live_ops dp (lv_sub l) le)"
      then obtain wire where "le = Le_Activated (Some wire)" "lifecycle_for (lv_sub l) agent wire"
        using activation_ops by blast
      then show False using Cons.prems by (auto simp: no_activation_def Inr)
    qed
    ultimately show ?thesis by (simp add: Inr image_iff)
  qed
qed simp


text \<open>C23: a suspension pushed by the server denies every call from then on: after an \<^verbatim>\<open>agent_suspended\<close> event for
  this tenant and agent, whatever evaluations, approvals, cached answers, policy events and schema
  refreshes follow, each call is denied on the spot until the agent is activated.\<close>

theorem pushed_suspension_denies:
  assumes "su_live (lv_sub (process_live l before))" and "lifecycle_for (lv_sub l) (tc_agentId c) wire"
    and "no_activation (lv_sub l) (tc_agentId c) later"
  shows "let s = ts_run env c (tool_trace dp l (before @ Inr (Le_Suspended (Some wire)) # later)) in
    \<exists>e audit. eval_start (ts_client s) ctx q = Finished e [audit] \<and> te_decision e = Dec_Deny \<and>
      te_reason e = Some (JStr ''agent suspended'')"
proof -
  let ?l = "process_live l before"
  have same: "lifecycle_for (lv_sub ?l) = lifecycle_for (lv_sub l)"
    by (intro ext) (simp add: lifecycle_for_def tenant_matches_def process_live_ids)
  have ops: "handleAgentSuspended (lv_sub ?l) (Some wire) = [Co_Suspend (tc_agentId c)]"
    using assms(1,2) same
    by (simp add: handleAgentSuspended_def for_agent_def lifecycle_for_def tenant_matches_def process_live_ids j_string_def)
  have "no_activation (lv_sub ?l) (tc_agentId c) later" using assms(3) by (simp add: no_activation_def same)
  then have "Te_Op (Co_Activate (tc_agentId c)) \<notin> set (tool_trace dp ?l later)" by (rule trace_no_activation)
  from suspended_call_denied [OF suspended_in_run [OF this]]
  have "\<exists>e audit. eval_start (ts_client (ts_run env c (tool_trace dp l before @
      Te_Op (Co_Suspend (tc_agentId c)) # tool_trace dp ?l later))) ctx q = Finished e [audit] \<and>
      te_decision e = Dec_Deny \<and> te_reason e = Some (JStr ''agent suspended'')" .
  then show ?thesis by (simp add: tool_trace_append ops Let_def)
qed

definition sample_live :: live_state where
  "sample_live = \<lparr>lv_sub = su_start ''t1'' ''a1'' (Some (JObj [(''version'', JNum ''2'')])),
     lv_active = Some (JObj [(''version'', JNum ''2'')]), lv_refreshing = 0\<rparr>"

definition sample_lifecycle :: jval where
  "sample_lifecycle = JObj [(''tenant_id'', JStr ''t1''), (''agent_id'', JStr ''a1'')]"

theorem pushed_suspension_denies_witness:
  "let s = ts_run sample_env sample_client (tool_trace (\<lambda>_. None) sample_live
       ([Inr Le_Capability_All] @ Inr (Le_Suspended (Some sample_lifecycle)) #
        [Inr (Le_Activated (Some (JObj [(''tenant_id'', JStr ''t2''), (''agent_id'', JStr ''a1'')]))), Inr Le_Close])) in
    \<exists>e audit. eval_start (ts_client s) (ev_ctx sample_env) sample_call = Finished e [audit] \<and>
      te_decision e = Dec_Deny \<and> te_reason e = Some (JStr ''agent suspended'')"
  by (rule pushed_suspension_denies)
    (simp_all add: sample_live_def sample_lifecycle_def su_start_def su_live_def lifecycle_for_def tenant_matches_def
      no_activation_def sample_client_def j_prop_def j_field_def)

section \<open>A pushed approval\<close>

text \<open>An approval pushed by the server only ever answers a call of the same tenant and agent, and never past
  the expiry the event carries: whatever entry the event adds to the approvals has the event's
  key and ends at the latest at \<^verbatim>\<open>expires_at\<close>.\<close>

theorem pushed_grant_is_bounded:
  assumes "ag_lookup (tc_approvalGrants c) k = None"
    and "ag_lookup (tc_approvalGrants (foldl (client_step env) c (handleHitlGrant dp s (Some wire) now))) k = Some (r, x)"
  shows "tenant_matches s wire \<and> j_field wire ''agent_id'' = JStr (tc_agentId c) \<and>
    k = ag_key (tc_agentId c) (j_text (j_field wire ''tool'')) (j_text (j_field wire ''args_hash'')) \<and>
    (\<exists>expires. dp (j_field wire ''expires_at'') = Some expires \<and> now < x \<and> x \<le> expires)"
proof -
  have le: "to_int32 t \<le> t" if "0 < t" for t
  proof (cases "t < 2 ^ 31")
    case False
    then show ?thesis using to_int32_less [of t] by simp
  qed (use that in \<open>simp add: to_int32_id\<close>)
  from assms obtain a expires where t: "tenant_matches s wire" and e: "dp (j_field wire ''expires_at'') = Some expires"
    and pos: "0 < expires - now" and a: "j_string (j_field wire ''agent_id'') = Some a"
    and g: "ag_lookup (tc_approvalGrants (recordApprovalGrantByHash c a (j_text (j_field wire ''tool''))
        (j_text (j_field wire ''args_hash'')) (expires - now)
        (let r = j_field wire ''request_id'' in if r = JUndefined then None else Some (j_text r)) now)) k = Some (r, x)"
    by (auto simp: handleHitlGrant_def for_agent_def Let_def split: if_splits option.splits)
  let ?ttl = "max 0 (to_int32 (expires - now))"
  from g assms(1) have own: "a = tc_agentId c" and "?ttl \<noteq> 0" by (auto simp: recordApprovalGrantByHash_def Let_def split: if_splits)
  from g assms(1) own have "k = ag_key a (j_text (j_field wire ''tool'')) (j_text (j_field wire ''args_hash'')) \<and> x = now + ?ttl"
    by (auto simp: recordApprovalGrantByHash_def ag_put_def Let_def split: if_splits dest!: ag_lookup_put)
  with le [OF pos] t e own \<open>?ttl \<noteq> 0\<close> j_string_elim [OF a] pos show ?thesis by auto
qed

definition sample_hitl :: jval where
  "sample_hitl = JObj [(''tenant_id'', JStr ''t1''), (''agent_id'', JStr ''a1''), (''tool'', JStr ''mail''),
     (''args_hash'', JStr ''ab''), (''expires_at'', JStr ''soon''), (''request_id'', JStr ''r1'')]"

theorem pushed_grant_is_bounded_witness:
  "\<exists>expires. (if j_field sample_hitl ''expires_at'' = JStr ''soon'' then Some (900::int) else None) = Some expires \<and>
     (100::int) < 900 \<and> (900::int) \<le> expires"
proof -
  let ?s = "lv_sub sample_live" and ?dp = "\<lambda>v. if v = JStr ''soon'' then Some 900 else None"
  have "ag_lookup (tc_approvalGrants (foldl (client_step sample_env) sample_client (handleHitlGrant ?dp ?s (Some sample_hitl) 100)))
      (ag_key ''a1'' ''mail'' ''ab'') = Some (Some ''r1'', 900)"
    by (simp add: handleHitlGrant_def sample_live_def su_start_def su_live_def tenant_matches_def sample_hitl_def j_prop_def
        j_field_def j_truthy_def for_agent_def j_string_def recordApprovalGrantByHash_def sample_client_def
        to_int32_id ag_put_def ag_lookup_put_same Let_def)
  from pushed_grant_is_bounded [OF _ this] show ?thesis
    by (simp add: sample_client_def ag_lookup_def ag_new_def sample_hitl_def j_field_def j_prop_def)
qed

section \<open>The active schema\<close>

definition live_inv :: "live_state \<Rightarrow> bool" where
  "live_inv l \<longleftrightarrow> lv_active l = su_currentSchema (lv_sub l)"

text \<open>No schema before, or one of at most the same version.\<close>

definition not_newer :: "jval option \<Rightarrow> jval option \<Rightarrow> bool" where
  "not_newer a b \<longleftrightarrow> (case a of None \<Rightarrow> True
     | Some x \<Rightarrow> (case b of None \<Rightarrow> False | Some y \<Rightarrow> schema_version x \<le> schema_version y))"

lemma not_newer_trans: "not_newer a b \<Longrightarrow> not_newer b c \<Longrightarrow> not_newer a c"
  by (auto simp: not_newer_def split: option.splits)

lemma live_step_schema:
  "live_inv l \<Longrightarrow> live_inv (live_step l e) \<and> not_newer (lv_active l) (lv_active (live_step l e))"
  by (cases e) (auto simp: live_inv_def not_newer_def su_close_def refreshSchema_def Let_def split: option.splits)

text \<open>C25: the active schema never goes back to an older version and is never uninstalled, in any
  interleaving of schema events, refreshes (also several at once, answered in any order or
  failing), policy events and tool calls.\<close>

theorem active_schema_never_regresses:
  assumes "live_inv l"
  shows "live_inv (process_live l es) \<and> not_newer (lv_active l) (lv_active (process_live l es))"
  using assms
proof (induction l es rule: process_live.induct)
  case (3 l e es)
  from live_step_schema [OF "3.prems", of e] "3.IH" show ?case by (auto dest: not_newer_trans)
qed (auto simp: not_newer_def split: option.splits)

theorem active_schema_never_regresses_witness:
  "not_newer (Some (JObj [(''version'', JNum ''2'')])) (lv_active (process_live sample_live
     [Inr Le_Schema_Lagged, Inr Le_Schema_Lagged, Inr (Le_Schema_Reply Schema_Request_Fails), Inr (Le_Schema_Reply Schema_Not_Found)]))"
proof -
  have i: "live_inv sample_live" and a: "lv_active sample_live = Some (JObj [(''version'', JNum ''2'')])"
    by (simp_all add: live_inv_def sample_live_def su_start_def)
  show ?thesis
    using active_schema_never_regresses [OF i, of "[Inr Le_Schema_Lagged, Inr Le_Schema_Lagged,
      Inr (Le_Schema_Reply Schema_Request_Fails), Inr (Le_Schema_Reply Schema_Not_Found)]"] by (simp only: a)
qed

section \<open>What the pushes leave of the caches\<close>

text \<open>Every policy event, readable or not, and a lost event leave no cached decision and keep the
  approvals; a closed subscriber does nothing.\<close>

lemma policy_push_forgets:
  assumes "e = Le_Policy d \<or> e = Le_Capability None \<or> e = Le_Capability_All" and "su_live s"
  shows "dc_lookup (tc_cache (foldl (client_step env) c (live_ops dp s e))) k = None \<and>
    tc_lastPolicyHash (foldl (client_step env) c (live_ops dp s e)) = None \<and>
    tc_approvalGrants (foldl (client_step env) c (live_ops dp s e)) = tc_approvalGrants c"
  using assms
  by (auto simp: handlePolicyEvent_def handleCapabilityChangedEvent_def handleCapabilityInvalidateAll_def
      invalidatePolicyCache_def invalidateCapabilityCache_def drop_policy_state_def dc_lookup_clear)

end
