(* ===== verification/Host_Registry.thy ===== *)
theory Host_Registry
  imports Js_Text
begin

text \<open>
  \<^verbatim>\<open>instrumentation/host-registry.ts\<close>: which hosts are watched (\<open>HostRegistry\<close>) and which requests have a wire
  shape that can be enforced (\<open>classifyUrl\<close>). \<^verbatim>\<open>new URL\<close> is an argument: the host name and the path of a
  URL, or \<^const>\<open>None\<close> when it throws.
\<close>

datatype provider = Prov_OpenAI | Prov_Anthropic | Prov_OpenAI_Compatible | Prov_Bedrock | Prov_Cohere
  | Prov_Gemini | Prov_Mcp_Http

datatype wire_shape = Shape_OpenAI_Chat | Shape_OpenAI_Responses | Shape_Anthropic_Messages | Shape_Bedrock_Invoke
  | Shape_Bedrock_Converse | Shape_Cohere_Chat | Shape_Gemini_Generate | Shape_Mcp_JsonRpc

record host_match =
  hm_provider :: "provider option"
  hm_shape :: "wire_shape option"

definition DEFAULT_LLM_HOSTS :: "string list" where
  "DEFAULT_LLM_HOSTS = [''api.openai.com'', ''api.anthropic.com'', ''*.openai.azure.com'', ''api.together.xyz'',
     ''api.mistral.ai'', ''api.groq.com'', ''api.deepseek.com'', ''api.x.ai'', ''api.perplexity.ai'',
     ''openrouter.ai'', ''api.cohere.ai'', ''generativelanguage.googleapis.com'', ''api.fireworks.ai'',
     ''api.anyscale.com'', ''bedrock-runtime.*.amazonaws.com'']"

section \<open>The registry\<close>

record host_registry =
  hr_exact :: "string list"
  hr_suffixes :: "string list"
  hr_midWildcards :: "(string \<times> string) list"

definition index_from :: "string \<Rightarrow> string \<Rightarrow> nat \<Rightarrow> nat option" where
  "index_from s p k = map_option (\<lambda>i. i + k) (js_indexOf (drop k s) p)"

definition hr_add :: "host_registry \<Rightarrow> string \<Rightarrow> host_registry" where
  "hr_add r host =
     (let normalized = js_trim (js_lower host) in
      if normalized = [] then r
      else if js_startsWith normalized ''*.'' then r\<lparr>hr_suffixes := hr_suffixes r @ [drop 1 normalized]\<rparr>
      else (case js_indexOf normalized ''.*.'' of
          Some star \<Rightarrow>
            if star > 0 \<and> index_from normalized ''.*.'' (star + 1) = None
            then r\<lparr>hr_midWildcards := hr_midWildcards r @ [(take (star + 1) normalized, drop (star + 2) normalized)]\<rparr>
            else r\<lparr>hr_exact := List.insert normalized (hr_exact r)\<rparr>
        | None \<Rightarrow> r\<lparr>hr_exact := List.insert normalized (hr_exact r)\<rparr>))"

definition hr_addAll :: "host_registry \<Rightarrow> string list \<Rightarrow> host_registry" where
  "hr_addAll r hosts = foldl hr_add r hosts"

definition hr_new :: "string list \<Rightarrow> host_registry" where
  "hr_new extra =
     hr_addAll (hr_addAll \<lparr>hr_exact = [], hr_suffixes = [], hr_midWildcards = []\<rparr> DEFAULT_LLM_HOSTS) extra"

text \<open>\<^verbatim>\<open>slice(a, b)\<close> is empty when \<open>b \<le> a\<close>.\<close>

definition hr_matches :: "host_registry \<Rightarrow> string \<Rightarrow> bool" where
  "hr_matches r host =
     (let h = js_lower host in
      h \<in> set (hr_exact r) \<or> list_ex (js_endsWith h) (hr_suffixes r) \<or>
      list_ex (\<lambda>(prefix, suffix).
        js_startsWith h prefix \<and> js_endsWith h suffix \<and>
        (let middle = drop (length prefix) (take (length h - length suffix) h) in
         middle \<noteq> [] \<and> \<not> js_includes middle ''.'')) (hr_midWildcards r))"

text \<open>\<^verbatim>\<open>_setActiveHostRegistry\<close>, \<^verbatim>\<open>addLlmHosts\<close>, and the environment variable's list.\<close>

definition addLlmHosts :: "host_registry option \<Rightarrow> string list \<Rightarrow> bool \<times> host_registry option" where
  "addLlmHosts activeRegistry hosts = (case activeRegistry of
     None \<Rightarrow> (False, None) | Some r \<Rightarrow> (True, Some (hr_addAll r hosts)))"

fun split_hosts :: "string \<Rightarrow> string list" where
  "split_hosts [] = [[]]"
| "split_hosts (c # s) =
     (if is_ws c \<or> c = CHR '','' then [] # split_hosts s
      else (c # hd (split_hosts s)) # tl (split_hosts s))"

definition parseExtraLlmHosts :: "string option \<Rightarrow> string list" where
  "parseExtraLlmHosts raw = (case raw of None \<Rightarrow> [] | Some s \<Rightarrow> filter (\<lambda>h. h \<noteq> []) (map js_trim (split_hosts s)))"

section \<open>The classifier\<close>

definition is_word_char :: "char \<Rightarrow> bool" where
  "is_word_char c \<longleftrightarrow> is_digit c \<or> is_lower c \<or> is_upper c \<or> c = CHR ''_''"

text \<open>\<^verbatim>\<open>/w\b/.test(s)\<close> for a text \<open>w\<close> that ends in a word character.\<close>

fun has_word :: "string \<Rightarrow> string \<Rightarrow> bool" where
  "has_word w s \<longleftrightarrow>
     js_startsWith s w \<and> (case drop (length w) s of [] \<Rightarrow> True | c # _ \<Rightarrow> \<not> is_word_char c) \<or>
     (case s of [] \<Rightarrow> False | _ # s' \<Rightarrow> has_word w s')"

declare has_word.simps [simp del]

text \<open>\<^verbatim>\<open>/^\/model\/[^/]+\/call$/.test(path)\<close> for one of the calls.\<close>

definition model_call :: "string list \<Rightarrow> string \<Rightarrow> bool" where
  "model_call calls path \<longleftrightarrow>
     js_startsWith path ''/model/'' \<and>
     (let r = drop 7 path in takeWhile (\<lambda>c. c \<noteq> CHR ''/'') r \<noteq> [] \<and> dropWhile (\<lambda>c. c \<noteq> CHR ''/'') r \<in> set calls)"

definition openAICompatHosts :: "string list" where
  "openAICompatHosts = [''api.together.xyz'', ''api.mistral.ai'', ''api.groq.com'', ''api.deepseek.com'', ''api.x.ai'',
     ''api.perplexity.ai'', ''openrouter.ai'', ''api.fireworks.ai'', ''api.anyscale.com'']"

definition classifyUrl :: "(string \<Rightarrow> (string \<times> string) option) \<Rightarrow> string \<Rightarrow> host_match" where
  "classifyUrl new_URL url =
     (case new_URL url of
        None \<Rightarrow> \<lparr>hm_provider = None, hm_shape = None\<rparr>
      | Some (hostname, path) \<Rightarrow>
          (let host = js_lower hostname in
           if host = ''api.openai.com'' \<or> js_endsWith host ''.openai.azure.com'' then
             \<lparr>hm_provider = Some Prov_OpenAI, hm_shape =
                if js_includes path ''/responses'' then Some Shape_OpenAI_Responses
                else if js_includes path ''/chat/completions'' then Some Shape_OpenAI_Chat else None\<rparr>
           else if host = ''api.anthropic.com'' then
             \<lparr>hm_provider = Some Prov_Anthropic, hm_shape =
                if js_includes path ''/messages'' then Some Shape_Anthropic_Messages else None\<rparr>
           else if host \<in> set openAICompatHosts then
             \<lparr>hm_provider = Some Prov_OpenAI_Compatible, hm_shape =
                if js_includes path ''/chat/completions'' then Some Shape_OpenAI_Chat else None\<rparr>
           else if host = ''api.cohere.ai'' \<and> (has_word ''/v1/chat'' path \<or> has_word ''/v2/chat'' path) then
             \<lparr>hm_provider = Some Prov_Cohere, hm_shape = Some Shape_Cohere_Chat\<rparr>
           else if js_startsWith host ''bedrock-runtime.'' \<and> js_endsWith host ''.amazonaws.com'' then
             \<lparr>hm_provider = Some Prov_Bedrock, hm_shape =
                if model_call [''/invoke'', ''/invoke-with-response-stream''] path then Some Shape_Bedrock_Invoke
                else if model_call [''/converse'', ''/converse-stream''] path then Some Shape_Bedrock_Converse else None\<rparr>
           else if host = ''generativelanguage.googleapis.com'' \<and>
                   (has_word '':streamGenerateContent'' path \<or> has_word '':generateContent'' path) then
             \<lparr>hm_provider = Some Prov_Gemini, hm_shape = Some Shape_Gemini_Generate\<rparr>
           else \<lparr>hm_provider = None, hm_shape = None\<rparr>))"

section \<open>Watched and enforceable\<close>

lemma default_registry:
  "hr_new [] = \<lparr>hr_exact = [''api.anyscale.com'', ''api.fireworks.ai'', ''generativelanguage.googleapis.com'',
     ''api.cohere.ai'', ''openrouter.ai'', ''api.perplexity.ai'', ''api.x.ai'', ''api.deepseek.com'', ''api.groq.com'',
     ''api.mistral.ai'', ''api.together.xyz'', ''api.anthropic.com'', ''api.openai.com''],
     hr_suffixes = [''.openai.azure.com''], hr_midWildcards = [(''bedrock-runtime.'', ''.amazonaws.com'')]\<rparr>"
  by code_simp

definition classify_host :: "string \<Rightarrow> string \<Rightarrow> host_match" where
  "classify_host host path = classifyUrl (\<lambda>_. Some (host, path)) []"

lemma classify_via_host: "new_URL url = Some (host, path) \<Longrightarrow> classifyUrl new_URL url = classify_host host path"
  by (simp add: classifyUrl_def classify_host_def)

lemma shape_host:
  "hm_shape (classify_host host path) \<noteq> None \<Longrightarrow>
    hr_matches (hr_new []) host \<or> js_startsWith (js_lower host) ''bedrock-runtime.'' \<and> js_endsWith (js_lower host) ''.amazonaws.com''"
  by (auto simp: classify_host_def classifyUrl_def default_registry hr_matches_def openAICompatHosts_def Let_def
      split: if_splits)

text \<open>A path every shape but Bedrock's accepts.\<close>

definition any_path :: string where
  "any_path = ''/v1/chat/completions/messages:generateContent''"

lemma any_path_facts:
  "js_includes any_path ''/chat/completions''" "js_includes any_path ''/messages''"
  "has_word ''/v1/chat'' any_path" "has_word '':generateContent'' any_path"
  "model_call [''/invoke'', ''/invoke-with-response-stream''] ''/model/m/invoke''"
  unfolding any_path_def by code_simp+

lemma host_shape:
  assumes "hr_matches (hr_new []) host \<or>
    js_startsWith (js_lower host) ''bedrock-runtime.'' \<and> js_endsWith (js_lower host) ''.amazonaws.com''"
  shows "\<exists>path. hm_shape (classify_host host path) \<noteq> None"
proof (cases "js_startsWith (js_lower host) ''bedrock-runtime.''")
  case True
  have exact: "js_lower host \<notin> set (hr_exact (hr_new []))"
    using True by (auto simp: default_registry js_startsWith_def)
  then have other: "js_lower host \<notin> set openAICompatHosts" "js_lower host \<noteq> ''api.openai.com''"
    "js_lower host \<noteq> ''api.anthropic.com''" "js_lower host \<noteq> ''api.cohere.ai''"
    by (auto simp: default_registry openAICompatHosts_def)
  show ?thesis
  proof (cases "js_endsWith (js_lower host) ''.openai.azure.com''")
    case True
    then have "hm_shape (classify_host host any_path) \<noteq> None"
      by (simp add: classify_host_def classifyUrl_def any_path_facts)
    then show ?thesis by blast
  next
    case False
    then have "js_endsWith (js_lower host) ''.amazonaws.com''"
      using assms exact by (auto simp: hr_matches_def default_registry Let_def)
    then have "hm_shape (classify_host host ''/model/m/invoke'') \<noteq> None"
      using False True other by (simp add: classify_host_def classifyUrl_def any_path_facts)
    then show ?thesis by blast
  qed
next
  case False
  then have "hm_shape (classify_host host any_path) \<noteq> None"
    using assms by (auto simp: classify_host_def classifyUrl_def any_path_facts hr_matches_def default_registry
        openAICompatHosts_def Let_def)
  then show ?thesis by blast
qed

text \<open>Exactly the built-in hosts can be enforced: some path of a host has a wire shape exactly when the
  default registry matches the host or it lies under \<^verbatim>\<open>bedrock-runtime.\<close> and \<^verbatim>\<open>.amazonaws.com\<close>. So a host that is
  only matched because the operator added it (\<^verbatim>\<open>llmHosts\<close>, \<^verbatim>\<open>AGENTUM_EXTRA_LLM_HOSTS\<close>, \<open>addLlmHosts\<close>) is watched but
  never enforced.\<close>

theorem enforceable_iff_built_in:
  "(\<exists>path. hm_shape (classify_host host path) \<noteq> None) \<longleftrightarrow>
    hr_matches (hr_new []) host \<or>
    js_startsWith (js_lower host) ''bedrock-runtime.'' \<and> js_endsWith (js_lower host) ''.amazonaws.com''"
  using shape_host host_shape by blast

end
