(* ===== verification/Json_Parse.thy ===== *)
theory Json_Parse
  imports Js_Value
begin

text \<open>
  \<^verbatim>\<open>JSON.parse\<close> on the strings of the model, used wherever the SDK reads text that came over the
  wire, with its main law: it inverts \<^verbatim>\<open>JSON.stringify\<close> (\<^const>\<open>json_stringify\<close>). A number keeps the spelling of
  its literal (\<^verbatim>\<open>1.0\<close> and \<^verbatim>\<open>1\<close> have the same \<^const>\<open>j_number\<close>) but for the case of its exponent, and an escaped code unit above 255, which the
  strings cannot hold, is read as a question mark. The recursion runs on fuel; the length of
  the text is enough (\<open>json_parse_stringify\<close>).
\<close>

section \<open>The parser\<close>

definition json_ws :: "char \<Rightarrow> bool" where
  "json_ws c \<longleftrightarrow> of_char c \<in> {9, 10, 13, 32 :: nat}"

definition hex_code :: "char \<Rightarrow> nat option" where
  "hex_code c = (let n = of_char c :: nat in
     if 48 \<le> n \<and> n \<le> 57 then Some (n - 48)
     else if 97 \<le> n \<and> n \<le> 102 then Some (n - 87)
     else if 65 \<le> n \<and> n \<le> 70 then Some (n - 55) else None)"

definition code_unit :: "char \<Rightarrow> char \<Rightarrow> char \<Rightarrow> char \<Rightarrow> char option" where
  "code_unit a b c d = (case (hex_code a, hex_code b, hex_code c, hex_code d) of
     (Some w, Some x, Some y, Some z) \<Rightarrow>
       Some (if w = 0 \<and> x = 0 then char_of (16 * y + z) else CHR ''?'')
   | _ \<Rightarrow> None)"

definition simple_escape :: "char \<Rightarrow> char option" where
  "simple_escape c = (let n = of_char c :: nat in
     if n = 34 \<or> n = 92 \<or> n = 47 then Some c
     else if c = CHR ''b'' then Some (char_of (8 :: nat))
     else if c = CHR ''f'' then Some (char_of (12 :: nat))
     else if c = CHR ''n'' then Some (char_of (10 :: nat))
     else if c = CHR ''r'' then Some (char_of (13 :: nat))
     else if c = CHR ''t'' then Some (char_of (9 :: nat)) else None)"

text \<open>The rest of a string literal after its opening quote.\<close>

fun parse_chars :: "string \<Rightarrow> (string \<times> string) option" where
  "parse_chars [] = None"
| "parse_chars (c # r) =
     (if c = CHR 0x22 then Some ([], r)
      else if c = CHR 0x5C then
        (case r of
           [] \<Rightarrow> None
         | e # r1 \<Rightarrow>
             if e = CHR ''u'' then
               (case r1 of
                  w # x # y # z # r2 \<Rightarrow>
                    (case code_unit w x y z of
                       None \<Rightarrow> None
                     | Some u \<Rightarrow> map_option (\<lambda>(s, t). (u # s, t)) (parse_chars r2))
                | _ \<Rightarrow> None)
             else (case simple_escape e of
                 None \<Rightarrow> None
               | Some u \<Rightarrow> map_option (\<lambda>(s, t). (u # s, t)) (parse_chars r1)))
      else if (of_char c :: nat) < 32 then None
      else map_option (\<lambda>(s, t). (c # s, t)) (parse_chars r))"

definition json_number_char :: "char \<Rightarrow> bool" where
  "json_number_char c \<longleftrightarrow> is_digit c \<or> c \<in> set ''+-.eE''"

definition json_exponent :: "string \<Rightarrow> bool" where
  "json_exponent s = (case s of
     [] \<Rightarrow> True
   | c # r \<Rightarrow> (c = CHR ''e'' \<or> c = CHR ''E'') \<and>
       (let d = (case r of x # r' \<Rightarrow> if x = CHR ''-'' \<or> x = CHR ''+'' then r' else r | [] \<Rightarrow> r)
        in d \<noteq> [] \<and> list_all is_digit d))"

definition json_number_text :: "string \<Rightarrow> bool" where
  "json_number_text s =
     (let u = (case s of c # r \<Rightarrow> if c = CHR ''-'' then r else s | [] \<Rightarrow> s);
          i = takeWhile is_digit u; r = dropWhile is_digit u
      in i \<noteq> [] \<and> (hd i = CHR ''0'' \<longrightarrow> tl i = []) \<and>
         (case r of
            c # r' \<Rightarrow> if c = CHR ''.'' then takeWhile is_digit r' \<noteq> [] \<and> json_exponent (dropWhile is_digit r')
                      else json_exponent r
          | [] \<Rightarrow> True))"

definition strip_prefix :: "string \<Rightarrow> string \<Rightarrow> string option" where
  "strip_prefix p s = (if take (length p) s = p then Some (drop (length p) s) else None)"

definition small_e :: "char \<Rightarrow> char" where
  "small_e c = (if c = CHR ''E'' then CHR ''e'' else c)"

text \<open>\<^verbatim>\<open>true\<close>, \<^verbatim>\<open>false\<close>, \<^verbatim>\<open>null\<close> and numbers.\<close>

definition parse_scalar :: "string \<Rightarrow> (jval \<times> string) option" where
  "parse_scalar s =
     (case strip_prefix ''true'' s of
        Some r \<Rightarrow> Some (JBool True, r)
      | None \<Rightarrow> (case strip_prefix ''false'' s of
          Some r \<Rightarrow> Some (JBool False, r)
        | None \<Rightarrow> (case strip_prefix ''null'' s of
            Some r \<Rightarrow> Some (JNull, r)
          | None \<Rightarrow>
              (let t = takeWhile json_number_char s in
               if json_number_text t then Some (JNum (map small_e t), dropWhile json_number_char s) else None))))"

text \<open>A repeated key keeps its place and takes the later value.\<close>

fun parse_value :: "nat \<Rightarrow> string \<Rightarrow> (jval \<times> string) option"
  and parse_elems :: "nat \<Rightarrow> jval list \<Rightarrow> string \<Rightarrow> (jval \<times> string) option"
  and parse_members :: "nat \<Rightarrow> (string \<times> jval) list \<Rightarrow> string \<Rightarrow> (jval \<times> string) option" where
  "parse_value 0 s = None"
| "parse_value (Suc n) s =
     (case dropWhile json_ws s of
        [] \<Rightarrow> None
      | c # r \<Rightarrow>
          if c = CHR ''['' then
            (case dropWhile json_ws r of
               d # r' \<Rightarrow> if d = CHR '']'' then Some (JArr [], r') else parse_elems n [] r
             | [] \<Rightarrow> None)
          else if c = CHR ''{'' then
            (case dropWhile json_ws r of
               d # r' \<Rightarrow> if d = CHR ''}'' then Some (JObj [], r') else parse_members n [] r
             | [] \<Rightarrow> None)
          else if c = CHR 0x22 then map_option (\<lambda>(t, r'). (JStr t, r')) (parse_chars r)
          else parse_scalar (c # r))"
| "parse_elems 0 vs s = None"
| "parse_elems (Suc n) vs s =
     (case parse_value n s of
        None \<Rightarrow> None
      | Some (v, r) \<Rightarrow>
          (case dropWhile json_ws r of
             d # r' \<Rightarrow>
               if d = CHR '']'' then Some (JArr (vs @ [v]), r')
               else if d = CHR '','' then parse_elems n (vs @ [v]) r' else None
           | [] \<Rightarrow> None))"
| "parse_members 0 kvs s = None"
| "parse_members (Suc n) kvs s =
     (case dropWhile json_ws s of
        q # r \<Rightarrow>
          if q \<noteq> CHR 0x22 then None
          else (case parse_chars r of
             None \<Rightarrow> None
           | Some (k, r1) \<Rightarrow>
               (case dropWhile json_ws r1 of
                  d # r2 \<Rightarrow>
                    if d \<noteq> CHR '':'' then None
                    else (case parse_value n r2 of
                       None \<Rightarrow> None
                     | Some (v, r3) \<Rightarrow>
                         (case dropWhile json_ws r3 of
                            e # r4 \<Rightarrow>
                              if e = CHR ''}'' then Some (JObj (AList.update k v kvs), r4)
                              else if e = CHR '','' then parse_members n (AList.update k v kvs) r4 else None
                          | [] \<Rightarrow> None))
                | [] \<Rightarrow> None))
      | [] \<Rightarrow> None)"

text \<open>\<^const>\<open>None\<close>: it throws.\<close>

definition json_parse :: "string \<Rightarrow> jval option" where
  "json_parse s = (case parse_value (Suc (length s)) s of
     Some (v, r) \<Rightarrow> if list_all json_ws r then Some v else None
   | None \<Rightarrow> None)"

section \<open>Parsing what was printed\<close>

lemma hex_code_digit: "n < 16 \<Longrightarrow> hex_code (hex_digit n) = Some n"
  by (auto simp: hex_code_def hex_digit_def Let_def)

lemma char_eq_iff_code: "c = d \<longleftrightarrow> of_char c = (of_char d :: nat)"
  by (simp add: of_char_eq_iff)

lemma char_of_quotes: "char_of (34 :: nat) = CHR 0x22" "char_of (92 :: nat) = CHR 0x5C"
  unfolding char_eq_iff_code by simp_all

lemma parse_chars_quote_char:
  "parse_chars (quote_char c @ t) = map_option (\<lambda>(s, r). (c # s, r)) (parse_chars t)"
proof -
  define n where "n = (of_char c :: nat)"
  have c: "c = char_of n" by (simp add: n_def)
  consider "n \<in> {34, 92, 8, 9, 10, 12, 13}" | "n < 32" "n \<notin> {8, 9, 10, 12, 13}" | "n \<ge> 32" "n \<noteq> 34" "n \<noteq> 92" by force
  then show ?thesis
  proof cases
    case 1
    then show ?thesis by (elim insertE emptyE) (simp_all add: c quote_char_def simple_escape_def char_of_quotes Let_def)
  next
    case 2
    have "hex_code (CHR ''0'') = Some 0" by (simp add: hex_code_def)
    with 2 have "code_unit (CHR ''0'') (CHR ''0'') (hex_digit (n div 16)) (hex_digit (n mod 16)) = Some c"
      by (simp add: code_unit_def hex_code_digit c)
    with 2 show ?thesis by (simp add: quote_char_def n_def [symmetric])
  next
    case 3
    then show ?thesis by (simp add: quote_char_def n_def [symmetric] char_eq_iff_code)
  qed
qed

lemma parse_chars_quote: "parse_chars (concat (map quote_char s) @ CHR 0x22 # r) = Some (s, r)"
  by (induction s) (simp_all add: parse_chars_quote_char del: parse_chars.simps(2), simp)

text \<open>A value \<^verbatim>\<open>JSON.parse\<close> can return whose numbers print as they are written.\<close>

fun json_valid :: "jval \<Rightarrow> bool" where
  "json_valid JUndefined = False"
| "json_valid (JNum t) = (json_number_text t \<and> list_all is_num_char t)"
| "json_valid (JArr vs) = list_all json_valid vs"
| "json_valid (JObj kvs) = (distinct (map fst kvs) \<and> list_all (\<lambda>(k, v). json_valid v) kvs)"
| "json_valid v = True"

lemma json_valid_ok: "json_valid v \<Longrightarrow> json_ok v"
  by (induction v rule: json_valid.induct) (auto simp: list_all_iff json_number_text_def)

lemma not_ws: "c \<in> set ''\",]}[{:ntf-0123456789'' \<Longrightarrow> \<not> json_ws c"
  by (auto simp: json_ws_def)

lemma drop_ws_delim: "delim r \<Longrightarrow> dropWhile json_ws r = r"
  by (cases r) (auto simp: json_ws_def)

lemma num_char_ws: "is_num_char c \<Longrightarrow> \<not> json_ws c \<and> json_number_char c"
  by (auto simp: json_ws_def is_num_char_def is_digit_def json_number_char_def)

lemma drop_ws_render:
  assumes "json_ok v"
  shows "dropWhile json_ws (render v @ r) = render v @ r"
proof (cases v)
  case (JNum t)
  with assms show ?thesis by (cases t) (auto dest: num_char_ws)
qed (use assms in \<open>auto simp: json_quote_def json_ws_def\<close>)

lemma take_number:
  assumes "list_all is_num_char t" and "delim r"
  shows "takeWhile json_number_char (t @ r) = t" "dropWhile json_number_char (t @ r) = r"
proof -
  have t: "list_all json_number_char t" using assms(1) num_char_ws by (auto simp: list_all_iff)
  have r: "takeWhile json_number_char r = []" "dropWhile json_number_char r = r"
    using assms(2) by (cases r; auto simp: json_number_char_def is_digit_def)+
  show "takeWhile json_number_char (t @ r) = t" "dropWhile json_number_char (t @ r) = r"
    using t r by (simp_all add: list_all_iff)
qed

lemma parse_scalar_render:
  assumes "json_valid v" and "delim r" and "\<forall>s. v \<noteq> JStr s" and "\<forall>vs. v \<noteq> JArr vs" and "\<forall>kvs. v \<noteq> JObj kvs"
  shows "parse_scalar (render v @ r) = Some (v, r)"
proof (cases v)
  case (JNum t)
  with assms have t: "json_number_text t" "list_all is_num_char t" by simp_all
  then obtain c t' where c: "t = c # t'" "is_num_char c" by (cases t) (auto simp: json_number_text_def)
  then have "c \<noteq> CHR ''t''" "c \<noteq> CHR ''f''" "c \<noteq> CHR ''n''" by (auto simp: is_num_char_def is_digit_def)
  moreover have "map small_e t = t"
    using t(2) by (intro map_idI) (auto simp: list_all_iff small_e_def is_num_char_def is_digit_def)
  ultimately show ?thesis using JNum t c take_number [OF t(2) assms(2)]
    by (simp add: parse_scalar_def strip_prefix_def)
qed (use assms in \<open>auto simp: parse_scalar_def strip_prefix_def\<close>)

lemma scalar_start:
  assumes "json_valid v" and "\<forall>s. v \<noteq> JStr s" and "\<forall>vs. v \<noteq> JArr vs" and "\<forall>kvs. v \<noteq> JObj kvs"
  obtains c t where "render v = c # t" "c \<notin> set ''\"[{''"
proof (cases v)
  case (JNum t)
  with assms(1) show ?thesis using that num_hd [of t] by (cases t) (auto simp: json_number_text_def)
next
  case (JBool b)
  show ?thesis by (rule that [of "hd (render v)" "tl (render v)"]) (simp_all add: JBool)
qed (use assms that in auto)

lemma parse_elems_render:
  assumes "\<And>v r n. v \<in> set vs \<Longrightarrow> delim r \<Longrightarrow> length (render v) \<le> n \<Longrightarrow> parse_value n (render v @ r) = Some (v, r)"
    and "vs \<noteq> []" and "length (js_join '','' (map render vs)) < n"
  shows "parse_elems n acc (js_join '','' (map render vs) @ CHR '']'' # r) = Some (JArr (acc @ vs), r)"
  using assms
proof (induction vs arbitrary: n acc)
  case (Cons v vs)
  obtain m where n: "n = Suc m" using Cons.prems(3) by (cases n) auto
  have len: "length (render v) \<le> m" using Cons.prems(3) n by (cases vs) simp_all
  let ?t = "join_tail (CHR '']'') (map render vs) r"
  have d: "delim ?t" by (rule join_tail_delim) simp
  have pv: "parse_value m (render v @ ?t) = Some (v, ?t)"
    using Cons.prems(1) [OF _ d len] by simp
  show ?case
  proof (cases "vs = []")
    case True
    with pv show ?thesis by (simp add: n join_tail_def json_ws_def)
  next
    case False
    then have "length (js_join '','' (map render vs)) < m" using Cons.prems(3) n by (cases vs) simp_all
    with Cons.IH [OF Cons.prems(1) False, of m "acc @ [v]"] False pv show ?thesis
      by (simp add: n js_join_tail) (simp add: join_tail_def json_ws_def)
  qed
qed simp

definition entry_text :: "string \<times> jval \<Rightarrow> string" where
  "entry_text e = (case e of (k, v) \<Rightarrow> json_quote k @ '':'' @ render v)"

lemma update_new: "k \<notin> fst ` set m \<Longrightarrow> AList.update k v m = m @ [(k, v)]"
  by (induction m) auto

lemma parse_members_render:
  assumes "\<And>v r n. v \<in> snd ` set kvs \<Longrightarrow> delim r \<Longrightarrow> length (render v) \<le> n \<Longrightarrow> parse_value n (render v @ r) = Some (v, r)"
    and "kvs \<noteq> []" and "distinct (map fst (acc @ kvs))" and "length (js_join '','' (map entry_text kvs)) < n"
  shows "parse_members n acc (js_join '','' (map entry_text kvs) @ CHR ''}'' # r) = Some (JObj (acc @ kvs), r)"
  using assms
proof (induction kvs arbitrary: n acc)
  case (Cons e kvs)
  obtain k v where e: "e = (k, v)" by (cases e)
  obtain m where n: "n = Suc m" using Cons.prems(4) by (cases n) auto
  have len: "length (render v) \<le> m" using Cons.prems(4) n by (cases kvs) (simp_all add: entry_text_def e)
  define t where t: "t = join_tail (CHR ''}'') (map entry_text kvs) r"
  have d: "delim t" unfolding t by (rule join_tail_delim) simp
  have pv: "parse_value m (render v @ t) = Some (v, t)"
    by (rule Cons.prems(1) [OF _ d len]) (simp add: e)
  have u: "AList.update k v acc = acc @ [(k, v)]" using Cons.prems(3) by (intro update_new) (auto simp: e)
  have q: "entry_text e @ t = CHR 0x22 # concat (map quote_char k) @ CHR 0x22 # CHR '':'' # render v @ t"
    by (simp add: entry_text_def e json_quote_def)
  have step: "parse_members n acc (entry_text e @ t) = (case t of
       e # r4 \<Rightarrow> if e = CHR ''}'' then Some (JObj (acc @ [(k, v)]), r4)
         else if e = CHR '','' then parse_members m (acc @ [(k, v)]) r4 else None | [] \<Rightarrow> None)"
    by (simp add: n q parse_chars_quote pv u json_ws_def drop_ws_delim [OF d] split: list.split)
  show ?case
  proof (cases "kvs = []")
    case True
    then have t': "t = CHR ''}'' # r" by (simp add: t join_tail_def)
    show ?thesis using step [unfolded t'] True by (simp add: e)
  next
    case False
    then have l: "length (js_join '','' (map entry_text kvs)) < m" using Cons.prems(4) n by (cases kvs) simp_all
    have dd: "distinct (map fst ((acc @ [(k, v)]) @ kvs))" using Cons.prems(3) by (simp add: e)
    from Cons.IH [OF Cons.prems(1) False dd l] False step show ?thesis
      by (simp add: js_join_tail e t [symmetric]) (simp add: join_tail_def t)
  qed
qed simp

lemma parse_value_scalar:
  assumes "json_valid v" and "delim r" and "length (render v) \<le> n"
    and "\<forall>s. v \<noteq> JStr s" and "\<forall>vs. v \<noteq> JArr vs" and "\<forall>kvs. v \<noteq> JObj kvs"
  shows "parse_value n (render v @ r) = Some (v, r)"
proof -
  from scalar_start [OF assms(1,4-6)] obtain c t where c: "render v = c # t" "c \<notin> set ''\"[{''" .
  then obtain m where n: "n = Suc m" using assms(3) by (cases n) auto
  have "dropWhile json_ws (c # t @ r) = c # t @ r"
    using drop_ws_render [OF json_valid_ok [OF assms(1)], of r] by (simp add: c)
  moreover have "parse_scalar (c # t @ r) = Some (v, r)"
    using parse_scalar_render [OF assms(1,2,4-6)] by (simp add: c)
  ultimately show ?thesis using c(2) by (simp add: n c(1))
qed

lemma parse_value_render:
  "json_valid v \<Longrightarrow> delim r \<Longrightarrow> length (render v) \<le> n \<Longrightarrow> parse_value n (render v @ r) = Some (v, r)"
proof (induction v arbitrary: r n)
  case (JStr s)
  then obtain m where "n = Suc m" by (cases n) (auto simp: json_quote_def)
  then show ?case by (simp add: json_quote_def parse_chars_quote json_ws_def)
next
  case (JArr vs)
  then obtain m where n: "n = Suc m" by (cases n) auto
  show ?case
  proof (cases "vs = []")
    case True
    then show ?thesis by (simp add: n json_ws_def)
  next
    case False
    have ih: "parse_value n (render v @ r) = Some (v, r)" if "v \<in> set vs" "delim r" "length (render v) \<le> n" for v r n
      using JArr.IH [OF that(1) _ that(2,3)] JArr.prems(1) that(1) by (simp add: list_all_iff)
    have len: "length (js_join '','' (map render vs)) < m" using JArr.prems(3) n by simp
    obtain v vs' where vs: "vs = v # vs'" using False by (cases vs) auto
    have v: "json_ok v" using JArr.prems(1) by (simp add: vs json_valid_ok)
    from render_hd [OF v] v obtain c t where c: "render v = c # t" "c \<noteq> CHR '']''"
      by (cases "render v"; cases v) (auto split: if_splits)
    define tx where "tx = js_join '','' (map render vs) @ CHR '']'' # r"
    have "dropWhile json_ws tx = tx"
      by (simp add: tx_def vs js_join_tail drop_ws_render [OF v] del: append.simps)
    moreover obtain u where "tx = c # u" by (simp add: tx_def vs js_join_tail c)
    moreover have "parse_elems m [] tx = Some (JArr vs, r)"
      using parse_elems_render [OF ih False len, of "[]" r] by (simp add: tx_def)
    moreover have "render (JArr vs) @ r = CHR ''['' # tx" by (simp add: tx_def)
    ultimately show ?thesis using c(2) by (simp add: n json_ws_def [of "CHR ''[''"] del: render.simps)
  qed
next
  case (JObj kvs)
  then obtain m where n: "n = Suc m" by (cases n) auto
  have et: "map (\<lambda>(k, v). json_quote k @ '':'' @ render v) kvs = map entry_text kvs"
    by (simp add: entry_text_def)
  have rt: "render (JObj kvs) = CHR ''{'' # js_join '','' (map entry_text kvs) @ ''}''"
    by (simp only: render.simps et) simp
  show ?case
  proof (cases "kvs = []")
    case True
    then show ?thesis by (simp add: n json_ws_def)
  next
    case False
    have ih: "parse_value n (render v @ r) = Some (v, r)" if "v \<in> snd ` set kvs" "delim r" "length (render v) \<le> n" for v r n
      using JObj.IH [OF _ _ _ that(2,3)] JObj.prems(1) that(1) by (fastforce simp: list_all_iff)
    have len: "length (js_join '','' (map entry_text kvs)) < m" using JObj.prems(3) n unfolding rt by simp
    have dd: "distinct (map fst ([] @ kvs))" using JObj.prems(1) by simp
    obtain e kvs' where kvs: "kvs = e # kvs'" using False by (cases kvs) auto
    define tx where "tx = js_join '','' (map entry_text kvs) @ CHR ''}'' # r"
    have "parse_members m [] tx = Some (JObj kvs, r)"
      using parse_members_render [OF ih False dd len, where r = r] by (simp add: tx_def)
    moreover obtain u where "tx = CHR 0x22 # u"
      by (cases e) (simp add: tx_def kvs js_join_tail entry_text_def json_quote_def)
    moreover have "render (JObj kvs) @ r = CHR ''{'' # tx" unfolding rt by (simp add: tx_def)
    ultimately show ?thesis
      by (simp add: n json_ws_def [of "CHR ''{''"] json_ws_def [of "CHR 0x22"] del: render.simps)
  qed
next
  case JUndefined
  then show ?case by simp
qed (rule parse_value_scalar; simp)+

lemma json_stringify_render: "json_ok v \<Longrightarrow> json_stringify v = Some (render v)"
proof (induction v rule: json_stringify.induct)
  case (1 vs)
  then have eq: "map (\<lambda>v. case json_stringify v of None \<Rightarrow> ''null'' | Some t \<Rightarrow> t) vs = map render vs"
    by (auto simp: list_all_iff)
  show ?case by (simp only: json_stringify.simps render.simps eq)
next
  case (2 kvs)
  then have "json_stringify v = Some (render v)" if "(k, v) \<in> set kvs" for k v
    using that by (fastforce simp: list_all_iff)
  then have eq: "map (\<lambda>(k, v). (k, json_stringify v)) kvs = map (\<lambda>(k, v). (k, Some (render v))) kvs" by auto
  have "List.map_filter (\<lambda>(k, t). map_option (\<lambda>t. json_quote k @ '':'' @ t) t)
      (map (\<lambda>(k, v). (k, Some (render v))) kvs) = map (\<lambda>(k, v). json_quote k @ '':'' @ render v) kvs"
    by (induction kvs) (auto simp: List.map_filter_def)
  then show ?case by (simp only: json_stringify.simps render.simps eq)
qed auto

text \<open>\<^verbatim>\<open>JSON.parse(JSON.stringify(v))\<close> is \<open>v\<close>.\<close>

lemma json_parse_stringify:
  assumes "json_valid v"
  shows "map_option json_parse (json_stringify v) = Some (Some v)"
proof -
  have "parse_value (Suc (length (render v))) (render v) = Some (v, [])"
    using parse_value_render [OF assms, of "[]" "Suc (length (render v))"] by (simp del: parse_value.simps)
  then show ?thesis using json_stringify_render [OF json_valid_ok [OF assms]] by (simp add: json_parse_def del: parse_value.simps)
qed

section \<open>What is parsed is valid\<close>

lemma small_e_digit: "is_digit (small_e c) = is_digit c"
  by (simp add: small_e_def is_digit_def)

lemma small_e_fix: "c = small_e c" if "c \<noteq> CHR ''E''"
  using that by (simp add: small_e_def)

lemma small_e_eq: "small_e c = d \<longleftrightarrow> c = d" if "d \<noteq> CHR ''e''" "d \<noteq> CHR ''E''"
  using that by (auto simp: small_e_def)

lemma take_digits_small: "takeWhile is_digit (map small_e s) = map small_e (takeWhile is_digit s)"
  "dropWhile is_digit (map small_e s) = map small_e (dropWhile is_digit s)"
  by (simp_all add: takeWhile_map dropWhile_map comp_def small_e_digit)

lemma digits_small: "list_all is_digit (map small_e d) = list_all is_digit d"
  by (simp add: list.pred_map comp_def small_e_digit)

lemma exponent_small: "json_exponent (map small_e s) = json_exponent s"
proof (cases s)
  case (Cons c r)
  have "small_e c = CHR ''e'' \<or> small_e c = CHR ''E'' \<longleftrightarrow> c = CHR ''e'' \<or> c = CHR ''E''"
    by (simp add: small_e_def)
  then show ?thesis by (cases r) (simp_all add: Cons json_exponent_def small_e_eq small_e_digit digits_small)
qed (simp add: json_exponent_def)

lemma number_small: "json_number_text (map small_e s) = json_number_text s"
proof -
  have u: "(case map small_e s of c # r \<Rightarrow> if c = CHR ''-'' then r else map small_e s | [] \<Rightarrow> map small_e s) =
      map small_e (case s of c # r \<Rightarrow> if c = CHR ''-'' then r else s | [] \<Rightarrow> s)"
    by (cases s) (simp_all add: small_e_eq)
  have h: "i \<noteq> [] \<Longrightarrow> hd (map small_e i) = CHR ''0'' \<longleftrightarrow> hd i = CHR ''0''" for i
    by (cases i) (simp_all add: small_e_eq)
  have d: "(case map small_e r of c # r' \<Rightarrow> if c = CHR ''.'' then takeWhile is_digit r' \<noteq> [] \<and> json_exponent (dropWhile is_digit r')
        else json_exponent (map small_e r) | [] \<Rightarrow> True) =
      (case r of c # r' \<Rightarrow> if c = CHR ''.'' then takeWhile is_digit r' \<noteq> [] \<and> json_exponent (dropWhile is_digit r')
        else json_exponent r | [] \<Rightarrow> True)" for r
    using exponent_small [of r] by (cases r) (simp_all add: small_e_eq take_digits_small exponent_small)
  show ?thesis unfolding json_number_text_def Let_def u take_digits_small d using h by (auto simp: map_tl [symmetric])
qed

lemma parse_scalar_valid:
  assumes "parse_scalar s = Some (v, r)"
  shows "json_valid v"
proof -
  let ?t = "takeWhile json_number_char s"
  have "list_all is_num_char (map small_e ?t)"
    by (auto simp: list_all_iff small_e_def json_number_char_def is_num_char_def is_digit_def dest!: set_takeWhileD)
  then show ?thesis using assms number_small [of ?t] by (auto simp: parse_scalar_def split: option.splits if_splits)
qed

lemma valid_update:
  assumes "json_valid (JObj kvs)" and "json_valid v"
  shows "json_valid (JObj (AList.update k v kvs))"
proof -
  have "set (AList.update k v kvs) \<subseteq> insert (k, v) (set kvs)" by (induction kvs) auto
  then show ?thesis using assms distinct_update [of kvs k v] by (auto simp: list_all_iff)
qed

lemma drop_cons: "dropWhile P xs = y # ys \<Longrightarrow> y \<in> set xs \<and> \<not> P y"
  by (metis hd_dropWhile list.distinct(1) list.sel(1) list.set_intros(1) set_dropWhileD)

lemma parse_valid:
  "parse_value n s = Some (v, r) \<Longrightarrow> json_valid v"
  "list_all json_valid vs \<Longrightarrow> parse_elems n vs s = Some (v, r) \<Longrightarrow> json_valid v"
  "json_valid (JObj kvs) \<Longrightarrow> parse_members n kvs s = Some (v, r) \<Longrightarrow> json_valid v"
proof (induction n s and n vs s and n kvs s arbitrary: v r and v r and v r
    rule: parse_value_parse_elems_parse_members.induct)
  case (2 n s)
  obtain c t where c: "dropWhile json_ws s = c # t" using "2.prems" by (cases "dropWhile json_ws s") auto
  consider "c = CHR ''[''" | "c = CHR ''{''" | "c \<noteq> CHR ''[''" "c \<noteq> CHR ''{''" by blast
  then show ?case
  proof cases
    case 1
    obtain d u where d: "dropWhile json_ws t = d # u" using "2.prems" c 1 by (cases "dropWhile json_ws t") auto
    show ?thesis using "2.prems" "2.IH"(1) [OF c 1 d] by (auto simp: c 1 d split: if_splits)
  next
    case 2
    obtain d u where d: "dropWhile json_ws t = d # u" using "2.prems" c 2 by (cases "dropWhile json_ws t") auto
    show ?thesis using "2.prems" "2.IH"(2) [OF c _ 2 d] by (auto simp: c 2 d split: if_splits)
  next
    case 3
    then show ?thesis using "2.prems" by (auto simp: c split: if_splits dest: parse_scalar_valid)
  qed
next
  case (4 n vs s)
  obtain w t where w: "parse_value n s = Some (w, t)" using "4.prems" by (cases "parse_value n s") auto
  obtain d u where d: "dropWhile json_ws t = d # u" using "4.prems" by (cases "dropWhile json_ws t") (auto simp: w)
  have v: "list_all json_valid (vs @ [w])" using "4.prems" "4.IH"(1) [OF w] by simp
  show ?case using "4.prems"(2) v "4.IH"(2) [OF w refl d] by (simp add: w d split: if_splits) auto
next
  case (6 n kvs s)
  obtain q t where q: "dropWhile json_ws s = q # t" "q = CHR 0x22"
    using "6.prems" by (cases "dropWhile json_ws s") (auto split: if_splits)
  obtain k t1 where k: "parse_chars t = Some (k, t1)"
    using "6.prems" q by (cases "parse_chars t") auto
  obtain d t2 where d: "dropWhile json_ws t1 = d # t2" "d = CHR '':''"
    using "6.prems" q k by (cases "dropWhile json_ws t1") (auto split: if_splits)
  obtain w t3 where w: "parse_value n t2 = Some (w, t3)"
    using "6.prems" q k d by (cases "parse_value n t2") auto
  obtain e t4 where e: "dropWhile json_ws t3 = e # t4"
    using "6.prems" q k d w by (cases "dropWhile json_ws t3") auto
  have v: "json_valid (JObj (AList.update k w kvs))"
    using "6.IH"(1) [OF q(1) _ k refl d(1) _ w] q(2) d(2) by (intro valid_update "6.prems"(1)) simp
  show ?case using "6.prems"(2) v "6.IH"(2) [OF q(1) _ k refl d(1) _ w refl e]
    by (simp add: q k d w e split: if_splits del: json_valid.simps(4))
qed simp_all

lemma json_parse_valid: "json_parse s = Some v \<Longrightarrow> json_valid v"
  by (auto simp: json_parse_def simp del: parse_value.simps split: option.splits if_splits dest: parse_valid(1))

end
