(* ===== verification/Utf8_Text.thy ===== *)
theory Utf8_Text
  imports Sdk_Prelude
begin

text \<open>
  \<^verbatim>\<open>TextEncoder\<close> and \<^verbatim>\<open>TextDecoder("utf-8", { fatal: false })\<close> (the Encoding Standard's UTF-8 decoder, with
  its byte-order mark rule), between the model's strings (code units below 256) and bytes.
  A code point the strings cannot hold is read as a question mark. The decoder is a state that
  survives between calls made with \<^verbatim>\<open>{ stream: true }\<close>.
\<close>

unbundle bit_operations_syntax

type_synonym byte = "8 word"

definition utf8_char :: "char \<Rightarrow> byte list" where
  "utf8_char c = (let n = of_char c :: nat in
     if n < 128 then [word_of_nat n] else [word_of_nat (192 + n div 64), word_of_nat (128 + n mod 64)])"

definition utf8_encode :: "string \<Rightarrow> byte list" where
  "utf8_encode s = concat (map utf8_char s)"

section \<open>The streaming decoder\<close>

record utf8_state =
  us_needed :: nat
  us_seen :: nat
  us_point :: nat
  us_lower :: nat
  us_upper :: nat
  us_bomSeen :: bool

definition utf8_start :: utf8_state where
  "utf8_start = \<lparr>us_needed = 0, us_seen = 0, us_point = 0, us_lower = 128, us_upper = 191, us_bomSeen = False\<rparr>"

definition utf8_idle :: "utf8_state \<Rightarrow> utf8_state" where
  "utf8_idle st = st\<lparr>us_needed := 0, us_seen := 0, us_point := 0, us_lower := 128, us_upper := 191\<rparr>"

text \<open>The first byte of a sequence: the code points it yields (65533 for a stray byte).\<close>

definition utf8_lead :: "utf8_state \<Rightarrow> nat \<Rightarrow> nat list \<times> utf8_state" where
  "utf8_lead st b =
     (if b < 128 then ([b], st)
      else if 194 \<le> b \<and> b \<le> 223 then ([], st\<lparr>us_needed := 1, us_point := b - 192\<rparr>)
      else if 224 \<le> b \<and> b \<le> 239 then
        ([], st\<lparr>us_needed := 2, us_point := b - 224, us_lower := if b = 224 then 160 else 128,
                us_upper := if b = 237 then 159 else 191\<rparr>)
      else if 240 \<le> b \<and> b \<le> 244 then
        ([], st\<lparr>us_needed := 3, us_point := b - 240, us_lower := if b = 240 then 144 else 128,
                us_upper := if b = 244 then 143 else 191\<rparr>)
      else ([65533], st))"

definition utf8_byte :: "utf8_state \<Rightarrow> nat \<Rightarrow> nat list \<times> utf8_state" where
  "utf8_byte st b =
     (if us_needed st = 0 then utf8_lead st b
      else if b < us_lower st \<or> us_upper st < b then
        (let (ps, st') = utf8_lead (utf8_idle st) b in (65533 # ps, st'))
      else (let p = us_point st * 64 + (b - 128) in
        if us_seen st + 1 = us_needed st then ([p], utf8_idle st)
        else ([], st\<lparr>us_point := p, us_seen := us_seen st + 1, us_lower := 128, us_upper := 191\<rparr>)))"

fun utf8_points :: "utf8_state \<Rightarrow> byte list \<Rightarrow> nat list \<times> utf8_state" where
  "utf8_points st [] = ([], st)"
| "utf8_points st (b # bs) =
     (let (ps, st') = utf8_byte st (unat b); (qs, st'') = utf8_points st' bs in (ps @ qs, st''))"

text \<open>The first code point of a stream is dropped when it is the byte order mark.\<close>

definition utf8_bom :: "nat list \<Rightarrow> utf8_state \<Rightarrow> nat list \<times> utf8_state" where
  "utf8_bom ps st =
     (case ps of [] \<Rightarrow> ([], st)
      | p # qs \<Rightarrow> (if \<not> us_bomSeen st \<and> p = 65279 then qs else ps, st\<lparr>us_bomSeen := True\<rparr>))"

definition point_char :: "nat \<Rightarrow> char" where
  "point_char p = (if p < 256 then char_of p else CHR ''?'')"

text \<open>\<^verbatim>\<open>decode(bytes, { stream: true })\<close>, \<^verbatim>\<open>decode()\<close> at the end, and \<^verbatim>\<open>new TextDecoder().decode(bytes)\<close>.\<close>

definition utf8_stream :: "utf8_state \<Rightarrow> byte list \<Rightarrow> string \<times> utf8_state" where
  "utf8_stream st bs =
     (let (ps, st1) = utf8_points st bs; (qs, st2) = utf8_bom ps st1 in (map point_char qs, st2))"

definition utf8_flush :: "utf8_state \<Rightarrow> string \<times> utf8_state" where
  "utf8_flush st = (if us_needed st \<noteq> 0 then [CHR ''?''] else [], utf8_start)"

definition utf8_decode :: "byte list \<Rightarrow> string" where
  "utf8_decode bs = (let (s, st) = utf8_stream utf8_start bs in s @ fst (utf8_flush st))"

section \<open>Laws\<close>

lemma utf8_byte_bom: "us_bomSeen (snd (utf8_byte st b)) = us_bomSeen st"
  by (simp add: utf8_byte_def utf8_lead_def utf8_idle_def Let_def)

lemma utf8_points_bom: "us_bomSeen (snd (utf8_points st bs)) = us_bomSeen st"
  by (induction bs arbitrary: st) (simp_all add: case_prod_unfold Let_def utf8_byte_bom)

lemma utf8_points_append:
  "utf8_points st (xs @ ys) =
     (let (ps, st') = utf8_points st xs; (qs, st'') = utf8_points st' ys in (ps @ qs, st''))"
  by (induction xs arbitrary: st) (simp_all add: case_prod_unfold Let_def)

lemma utf8_byte_set_bom:
  "utf8_byte (st\<lparr>us_bomSeen := b\<rparr>) n = (fst (utf8_byte st n), (snd (utf8_byte st n))\<lparr>us_bomSeen := b\<rparr>)"
  by (simp add: utf8_byte_def utf8_lead_def utf8_idle_def Let_def)

lemma utf8_points_set_bom:
  "utf8_points (st\<lparr>us_bomSeen := b\<rparr>) bs = (fst (utf8_points st bs), (snd (utf8_points st bs))\<lparr>us_bomSeen := b\<rparr>)"
  by (induction bs arbitrary: st) (simp_all add: case_prod_unfold Let_def utf8_byte_set_bom)

text \<open>Decoding in pieces is decoding the whole.\<close>

lemma utf8_stream_append:
  "utf8_stream st (xs @ ys) =
     (let (s, st') = utf8_stream st xs; (t, st'') = utf8_stream st' ys in (s @ t, st''))"
proof -
  obtain ps s1 where p: "utf8_points st xs = (ps, s1)" by (cases "utf8_points st xs")
  have b1: "us_bomSeen s1 = us_bomSeen st" using utf8_points_bom [of st xs] p by simp
  obtain qs s2 where q: "utf8_points s1 ys = (qs, s2)" by (cases "utf8_points s1 ys")
  have b2: "us_bomSeen s2 = us_bomSeen st" using utf8_points_bom [of s1 ys] q b1 by simp
  show ?thesis
    by (cases ps; cases qs) (simp_all add: utf8_stream_def utf8_points_append p q utf8_bom_def utf8_points_set_bom b1 b2)
qed

lemma utf8_char_points:
  assumes "us_needed st = 0" and "st = utf8_idle st"
  shows "utf8_points st (utf8_char c @ bs) =
    (let (ps, st') = utf8_points st bs in (of_char c # ps, st'))"
proof -
  define n where "n = (of_char c :: nat)"
  have n: "n < 256" by (simp add: n_def)
  show ?thesis
  proof (cases "n < 128")
    case True
    then show ?thesis using assms
      by (simp add: utf8_char_def n_def [symmetric] utf8_byte_def utf8_lead_def unat_of_nat)
  next
    case False
    have f: "us_seen st = 0" "us_lower st = 128" "us_upper st = 191"
      by (subst assms(2), simp add: utf8_idle_def)+
    have r: "n div 64 < 4" "2 \<le> n div 64" "n mod 64 < 64" "n div 64 * 64 + n mod 64 = n" using n False by simp_all
    have u: "unat (word_of_nat (192 + n div 64) :: byte) = 192 + n div 64"
      "unat (word_of_nat (128 + n mod 64) :: byte) = 128 + n mod 64"
      using r by (simp_all only: unat_of_nat) simp_all
    have m: "\<not> 63 < n mod 64" using r(3) by linarith
    have lead: "utf8_byte st (192 + n div 64) = ([], st\<lparr>us_needed := Suc 0, us_point := n div 64\<rparr>)"
      using r assms(1) by (simp add: utf8_byte_def utf8_lead_def)
    have idle: "utf8_idle (st\<lparr>us_needed := Suc 0, us_point := n div 64\<rparr>) = st"
      by (subst (2) assms(2)) (simp add: utf8_idle_def)
    have next_byte: "utf8_byte (st\<lparr>us_needed := Suc 0, us_point := n div 64\<rparr>) (128 + n mod 64) = ([n], st)"
      using r f m by (simp add: utf8_byte_def idle)
    have "utf8_char c = [word_of_nat (192 + n div 64), word_of_nat (128 + n mod 64)]"
      using False by (simp add: utf8_char_def n_def [symmetric])
    then show ?thesis
      by (simp only: append_Cons append_Nil utf8_points.simps u lead next_byte Let_def prod.case)
        (simp add: n_def case_prod_unfold)
  qed
qed

lemma utf8_points_encode:
  assumes "us_needed st = 0" and "st = utf8_idle st"
  shows "utf8_points st (utf8_encode s) = (map of_char s, st)"
  by (induction s) (simp_all add: utf8_encode_def utf8_char_points [OF assms])

lemma utf8_start_idle: "us_needed utf8_start = 0" "utf8_start = utf8_idle utf8_start"
  by (simp_all add: utf8_start_def utf8_idle_def)

text \<open>A text survives encoding and decoding; its characters are below the byte order mark.\<close>

lemma utf8_stream_encode:
  "utf8_stream utf8_start (utf8_encode s) = (s, if s = [] then utf8_start else utf8_start\<lparr>us_bomSeen := True\<rparr>)"
proof -
  have "map point_char (map of_char s) = s" by (induction s) (simp_all add: point_char_def)
  moreover have "utf8_bom (map of_char s) utf8_start = (map of_char s, if s = [] then utf8_start else utf8_start\<lparr>us_bomSeen := True\<rparr>)"
    by (cases s) (auto simp: utf8_bom_def dest!: arg_cong [where f = "\<lambda>n. n < (256::nat)"])
  ultimately show ?thesis
    by (simp add: utf8_stream_def utf8_points_encode [OF utf8_start_idle])
qed

lemma utf8_decode_encode: "utf8_decode (utf8_encode s) = s"
  by (simp add: utf8_decode_def utf8_stream_encode utf8_flush_def) (simp add: utf8_start_def)

lemma utf8_encode_append: "utf8_encode (s @ t) = utf8_encode s @ utf8_encode t"
  by (simp add: utf8_encode_def)

lemma utf8_encode_Nil_iff [simp]: "utf8_encode s = [] \<longleftrightarrow> s = []"
  by (cases s) (simp_all add: utf8_encode_def utf8_char_def Let_def)

end
