(* ===== verification/Sse_Parsers.thy ===== *)
theory Sse_Parsers
  imports Json_Parse Utf8_Text "HOL-Library.Monad_Syntax"
begin

text \<open>
  \<^verbatim>\<open>instrumentation/wire-parsers.ts\<close>, the text streams: cutting a server-sent event stream into frames
  (\<open>StreamParser\<close>), and the frame parsers of OpenAI, Anthropic, Cohere and Gemini. Reading a property of
  \<^verbatim>\<open>null\<close> throws out of \<^verbatim>\<open>parseFrame\<close>, and then out of \<^verbatim>\<open>feed\<close>: the result \<^const>\<open>None\<close>. A frame's bytes are the
  UTF-8 encoding of its text. Event indices are the exact value of the JSON number.
\<close>

section \<open>Wire events\<close>

datatype wire_event =
    We_Text string "byte list"
  | We_Start rat "string option" "string option" "byte list"
  | We_Args rat string "byte list"
  | We_End rat "byte list"
  | We_Finish "string option" "byte list"
  | We_Pass "byte list"

fun we_frame :: "wire_event \<Rightarrow> byte list" where
  "we_frame (We_Text t f) = f"
| "we_frame (We_Start i d n f) = f"
| "we_frame (We_Args i a f) = f"
| "we_frame (We_End i f) = f"
| "we_frame (We_Finish r f) = f"
| "we_frame (We_Pass f) = f"

section \<open>Frames\<close>

text \<open>\<^verbatim>\<open>\r?\n\r?\n\<close> at the start of a text: the length of the match.\<close>

definition newline_len :: "string \<Rightarrow> nat option" where
  "newline_len s = (case s of
     c # r \<Rightarrow> if c = CHR 0x0A then Some 1
       else if c = CHR 0x0D then (case r of d # _ \<Rightarrow> if d = CHR 0x0A then Some 2 else None | [] \<Rightarrow> None) else None
   | [] \<Rightarrow> None)"

definition delim_len :: "string \<Rightarrow> nat option" where
  "delim_len s = do { a \<leftarrow> newline_len s; b \<leftarrow> newline_len (drop a s); Some (a + b) }"

text \<open>The first frame with its delimiter, and the rest.\<close>

fun next_frame :: "string \<Rightarrow> (string \<times> string) option" where
  "next_frame s = (case delim_len s of
     Some n \<Rightarrow> Some (take n s, drop n s)
   | None \<Rightarrow> (case s of [] \<Rightarrow> None | c # r \<Rightarrow> map_option (\<lambda>(a, b). (c # a, b)) (next_frame r)))"

declare next_frame.simps [simp del]

lemma newline_len_bound: "newline_len s = Some n \<Longrightarrow> 0 < n \<and> n \<le> length s"
  by (auto simp: newline_len_def split: list.splits if_splits)

lemma delim_len_bound: "delim_len s = Some n \<Longrightarrow> 0 < n \<and> n \<le> length s"
  using newline_len_bound by (fastforce simp: delim_len_def bind_eq_Some_conv)

lemma next_frame_append: "next_frame s = Some (a, b) \<Longrightarrow> s = a @ b"
proof (induction s arbitrary: a rule: next_frame.induct)
  case (1 s)
  then show ?case
    by (subst (asm) (2) next_frame.simps) (auto split: option.splits list.splits)
qed

lemma next_frame_shorter: "next_frame s = Some (a, b) \<Longrightarrow> length b < length s"
proof (induction s arbitrary: a rule: next_frame.induct)
  case (1 s)
  then show ?case
    using delim_len_bound [of s] by (subst (asm) (2) next_frame.simps) (fastforce split: option.splits list.splits)
qed

text \<open>\<^verbatim>\<open>drain\<close>, for a parser with state \<^typ>\<open>'p\<close>: each frame is cut off the buffer, then parsed. When the
  parser throws, the frame is gone and so are the events collected so far.\<close>

type_synonym 'p frame_parser = "'p \<Rightarrow> string \<Rightarrow> (wire_event list \<times> 'p) option"

function sse_frames :: "'p frame_parser \<Rightarrow> 'p \<Rightarrow> string \<Rightarrow> (wire_event list \<times> 'p \<times> string) option" where
  "sse_frames pf p buf =
     (case next_frame buf of
        None \<Rightarrow> Some ([], p, buf)
      | Some (raw, rest) \<Rightarrow> do {
          (evs, p1) \<leftarrow> pf p raw;
          (more, p2, left) \<leftarrow> sse_frames pf p1 rest;
          Some (evs @ more, p2, left) })"
  by auto
termination by (relation "measure (\<lambda>(_, _, buf). length buf)") (auto dest: next_frame_shorter)

declare sse_frames.simps [simp del]

definition sse_drain :: "'p frame_parser \<Rightarrow> 'p \<Rightarrow> string \<Rightarrow> bool \<Rightarrow> (wire_event list \<times> 'p \<times> string) option" where
  "sse_drain pf p buf final = do {
     (evs, p1, left) \<leftarrow> sse_frames pf p buf;
     if final \<and> left \<noteq> [] then do { (more, p2) \<leftarrow> pf p1 left; Some (evs @ more, p2, []) }
     else Some (evs, p1, left) }"

text \<open>The decoder is one object of the module, shared by every parser in the process.\<close>

record 'p sse_parser =
  sp_buf :: string
  sp_state :: 'p

definition sse_feed :: "'p frame_parser \<Rightarrow> utf8_state \<Rightarrow> 'p sse_parser \<Rightarrow> byte list \<Rightarrow>
    (wire_event list \<times> 'p sse_parser) option \<times> utf8_state" where
  "sse_feed pf decoder s bytes =
     (let (chunk, decoder') = utf8_stream decoder bytes in
      (map_option (\<lambda>(evs, p, left). (evs, s\<lparr>sp_buf := left, sp_state := p\<rparr>))
         (sse_drain pf (sp_state s) (sp_buf s @ chunk) False), decoder'))"

definition sse_flush :: "'p frame_parser \<Rightarrow> utf8_state \<Rightarrow> 'p sse_parser \<Rightarrow>
    (wire_event list \<times> 'p sse_parser) option \<times> utf8_state" where
  "sse_flush pf decoder s =
     (let (chunk, decoder') = utf8_flush decoder in
      (map_option (\<lambda>(evs, p, left). (evs, s\<lparr>sp_buf := left, sp_state := p\<rparr>))
         (sse_drain pf (sp_state s) (sp_buf s @ chunk) True), decoder'))"

section \<open>The fields of a frame\<close>

fun split_lines :: "string \<Rightarrow> string list" where
  "split_lines [] = [[]]"
| "split_lines (c # r) =
     (if c = CHR 0x0A then [] # split_lines r
      else (case (c = CHR 0x0D, r) of
          (True, d # r') \<Rightarrow> if d = CHR 0x0A then [] # split_lines r'
             else (c # hd (split_lines r)) # tl (split_lines r)
        | _ \<Rightarrow> (c # hd (split_lines r)) # tl (split_lines r)))"

definition sse_data :: "string list \<Rightarrow> string option" where
  "sse_data ls = foldl (\<lambda>acc l. if js_startsWith l ''data:'' then
       (let v = js_trim (drop 5 l) in Some (case acc of None \<Rightarrow> v | Some d \<Rightarrow> d @ v)) else acc) None ls"

definition sse_event :: "string list \<Rightarrow> string option" where
  "sse_event ls = foldl (\<lambda>acc l. if js_startsWith l ''event:'' then Some (js_trim (drop 6 l)) else acc) None ls"

definition index_of :: "jval \<Rightarrow> rat" where
  "index_of v = (case j_number v of Some n \<Rightarrow> n | None \<Rightarrow> 0)"

definition pass :: "byte list \<Rightarrow> wire_event list" where
  "pass raw = [We_Pass raw]"

section \<open>OpenAI\<close>

text \<open>A chunk that parsed: only the first choice and its first tool call are looked at.\<close>

definition openai_chunk :: "jval \<Rightarrow> byte list \<Rightarrow> wire_event list option" where
  "openai_chunk json rawBytes = do {
     choices \<leftarrow> j_prop json ''choices'';
     case j_array choices of
       None \<Rightarrow> Some (pass rawBytes)
     | Some [] \<Rightarrow> Some (pass rawBytes)
     | Some (choice # _) \<Rightarrow> do {
         delta \<leftarrow> j_prop choice ''delta'';
         let rest = (case j_nonempty_string (j_field delta ''content'') of
             Some t \<Rightarrow> Some [We_Text t rawBytes]
           | None \<Rightarrow> (case j_nonempty_string (j_field choice ''finish_reason'') of
               Some r \<Rightarrow> Some [We_Finish (Some r) rawBytes]
             | None \<Rightarrow> Some (pass rawBytes)));
         case j_array (j_field delta ''tool_calls'') of
           Some (part # _) \<Rightarrow> do {
             index \<leftarrow> j_prop part ''index'';
             let idx = index_of index;
             let fn = j_field part ''function'';
             let name = j_nonempty_string (j_field fn ''name'');
             let tcId = j_nonempty_string (j_field part ''id'');
             if name \<noteq> None \<or> tcId \<noteq> None then Some [We_Start idx tcId name rawBytes]
             else (case j_string (j_field fn ''arguments'') of
                 Some args \<Rightarrow> Some [We_Args idx args rawBytes]
               | None \<Rightarrow> rest) }
         | _ \<Rightarrow> rest } }"

definition openai_parseFrame :: "unit frame_parser" where
  "openai_parseFrame u rawFrame =
     (let rawBytes = utf8_encode rawFrame in
      map_option (\<lambda>evs. (evs, u)) (case sse_data (split_lines rawFrame) of
        None \<Rightarrow> Some (pass rawBytes)
      | Some dataLine \<Rightarrow>
          if dataLine = ''[DONE]'' then Some [We_Finish None rawBytes]
          else (case json_parse dataLine of
            None \<Rightarrow> Some (pass rawBytes)
          | Some json \<Rightarrow> openai_chunk json rawBytes)))"

section \<open>Anthropic\<close>

text \<open>The parser's state is \<open>toolUseIndices\<close>, the open \<^verbatim>\<open>tool_use\<close> blocks.\<close>

definition mapAnthropicChunkObject :: "jval \<Rightarrow> byte list \<Rightarrow> rat list \<Rightarrow> string option \<Rightarrow>
    (wire_event list \<times> rat list) option" where
  "mapAnthropicChunkObject json rawBytes toolUseIndices explicitType = do {
     type \<leftarrow> (case explicitType of Some t \<Rightarrow> Some (JStr t) | None \<Rightarrow> j_prop json ''type'');
     let forward = Some (pass rawBytes, toolUseIndices);
     if type = JStr ''content_block_start'' then do {
       index \<leftarrow> j_prop json ''index'';
       let idx = index_of index;
       let block = j_field json ''content_block'';
       if j_field block ''type'' = JStr ''tool_use'' then
         Some ([We_Start idx (j_string (j_field block ''id'')) (j_string (j_field block ''name'')) rawBytes],
               List.insert idx toolUseIndices)
       else forward }
     else if type = JStr ''content_block_delta'' then do {
       index \<leftarrow> j_prop json ''index'';
       let idx = index_of index;
       let delta = j_field json ''delta'';
       case (j_field delta ''type'' = JStr ''input_json_delta'', j_string (j_field delta ''partial_json'')) of
         (True, Some part) \<Rightarrow> Some ([We_Args idx part rawBytes], toolUseIndices)
       | _ \<Rightarrow> (case (j_field delta ''type'' = JStr ''text_delta'', j_string (j_field delta ''text'')) of
             (True, Some text) \<Rightarrow> Some ([We_Text text rawBytes], toolUseIndices)
           | _ \<Rightarrow> forward) }
     else if type = JStr ''content_block_stop'' then do {
       index \<leftarrow> j_prop json ''index'';
       let idx = index_of index;
       if idx \<in> set toolUseIndices then Some ([We_End idx rawBytes], removeAll idx toolUseIndices) else forward }
     else if type = JStr ''message_stop'' then do {
       delta \<leftarrow> j_prop json ''delta'';
       Some ([We_Finish (j_nonempty_string (j_field delta ''stop_reason'')) rawBytes], toolUseIndices) }
     else if type = JStr ''message_delta'' then do { _ \<leftarrow> j_prop json ''delta''; forward }
     else forward }"

definition anthropic_parseFrame :: "rat list frame_parser" where
  "anthropic_parseFrame toolUseIndices rawFrame =
     (let rawBytes = utf8_encode rawFrame; ls = split_lines rawFrame; forward = Some (pass rawBytes, toolUseIndices) in
      case sse_data ls of
        None \<Rightarrow> forward
      | Some dataLine \<Rightarrow>
          if dataLine = [] then forward
          else (case json_parse dataLine of
              None \<Rightarrow> forward
            | Some json \<Rightarrow> mapAnthropicChunkObject json rawBytes toolUseIndices (sse_event ls)))"

section \<open>Cohere\<close>

definition first_or_self :: "jval \<Rightarrow> jval" where
  "first_or_self v = (case v of JArr (x # _) \<Rightarrow> x | JArr [] \<Rightarrow> JUndefined | _ \<Rightarrow> v)"

definition cohere_chunk :: "string \<Rightarrow> jval \<Rightarrow> byte list \<Rightarrow> wire_event list option" where
  "cohere_chunk evtName json rawBytes = do {
     index \<leftarrow> j_prop json ''index'';
     let idx = index_of index;
     let delta = j_field json ''delta'';
     let message = j_field delta ''message'';
     let tc = first_or_self (j_field message ''tool_calls'');
     let fn = j_field tc ''function'';
     let args = (case j_string (j_field fn ''arguments'') of Some a \<Rightarrow> a | None \<Rightarrow> []);
     if evtName = ''content-delta'' then
       (case j_nonempty_string (j_field (j_field message ''content'') ''text'') of
          Some t \<Rightarrow> Some [We_Text t rawBytes]
        | None \<Rightarrow> Some (pass rawBytes))
     else if evtName = ''tool-call-start'' then
       Some (We_Start idx (j_string (j_field tc ''id'')) (j_string (j_field fn ''name'')) rawBytes #
             (if args \<noteq> [] then [We_Args idx args []] else []))
     else if evtName = ''tool-call-delta'' then
       Some (if args \<noteq> [] then [We_Args idx args rawBytes] else pass rawBytes)
     else if evtName = ''tool-call-end'' then Some [We_End idx rawBytes]
     else if evtName = ''message-end'' then
       Some [We_Finish (j_nonempty_string (j_field delta ''finish_reason'')) rawBytes]
     else Some (pass rawBytes) }"

definition cohere_parseFrame :: "unit frame_parser" where
  "cohere_parseFrame u rawFrame =
     (let rawBytes = utf8_encode rawFrame; ls = split_lines rawFrame in
      map_option (\<lambda>evs. (evs, u)) (case (sse_event ls, sse_data ls) of
        (Some evtName, Some dataLine) \<Rightarrow>
          if evtName = [] \<or> dataLine = [] then Some (pass rawBytes)
          else (case json_parse dataLine of
            None \<Rightarrow> Some (pass rawBytes)
          | Some json \<Rightarrow> cohere_chunk evtName json rawBytes)
      | _ \<Rightarrow> Some (pass rawBytes)))"

section \<open>Gemini\<close>

text \<open>One part of a candidate: its events and the next tool index. Any value that is not \<^verbatim>\<open>null\<close> can be asked for \<^verbatim>\<open>name\<close>.\<close>

definition json_text :: "jval \<Rightarrow> string" where
  "json_text v = (case json_stringify v of Some t \<Rightarrow> t | None \<Rightarrow> ''undefined'')"

definition gemini_part :: "byte list \<Rightarrow> nat \<Rightarrow> jval \<Rightarrow> (wire_event list \<times> nat) option" where
  "gemini_part rawBytes nextToolIndex p = do {
     fc \<leftarrow> j_prop p ''functionCall'';
     case (j_truthy fc, j_string (j_field fc ''name'')) of
       (True, Some name) \<Rightarrow>
         (let myIdx = of_nat nextToolIndex; args = j_field fc ''args'';
              argsStr = (case args of JStr s \<Rightarrow> s | _ \<Rightarrow> json_text (j_default args (JObj [])))
          in Some ([We_Start myIdx None (Some name) rawBytes, We_Args myIdx argsStr [], We_End myIdx []],
                   Suc nextToolIndex))
     | _ \<Rightarrow> (case j_nonempty_string (j_field p ''text'') of
           Some t \<Rightarrow> Some ([We_Text t []], nextToolIndex)
         | None \<Rightarrow> Some ([], nextToolIndex)) }"

fun gemini_parts :: "byte list \<Rightarrow> nat \<Rightarrow> jval list \<Rightarrow> (wire_event list \<times> nat) option" where
  "gemini_parts rawBytes n [] = Some ([], n)"
| "gemini_parts rawBytes n (p # ps) = do {
     (evs, m) \<leftarrow> gemini_part rawBytes n p;
     (more, k) \<leftarrow> gemini_parts rawBytes m ps;
     Some (evs @ more, k) }"

definition gemini_chunk :: "nat \<Rightarrow> jval \<Rightarrow> byte list \<Rightarrow> (wire_event list \<times> nat) option" where
  "gemini_chunk nextToolIndex json rawBytes = do {
     candidates \<leftarrow> j_prop json ''candidates'';
     case j_array candidates of
       None \<Rightarrow> Some (pass rawBytes, nextToolIndex)
     | Some [] \<Rightarrow> Some (pass rawBytes, nextToolIndex)
     | Some (cand # _) \<Rightarrow> do {
         content \<leftarrow> j_prop cand ''content'';
         let finish = (case j_nonempty_string (j_field cand ''finishReason'') of
             Some r \<Rightarrow> [We_Finish (Some r) []] | None \<Rightarrow> []);
         (out, n) \<leftarrow> (case j_array (j_field content ''parts'') of
             Some ps \<Rightarrow> gemini_parts rawBytes nextToolIndex ps | None \<Rightarrow> Some ([], nextToolIndex));
         let out' = (if out = [] then pass rawBytes
                     else if list_all (\<lambda>e. we_frame e = []) out then We_Pass rawBytes # out else out);
         Some (out' @ finish, n) } }"

definition gemini_parseFrame :: "nat frame_parser" where
  "gemini_parseFrame nextToolIndex rawFrame =
     (let rawBytes = utf8_encode rawFrame; forward = Some (pass rawBytes, nextToolIndex) in
      case sse_data (split_lines rawFrame) of
        None \<Rightarrow> forward
      | Some dataLine \<Rightarrow>
          if dataLine = [] then forward
          else (case json_parse dataLine of
            None \<Rightarrow> forward
          | Some json \<Rightarrow> gemini_chunk nextToolIndex json rawBytes))"

section \<open>Printed frames\<close>

definition encodeOpenAIDataFrame :: "jval \<Rightarrow> byte list" where
  "encodeOpenAIDataFrame payload = utf8_encode (''data: '' @ json_text payload @ [CHR 0x0A, CHR 0x0A])"

definition encodeAnthropicEventFrame :: "string \<Rightarrow> jval \<Rightarrow> byte list" where
  "encodeAnthropicEventFrame name payload =
     utf8_encode (''event: '' @ name @ [CHR 0x0A] @ ''data: '' @ json_text payload @ [CHR 0x0A, CHR 0x0A])"

definition encodeCohereEventFrame :: "string \<Rightarrow> jval \<Rightarrow> byte list" where
  "encodeCohereEventFrame name payload =
     utf8_encode (''event: '' @ name @ [CHR 0x0A] @ ''data: '' @ json_text payload @ [CHR 0x0A, CHR 0x0A])"

definition encodeGeminiDataFrame :: "jval \<Rightarrow> byte list" where
  "encodeGeminiDataFrame payload = utf8_encode (''data: '' @ json_text payload @ [CHR 0x0A, CHR 0x0A])"

definition OPENAI_DONE_FRAME :: "byte list" where
  "OPENAI_DONE_FRAME = utf8_encode (''data: [DONE]'' @ [CHR 0x0A, CHR 0x0A])"

end
