(* ===== verification/Event_Stream.thy ===== *)
theory Event_Stream
  imports Sse_Parsers
begin

text \<open>
  \<^verbatim>\<open>instrumentation/wire-parsers.ts\<close>, the binary event streams of AWS Bedrock: CRC-32, the framing decoder and
  encoder, the two message mappings. A \<^verbatim>\<open>Uint8Array\<close> is a list of bytes; reading outside a \<^verbatim>\<open>DataView\<close>
  throws, slicing outside an array clips. A decoding position is the list of bytes from there on.
\<close>

section \<open>CRC-32\<close>

definition crc32_bit :: "32 word \<Rightarrow> 32 word" where
  "crc32_bit c = (if c AND 1 \<noteq> 0 then 0xedb88320 XOR drop_bit 1 c else drop_bit 1 c)"

definition CRC32_TABLE :: "32 word list" where
  "CRC32_TABLE = map (\<lambda>n. (crc32_bit ^^ 8) (word_of_nat n)) [0..<256]"

definition crc32 :: "byte list \<Rightarrow> 32 word" where
  "crc32 bytes =
     foldl (\<lambda>crc b. (CRC32_TABLE ! unat ((crc XOR ucast b) AND 0xff)) XOR drop_bit 8 crc) 0xffffffff bytes XOR 0xffffffff"

section \<open>Integers in a buffer\<close>

definition put_u16 :: "nat \<Rightarrow> byte list" where
  "put_u16 n = [word_of_nat (n div 256), word_of_nat n]"

definition put_u32 :: "nat \<Rightarrow> byte list" where
  "put_u32 n = [word_of_nat (n div 16777216), word_of_nat (n div 65536), word_of_nat (n div 256), word_of_nat n]"

definition get_u8 :: "byte list \<Rightarrow> nat \<Rightarrow> nat option" where
  "get_u8 view p = (if p < length view then Some (unat (view ! p)) else None)"

definition get_u16 :: "byte list \<Rightarrow> nat \<Rightarrow> nat option" where
  "get_u16 view p = do { a \<leftarrow> get_u8 view p; b \<leftarrow> get_u8 view (p + 1); Some (a * 256 + b) }"

definition get_u32 :: "byte list \<Rightarrow> nat \<Rightarrow> nat option" where
  "get_u32 view p = do { a \<leftarrow> get_u16 view p; b \<leftarrow> get_u16 view (p + 2); Some (a * 65536 + b) }"

definition subarray :: "byte list \<Rightarrow> nat \<Rightarrow> nat \<Rightarrow> byte list" where
  "subarray bs a b = drop a (take b bs)"

section \<open>The decoder\<close>

record es_message =
  em_headers :: "(string, string) jsmap"
  em_payload :: "byte list"
  em_rawBytes :: "byte list"

datatype es_decoded = Es_Need_More | Es_Corrupt | Es_Message es_message "byte list"

text \<open>The header loop; the view reaches to the end of the buffer, past the message.\<close>

function es_headers :: "byte list \<Rightarrow> byte list \<Rightarrow> nat \<Rightarrow> nat \<Rightarrow> (string, string) jsmap \<Rightarrow>
    (string, string) jsmap option" where
  "es_headers view rawBytes headersEnd p headers =
     (if headersEnd \<le> p then Some headers
      else do {
        nameLen \<leftarrow> get_u8 view p;
        let p1 = p + 1 + nameLen;
        valueType \<leftarrow> get_u8 view p1;
        if valueType = 7 then do {
          valueLen \<leftarrow> get_u16 view (p1 + 1);
          es_headers view rawBytes headersEnd (p1 + 3 + valueLen)
            (jm_set (utf8_decode (subarray rawBytes (p + 1) p1))
               (utf8_decode (subarray rawBytes (p1 + 3) (p1 + 3 + valueLen))) headers) }
        else None })"
  by auto
termination by (relation "measure (\<lambda>(_, _, headersEnd, p, _). headersEnd - p)") auto

declare es_headers.simps [simp del]

definition decodeEventStreamMessageAt :: "byte list \<Rightarrow> es_decoded" where
  "decodeEventStreamMessageAt buf =
     (if length buf < 12 then Es_Need_More
      else (case (get_u32 buf 0, get_u32 buf 4) of
        (Some totalLength, Some headersLength) \<Rightarrow>
          if totalLength < 16 \<or> 16 * 1024 * 1024 < totalLength then Es_Corrupt
          else if length buf < totalLength then Es_Need_More
          else (let rawBytes = subarray buf 0 totalLength; headersEnd = 12 + headersLength in
            case es_headers buf rawBytes headersEnd 12 [] of
              None \<Rightarrow> Es_Corrupt
            | Some headers \<Rightarrow>
                Es_Message \<lparr>em_headers = headers, em_payload = subarray rawBytes headersEnd (totalLength - 4),
                  em_rawBytes = rawBytes\<rparr> (drop totalLength buf))
      | _ \<Rightarrow> Es_Corrupt))"

lemma decoded_shorter: "decodeEventStreamMessageAt buf = Es_Message m rest \<Longrightarrow> length rest < length buf"
  by (auto simp: decodeEventStreamMessageAt_def Let_def split: if_splits option.splits)

text \<open>\<^verbatim>\<open>drain\<close> with the mapping of a message; the last component is what stays buffered.\<close>

type_synonym 'p message_mapper = "'p \<Rightarrow> es_message \<Rightarrow> (wire_event list \<times> 'p) option"

function es_drain :: "'p message_mapper \<Rightarrow> 'p \<Rightarrow> byte list \<Rightarrow> (wire_event list \<times> 'p \<times> byte list) option" where
  "es_drain mapMessage p acc =
     (case decodeEventStreamMessageAt acc of
        Es_Corrupt \<Rightarrow> Some (if acc \<noteq> [] then [We_Pass acc] else [], p, [])
      | Es_Need_More \<Rightarrow> Some ([], p, acc)
      | Es_Message m rest \<Rightarrow> do {
          (evs, p1) \<leftarrow> mapMessage p m;
          (more, p2, left) \<leftarrow> es_drain mapMessage p1 rest;
          Some (evs @ more, p2, left) })"
  by auto
termination by (relation "measure (\<lambda>(_, _, acc). length acc)") (auto dest: decoded_shorter)

declare es_drain.simps [simp del]

record 'p es_parser =
  ep_acc :: "byte list"
  ep_state :: 'p

definition es_feed :: "'p message_mapper \<Rightarrow> 'p es_parser \<Rightarrow> byte list \<Rightarrow> (wire_event list \<times> 'p es_parser) option" where
  "es_feed mapMessage s bytes = do {
     (evs, p, left) \<leftarrow> es_drain mapMessage (ep_state s) (ep_acc s @ bytes);
     Some (evs, s\<lparr>ep_acc := left, ep_state := p\<rparr>) }"

definition es_flush :: "'p message_mapper \<Rightarrow> 'p es_parser \<Rightarrow> (wire_event list \<times> 'p es_parser) option" where
  "es_flush mapMessage s = do {
     (evs, p, left) \<leftarrow> es_drain mapMessage (ep_state s) (ep_acc s);
     Some (evs @ (if left \<noteq> [] then [We_Pass left] else []), s\<lparr>ep_acc := [], ep_state := p\<rparr>) }"

section \<open>Base64\<close>

definition b64_char :: "nat \<Rightarrow> char" where
  "b64_char n = (if n < 26 then char_of (65 + n) else if n < 52 then char_of (71 + n)
     else if n < 62 then char_of (n - 4) else if n = 62 then CHR ''+'' else CHR ''/'')"

definition b64_value :: "char \<Rightarrow> nat option" where
  "b64_value c = (let n = of_char c :: nat in
     if 65 \<le> n \<and> n \<le> 90 then Some (n - 65) else if 97 \<le> n \<and> n \<le> 122 then Some (n - 71)
     else if 48 \<le> n \<and> n \<le> 57 then Some (n + 4)
     else if c = CHR ''+'' then Some 62 else if c = CHR ''/'' then Some 63 else None)"

fun bytesToBase64 :: "byte list \<Rightarrow> string" where
  "bytesToBase64 (a # b # c # r) =
     [b64_char (unat a div 4), b64_char (unat a mod 4 * 16 + unat b div 16),
      b64_char (unat b mod 16 * 4 + unat c div 64), b64_char (unat c mod 64)] @ bytesToBase64 r"
| "bytesToBase64 [a, b] =
     [b64_char (unat a div 4), b64_char (unat a mod 4 * 16 + unat b div 16), b64_char (unat b mod 16 * 4), CHR ''='']"
| "bytesToBase64 [a] = [b64_char (unat a div 4), b64_char (unat a mod 4 * 16), CHR ''='', CHR ''='']"
| "bytesToBase64 [] = []"

text \<open>\<^verbatim>\<open>atob\<close>: white space is dropped, then the padding of a text whose length is a multiple of four.\<close>

fun b64_groups :: "nat list \<Rightarrow> byte list option" where
  "b64_groups (w # x # y # z # r) = map_option (\<lambda>t.
     [word_of_nat (w * 4 + x div 16), word_of_nat (x mod 16 * 16 + y div 4), word_of_nat (y mod 4 * 64 + z)] @ t) (b64_groups r)"
| "b64_groups [w, x, y] = Some [word_of_nat (w * 4 + x div 16), word_of_nat (x mod 16 * 16 + y div 4)]"
| "b64_groups [w, x] = Some [word_of_nat (w * 4 + x div 16)]"
| "b64_groups [w] = None"
| "b64_groups [] = Some []"

definition b64_strip :: "string \<Rightarrow> string" where
  "b64_strip s = (let t = filter (\<lambda>c. of_char c \<notin> {9, 10, 12, 13, 32 :: nat}) s in
     if length t mod 4 \<noteq> 0 then t
     else if js_endsWith t ''=='' then take (length t - 2) t
     else if js_endsWith t ''='' then take (length t - 1) t else t)"

definition base64ToBytes :: "string \<Rightarrow> byte list option" where
  "base64ToBytes b64 = (let vs = map b64_value (b64_strip b64) in
     if None \<in> set vs then None else b64_groups (map the vs))"

section \<open>The two mappings\<close>

definition converse_mapMessage :: "rat list message_mapper" where
  "converse_mapMessage toolUseIndices msg =
     (let rawBytes = em_rawBytes msg; eventType = jm_get (em_headers msg) '':event-type'';
          forward = Some (pass rawBytes, toolUseIndices) in
      case json_parse (utf8_decode (em_payload msg)) of
        None \<Rightarrow> forward
      | Some json \<Rightarrow> do {
          index \<leftarrow> j_prop json ''contentBlockIndex'';
          let blockIndex = index_of index;
          if eventType = Some ''contentBlockStart'' then
            (let tu = j_field (j_field json ''start'') ''toolUse'' in
             case (j_truthy tu, j_string (j_field tu ''name'')) of
               (True, Some name) \<Rightarrow>
                 Some ([We_Start blockIndex (j_string (j_field tu ''toolUseId'')) (Some name) rawBytes],
                       List.insert blockIndex toolUseIndices)
             | _ \<Rightarrow> forward)
          else if eventType = Some ''contentBlockDelta'' then
            (let delta = j_field json ''delta''; tu = j_field delta ''toolUse'' in
             case (j_truthy tu, j_string (j_field tu ''input'')) of
               (True, Some input) \<Rightarrow> Some ([We_Args blockIndex input rawBytes], toolUseIndices)
             | _ \<Rightarrow> (case j_string (j_field delta ''text'') of
                   Some t \<Rightarrow> Some ([We_Text t rawBytes], toolUseIndices)
                 | None \<Rightarrow> forward))
          else if eventType = Some ''contentBlockStop'' then
            (if blockIndex \<in> set toolUseIndices
             then Some ([We_End blockIndex rawBytes], removeAll blockIndex toolUseIndices) else forward)
          else if eventType = Some ''messageStop'' then
            Some ([We_Finish (j_string (j_field json ''stopReason'')) rawBytes], toolUseIndices)
          else forward })"

definition invoke_mapMessage :: "rat list message_mapper" where
  "invoke_mapMessage toolUseIndices msg =
     (let rawBytes = em_rawBytes msg; forward = Some (pass rawBytes, toolUseIndices) in
      if jm_get (em_headers msg) '':event-type'' \<noteq> Some ''chunk'' then forward
      else (case json_parse (utf8_decode (em_payload msg)) of
        None \<Rightarrow> forward
      | Some envelope \<Rightarrow> do {
          b64 \<leftarrow> j_prop envelope ''bytes'';
          case j_string b64 of
            None \<Rightarrow> forward
          | Some t \<Rightarrow> (case base64ToBytes t of
              None \<Rightarrow> forward
            | Some bytes \<Rightarrow> (case json_parse (utf8_decode bytes) of
                None \<Rightarrow> forward
              | Some chunkObj \<Rightarrow> mapAnthropicChunkObject chunkObj rawBytes toolUseIndices None)) }))"

section \<open>The encoder\<close>

definition es_header :: "string \<times> string \<Rightarrow> byte list" where
  "es_header e = (let nameBytes = utf8_encode (fst e); valueBytes = utf8_encode (snd e) in
     [word_of_nat (length nameBytes)] @ nameBytes @ [7] @ put_u16 (length valueBytes) @ valueBytes)"

definition encodeBedrockEventStreamMessage :: "string \<Rightarrow> jval \<Rightarrow> byte list" where
  "encodeBedrockEventStreamMessage eventType payload =
     (let headerParts = concat (map es_header
            [('':message-type'', ''event''), ('':event-type'', eventType), ('':content-type'', ''application/json'')]);
          payloadBytes = utf8_encode (json_text payload);
          totalLength = 4 + 4 + 4 + length headerParts + length payloadBytes + 4;
          prelude = put_u32 totalLength @ put_u32 (length headerParts);
          body = prelude @ put_u32 (unat (crc32 prelude)) @ headerParts @ payloadBytes
      in body @ put_u32 (unat (crc32 body)))"

definition encodeBedrockInvokeChunk :: "jval \<Rightarrow> byte list" where
  "encodeBedrockInvokeChunk payload =
     encodeBedrockEventStreamMessage ''chunk''
       (JObj [(''bytes'', JStr (bytesToBase64 (utf8_encode (json_text payload))))])"

end
