(* ===== verification/Stream_Enforcer.thy ===== *)
theory Stream_Enforcer
  imports Tool_Evaluation Host_Registry Event_Stream
begin

text \<open>
  \<^verbatim>\<open>instrumentation/_response-enforce.ts\<close>: the streaming enforcer. It holds the frames of every tool call a
  model emits until the stream says the turn is over, asks the evaluator about the call's name
  and complete arguments, and then forwards the frames or prints a notice instead. The evaluator
  is an argument: its answer to the \<open>k\<close>-th question, \<^const>\<open>None\<close> when it throws. What is emitted is the list
  of frames. The dash of the notice, which the strings cannot hold, is read as a question mark; an
  index is printed as an integer, which is what every provider sends.
\<close>

section \<open>Notices\<close>

text \<open>\<^verbatim>\<open>instrumentation/_parsers.ts\<close>\<close>

definition makeBlockNoticeText :: "string \<Rightarrow> string \<Rightarrow> jval option \<Rightarrow> string option \<Rightarrow> jval option \<Rightarrow> string" where
  "makeBlockNoticeText toolName args reason denyCode ruleId =
     (let reasonStr = (case reason of Some r \<Rightarrow> j_text r | None \<Rightarrow> ''policy rule matched'');
          tags = (case denyCode of Some c \<Rightarrow> if c \<noteq> [] then [''code='' @ c] else [] | None \<Rightarrow> []) @
                 (case ruleId of Some r \<Rightarrow> if j_truthy r then [''rule='' @ j_text r] else [] | None \<Rightarrow> []);
          trailer = (if tags \<noteq> [] then CHR 0x0A # ''['' @ js_join '', '' tags @ '']'' else [])
      in ''[!] Agentum blocked '' @ toolName @ '' ? '' @ reasonStr @ [CHR 0x0A] @ ''Arguments: '' @ args @ trailer)"

definition verdict_notice :: "string \<Rightarrow> string \<Rightarrow> evaluation \<Rightarrow> string" where
  "verdict_notice toolName args verdict =
     makeBlockNoticeText toolName args (te_reason verdict) (te_denyCode verdict) (te_ruleId verdict)"

section \<open>Providers and their parsers\<close>

datatype stream_provider = Sp_OpenAI | Sp_Anthropic | Sp_Cohere | Sp_Gemini | Sp_Bedrock_Converse | Sp_Bedrock_Invoke

fun streamProviderForShape :: "wire_shape option \<Rightarrow> stream_provider option" where
  "streamProviderForShape (Some Shape_OpenAI_Chat) = Some Sp_OpenAI"
| "streamProviderForShape (Some Shape_OpenAI_Responses) = Some Sp_OpenAI"
| "streamProviderForShape (Some Shape_Anthropic_Messages) = Some Sp_Anthropic"
| "streamProviderForShape (Some Shape_Cohere_Chat) = Some Sp_Cohere"
| "streamProviderForShape (Some Shape_Gemini_Generate) = Some Sp_Gemini"
| "streamProviderForShape (Some Shape_Bedrock_Converse) = Some Sp_Bedrock_Converse"
| "streamProviderForShape (Some Shape_Bedrock_Invoke) = Some Sp_Bedrock_Invoke"
| "streamProviderForShape _ = None"

datatype stream_parser =
    Ps_OpenAI "unit sse_parser"
  | Ps_Anthropic "rat list sse_parser"
  | Ps_Cohere "unit sse_parser"
  | Ps_Gemini "nat sse_parser"
  | Ps_Converse "rat list es_parser"
  | Ps_Invoke "rat list es_parser"

fun newParserFor :: "stream_provider \<Rightarrow> stream_parser" where
  "newParserFor Sp_Anthropic = Ps_Anthropic \<lparr>sp_buf = [], sp_state = []\<rparr>"
| "newParserFor Sp_Cohere = Ps_Cohere \<lparr>sp_buf = [], sp_state = ()\<rparr>"
| "newParserFor Sp_Gemini = Ps_Gemini \<lparr>sp_buf = [], sp_state = 0\<rparr>"
| "newParserFor Sp_Bedrock_Converse = Ps_Converse \<lparr>ep_acc = [], ep_state = []\<rparr>"
| "newParserFor Sp_Bedrock_Invoke = Ps_Invoke \<lparr>ep_acc = [], ep_state = []\<rparr>"
| "newParserFor Sp_OpenAI = Ps_OpenAI \<lparr>sp_buf = [], sp_state = ()\<rparr>"

definition mapped :: "('p \<Rightarrow> stream_parser) \<Rightarrow> (wire_event list \<times> 'p) option \<times> utf8_state \<Rightarrow>
    (wire_event list \<times> stream_parser) option \<times> utf8_state" where
  "mapped c r = (map_option (map_prod id c) (fst r), snd r)"

fun parser_feed :: "utf8_state \<Rightarrow> stream_parser \<Rightarrow> byte list \<Rightarrow> (wire_event list \<times> stream_parser) option \<times> utf8_state" where
  "parser_feed d (Ps_OpenAI p) b = mapped Ps_OpenAI (sse_feed openai_parseFrame d p b)"
| "parser_feed d (Ps_Anthropic p) b = mapped Ps_Anthropic (sse_feed anthropic_parseFrame d p b)"
| "parser_feed d (Ps_Cohere p) b = mapped Ps_Cohere (sse_feed cohere_parseFrame d p b)"
| "parser_feed d (Ps_Gemini p) b = mapped Ps_Gemini (sse_feed gemini_parseFrame d p b)"
| "parser_feed d (Ps_Converse p) b = mapped Ps_Converse (es_feed converse_mapMessage p b, d)"
| "parser_feed d (Ps_Invoke p) b = mapped Ps_Invoke (es_feed invoke_mapMessage p b, d)"

fun parser_flush :: "utf8_state \<Rightarrow> stream_parser \<Rightarrow> (wire_event list \<times> stream_parser) option \<times> utf8_state" where
  "parser_flush d (Ps_OpenAI p) = mapped Ps_OpenAI (sse_flush openai_parseFrame d p)"
| "parser_flush d (Ps_Anthropic p) = mapped Ps_Anthropic (sse_flush anthropic_parseFrame d p)"
| "parser_flush d (Ps_Cohere p) = mapped Ps_Cohere (sse_flush cohere_parseFrame d p)"
| "parser_flush d (Ps_Gemini p) = mapped Ps_Gemini (sse_flush gemini_parseFrame d p)"
| "parser_flush d (Ps_Converse p) = mapped Ps_Converse (es_flush converse_mapMessage p, d)"
| "parser_flush d (Ps_Invoke p) = mapped Ps_Invoke (es_flush invoke_mapMessage p, d)"

section \<open>The evaluation of a streamed call\<close>

type_synonym answers = "nat \<Rightarrow> string \<Rightarrow> jval \<Rightarrow> evaluation option"

definition safeParse :: "string \<Rightarrow> jval" where
  "safeParse raw = (if raw = [] then JObj []
     else (case json_parse raw of Some v \<Rightarrow> v | None \<Rightarrow> JObj [(''_raw'', JStr raw)]))"

definition isPartialJson :: "jval \<Rightarrow> string \<Rightarrow> bool" where
  "isPartialJson parsed raw \<longleftrightarrow> raw = [] \<or> (case parsed of JObj [(k, JStr s)] \<Rightarrow> k = ''_raw'' | _ \<Rightarrow> False)"

definition deny_because :: "string \<Rightarrow> evaluation" where
  "deny_because reason = (bare_evaluation Dec_Deny 0)\<lparr>te_reason := Some (JStr reason)\<rparr>"

definition failed_evaluation :: "bool \<Rightarrow> evaluation" where
  "failed_evaluation failDeny = (if failDeny then deny_because ''agentum-fail-closed'' else bare_evaluation Dec_Allow 0)"

text \<open>The verdict and the number of questions asked so far.\<close>

definition safeEvalStream :: "bool \<Rightarrow> answers \<Rightarrow> nat \<Rightarrow> string \<Rightarrow> string \<Rightarrow> evaluation \<times> nat" where
  "safeEvalStream failDeny evaluator asked name rawArgs =
     (let parsed = safeParse rawArgs in
      if isPartialJson parsed rawArgs then (deny_because ''agentum-partial-tool-args'', asked)
      else (case evaluator asked name parsed of Some e \<Rightarrow> e | None \<Rightarrow> failed_evaluation failDeny, Suc asked))"

section \<open>The enforcer\<close>

record tool_acc =
  ta_name :: string
  ta_args :: string
  ta_bufferedFrames :: "byte list list"

record stream_enforcer =
  en_provider :: stream_provider
  en_parser :: stream_parser
  en_accs :: "(rat, tool_acc) jsmap"
  en_inFlight :: "rat list"
  en_syntheticTerminalEmitted :: bool
  en_asked :: nat

definition createStreamingEnforcer :: "host_match \<Rightarrow> stream_enforcer option" where
  "createStreamingEnforcer m = map_option (\<lambda>p. \<lparr>en_provider = p, en_parser = newParserFor p, en_accs = [],
     en_inFlight = [], en_syntheticTerminalEmitted = False, en_asked = 0\<rparr>) (streamProviderForShape (hm_shape m))"

definition index_json :: "rat \<Rightarrow> jval" where
  "index_json i = JNum (int_text \<lfloor>i\<rfloor>)"

definition anthropic_notice :: "rat \<Rightarrow> string \<Rightarrow> (string \<times> jval) list" where
  "anthropic_notice index notice =
     [(''content_block_start'', JObj [(''type'', JStr ''content_block_start''), (''index'', index_json index),
        (''content_block'', JObj [(''type'', JStr ''text''), (''text'', JStr [])])]),
      (''content_block_delta'', JObj [(''type'', JStr ''content_block_delta''), (''index'', index_json index),
        (''delta'', JObj [(''type'', JStr ''text_delta''), (''text'', JStr notice)])]),
      (''content_block_stop'', JObj [(''type'', JStr ''content_block_stop''), (''index'', index_json index)])]"

definition cohere_notice :: "rat \<Rightarrow> string \<Rightarrow> (string \<times> jval) list" where
  "cohere_notice index notice =
     [(''content-start'', JObj [(''index'', index_json index), (''delta'', JObj [(''message'',
        JObj [(''content'', JObj [(''type'', JStr ''text''), (''text'', JStr [])])])])]),
      (''content-delta'', JObj [(''index'', index_json index), (''delta'', JObj [(''message'',
        JObj [(''content'', JObj [(''text'', JStr notice)])])])]),
      (''content-end'', JObj [(''index'', index_json index)]),
      (''message-end'', JObj [(''delta'', JObj [(''finish_reason'', JStr ''COMPLETE'')])])]"

definition gemini_notice :: "string \<Rightarrow> jval" where
  "gemini_notice notice = JObj [(''candidates'', JArr [JObj [
     (''content'', JObj [(''role'', JStr ''model''), (''parts'', JArr [JObj [(''text'', JStr notice)]])]),
     (''finishReason'', JStr ''STOP''), (''index'', JNum ''0'')]])]"

definition converse_notice :: "rat \<Rightarrow> string \<Rightarrow> (string \<times> jval) list" where
  "converse_notice index notice =
     [(''contentBlockDelta'', JObj [(''contentBlockIndex'', index_json index), (''delta'', JObj [(''text'', JStr notice)])]),
      (''contentBlockStop'', JObj [(''contentBlockIndex'', index_json index)]),
      (''messageStop'', JObj [(''stopReason'', JStr ''end_turn'')])]"

definition openai_notice :: "string \<Rightarrow> jval list" where
  "openai_notice notice =
     [JObj [(''choices'', JArr [JObj [(''index'', JNum ''0''),
        (''delta'', JObj [(''role'', JStr ''assistant''), (''content'', JStr notice)]), (''finish_reason'', JNull)]])],
      JObj [(''choices'', JArr [JObj [(''index'', JNum ''0''), (''delta'', JObj []), (''finish_reason'', JStr ''stop'')]])]]"

definition deny_frames :: "stream_provider \<Rightarrow> rat \<Rightarrow> string \<Rightarrow> byte list list" where
  "deny_frames provider index notice = (case provider of
     Sp_Anthropic \<Rightarrow> map (\<lambda>(n, v). encodeAnthropicEventFrame n v) (anthropic_notice index notice)
   | Sp_Cohere \<Rightarrow> map (\<lambda>(n, v). encodeCohereEventFrame n v) (cohere_notice index notice)
   | Sp_Gemini \<Rightarrow> [encodeGeminiDataFrame (gemini_notice notice)]
   | Sp_Bedrock_Converse \<Rightarrow> map (\<lambda>(n, v). encodeBedrockEventStreamMessage n v) (converse_notice index notice)
   | Sp_Bedrock_Invoke \<Rightarrow> map (\<lambda>(n, v). encodeBedrockInvokeChunk v) (anthropic_notice index notice)
   | Sp_OpenAI \<Rightarrow> map encodeOpenAIDataFrame (openai_notice notice) @ [OPENAI_DONE_FRAME])"

definition flushTool :: "stream_provider \<Rightarrow> rat \<Rightarrow> tool_acc \<Rightarrow> evaluation \<Rightarrow> byte list list" where
  "flushTool provider index acc verdict =
     (if te_decision verdict = Dec_Allow then ta_bufferedFrames acc
      else deny_frames provider index (verdict_notice (ta_name acc) (ta_args acc) verdict))"

text \<open>The loop over the calls in flight: the frames emitted, whether one was denied, the questions asked.\<close>

fun resolve_calls :: "bool \<Rightarrow> answers \<Rightarrow> stream_provider \<Rightarrow> (rat, tool_acc) jsmap \<Rightarrow> nat \<Rightarrow> rat list \<Rightarrow>
    byte list list \<times> bool \<times> nat" where
  "resolve_calls fd ev provider accs asked [] = ([], False, asked)"
| "resolve_calls fd ev provider accs asked (idx # rest) =
     (case jm_get accs idx of
        None \<Rightarrow> resolve_calls fd ev provider accs asked rest
      | Some acc \<Rightarrow>
          (let (verdict, asked1) = safeEvalStream fd ev asked (ta_name acc) (ta_args acc);
               (frames, denied, asked2) = resolve_calls fd ev provider accs asked1 rest
           in (flushTool provider idx acc verdict @ frames, te_decision verdict \<noteq> Dec_Allow \<or> denied, asked2)))"

definition frame_if_any :: "byte list \<Rightarrow> byte list list" where
  "frame_if_any f = (if f \<noteq> [] then [f] else [])"

definition onEvent :: "bool \<Rightarrow> answers \<Rightarrow> stream_enforcer \<Rightarrow> wire_event \<Rightarrow> byte list list \<times> stream_enforcer" where
  "onEvent fd ev s e = (case e of
     We_Text t f \<Rightarrow> (frame_if_any f, s)
   | We_Pass f \<Rightarrow> (frame_if_any f, s)
   | We_Start i d n f \<Rightarrow>
       ([], s\<lparr>en_accs := jm_set i \<lparr>ta_name = (case n of Some x \<Rightarrow> x | None \<Rightarrow> []), ta_args = [],
               ta_bufferedFrames = frame_if_any f\<rparr> (en_accs s),
              en_inFlight := if i \<in> set (en_inFlight s) then en_inFlight s else en_inFlight s @ [i]\<rparr>)
   | We_Args i a f \<Rightarrow> (case jm_get (en_accs s) i of
         None \<Rightarrow> (frame_if_any f, s)
       | Some acc \<Rightarrow> ([], s\<lparr>en_accs := jm_set i (acc\<lparr>ta_args := ta_args acc @ a,
             ta_bufferedFrames := ta_bufferedFrames acc @ frame_if_any f\<rparr>) (en_accs s)\<rparr>))
   | We_End i f \<Rightarrow> (case jm_get (en_accs s) i of
         None \<Rightarrow> (frame_if_any f, s)
       | Some acc \<Rightarrow> ([], s\<lparr>en_accs := jm_set i (acc\<lparr>ta_bufferedFrames :=
             ta_bufferedFrames acc @ frame_if_any f\<rparr>) (en_accs s)\<rparr>))
   | We_Finish r f \<Rightarrow>
       (let (frames, anyDenyFlushed, asked) =
              resolve_calls fd ev (en_provider s) (en_accs s) (en_asked s) (en_inFlight s);
            s1 = s\<lparr>en_inFlight := [], en_asked := asked\<rparr>
        in if anyDenyFlushed then (frames, s1\<lparr>en_syntheticTerminalEmitted := True\<rparr>)
           else if en_syntheticTerminalEmitted s then (frames, s1)
           else (frames @ frame_if_any f, s1)))"

fun onEvents :: "bool \<Rightarrow> answers \<Rightarrow> stream_enforcer \<Rightarrow> wire_event list \<Rightarrow> byte list list \<times> stream_enforcer" where
  "onEvents fd ev s [] = ([], s)"
| "onEvents fd ev s (e # es) =
     (let (f1, s1) = onEvent fd ev s e; (f2, s2) = onEvents fd ev s1 es in (f1 @ f2, s2))"

text \<open>\<^const>\<open>None\<close>: the parser throws out of \<open>feed\<close> or \<open>end\<close>.\<close>

definition enforcer_feed :: "bool \<Rightarrow> answers \<Rightarrow> utf8_state \<Rightarrow> stream_enforcer \<Rightarrow> byte list \<Rightarrow>
    (byte list list \<times> stream_enforcer) option \<times> utf8_state" where
  "enforcer_feed fd ev d s chunk =
     (let (r, d') = parser_feed d (en_parser s) chunk in
      (map_option (\<lambda>(events, p). onEvents fd ev (s\<lparr>en_parser := p\<rparr>) events) r, d'))"

definition resolve_rest :: "bool \<Rightarrow> answers \<Rightarrow> stream_enforcer \<Rightarrow> byte list list \<times> stream_enforcer" where
  "resolve_rest fd ev s =
     (let (frames, denied, asked) = resolve_calls fd ev (en_provider s) (en_accs s) (en_asked s) (en_inFlight s)
      in (frames, s\<lparr>en_inFlight := [], en_asked := asked\<rparr>))"

definition enforcer_end :: "bool \<Rightarrow> answers \<Rightarrow> utf8_state \<Rightarrow> stream_enforcer \<Rightarrow>
    (byte list list \<times> stream_enforcer) option \<times> utf8_state" where
  "enforcer_end fd ev d s =
     (let (r, d') = parser_flush d (en_parser s) in
      (map_option (\<lambda>(events, p).
         (let (f1, s1) = onEvents fd ev (s\<lparr>en_parser := p\<rparr>) events; (f2, s2) = resolve_rest fd ev s1
          in (f1 @ f2, s2))) r, d'))"

end
