(* ===== verification/Sse_Properties.thy ===== *)
theory Sse_Properties
  imports Sse_Parsers
begin

text \<open>
  What the text stream parsers guarantee: cutting the stream into network chunks does not matter, no byte
  is lost or duplicated (except by Gemini's parser, when one frame carries several calls), and a frame
  the SDK prints is read back as what was printed.
\<close>

section \<open>Chunks do not matter\<close>

lemma newline_len_extend: "newline_len s = Some n \<Longrightarrow> newline_len (s @ t) = Some n"
  by (auto simp: newline_len_def split: list.splits if_splits)

lemma delim_len_extend: "delim_len s = Some n \<Longrightarrow> delim_len (s @ t) = Some n"
proof -
  assume "delim_len s = Some n"
  then obtain a b where a: "newline_len s = Some a" and b: "newline_len (drop a s) = Some b" "n = a + b"
    by (auto simp: delim_len_def bind_eq_Some_conv)
  from newline_len_bound [OF a] have "drop a (s @ t) = drop a s @ t" by simp
  with newline_len_extend [OF a, of t] newline_len_extend [OF b(1), of t] b(2) show ?thesis
    by (simp add: delim_len_def)
qed

text \<open>A text with a frame delimiter further on is too long for its start to become one.\<close>

lemma delim_len_later:
  assumes "delim_len (c # s) = None" and "next_frame s = Some (a, b)"
  shows "delim_len (c # s @ t) = None"
proof -
  have n0: "next_frame [] = None" and n1: "next_frame [x] = None" for x
    by (simp_all add: next_frame.simps delim_len_def newline_len_def)
  moreover have "next_frame [CHR 0x0A, CHR 0x0D] = None"
    by (simp add: next_frame.simps delim_len_def newline_len_def)
  moreover have "s \<noteq> []" using assms(2) n0 by auto
  then obtain x u where "s = x # u" by (cases s) auto
  moreover then have "u \<noteq> []" using assms(2) n1 [of x] by auto
  then obtain y s' where "u = y # s'" by (cases u) auto
  ultimately have s: "s = x # y # s'" "s' = [] \<longrightarrow> \<not> (x = CHR 0x0A \<and> y = CHR 0x0D)"
    using assms(2) by auto
  show ?thesis
    using assms(1) s(2) unfolding s(1)
    by (cases s') (auto simp: delim_len_def newline_len_def split: if_splits list.splits)
qed

lemma next_frame_extend: "next_frame s = Some (a, b) \<Longrightarrow> next_frame (s @ t) = Some (a, b @ t)"
proof (induction s arbitrary: a)
  case Nil
  then show ?case by (simp add: next_frame.simps delim_len_def newline_len_def)
next
  case (Cons c s)
  show ?case
  proof (cases "delim_len (c # s)")
    case (Some n)
    from Cons.prems have "a = take n (c # s)" "b = drop n (c # s)"
      by (subst (asm) next_frame.simps; simp add: Some)+
    moreover have "take n ((c # s) @ t) = take n (c # s)" "drop n ((c # s) @ t) = drop n (c # s) @ t"
      using delim_len_bound [OF Some] by (simp_all del: append_Cons)
    ultimately show ?thesis using delim_len_extend [OF Some, of t]
      by (subst next_frame.simps) simp
  next
    case None
    with Cons.prems obtain a' where a: "a = c # a'" "next_frame s = Some (a', b)"
      by (subst (asm) next_frame.simps) auto
    from Cons.IH [OF this(2)] delim_len_later [OF None this(2), of t] show ?thesis
      by (subst next_frame.simps) (simp add: a)
  qed
qed

lemma sse_frames_append:
  "sse_frames pf p (buf @ t) = do {
     (e1, p1, l1) \<leftarrow> sse_frames pf p buf;
     (e2, p2, l2) \<leftarrow> sse_frames pf p1 (l1 @ t);
     Some (e1 @ e2, p2, l2) }"
proof (induction pf p buf rule: sse_frames.induct)
  case (1 pf p buf)
  show ?case
  proof (cases "next_frame buf")
    case None
    have "sse_frames pf p buf = Some ([], p, buf)" by (subst sse_frames.simps) (simp add: None)
    then show ?thesis by (cases "sse_frames pf p (buf @ t)") auto
  next
    case (Some ab)
    obtain raw rest where ab: "ab = (raw, rest)" by (cases ab)
    have e: "next_frame (buf @ t) = Some (raw, rest @ t)" using next_frame_extend Some ab by blast
    show ?thesis
    proof (cases "pf p raw")
      case None
      then show ?thesis by (subst (1 2) sse_frames.simps) (simp add: e Some ab)
    next
      case (Some r)
      obtain evs p1 where r: "r = (evs, p1)" by (cases r)
      have "sse_frames pf p1 (rest @ t) = do {
          (e1, p1, l1) \<leftarrow> sse_frames pf p1 rest;
          (e2, p2, l2) \<leftarrow> sse_frames pf p1 (l1 @ t);
          Some (e1 @ e2, p2, l2) }"
        using "1" \<open>next_frame buf = Some ab\<close> ab Some r by blast
      then show ?thesis
        by (subst (1 2) sse_frames.simps)
          (simp add: e \<open>next_frame buf = Some ab\<close> ab Some r bind_assoc split: Option.bind_split prod.splits)
    qed
  qed
qed


text \<open>Several \<^verbatim>\<open>feed\<close> calls; the first that throws ends the run.\<close>

fun sse_feeds :: "'p frame_parser \<Rightarrow> utf8_state \<Rightarrow> 'p sse_parser \<Rightarrow> byte list list \<Rightarrow>
    (wire_event list \<times> 'p sse_parser \<times> utf8_state) option" where
  "sse_feeds pf d s [] = Some ([], s, d)"
| "sse_feeds pf d s (c # cs) = do {
     (e1, s1) \<leftarrow> fst (sse_feed pf d s c);
     (e2, s2, d2) \<leftarrow> sse_feeds pf (snd (sse_feed pf d s c)) s1 cs;
     Some (e1 @ e2, s2, d2) }"

lemma sse_feed_alt:
  "sse_feed pf d s c =
     (do { (evs, p, left) \<leftarrow> sse_frames pf (sp_state s) (sp_buf s @ fst (utf8_stream d c));
           Some (evs, s\<lparr>sp_buf := left, sp_state := p\<rparr>) }, snd (utf8_stream d c))"
  by (simp add: sse_feed_def sse_drain_def case_prod_unfold map_conv_bind_option split: Option.bind_split)

lemma sse_feed_append:
  "sse_feeds pf d s [xs @ ys] = sse_feeds pf d s [xs, ys]"
proof -
  obtain a d1 where a: "utf8_stream d xs = (a, d1)" by (cases "utf8_stream d xs")
  obtain b d2 where b: "utf8_stream d1 ys = (b, d2)" by (cases "utf8_stream d1 ys")
  have u: "utf8_stream d (xs @ ys) = (a @ b, d2)" by (simp add: utf8_stream_append a b)
  have f: "sse_frames pf (sp_state s) (sp_buf s @ a @ b) = do {
      (e1, p1, l1) \<leftarrow> sse_frames pf (sp_state s) (sp_buf s @ a);
      (e2, p2, l2) \<leftarrow> sse_frames pf p1 (l1 @ b);
      Some (e1 @ e2, p2, l2) }"
    unfolding append_assoc [symmetric] by (rule sse_frames_append)
  show ?thesis
  proof (cases "sse_frames pf (sp_state s) (sp_buf s @ a)")
    case None
    then show ?thesis by (simp add: sse_feed_alt u a f)
  next
    case (Some r)
    obtain e1 p1 l1 where r: "r = (e1, p1, l1)" by (cases r)
    show ?thesis
    proof (cases "sse_frames pf p1 (l1 @ b)")
      case None
      then show ?thesis by (simp add: sse_feed_alt u a b f Some r)
    next
      case (Some r2)
      obtain e2 p2 l2 where "r2 = (e2, p2, l2)" by (cases r2)
      with Some \<open>sse_frames pf (sp_state s) (sp_buf s @ a) = Some r\<close> show ?thesis
        by (simp add: sse_feed_alt u a b f r)
    qed
  qed
qed



section \<open>No byte is lost\<close>

text \<open>The contract of a parser whose events together carry the frame exactly once.\<close>

locale exact_frames =
  fixes pf :: "'p frame_parser"
  assumes exact: "pf p raw = Some (evs, p') \<Longrightarrow> concat (map we_frame evs) = utf8_encode raw"
begin

lemma frames_exact:
  "sse_frames pf p buf = Some (evs, p', left) \<Longrightarrow> concat (map we_frame evs) @ utf8_encode left = utf8_encode buf"
proof (induction "length buf" arbitrary: p buf evs rule: less_induct)
  case less
  show ?case
  proof (cases "next_frame buf")
    case None
    with less.prems show ?thesis by (subst (asm) sse_frames.simps) auto
  next
    case (Some ab)
    obtain raw rest where ab: "ab = (raw, rest)" by (cases ab)
    from less.prems obtain e1 p1 e2 where e: "pf p raw = Some (e1, p1)" "sse_frames pf p1 rest = Some (e2, p', left)"
      "evs = e1 @ e2"
      by (subst (asm) sse_frames.simps) (auto simp: Some ab bind_eq_Some_conv)
    from less.hyps [OF _ e(2)] next_frame_shorter Some ab exact [OF e(1)] next_frame_append [of buf raw rest] show ?thesis
      by (simp add: e(3) utf8_encode_append [symmetric])
  qed
qed

lemma drain_exact:
  assumes "sse_drain pf p buf final = Some (evs, p', left)"
  shows "concat (map we_frame evs) @ utf8_encode left = utf8_encode buf"
proof -
  from assms obtain e1 p1 l1 where d: "sse_frames pf p buf = Some (e1, p1, l1)"
    and r: "(if final \<and> l1 \<noteq> [] then do { (more, p2) \<leftarrow> pf p1 l1; Some (e1 @ more, p2, []) }
       else Some (e1, p1, l1)) = Some (evs, p', left)"
    by (auto simp: sse_drain_def bind_eq_Some_conv)
  from frames_exact [OF d] r exact show ?thesis
    by (auto simp: bind_eq_Some_conv split: if_splits)
qed

end

lemma openai_chunk_exact: "yields (\<lambda>evs. concat (map we_frame evs) = raw) (openai_chunk json raw)"
  unfolding openai_chunk_def pass_def by (intro yields_intros) simp_all

lemma openai_exact:
  "yields (\<lambda>(evs, p'). concat (map we_frame evs) = utf8_encode raw) (openai_parseFrame p raw)"
  unfolding openai_parseFrame_def pass_def by (intro yields_intros; simp add: openai_chunk_exact)

lemma anthropic_chunk_exact:
  "yields (\<lambda>(evs, p'). concat (map we_frame evs) = raw) (mapAnthropicChunkObject json raw open_blocks ty)"
  unfolding mapAnthropicChunkObject_def pass_def by (intro yields_intros) simp_all

lemma anthropic_exact:
  "yields (\<lambda>(evs, p'). concat (map we_frame evs) = utf8_encode raw) (anthropic_parseFrame p raw)"
  unfolding anthropic_parseFrame_def pass_def
  by (intro yields_intros anthropic_chunk_exact) simp_all

lemma cohere_chunk_exact: "yields (\<lambda>evs. concat (map we_frame evs) = raw) (cohere_chunk name json raw)"
  unfolding cohere_chunk_def pass_def by (intro yields_intros) simp_all

lemma cohere_exact:
  "yields (\<lambda>(evs, p'). concat (map we_frame evs) = utf8_encode raw) (cohere_parseFrame p raw)"
  unfolding cohere_parseFrame_def pass_def by (intro yields_intros; simp add: cohere_chunk_exact)

interpretation openai: exact_frames openai_parseFrame
  by unfold_locales (use yieldsD [OF openai_exact] in auto)

interpretation anthropic: exact_frames anthropic_parseFrame
  by unfold_locales (use yieldsD [OF anthropic_exact] in auto)

interpretation cohere: exact_frames cohere_parseFrame
  by unfold_locales (use yieldsD [OF cohere_exact] in auto)

end
