(* ===== verification/Stream_Safety.thy ===== *)
theory Stream_Safety
  imports Stream_Enforcer Sse_Properties
begin

text \<open>
  What the streaming enforcer guarantees, over whole streams: where every emitted frame comes from, that
  a stream without tool calls passes unchanged, and where a call escapes.
\<close>

section \<open>Whole streams\<close>

definition enforcer_output :: "bool \<Rightarrow> answers \<Rightarrow> stream_enforcer \<Rightarrow> wire_event list \<Rightarrow> byte list list" where
  "enforcer_output fd ev s evs = (let (f1, s1) = onEvents fd ev s evs in f1 @ fst (resolve_rest fd ev s1))"

text \<open>\<^verbatim>\<open>feed\<close> for every chunk, then \<^verbatim>\<open>end\<close>; and the events the parser alone reads in them.\<close>

fun enforcer_run :: "bool \<Rightarrow> answers \<Rightarrow> utf8_state \<Rightarrow> stream_enforcer \<Rightarrow> byte list list \<Rightarrow> byte list list option" where
  "enforcer_run fd ev d s [] = map_option fst (fst (enforcer_end fd ev d s))"
| "enforcer_run fd ev d s (c # cs) = do {
     (f1, s1) \<leftarrow> fst (enforcer_feed fd ev d s c);
     f2 \<leftarrow> enforcer_run fd ev (snd (enforcer_feed fd ev d s c)) s1 cs;
     Some (f1 @ f2) }"

fun parser_run :: "utf8_state \<Rightarrow> stream_parser \<Rightarrow> byte list list \<Rightarrow> wire_event list option" where
  "parser_run d p [] = map_option fst (fst (parser_flush d p))"
| "parser_run d p (c # cs) = do {
     (e1, p1) \<leftarrow> fst (parser_feed d p c);
     e2 \<leftarrow> parser_run (snd (parser_feed d p c)) p1 cs;
     Some (e1 @ e2) }"

lemma onEvent_parser:
  "onEvent fd ev (s\<lparr>en_parser := p\<rparr>) e = (fst (onEvent fd ev s e), (snd (onEvent fd ev s e))\<lparr>en_parser := p\<rparr>)"
  by (cases e) (auto simp: onEvent_def Let_def split: option.splits prod.splits)

lemma onEvents_parser:
  "onEvents fd ev (s\<lparr>en_parser := p\<rparr>) evs = (fst (onEvents fd ev s evs), (snd (onEvents fd ev s evs))\<lparr>en_parser := p\<rparr>)"
  by (induction evs arbitrary: s) (simp_all add: onEvent_parser case_prod_unfold Let_def)

lemma onEvents_append:
  "onEvents fd ev s (xs @ ys) =
     (let (f1, s1) = onEvents fd ev s xs; (f2, s2) = onEvents fd ev s1 ys in (f1 @ f2, s2))"
  by (induction xs arbitrary: s) (simp_all add: case_prod_unfold Let_def)

lemma resolve_rest_parser:
  "fst (resolve_rest fd ev (s\<lparr>en_parser := p\<rparr>)) = fst (resolve_rest fd ev s)"
  by (simp add: resolve_rest_def case_prod_unfold Let_def)

lemma enforcer_output_parser: "enforcer_output fd ev (s\<lparr>en_parser := p\<rparr>) = enforcer_output fd ev s"
  by (rule ext) (simp add: enforcer_output_def onEvents_parser resolve_rest_parser case_prod_unfold Let_def)

lemma enforcer_output_append:
  "enforcer_output fd ev s (xs @ ys) =
     fst (onEvents fd ev s xs) @ enforcer_output fd ev (snd (onEvents fd ev s xs)) ys"
  by (simp add: enforcer_output_def onEvents_append case_prod_unfold Let_def)

text \<open>The enforcer works on the parsed events, however they were cut.\<close>

lemma enforcer_run_events:
  "enforcer_run fd ev d s chunks = map_option (enforcer_output fd ev s) (parser_run d (en_parser s) chunks)"
proof (induction chunks arbitrary: d s)
  case Nil
  show ?case
    by (cases "fst (parser_flush d (en_parser s))")
      (auto simp: enforcer_end_def onEvents_parser resolve_rest_parser enforcer_output_def case_prod_unfold Let_def)
next
  case (Cons c cs)
  obtain r d1 where r: "parser_feed d (en_parser s) c = (r, d1)" by (cases "parser_feed d (en_parser s) c")
  show ?case
  proof (cases r)
    case None
    then show ?thesis by (simp add: enforcer_feed_def r)
  next
    case (Some q)
    obtain e1 p1 where q: "q = (e1, p1)" by (cases q)
    have "enforcer_run fd ev d1 (snd (onEvents fd ev (s\<lparr>en_parser := p1\<rparr>) e1)) cs =
        map_option (enforcer_output fd ev (snd (onEvents fd ev s e1))) (parser_run d1 p1 cs)"
      unfolding Cons.IH by (simp add: onEvents_parser enforcer_output_parser)
    then show ?thesis
      by (cases "parser_run d1 p1 cs")
        (simp_all add: enforcer_feed_def r Some q case_prod_unfold onEvents_parser enforcer_output_append)
  qed
qed

section \<open>The call an index stands for\<close>

definition call_step :: "rat \<Rightarrow> tool_acc option \<Rightarrow> wire_event \<Rightarrow> tool_acc option" where
  "call_step i acc e = (case e of
     We_Start j d n f \<Rightarrow> if j = i then Some \<lparr>ta_name = (case n of Some x \<Rightarrow> x | None \<Rightarrow> []), ta_args = [],
         ta_bufferedFrames = frame_if_any f\<rparr> else acc
   | We_Args j a f \<Rightarrow> if j = i then map_option (\<lambda>c. c\<lparr>ta_args := ta_args c @ a,
         ta_bufferedFrames := ta_bufferedFrames c @ frame_if_any f\<rparr>) acc else acc
   | We_End j f \<Rightarrow> if j = i then map_option (\<lambda>c. c\<lparr>ta_bufferedFrames := ta_bufferedFrames c @ frame_if_any f\<rparr>) acc else acc
   | _ \<Rightarrow> acc)"

text \<open>Since its last start: the name, the concatenated arguments, the frames.\<close>

definition call_of :: "rat \<Rightarrow> wire_event list \<Rightarrow> tool_acc option" where
  "call_of i evs = foldl (call_step i) None evs"

lemma onEvent_accs: "jm_get (en_accs (snd (onEvent fd ev s e))) i = call_step i (jm_get (en_accs s) i) e"
  by (cases e) (auto simp: onEvent_def call_step_def jm_simps Let_def split: option.splits prod.splits)

lemma onEvents_accs:
  "jm_get (en_accs (snd (onEvents fd ev s evs))) i = foldl (call_step i) (jm_get (en_accs s) i) evs"
  by (induction evs arbitrary: s) (simp_all add: case_prod_unfold Let_def onEvent_accs)

lemma onEvent_provider: "en_provider (snd (onEvent fd ev s e)) = en_provider s"
  by (cases e) (auto simp: onEvent_def Let_def split: option.splits prod.splits)

lemma onEvents_provider: "en_provider (snd (onEvents fd ev s evs)) = en_provider s"
  by (induction evs arbitrary: s) (simp_all add: case_prod_unfold Let_def onEvent_provider)

text \<open>The evaluator allowed exactly this call, with arguments that were complete; or it threw under fail mode allow.\<close>

definition allowed :: "bool \<Rightarrow> answers \<Rightarrow> tool_acc \<Rightarrow> bool" where
  "allowed fd ev acc \<longleftrightarrow> \<not> isPartialJson (safeParse (ta_args acc)) (ta_args acc) \<and>
     (\<exists>k. case ev k (ta_name acc) (safeParse (ta_args acc)) of Some e \<Rightarrow> te_decision e = Dec_Allow | None \<Rightarrow> \<not> fd)"

definition notice_frame :: "stream_provider \<Rightarrow> rat \<Rightarrow> tool_acc \<Rightarrow> byte list \<Rightarrow> bool" where
  "notice_frame provider i acc f \<longleftrightarrow> (\<exists>verdict. te_decision verdict = Dec_Deny \<and>
     f \<in> set (deny_frames provider i (verdict_notice (ta_name acc) (ta_args acc) verdict)))"

lemma not_allow: "d \<noteq> Dec_Allow \<longleftrightarrow> d = Dec_Deny"
  by (cases d) simp_all

lemma safeEvalStream_allow:
  "te_decision (fst (safeEvalStream fd ev k (ta_name acc) (ta_args acc))) = Dec_Allow \<Longrightarrow> allowed fd ev acc"
  unfolding allowed_def safeEvalStream_def Let_def
  by (auto simp: deny_because_def failed_evaluation_def bare_evaluation_def split: if_splits option.splits intro!: exI [of _ k])

lemma resolve_calls_frames:
  assumes "f \<in> set (fst (resolve_calls fd ev provider accs asked is))"
  shows "\<exists>i acc. jm_get accs i = Some acc \<and>
    (f \<in> set (ta_bufferedFrames acc) \<and> allowed fd ev acc \<or> notice_frame provider i acc f)"
  using assms
proof (induction "is" arbitrary: asked)
  case (Cons i "is")
  show ?case
  proof (cases "jm_get accs i")
    case None
    with Cons show ?thesis by simp
  next
    case (Some acc)
    let ?v = "safeEvalStream fd ev asked (ta_name acc) (ta_args acc)"
    from Cons.prems consider "f \<in> set (flushTool provider i acc (fst ?v))"
      | "f \<in> set (fst (resolve_calls fd ev provider accs (snd ?v) is))"
      by (auto simp: Some case_prod_unfold Let_def)
    then show ?thesis
    proof cases
      case 1
      with Some safeEvalStream_allow [of fd ev asked acc] show ?thesis
        by (auto simp: flushTool_def notice_frame_def not_allow split: if_splits)
    next
      case 2
      from Cons.IH [OF this] show ?thesis .
    qed
  qed
qed simp

section \<open>Where a frame comes from\<close>

text \<open>An event outside every known call: text, unrecognised frames, the end of the turn, and pieces of a call that never started.\<close>

definition outside_calls :: "wire_event list \<Rightarrow> wire_event \<Rightarrow> bool" where
  "outside_calls before e = (case e of
     We_Start i d n f \<Rightarrow> False | We_Args i a f \<Rightarrow> call_of i before = None | We_End i f \<Rightarrow> call_of i before = None
   | _ \<Rightarrow> True)"

definition frame_source :: "bool \<Rightarrow> answers \<Rightarrow> stream_provider \<Rightarrow> wire_event list \<Rightarrow> byte list \<Rightarrow> bool" where
  "frame_source fd ev provider evs f \<longleftrightarrow> (\<exists>before after. evs = before @ after \<and>
     ((\<exists>e rest. after = e # rest \<and> f = we_frame e \<and> outside_calls before e) \<or>
      (\<exists>i acc. call_of i before = Some acc \<and>
         (f \<in> set (ta_bufferedFrames acc) \<and> allowed fd ev acc \<or> notice_frame provider i acc f))))"

lemma frame_source_append: "frame_source fd ev provider evs f \<Longrightarrow> frame_source fd ev provider (evs @ later) f"
  unfolding frame_source_def by (metis append.assoc append_Cons)

lemma frame_source_plain: "outside_calls before e \<Longrightarrow> frame_source fd ev provider (before @ [e]) (we_frame e)"
  unfolding frame_source_def by (intro exI [of _ before] exI [of _ "[e]"]) simp

lemma onEvent_source:
  assumes "\<And>i. jm_get (en_accs s) i = call_of i before" and "f \<in> set (fst (onEvent fd ev s e))"
  shows "frame_source fd ev (en_provider s) (before @ [e]) f"
proof -
  consider "f = we_frame e \<and> outside_calls before e"
    | "f \<in> set (fst (resolve_calls fd ev (en_provider s) (en_accs s) (en_asked s) (en_inFlight s)))"
    using assms by (cases e) (auto simp: onEvent_def frame_if_any_def outside_calls_def Let_def
        split: prod.splits if_splits option.splits)
  then show ?thesis
  proof cases
    case 1
    then show ?thesis using frame_source_plain by blast
  next
    case 2
    from resolve_calls_frames [OF this] assms(1) show ?thesis
      unfolding frame_source_def by (metis append_Nil2 append.assoc)
  qed
qed

lemma onEvents_source:
  assumes "\<And>i. jm_get (en_accs s) i = call_of i before" and "f \<in> set (fst (onEvents fd ev s evs))"
  shows "frame_source fd ev (en_provider s) (before @ evs) f"
  using assms
proof (induction evs arbitrary: s before)
  case (Cons e evs)
  from Cons.prems(2) consider "f \<in> set (fst (onEvent fd ev s e))"
    | "f \<in> set (fst (onEvents fd ev (snd (onEvent fd ev s e)) evs))"
    by (auto simp: case_prod_unfold Let_def)
  then show ?case
  proof cases
    case 1
    from frame_source_append [OF onEvent_source [OF Cons.prems(1) 1], of evs] show ?thesis by simp
  next
    case 2
    have "jm_get (en_accs (snd (onEvent fd ev s e))) i = call_of i (before @ [e])" for i
      by (simp add: onEvent_accs Cons.prems(1) call_of_def)
    from Cons.IH [OF this 2] show ?thesis by (simp add: onEvent_provider)
  qed
qed simp

text \<open>C8: a streamed tool call reaches the application only when it was allowed. Whatever a provider sends and
  however it is cut, every frame the enforcer emits is either a frame outside every call it
  knows, or one buffered with a call that the evaluator allowed with that name and those complete arguments
  (in fail mode allow: or whose evaluation threw), or part of a notice. (A Gemini frame can carry several calls; it is
  buffered with each of them, and goes out with the allowed one.)\<close>

theorem streamed_calls_need_allow:
  assumes "createStreamingEnforcer m = Some s" and "enforcer_run fd ev d s chunks = Some frames" and "f \<in> set frames"
  shows "\<exists>evs. parser_run d (en_parser s) chunks = Some evs \<and> frame_source fd ev (en_provider s) evs f"
proof -
  from assms(2) obtain evs where evs: "parser_run d (en_parser s) chunks = Some evs"
    and out: "frames = enforcer_output fd ev s evs" by (auto simp: enforcer_run_events)
  have fresh: "jm_get (en_accs s) i = call_of i []" for i
    using assms(1) by (auto simp: createStreamingEnforcer_def call_of_def)
  let ?s1 = "snd (onEvents fd ev s evs)"
  from assms(3) consider "f \<in> set (fst (onEvents fd ev s evs))" | "f \<in> set (fst (resolve_rest fd ev ?s1))"
    by (auto simp: out enforcer_output_def case_prod_unfold Let_def)
  then have "frame_source fd ev (en_provider s) evs f"
  proof cases
    case 1
    from onEvents_source [OF fresh 1] show ?thesis by simp
  next
    case 2
    have "jm_get (en_accs ?s1) i = call_of i evs" for i by (simp add: onEvents_accs fresh) (simp add: call_of_def)
    moreover obtain i acc where "jm_get (en_accs ?s1) i = Some acc"
      "f \<in> set (ta_bufferedFrames acc) \<and> allowed fd ev acc \<or> notice_frame (en_provider s) i acc f"
      using resolve_calls_frames [of f fd ev "en_provider ?s1" "en_accs ?s1" "en_asked ?s1" "en_inFlight ?s1"] 2
      by (auto simp: resolve_rest_def case_prod_unfold Let_def onEvents_provider)
    ultimately show ?thesis unfolding frame_source_def by (metis append_Nil2)
  qed
  with evs show ?thesis by blast
qed

section \<open>A stream without tool calls\<close>

definition text_provider :: "stream_provider \<Rightarrow> bool" where
  "text_provider p \<longleftrightarrow> p = Sp_OpenAI \<or> p = Sp_Anthropic \<or> p = Sp_Cohere"

definition starts_call :: "wire_event \<Rightarrow> bool" where
  "starts_call e = (case e of We_Start i d n f \<Rightarrow> True | _ \<Rightarrow> False)"

lemma frame_if_any_concat: "concat (frame_if_any f) = f"
  by (simp add: frame_if_any_def)

lemma onEvents_quiet:
  assumes "en_accs s = []" and "en_inFlight s = []" and "\<not> en_syntheticTerminalEmitted s"
    and "list_all (\<lambda>e. \<not> starts_call e) evs"
  shows "concat (enforcer_output fd ev s evs) = concat (map we_frame evs)"
  using assms
proof (induction evs arbitrary: s)
  case Nil
  then show ?case by (simp add: enforcer_output_def resolve_rest_def)
next
  case (Cons e evs)
  have "concat (fst (onEvent fd ev s e)) = we_frame e"
    and quiet: "en_accs (snd (onEvent fd ev s e)) = []" "en_inFlight (snd (onEvent fd ev s e)) = []"
      "\<not> en_syntheticTerminalEmitted (snd (onEvent fd ev s e))"
    using Cons.prems by (cases e; simp add: onEvent_def starts_call_def frame_if_any_concat)+
  moreover have "enforcer_output fd ev s (e # evs) =
      fst (onEvent fd ev s e) @ enforcer_output fd ev (snd (onEvent fd ev s e)) evs"
    using enforcer_output_append [of fd ev s "[e]" evs] by (simp add: case_prod_unfold Let_def)
  ultimately show ?case using Cons.IH [OF quiet] Cons.prems(4) by simp
qed

text \<open>The frames of all events together carry the text that was decoded, once.\<close>

fun decode_run :: "utf8_state \<Rightarrow> byte list list \<Rightarrow> string" where
  "decode_run d [] = fst (utf8_flush d)"
| "decode_run d (c # cs) = fst (utf8_stream d c) @ decode_run (snd (utf8_stream d c)) cs"

fun sse_run :: "'p frame_parser \<Rightarrow> utf8_state \<Rightarrow> 'p sse_parser \<Rightarrow> byte list list \<Rightarrow> wire_event list option" where
  "sse_run pf d s [] = map_option fst (fst (sse_flush pf d s))"
| "sse_run pf d s (c # cs) = do {
     (e1, s1) \<leftarrow> fst (sse_feed pf d s c);
     e2 \<leftarrow> sse_run pf (snd (sse_feed pf d s c)) s1 cs;
     Some (e1 @ e2) }"

context exact_frames
begin

lemma sse_run_exact:
  "sse_run pf d s chunks = Some evs \<Longrightarrow> concat (map we_frame evs) = utf8_encode (sp_buf s @ decode_run d chunks)"
proof (induction chunks arbitrary: d s evs)
  case Nil
  obtain t d1 where t: "utf8_flush d = (t, d1)" by (cases "utf8_flush d")
  from Nil obtain p left where "sse_drain pf (sp_state s) (sp_buf s @ t) True = Some (evs, p, left)"
    by (auto simp: sse_flush_def t)
  note d = this
  then have "left = []" by (auto simp: sse_drain_def bind_eq_Some_conv split: if_splits)
  with drain_exact [OF d] show ?case by (simp add: t utf8_encode_def [of "[]"])
next
  case (Cons c cs)
  obtain t d1 where t: "utf8_stream d c = (t, d1)" by (cases "utf8_stream d c")
  from Cons.prems obtain e1 p left e2 where e1: "sse_drain pf (sp_state s) (sp_buf s @ t) False = Some (e1, p, left)"
    and e2: "sse_run pf d1 (s\<lparr>sp_buf := left, sp_state := p\<rparr>) cs = Some e2" "evs = e1 @ e2"
    by (auto simp: sse_feed_def t bind_eq_Some_conv)
  from drain_exact [OF e1] Cons.IH [OF e2(1)] show ?case
    by (simp add: e2(2) t utf8_encode_append)
qed

end

lemma parser_run_sse:
  "parser_run d (Ps_OpenAI p) chunks = sse_run openai_parseFrame d p chunks"
  "parser_run d (Ps_Anthropic q) chunks = sse_run anthropic_parseFrame d q chunks"
  "parser_run d (Ps_Cohere p) chunks = sse_run cohere_parseFrame d p chunks"
  "parser_run d (Ps_Gemini g) chunks = sse_run gemini_parseFrame d g chunks"
  by (induction chunks arbitrary: d p q g)
    (auto simp: mapped_def option.map_comp bind_map_option case_prod_unfold o_def split: Option.bind_split)

lemma decode_run_concat: "decode_run d chunks = (let (t, d') = utf8_stream d (concat chunks) in t @ fst (utf8_flush d'))"
proof (induction chunks arbitrary: d)
  case Nil
  then show ?case by (simp add: utf8_stream_def utf8_bom_def)
next
  case (Cons c cs)
  then show ?case by (simp add: utf8_stream_append case_prod_unfold Let_def)
qed

text \<open>A stream in which the model calls no tool passes through byte for byte, however it is cut, for the text
  protocols (OpenAI, Anthropic, Cohere).\<close>

theorem quiet_stream_passes_unchanged:
  assumes "createStreamingEnforcer m = Some s" and "text_provider (en_provider s)"
    and "concat chunks = utf8_encode t" and "parser_run utf8_start (en_parser s) chunks = Some evs"
    and "list_all (\<lambda>e. \<not> starts_call e) evs"
  shows "map_option concat (enforcer_run fd ev utf8_start s chunks) = Some (utf8_encode t)"
proof -
  have s: "en_accs s = []" "en_inFlight s = []" "\<not> en_syntheticTerminalEmitted s"
    "en_parser s = newParserFor (en_provider s)"
    using assms(1) by (auto simp: createStreamingEnforcer_def)
  have "decode_run utf8_start chunks = t"
    using utf8_decode_encode [of t] by (simp add: decode_run_concat assms(3) utf8_decode_def)
  then have "concat (map we_frame evs) = utf8_encode t"
    using assms(2,4) by (auto simp: s(4) text_provider_def parser_run_sse
        dest!: openai.sse_run_exact anthropic.sse_run_exact cohere.sse_run_exact)
  with onEvents_quiet [OF s(1-3) assms(5)] show ?thesis by (simp add: enforcer_run_events assms(4))
qed


definition sample_enforcer :: "stream_provider \<Rightarrow> stream_enforcer" where
  "sample_enforcer p = \<lparr>en_provider = p, en_parser = newParserFor p, en_accs = [], en_inFlight = [],
     en_syntheticTerminalEmitted = False, en_asked = 0\<rparr>"

definition ask_nobody :: answers where
  "ask_nobody k name args = None"

lemma sample_converse_run:
  "enforcer_run True ask_nobody utf8_start (sample_enforcer Sp_Bedrock_Converse) [[1, 2], [3]] = Some [[1, 2, 3]]"
  by (simp add: sample_enforcer_def enforcer_feed_def enforcer_end_def mapped_def es_feed_def es_flush_def
      es_drain.simps decodeEventStreamMessageAt_def onEvent_def frame_if_any_def resolve_rest_def)

theorem quiet_stream_passes_unchanged_witness:
  "map_option concat (enforcer_run True ask_nobody utf8_start (sample_enforcer Sp_OpenAI) [utf8_encode ''hi'']) =
    Some (utf8_encode ''hi'')"
proof (rule quiet_stream_passes_unchanged)
  show "createStreamingEnforcer \<lparr>hm_provider = Some Prov_OpenAI, hm_shape = Some Shape_OpenAI_Chat\<rparr> =
      Some (sample_enforcer Sp_OpenAI)"
    by (simp add: createStreamingEnforcer_def sample_enforcer_def)
  have "next_frame ''hi'' = None" by (simp add: next_frame.simps delim_len_def newline_len_def)
  moreover have "sse_data (split_lines ''hi'') = None" by (simp add: sse_data_def js_startsWith_def)
  moreover have "utf8_stream utf8_start (utf8_encode ''hi'') = (''hi'', utf8_start\<lparr>us_bomSeen := True\<rparr>)"
    using utf8_points_encode [OF utf8_start_idle, of "''hi''"]
    by (simp add: utf8_stream_def utf8_bom_def point_char_def char_eq_iff_code)
  ultimately show "parser_run utf8_start (en_parser (sample_enforcer Sp_OpenAI)) [utf8_encode ''hi''] =
      Some [We_Pass (utf8_encode ''hi'')]"
    by (simp add: sample_enforcer_def mapped_def sse_feed_def sse_flush_def sse_drain_def sse_frames.simps
        openai_parseFrame_def pass_def utf8_flush_def) (simp add: utf8_start_def)
qed (simp_all add: sample_enforcer_def text_provider_def starts_call_def)

end
