(* ===== verification/Event_Stream_Properties.thy ===== *)
theory Event_Stream_Properties
  imports Event_Stream
begin

text \<open>
  What the binary framing guarantees: the decoder reads back what the encoder prints, whatever follows it
  in the buffer, and a message that has only arrived in part is waited for.
\<close>

section \<open>Integers\<close>

lemma length_put [simp]: "length (put_u16 n) = 2" "length (put_u32 n) = 4"
  by (simp_all add: put_u16_def put_u32_def)

lemma get_u8_nth: "get_u8 (pre @ b # post) (length pre) = Some (unat b)"
  by (simp add: get_u8_def nth_append)

lemma get_u16_put:
  assumes "n < 65536"
  shows "get_u16 (pre @ put_u16 n @ post) (length pre) = Some n"
proof -
  have "get_u8 (pre @ put_u16 n @ post) (length pre) = Some (n div 256)"
    using get_u8_nth [of pre "word_of_nat (n div 256)"] assms by (simp add: put_u16_def unat_of_nat)
  moreover have "get_u8 (pre @ put_u16 n @ post) (length pre + 1) = Some (n mod 256)"
    using get_u8_nth [of "pre @ [word_of_nat (n div 256)]" "word_of_nat n"] by (simp add: put_u16_def unat_of_nat)
  ultimately show ?thesis by (simp add: get_u16_def)
qed

lemma put_u32_u16: "put_u32 n = put_u16 (n div 65536) @ put_u16 (n mod 65536)"
proof -
  have "(word_of_nat (n mod 65536 div 256) :: byte) = word_of_nat (n div 256)"
  proof -
    have "n mod 65536 div 256 = n div 256 mod 256"
      using mod_mult2_eq [of n 256 256] by (simp add: div_mult2_eq mod_mult2_eq)
    then show ?thesis by (simp add: word_of_nat_eq_iff take_bit_eq_mod)
  qed
  moreover have "(word_of_nat (n mod 65536) :: byte) = word_of_nat n"
    by (simp add: word_of_nat_eq_iff take_bit_eq_mod mod_mod_cancel)
  ultimately show ?thesis by (simp add: put_u32_def put_u16_def div_mult2_eq [symmetric])
qed

lemma get_u32_put:
  assumes "n < 4294967296"
  shows "get_u32 (pre @ put_u32 n @ post) (length pre) = Some n"
proof -
  have "n div 65536 < 65536" using assms by simp
  from get_u16_put [OF this, of pre "put_u16 (n mod 65536) @ post"]
    get_u16_put [of "n mod 65536" "pre @ put_u16 (n div 65536)" post]
  show ?thesis by (simp add: get_u32_def put_u32_u16)
qed

section \<open>Headers\<close>

lemma length_es_header:
  "length (es_header (n, v)) = 4 + length (utf8_encode n) + length (utf8_encode v)"
  by (simp add: es_header_def Let_def)

lemma subarray_middle: "subarray (a @ b @ c) (length a) (length a + length b) = b"
  by (simp add: subarray_def)

lemma subarray_prefix:
  assumes "b \<le> k" and "k \<le> length s"
  shows "subarray (take k s) a b = subarray s a b"
  using assms by (simp add: subarray_def)

lemma es_headers_step:
  assumes view: "view = pre @ es_header (n, v) @ post" and len: "length pre + length (es_header (n, v)) \<le> k"
    and k: "k \<le> length view" and "length pre < e"
    and small: "length (utf8_encode n) < 256" "length (utf8_encode v) < 65536"
  shows "es_headers view (take k view) e (length pre) acc =
    es_headers view (take k view) e (length pre + length (es_header (n, v))) (jm_set n v acc)"
proof -
  let ?n = "utf8_encode n" and ?v = "utf8_encode v"
  define p1 where "p1 = length pre + 1 + length ?n"
  have w: "view = pre @ word_of_nat (length ?n) # ?n @ 7 # put_u16 (length ?v) @ ?v @ post"
    by (simp add: view es_header_def Let_def)
  have a: "get_u8 view (length pre) = Some (length ?n)"
    using get_u8_nth [of pre "word_of_nat (length ?n)"] small(1) by (simp add: w unat_of_nat)
  have b: "get_u8 view p1 = Some 7"
    using get_u8_nth [of "pre @ word_of_nat (length ?n) # ?n" 7] by (simp add: w p1_def)
  have c: "get_u16 view (p1 + 1) = Some (length ?v)"
    using get_u16_put [OF small(2), of "pre @ word_of_nat (length ?n) # ?n @ [7]" "?v @ post"] by (simp add: w p1_def)
  have s1: "subarray view (length pre + 1) p1 = ?n"
    using subarray_middle [of "pre @ [word_of_nat (length ?n)]" ?n] by (simp add: w p1_def)
  define q where "q = pre @ word_of_nat (length ?n) # ?n @ 7 # put_u16 (length ?v)"
  have q: "length q = p1 + 3" "view = q @ ?v @ post" by (simp_all add: q_def w p1_def)
  have s2: "subarray view (p1 + 3) (p1 + 3 + length ?v) = ?v"
    using subarray_middle [of q ?v post] by (simp only: q)
  have e1: "p1 \<le> k" "p1 + 3 + length ?v \<le> k" using len by (simp_all add: length_es_header p1_def)
  have r: "subarray (take k view) (length pre + 1) p1 = ?n"
    "subarray (take k view) (p1 + 3) (p1 + 3 + length ?v) = ?v"
    using s1 s2 subarray_prefix [OF e1(1) k] subarray_prefix [OF e1(2) k] by simp_all
  have "length pre + length (es_header (n, v)) = p1 + 3 + length ?v" by (simp add: length_es_header p1_def)
  then show ?thesis
    using assms(4) by (subst es_headers.simps) (simp add: a p1_def [symmetric, simplified] b c [simplified] r [simplified] utf8_decode_encode Let_def)
qed


section \<open>Messages\<close>

definition es_entries :: "string \<Rightarrow> (string \<times> string) list" where
  "es_entries eventType =
     [('':message-type'', ''event''), ('':event-type'', eventType), ('':content-type'', ''application/json'')]"

definition es_size :: "string \<Rightarrow> jval \<Rightarrow> nat" where
  "es_size eventType payload =
     16 + length (concat (map es_header (es_entries eventType))) + length (utf8_encode (json_text payload))"

lemma encode_shape:
  obtains c1 c2 where "length c1 = 4" "length c2 = 4"
    "encodeBedrockEventStreamMessage t v =
       put_u32 (es_size t v) @ put_u32 (length (concat (map es_header (es_entries t)))) @ c1 @
       concat (map es_header (es_entries t)) @ utf8_encode (json_text v) @ c2"
proof -
  define h where "h = concat (map es_header (es_entries t))"
  define prelude where "prelude = put_u32 (es_size t v) @ put_u32 (length h)"
  define c1 where "c1 = put_u32 (unat (crc32 prelude))"
  define c2 where "c2 = put_u32 (unat (crc32 (prelude @ c1 @ h @ utf8_encode (json_text v))))"
  have z: "4 + 4 + 4 + length h + length (utf8_encode (json_text v)) + 4 = es_size t v"
    by (simp add: es_size_def h_def)
  have "encodeBedrockEventStreamMessage t v = prelude @ c1 @ h @ utf8_encode (json_text v) @ c2"
    unfolding encodeBedrockEventStreamMessage_def Let_def es_entries_def [symmetric] h_def [symmetric] z
      prelude_def [symmetric] c1_def [symmetric] c2_def [symmetric] by (simp add: append_assoc)
  then show thesis by (intro that [of c1 c2]) (simp_all add: c1_def c2_def h_def prelude_def)
qed

lemma length_encode: "length (encodeBedrockEventStreamMessage t v) = es_size t v"
proof -
  obtain c1 c2 where "length c1 = 4" "length c2 = 4" "encodeBedrockEventStreamMessage t v =
       put_u32 (es_size t v) @ put_u32 (length (concat (map es_header (es_entries t)))) @ c1 @
       concat (map es_header (es_entries t)) @ utf8_encode (json_text v) @ c2" by (rule encode_shape)
  then show ?thesis by (simp add: es_size_def)
qed

lemma es_headers_entries:
  assumes "view = pre @ concat (map es_header es) @ post" and "length pre + length (concat (map es_header es)) \<le> k"
    and "k \<le> length view" and "\<forall>(n, v) \<in> set es. length (utf8_encode n) < 256 \<and> length (utf8_encode v) < 65536"
  shows "es_headers view (take k view) (length pre + length (concat (map es_header es))) (length pre) acc =
    Some (foldl (\<lambda>m (n, v). jm_set n v m) acc es)"
  using assms
proof (induction es arbitrary: pre acc)
  case Nil
  then show ?case by (subst es_headers.simps) simp
next
  case (Cons e es)
  obtain n v where e: "e = (n, v)" by (cases e)
  let ?rest = "concat (map es_header es) @ post"
  have "es_headers view (take k view) (length pre + length (concat (map es_header (e # es)))) (length pre) acc =
     es_headers view (take k view) (length pre + length (concat (map es_header (e # es))))
       (length pre + length (es_header (n, v))) (jm_set n v acc)"
    by (rule es_headers_step [where post = ?rest]) (use Cons.prems in \<open>auto simp: e length_es_header\<close>)
  moreover have "es_headers view (take k view)
      (length (pre @ es_header (n, v)) + length (concat (map es_header es))) (length (pre @ es_header (n, v)))
      (jm_set n v acc) = Some (foldl (\<lambda>m (n, v). jm_set n v m) (jm_set n v acc) es)"
    by (rule Cons.IH) (use Cons.prems in \<open>auto simp: e\<close>)
  ultimately show ?case by (simp add: e ac_simps)
qed

lemma event_stream_decodes:
  assumes "length (utf8_encode t) < 65536" and "es_size t v \<le> 16777216"
  shows "decodeEventStreamMessageAt (encodeBedrockEventStreamMessage t v @ rest) =
    Es_Message \<lparr>em_headers = es_entries t, em_payload = utf8_encode (json_text v),
      em_rawBytes = encodeBedrockEventStreamMessage t v\<rparr> rest"
proof -
  let ?enc = "encodeBedrockEventStreamMessage t v" and ?p = "utf8_encode (json_text v)"
  define h where "h = concat (map es_header (es_entries t))"
  obtain c1 c2 where c: "length c1 = 4" "length c2 = 4"
    and enc: "?enc = put_u32 (es_size t v) @ put_u32 (length h) @ c1 @ h @ ?p @ c2"
    unfolding h_def by (rule encode_shape)
  have size: "es_size t v = 16 + length h + length ?p" by (simp add: es_size_def h_def)
  define view where "view = ?enc @ rest"
  have view: "view = (put_u32 (es_size t v) @ put_u32 (length h) @ c1) @ h @ ?p @ c2 @ rest"
    by (simp add: view_def enc)
  have len: "length view = es_size t v + length rest" by (simp add: view c size)
  have t0: "get_u32 view 0 = Some (es_size t v)"
    using get_u32_put [of "es_size t v" "[]"] assms(2) by (simp add: view)
  have t4: "get_u32 view 4 = Some (length h)"
    using get_u32_put [of "length h" "put_u32 (es_size t v)"] assms(2) size by (simp add: view)
  have raw: "subarray view 0 (es_size t v) = ?enc" "take (es_size t v) view = ?enc"
    by (simp_all add: subarray_def view_def length_encode [of t v])
  have "es_headers view (take (es_size t v) view) (length (put_u32 (es_size t v) @ put_u32 (length h) @ c1) + length h)
      (length (put_u32 (es_size t v) @ put_u32 (length h) @ c1)) [] =
    Some (foldl (\<lambda>m (n, v). jm_set n v m) [] (es_entries t))"
    unfolding h_def
    by (rule es_headers_entries) (use assms(1) view len size in \<open>auto simp: h_def c es_entries_def utf8_encode_def utf8_char_def\<close>)
  then have hs: "es_headers view ?enc (12 + length h) 12 [] = Some (es_entries t)"
    by (simp add: c raw es_entries_def)
  have "subarray ?enc (12 + length h) (es_size t v - 4) = ?p"
    by (simp add: subarray_def enc size c)
  then show ?thesis
    using hs t0 t4 raw len assms(2) size
    by (simp add: decodeEventStreamMessageAt_def view_def [symmetric] Let_def)
      (simp add: view_def length_encode)
qed

text \<open>C22: the decoder reads a message the SDK prints back as its event type and payload and stops exactly
  behind it, whatever bytes follow in the buffer, for every message within the decoder's limits
  (a 64 KiB event type, 16 MiB in all).\<close>

theorem event_stream_roundtrip:
  assumes "length (utf8_encode t) < 65536" and "es_size t v \<le> 16777216"
  shows "decodeEventStreamMessageAt (encodeBedrockEventStreamMessage t v @ rest) =
    Es_Message \<lparr>em_headers = es_entries t, em_payload = utf8_encode (json_text v),
      em_rawBytes = encodeBedrockEventStreamMessage t v\<rparr> rest"
  using assms by (rule event_stream_decodes)

theorem event_stream_roundtrip_witness:
  "decodeEventStreamMessageAt (encodeBedrockEventStreamMessage ''messageStop'' JNull @ [1, 2]) =
    Es_Message \<lparr>em_headers = es_entries ''messageStop'', em_payload = utf8_encode (json_text JNull),
      em_rawBytes = encodeBedrockEventStreamMessage ''messageStop'' JNull\<rparr> [1, 2]"
  by (rule event_stream_roundtrip)
    (simp_all add: es_size_def es_entries_def length_es_header utf8_encode_def utf8_char_def json_text_def)

text \<open>A part of a message, however cut, is kept for the next chunk.\<close>

lemma partial_message_waits:
  assumes "es_size t v \<le> 16777216" and "n < es_size t v"
  shows "decodeEventStreamMessageAt (take n (encodeBedrockEventStreamMessage t v)) = Es_Need_More"
proof (cases "n < 12")
  case False
  let ?enc = "encodeBedrockEventStreamMessage t v"
  obtain c1 c2 where c: "length c1 = 4" "length c2 = 4"
    and enc: "?enc = put_u32 (es_size t v) @ put_u32 (length (concat (map es_header (es_entries t)))) @ c1 @
       concat (map es_header (es_entries t)) @ utf8_encode (json_text v) @ c2" by (rule encode_shape)
  have big: "16 \<le> es_size t v" "length (concat (map es_header (es_entries t))) < 4294967296"
    using assms(1) by (simp_all add: es_size_def)
  obtain post where p: "take n ?enc = put_u32 (es_size t v) @ put_u32 (length (concat (map es_header (es_entries t)))) @ post"
    using False by (simp add: enc)
  have "get_u32 (take n ?enc) 0 = Some (es_size t v)"
    using get_u32_put [of "es_size t v" "[]"] assms(1) by (simp add: p)
  moreover have "get_u32 (take n ?enc) 4 = Some (length (concat (map es_header (es_entries t))))"
    using get_u32_put [OF big(2), of "put_u32 (es_size t v)"] by (simp add: p)
  ultimately show ?thesis using assms False big(1)
    by (simp add: decodeEventStreamMessageAt_def length_encode)
qed (simp add: decodeEventStreamMessageAt_def min_less_iff_disj)


section \<open>Base64\<close>

fun b64_values :: "byte list \<Rightarrow> nat list" where
  "b64_values (a # b # c # r) =
     [unat a div 4, unat a mod 4 * 16 + unat b div 16, unat b mod 16 * 4 + unat c div 64, unat c mod 64] @ b64_values r"
| "b64_values [a, b] = [unat a div 4, unat a mod 4 * 16 + unat b div 16, unat b mod 16 * 4]"
| "b64_values [a] = [unat a div 4, unat a mod 4 * 16]"
| "b64_values [] = []"

definition b64_pad :: "byte list \<Rightarrow> string" where
  "b64_pad bs = replicate ((3 - length bs mod 3) mod 3) (CHR ''='')"

lemma bytesToBase64_alt: "bytesToBase64 bs = map b64_char (b64_values bs) @ b64_pad bs"
proof (induction bs rule: bytesToBase64.induct)
  case (1 a b c r)
  have "b64_pad (a # b # c # r) = b64_pad r" by (simp add: b64_pad_def)
  with 1 show ?case by simp
qed (simp_all add: b64_pad_def numeral_2_eq_2)

lemma unat_byte: "unat (a :: byte) < 256"
  using unsigned_less [of a] by simp

lemma b64_values_small: "v \<in> set (b64_values bs) \<Longrightarrow> v < 64"
proof (induction bs rule: b64_values.induct)
  case (1 a b c r)
  have "unat a < 256" "unat b < 256" "unat c < 256" by (rule unat_byte)+
  with 1 show ?case by (auto simp: less_mult_imp_div_less)
next
  case (2 a b)
  have "unat a < 256" "unat b < 256" by (rule unat_byte)+
  with 2 show ?case by (auto simp: less_mult_imp_div_less)
next
  case (3 a)
  have "unat a < 256" by (rule unat_byte)+
  with 3 show ?case by (auto simp: less_mult_imp_div_less)
qed simp

lemma b64_groups_values: "b64_groups (b64_values bs) = Some bs"
proof (induction bs rule: b64_values.induct)
  case (1 a b c r)
  have "unat a < 256" "unat b < 256" "unat c < 256" by (rule unat_byte)+
  then have "unat b div 16 < 16" "unat c div 64 < 4" by simp_all
  then have "unat a div 4 * 4 + (unat a mod 4 * 16 + unat b div 16) div 16 = unat a"
    "(unat a mod 4 * 16 + unat b div 16) mod 16 * 16 + (unat b mod 16 * 4 + unat c div 64) div 4 = unat b"
    "(unat b mod 16 * 4 + unat c div 64) mod 4 * 64 + unat c mod 64 = unat c"
    by simp_all
  with 1 show ?case by (simp only: b64_values.simps append_Cons append_Nil b64_groups.simps) simp
next
  case (2 a b)
  have "unat b < 256" by (rule unat_byte)+
  then have "unat b div 16 < 16" by simp
  then have "unat a div 4 * 4 + (unat a mod 4 * 16 + unat b div 16) div 16 = unat a"
    "(unat a mod 4 * 16 + unat b div 16) mod 16 * 16 + unat b mod 16 * 4 div 4 = unat b" by simp_all
  then show ?case by (simp only: b64_values.simps b64_groups.simps) simp
next
  case (3 a)
  have "unat a div 4 * 4 + unat a mod 4 * 16 div 16 = unat a" by simp
  then show ?case by (simp only: b64_values.simps b64_groups.simps) simp
qed simp

lemma b64_value_char: "v < 64 \<Longrightarrow> b64_value (b64_char v) = Some v"
proof -
  assume "v < 64"
  then consider "v < 26" | "26 \<le> v" "v < 52" | "52 \<le> v" "v < 62" | "v = 62" | "v = 63" by linarith
  then show ?thesis by cases (simp_all add: b64_value_def b64_char_def Let_def, linarith)
qed

lemma b64_char_code: "v < 64 \<Longrightarrow> 43 \<le> (of_char (b64_char v) :: nat) \<and> (of_char (b64_char v) :: nat) \<noteq> 61"
proof -
  assume "v < 64"
  then consider "v < 26" | "26 \<le> v" "v < 52" | "52 \<le> v" "v < 62" | "v = 62" | "v = 63" by linarith
  then show ?thesis
  proof cases
    case 3
    then have "(of_char (b64_char v) :: nat) = v - 4" by (simp add: b64_char_def)
    then show ?thesis using 3 by linarith
  qed (simp_all add: b64_char_def)
qed

lemma b64_char_plain:
  assumes "v < 64"
  shows "b64_char v \<noteq> CHR ''=''" and "of_char (b64_char v) \<notin> {9, 10, 12, 13, 32 :: nat}"
  using b64_char_code [OF assms] by auto

lemma length_b64_values: "length (b64_values bs) + length (b64_pad bs) = 4 * ((length bs + 2) div 3)"
proof (induction bs rule: b64_values.induct)
  case (1 a b c r)
  have "b64_pad (a # b # c # r) = b64_pad r" by (simp add: b64_pad_def)
  moreover have "(5 + length r) div 3 = Suc ((2 + length r) div 3)" by presburger
  ultimately show ?case using 1 by simp
qed (simp_all add: b64_pad_def)

lemma b64_strip_encoded: "b64_strip (bytesToBase64 bs) = map b64_char (b64_values bs)"
proof -
  let ?m = "map b64_char (b64_values bs)"
  have plain: "c \<noteq> CHR ''=''" "of_char c \<notin> {9, 10, 12, 13, 32 :: nat}" if "c \<in> set ?m" for c
    using that b64_char_plain b64_values_small by auto
  have f: "filter (\<lambda>c. of_char c \<notin> {9, 10, 12, 13, 32 :: nat}) (bytesToBase64 bs) = bytesToBase64 bs"
    using plain(2) by (auto simp: filter_id_conv bytesToBase64_alt b64_pad_def)
  have four: "length (bytesToBase64 bs) mod 4 = 0"
    using length_b64_values [of bs] by (simp add: bytesToBase64_alt)
  have e: "\<not> js_endsWith ?m ''=''"
  proof
    assume "js_endsWith ?m ''=''"
    then obtain r where "?m = r @ ''=''" by (auto simp: js_endsWith_iff)
    then have "CHR ''='' \<in> set ?m" by simp
    with plain(1) show False by blast
  qed
  then have e2: "\<not> js_endsWith ?m ''==''" "\<not> js_endsWith (?m @ ''='') ''==''"
    by (auto simp: js_endsWith_iff)
  consider "b64_pad bs = []" | "b64_pad bs = ''=''" | "b64_pad bs = ''==''"
  proof -
    have "(3 - length bs mod 3) mod 3 \<in> {0, 1, 2}" by auto
    then show thesis using that by (auto simp: b64_pad_def numeral_2_eq_2)
  qed
  then show ?thesis
  proof cases
    case 1
    then show ?thesis using four f e e2 by (simp add: b64_strip_def bytesToBase64_alt Let_def)
  next
    case 2
    have "js_endsWith (?m @ ''='') ''=''" by (auto simp: js_endsWith_iff)
    with 2 show ?thesis using four f e2 by (simp add: b64_strip_def bytesToBase64_alt Let_def)
  next
    case 3
    have "js_endsWith (?m @ ''=='') ''==''" by (auto simp: js_endsWith_iff)
    with 3 show ?thesis using four f by (simp add: b64_strip_def bytesToBase64_alt Let_def)
  qed
qed

text \<open>\<^verbatim>\<open>atob(btoa(x))\<close>.\<close>

lemma base64_roundtrip: "base64ToBytes (bytesToBase64 bs) = Some bs"
proof -
  have "map b64_value (map b64_char (b64_values bs)) = map Some (b64_values bs)"
    using b64_values_small b64_value_char by auto
  moreover have "map the (map Some (b64_values bs)) = b64_values bs" by (simp add: o_def)
  ultimately show ?thesis
    by (simp add: base64ToBytes_def b64_strip_encoded b64_groups_values Let_def del: map_map)
qed

end
