(* ===== verification/Stream_Notices.thy ===== *)
theory Stream_Notices
  imports Stream_Safety Event_Stream_Properties
begin

text \<open>
  The notice the enforcer prints instead of a denied call is itself read back: the provider's own parser,
  and so the provider's client, sees the notice as assistant text and no tool call.
\<close>

section \<open>Printed integers are JSON numbers\<close>

lemma hex_digit_is_digit: "n < 10 \<Longrightarrow> is_digit (hex_digit n)"
  by (simp add: is_digit_def hex_digit_def)

lemma hex_digit_zero: "n < 10 \<Longrightarrow> hex_digit n = CHR ''0'' \<longleftrightarrow> n = 0"
  by (simp add: hex_digit_def char_eq_iff_code)

lemma nat_text_is_number:
  "list_all is_digit (nat_text n) \<and> nat_text n \<noteq> [] \<and> (hd (nat_text n) = CHR ''0'' \<longrightarrow> n = 0)"
proof (induction n rule: nat_text.induct)
  case (1 n)
  show ?case
  proof (cases "n < 10")
    case True
    then show ?thesis by (subst (1 2 3) nat_text.simps) (simp add: hex_digit_is_digit hex_digit_zero)
  next
    case False
    with 1 show ?thesis by (subst (1 2 3) nat_text.simps) (auto simp: hex_digit_is_digit)
  qed
qed

lemma nat_text_0: "nat_text 0 = ''0''"
  by (simp add: nat_text.simps hex_digit_def char_eq_iff_code)

lemma digit_text_number:
  assumes "list_all is_digit t" and "t \<noteq> []" and "hd t = CHR ''0'' \<longrightarrow> tl t = []"
  shows "json_number_text t" and "json_number_text (CHR ''-'' # t)"
proof -
  obtain c r where t: "t = c # r" using assms(2) by (cases t) auto
  have d: "takeWhile is_digit t = t" "dropWhile is_digit t = []" using assms(1) by (simp_all add: list_all_iff)
  have "c \<noteq> CHR ''-''" using assms(1) t by (auto simp: is_digit_def)
  then show "json_number_text t" "json_number_text (CHR ''-'' # t)"
    using d assms(3) by (simp_all add: json_number_text_def t Let_def)
qed

lemma int_text_valid: "json_valid (JNum (int_text n))"
proof -
  have z: "hd (nat_text k) = CHR ''0'' \<longrightarrow> tl (nat_text k) = []" for k
    using nat_text_is_number [of k] nat_text_0 by auto
  have c: "is_digit c \<Longrightarrow> is_num_char c" for c by (simp add: is_num_char_def)
  show ?thesis using nat_text_is_number digit_text_number z
    by (auto simp: int_text_def list_all_iff is_num_char_def)
qed

lemma index_valid: "json_valid (index_json i)"
  by (simp add: index_json_def int_text_valid del: json_valid.simps)

lemma index_is_number: "\<exists>t. index_json i = JNum t"
  by (simp add: index_json_def)

section \<open>One frame\<close>

definition one_line :: "string \<Rightarrow> bool" where
  "one_line s \<longleftrightarrow> CHR 0x0A \<notin> set s \<and> CHR 0x0D \<notin> set s"

lemma hex_digit_code: "n < 16 \<Longrightarrow> 32 \<le> (of_char (hex_digit n) :: nat)"
  by (simp add: hex_digit_def)

lemma quote_char_control: "c \<in> set (quote_char d) \<Longrightarrow> 32 \<le> (of_char c :: nat)"
proof -
  define n where "n = (of_char d :: nat)"
  have h: "n < 32 \<Longrightarrow> 32 \<le> (of_char (hex_digit (n div 16)) :: nat)" "32 \<le> (of_char (hex_digit (n mod 16)) :: nat)"
    by (rule hex_digit_code, simp)+
  assume "c \<in> set (quote_char d)"
  then have q: "c \<in> set (quote_char d)" .
  show ?thesis
  proof (cases "n < 32")
    case True
    with q h show ?thesis by (auto simp: quote_char_def n_def [symmetric] split: if_splits)
  next
    case False
    with q show ?thesis by (auto simp: quote_char_def n_def [symmetric] split: if_splits)
  qed
qed

lemma json_quote_control: "c \<in> set (json_quote s) \<Longrightarrow> 32 \<le> (of_char c :: nat)"
  by (auto simp: json_quote_def dest: quote_char_control)

lemma set_js_join: "c \<in> set (js_join '','' ts) \<Longrightarrow> c = CHR '','' \<or> (\<exists>t \<in> set ts. c \<in> set t)"
  by (induction "'',''" ts rule: js_join.induct) auto

lemma render_no_control: "json_valid v \<Longrightarrow> c \<in> set (render v) \<Longrightarrow> 32 \<le> (of_char c :: nat)"
proof (induction v arbitrary: c)
  case (JNum t)
  then show ?case by (auto simp: list_all_iff is_num_char_def is_digit_def)
next
  case (JStr s)
  then show ?case using json_quote_control by simp
next
  case (JArr vs)
  from JArr.prems(2) have "c \<in> set ''[]'' \<or> c \<in> set (js_join '','' (map render vs))" by auto
  then consider "c \<in> set ''[],''" | v where "v \<in> set vs" "c \<in> set (render v)"
    using set_js_join by fastforce
  then show ?case using JArr.IH JArr.prems(1) by cases (auto simp: list_all_iff)
next
  case (JObj kvs)
  from JObj.prems(2) have "c \<in> set ''{}'' \<or> c \<in> set (js_join '','' (map (\<lambda>(k, v). json_quote k @ '':'' @ render v) kvs))" by auto
  then consider "c \<in> set ''{},:''" | k v where "(k, v) \<in> set kvs" "c \<in> set (json_quote k) \<or> c \<in> set (render v)"
    using set_js_join by fastforce
  then show ?case
  proof cases
    case (2 k v)
    then show ?thesis using JObj.IH [of "(k, v)" v c] JObj.prems(1) json_quote_control
      by (fastforce simp: list_all_iff)
  qed auto
qed (auto split: if_splits)

lemma render_one_line: "json_valid v \<Longrightarrow> one_line (render v)"
  using render_no_control [of v "CHR 0x0A"] render_no_control [of v "CHR 0x0D"] by (auto simp: one_line_def)

lemma delim_len_other: "c \<noteq> CHR 0x0A \<Longrightarrow> c \<noteq> CHR 0x0D \<Longrightarrow> delim_len (c # s) = None"
  by (simp add: delim_len_def newline_len_def)

lemma next_frame_line:
  "one_line s \<Longrightarrow> next_frame (s @ CHR 0x0A # CHR 0x0A # r) = Some (s @ [CHR 0x0A, CHR 0x0A], r)"
proof (induction s)
  case Nil
  show ?case by (subst next_frame.simps) (simp add: delim_len_def newline_len_def)
next
  case (Cons c s)
  then have "delim_len (c # s @ CHR 0x0A # CHR 0x0A # r) = None"
    by (intro delim_len_other) (auto simp: one_line_def)
  with Cons show ?case by (subst next_frame.simps) (simp add: one_line_def)
qed

lemma next_frame_two_lines:
  assumes "one_line a" and "one_line b" and "b \<noteq> []"
  shows "next_frame (a @ CHR 0x0A # b @ CHR 0x0A # CHR 0x0A # r) = Some (a @ CHR 0x0A # b @ [CHR 0x0A, CHR 0x0A], r)"
  using assms(1)
proof (induction a)
  case Nil
  have "delim_len (CHR 0x0A # b @ CHR 0x0A # CHR 0x0A # r) = None"
    using assms(2,3) by (cases b) (auto simp: delim_len_def newline_len_def one_line_def split: list.splits)
  then show ?case by (subst next_frame.simps) (simp add: next_frame_line [OF assms(2)])
next
  case (Cons c a)
  then have "delim_len (c # a @ CHR 0x0A # b @ CHR 0x0A # CHR 0x0A # r) = None"
    by (intro delim_len_other) (auto simp: one_line_def)
  with Cons show ?case by (subst next_frame.simps) (simp add: one_line_def)
qed

lemma split_lines_line: "one_line l \<Longrightarrow> split_lines (l @ CHR 0x0A # r) = l # split_lines r"
proof (induction l)
  case (Cons c l)
  then show ?case by (cases "l @ CHR 0x0A # r") (auto simp: one_line_def)
qed simp

lemma js_trim_tight:
  assumes "t \<noteq> []" and "\<not> is_ws (hd t)" and "\<not> is_ws (last t)"
  shows "js_trim (CHR '' '' # t) = t"
proof -
  have "dropWhile is_ws t = t" using assms by (cases t) auto
  moreover have "dropWhile is_ws (rev t) = rev t" using assms by (cases t rule: rev_cases) auto
  ultimately show ?thesis by (simp add: js_trim_def is_ws_def)
qed

text \<open>An object's text starts and ends with a brace.\<close>

lemma object_tight: "js_trim (CHR '' '' # render (JObj kvs)) = render (JObj kvs)"
  by (rule js_trim_tight) (simp_all add: is_ws_def)

lemma json_text_render: "json_valid v \<Longrightarrow> json_text v = render v"
  by (simp add: json_text_def json_stringify_render json_valid_ok)

lemma parse_printed: "json_valid v \<Longrightarrow> json_parse (render v) = Some v"
  using json_parse_stringify [of v] json_stringify_render [OF json_valid_ok, of v] by simp

definition whole_frame :: "string \<Rightarrow> bool" where
  "whole_frame t \<longleftrightarrow> (\<forall>r. next_frame (t @ r) = Some (t, r))"

definition data_frame :: "jval \<Rightarrow> string" where
  "data_frame v = ''data: '' @ render v @ [CHR 0x0A, CHR 0x0A]"

definition event_frame :: "string \<Rightarrow> jval \<Rightarrow> string" where
  "event_frame n v = ''event: '' @ n @ CHR 0x0A # ''data: '' @ render v @ [CHR 0x0A, CHR 0x0A]"

definition plain_name :: "string \<Rightarrow> bool" where
  "plain_name n \<longleftrightarrow> one_line n \<and> n \<noteq> [] \<and> \<not> is_ws (hd n) \<and> \<not> is_ws (last n)"

lemma data_frame_fields:
  assumes "json_valid (JObj kvs)"
  shows "sse_data (split_lines (data_frame (JObj kvs))) = Some (render (JObj kvs))"
    and "whole_frame (data_frame (JObj kvs))"
proof -
  let ?t = "render (JObj kvs)"
  have one: "one_line (''data: '' @ ?t)" using render_one_line [OF assms] by (simp add: one_line_def)
  have "split_lines (data_frame (JObj kvs)) = [''data: '' @ ?t, [], []]"
    using split_lines_line [OF one, of "[CHR 0x0A]"] by (simp add: data_frame_def)
  then show "sse_data (split_lines (data_frame (JObj kvs))) = Some ?t"
    using object_tight [of kvs] by (simp add: sse_data_def js_startsWith_def del: render.simps)
  show "whole_frame (data_frame (JObj kvs))"
    using next_frame_line [OF one] by (simp add: whole_frame_def data_frame_def)
qed

lemma event_frame_fields:
  assumes "json_valid (JObj kvs)" and "plain_name n"
  shows "sse_data (split_lines (event_frame n (JObj kvs))) = Some (render (JObj kvs))"
    and "sse_event (split_lines (event_frame n (JObj kvs))) = Some n"
    and "whole_frame (event_frame n (JObj kvs))"
proof -
  let ?t = "render (JObj kvs)"
  have one: "one_line (''data: '' @ ?t)" "one_line (''event: '' @ n)"
    using render_one_line [OF assms(1)] assms(2) by (simp_all add: one_line_def plain_name_def)
  have s: "split_lines (event_frame n (JObj kvs)) = [''event: '' @ n, ''data: '' @ ?t, [], []]"
    using split_lines_line [OF one(2), of "''data: '' @ ?t @ [CHR 0x0A, CHR 0x0A]"]
      split_lines_line [OF one(1), of "[CHR 0x0A]"] by (simp add: event_frame_def del: render.simps)
  show "sse_data (split_lines (event_frame n (JObj kvs))) = Some ?t"
    using object_tight [of kvs] by (simp add: s sse_data_def js_startsWith_def del: render.simps)
  have "js_trim (CHR '' '' # n) = n" using assms(2) by (intro js_trim_tight) (simp_all add: plain_name_def)
  then show "sse_event (split_lines (event_frame n (JObj kvs))) = Some n"
    by (simp add: s sse_event_def js_startsWith_def del: render.simps)
  show "whole_frame (event_frame n (JObj kvs))"
    using next_frame_two_lines [OF one(2,1)] by (simp add: whole_frame_def event_frame_def del: render.simps)
qed


section \<open>A notice is read as text\<close>

lemma sse_frames_step:
  assumes "whole_frame t" and "pf p t = Some (e, p1)"
    and "sse_frames pf p1 r = Some (e', p2, left)"
  shows "sse_frames pf p (t @ r) = Some (e @ e', p2, left)"
  using assms by (subst sse_frames.simps) (simp add: whole_frame_def)

lemma sse_frames_empty: "sse_frames pf p [] = Some ([], p, [])"
  by (subst sse_frames.simps) (simp add: next_frame.simps delim_len_def newline_len_def)

lemma sse_run_text:
  assumes "sse_frames pf (sp_state s) t = Some (evs, p, [])" and "sp_buf s = []"
  shows "sse_run pf utf8_start s [utf8_encode t] = Some evs"
proof -
  have "utf8_stream utf8_start (utf8_encode t) = (t, if t = [] then utf8_start else utf8_start\<lparr>us_bomSeen := True\<rparr>)"
    by (rule utf8_stream_encode)
  then show ?thesis using assms
    by (simp add: sse_feed_def sse_flush_def sse_drain_def utf8_flush_def sse_frames_empty)
      (simp add: utf8_start_def)
qed

definition we_text :: "wire_event \<Rightarrow> string" where
  "we_text e = (case e of We_Text t f \<Rightarrow> t | _ \<Rightarrow> [])"

text \<open>No call starts, and the text is the notice.\<close>

definition reads_as :: "string \<Rightarrow> wire_event list \<Rightarrow> bool" where
  "reads_as notice evs \<longleftrightarrow> list_all (\<lambda>e. \<not> starts_call e) evs \<and> concat (map we_text evs) = notice"

lemma render_object_nonempty: "render (JObj kvs) \<noteq> [] \<and> render (JObj kvs) \<noteq> ''[DONE]''"
  by simp

lemma parse_data_frame:
  assumes "json_valid (JObj kvs)"
  shows "openai_parseFrame u (data_frame (JObj kvs)) =
      map_option (\<lambda>evs. (evs, u)) (openai_chunk (JObj kvs) (utf8_encode (data_frame (JObj kvs))))"
    and "gemini_parseFrame n (data_frame (JObj kvs)) = gemini_chunk n (JObj kvs) (utf8_encode (data_frame (JObj kvs)))"
  using data_frame_fields(1) [OF assms] parse_printed [OF assms] render_object_nonempty [of kvs]
  by (simp_all add: openai_parseFrame_def gemini_parseFrame_def del: render.simps)

lemma parse_event_frame:
  assumes "json_valid (JObj kvs)" and "plain_name n"
  shows "anthropic_parseFrame st (event_frame n (JObj kvs)) =
      mapAnthropicChunkObject (JObj kvs) (utf8_encode (event_frame n (JObj kvs))) st (Some n)"
    and "cohere_parseFrame u (event_frame n (JObj kvs)) =
      map_option (\<lambda>evs. (evs, u)) (cohere_chunk n (JObj kvs) (utf8_encode (event_frame n (JObj kvs))))"
  using event_frame_fields(1,2) [OF assms] parse_printed [OF assms(1)] render_object_nonempty [of kvs] assms(2)
  by (simp_all add: anthropic_parseFrame_def cohere_parseFrame_def plain_name_def del: render.simps)

lemma encode_frames:
  "json_valid (JObj kvs) \<Longrightarrow> encodeOpenAIDataFrame (JObj kvs) = utf8_encode (data_frame (JObj kvs))"
  "json_valid (JObj kvs) \<Longrightarrow> encodeGeminiDataFrame (JObj kvs) = utf8_encode (data_frame (JObj kvs))"
  "json_valid (JObj kvs) \<Longrightarrow> encodeAnthropicEventFrame n (JObj kvs) = utf8_encode (event_frame n (JObj kvs))"
  "json_valid (JObj kvs) \<Longrightarrow> encodeCohereEventFrame n (JObj kvs) = utf8_encode (event_frame n (JObj kvs))"
  by (simp_all add: encodeOpenAIDataFrame_def encodeGeminiDataFrame_def encodeAnthropicEventFrame_def
      encodeCohereEventFrame_def json_text_render data_frame_def event_frame_def del: render.simps)

lemmas value_readers = j_prop_def j_field_def j_array_def j_string_def j_nonempty_string_def j_truthy_def

lemma zero_text: "json_number_text ''0''" "is_num_char (CHR ''0'')"
  by code_simp+

lemma openai_notice_read:
  assumes "notice \<noteq> []"
  shows "\<exists>evs. parser_run utf8_start (newParserFor Sp_OpenAI) [concat (deny_frames Sp_OpenAI i notice)] = Some evs \<and>
    reads_as notice evs"
proof -
  obtain k1 k2 where n: "openai_notice notice = [JObj k1, JObj k2]"
    and k: "k1 = [(''choices'', JArr [JObj [(''index'', JNum ''0''),
        (''delta'', JObj [(''role'', JStr ''assistant''), (''content'', JStr notice)]), (''finish_reason'', JNull)]])]"
      "k2 = [(''choices'', JArr [JObj [(''index'', JNum ''0''), (''delta'', JObj []), (''finish_reason'', JStr ''stop'')]])]"
    by (simp add: openai_notice_def)
  have v: "json_valid (JObj k1)" "json_valid (JObj k2)" by (simp_all add: k zero_text)
  define done_frame where "done_frame = ''data: [DONE]'' @ [CHR 0x0A, CHR 0x0A]"
  have d: "whole_frame done_frame"
    using next_frame_line [of "''data: [DONE]''"] by (simp add: whole_frame_def done_frame_def one_line_def)
  have od: "OPENAI_DONE_FRAME = utf8_encode done_frame" by (simp add: OPENAI_DONE_FRAME_def done_frame_def)
  have pd: "openai_parseFrame () done_frame = Some ([We_Finish None (utf8_encode done_frame)], ())"
    by (simp add: openai_parseFrame_def done_frame_def sse_data_def js_startsWith_def js_trim_def is_ws_def)
  have p1: "openai_parseFrame () (data_frame (JObj k1)) = Some ([We_Text notice (utf8_encode (data_frame (JObj k1)))], ())"
    using assms by (simp add: parse_data_frame [OF v(1)] openai_chunk_def) (simp add: k value_readers)
  have p2: "openai_parseFrame () (data_frame (JObj k2)) = Some ([We_Finish (Some ''stop'') (utf8_encode (data_frame (JObj k2)))], ())"
    by (simp add: parse_data_frame [OF v(2)] openai_chunk_def) (simp add: k value_readers)
  have "sse_frames openai_parseFrame () (data_frame (JObj k1) @ data_frame (JObj k2) @ done_frame @ []) =
      Some ([We_Text notice (utf8_encode (data_frame (JObj k1)))] @ [We_Finish (Some ''stop'') (utf8_encode (data_frame (JObj k2)))] @
        [We_Finish None (utf8_encode done_frame)] @ [], (), [])"
    by (rule sse_frames_step [where pf = openai_parseFrame, OF data_frame_fields(2) [OF v(1)] p1], rule sse_frames_step [where pf = openai_parseFrame, OF data_frame_fields(2) [OF v(2)] p2],
        rule sse_frames_step [where pf = openai_parseFrame, OF d pd], rule sse_frames_empty)
  from sse_run_text [of openai_parseFrame "\<lparr>sp_buf = [], sp_state = ()\<rparr>"] this
  have "parser_run utf8_start (newParserFor Sp_OpenAI) [concat (deny_frames Sp_OpenAI i notice)] =
      Some [We_Text notice (utf8_encode (data_frame (JObj k1))), We_Finish (Some ''stop'') (utf8_encode (data_frame (JObj k2))),
        We_Finish None (utf8_encode done_frame)]"
    by (simp add: deny_frames_def n encode_frames v od parser_run_sse
        utf8_encode_append [symmetric] del: parser_run.simps sse_run.simps json_valid.simps)
  then show ?thesis by (simp add: reads_as_def starts_call_def we_text_def)
qed

lemma gemini_notice_read:
  assumes "notice \<noteq> []"
  shows "\<exists>evs. parser_run utf8_start (newParserFor Sp_Gemini) [concat (deny_frames Sp_Gemini i notice)] = Some evs \<and> reads_as notice evs"
proof -
  obtain k where n: "gemini_notice notice = JObj k" and k: "k = [(''candidates'', JArr [JObj [
     (''content'', JObj [(''role'', JStr ''model''), (''parts'', JArr [JObj [(''text'', JStr notice)]])]),
     (''finishReason'', JStr ''STOP''), (''index'', JNum ''0'')]])]"
    by (simp add: gemini_notice_def)
  have v: "json_valid (JObj k)" by (simp add: k zero_text)
  have p: "gemini_parseFrame 0 (data_frame (JObj k)) = Some ([We_Pass (utf8_encode (data_frame (JObj k))), We_Text notice [],
      We_Finish (Some ''STOP'') []], 0)"
    using assms by (simp add: parse_data_frame [OF v] gemini_chunk_def)
      (simp add: k value_readers gemini_part_def)
  have "sse_frames gemini_parseFrame 0 (data_frame (JObj k) @ []) =
      Some ([We_Pass (utf8_encode (data_frame (JObj k))), We_Text notice [], We_Finish (Some ''STOP'') []] @ [], 0, [])"
    by (rule sse_frames_step [where pf = gemini_parseFrame, OF data_frame_fields(2) [OF v] p], rule sse_frames_empty)
  from sse_run_text [of gemini_parseFrame "\<lparr>sp_buf = [], sp_state = 0\<rparr>"] this
  have "parser_run utf8_start (newParserFor Sp_Gemini) [concat (deny_frames Sp_Gemini i notice)] =
      Some [We_Pass (utf8_encode (data_frame (JObj k))), We_Text notice [], We_Finish (Some ''STOP'') []]"
    by (simp add: deny_frames_def n encode_frames v parser_run_sse del: parser_run.simps sse_run.simps json_valid.simps)
  then show ?thesis by (simp add: reads_as_def starts_call_def we_text_def)
qed

lemma anthropic_notice_read:
  "\<exists>evs. parser_run utf8_start (newParserFor Sp_Anthropic) [concat (deny_frames Sp_Anthropic i notice)] = Some evs \<and>
    reads_as notice evs"
proof -
  obtain t where ix: "index_json i = JNum t" using index_is_number by blast
  have iv: "json_valid (JNum t)" using index_valid [of i] ix by simp
  obtain k1 k2 k3 where n: "anthropic_notice i notice = [(''content_block_start'', JObj k1), (''content_block_delta'', JObj k2),
      (''content_block_stop'', JObj k3)]"
    and k: "k1 = [(''type'', JStr ''content_block_start''), (''index'', JNum t),
        (''content_block'', JObj [(''type'', JStr ''text''), (''text'', JStr [])])]"
      "k2 = [(''type'', JStr ''content_block_delta''), (''index'', JNum t),
        (''delta'', JObj [(''type'', JStr ''text_delta''), (''text'', JStr notice)])]"
      "k3 = [(''type'', JStr ''content_block_stop''), (''index'', JNum t)]"
    by (simp add: anthropic_notice_def ix)
  have v: "json_valid (JObj k1)" "json_valid (JObj k2)" "json_valid (JObj k3)" using iv by (simp_all add: k)
  have pn: "plain_name ''content_block_start''" "plain_name ''content_block_delta''" "plain_name ''content_block_stop''"
    by (simp_all add: plain_name_def one_line_def is_ws_def)
  let ?f1 = "event_frame ''content_block_start'' (JObj k1)" and ?f2 = "event_frame ''content_block_delta'' (JObj k2)"
  let ?f3 = "event_frame ''content_block_stop'' (JObj k3)"
  have p1: "anthropic_parseFrame [] ?f1 = Some ([We_Pass (utf8_encode ?f1)], [])"
    by (simp add: parse_event_frame [OF v(1) pn(1)] mapAnthropicChunkObject_def pass_def) (simp add: k value_readers)
  have p2: "anthropic_parseFrame [] ?f2 = Some ([We_Text notice (utf8_encode ?f2)], [])"
    by (simp add: parse_event_frame [OF v(2) pn(2)] mapAnthropicChunkObject_def pass_def) (simp add: k value_readers)
  have p3: "anthropic_parseFrame [] ?f3 = Some ([We_Pass (utf8_encode ?f3)], [])"
    by (simp add: parse_event_frame [OF v(3) pn(3)] mapAnthropicChunkObject_def pass_def) (simp add: k value_readers)
  have "sse_frames anthropic_parseFrame [] (?f1 @ ?f2 @ ?f3 @ []) =
      Some ([We_Pass (utf8_encode ?f1)] @ [We_Text notice (utf8_encode ?f2)] @ [We_Pass (utf8_encode ?f3)] @ [], [], [])"
    by (rule sse_frames_step [where pf = anthropic_parseFrame, OF event_frame_fields(3) [OF v(1) pn(1)] p1], rule sse_frames_step [where pf = anthropic_parseFrame, OF event_frame_fields(3) [OF v(2) pn(2)] p2],
        rule sse_frames_step [where pf = anthropic_parseFrame, OF event_frame_fields(3) [OF v(3) pn(3)] p3], rule sse_frames_empty)
  from sse_run_text [of anthropic_parseFrame "\<lparr>sp_buf = [], sp_state = []\<rparr>"] this
  have "parser_run utf8_start (newParserFor Sp_Anthropic) [concat (deny_frames Sp_Anthropic i notice)] =
      Some [We_Pass (utf8_encode ?f1), We_Text notice (utf8_encode ?f2), We_Pass (utf8_encode ?f3)]"
    by (simp add: deny_frames_def n encode_frames v parser_run_sse utf8_encode_append [symmetric]
        del: parser_run.simps sse_run.simps json_valid.simps)
  then show ?thesis by (simp add: reads_as_def starts_call_def we_text_def)
qed

lemma cohere_notice_read:
  assumes "notice \<noteq> []"
  shows "\<exists>evs. parser_run utf8_start (newParserFor Sp_Cohere) [concat (deny_frames Sp_Cohere i notice)] = Some evs \<and>
    reads_as notice evs"
proof -
  obtain t where ix: "index_json i = JNum t" using index_is_number by blast
  have iv: "json_valid (JNum t)" using index_valid [of i] ix by simp
  obtain k1 k2 k3 k4 where n: "cohere_notice i notice = [(''content-start'', JObj k1), (''content-delta'', JObj k2),
      (''content-end'', JObj k3), (''message-end'', JObj k4)]"
    and k: "k1 = [(''index'', JNum t), (''delta'', JObj [(''message'',
        JObj [(''content'', JObj [(''type'', JStr ''text''), (''text'', JStr [])])])])]"
      "k2 = [(''index'', JNum t), (''delta'', JObj [(''message'', JObj [(''content'', JObj [(''text'', JStr notice)])])])]"
      "k3 = [(''index'', JNum t)]" "k4 = [(''delta'', JObj [(''finish_reason'', JStr ''COMPLETE'')])]"
    by (simp add: cohere_notice_def ix)
  have v: "json_valid (JObj k1)" "json_valid (JObj k2)" "json_valid (JObj k3)" "json_valid (JObj k4)"
    using iv by (simp_all add: k)
  have pn: "plain_name ''content-start''" "plain_name ''content-delta''" "plain_name ''content-end''" "plain_name ''message-end''"
    by (simp_all add: plain_name_def one_line_def is_ws_def)
  let ?f1 = "event_frame ''content-start'' (JObj k1)" and ?f2 = "event_frame ''content-delta'' (JObj k2)"
  let ?f3 = "event_frame ''content-end'' (JObj k3)" and ?f4 = "event_frame ''message-end'' (JObj k4)"
  have p1: "cohere_parseFrame () ?f1 = Some ([We_Pass (utf8_encode ?f1)], ())"
    by (simp add: parse_event_frame [OF v(1) pn(1)] cohere_chunk_def pass_def) (simp add: k value_readers)
  have p2: "cohere_parseFrame () ?f2 = Some ([We_Text notice (utf8_encode ?f2)], ())"
    using assms by (simp add: parse_event_frame [OF v(2) pn(2)] cohere_chunk_def pass_def) (simp add: k value_readers)
  have p3: "cohere_parseFrame () ?f3 = Some ([We_Pass (utf8_encode ?f3)], ())"
    by (simp add: parse_event_frame [OF v(3) pn(3)] cohere_chunk_def pass_def) (simp add: k value_readers)
  have p4: "cohere_parseFrame () ?f4 = Some ([We_Finish (Some ''COMPLETE'') (utf8_encode ?f4)], ())"
    by (simp add: parse_event_frame [OF v(4) pn(4)] cohere_chunk_def pass_def) (simp add: k value_readers)
  note step = sse_frames_step [where pf = cohere_parseFrame]
  have "sse_frames cohere_parseFrame () (?f1 @ ?f2 @ ?f3 @ ?f4 @ []) =
      Some ([We_Pass (utf8_encode ?f1)] @ [We_Text notice (utf8_encode ?f2)] @ [We_Pass (utf8_encode ?f3)] @
        [We_Finish (Some ''COMPLETE'') (utf8_encode ?f4)] @ [], (), [])"
    by (rule step [OF event_frame_fields(3) [OF v(1) pn(1)] p1], rule step [OF event_frame_fields(3) [OF v(2) pn(2)] p2],
        rule step [OF event_frame_fields(3) [OF v(3) pn(3)] p3], rule step [OF event_frame_fields(3) [OF v(4) pn(4)] p4],
        rule sse_frames_empty)
  from sse_run_text [of cohere_parseFrame "\<lparr>sp_buf = [], sp_state = ()\<rparr>"] this
  have "parser_run utf8_start (newParserFor Sp_Cohere) [concat (deny_frames Sp_Cohere i notice)] =
      Some [We_Pass (utf8_encode ?f1), We_Text notice (utf8_encode ?f2), We_Pass (utf8_encode ?f3),
        We_Finish (Some ''COMPLETE'') (utf8_encode ?f4)]"
    by (simp add: deny_frames_def n encode_frames v parser_run_sse utf8_encode_append [symmetric]
        del: parser_run.simps sse_run.simps json_valid.simps)
  then show ?thesis by (simp add: reads_as_def starts_call_def we_text_def)
qed

section \<open>Binary notices\<close>

lemma es_drain_step:
  assumes "length (utf8_encode t) < 65536" and "es_size t v \<le> 16777216"
    and "mapMessage p \<lparr>em_headers = es_entries t, em_payload = utf8_encode (json_text v),
      em_rawBytes = encodeBedrockEventStreamMessage t v\<rparr> = Some (e, p1)"
    and "es_drain mapMessage p1 r = Some (e', p2, left)"
  shows "es_drain mapMessage p (encodeBedrockEventStreamMessage t v @ r) = Some (e @ e', p2, left)"
  by (subst es_drain.simps) (simp add: event_stream_decodes [OF assms(1,2)] assms(3,4))

lemma es_drain_empty: "es_drain mapMessage p [] = Some ([], p, [])"
  by (subst es_drain.simps) (simp add: decodeEventStreamMessageAt_def)

lemma event_type_entry: "jm_get (es_entries t) '':event-type'' = Some t"
  by (simp add: es_entries_def)

lemma printed_payload: "json_valid v \<Longrightarrow> json_parse (utf8_decode (utf8_encode (json_text v))) = Some v"
  by (simp add: utf8_decode_encode json_text_render parse_printed)

lemma short_names:
  "length (utf8_encode ''contentBlockDelta'') < 65536" "length (utf8_encode ''contentBlockStop'') < 65536"
  "length (utf8_encode ''messageStop'') < 65536" "length (utf8_encode ''chunk'') < 65536"
  by (simp_all add: utf8_encode_def utf8_char_def)

lemma converse_notice_read:
  assumes "\<forall>f \<in> set (deny_frames Sp_Bedrock_Converse i notice). length f \<le> 16777216"
  shows "\<exists>evs. parser_run utf8_start (newParserFor Sp_Bedrock_Converse) [concat (deny_frames Sp_Bedrock_Converse i notice)] = Some evs \<and>
    reads_as notice evs"
proof -
  obtain t where ix: "index_json i = JNum t" using index_is_number by blast
  have iv: "json_valid (JNum t)" using index_valid [of i] ix by simp
  obtain k1 k2 k3 where n: "converse_notice i notice = [(''contentBlockDelta'', JObj k1), (''contentBlockStop'', JObj k2),
      (''messageStop'', JObj k3)]"
    and k: "k1 = [(''contentBlockIndex'', JNum t), (''delta'', JObj [(''text'', JStr notice)])]"
      "k2 = [(''contentBlockIndex'', JNum t)]" "k3 = [(''stopReason'', JStr ''end_turn'')]"
    by (simp add: converse_notice_def ix)
  have v: "json_valid (JObj k1)" "json_valid (JObj k2)" "json_valid (JObj k3)" using iv by (simp_all add: k)
  let ?f1 = "encodeBedrockEventStreamMessage ''contentBlockDelta'' (JObj k1)"
  let ?f2 = "encodeBedrockEventStreamMessage ''contentBlockStop'' (JObj k2)"
  let ?f3 = "encodeBedrockEventStreamMessage ''messageStop'' (JObj k3)"
  have frames: "deny_frames Sp_Bedrock_Converse i notice = [?f1, ?f2, ?f3]" by (simp add: deny_frames_def n)
  have sz: "es_size ''contentBlockDelta'' (JObj k1) \<le> 16777216" "es_size ''contentBlockStop'' (JObj k2) \<le> 16777216"
    "es_size ''messageStop'' (JObj k3) \<le> 16777216"
    using assms unfolding frames by (simp_all add: length_encode)
  let ?m = "\<lambda>t v. \<lparr>em_headers = es_entries t, em_payload = utf8_encode (json_text v),
      em_rawBytes = encodeBedrockEventStreamMessage t v\<rparr>"
  have m1: "converse_mapMessage [] (?m ''contentBlockDelta'' (JObj k1)) = Some ([We_Text notice ?f1], [])"
    by (simp add: converse_mapMessage_def event_type_entry printed_payload [OF v(1)]) (simp add: k value_readers)
  have m2: "converse_mapMessage [] (?m ''contentBlockStop'' (JObj k2)) = Some ([We_Pass ?f2], [])"
    by (simp add: converse_mapMessage_def event_type_entry printed_payload [OF v(2)] pass_def) (simp add: k value_readers)
  have m3: "converse_mapMessage [] (?m ''messageStop'' (JObj k3)) = Some ([We_Finish (Some ''end_turn'') ?f3], [])"
    by (simp add: converse_mapMessage_def event_type_entry printed_payload [OF v(3)]) (simp add: k value_readers)
  note step = es_drain_step [where mapMessage = converse_mapMessage]
    and last_step = es_drain_empty [where mapMessage = converse_mapMessage]
  have "es_drain converse_mapMessage [] (?f1 @ ?f2 @ ?f3 @ []) =
      Some ([We_Text notice ?f1] @ [We_Pass ?f2] @ [We_Finish (Some ''end_turn'') ?f3] @ [], [], [])"
    by (rule step [OF short_names(1) sz(1) m1 step [OF short_names(2) sz(2) m2 step [OF short_names(3) sz(3) m3 last_step]]])
  then have "parser_run utf8_start (newParserFor Sp_Bedrock_Converse) [concat (deny_frames Sp_Bedrock_Converse i notice)] =
      Some [We_Text notice ?f1, We_Pass ?f2, We_Finish (Some ''end_turn'') ?f3]"
    by (simp add: frames mapped_def es_feed_def es_flush_def es_drain_empty)
  then show ?thesis by (simp add: reads_as_def starts_call_def we_text_def)
qed

lemma invoke_chunk_read:
  assumes "json_valid (JObj kvs)"
  shows "invoke_mapMessage st \<lparr>em_headers = es_entries ''chunk'',
      em_payload = utf8_encode (json_text (JObj [(''bytes'', JStr (bytesToBase64 (utf8_encode (json_text (JObj kvs)))))])),
      em_rawBytes = raw\<rparr> = mapAnthropicChunkObject (JObj kvs) raw st None"
proof -
  have "json_valid (JObj [(''bytes'', JStr s)])" for s by simp
  then show ?thesis
    by (simp add: invoke_mapMessage_def event_type_entry printed_payload base64_roundtrip printed_payload [OF assms]
        j_prop_def j_string_def del: json_valid.simps)
qed

lemma invoke_notice_read:
  assumes "\<forall>f \<in> set (deny_frames Sp_Bedrock_Invoke i notice). length f \<le> 16777216"
  shows "\<exists>evs. parser_run utf8_start (newParserFor Sp_Bedrock_Invoke) [concat (deny_frames Sp_Bedrock_Invoke i notice)] = Some evs \<and>
    reads_as notice evs"
proof -
  obtain t where ix: "index_json i = JNum t" using index_is_number by blast
  have iv: "json_valid (JNum t)" using index_valid [of i] ix by simp
  obtain k1 k2 k3 where n: "map snd (anthropic_notice i notice) = [JObj k1, JObj k2, JObj k3]"
    and k: "k1 = [(''type'', JStr ''content_block_start''), (''index'', JNum t),
        (''content_block'', JObj [(''type'', JStr ''text''), (''text'', JStr [])])]"
      "k2 = [(''type'', JStr ''content_block_delta''), (''index'', JNum t),
        (''delta'', JObj [(''type'', JStr ''text_delta''), (''text'', JStr notice)])]"
      "k3 = [(''type'', JStr ''content_block_stop''), (''index'', JNum t)]"
    by (simp add: anthropic_notice_def ix)
  have v: "json_valid (JObj k1)" "json_valid (JObj k2)" "json_valid (JObj k3)" using iv by (simp_all add: k)
  have "deny_frames Sp_Bedrock_Invoke i notice = map encodeBedrockInvokeChunk (map snd (anthropic_notice i notice))"
    by (simp add: deny_frames_def case_prod_unfold)
  then have frames: "deny_frames Sp_Bedrock_Invoke i notice =
      [encodeBedrockInvokeChunk (JObj k1), encodeBedrockInvokeChunk (JObj k2), encodeBedrockInvokeChunk (JObj k3)]"
    unfolding n by simp
  have sz: "es_size ''chunk'' (JObj [(''bytes'', JStr (bytesToBase64 (utf8_encode (json_text (JObj k)))))]) \<le> 16777216"
    if "k \<in> {k1, k2, k3}" for k
    using assms that unfolding frames by (auto simp: length_encode encodeBedrockInvokeChunk_def)
  let ?c = "\<lambda>v. JObj [(''bytes'', JStr (bytesToBase64 (utf8_encode (json_text v))))]"
  let ?m = "\<lambda>v. \<lparr>em_headers = es_entries ''chunk'', em_payload = utf8_encode (json_text (?c v)),
      em_rawBytes = encodeBedrockEventStreamMessage ''chunk'' (?c v)\<rparr>"
  let ?f = encodeBedrockInvokeChunk
  have m1: "invoke_mapMessage [] (?m (JObj k1)) = Some ([We_Pass (?f (JObj k1))], [])"
    by (simp add: invoke_chunk_read [OF v(1)] mapAnthropicChunkObject_def pass_def encodeBedrockInvokeChunk_def)
      (simp add: k value_readers)
  have m2: "invoke_mapMessage [] (?m (JObj k2)) = Some ([We_Text notice (?f (JObj k2))], [])"
    by (simp add: invoke_chunk_read [OF v(2)] mapAnthropicChunkObject_def pass_def encodeBedrockInvokeChunk_def)
      (simp add: k value_readers)
  have m3: "invoke_mapMessage [] (?m (JObj k3)) = Some ([We_Pass (?f (JObj k3))], [])"
    by (simp add: invoke_chunk_read [OF v(3)] mapAnthropicChunkObject_def pass_def encodeBedrockInvokeChunk_def)
      (simp add: k value_readers)
  note step = es_drain_step [where mapMessage = invoke_mapMessage and t = "''chunk''" and v = "?c v" for v,
        folded encodeBedrockInvokeChunk_def, OF short_names(4)]
    and last_step = es_drain_empty [where mapMessage = invoke_mapMessage]
  have "es_drain invoke_mapMessage [] (?f (JObj k1) @ ?f (JObj k2) @ ?f (JObj k3) @ []) =
      Some ([We_Pass (?f (JObj k1))] @ [We_Text notice (?f (JObj k2))] @ [We_Pass (?f (JObj k3))] @ [], [], [])"
    by (rule step [OF _ m1 [folded encodeBedrockInvokeChunk_def] step [OF _ m2 [folded encodeBedrockInvokeChunk_def]
        step [OF _ m3 [folded encodeBedrockInvokeChunk_def] last_step]]]) (rule sz, simp)+
  then have "parser_run utf8_start (newParserFor Sp_Bedrock_Invoke) [concat (deny_frames Sp_Bedrock_Invoke i notice)] =
      Some [We_Pass (encodeBedrockInvokeChunk (JObj k1)), We_Text notice (encodeBedrockInvokeChunk (JObj k2)),
        We_Pass (encodeBedrockInvokeChunk (JObj k3))]"
    by (simp add: frames mapped_def es_feed_def es_flush_def es_drain_empty)
  then show ?thesis by (simp add: reads_as_def starts_call_def we_text_def)
qed

lemma notice_is_read:
  assumes "notice \<noteq> []" and "\<forall>f \<in> set (deny_frames provider i notice). length f \<le> 16777216"
  shows "\<exists>evs. parser_run utf8_start (newParserFor provider) [concat (deny_frames provider i notice)] = Some evs \<and>
    reads_as notice evs"
proof (cases provider)
  case Sp_OpenAI
  show ?thesis unfolding Sp_OpenAI by (rule openai_notice_read [OF assms(1)])
next
  case Sp_Anthropic
  show ?thesis unfolding Sp_Anthropic by (rule anthropic_notice_read)
next
  case Sp_Cohere
  show ?thesis unfolding Sp_Cohere by (rule cohere_notice_read [OF assms(1)])
next
  case Sp_Gemini
  show ?thesis unfolding Sp_Gemini by (rule gemini_notice_read [OF assms(1)])
next
  case Sp_Bedrock_Converse
  show ?thesis unfolding Sp_Bedrock_Converse by (rule converse_notice_read [OF assms(2) [unfolded Sp_Bedrock_Converse]])
next
  case Sp_Bedrock_Invoke
  show ?thesis unfolding Sp_Bedrock_Invoke by (rule invoke_notice_read [OF assms(2) [unfolded Sp_Bedrock_Invoke]])
qed

lemma length_utf8_encode: "length (utf8_encode t) \<le> 4 * length t"
  by (induction t) (auto simp: utf8_encode_def utf8_char_def Let_def)

lemma length_json_quote: "length (json_quote s) \<le> 2 + 6 * length s"
proof -
  have q: "length (quote_char c) \<le> 6" for c by (simp add: quote_char_def Let_def)
  have "length (concat (map quote_char s)) \<le> 6 * length s"
  proof (induction s)
    case (Cons c s)
    then show ?case using q [of c] by simp
  qed simp
  then show ?thesis by (simp add: json_quote_def)
qed

text \<open>C20: what the enforcer prints in place of a denied call is read by the provider's parser as exactly the notice's
  text and no tool call, for every provider: the printed frames, parsed again, start no call and
  their text is the notice. (The binary protocols limit a frame to 16 MiB.)\<close>

theorem notice_reads_as_text:
  assumes "notice \<noteq> []" and "\<forall>f \<in> set (deny_frames provider i notice). length f \<le> 16777216"
  shows "\<exists>evs. parser_run utf8_start (newParserFor provider) [concat (deny_frames provider i notice)] = Some evs \<and>
    list_all (\<lambda>e. \<not> starts_call e) evs \<and> concat (map we_text evs) = notice"
  using notice_is_read [OF assms] by (simp only: reads_as_def)

theorem notice_reads_as_text_witness:
  "\<exists>evs. parser_run utf8_start (newParserFor Sp_Gemini) [concat (deny_frames Sp_Gemini 0 ''no'')] = Some evs \<and>
    list_all (\<lambda>e. \<not> starts_call e) evs \<and> concat (map we_text evs) = ''no''"
proof (rule notice_reads_as_text)
  let ?n = "gemini_notice ''no''"
  have "json_text ?n = render ?n" by (rule json_text_render) (simp add: gemini_notice_def zero_text)
  moreover have "length (render ?n) \<le> 1000"
    using length_json_quote [of "''candidates''"] length_json_quote [of "''content''"] length_json_quote [of "''role''"]
      length_json_quote [of "''model''"] length_json_quote [of "''parts''"] length_json_quote [of "''text''"]
      length_json_quote [of "''no''"] length_json_quote [of "''finishReason''"] length_json_quote [of "''STOP''"]
      length_json_quote [of "''index''"] by (simp add: gemini_notice_def)
  ultimately show "\<forall>f \<in> set (deny_frames Sp_Gemini 0 ''no''). length f \<le> 16777216"
    using length_utf8_encode [of "''data: '' @ render ?n @ [CHR 0x0A, CHR 0x0A]"]
    by (simp add: deny_frames_def encodeGeminiDataFrame_def)
qed simp

end
