(* ===== verification/Stream_Samples.thy ===== *)
theory Stream_Samples
  imports Stream_Notices
begin

text \<open>
  Sample streams: frames of an OpenAI stream with a tool call, printed and read back, which the theories on
  streams evaluate their models on; and the streaming enforcer on such a stream.
\<close>

section \<open>Frames of a tool call\<close>

definition bom_passed :: utf8_state where
  "bom_passed = utf8_start\<lparr>us_bomSeen := True\<rparr>"

lemma stream_after_bom: "utf8_stream bom_passed (utf8_encode s) = (s, bom_passed)"
proof -
  have p: "utf8_points utf8_start (utf8_encode s) = (map of_char s, utf8_start)"
    by (rule utf8_points_encode [OF utf8_start_idle])
  have "map point_char (map of_char s) = s" by (induction s) (simp_all add: point_char_def)
  then show ?thesis using p utf8_points_set_bom [of True utf8_start "utf8_encode s"]
    by (cases s) (simp_all add: utf8_stream_def bom_passed_def utf8_bom_def)
qed

text \<open>Texts the OpenAI parser reads frame by frame.\<close>

lemma openai_frames:
  assumes "list_all2 (\<lambda>t es. whole_frame t \<and> openai_parseFrame () t = Some (es, ())) ts ess"
  shows "sse_frames openai_parseFrame () (concat ts) = Some (concat ess, (), [])"
  using assms
proof (induction rule: list_all2_induct)
  case Nil
  show ?case by (simp add: sse_frames_empty)
next
  case (Cons t ts es ess)
  then show ?case using sse_frames_step [of t openai_parseFrame "()" es "()" "concat ts" "concat ess" "()" "[]"] by simp
qed

lemma openai_chunk_read:
  assumes "list_all2 (\<lambda>t es. whole_frame t \<and> openai_parseFrame () t = Some (es, ())) ts ess" and "d = utf8_start \<and> concat ts \<noteq> [] \<or> d = bom_passed"
  shows "parser_feed d (newParserFor Sp_OpenAI) (utf8_encode (concat ts)) = (Some (concat ess, newParserFor Sp_OpenAI), bom_passed)"
proof -
  have "utf8_stream d (utf8_encode (concat ts)) = (concat ts, bom_passed)"
    using assms(2) stream_after_bom utf8_stream_encode [of "concat ts"] by (auto simp: bom_passed_def)
  then show ?thesis using openai_frames [OF assms(1)] by (simp add: mapped_def sse_feed_def sse_drain_def)
qed

definition delta_frame :: "(string \<times> jval) list \<Rightarrow> (string \<times> jval) list \<Rightarrow> jval" where
  "delta_frame d xs = JObj [(''choices'', JArr [JObj ((''delta'', JObj d) # xs)])]"

definition start_frame :: jval where
  "start_frame = delta_frame [(''tool_calls'', JArr [JObj [(''id'', JStr ''a''), (''function'', JObj [(''name'', JStr ''f'')])]])] []"

definition args_frame :: jval where
  "args_frame = delta_frame [(''tool_calls'', JArr [JObj [(''function'', JObj [(''arguments'', JStr ''{}'')])]])] []"

definition finish_frame :: jval where
  "finish_frame = delta_frame [] [(''finish_reason'', JStr ''tool_calls'')]"

definition text_frame :: "string \<Rightarrow> jval" where
  "text_frame t = delta_frame [(''content'', JStr t)] []"

lemmas sample_frame_defs = start_frame_def args_frame_def finish_frame_def text_frame_def delta_frame_def

lemma frames_valid: "json_valid start_frame" "json_valid args_frame" "json_valid finish_frame" "json_valid (text_frame t)"
  by (simp_all add: sample_frame_defs)

lemma frames_read:
  "openai_parseFrame () (data_frame start_frame) = Some ([We_Start 0 (Some ''a'') (Some ''f'') (encodeOpenAIDataFrame start_frame)], ())"
  "openai_parseFrame () (data_frame args_frame) = Some ([We_Args 0 ''{}'' (encodeOpenAIDataFrame args_frame)], ())"
  "openai_parseFrame () (data_frame finish_frame) = Some ([We_Finish (Some ''tool_calls'') (encodeOpenAIDataFrame finish_frame)], ())"
  "t \<noteq> [] \<Longrightarrow> openai_parseFrame () (data_frame (text_frame t)) = Some ([We_Text t (encodeOpenAIDataFrame (text_frame t))], ())"
  "openai_parseFrame () (''data: [DONE]'' @ [CHR 0x0A, CHR 0x0A]) = Some ([We_Finish None OPENAI_DONE_FRAME], ())"
  using frames_valid frames_valid(4) [of t]
  by (simp_all add: sample_frame_defs parse_data_frame encode_frames openai_chunk_def
      value_readers index_of_def j_number_def del: json_valid.simps render.simps)
    (simp add: openai_parseFrame_def sse_data_def js_startsWith_def js_trim_def is_ws_def OPENAI_DONE_FRAME_def)

lemma frames_whole:
  "whole_frame (data_frame start_frame)" "whole_frame (data_frame args_frame)" "whole_frame (data_frame finish_frame)"
  "whole_frame (data_frame (text_frame t))" "whole_frame (''data: [DONE]'' @ [CHR 0x0A, CHR 0x0A])"
  using frames_valid frames_valid(4) [of t] next_frame_line [of "''data: [DONE]''"]
  by (simp_all add: sample_frame_defs data_frame_fields(2) whole_frame_def one_line_def del: json_valid.simps)
    (simp_all add: sample_frame_defs data_frame_fields(2) [unfolded whole_frame_def] del: json_valid.simps)

lemma frame_nonempty: "encodeOpenAIDataFrame v \<noteq> []" "OPENAI_DONE_FRAME \<noteq> []"
  by (simp_all add: encodeOpenAIDataFrame_def OPENAI_DONE_FRAME_def)

definition call_chunk :: "byte list" where
  "call_chunk = utf8_encode (concat [data_frame start_frame, data_frame args_frame, data_frame finish_frame])"

lemma call_chunk_read:
  "parser_feed utf8_start (newParserFor Sp_OpenAI) call_chunk =
     (Some ([We_Start 0 (Some ''a'') (Some ''f'') (encodeOpenAIDataFrame start_frame),
        We_Args 0 ''{}'' (encodeOpenAIDataFrame args_frame), We_Finish (Some ''tool_calls'') (encodeOpenAIDataFrame finish_frame)],
        newParserFor Sp_OpenAI), bom_passed)"
proof -
  have "concat [data_frame start_frame, data_frame args_frame, data_frame finish_frame] \<noteq> []" by (simp add: data_frame_def)
  then show ?thesis unfolding call_chunk_def
    by (subst openai_chunk_read [where ess = "[[We_Start 0 (Some ''a'') (Some ''f'') (encodeOpenAIDataFrame start_frame)],
        [We_Args 0 ''{}'' (encodeOpenAIDataFrame args_frame)], [We_Finish (Some ''tool_calls'') (encodeOpenAIDataFrame finish_frame)]]"])
      (simp_all add: frames_read frames_whole)
qed

lemma nothing_left: "fst (parser_flush bom_passed (newParserFor Sp_OpenAI)) = Some ([], newParserFor Sp_OpenAI)"
  by (simp add: mapped_def sse_flush_def sse_drain_def utf8_flush_def sse_frames_empty bom_passed_def utf8_start_def)

definition chat_match :: host_match where
  "chat_match = \<lparr>hm_provider = Some Prov_OpenAI, hm_shape = Some Shape_OpenAI_Chat\<rparr>"

lemma asked_allow:
  "safeEvalStream fd (\<lambda>k n a. Some (bare_evaluation Dec_Allow 0)) k n ''{}'' = (bare_evaluation Dec_Allow 0, Suc k)"
  by (simp add: safeEvalStream_def safeParse_def isPartialJson_def) code_simp

definition allow_all :: answers where
  "allow_all = (\<lambda>k n a. Some (bare_evaluation Dec_Allow 0))"

definition call_events :: "wire_event list" where
  "call_events = [We_Start 0 (Some ''a'') (Some ''f'') (encodeOpenAIDataFrame start_frame),
     We_Args 0 ''{}'' (encodeOpenAIDataFrame args_frame), We_Finish (Some ''tool_calls'') (encodeOpenAIDataFrame finish_frame)]"

section \<open>The enforcer on a stream with a call\<close>

lemma call_stream_read: "parser_run utf8_start (newParserFor Sp_OpenAI) [call_chunk] = Some call_events"
proof -
  have "fst (parser_feed utf8_start (newParserFor Sp_OpenAI) call_chunk) = Some (call_events, newParserFor Sp_OpenAI)"
    "snd (parser_feed utf8_start (newParserFor Sp_OpenAI) call_chunk) = bom_passed"
    by (simp_all add: call_chunk_read call_events_def del: newParserFor.simps)
  then show ?thesis using nothing_left by (simp del: newParserFor.simps parser_feed.simps)
qed

lemma call_stream_output:
  "createStreamingEnforcer chat_match = Some s \<Longrightarrow> enforcer_run True allow_all utf8_start s [call_chunk] =
     Some [encodeOpenAIDataFrame start_frame, encodeOpenAIDataFrame args_frame, encodeOpenAIDataFrame finish_frame]"
  using asked_allow [of True 0 "''f''"]
  by (auto simp: createStreamingEnforcer_def chat_match_def enforcer_run_events call_stream_read enforcer_output_def call_events_def
      onEvent_def frame_if_any_def frame_nonempty resolve_rest_def flushTool_def allow_all_def bare_evaluation_def Let_def
      simp del: newParserFor.simps enforcer_run.simps parser_run.simps)

theorem streamed_calls_need_allow_witness:
  "\<exists>s frames. createStreamingEnforcer chat_match = Some s \<and> enforcer_run True allow_all utf8_start s [call_chunk] = Some frames \<and>
     encodeOpenAIDataFrame args_frame \<in> set frames \<and>
     parser_run utf8_start (en_parser s) [call_chunk] = Some call_events \<and>
     call_of 0 (take 2 call_events) = Some \<lparr>ta_name = ''f'', ta_args = ''{}'',
       ta_bufferedFrames = [encodeOpenAIDataFrame start_frame, encodeOpenAIDataFrame args_frame]\<rparr> \<and>
     frame_source True allow_all Sp_OpenAI call_events (encodeOpenAIDataFrame args_frame)"
proof -
  obtain s where s: "createStreamingEnforcer chat_match = Some s" "en_provider s = Sp_OpenAI" "en_parser s = newParserFor Sp_OpenAI"
    by (simp add: createStreamingEnforcer_def chat_match_def)
  note run = call_stream_output [OF s(1)]
  have "call_of 0 (take 2 call_events) = Some \<lparr>ta_name = ''f'', ta_args = ''{}'',
      ta_bufferedFrames = [encodeOpenAIDataFrame start_frame, encodeOpenAIDataFrame args_frame]\<rparr>"
    by (simp add: call_of_def call_events_def call_step_def frame_if_any_def frame_nonempty)
  moreover have "frame_source True allow_all Sp_OpenAI call_events (encodeOpenAIDataFrame args_frame)"
    using streamed_calls_need_allow [OF s(1) run, of "encodeOpenAIDataFrame args_frame"] by (simp add: s call_stream_read del: newParserFor.simps parser_run.simps)
  ultimately show ?thesis using s run call_stream_read by auto
qed

end
