(* ===== verification/Node_Stream.thy ===== *)
theory Node_Stream
  imports Stream_Safety
begin

text \<open>
  \<open>wrapStreaming\<close> of \<^verbatim>\<open>instrumentation/node-http-interceptor.ts\<close>: the streaming enforcement of the \<^verbatim>\<open>node:http\<close> plane.
  Unlike the shared enforcer it is driven by events: each \<^verbatim>\<open>data\<close> event of the response, and its \<^verbatim>\<open>end\<close>, starts
  an asynchronous handler, and nothing makes one handler wait for another. A handler is cut at its awaits; what is left
  of it is a task, and any task may be the next to run. The accumulator of a call is an object that several handlers
  may hold, so it has an address. A \<^verbatim>\<open>Set\<close> is iterated while others change it: its entries are kept in order of
  insertion, and \<^verbatim>\<open>clear\<close> empties them where they stand.
\<close>

section \<open>A parser that has thrown\<close>

text \<open>\<open>feed\<close> in \<^verbatim>\<open>instrumentation/wire-parsers.ts\<close>: what it leaves behind when it throws. A text parser has cut the frame off
  its buffer; a binary one keeps the bytes of all messages, although those before have been mapped.\<close>

function sse_fault :: "'p frame_parser \<Rightarrow> ('p \<Rightarrow> string \<Rightarrow> 'p) \<Rightarrow> 'p \<Rightarrow> string \<Rightarrow> 'p \<times> string" where
  "sse_fault pf after p buf =
     (case next_frame buf of
        None \<Rightarrow> (p, buf)
      | Some (raw, rest) \<Rightarrow>
          (case pf p raw of
             None \<Rightarrow> (after p raw, rest)
           | Some (evs, p1) \<Rightarrow> sse_fault pf after p1 rest))"
  by auto
termination by (relation "measure (\<lambda>(_, _, _, buf). length buf)") (auto dest: next_frame_shorter)

declare sse_fault.simps [simp del]

function es_fault :: "'p message_mapper \<Rightarrow> 'p \<Rightarrow> byte list \<Rightarrow> 'p" where
  "es_fault mapMessage p acc =
     (case decodeEventStreamMessageAt acc of
        Es_Message m rest \<Rightarrow> (case mapMessage p m of None \<Rightarrow> p | Some (evs, p1) \<Rightarrow> es_fault mapMessage p1 rest)
      | _ \<Rightarrow> p)"
  by auto
termination by (relation "measure (\<lambda>(_, _, acc). length acc)") (auto dest: decoded_shorter)

declare es_fault.simps [simp del]

text \<open>Gemini counts the calls of the parts before the one that throws.\<close>

fun gemini_parts_fault :: "nat \<Rightarrow> jval list \<Rightarrow> nat" where
  "gemini_parts_fault n [] = n"
| "gemini_parts_fault n (p # ps) =
     (case gemini_part [] n p of None \<Rightarrow> n | Some (evs, m) \<Rightarrow> gemini_parts_fault m ps)"

definition gemini_fault :: "nat \<Rightarrow> string \<Rightarrow> nat" where
  "gemini_fault n rawFrame =
     (case Option.bind (sse_data (split_lines rawFrame)) json_parse of
        None \<Rightarrow> n
      | Some json \<Rightarrow> (case j_array (j_field json ''candidates'') of
          Some (cand # _) \<Rightarrow> (case j_array (j_field (j_field cand ''content'') ''parts'') of
              Some ps \<Rightarrow> gemini_parts_fault n ps | None \<Rightarrow> n)
        | _ \<Rightarrow> n))"

definition sse_left :: "'p frame_parser \<Rightarrow> ('p \<Rightarrow> string \<Rightarrow> 'p) \<Rightarrow> utf8_state \<Rightarrow> 'p sse_parser \<Rightarrow> byte list \<Rightarrow> 'p sse_parser" where
  "sse_left pf after d s b =
     (case sse_fault pf after (sp_state s) (sp_buf s @ fst (utf8_stream d b)) of
        (p, left) \<Rightarrow> s\<lparr>sp_buf := left, sp_state := p\<rparr>)"

definition es_left :: "'p message_mapper \<Rightarrow> 'p es_parser \<Rightarrow> byte list \<Rightarrow> 'p es_parser" where
  "es_left mapMessage s b = s\<lparr>ep_acc := ep_acc s @ b, ep_state := es_fault mapMessage (ep_state s) (ep_acc s @ b)\<rparr>"

fun parser_fault :: "utf8_state \<Rightarrow> stream_parser \<Rightarrow> byte list \<Rightarrow> stream_parser" where
  "parser_fault d (Ps_OpenAI p) b = Ps_OpenAI (sse_left openai_parseFrame (\<lambda>q raw. q) d p b)"
| "parser_fault d (Ps_Anthropic p) b = Ps_Anthropic (sse_left anthropic_parseFrame (\<lambda>q raw. q) d p b)"
| "parser_fault d (Ps_Cohere p) b = Ps_Cohere (sse_left cohere_parseFrame (\<lambda>q raw. q) d p b)"
| "parser_fault d (Ps_Gemini p) b = Ps_Gemini (sse_left gemini_parseFrame gemini_fault d p b)"
| "parser_fault d (Ps_Converse p) b = Ps_Converse (es_left converse_mapMessage p b)"
| "parser_fault d (Ps_Invoke p) b = Ps_Invoke (es_left invoke_mapMessage p b)"

text \<open>The events, \<^const>\<open>None\<close> when \<open>feed\<close> throws, and the parser afterwards.\<close>

definition feed_parser :: "utf8_state \<Rightarrow> stream_parser \<Rightarrow> byte list \<Rightarrow> wire_event list option \<times> stream_parser" where
  "feed_parser d p b = (case fst (parser_feed d p b) of
     Some (evs, p') \<Rightarrow> (Some evs, p') | None \<Rightarrow> (None, parser_fault d p b))"

section \<open>Handlers and tasks\<close>

datatype handler = On_Data | On_End

text \<open>The two loops over the calls in flight: that of a \<^verbatim>\<open>finish\<close> event, with whether it has flushed a denied call, the
  frame of the event and the handler's events after it; and that at the end.\<close>

datatype call_loop = Finish_Loop bool "byte list" handler "wire_event list" | End_Loop

text \<open>A handler before its next event, or one that waits for the verdict on the call of an index, the accumulator it holds,
  and the iterator's position.\<close>

datatype node_task =
    Tk_Events handler "wire_event list"
  | Tk_Verdict rat nat evaluation nat call_loop

text \<open>The last component is not in the program: the events handled so far, in the order in which they were.\<close>

record node_stream =
  ns_provider :: stream_provider
  ns_parser :: stream_parser
  ns_objects :: "tool_acc list"
  ns_accs :: "(rat, nat) jsmap"
  ns_inFlight :: "rat option list"
  ns_terminal :: bool
  ns_asked :: nat
  ns_out :: "byte list list"
  ns_ended :: bool
  ns_failed :: bool
  ns_tasks :: "node_task list"
  ns_handled :: "wire_event list"

definition node_stream_new :: "host_match \<Rightarrow> node_stream" where
  "node_stream_new m =
     (let provider = (case streamProviderForShape (hm_shape m) of Some p \<Rightarrow> p | None \<Rightarrow> Sp_OpenAI) in
      \<lparr>ns_provider = provider, ns_parser = newParserFor provider, ns_objects = [], ns_accs = [], ns_inFlight = [],
       ns_terminal = False, ns_asked = 0, ns_out = [], ns_ended = False, ns_failed = False, ns_tasks = [], ns_handled = []\<rparr>)"

text \<open>\<^verbatim>\<open>out.write\<close>: an empty chunk is nothing; a write after the end destroys the stream.\<close>

definition node_write :: "byte list list \<Rightarrow> node_stream \<Rightarrow> node_stream" where
  "node_write frames s =
     (if frames = [] then s
      else if ns_ended s then s\<lparr>ns_failed := True\<rparr>
      else s\<lparr>ns_out := ns_out s @ filter (\<lambda>f. f \<noteq> []) frames\<rparr>)"

definition acc_at :: "node_stream \<Rightarrow> rat \<Rightarrow> tool_acc option" where
  "acc_at s i = map_option (\<lambda>a. ns_objects s ! a) (jm_get (ns_accs s) i)"

definition node_await :: "node_task \<Rightarrow> node_stream \<Rightarrow> node_stream" where
  "node_await t s = s\<lparr>ns_tasks := ns_tasks s @ [t]\<rparr>"

text \<open>From an entry on: the next index in flight with its accumulator, and the position after it.\<close>

fun next_call :: "(rat, nat) jsmap \<Rightarrow> rat option list \<Rightarrow> nat \<Rightarrow> (rat \<times> nat \<times> nat) option" where
  "next_call accs [] pos = None"
| "next_call accs (entry # entries) pos =
     (case Option.bind entry (\<lambda>i. map_option (Pair i) (jm_get accs i)) of
        None \<Rightarrow> next_call accs entries (Suc pos)
      | Some (i, a) \<Rightarrow> Some (i, a, Suc pos))"

definition loop_done :: "call_loop \<Rightarrow> node_stream \<Rightarrow> node_stream" where
  "loop_done l s = (case l of
     End_Loop \<Rightarrow> s\<lparr>ns_ended := True\<rparr>
   | Finish_Loop anyDeny frame h rest \<Rightarrow>
       (let s1 = s\<lparr>ns_inFlight := map (\<lambda>_. None) (ns_inFlight s)\<rparr>;
            s2 = (if anyDeny then s1\<lparr>ns_terminal := True\<rparr> else if ns_terminal s then s1 else node_write [frame] s1)
        in node_await (Tk_Events h rest) s2))"

text \<open>The loop up to the verdict it waits for, or to its end.\<close>

definition loop_on :: "bool \<Rightarrow> answers \<Rightarrow> nat \<Rightarrow> call_loop \<Rightarrow> node_stream \<Rightarrow> node_stream" where
  "loop_on fd ev pos l s =
     (case next_call (ns_accs s) (drop pos (ns_inFlight s)) pos of
        None \<Rightarrow> loop_done l s
      | Some (i, a, pos') \<Rightarrow>
          (case safeEvalStream fd ev (ns_asked s) (ta_name (ns_objects s ! a)) (ta_args (ns_objects s ! a)) of
             (verdict, asked) \<Rightarrow> node_await (Tk_Verdict i a verdict pos' l) (s\<lparr>ns_asked := asked\<rparr>)))"

definition entry_add :: "rat \<Rightarrow> rat option list \<Rightarrow> rat option list" where
  "entry_add i entries = (if Some i \<in> set entries then entries else entries @ [Some i])"

text \<open>What an event does to the accumulators.\<close>

definition extend_acc :: "rat \<Rightarrow> (tool_acc \<Rightarrow> tool_acc) \<Rightarrow> node_stream \<Rightarrow> node_stream" where
  "extend_acc i g s = (case jm_get (ns_accs s) i of
     None \<Rightarrow> s | Some a \<Rightarrow> s\<lparr>ns_objects := (ns_objects s)[a := g (ns_objects s ! a)]\<rparr>)"

definition note_event :: "wire_event \<Rightarrow> node_stream \<Rightarrow> node_stream" where
  "note_event e s = (case e of
     We_Start i d n f \<Rightarrow>
       s\<lparr>ns_objects := ns_objects s @ [\<lparr>ta_name = (case n of Some x \<Rightarrow> x | None \<Rightarrow> []), ta_args = [],
            ta_bufferedFrames = frame_if_any f\<rparr>],
         ns_accs := jm_set i (length (ns_objects s)) (ns_accs s), ns_inFlight := entry_add i (ns_inFlight s)\<rparr>
   | We_Args i a f \<Rightarrow> extend_acc i (\<lambda>c. c\<lparr>ta_args := ta_args c @ a, ta_bufferedFrames := ta_bufferedFrames c @ frame_if_any f\<rparr>) s
   | We_End i f \<Rightarrow> extend_acc i (\<lambda>c. c\<lparr>ta_bufferedFrames := ta_bufferedFrames c @ frame_if_any f\<rparr>) s
   | _ \<Rightarrow> s)"

text \<open>\<open>onEvent\<close>, up to its first await, and the handler's loop around it.\<close>

definition node_onEvent :: "bool \<Rightarrow> answers \<Rightarrow> handler \<Rightarrow> wire_event \<Rightarrow> wire_event list \<Rightarrow> node_stream \<Rightarrow> node_stream" where
  "node_onEvent fd ev h e rest s0 =
     (let s = (note_event e s0)\<lparr>ns_handled := ns_handled s0 @ [e]\<rparr>; more = node_await (Tk_Events h rest) in
      case e of
        We_Text t f \<Rightarrow> more (node_write [f] s)
      | We_Pass f \<Rightarrow> more (node_write [f] s)
      | We_Start i d n f \<Rightarrow> more s
      | We_Args i a f \<Rightarrow> more (if jm_has (ns_accs s) i then s else node_write [f] s)
      | We_End i f \<Rightarrow> more (if jm_has (ns_accs s) i then s else node_write [f] s)
      | We_Finish r f \<Rightarrow> loop_on fd ev 0 (Finish_Loop False f h rest) s)"

definition run_handler :: "bool \<Rightarrow> answers \<Rightarrow> handler \<Rightarrow> wire_event list \<Rightarrow> node_stream \<Rightarrow> node_stream" where
  "run_handler fd ev h evs s = (case evs of
     e # rest \<Rightarrow> node_onEvent fd ev h e rest s
   | [] \<Rightarrow> (case h of On_Data \<Rightarrow> s | On_End \<Rightarrow> loop_on fd ev 0 End_Loop s))"

definition loop_denied :: "bool \<Rightarrow> call_loop \<Rightarrow> call_loop" where
  "loop_denied denied l = (case l of
     Finish_Loop anyDeny f h rest \<Rightarrow> Finish_Loop (anyDeny \<or> denied) f h rest | End_Loop \<Rightarrow> End_Loop)"

definition run_task :: "bool \<Rightarrow> answers \<Rightarrow> node_task \<Rightarrow> node_stream \<Rightarrow> node_stream" where
  "run_task fd ev t s = (case t of
     Tk_Events h evs \<Rightarrow> run_handler fd ev h evs s
   | Tk_Verdict i a verdict pos l \<Rightarrow>
       loop_on fd ev pos (loop_denied (te_decision verdict \<noteq> Dec_Allow) l)
         (node_write (flushTool (ns_provider s) i (ns_objects s ! a) verdict) s))"

text \<open>A \<^verbatim>\<open>data\<close> event, the \<^verbatim>\<open>end\<close> event (each with the module's text decoder as it is then), and a task that goes on.\<close>

datatype node_event = Node_Data utf8_state "byte list" | Node_End utf8_state | Node_Resume nat

definition node_step :: "bool \<Rightarrow> answers \<Rightarrow> node_stream \<Rightarrow> node_event \<Rightarrow> node_stream" where
  "node_step fd ev s e = (case e of
     Node_Data d chunk \<Rightarrow>
       (case feed_parser d (ns_parser s) chunk of
          (None, p) \<Rightarrow> node_write [chunk] (s\<lparr>ns_parser := p\<rparr>)
        | (Some evs, p) \<Rightarrow> run_handler fd ev On_Data evs (s\<lparr>ns_parser := p\<rparr>))
   | Node_End d \<Rightarrow>
       (case fst (parser_flush d (ns_parser s)) of
          None \<Rightarrow> s\<lparr>ns_ended := True\<rparr>
        | Some (evs, p) \<Rightarrow> run_handler fd ev On_End evs (s\<lparr>ns_parser := p\<rparr>))
   | Node_Resume n \<Rightarrow>
       if n < length (ns_tasks s)
       then run_task fd ev (ns_tasks s ! n) (s\<lparr>ns_tasks := take n (ns_tasks s) @ drop (Suc n) (ns_tasks s)\<rparr>)
       else s)"

definition node_run :: "bool \<Rightarrow> answers \<Rightarrow> host_match \<Rightarrow> node_event list \<Rightarrow> node_stream" where
  "node_run fd ev m = foldl (node_step fd ev) (node_stream_new m)"

section \<open>The calls behind the accumulators\<close>

text \<open>At some moment of the stream, index \<open>i\<close> stood for this call.\<close>

definition was_call :: "wire_event list \<Rightarrow> rat \<Rightarrow> tool_acc \<Rightarrow> bool" where
  "was_call handled i acc \<longleftrightarrow> (\<exists>before after. handled = before @ after \<and> call_of i before = Some acc)"

text \<open>The same call, with what was appended to it since.\<close>

definition grows :: "tool_acc \<Rightarrow> tool_acc \<Rightarrow> bool" where
  "grows acc0 acc \<longleftrightarrow> ta_name acc = ta_name acc0 \<and> prefix (ta_args acc0) (ta_args acc) \<and>
     prefix (ta_bufferedFrames acc0) (ta_bufferedFrames acc)"

definition node_source :: "bool \<Rightarrow> answers \<Rightarrow> stream_provider \<Rightarrow> wire_event list \<Rightarrow> byte list \<Rightarrow> bool" where
  "node_source fd ev provider handled f \<longleftrightarrow>
     (\<exists>before e rest. handled = before @ e # rest \<and> f = we_frame e \<and> outside_calls before e) \<or>
     (\<exists>i acc0 acc. was_call handled i acc0 \<and> was_call handled i acc \<and> grows acc0 acc \<and> allowed fd ev acc0 \<and>
        f \<in> set (ta_bufferedFrames acc)) \<or>
     (\<exists>i acc. was_call handled i acc \<and> notice_frame provider i acc f)"

definition loop_ok :: "wire_event list \<Rightarrow> call_loop \<Rightarrow> bool" where
  "loop_ok handled l \<longleftrightarrow> (case l of
     Finish_Loop anyDeny f h rest \<Rightarrow> \<exists>before r after. handled = before @ We_Finish r f # after | End_Loop \<Rightarrow> True)"

definition task_ok :: "bool \<Rightarrow> answers \<Rightarrow> node_stream \<Rightarrow> node_task \<Rightarrow> bool" where
  "task_ok fd ev s t \<longleftrightarrow> (case t of
     Tk_Events h evs \<Rightarrow> True
   | Tk_Verdict i a v pos l \<Rightarrow>
       loop_ok (ns_handled s) l \<and> a < length (ns_objects s) \<and> was_call (ns_handled s) i (ns_objects s ! a) \<and>
       (\<forall>j. jm_get (ns_accs s) j = Some a \<longrightarrow> j = i) \<and>
       (te_decision v = Dec_Allow \<longrightarrow>
          (\<exists>acc0. was_call (ns_handled s) i acc0 \<and> allowed fd ev acc0 \<and> grows acc0 (ns_objects s ! a))))"

text \<open>Every accumulator in use is the call its index stands for, and no two indices share one.\<close>

definition accs_ok :: "node_stream \<Rightarrow> bool" where
  "accs_ok s \<longleftrightarrow> jm_ok (ns_accs s) \<and> (\<forall>i. acc_at s i = call_of i (ns_handled s)) \<and>
     (\<forall>i a. jm_get (ns_accs s) i = Some a \<longrightarrow> a < length (ns_objects s) \<and>
        (\<forall>j. jm_get (ns_accs s) j = Some a \<longrightarrow> j = i))"

definition ns_inv :: "byte list set \<Rightarrow> bool \<Rightarrow> answers \<Rightarrow> node_stream \<Rightarrow> bool" where
  "ns_inv raw fd ev s \<longleftrightarrow> accs_ok s \<and> (\<forall>t \<in> set (ns_tasks s). task_ok fd ev s t) \<and>
     (\<forall>f \<in> set (ns_out s). f \<in> raw \<or> node_source fd ev (ns_provider s) (ns_handled s) f)"

lemma was_call_later: "was_call h i acc \<Longrightarrow> was_call (h @ later) i acc"
  unfolding was_call_def by (metis append.assoc)

lemma was_call_now: "call_of i h = Some acc \<Longrightarrow> was_call h i acc"
  unfolding was_call_def by (metis append_Nil2)

lemma loop_ok_later: "loop_ok h l \<Longrightarrow> loop_ok (h @ later) l"
  by (cases l) (fastforce simp: loop_ok_def)+

lemma node_source_later:
  assumes "node_source fd ev provider h f"
  shows "node_source fd ev provider (h @ later) f"
proof -
  from assms consider before e rest where "h = before @ e # rest" "f = we_frame e" "outside_calls before e"
    | i acc0 acc where "was_call h i acc0" "was_call h i acc" "grows acc0 acc" "allowed fd ev acc0" "f \<in> set (ta_bufferedFrames acc)"
    | i acc where "was_call h i acc" "notice_frame provider i acc f"
    unfolding node_source_def by blast
  then show ?thesis
  proof cases
    case (1 before e rest)
    then have "h @ later = before @ e # rest @ later" by simp
    with 1 show ?thesis unfolding node_source_def by blast
  next
    case (2 i acc0 acc)
    then show ?thesis unfolding node_source_def using was_call_later by blast
  next
    case (3 i acc)
    then show ?thesis unfolding node_source_def using was_call_later by blast
  qed
qed

lemma grows_refl: "grows acc acc"
  by (simp add: grows_def)

lemma grows_trans: "grows a b \<Longrightarrow> grows b c \<Longrightarrow> grows a c"
  by (auto simp: grows_def prefix_def)

lemma call_of_snoc: "call_of i (h @ [e]) = call_step i (call_of i h) e"
  by (simp add: call_of_def)

lemma node_write_frame [simp]:
  "ns_handled (node_write fs s) = ns_handled s" "ns_objects (node_write fs s) = ns_objects s"
  "ns_accs (node_write fs s) = ns_accs s" "ns_tasks (node_write fs s) = ns_tasks s"
  "ns_provider (node_write fs s) = ns_provider s" "ns_inFlight (node_write fs s) = ns_inFlight s"
  "ns_asked (node_write fs s) = ns_asked s" "ns_terminal (node_write fs s) = ns_terminal s"
  by (simp_all add: node_write_def)

lemma note_event_frame [simp]:
  "ns_handled (note_event e s) = ns_handled s" "ns_tasks (note_event e s) = ns_tasks s"
  "ns_provider (note_event e s) = ns_provider s" "ns_out (note_event e s) = ns_out s"
  "ns_asked (note_event e s) = ns_asked s" "ns_terminal (note_event e s) = ns_terminal s" "ns_ended (note_event e s) = ns_ended s"
  by (auto simp: note_event_def extend_acc_def split: wire_event.splits option.splits)

lemma note_event_handled: "note_event e (s\<lparr>ns_handled := h\<rparr>) = (note_event e s)\<lparr>ns_handled := h\<rparr>"
  by (auto simp: note_event_def extend_acc_def split: wire_event.splits option.splits)

lemma nth_updated: "a < length xs \<Longrightarrow> xs[b := x] ! a = (if b = a then x else xs ! a)"
  by auto

lemma accs_ok_note:
  assumes "accs_ok s"
  shows "accs_ok ((note_event e s)\<lparr>ns_handled := ns_handled s @ [e]\<rparr>)"
proof -
  let ?s = "(note_event e s)\<lparr>ns_handled := ns_handled s @ [e]\<rparr>"
  have ok: "jm_ok (ns_accs s)" "acc_at s i = call_of i (ns_handled s)"
      "jm_get (ns_accs s) i = Some a \<Longrightarrow> a < length (ns_objects s)"
      "jm_get (ns_accs s) i = Some a \<Longrightarrow> jm_get (ns_accs s) j = Some a \<Longrightarrow> j = i" for i j a
    using assms unfolding accs_ok_def by blast+
  have "acc_at ?s i = call_step i (acc_at s i) e" for i
  proof (cases "jm_get (ns_accs s) i")
    case None
    then show ?thesis by (cases e) (auto simp: note_event_def extend_acc_def acc_at_def call_step_def jm_simps split: option.splits)
  next
    case (Some a)
    have a: "a < length (ns_objects s)" using ok(3) [OF Some] .
    have other: "jm_get (ns_accs s) j = Some b \<Longrightarrow> j \<noteq> i \<Longrightarrow> b \<noteq> a" for j b using ok(4) [OF Some, of j] by auto
    show ?thesis
    proof (cases e)
      case (We_Start j d n f)
      then show ?thesis using a Some by (simp add: note_event_def acc_at_def call_step_def jm_simps nth_append)
    next
      case (We_Args j x f)
      show ?thesis
      proof (cases "j = i")
        case True
        then show ?thesis using a Some We_Args by (simp add: note_event_def extend_acc_def acc_at_def call_step_def)
      next
        case False
        then show ?thesis using other [of j] Some We_Args
          by (auto simp: note_event_def extend_acc_def acc_at_def call_step_def split: option.split)
      qed
    next
      case (We_End j f)
      show ?thesis
      proof (cases "j = i")
        case True
        then show ?thesis using a Some We_End by (simp add: note_event_def extend_acc_def acc_at_def call_step_def)
      next
        case False
        then show ?thesis using other [of j] Some We_End
          by (auto simp: note_event_def extend_acc_def acc_at_def call_step_def split: option.split)
      qed
    qed (simp_all add: note_event_def acc_at_def call_step_def)
  qed
  moreover have "a < length (ns_objects ?s) \<and> (\<forall>j. jm_get (ns_accs ?s) j = Some a \<longrightarrow> j = i)"
    if "jm_get (ns_accs ?s) i = Some a" for i a
  proof (cases "\<exists>j d n f. e = We_Start j d n f")
    case True
    then obtain j d n f where e: "e = We_Start j d n f" by blast
    have acc: "jm_get (ns_accs ?s) k = (if k = j then Some (length (ns_objects s)) else jm_get (ns_accs s) k)" for k
      by (simp add: note_event_def e jm_simps)
    have len: "length (ns_objects ?s) = Suc (length (ns_objects s))" by (simp add: note_event_def e)
    show ?thesis
    proof (cases "a = length (ns_objects s)")
      case True
      then show ?thesis using that len acc ok(3) [of _ a] by (metis lessI less_irrefl_nat)
    next
      case False
      then have "jm_get (ns_accs s) i = Some a" using that acc by (metis option.inject)
      then show ?thesis using False len acc ok(3) [of i a] ok(4) [of i a] by (metis less_SucI option.inject)
    qed
  next
    case False
    then have "ns_accs ?s = ns_accs s" "length (ns_objects ?s) = length (ns_objects s)"
      by (cases e; simp add: note_event_def extend_acc_def split: option.splits)+
    then show ?thesis using that ok(3) [of i a] ok(4) [of i a] by metis
  qed
  moreover have "jm_ok (ns_accs ?s)"
    using ok(1) by (cases e) (simp_all add: note_event_def extend_acc_def jm_ok_set split: option.splits)
  ultimately show ?thesis by (simp add: accs_ok_def ok(2) call_of_snoc)
qed

text \<open>An accumulator only grows, and one that an index has left no longer changes.\<close>

lemma note_event_objects:
  assumes "a < length (ns_objects s)"
  shows "a < length (ns_objects (note_event e s))" and "grows (ns_objects s ! a) (ns_objects (note_event e s) ! a)"
    and "ns_objects (note_event e s) ! a = ns_objects s ! a \<or> (\<exists>i. jm_get (ns_accs (note_event e s)) i = Some a)"
    and "jm_get (ns_accs (note_event e s)) j = Some a \<Longrightarrow> jm_get (ns_accs s) j = Some a"
proof -
  show "a < length (ns_objects (note_event e s))"
    using assms by (cases e) (auto simp: note_event_def extend_acc_def split: option.splits)
  show "grows (ns_objects s ! a) (ns_objects (note_event e s) ! a)"
    using assms by (cases e) (auto simp: note_event_def extend_acc_def grows_def nth_append nth_updated split: option.splits)
  show "ns_objects (note_event e s) ! a = ns_objects s ! a \<or> (\<exists>i. jm_get (ns_accs (note_event e s)) i = Some a)"
    using assms by (cases e) (auto simp: note_event_def extend_acc_def nth_append nth_updated split: option.splits)
  show "jm_get (ns_accs (note_event e s)) j = Some a \<Longrightarrow> jm_get (ns_accs s) j = Some a"
    using assms by (cases e) (auto simp: note_event_def extend_acc_def jm_simps split: option.splits if_splits)
qed

lemma task_ok_note:
  assumes "accs_ok s" and "task_ok fd ev s t"
  shows "task_ok fd ev ((note_event e s)\<lparr>ns_handled := ns_handled s @ [e]\<rparr>) t"
proof (cases t)
  case (Tk_Verdict i a v pos l)
  let ?s = "(note_event e s)\<lparr>ns_handled := ns_handled s @ [e]\<rparr>"
  have t: "loop_ok (ns_handled s) l" "a < length (ns_objects s)" "was_call (ns_handled s) i (ns_objects s ! a)"
      "\<And>j. jm_get (ns_accs s) j = Some a \<Longrightarrow> j = i"
      "te_decision v = Dec_Allow \<Longrightarrow> \<exists>acc0. was_call (ns_handled s) i acc0 \<and> allowed fd ev acc0 \<and> grows acc0 (ns_objects s ! a)"
    using assms(2) Tk_Verdict by (auto simp: task_ok_def)
  note o = note_event_objects [OF t(2), of e]
  have "was_call (ns_handled ?s) i (ns_objects ?s ! a)"
  proof (cases "ns_objects (note_event e s) ! a = ns_objects s ! a")
    case True
    with was_call_later [OF t(3)] show ?thesis by simp
  next
    case False
    with o(3,4) t(4) have "jm_get (ns_accs ?s) i = Some a" by auto
    then have "call_of i (ns_handled ?s) = Some (ns_objects ?s ! a)"
      using accs_ok_note [OF assms(1), of e] unfolding accs_ok_def acc_at_def by (metis option.simps(9))
    then show ?thesis by (rule was_call_now)
  qed
  moreover have "\<exists>acc0. was_call (ns_handled ?s) i acc0 \<and> allowed fd ev acc0 \<and> grows acc0 (ns_objects ?s ! a)"
    if "te_decision v = Dec_Allow"
  proof -
    from t(5) [OF that] obtain acc0 where "was_call (ns_handled s) i acc0" "allowed fd ev acc0" "grows acc0 (ns_objects s ! a)"
      by blast
    then show ?thesis using grows_trans [OF _ o(2)] by (intro exI [of _ acc0]) (simp add: was_call_later)
  qed
  moreover have "j = i" if "jm_get (ns_accs ?s) j = Some a" for j using that o(4) t(4) by simp
  ultimately show ?thesis using o(1) loop_ok_later [OF t(1)] by (simp add: task_ok_def Tk_Verdict)
qed (simp add: task_ok_def)

lemma ns_inv_note:
  assumes "ns_inv raw fd ev s"
  shows "ns_inv raw fd ev ((note_event e s)\<lparr>ns_handled := ns_handled s @ [e]\<rparr>)"
  using assms accs_ok_note task_ok_note node_source_later unfolding ns_inv_def by fastforce

lemma same_calls:
  assumes "ns_accs s' = ns_accs s" "ns_objects s' = ns_objects s" "ns_handled s' = ns_handled s"
  shows "accs_ok s' = accs_ok s" and "task_ok fd ev s' t = task_ok fd ev s t"
  using assms by (cases t; simp add: accs_ok_def acc_at_def task_ok_def)+

lemma ns_inv_cong:
  assumes "ns_inv raw fd ev s" and "ns_accs s' = ns_accs s" "ns_objects s' = ns_objects s" "ns_handled s' = ns_handled s"
    "ns_provider s' = ns_provider s" "ns_out s' = ns_out s" "set (ns_tasks s') \<subseteq> set (ns_tasks s)"
  shows "ns_inv raw fd ev s'"
  using assms same_calls [OF assms(2-4)] by (auto simp: ns_inv_def)

lemma ns_inv_write:
  assumes "ns_inv raw fd ev s"
    and "\<And>f. f \<in> set fs \<Longrightarrow> f \<in> raw \<or> node_source fd ev (ns_provider s) (ns_handled s) f"
  shows "ns_inv raw fd ev (node_write fs s)"
proof -
  have "f \<in> set (ns_out s) \<union> set fs" if "f \<in> set (ns_out (node_write fs s))" for f
    using that by (auto simp: node_write_def split: if_splits)
  then have "f \<in> raw \<or> node_source fd ev (ns_provider s) (ns_handled s) f" if "f \<in> set (ns_out (node_write fs s))" for f
    using that assms unfolding ns_inv_def by blast
  then show ?thesis using assms(1) same_calls [of "node_write fs s" s] by (simp add: ns_inv_def)
qed

lemma ns_inv_await:
  assumes "ns_inv raw fd ev s" and "task_ok fd ev s t"
  shows "ns_inv raw fd ev (node_await t s)"
  using assms same_calls [of "node_await t s" s] by (auto simp: ns_inv_def node_await_def)

lemma next_call_Some: "next_call accs entries pos = Some (i, a, pos') \<Longrightarrow> jm_get accs i = Some a"
  by (induction accs entries pos rule: next_call.induct) (auto split: option.splits bind_splits)

lemma ns_inv_loop_done:
  assumes "ns_inv raw fd ev s" and "loop_ok (ns_handled s) l"
  shows "ns_inv raw fd ev (loop_done l s)"
proof (cases l)
  case (Finish_Loop anyDeny f h rest)
  let ?s1 = "s\<lparr>ns_inFlight := map (\<lambda>_. None) (ns_inFlight s)\<rparr>"
  have s1: "ns_inv raw fd ev ?s1" by (rule ns_inv_cong [OF assms(1)]) simp_all
  obtain before r after where h: "ns_handled s = before @ We_Finish r f # after" using assms(2) Finish_Loop by (auto simp: loop_ok_def)
  have "node_source fd ev (ns_provider s) (ns_handled s) f"
    unfolding node_source_def using h
    by (intro disjI1 exI [of _ before] exI [of _ "We_Finish r f"] exI [of _ after]) (simp add: outside_calls_def)
  then have "ns_inv raw fd ev (node_write [f] ?s1)" by (intro ns_inv_write [OF s1]) simp
  moreover have "ns_inv raw fd ev (?s1\<lparr>ns_terminal := True\<rparr>)" by (rule ns_inv_cong [OF s1]) simp_all
  ultimately show ?thesis using s1 by (auto simp: loop_done_def Finish_Loop Let_def task_ok_def intro!: ns_inv_await)
next
  case End_Loop
  show ?thesis unfolding loop_done_def End_Loop call_loop.case by (rule ns_inv_cong [OF assms(1)]) simp_all
qed

lemma ns_inv_loop_on:
  assumes "ns_inv raw fd ev s" and "loop_ok (ns_handled s) l"
  shows "ns_inv raw fd ev (loop_on fd ev pos l s)"
proof (cases "next_call (ns_accs s) (drop pos (ns_inFlight s)) pos")
  case None
  then show ?thesis using ns_inv_loop_done [OF assms] by (simp add: loop_on_def)
next
  case (Some q)
  then obtain i a pos' where q: "next_call (ns_accs s) (drop pos (ns_inFlight s)) pos = Some (i, a, pos')" by (cases q) auto
  obtain v asked where v: "safeEvalStream fd ev (ns_asked s) (ta_name (ns_objects s ! a)) (ta_args (ns_objects s ! a)) = (v, asked)"
    by fastforce
  have a: "jm_get (ns_accs s) i = Some a" using next_call_Some [OF q] .
  have ok: "accs_ok s" using assms(1) by (simp add: ns_inv_def)
  then have w: "was_call (ns_handled s) i (ns_objects s ! a)" using a unfolding accs_ok_def acc_at_def
    by (intro was_call_now) (metis option.simps(9))
  have "te_decision v = Dec_Allow \<Longrightarrow> allowed fd ev (ns_objects s ! a)"
    using safeEvalStream_allow [of fd ev "ns_asked s" "ns_objects s ! a"] v by simp
  then have "task_ok fd ev s (Tk_Verdict i a v pos' l)"
    using ok a w assms(2) grows_refl by (auto simp: task_ok_def accs_ok_def)
  moreover have "ns_inv raw fd ev (s\<lparr>ns_asked := asked\<rparr>)" by (rule ns_inv_cong [OF assms(1)]) simp_all
  ultimately show ?thesis using same_calls(2) [of "s\<lparr>ns_asked := asked\<rparr>" s]
    by (auto simp: loop_on_def q v intro!: ns_inv_await)
qed

lemma ns_inv_onEvent:
  assumes "ns_inv raw fd ev s"
  shows "ns_inv raw fd ev (node_onEvent fd ev h e rest s)"
proof -
  let ?s = "(note_event e s)\<lparr>ns_handled := ns_handled s @ [e]\<rparr>"
  have inv: "ns_inv raw fd ev ?s" using ns_inv_note [OF assms] .
  have out: "node_source fd ev (ns_provider ?s) (ns_handled ?s) (we_frame e)" if "outside_calls (ns_handled s) e"
    unfolding node_source_def using that by (intro disjI1 exI [of _ "ns_handled s"] exI [of _ e] exI [of _ "[]"]) simp
  have acc: "call_of i (ns_handled s) = None" if "\<not> jm_has (ns_accs ?s) i" for i
  proof -
    have "acc_at ?s i = call_of i (ns_handled ?s)" using inv unfolding ns_inv_def accs_ok_def by blast
    then have "call_of i (ns_handled s @ [e]) = None" using that by (simp add: acc_at_def)
    then show ?thesis by (cases e) (auto simp: call_of_snoc call_step_def split: if_splits option.splits)
  qed
  show ?thesis
  proof (cases "\<exists>r f. e = We_Finish r f")
    case True
    then obtain r f where e: "e = We_Finish r f" by blast
    have "loop_ok (ns_handled ?s) (Finish_Loop False f h rest)" by (auto simp: loop_ok_def e)
    from ns_inv_loop_on [OF inv this] show ?thesis by (simp add: node_onEvent_def e)
  next
    case False
    have "ns_inv raw fd ev (node_write [we_frame e] ?s)" if "outside_calls (ns_handled s) e"
      using out [OF that] by (intro ns_inv_write [OF inv]) simp
    then show ?thesis using False inv acc
      by (cases e) (auto simp: node_onEvent_def Let_def outside_calls_def task_ok_def intro!: ns_inv_await)
  qed
qed

lemma ns_inv_run_handler: "ns_inv raw fd ev s \<Longrightarrow> ns_inv raw fd ev (run_handler fd ev h evs s)"
  by (auto simp: run_handler_def loop_ok_def ns_inv_onEvent ns_inv_loop_on split: list.splits handler.splits)

lemma ns_inv_run_task:
  assumes "ns_inv raw fd ev s" and "task_ok fd ev s t"
  shows "ns_inv raw fd ev (run_task fd ev t s)"
proof (cases t)
  case (Tk_Verdict i a v pos l)
  have t: "loop_ok (ns_handled s) l" "was_call (ns_handled s) i (ns_objects s ! a)"
      "te_decision v = Dec_Allow \<Longrightarrow> \<exists>acc0. was_call (ns_handled s) i acc0 \<and> allowed fd ev acc0 \<and> grows acc0 (ns_objects s ! a)"
    using assms(2) Tk_Verdict by (auto simp: task_ok_def)
  have "node_source fd ev (ns_provider s) (ns_handled s) f" if "f \<in> set (flushTool (ns_provider s) i (ns_objects s ! a) v)" for f
  proof (cases "te_decision v = Dec_Allow")
    case True
    with that t show ?thesis unfolding node_source_def by (auto simp: flushTool_def)
  next
    case False
    with that t(2) show ?thesis unfolding node_source_def notice_frame_def by (auto simp: flushTool_def not_allow)
  qed
  then have "ns_inv raw fd ev (node_write (flushTool (ns_provider s) i (ns_objects s ! a) v) s)"
    by (intro ns_inv_write [OF assms(1)]) blast
  moreover have "loop_ok h (loop_denied b l) = loop_ok h l" for h b by (cases l) (simp_all add: loop_ok_def loop_denied_def)
  ultimately show ?thesis using t(1) by (simp add: run_task_def Tk_Verdict ns_inv_loop_on)
qed (use assms ns_inv_run_handler in \<open>simp add: run_task_def\<close>)

lemma ns_inv_step:
  assumes "ns_inv raw fd ev s"
    and "\<And>d chunk. e = Node_Data d chunk \<Longrightarrow> fst (parser_feed d (ns_parser s) chunk) = None \<Longrightarrow> chunk \<in> raw"
  shows "ns_inv raw fd ev (node_step fd ev s e)"
proof (cases e)
  case (Node_Data d chunk)
  have p: "ns_inv raw fd ev (s\<lparr>ns_parser := p\<rparr>)" for p by (rule ns_inv_cong [OF assms(1)]) simp_all
  from p assms(2) [OF Node_Data] show ?thesis by (auto simp: node_step_def Node_Data feed_parser_def ns_inv_run_handler
      intro!: ns_inv_write split: option.splits)
next
  case (Node_End d)
  have "ns_inv raw fd ev (s\<lparr>ns_parser := p\<rparr>)" "ns_inv raw fd ev (s\<lparr>ns_ended := True\<rparr>)" for p
    by (rule ns_inv_cong [OF assms(1)]; simp)+
  then show ?thesis by (auto simp: node_step_def Node_End ns_inv_run_handler split: option.splits)
next
  case (Node_Resume n)
  let ?s = "s\<lparr>ns_tasks := take n (ns_tasks s) @ drop (Suc n) (ns_tasks s)\<rparr>"
  have "ns_inv raw fd ev ?s"
    by (rule ns_inv_cong [OF assms(1)]) (auto dest: in_set_takeD in_set_dropD)
  moreover have "task_ok fd ev ?s (ns_tasks s ! n)" if "n < length (ns_tasks s)"
    using assms(1) nth_mem [OF that] same_calls(2) [of ?s s] unfolding ns_inv_def by auto
  ultimately show ?thesis using assms(1) by (simp add: node_step_def Node_Resume ns_inv_run_task)
qed

lemma ns_inv_new: "ns_inv raw fd ev (node_stream_new m)"
  by (simp add: ns_inv_def node_stream_new_def accs_ok_def acc_at_def call_of_def Let_def)

text \<open>The chunks on which the parser threw.\<close>

definition thrown_chunks :: "bool \<Rightarrow> answers \<Rightarrow> host_match \<Rightarrow> node_event list \<Rightarrow> byte list set" where
  "thrown_chunks fd ev m es = {chunk. \<exists>before d after. es = before @ Node_Data d chunk # after \<and>
     fst (parser_feed d (ns_parser (node_run fd ev m before)) chunk) = None}"

lemma ns_inv_run: "thrown_chunks fd ev m es \<subseteq> raw \<Longrightarrow> ns_inv raw fd ev (node_run fd ev m es)"
proof (induction es rule: rev_induct)
  case (snoc e es)
  have "thrown_chunks fd ev m es \<subseteq> thrown_chunks fd ev m (es @ [e])" by (fastforce simp: thrown_chunks_def)
  with snoc have inv: "ns_inv raw fd ev (node_run fd ev m es)" by blast
  have "chunk \<in> raw" if "e = Node_Data d chunk" "fst (parser_feed d (ns_parser (node_run fd ev m es)) chunk) = None" for d chunk
    using that snoc.prems by (auto simp: thrown_chunks_def)
  from ns_inv_step [OF inv this] show ?case by (simp add: node_run_def)
qed (simp add: node_run_def ns_inv_new)

text \<open>However the handlers of a response interleave, and whatever the provider sends, every frame that reaches the
  application through the \<^verbatim>\<open>node:http\<close> plane is a frame outside every call known when it was handled, or a frame of a
  call that the evaluator allowed under its name and with complete arguments (which the call may have outgrown by
  then: it is flushed as it stands when the verdict arrives), or part of a notice, or a chunk on which the parser threw.\<close>

theorem node_stream_calls_need_allow:
  assumes "f \<in> set (ns_out (node_run fd ev m steps))"
  shows "f \<in> thrown_chunks fd ev m steps \<or>
    node_source fd ev (ns_provider (node_run fd ev m steps)) (ns_handled (node_run fd ev m steps)) f"
  using ns_inv_run [OF order_refl, of fd ev m steps] assms by (auto simp: ns_inv_def)

end
