(* ===== verification/Node_Stream_Properties.thy ===== *)
theory Node_Stream_Properties
  imports Node_Stream Stream_Samples
begin

text \<open>
  The stream of the \<^verbatim>\<open>node:http\<close> plane on concrete runs: where handlers overlap, a call reaches the application more than once,
  and texts change places; and a chunk on which the parser throws goes through unread.
\<close>

section \<open>Where handlers overlap\<close>

lemma done_chunk_read:
  "parser_feed bom_passed (newParserFor Sp_OpenAI) OPENAI_DONE_FRAME = (Some ([We_Finish None OPENAI_DONE_FRAME], newParserFor Sp_OpenAI), bom_passed)"
  using openai_chunk_read [of "[''data: [DONE]'' @ [CHR 0x0A, CHR 0x0A]]" "[[We_Finish None OPENAI_DONE_FRAME]]" bom_passed]
    frames_read(5) frames_whole(5) by (simp add: OPENAI_DONE_FRAME_def)

lemmas node_run_defs = node_run_def node_stream_new_def node_step_def feed_parser_def run_handler_def node_onEvent_def
  note_event_def extend_acc_def node_await_def node_write_def loop_on_def loop_done_def loop_denied_def run_task_def
  entry_add_def frame_if_any_def flushTool_def

definition call_state :: "rat option list \<Rightarrow> nat \<Rightarrow> byte list list \<Rightarrow> bool \<Rightarrow> node_task list \<Rightarrow> wire_event list \<Rightarrow> node_stream" where
  "call_state entries asked out ended tasks handled = \<lparr>ns_provider = Sp_OpenAI, ns_parser = newParserFor Sp_OpenAI,
     ns_objects = [\<lparr>ta_name = ''f'', ta_args = ''{}'', ta_bufferedFrames = [encodeOpenAIDataFrame start_frame, encodeOpenAIDataFrame args_frame]\<rparr>],
     ns_accs = [(0, 0)], ns_inFlight = entries, ns_terminal = False, ns_asked = asked, ns_out = out, ns_ended = ended, ns_failed = False,
     ns_tasks = tasks, ns_handled = handled\<rparr>"

abbreviation allowed_task :: "call_loop \<Rightarrow> node_task" where
  "allowed_task l \<equiv> Tk_Verdict 0 0 (bare_evaluation Dec_Allow 0) (Suc 0) l"

lemma call_arrives:
  "node_run True allow_all chat_match [Node_Data utf8_start call_chunk, Node_Resume 0, Node_Resume 0] =
     call_state [Some 0] 1 [] False [allowed_task (Finish_Loop False (encodeOpenAIDataFrame finish_frame) On_Data [])] call_events"
  using asked_allow [of True 0 "''f''"]
  by (simp add: node_run_defs chat_match_def call_chunk_read frame_nonempty allow_all_def call_state_def call_events_def del: newParserFor.simps)

text \<open>The next chunk, the end of the stream, and a verdict that arrives.\<close>

lemma done_arrives:
  "node_step True allow_all (call_state [Some 0] n out False ts h) (Node_Data bom_passed OPENAI_DONE_FRAME) =
     call_state [Some 0] (Suc n) out False (ts @ [allowed_task (Finish_Loop False OPENAI_DONE_FRAME On_Data [])]) (h @ [We_Finish None OPENAI_DONE_FRAME])"
  using asked_allow [of True n "''f''"]
  by (simp add: node_run_defs done_chunk_read allow_all_def call_state_def del: newParserFor.simps)

lemma end_arrives:
  "node_step True allow_all (call_state [Some 0] n out False ts h) (Node_End bom_passed) =
     call_state [Some 0] (Suc n) out False (ts @ [allowed_task End_Loop]) h"
  using asked_allow [of True n "''f''"]
  by (simp add: node_run_defs nothing_left allow_all_def call_state_def del: newParserFor.simps)

lemma verdict_arrives:
  "length entries \<le> 1 \<Longrightarrow> f \<noteq> [] \<Longrightarrow>
   node_step True allow_all (call_state entries n out False (allowed_task (Finish_Loop False f On_Data []) # ts) h) (Node_Resume 0) =
     call_state (map (\<lambda>_. None) entries) n (out @ [encodeOpenAIDataFrame start_frame, encodeOpenAIDataFrame args_frame, f]) False
       (ts @ [Tk_Events On_Data []]) h"
  "length entries \<le> 1 \<Longrightarrow>
   node_step True allow_all (call_state entries n out False (allowed_task End_Loop # ts) h) (Node_Resume 0) =
     call_state entries n (out @ [encodeOpenAIDataFrame start_frame, encodeOpenAIDataFrame args_frame]) True ts h"
  by (simp_all add: node_run_defs call_state_def frame_nonempty bare_evaluation_def del: newParserFor.simps)

lemma overlapping_handlers_repeat_a_call:
  "ns_out (node_run True allow_all chat_match
     [Node_Data utf8_start call_chunk, Node_Resume 0, Node_Resume 0, Node_Data bom_passed OPENAI_DONE_FRAME, Node_End bom_passed,
      Node_Resume 0, Node_Resume 0, Node_Resume 0]) =
   (let call = [encodeOpenAIDataFrame start_frame, encodeOpenAIDataFrame args_frame] in
    call @ [encodeOpenAIDataFrame finish_frame] @ call @ [OPENAI_DONE_FRAME] @ call)"
proof -
  have "node_run True allow_all chat_match [Node_Data utf8_start call_chunk, Node_Resume 0, Node_Resume 0,
      Node_Data bom_passed OPENAI_DONE_FRAME, Node_End bom_passed, Node_Resume 0, Node_Resume 0, Node_Resume 0] =
    foldl (node_step True allow_all) (node_run True allow_all chat_match [Node_Data utf8_start call_chunk, Node_Resume 0, Node_Resume 0])
      [Node_Data bom_passed OPENAI_DONE_FRAME, Node_End bom_passed, Node_Resume 0, Node_Resume 0, Node_Resume 0]"
    by (simp add: node_run_def)
  then show ?thesis by (simp add: call_arrives done_arrives end_arrives verdict_arrives frame_nonempty) (simp add: call_state_def Let_def)
qed

text \<open>Two chunks that the socket delivers together: the second is handled between the events of the first.\<close>

definition text_bytes :: "string list \<Rightarrow> byte list" where
  "text_bytes ts = utf8_encode (concat (map (\<lambda>t. data_frame (text_frame t)) ts))"

lemma text_chunk_read:
  assumes "[] \<notin> set ts" and "d = utf8_start \<and> ts \<noteq> [] \<or> d = bom_passed"
  shows "parser_feed d (newParserFor Sp_OpenAI) (text_bytes ts) =
    (Some (map (\<lambda>t. We_Text t (encodeOpenAIDataFrame (text_frame t))) ts, newParserFor Sp_OpenAI), bom_passed)"
proof -
  have r: "list_all2 (\<lambda>t es. whole_frame t \<and> openai_parseFrame () t = Some (es, ()))
      (map (\<lambda>t. data_frame (text_frame t)) ts) (map (\<lambda>t. [We_Text t (encodeOpenAIDataFrame (text_frame t))]) ts)"
    using assms(1) by (induction ts) (auto simp: frames_read frames_whole)
  have "d = utf8_start \<and> concat (map (\<lambda>t. data_frame (text_frame t)) ts) \<noteq> [] \<or> d = bom_passed"
    using assms(2) by (cases ts) (auto simp: data_frame_def)
  from openai_chunk_read [OF r this] show ?thesis by (simp add: text_bytes_def)
qed

lemma overlapping_handlers_reorder_text:
  "ns_out (node_run fd ev chat_match
     [Node_Data utf8_start (text_bytes [''a'', ''b'']), Node_Data bom_passed (text_bytes [''c'']), Node_Resume 0]) =
   map (\<lambda>t. encodeOpenAIDataFrame (text_frame t)) [''a'', ''c'', ''b'']"
  by (simp add: node_run_defs chat_match_def text_chunk_read frame_nonempty del: newParserFor.simps)

text \<open>A chunk on which the parser throws goes through as it is, with whatever calls are in it.\<close>

lemma thrown_chunk_passes:
  assumes "fst (parser_feed d (ns_parser s) chunk) = None" and "\<not> ns_ended s" and "chunk \<noteq> []"
  shows "ns_out (node_step fd ev s (Node_Data d chunk)) = ns_out s @ [chunk]"
    and "ns_asked (node_step fd ev s (Node_Data d chunk)) = ns_asked s"
  using assms by (simp_all add: node_step_def feed_parser_def node_write_def)

lemma null_chunk_throws:
  "fst (parser_feed utf8_start (newParserFor Sp_OpenAI) (utf8_encode (''data: null'' @ [CHR 0x0A, CHR 0x0A] @ data_frame start_frame))) = None"
proof -
  let ?t = "''data: null'' @ [CHR 0x0A, CHR 0x0A] @ data_frame start_frame"
  have "next_frame ?t = Some (''data: null'' @ [CHR 0x0A, CHR 0x0A], data_frame start_frame)"
    using next_frame_line [of "''data: null''" "data_frame start_frame"] by (simp add: one_line_def)
  moreover have "openai_parseFrame () (''data: null'' @ [CHR 0x0A, CHR 0x0A]) = None" by code_simp
  ultimately have "sse_frames openai_parseFrame () ?t = None" by (subst sse_frames.simps) simp
  then show ?thesis using utf8_stream_encode [of ?t] by (simp add: mapped_def sse_feed_def sse_drain_def)
qed

theorem node_stream_calls_need_allow_witness:
  "let s = node_run True allow_all chat_match [Node_Data utf8_start call_chunk, Node_Resume 0, Node_Resume 0, Node_Resume 0] in
   node_source True allow_all (ns_provider s) (ns_handled s) (encodeOpenAIDataFrame start_frame)"
proof -
  let ?es = "[Node_Data utf8_start call_chunk, Node_Resume 0, Node_Resume 0, Node_Resume 0]"
  have run: "node_run True allow_all chat_match ?es = node_step True allow_all
      (node_run True allow_all chat_match [Node_Data utf8_start call_chunk, Node_Resume 0, Node_Resume 0]) (Node_Resume 0)"
    by (simp add: node_run_def)
  have "encodeOpenAIDataFrame start_frame \<in> set (ns_out (node_run True allow_all chat_match ?es))"
    unfolding run by (simp add: call_arrives verdict_arrives frame_nonempty) (simp add: call_state_def)
  from node_stream_calls_need_allow [OF this] have "encodeOpenAIDataFrame start_frame \<in> thrown_chunks True allow_all chat_match ?es \<or> ?thesis"
    by (simp add: Let_def)
  moreover have "thrown_chunks True allow_all chat_match ?es = {}"
  proof -
    have "ns_parser (node_stream_new chat_match) = newParserFor Sp_OpenAI" by (simp add: node_stream_new_def chat_match_def)
    then have "fst (parser_feed utf8_start (ns_parser (node_run True allow_all chat_match [])) call_chunk) \<noteq> None"
      by (simp add: node_run_def call_chunk_read del: newParserFor.simps)
    then show ?thesis by (auto simp: thrown_chunks_def Cons_eq_append_conv)
  qed
  ultimately show ?thesis by simp
qed

end
