(* ===== verification/Provider_Extractors.thy ===== *)
theory Provider_Extractors
  imports Stream_Enforcer "HOL-Library.Monad_Syntax"
begin

text \<open>
  \<^verbatim>\<open>instrumentation/provider-extractors.ts\<close>: the tool calls a provider's request or response body carries, and
  the rewriting of a response whose calls were denied; and the buffered half of
  \<^verbatim>\<open>instrumentation/_response-enforce.ts\<close> that uses them. A body is a JSON object; \<^const>\<open>None\<close> is a thrown
  TypeError (a \<^verbatim>\<open>null\<close> where an object is expected). A rewriter changes the parsed body in place and
  returns it: here it returns the changed value. The decisions and the calls have one length, as
  the enforcer builds one from the other, and are given as one list of pairs.
\<close>

section \<open>Objects\<close>

definition j_put :: "string \<Rightarrow> jval \<Rightarrow> jval \<Rightarrow> jval" where
  "j_put k v o' = (case o' of JObj kvs \<Rightarrow> JObj (jm_set k v kvs) | _ \<Rightarrow> o')"

definition j_delete :: "string \<Rightarrow> jval \<Rightarrow> jval" where
  "j_delete k o' = (case o' of JObj kvs \<Rightarrow> JObj (jm_del k kvs) | _ \<Rightarrow> o')"

text \<open>\<^verbatim>\<open>for (const x of xs) ... out.push(...)\<close>\<close>

fun collect :: "('a \<Rightarrow> 'b list option) \<Rightarrow> 'a list \<Rightarrow> 'b list option" where
  "collect f [] = Some []"
| "collect f (x # xs) = do { ys \<leftarrow> f x; zs \<leftarrow> collect f xs; Some (ys @ zs) }"

definition collect_in :: "(jval \<Rightarrow> 'b list option) \<Rightarrow> jval \<Rightarrow> 'b list option" where
  "collect_in f v = (case j_array v of None \<Rightarrow> Some [] | Some vs \<Rightarrow> collect f vs)"

definition safeJsonParse :: "string \<Rightarrow> jval" where
  "safeJsonParse s = (if s = [] then JObj []
     else (case json_parse s of Some v \<Rightarrow> v | None \<Rightarrow> JObj [(''_raw'', JStr s)]))"

definition safeStringify :: "jval \<Rightarrow> string" where
  "safeStringify v = (case v of JStr s \<Rightarrow> s | _ \<Rightarrow> json_text (j_default v (JObj [])))"

section \<open>Calls in a request\<close>

record request_call =
  rq_name :: string
  rq_args :: jval

text \<open>An entry that has no name is skipped.\<close>

definition named_call :: "jval \<Rightarrow> jval \<Rightarrow> request_call list" where
  "named_call name args = (case j_string name of None \<Rightarrow> [] | Some n \<Rightarrow> [\<lparr>rq_name = n, rq_args = args\<rparr>])"

definition openAIRequestToolCalls :: "jval \<Rightarrow> request_call list option" where
  "openAIRequestToolCalls body = do {
     messages \<leftarrow> j_prop body ''messages'';
     collect_in (\<lambda>msg. do {
       tcs \<leftarrow> j_prop msg ''tool_calls'';
       collect_in (\<lambda>tc. do {
         fn \<leftarrow> j_prop tc ''function'';
         let args = (case j_field fn ''arguments'' of JStr s \<Rightarrow> safeJsonParse s | a \<Rightarrow> a);
         Some (named_call (j_field fn ''name'') args) }) tcs }) messages }"

definition anthropicRequestToolCalls :: "jval \<Rightarrow> request_call list option" where
  "anthropicRequestToolCalls body = do {
     messages \<leftarrow> j_prop body ''messages'';
     collect_in (\<lambda>msg. do {
       content \<leftarrow> j_prop msg ''content'';
       collect_in (\<lambda>block. do {
         ty \<leftarrow> j_prop block ''type'';
         Some (if ty = JStr ''tool_use'' then named_call (j_field block ''name'') (j_field block ''input'') else [])
       }) content }) messages }"

definition cohere_collect :: "jval \<Rightarrow> request_call list option" where
  "cohere_collect = collect_in (\<lambda>tc. do {
     name \<leftarrow> j_prop tc ''name'';
     Some (named_call name (j_field tc ''parameters'')) })"

definition cohereRequestToolCalls :: "jval \<Rightarrow> request_call list option" where
  "cohereRequestToolCalls body = do {
     top \<leftarrow> j_prop body ''tool_calls'';
     first \<leftarrow> cohere_collect top;
     rest \<leftarrow> collect_in (\<lambda>msg. do { tcs \<leftarrow> j_prop msg ''tool_calls''; cohere_collect tcs }) (j_field body ''messages'');
     Some (first @ rest) }"

definition geminiRequestToolCalls :: "jval \<Rightarrow> request_call list option" where
  "geminiRequestToolCalls body = do {
     contents \<leftarrow> j_prop body ''contents'';
     collect_in (\<lambda>c. do {
       parts \<leftarrow> j_prop c ''parts'';
       collect_in (\<lambda>p. do {
         fc \<leftarrow> j_prop p ''functionCall'';
         Some (named_call (j_field fc ''name'') (j_field fc ''args'')) }) parts }) contents }"

definition bedrockConverseRequestToolCalls :: "jval \<Rightarrow> request_call list option" where
  "bedrockConverseRequestToolCalls body = do {
     messages \<leftarrow> j_prop body ''messages'';
     collect_in (\<lambda>msg. do {
       content \<leftarrow> j_prop msg ''content'';
       collect_in (\<lambda>block. do {
         tu \<leftarrow> j_prop block ''toolUse'';
         Some (named_call (j_field tu ''name'') (j_field tu ''input'')) }) content }) messages }"

definition isAnthropicInvokeRequest :: "jval \<Rightarrow> bool" where
  "isAnthropicInvokeRequest body \<longleftrightarrow> j_string (j_field body ''anthropic_version'') \<noteq> None"

definition extractRequestToolCalls :: "host_match \<Rightarrow> jval \<Rightarrow> request_call list option" where
  "extractRequestToolCalls m body = (case hm_shape m of
     Some Shape_OpenAI_Chat \<Rightarrow> openAIRequestToolCalls body
   | Some Shape_OpenAI_Responses \<Rightarrow> openAIRequestToolCalls body
   | Some Shape_Anthropic_Messages \<Rightarrow> anthropicRequestToolCalls body
   | Some Shape_Cohere_Chat \<Rightarrow> cohereRequestToolCalls body
   | Some Shape_Gemini_Generate \<Rightarrow> geminiRequestToolCalls body
   | Some Shape_Bedrock_Converse \<Rightarrow> bedrockConverseRequestToolCalls body
   | Some Shape_Bedrock_Invoke \<Rightarrow> if isAnthropicInvokeRequest body then anthropicRequestToolCalls body else Some []
   | _ \<Rightarrow> Some [])"

section \<open>Calls in a response\<close>

record response_call =
  rc_name :: string
  rc_args :: jval
  rc_raw :: string

definition named_response :: "jval \<Rightarrow> jval \<Rightarrow> response_call list" where
  "named_response name args = (case j_string name of None \<Rightarrow> []
     | Some n \<Rightarrow> [\<lparr>rc_name = n, rc_args = args, rc_raw = safeStringify args\<rparr>])"

definition openai_response_call :: "jval \<Rightarrow> response_call list option" where
  "openai_response_call tc = do {
     f \<leftarrow> j_prop tc ''function'';
     let fn = j_default f (JObj []);
     let raw = (case j_string (j_field fn ''arguments'') of Some s \<Rightarrow> s | None \<Rightarrow> []);
     Some [\<lparr>rc_name = j_text (j_default (j_field fn ''name'') (JStr [])), rc_args = safeJsonParse raw, rc_raw = raw\<rparr>] }"

definition openAIResponseToolCalls :: "jval \<Rightarrow> response_call list option" where
  "openAIResponseToolCalls json = do {
     choices \<leftarrow> j_prop json ''choices'';
     case j_array choices of
       None \<Rightarrow> Some []
     | Some [] \<Rightarrow> Some []
     | Some (c # _) \<Rightarrow> do {
         message \<leftarrow> j_prop c ''message'';
         collect_in openai_response_call (j_field message ''tool_calls'') } }"

definition anthropic_response_call :: "jval \<Rightarrow> response_call list option" where
  "anthropic_response_call b = do {
     ty \<leftarrow> j_prop b ''type'';
     Some (if ty = JStr ''tool_use'' then named_response (j_field b ''name'') (j_field b ''input'') else []) }"

definition anthropicResponseToolCalls :: "jval \<Rightarrow> response_call list option" where
  "anthropicResponseToolCalls json = do {
     content \<leftarrow> j_prop json ''content'';
     collect_in anthropic_response_call content }"

definition cohere_response_call :: "jval \<Rightarrow> response_call list option" where
  "cohere_response_call tc = do {
     name \<leftarrow> j_prop tc ''name'';
     Some (named_response name (j_field tc ''parameters'')) }"

definition cohereResponseToolCalls :: "jval \<Rightarrow> response_call list option" where
  "cohereResponseToolCalls json = do {
     tcs \<leftarrow> j_prop json ''tool_calls'';
     collect_in cohere_response_call tcs }"

definition gemini_response_call :: "jval \<Rightarrow> response_call list option" where
  "gemini_response_call p = do {
     fc \<leftarrow> j_prop p ''functionCall'';
     Some (named_response (j_field fc ''name'') (j_field fc ''args'')) }"

definition geminiResponseToolCalls :: "jval \<Rightarrow> response_call list option" where
  "geminiResponseToolCalls json = do {
     candidates \<leftarrow> j_prop json ''candidates'';
     case j_array candidates of
       None \<Rightarrow> Some []
     | Some [] \<Rightarrow> Some []
     | Some (cand # _) \<Rightarrow> do {
         cont \<leftarrow> j_prop cand ''content'';
         collect_in gemini_response_call (j_field cont ''parts'') } }"

definition converse_response_call :: "jval \<Rightarrow> response_call list option" where
  "converse_response_call block = do {
     tu \<leftarrow> j_prop block ''toolUse'';
     Some (named_response (j_field tu ''name'') (j_field tu ''input'')) }"

definition bedrockConverseResponseToolCalls :: "jval \<Rightarrow> response_call list option" where
  "bedrockConverseResponseToolCalls json = do {
     output \<leftarrow> j_prop json ''output'';
     collect_in converse_response_call (j_field (j_field output ''message'') ''content'') }"

definition isAnthropicInvokeResponse :: "jval \<Rightarrow> bool" where
  "isAnthropicInvokeResponse json \<longleftrightarrow> j_field json ''type'' = JStr ''message'' \<and> j_array (j_field json ''content'') \<noteq> None"

definition extractResponseToolCalls :: "host_match \<Rightarrow> jval \<Rightarrow> response_call list option" where
  "extractResponseToolCalls m json = (case hm_shape m of
     Some Shape_OpenAI_Chat \<Rightarrow> openAIResponseToolCalls json
   | Some Shape_OpenAI_Responses \<Rightarrow> openAIResponseToolCalls json
   | Some Shape_Anthropic_Messages \<Rightarrow> anthropicResponseToolCalls json
   | Some Shape_Cohere_Chat \<Rightarrow> cohereResponseToolCalls json
   | Some Shape_Gemini_Generate \<Rightarrow> geminiResponseToolCalls json
   | Some Shape_Bedrock_Converse \<Rightarrow> bedrockConverseResponseToolCalls json
   | Some Shape_Bedrock_Invoke \<Rightarrow> if isAnthropicInvokeResponse json then anthropicResponseToolCalls json else Some []
   | _ \<Rightarrow> Some [])"

section \<open>Rewriting a response\<close>

type_synonym answered = "evaluation \<times> response_call"

definition denied :: "answered \<Rightarrow> bool" where
  "denied a \<longleftrightarrow> te_decision (fst a) = Dec_Deny"

definition notice_of :: "answered \<Rightarrow> string" where
  "notice_of a = verdict_notice (rc_name (snd a)) (rc_raw (snd a)) (fst a)"

definition lines_of :: "string list \<Rightarrow> string" where
  "lines_of = js_join [CHR 0x0A]"

text \<open>\<^verbatim>\<open>[content, ...notices].filter(Boolean).join("\n")\<close>\<close>

definition with_notices :: "string \<Rightarrow> string list \<Rightarrow> jval" where
  "with_notices content notices = JStr (lines_of (filter (\<lambda>s. s \<noteq> []) (content # notices)))"

text \<open>The entries that stay and the notices of the others. An entry without a decision throws.\<close>

fun openai_split :: "jval list \<Rightarrow> answered list \<Rightarrow> (jval list \<times> string list) option" where
  "openai_split [] as = Some ([], [])"
| "openai_split (tc # tcs) [] = None"
| "openai_split (tc # tcs) (a # as) = do {
     (remaining, notices) \<leftarrow> openai_split tcs as;
     Some (if denied a then (remaining, notice_of a # notices) else (tc # remaining, notices)) }"

definition openAIRewrite :: "jval \<Rightarrow> answered list \<Rightarrow> jval option" where
  "openAIRewrite json as = (case j_array (j_field json ''choices'') of
     Some (c # choices) \<Rightarrow> (let message = j_field c ''message'' in
       (case j_array (j_field message ''tool_calls'') of
          Some original \<Rightarrow> do {
            (remaining, notices) \<leftarrow> openai_split original as;
            let message1 = (if remaining \<noteq> [] then j_put ''tool_calls'' (JArr remaining) message
                            else j_delete ''tool_calls'' message);
            let c1 = (if remaining \<noteq> [] then c else j_put ''finish_reason'' (JStr ''stop'') c);
            let content = (case j_field message1 ''content'' of JStr s \<Rightarrow> s | _ \<Rightarrow> []);
            let message2 = j_put ''content'' (with_notices content notices) message1;
            Some (j_put ''choices'' (JArr (j_put ''message'' message2 c1 # choices)) json) }
        | None \<Rightarrow> None))
   | _ \<Rightarrow> None)"

definition is_tool_use :: "jval \<Rightarrow> bool" where
  "is_tool_use b \<longleftrightarrow> j_field b ''type'' = JStr ''tool_use''"

definition text_block :: "string \<Rightarrow> jval" where
  "text_block s = JObj [(''type'', JStr ''text''), (''text'', JStr s)]"

fun anthropic_blocks :: "jval list \<Rightarrow> answered list \<Rightarrow> jval list option" where
  "anthropic_blocks [] as = Some []"
| "anthropic_blocks (b # bs) as =
     (if \<not> is_tool_use b then map_option ((#) b) (anthropic_blocks bs as)
      else (case as of
          [] \<Rightarrow> None
        | a # as' \<Rightarrow> map_option ((#) (if denied a then text_block (notice_of a) else b)) (anthropic_blocks bs as')))"

definition end_turn :: "string \<Rightarrow> bool \<Rightarrow> jval \<Rightarrow> jval" where
  "end_turn k stillTool json =
     (if \<not> stillTool \<and> j_field json k = JStr ''tool_use'' then j_put k (JStr ''end_turn'') json else json)"

definition anthropicRewrite :: "jval \<Rightarrow> answered list \<Rightarrow> jval option" where
  "anthropicRewrite json as = (case j_array (j_field json ''content'') of
     None \<Rightarrow> None
   | Some content \<Rightarrow> do {
       blocks \<leftarrow> anthropic_blocks content as;
       Some (end_turn ''stop_reason'' (list_ex is_tool_use blocks) (j_put ''content'' (JArr blocks) json)) })"

text \<open>Here and for Gemini an entry without a decision stays.\<close>

fun cohere_split :: "jval list \<Rightarrow> answered list \<Rightarrow> jval list \<times> string list" where
  "cohere_split [] as = ([], [])"
| "cohere_split (tc # tcs) [] = (tc # tcs, [])"
| "cohere_split (tc # tcs) (a # as) =
     (let (remaining, notices) = cohere_split tcs as
      in if denied a then (remaining, notice_of a # notices) else (tc # remaining, notices))"

definition cohere_notices :: "string list \<Rightarrow> jval \<Rightarrow> jval" where
  "cohere_notices notices json =
     (let message = j_field json ''message'' in
      case j_array (j_field message ''content'') of
        Some arr \<Rightarrow> j_put ''message'' (j_put ''content'' (JArr (arr @ [text_block (lines_of notices)])) message) json
      | None \<Rightarrow> (case j_string (j_field json ''text'') of
            Some t \<Rightarrow> j_put ''text'' (with_notices t notices) json
          | None \<Rightarrow> j_put ''text'' (JStr (lines_of notices)) json))"

definition cohereRewrite :: "jval \<Rightarrow> answered list \<Rightarrow> jval" where
  "cohereRewrite json as = (case j_array (j_field json ''tool_calls'') of
     None \<Rightarrow> json
   | Some original \<Rightarrow>
       (let (remaining, notices) = cohere_split original as;
            json1 = (if remaining \<noteq> [] then j_put ''tool_calls'' (JArr remaining) json
                     else (let j = j_delete ''tool_calls'' json
                           in if j_field j ''finish_reason'' = JStr ''TOOL_CALL''
                              then j_put ''finish_reason'' (JStr ''COMPLETE'') j else j))
        in if notices \<noteq> [] then cohere_notices notices json1 else json1))"

text \<open>The parts, and whether a function call is still among them.\<close>

fun gemini_blocks :: "jval list \<Rightarrow> answered list \<Rightarrow> (jval list \<times> bool) option" where
  "gemini_blocks [] as = Some ([], False)"
| "gemini_blocks (p # ps) as = do {
     fc \<leftarrow> j_prop p ''functionCall'';
     (if \<not> j_truthy fc then map_option (map_prod ((#) p) id) (gemini_blocks ps as)
      else (case as of
          [] \<Rightarrow> map_option (\<lambda>(bs, still). (p # bs, True)) (gemini_blocks ps [])
        | a # as' \<Rightarrow>
            if denied a then map_option (map_prod ((#) (JObj [(''text'', JStr (notice_of a))])) id) (gemini_blocks ps as')
            else map_option (\<lambda>(bs, still). (p # bs, True)) (gemini_blocks ps as'))) }"

definition geminiRewrite :: "jval \<Rightarrow> answered list \<Rightarrow> jval option" where
  "geminiRewrite json as = (case j_array (j_field json ''candidates'') of
     Some (cand # candidates) \<Rightarrow> do {
       content \<leftarrow> j_prop cand ''content'';
       case j_array (j_field content ''parts'') of
         None \<Rightarrow> Some json
       | Some parts \<Rightarrow> do {
           (blocks, stillFunctionCall) \<leftarrow> gemini_blocks parts as;
           let cand1 = j_put ''content'' (j_put ''parts'' (JArr blocks) content) cand;
           let cand2 = (case j_string (j_field cand ''finishReason'') of
               Some fr \<Rightarrow> if \<not> stillFunctionCall \<and> fr \<notin> {''STOP'', ''MAX_TOKENS'', ''SAFETY''}
                         then j_put ''finishReason'' (JStr ''STOP'') cand1 else cand1
             | None \<Rightarrow> cand1);
           Some (j_put ''candidates'' (JArr (cand2 # candidates)) json) } }
   | _ \<Rightarrow> Some json)"

definition is_tool_block :: "jval \<Rightarrow> bool" where
  "is_tool_block b \<longleftrightarrow> j_string (j_field (j_field b ''toolUse'') ''name'') \<noteq> None"

fun converse_blocks :: "jval list \<Rightarrow> answered list \<Rightarrow> jval list" where
  "converse_blocks [] as = []"
| "converse_blocks (b # bs) as =
     (if \<not> is_tool_block b then b # converse_blocks bs as
      else (case as of
          [] \<Rightarrow> b # converse_blocks bs []
        | a # as' \<Rightarrow> (if denied a then JObj [(''text'', JStr (notice_of a))] else b) # converse_blocks bs as'))"

definition bedrockConverseRewrite :: "jval \<Rightarrow> answered list \<Rightarrow> jval" where
  "bedrockConverseRewrite json as =
     (let output = j_field json ''output''; message = j_field output ''message'' in
      case j_array (j_field message ''content'') of
        None \<Rightarrow> json
      | Some content \<Rightarrow>
          (let blocks = converse_blocks content as;
               message1 = j_put ''content'' (JArr blocks) message;
               json1 = j_put ''output'' (j_put ''message'' message1 output) json
           in end_turn ''stopReason'' (list_ex is_tool_block blocks) json1))"

definition rewriteResponseBody :: "host_match \<Rightarrow> jval \<Rightarrow> answered list \<Rightarrow> jval option" where
  "rewriteResponseBody m json as = (case hm_shape m of
     Some Shape_OpenAI_Chat \<Rightarrow> openAIRewrite json as
   | Some Shape_OpenAI_Responses \<Rightarrow> openAIRewrite json as
   | Some Shape_Anthropic_Messages \<Rightarrow> anthropicRewrite json as
   | Some Shape_Cohere_Chat \<Rightarrow> Some (cohereRewrite json as)
   | Some Shape_Gemini_Generate \<Rightarrow> geminiRewrite json as
   | Some Shape_Bedrock_Converse \<Rightarrow> Some (bedrockConverseRewrite json as)
   | Some Shape_Bedrock_Invoke \<Rightarrow> if isAnthropicInvokeResponse json then anthropicRewrite json as else Some json
   | _ \<Rightarrow> Some json)"

section \<open>A buffered response\<close>

definition evalResponseCall :: "bool \<Rightarrow> answers \<Rightarrow> nat \<Rightarrow> response_call \<Rightarrow> evaluation" where
  "evalResponseCall failDeny evaluator i c =
     (case evaluator i (rc_name c) (rc_args c) of Some e \<Rightarrow> e | None \<Rightarrow> failed_evaluation failDeny)"

definition answer_all :: "bool \<Rightarrow> answers \<Rightarrow> response_call list \<Rightarrow> answered list" where
  "answer_all failDeny evaluator calls =
     map (\<lambda>(i, c). (evalResponseCall failDeny evaluator i c, c)) (List.enumerate 0 calls)"

text \<open>The body forwarded and whether it was rewritten; \<^const>\<open>None\<close>: it throws.\<close>

definition enforceNonStreamingBody :: "host_match \<Rightarrow> bool \<Rightarrow> answers \<Rightarrow> byte list \<Rightarrow> (byte list \<times> bool) option" where
  "enforceNonStreamingBody m failDeny evaluator rawBody =
     (case json_parse (utf8_decode rawBody) of
        Some (JObj kvs) \<Rightarrow> do {
          calls \<leftarrow> extractResponseToolCalls m (JObj kvs);
          if calls = [] then Some (rawBody, False)
          else (let as = answer_all failDeny evaluator calls in
            if \<not> list_ex denied as then Some (rawBody, False)
            else do {
              rewritten \<leftarrow> rewriteResponseBody m (JObj kvs) as;
              Some (utf8_encode (json_text rewritten), True) }) }
      | _ \<Rightarrow> Some (rawBody, False))"

end
