(* ===== verification/Response_Safety.thy ===== *)
theory Response_Safety
  imports Provider_Extractors
begin

text \<open>
  What the buffered enforcement of \<^verbatim>\<open>instrumentation/_response-enforce.ts\<close> and the rewriters of
  \<^verbatim>\<open>instrumentation/provider-extractors.ts\<close> guarantee: in the body that is forwarded, exactly the allowed calls
  are left, in their order; and the two shapes for which a nameless entry breaks this.
\<close>

section \<open>Fields\<close>

lemma collect_append:
  "collect f (xs @ ys) = do { a \<leftarrow> collect f xs; b \<leftarrow> collect f ys; Some (a @ b) }"
  by (induction xs) (auto split: bind_splits)

lemma field_put: "j_is_object o' \<Longrightarrow> j_field (j_put k v o') k' = (if k' = k then v else j_field o' k')"
  by (cases o') (auto simp: j_is_object_def j_put_def j_field_def j_prop_def update_conv')

lemma field_delete: "j_is_object o' \<Longrightarrow> j_field (j_delete k o') k' = (if k' = k then JUndefined else j_field o' k')"
  by (cases o') (auto simp: j_is_object_def j_delete_def j_field_def j_prop_def delete_conv')

lemma put_object [simp]: "j_is_object (j_put k v o') = j_is_object o'" "j_is_object (j_delete k o') = j_is_object o'"
  by (simp_all add: j_is_object_def j_put_def j_delete_def split: jval.splits)

lemma field_object: "j_field v k \<noteq> JUndefined \<Longrightarrow> j_is_object v"
  by (cases v) (simp_all add: j_field_def j_prop_def j_is_object_def)

lemma array_object: "j_array (j_field v k) = Some vs \<Longrightarrow> j_is_object v"
  by (rule field_object [of v k]) (auto simp: j_array_def)

lemma prop_object: "j_is_object v \<Longrightarrow> j_prop v k = Some (j_field v k)"
  by (cases v) (simp_all add: j_is_object_def j_field_def j_prop_def)

lemma array_eq: "j_array v = Some vs \<longleftrightarrow> v = JArr vs"
  by (simp add: j_array_def split: jval.splits)

section \<open>Valid bodies\<close>

lemma valid_put: "json_valid o' \<Longrightarrow> json_valid v \<Longrightarrow> json_valid (j_put k v o')"
  using valid_update by (cases o') (auto simp: j_put_def simp del: json_valid.simps(4))

lemma valid_delete: "json_valid o' \<Longrightarrow> json_valid (j_delete k o')"
proof (cases o')
  case (JObj kvs)
  moreover have "set (AList.delete k kvs) \<subseteq> set kvs" by (induction kvs) auto
  ultimately show "json_valid o' \<Longrightarrow> json_valid (j_delete k o')"
    by (auto simp: j_delete_def list_all_iff distinct_delete)
qed (simp_all add: j_delete_def)

lemma valid_field: "json_valid v \<Longrightarrow> j_field v k \<noteq> JUndefined \<Longrightarrow> json_valid (j_field v k)"
  by (cases v) (auto simp: j_field_def j_prop_def list_all_iff split: option.splits dest!: map_of_SomeD)

lemma valid_array: "json_valid v \<Longrightarrow> j_array (j_field v k) = Some vs \<Longrightarrow> list_all json_valid vs"
  using valid_field [of v k] by (auto simp: array_eq)

lemma valid_object: "json_valid v \<Longrightarrow> j_is_object (j_field v k) \<Longrightarrow> json_valid (j_field v k)"
  by (rule valid_field) (auto simp: j_is_object_def)

section \<open>The lists of calls\<close>

definition kept :: "answered list \<Rightarrow> response_call list" where
  "kept as = map snd (filter (\<lambda>a. \<not> denied a) as)"

lemma kept_simps [simp]: "kept [] = []" "kept (a # as) = (if denied a then kept as else snd a # kept as)"
  by (simp_all add: kept_def)

lemma openai_one: "openai_response_call tc = Some cs \<Longrightarrow> \<exists>c. cs = [c]"
  by (auto simp: openai_response_call_def Let_def bind_eq_Some_conv)

lemma openai_split_kept:
  assumes "collect openai_response_call original = Some (map snd as)"
  shows "\<exists>rem notices. openai_split original as = Some (rem, notices) \<and> collect openai_response_call rem = Some (kept as)"
  using assms
proof (induction original arbitrary: as)
  case (Cons tc tcs)
  then obtain c cs where c: "openai_response_call tc = Some [c]" "collect openai_response_call tcs = Some cs" "map snd as = c # cs"
    using openai_one by (fastforce simp: bind_eq_Some_conv)
  then obtain a as' where a: "as = a # as'" "snd a = c" "cs = map snd as'" by (cases as) auto
  from Cons.IH [OF c(2) [unfolded a(3)]] c a show ?case by auto
qed simp

lemma openai_split_valid:
  "openai_split original as = Some (rem, notices) \<Longrightarrow> list_all json_valid original \<Longrightarrow> list_all json_valid rem"
proof (induction original as arbitrary: rem notices rule: openai_split.induct)
  case (3 tc tcs a as)
  then show ?case by (auto simp: bind_eq_Some_conv split: if_splits)
qed auto

lemma anthropic_call_cases:
  assumes "anthropic_response_call b = Some cs"
  shows "if is_tool_use b then length cs \<le> 1 else cs = []"
  using assms by (cases "j_prop b ''type''")
    (auto simp: anthropic_response_call_def is_tool_use_def j_field_def named_response_def split: option.splits)

lemma anthropic_blocks_length:
  "anthropic_blocks content as = Some bs \<Longrightarrow> length (filter is_tool_use content) \<le> length as"
  by (induction content as arbitrary: bs rule: anthropic_blocks.induct) (auto split: if_splits list.splits)

lemma anthropic_calls_length:
  "collect anthropic_response_call content = Some cs \<Longrightarrow> length cs \<le> length (filter is_tool_use content)"
proof (induction content arbitrary: cs)
  case (Cons b content)
  then obtain xs ys where "anthropic_response_call b = Some xs" "collect anthropic_response_call content = Some ys" "cs = xs @ ys"
    by (auto simp: bind_eq_Some_conv)
  with Cons.IH anthropic_call_cases [of b xs] show ?case by (fastforce split: if_splits)
qed simp

lemma notice_is_no_call:
  "anthropic_response_call (text_block s) = Some []"
  "converse_response_call (JObj [(''text'', JStr s)]) = Some []"
  "gemini_response_call (JObj [(''text'', JStr s)]) = Some []"
  by (simp_all add: anthropic_response_call_def converse_response_call_def gemini_response_call_def text_block_def
      j_prop_def j_field_def named_response_def j_string_def)

lemma anthropic_blocks_kept:
  assumes "collect anthropic_response_call content = Some (map snd as)" and "anthropic_blocks content as = Some bs"
  shows "collect anthropic_response_call bs = Some (kept as)"
  using assms
proof (induction content arbitrary: as bs)
  case (Cons b content)
  then obtain xs ys where x: "anthropic_response_call b = Some xs" "collect anthropic_response_call content = Some ys" "map snd as = xs @ ys"
    by (auto simp: bind_eq_Some_conv)
  show ?case
  proof (cases "is_tool_use b")
    case False
    with x Cons show ?thesis using anthropic_call_cases [OF x(1)] by auto
  next
    case True
    with Cons.prems(2) obtain a as' bs' where a: "as = a # as'" "anthropic_blocks content as' = Some bs'"
      "bs = (if denied a then text_block (notice_of a) else b) # bs'" by (auto split: list.splits)
    have "length ys \<le> length as'" using anthropic_calls_length [OF x(2)] anthropic_blocks_length [OF a(2)] by simp
    then have "xs \<noteq> []" using x(3) a(1) by (metis append_Nil impossible_Cons length_map list.simps(9))
    then obtain c where c: "xs = [c]" using anthropic_call_cases [OF x(1)] True by (cases xs) auto
    then show ?thesis using x a Cons.IH [of as' bs'] notice_is_no_call(1) by auto
  qed
qed simp

lemma anthropic_blocks_valid:
  "anthropic_blocks content as = Some bs \<Longrightarrow> list_all json_valid content \<Longrightarrow> list_all json_valid bs"
  by (induction content as arbitrary: bs rule: anthropic_blocks.induct)
    (auto simp: text_block_def split: if_splits list.splits)

lemma converse_call_cases:
  "converse_response_call b = Some cs \<Longrightarrow> if is_tool_block b then \<exists>c. cs = [c] else cs = []"
  by (cases "j_prop b ''toolUse''")
    (auto simp: converse_response_call_def is_tool_block_def j_field_def named_response_def split: option.splits)

lemma converse_blocks_kept:
  assumes "collect converse_response_call content = Some (map snd as)"
  shows "collect converse_response_call (converse_blocks content as) = Some (kept as)"
  using assms
proof (induction content arbitrary: as)
  case (Cons b content)
  then obtain xs ys where x: "converse_response_call b = Some xs" "collect converse_response_call content = Some ys" "map snd as = xs @ ys"
    by (auto simp: bind_eq_Some_conv)
  with Cons show ?case using converse_call_cases [OF x(1)] notice_is_no_call(2) by (cases as) (auto split: if_splits)
qed simp

lemma converse_blocks_valid: "list_all json_valid content \<Longrightarrow> list_all json_valid (converse_blocks content as)"
  by (induction content as rule: converse_blocks.induct) (auto split: list.splits)

lemma cohere_split_kept:
  assumes "collect cohere_response_call original = Some (map snd as)" and "list_all (\<lambda>tc. j_string (j_field tc ''name'') \<noteq> None) original"
    and "cohere_split original as = (rem, notices)"
  shows "collect cohere_response_call rem = Some (kept as)"
  using assms
proof (induction original arbitrary: as rem notices)
  case (Cons tc tcs)
  then obtain xs ys where x: "cohere_response_call tc = Some xs" "collect cohere_response_call tcs = Some ys" "map snd as = xs @ ys"
    by (auto simp: bind_eq_Some_conv)
  then obtain c where "xs = [c]" using Cons.prems(2)
    by (cases "j_prop tc ''name''") (auto simp: cohere_response_call_def j_field_def named_response_def split: option.splits)
  with x Cons show ?case by (cases as) (auto split: prod.splits if_splits)
qed simp

lemma cohere_split_valid:
  "cohere_split original as = (rem, notices) \<Longrightarrow> list_all json_valid original \<Longrightarrow> list_all json_valid rem"
  by (induction original as arbitrary: rem notices rule: cohere_split.induct) (auto split: prod.splits if_splits)

lemma gemini_blocks_kept:
  assumes "collect gemini_response_call parts = Some (map snd as)"
    and "list_all (\<lambda>p. j_truthy (j_field p ''functionCall'') \<longrightarrow> j_string (j_field (j_field p ''functionCall'') ''name'') \<noteq> None) parts"
    and "gemini_blocks parts as = Some (bs, still)"
  shows "collect gemini_response_call bs = Some (kept as)"
  using assms
proof (induction parts arbitrary: as bs still)
  case (Cons p parts)
  then obtain xs ys fc where x: "gemini_response_call p = Some xs" "collect gemini_response_call parts = Some ys" "map snd as = xs @ ys"
    and fc: "j_prop p ''functionCall'' = Some fc"
    by (auto simp: bind_eq_Some_conv)
  have f: "j_field p ''functionCall'' = fc" using fc by (simp add: j_field_def)
  have xs: "if j_truthy fc then \<exists>c. xs = [c] else xs = []"
    using x(1) fc Cons.prems(2) by (cases fc)
      (auto simp: gemini_response_call_def named_response_def f j_truthy_def j_field_def j_prop_def j_string_def split: option.splits jval.splits)
  show ?case
  proof (cases "j_truthy fc")
    case False
    with x xs fc Cons show ?thesis by (auto simp: bind_eq_Some_conv)
  next
    case True
    with x xs obtain a as' where "as = a # as'" "xs = [snd a]" "ys = map snd as'" by (cases as) auto
    with True x fc Cons notice_is_no_call(3) show ?thesis by (auto simp: bind_eq_Some_conv split: if_splits)
  qed
qed simp

lemma gemini_blocks_valid:
  "gemini_blocks parts as = Some (bs, still) \<Longrightarrow> list_all json_valid parts \<Longrightarrow> list_all json_valid bs"
proof (induction parts arbitrary: as bs still)
  case (Cons p parts)
  then show ?case by (cases as) (fastforce simp: bind_eq_Some_conv split: if_splits)+
qed simp

section \<open>Each shape\<close>

lemma object_by_object: "j_is_object (j_field v k) \<Longrightarrow> j_is_object v"
  by (rule field_object [of v k]) (auto simp: j_is_object_def)

lemmas field_laws = field_put field_delete prop_object

lemma openai_rewrite_kept:
  assumes "openAIResponseToolCalls json = Some (map snd as)" and "json_valid json" and "openAIRewrite json as = Some json'"
  shows "openAIResponseToolCalls json' = Some (kept as) \<and> json_valid json'"
proof -
  obtain c cs where ch: "j_array (j_field json ''choices'') = Some (c # cs)"
    using assms(3) by (auto simp: openAIRewrite_def split: option.splits list.splits)
  define message where "message = j_field c ''message''"
  obtain original where org: "j_array (j_field message ''tool_calls'') = Some original"
    using assms(3) ch by (auto simp: openAIRewrite_def Let_def message_def [symmetric] split: option.splits)
  have om: "j_is_object json" "j_is_object message" using ch org by (auto intro: array_object)
  then have oc: "j_is_object c" unfolding message_def by (blast intro: object_by_object)
  have cl: "collect openai_response_call original = Some (map snd as)"
    using assms(1) ch org om oc
    by (simp add: openAIResponseToolCalls_def prop_object message_def [symmetric] collect_in_def)
  obtain rem notices where sp: "openai_split original as = Some (rem, notices)" "collect openai_response_call rem = Some (kept as)"
    using openai_split_kept [OF cl] by blast
  have v: "json_valid c" "list_all json_valid cs" using valid_array [OF assms(2) ch] by simp_all
  then have vm: "json_valid message" using om(2) unfolding message_def by (blast intro: valid_object)
  have vr: "json_valid (JArr rem)" using openai_split_valid [OF sp(1)] valid_array [OF vm org] by simp
  define message1 where "message1 = (if rem \<noteq> [] then j_put ''tool_calls'' (JArr rem) message else j_delete ''tool_calls'' message)"
  define c1 where "c1 = (if rem \<noteq> [] then c else j_put ''finish_reason'' (JStr ''stop'') c)"
  define t where "t = with_notices (case j_field message1 ''content'' of JStr s \<Rightarrow> s | _ \<Rightarrow> []) notices"
  have j': "json' = j_put ''choices'' (JArr (j_put ''message'' (j_put ''content'' t message1) c1 # cs)) json"
    using assms(3) ch org sp(1) by (simp add: openAIRewrite_def Let_def message_def [symmetric] message1_def c1_def t_def)
  have o1: "j_is_object message1" "j_is_object c1" using om oc by (simp_all add: message1_def c1_def)
  have v1: "json_valid message1" "json_valid c1" "json_valid t"
    using vm v vr by (simp_all add: message1_def c1_def t_def with_notices_def valid_put valid_delete)
  have "collect_in openai_response_call (j_field message1 ''tool_calls'') = Some (kept as)"
    using sp(2) om by (cases "rem = []") (simp_all add: message1_def field_laws collect_in_def j_array_def)
  then show ?thesis using om oc o1 v v1 assms(2)
    by (simp add: j' openAIResponseToolCalls_def field_laws valid_put) (simp add: j_array_def field_laws)
qed

lemma end_turn_frame:
  "j_is_object json \<Longrightarrow> k' \<noteq> k \<Longrightarrow> j_field (end_turn k b json) k' = j_field json k'"
  "j_is_object (end_turn k b json) = j_is_object json"
  "json_valid json \<Longrightarrow> json_valid (end_turn k b json)"
  by (simp_all add: end_turn_def field_laws valid_put)

lemma anthropic_rewrite_kept:
  assumes "anthropicResponseToolCalls json = Some (map snd as)" and "json_valid json" and "anthropicRewrite json as = Some json'"
  shows "anthropicResponseToolCalls json' = Some (kept as) \<and> json_valid json' \<and>
    (isAnthropicInvokeResponse json \<longrightarrow> isAnthropicInvokeResponse json')"
proof -
  obtain content bs where c: "j_array (j_field json ''content'') = Some content" "anthropic_blocks content as = Some bs"
    and j': "json' = end_turn ''stop_reason'' (list_ex is_tool_use bs) (j_put ''content'' (JArr bs) json)"
    using assms(3) by (auto simp: anthropicRewrite_def bind_eq_Some_conv split: option.splits)
  have ob: "j_is_object json" using c(1) by (rule array_object)
  have "collect anthropic_response_call content = Some (map snd as)"
    using assms(1) c(1) ob by (simp add: anthropicResponseToolCalls_def prop_object collect_in_def)
  from anthropic_blocks_kept [OF this c(2)] have k: "collect anthropic_response_call bs = Some (kept as)" .
  have "json_valid (JArr bs)" using anthropic_blocks_valid [OF c(2)] valid_array [OF assms(2) c(1)] by simp
  then have "json_valid json'" using assms(2) by (simp add: j' end_turn_frame valid_put)
  then show ?thesis using k ob
    by (simp add: j' anthropicResponseToolCalls_def isAnthropicInvokeResponse_def prop_object end_turn_frame field_laws
        collect_in_def j_array_def)
qed

lemma converse_rewrite_kept:
  assumes "bedrockConverseResponseToolCalls json = Some (map snd as)" and "json_valid json"
  shows "bedrockConverseResponseToolCalls (bedrockConverseRewrite json as) = Some (kept as) \<and>
    json_valid (bedrockConverseRewrite json as)"
proof (cases "j_array (j_field (j_field (j_field json ''output'') ''message'') ''content'')")
  case None
  have "as = []" using assms(1) None by (auto simp: bedrockConverseResponseToolCalls_def bind_eq_Some_conv j_field_def collect_in_def)
  then show ?thesis using assms None by (simp add: bedrockConverseRewrite_def Let_def)
next
  case (Some content)
  define outp where "outp = j_field json ''output''"
  define message where "message = j_field outp ''message''"
  define bs where "bs = converse_blocks content as"
  have arr: "j_array (j_field message ''content'') = Some content" using Some by (simp add: message_def outp_def)
  have om: "j_is_object message" by (rule array_object [OF arr])
  then have oo: "j_is_object outp" unfolding message_def by (rule object_by_object)
  then have ob: "j_is_object json" unfolding outp_def by (rule object_by_object)
  have "collect converse_response_call content = Some (map snd as)"
    using assms(1) arr ob by (simp add: bedrockConverseResponseToolCalls_def prop_object collect_in_def message_def outp_def)
  then have k: "collect converse_response_call bs = Some (kept as)" unfolding bs_def by (rule converse_blocks_kept)
  have vo: "json_valid outp" using assms(2) oo unfolding outp_def by (rule valid_object)
  then have vm: "json_valid message" using om unfolding message_def by (rule valid_object)
  have vb: "json_valid (JArr bs)" using converse_blocks_valid valid_array [OF vm arr] by (simp add: bs_def)
  have j': "bedrockConverseRewrite json as = end_turn ''stopReason'' (list_ex is_tool_block bs)
      (j_put ''output'' (j_put ''message'' (j_put ''content'' (JArr bs) message) outp) json)"
    using arr by (simp add: bedrockConverseRewrite_def Let_def bs_def message_def outp_def)
  have "json_valid (bedrockConverseRewrite json as)"
    unfolding j' by (intro end_turn_frame(3) valid_put vb vo vm assms(2))
  then show ?thesis using k ob oo om
    by (simp add: j' bedrockConverseResponseToolCalls_def prop_object end_turn_frame field_laws collect_in_def j_array_def)
qed

definition calls_named :: "jval \<Rightarrow> bool" where
  "calls_named json \<longleftrightarrow>
     (case j_array (j_field json ''tool_calls'') of Some tcs \<Rightarrow> list_all (\<lambda>tc. j_string (j_field tc ''name'') \<noteq> None) tcs
      | None \<Rightarrow> True)"

definition functions_named :: "jval \<Rightarrow> bool" where
  "functions_named json \<longleftrightarrow>
     (case j_array (j_field json ''candidates'') of Some (cand # _) \<Rightarrow>
        (case j_array (j_field (j_field cand ''content'') ''parts'') of Some parts \<Rightarrow>
           list_all (\<lambda>p. j_truthy (j_field p ''functionCall'') \<longrightarrow>
             j_string (j_field (j_field p ''functionCall'') ''name'') \<noteq> None) parts
         | None \<Rightarrow> True)
      | _ \<Rightarrow> True)"

lemma cohere_notices_frame:
  assumes "j_is_object json" and "json_valid json"
  shows "j_is_object (cohere_notices ns json)" and "json_valid (cohere_notices ns json)"
    and "j_field (cohere_notices ns json) ''tool_calls'' = j_field json ''tool_calls''"
proof -
  have m: "j_is_object (j_field json ''message'')" if "j_array (j_field (j_field json ''message'') ''content'') = Some arr" for arr
    using that by (rule array_object)
  have v: "json_valid (j_put ''message'' (j_put ''content'' (JArr (arr @ [text_block t])) (j_field json ''message'')) json)"
    if a: "j_array (j_field (j_field json ''message'') ''content'') = Some arr" for arr t
  proof -
    have vm: "json_valid (j_field json ''message'')" using m [OF a] assms(2) by (blast intro: valid_object)
    have "json_valid (JArr (arr @ [text_block t]))" using valid_array [OF vm a] by (simp add: text_block_def)
    with vm assms(2) show ?thesis by (intro valid_put)
  qed
  show "j_is_object (cohere_notices ns json)" using assms(1) by (simp add: cohere_notices_def Let_def split: option.splits)
  show "json_valid (cohere_notices ns json)"
    using v assms(2) by (auto simp: cohere_notices_def Let_def with_notices_def split: option.splits intro!: valid_put)
  show "j_field (cohere_notices ns json) ''tool_calls'' = j_field json ''tool_calls''"
    using assms(1) by (simp add: cohere_notices_def Let_def field_laws split: option.splits)
qed

lemma cohere_rewrite_kept:
  assumes "cohereResponseToolCalls json = Some (map snd as)" and "json_valid json" and "calls_named json"
  shows "cohereResponseToolCalls (cohereRewrite json as) = Some (kept as) \<and> json_valid (cohereRewrite json as)"
proof (cases "j_array (j_field json ''tool_calls'')")
  case None
  have "as = []" using assms(1) None by (auto simp: cohereResponseToolCalls_def bind_eq_Some_conv j_field_def collect_in_def)
  then show ?thesis using assms None by (simp add: cohereRewrite_def)
next
  case (Some original)
  have ob: "j_is_object json" using Some by (rule array_object)
  obtain rem notices where sp: "cohere_split original as = (rem, notices)" by (cases "cohere_split original as")
  have "collect cohere_response_call original = Some (map snd as)"
    using assms(1) Some ob by (simp add: cohereResponseToolCalls_def prop_object collect_in_def)
  from cohere_split_kept [OF this _ sp] have k: "collect cohere_response_call rem = Some (kept as)"
    using assms(3) Some by (simp add: calls_named_def)
  have vr: "json_valid (JArr rem)" using cohere_split_valid [OF sp] valid_array [OF assms(2) Some] by simp
  define j where "j = j_delete ''tool_calls'' json"
  define json1 where "json1 = (if rem \<noteq> [] then j_put ''tool_calls'' (JArr rem) json
    else if j_field j ''finish_reason'' = JStr ''TOOL_CALL'' then j_put ''finish_reason'' (JStr ''COMPLETE'') j else j)"
  have j1: "j_is_object json1" "json_valid json1"
    using ob assms(2) vr by (simp_all add: json1_def j_def valid_put valid_delete)
  have c1: "collect_in cohere_response_call (j_field json1 ''tool_calls'') = Some (kept as)"
    using k ob by (cases "rem = []") (simp_all add: json1_def j_def field_laws collect_in_def j_array_def)
  have j': "cohereRewrite json as = (if notices \<noteq> [] then cohere_notices notices json1 else json1)"
    using Some sp by (simp add: cohereRewrite_def Let_def json1_def j_def)
  show ?thesis using cohere_notices_frame [OF j1] j1 c1
    by (simp add: j' cohereResponseToolCalls_def prop_object)
qed

lemma gemini_rewrite_kept:
  assumes "geminiResponseToolCalls json = Some (map snd as)" and "json_valid json" and "functions_named json"
    and "geminiRewrite json as = Some json'"
  shows "geminiResponseToolCalls json' = Some (kept as) \<and> json_valid json'"
proof (cases "json' = json \<and> as = []")
  case True
  then show ?thesis using assms by simp
next
  case False
  obtain cands where ca: "j_prop json ''candidates'' = Some cands" "j_field json ''candidates'' = cands"
    using assms(1) by (auto simp: geminiResponseToolCalls_def bind_eq_Some_conv j_field_def)
  obtain cand cs where c: "j_array cands = Some (cand # cs)"
    using assms(1,4) False by (auto simp: geminiRewrite_def geminiResponseToolCalls_def ca split: option.splits list.splits)
  obtain cont where co: "j_prop cand ''content'' = Some cont" "j_field cand ''content'' = cont"
    using assms(1) c by (auto simp: geminiResponseToolCalls_def ca bind_eq_Some_conv j_field_def)
  obtain parts where p: "j_array (j_field cont ''parts'') = Some parts"
    using assms(1,4) False
    by (cases "j_array (j_field cont ''parts'')") (auto simp: geminiRewrite_def geminiResponseToolCalls_def ca c co collect_in_def)
  have ch: "j_array (j_field json ''candidates'') = Some (cand # cs)"
    and pa: "j_array (j_field (j_field cand ''content'') ''parts'') = Some parts"
    using ca c co p by simp_all
  define content where "content = j_field cand ''content''"
  have oc: "j_is_object content" using pa unfolding content_def by (rule array_object)
  then have oa: "j_is_object cand" unfolding content_def by (rule object_by_object)
  have ob: "j_is_object json" using ch by (rule array_object)
  obtain bs still where bl: "gemini_blocks parts as = Some (bs, still)"
    using assms(4) ch pa oa by (auto simp: geminiRewrite_def prop_object bind_eq_Some_conv)
  have cl: "collect gemini_response_call parts = Some (map snd as)"
    using assms(1) ch pa ob oa by (simp add: geminiResponseToolCalls_def prop_object collect_in_def)
  have k: "collect gemini_response_call bs = Some (kept as)"
    using gemini_blocks_kept [OF cl _ bl] assms(3) ch pa by (simp add: functions_named_def)
  have v: "json_valid cand" "list_all json_valid cs" using valid_array [OF assms(2) ch] by simp_all
  then have vc: "json_valid content" using oc unfolding content_def by (blast intro: valid_object)
  have vb: "json_valid (JArr bs)" using gemini_blocks_valid [OF bl] valid_array [OF vc, of "''parts''" parts] pa by (simp add: content_def)
  define cand1 where "cand1 = j_put ''content'' (j_put ''parts'' (JArr bs) content) cand"
  define cand2 where "cand2 = (case j_string (j_field cand ''finishReason'') of
      Some fr \<Rightarrow> if \<not> still \<and> fr \<notin> {''STOP'', ''MAX_TOKENS'', ''SAFETY''} then j_put ''finishReason'' (JStr ''STOP'') cand1 else cand1
    | None \<Rightarrow> cand1)"
  have j': "json' = j_put ''candidates'' (JArr (cand2 # cs)) json"
    using assms(4) ch pa bl oa unfolding cand2_def cand1_def content_def by (simp add: geminiRewrite_def prop_object Let_def)
  have o1: "j_is_object cand1" "j_field cand1 ''content'' = j_put ''parts'' (JArr bs) content"
    using oa by (simp_all add: cand1_def field_laws)
  then have o2: "j_is_object cand2" "j_field cand2 ''content'' = j_put ''parts'' (JArr bs) content"
    by (simp_all add: cand2_def field_laws split: option.splits)
  have "json_valid cand1" unfolding cand1_def by (intro valid_put vb vc v)
  then have v2: "json_valid cand2" by (simp add: cand2_def valid_put split: option.splits)
  show ?thesis using k ob oc o2 v v2 assms(2)
    by (simp add: j' geminiResponseToolCalls_def field_laws valid_put) (simp add: j_array_def field_laws collect_in_def)
qed

section \<open>The forwarded body\<close>

lemma answer_all_calls: "map snd (answer_all fd ev calls) = calls"
  by (simp add: answer_all_def case_prod_unfold comp_def)

text \<open>The shapes whose entries may be nameless without harm, and the condition for the others.\<close>

definition well_named :: "host_match \<Rightarrow> jval \<Rightarrow> bool" where
  "well_named m json \<longleftrightarrow> (hm_shape m = Some Shape_Cohere_Chat \<longrightarrow> calls_named json) \<and>
     (hm_shape m = Some Shape_Gemini_Generate \<longrightarrow> functions_named json)"

lemma rewrite_kept:
  assumes "extractResponseToolCalls m json = Some (map snd as)" and "as \<noteq> []" and "json_valid json" and "well_named m json"
    and "rewriteResponseBody m json as = Some json'"
  shows "extractResponseToolCalls m json' = Some (kept as) \<and> json_valid json'"
proof (cases "hm_shape m")
  case None
  then show ?thesis using assms(1,2) by (simp add: extractResponseToolCalls_def)
next
  case (Some sh)
  note d = extractResponseToolCalls_def rewriteResponseBody_def well_named_def Some
  show ?thesis
  proof (cases sh)
    case Shape_OpenAI_Chat
    show ?thesis using assms openai_rewrite_kept [of json as json'] by (simp add: d Shape_OpenAI_Chat)
  next
    case Shape_OpenAI_Responses
    show ?thesis using assms openai_rewrite_kept [of json as json'] by (simp add: d Shape_OpenAI_Responses)
  next
    case Shape_Anthropic_Messages
    show ?thesis using assms anthropic_rewrite_kept [of json as json'] by (simp add: d Shape_Anthropic_Messages)
  next
    case Shape_Bedrock_Invoke
    show ?thesis using assms anthropic_rewrite_kept [of json as json'] by (auto simp: d Shape_Bedrock_Invoke split: if_splits)
  next
    case Shape_Bedrock_Converse
    show ?thesis using assms converse_rewrite_kept [of json as] by (auto simp: d Shape_Bedrock_Converse)
  next
    case Shape_Cohere_Chat
    show ?thesis using assms cohere_rewrite_kept [of json as] by (auto simp: d Shape_Cohere_Chat)
  next
    case Shape_Gemini_Generate
    show ?thesis using assms gemini_rewrite_kept [of json as json'] by (auto simp: d Shape_Gemini_Generate)
  next
    case Shape_Mcp_JsonRpc
    show ?thesis using assms(1,2) by (simp add: d Shape_Mcp_JsonRpc)
  qed
qed

lemma printed_body: "json_valid v \<Longrightarrow> json_parse (utf8_decode (utf8_encode (json_text v))) = Some v"
  using json_parse_stringify [of v] json_stringify_render [OF json_valid_ok, of v]
  by (simp add: utf8_decode_encode json_text_def)

text \<open>C9: a denied call never reaches the application in a buffered JSON response that the enforcer could rewrite, and an allowed
  one always does: the calls read from the forwarded body are exactly those read from the provider's that were not
  denied, in order. Read are the calls of a completion's first choice; for Cohere and Gemini the provider must give
  every call a name (\<open>nameless_call_shields_denied\<close>).\<close>

theorem exactly_allowed_calls_survive:
  assumes "json_parse (utf8_decode rawBody) = Some json" and "j_is_object json" and "well_named m json"
    and "extractResponseToolCalls m json = Some calls"
    and "enforceNonStreamingBody m fd ev rawBody = Some (body, rewritten)"
  shows "\<exists>json'. json_parse (utf8_decode body) = Some json' \<and>
    extractResponseToolCalls m json' = Some (map snd (filter (\<lambda>a. \<not> denied a) (answer_all fd ev calls)))"
proof -
  obtain kvs where j: "json = JObj kvs" using assms(2) by (auto simp: j_is_object_def split: jval.splits)
  let ?as = "answer_all fd ev calls"
  show ?thesis
  proof (cases "list_ex denied ?as")
    case False
    then have "filter (\<lambda>a. \<not> denied a) ?as = ?as" by (auto simp: list_ex_iff filter_id_conv)
    moreover have "body = rawBody"
      using assms(5) False by (simp add: enforceNonStreamingBody_def assms(1) j assms(4) [unfolded j] split: if_splits)
    ultimately show ?thesis using assms(1,4) answer_all_calls by simp
  next
    case True
    then have "calls \<noteq> []" by (auto simp: answer_all_def)
    with True assms(5) obtain json' where r: "rewriteResponseBody m json ?as = Some json'" "body = utf8_encode (json_text json')"
      by (auto simp: enforceNonStreamingBody_def assms(1) j assms(4) [unfolded j] bind_eq_Some_conv)
    have "?as \<noteq> []" using \<open>calls \<noteq> []\<close> answer_all_calls [of fd ev calls] by auto
    from rewrite_kept [OF _ this json_parse_valid [OF assms(1)] assms(3) r(1)] assms(4)
    have "extractResponseToolCalls m json' = Some (kept ?as)" "json_valid json'" by (simp_all add: answer_all_calls)
    then show ?thesis using printed_body r(2) by (auto simp: kept_def)
  qed
qed

definition sample_call :: "string \<Rightarrow> jval" where
  "sample_call n = JObj [(''type'', JStr ''tool_use''), (''name'', JStr n), (''input'', JObj [])]"

definition sample_response :: jval where
  "sample_response = JObj [(''content'', JArr [sample_call ''rm'', sample_call ''ls'']), (''stop_reason'', JStr ''tool_use'')]"

definition sample_anthropic :: host_match where
  "sample_anthropic = \<lparr>hm_provider = Some Prov_Anthropic, hm_shape = Some Shape_Anthropic_Messages\<rparr>"

definition no_rm :: answers where
  "no_rm i name args = Some (bare_evaluation (if name = ''rm'' then Dec_Deny else Dec_Allow) 0)"

lemma sample_raw: "json_parse (utf8_decode (utf8_encode (json_text sample_response))) = Some sample_response"
  by (rule printed_body) (simp add: sample_response_def sample_call_def)

lemma sample_calls:
  "extractResponseToolCalls sample_anthropic sample_response =
    Some [\<lparr>rc_name = ''rm'', rc_args = JObj [], rc_raw = ''{}''\<rparr>, \<lparr>rc_name = ''ls'', rc_args = JObj [], rc_raw = ''{}''\<rparr>]"
  by code_simp

lemma sample_enforced:
  "\<exists>body. enforceNonStreamingBody sample_anthropic True no_rm (utf8_encode (json_text sample_response)) = Some (body, True)"
proof -
  have o': "sample_response = JObj [(''content'', JArr [sample_call ''rm'', sample_call ''ls'']), (''stop_reason'', JStr ''tool_use'')]"
    by (rule sample_response_def)
  have "\<exists>v. rewriteResponseBody sample_anthropic sample_response
      (answer_all True no_rm [\<lparr>rc_name = ''rm'', rc_args = JObj [], rc_raw = ''{}''\<rparr>, \<lparr>rc_name = ''ls'', rc_args = JObj [], rc_raw = ''{}''\<rparr>])
      = Some v"
    by (simp add: rewriteResponseBody_def anthropicRewrite_def sample_anthropic_def sample_response_def sample_call_def j_field_def
        j_prop_def j_array_def is_tool_use_def answer_all_def)
  then show ?thesis using sample_calls sample_raw
    by (simp add: enforceNonStreamingBody_def o' answer_all_def evalResponseCall_def no_rm_def denied_def bare_evaluation_def) auto
qed

theorem exactly_allowed_calls_survive_witness:
  "\<exists>body json'. enforceNonStreamingBody sample_anthropic True no_rm (utf8_encode (json_text sample_response)) = Some (body, True) \<and>
    json_parse (utf8_decode body) = Some json' \<and>
    extractResponseToolCalls sample_anthropic json' = Some [\<lparr>rc_name = ''ls'', rc_args = JObj [], rc_raw = ''{}''\<rparr>]"
proof -
  obtain body where b: "enforceNonStreamingBody sample_anthropic True no_rm (utf8_encode (json_text sample_response)) = Some (body, True)"
    using sample_enforced by blast
  have "j_is_object sample_response" "well_named sample_anthropic sample_response" by code_simp+
  from exactly_allowed_calls_survive [OF sample_raw this sample_calls b] b show ?thesis
    by (auto simp: answer_all_def evalResponseCall_def no_rm_def denied_def bare_evaluation_def)
qed

text \<open>The name condition is needed: in a Cohere response a nameless entry in front of a denied call shifts the
  decisions by one, and the denied call is forwarded although the enforcer reports it blocked.\<close>

theorem nameless_call_shields_denied:
  assumes "hm_shape m = Some Shape_Cohere_Chat" and "j_field json ''tool_calls'' = JArr [x, tc]"
    and "j_is_object x" and "j_string (j_field x ''name'') = None" and "cohere_response_call tc = Some [c]" and "denied (e, c)"
  shows "extractResponseToolCalls m json = Some [c] \<and>
    (\<exists>json'. rewriteResponseBody m json [(e, c)] = Some json' \<and> json' \<noteq> json \<and> extractResponseToolCalls m json' = Some [c])"
proof -
  have ob: "j_is_object json" using assms(2) by (intro field_object [of json "''tool_calls''"]) simp
  have x: "cohere_response_call x = Some []" using assms(3,4) by (simp add: cohere_response_call_def prop_object named_response_def)
  define json1 where "json1 = j_put ''tool_calls'' (JArr [tc]) json"
  have r: "cohereRewrite json [(e, c)] = cohere_notices [notice_of (e, c)] json1"
    using assms(2,6) by (simp add: cohereRewrite_def j_array_def json1_def)
  have o1: "j_is_object json1" using ob by (simp add: json1_def)
  have f: "j_field (cohere_notices ns json1) ''tool_calls'' = JArr [tc]" "j_is_object (cohere_notices ns json1)" for ns
    using o1 ob by (simp_all add: cohere_notices_def Let_def field_laws json1_def split: option.splits)
  have "cohere_notices [notice_of (e, c)] json1 \<noteq> json"
  proof
    assume "cohere_notices [notice_of (e, c)] json1 = json"
    with f(1) [of "[notice_of (e, c)]"] assms(2) show False by simp
  qed
  then show ?thesis using assms(1,2,5) x ob f
    by (simp add: extractResponseToolCalls_def rewriteResponseBody_def cohereResponseToolCalls_def r prop_object collect_in_def j_array_def)
qed

theorem nameless_call_shields_denied_witness:
  "\<exists>json'. rewriteResponseBody \<lparr>hm_provider = Some Prov_Cohere, hm_shape = Some Shape_Cohere_Chat\<rparr>
      (JObj [(''tool_calls'', JArr [JObj [], sample_call ''rm''])])
      [(bare_evaluation Dec_Deny 0, \<lparr>rc_name = ''rm'', rc_args = JUndefined, rc_raw = ''{}''\<rparr>)] = Some json' \<and>
    extractResponseToolCalls \<lparr>hm_provider = Some Prov_Cohere, hm_shape = Some Shape_Cohere_Chat\<rparr> json' =
      Some [\<lparr>rc_name = ''rm'', rc_args = JUndefined, rc_raw = ''{}''\<rparr>]"
proof -
  have c: "cohere_response_call (sample_call ''rm'') = Some [\<lparr>rc_name = ''rm'', rc_args = JUndefined, rc_raw = ''{}''\<rparr>]"
    by code_simp
  show ?thesis
    using nameless_call_shields_denied [of "\<lparr>hm_provider = Some Prov_Cohere, hm_shape = Some Shape_Cohere_Chat\<rparr>"
        "JObj [(''tool_calls'', JArr [JObj [], sample_call ''rm''])]" "JObj []" "sample_call ''rm''" _ "bare_evaluation Dec_Deny 0", OF _ _ _ _ c]
    by (auto simp: j_field_def j_prop_def j_is_object_def j_string_def denied_def bare_evaluation_def)
qed

end
