(* ===== verification/Mcp_Http.thy ===== *)
theory Mcp_Http
  imports Sse_Parsers
begin

text \<open>
  \<^verbatim>\<open>instrumentation/mcp-http.ts\<close>: what the HTTP planes know about MCP. Which requests are MCP messages, the
  JSON-RPC body, the refusals, the map from endpoint to server name and session (at most 128 entries),
  and the tokens by which the official client's patch tells the wire plane that it has evaluated a
  call already. Environment variables and \<^verbatim>\<open>new URL\<close> are arguments; the caches of parsed variables, which
  are keyed by the variable's value, are left out.
\<close>

section \<open>Detection\<close>

record mcp_env =
  me_http :: "string option"
  me_endpoints :: "string option"

definition mcpHttpEnabled :: "mcp_env \<Rightarrow> bool" where
  "mcpHttpEnabled env = (js_lower (js_trim (case me_http env of Some s \<Rightarrow> s | None \<Rightarrow> [])) \<notin> {''off'', ''0'', ''false''})"

fun split_commas :: "string \<Rightarrow> string list" where
  "split_commas [] = [[]]"
| "split_commas (c # s) =
     (if c = CHR '','' then [] # split_commas s else (c # hd (split_commas s)) # tl (split_commas s))"

definition mcpEndpointPrefixes :: "mcp_env \<Rightarrow> string list" where
  "mcpEndpointPrefixes env =
     filter (\<lambda>s. s \<noteq> []) (map js_trim (split_commas (case me_endpoints env of Some s \<Rightarrow> s | None \<Rightarrow> [])))"

definition isMcpWireCandidate :: "mcp_env \<Rightarrow> string option \<Rightarrow> string option \<Rightarrow> string \<Rightarrow> bool" where
  "isMcpWireCandidate env method accept url =
     (if \<not> mcpHttpEnabled env then False
      else (let post = (js_upper (case method of Some m \<Rightarrow> m | None \<Rightarrow> []) = ''POST'') in
        if list_ex (\<lambda>p. js_startsWith url p \<and> post) (mcpEndpointPrefixes env) then True
        else if \<not> post then False
        else (let a = js_lower (case accept of Some x \<Rightarrow> x | None \<Rightarrow> [])
              in js_includes a ''application/json'' \<and> js_includes a ''text/event-stream'')))"

definition isOldTransportEndpoint :: "mcp_env \<Rightarrow> string \<Rightarrow> bool" where
  "isOldTransportEndpoint env url = list_ex (js_startsWith url) (mcpEndpointPrefixes env)"

section \<open>Bodies\<close>

record mcp_call =
  mc_id :: jval
  mc_toolName :: string
  mc_args :: "jval option"

datatype mcp_message = Mm_Call mcp_call | Mm_Initialize jval | Mm_Other jval

datatype mcp_parsed = Mp_Call mcp_call | Mp_Initialize jval | Mp_Batch "mcp_call list" "jval list" | Mp_Other

definition asId :: "jval \<Rightarrow> jval" where
  "asId v = (case v of JStr _ \<Rightarrow> v | JNum _ \<Rightarrow> v | _ \<Rightarrow> JNull)"

definition parseOneMessage :: "jval \<Rightarrow> mcp_message option" where
  "parseOneMessage obj =
     (if j_field obj ''jsonrpc'' \<noteq> JStr ''2.0'' then None
      else (let method = j_field obj ''method''; i = asId (j_field obj ''id'') in
        if method = JStr ''tools/call'' then
          (let params = j_field obj ''params'' in
           if j_is_object params then
             Some (Mm_Call \<lparr>mc_id = i,
               mc_toolName = (case j_string (j_field params ''name'') of Some n \<Rightarrow> n | None \<Rightarrow> []),
               mc_args = (let a = j_field params ''arguments'' in if j_is_object a then Some a else None)\<rparr>)
           else Some (Mm_Call \<lparr>mc_id = i, mc_toolName = [], mc_args = None\<rparr>))
        else if method = JStr ''initialize'' then Some (Mm_Initialize i)
        else Some (Mm_Other i)))"

definition batch_messages :: "jval list \<Rightarrow> mcp_message list" where
  "batch_messages entries = List.map_filter parseOneMessage (filter j_is_object entries)"

definition message_calls :: "mcp_message list \<Rightarrow> mcp_call list" where
  "message_calls ms = List.map_filter (\<lambda>m. case m of Mm_Call c \<Rightarrow> Some c | _ \<Rightarrow> None) ms"

definition message_others :: "mcp_message list \<Rightarrow> jval list" where
  "message_others ms = List.map_filter (\<lambda>m. case m of Mm_Call _ \<Rightarrow> None | Mm_Initialize i \<Rightarrow> Some i | Mm_Other i \<Rightarrow> Some i) ms"

definition parseMcpBody :: "string \<Rightarrow> mcp_parsed option" where
  "parseMcpBody rawBody = (case json_parse rawBody of
     None \<Rightarrow> None
   | Some (JArr entries) \<Rightarrow>
       (let ms = batch_messages entries in
        if ms = [] then None
        else if message_calls ms = [] then Some Mp_Other
        else Some (Mp_Batch (message_calls ms) (message_others ms)))
   | Some (JObj kvs) \<Rightarrow> (case parseOneMessage (JObj kvs) of
         None \<Rightarrow> None
       | Some (Mm_Call c) \<Rightarrow> Some (Mp_Call c)
       | Some (Mm_Initialize i) \<Rightarrow> Some (Mp_Initialize i)
       | Some (Mm_Other _) \<Rightarrow> Some Mp_Other)
   | Some _ \<Rightarrow> None)"

section \<open>Refusals\<close>

definition denied_by_policy :: "string option \<Rightarrow> string" where
  "denied_by_policy reason = ''[agentum] tool call denied by policy: '' @
     (case reason of Some r \<Rightarrow> r | None \<Rightarrow> ''no matching allow rule'')"

definition buildMcpDenyResult :: "jval \<Rightarrow> string option \<Rightarrow> jval" where
  "buildMcpDenyResult i reason = JObj [(''jsonrpc'', JStr ''2.0''), (''id'', i),
     (''result'', JObj [(''content'', JArr [JObj [(''type'', JStr ''text''), (''text'', JStr (denied_by_policy reason))]]),
       (''isError'', JBool True)])]"

definition buildMcpDenyError :: "jval \<Rightarrow> string option \<Rightarrow> jval" where
  "buildMcpDenyError i reason = JObj [(''jsonrpc'', JStr ''2.0''), (''id'', i),
     (''error'', JObj [(''code'', JNum ''-32000''), (''message'', JStr (denied_by_policy reason))])]"

section \<open>Servers and sessions\<close>

record mcp_endpoint =
  ep_serverName :: "string option"
  ep_sessionId :: "string option"

definition MAX_ENDPOINTS :: int where "MAX_ENDPOINTS = 128"

type_synonym endpoint_map = "(string, mcp_endpoint) jsmap"

text \<open>\<^verbatim>\<open>new URL(url)\<close> gives origin and path, or throws.\<close>

definition mcpEndpointKey :: "(string \<Rightarrow> (string \<times> string) option) \<Rightarrow> string \<Rightarrow> string" where
  "mcpEndpointKey new_URL url = (case new_URL url of Some (orig, path) \<Rightarrow> orig @ path | None \<Rightarrow> url)"

definition some_text :: "string option \<Rightarrow> string option" where
  "some_text s = (case s of Some t \<Rightarrow> if t \<noteq> [] then Some t else None | None \<Rightarrow> None)"

fun drop_while_over :: "nat \<Rightarrow> int \<Rightarrow> ('k, 'v) jsmap \<Rightarrow> ('k, 'v) jsmap" where
  "drop_while_over 0 bound m = m"
| "drop_while_over (Suc fuel) bound m = (if jm_size m > bound then drop_while_over fuel bound (jm_drop_oldest m) else m)"

definition recordMcpServer :: "endpoint_map \<Rightarrow> string \<Rightarrow> string option \<Rightarrow> string option \<Rightarrow> endpoint_map" where
  "recordMcpServer m key serverName sessionId =
     (if some_text serverName = None \<and> some_text sessionId = None then m
      else (let existing = (case jm_get m key of Some r \<Rightarrow> r | None \<Rightarrow> \<lparr>ep_serverName = None, ep_sessionId = None\<rparr>);
                r1 = (case some_text serverName of Some n \<Rightarrow> existing\<lparr>ep_serverName := Some n\<rparr> | None \<Rightarrow> existing);
                r2 = (case some_text sessionId of Some s \<Rightarrow> r1\<lparr>ep_sessionId := Some s\<rparr> | None \<Rightarrow> r1);
                m1 = jm_set key r2 (jm_del key m)
            in drop_while_over (length m1) MAX_ENDPOINTS m1))"

definition lookupMcpServer :: "endpoint_map \<Rightarrow> string \<Rightarrow> mcp_endpoint option" where
  "lookupMcpServer m key = jm_get m key"

text \<open>\<^verbatim>\<open>instrumentation/mcp-stdio-patch.ts\<close>\<close>

definition namespacedToolName :: "string \<Rightarrow> string option \<Rightarrow> string" where
  "namespacedToolName toolName serverName =
     (case some_text serverName of Some s \<Rightarrow> toolName @ ''_mcp_'' @ s | None \<Rightarrow> toolName)"

definition mcpActionFor :: "endpoint_map \<Rightarrow> string \<Rightarrow> string \<Rightarrow> string" where
  "mcpActionFor m key toolName =
     namespacedToolName toolName (case jm_get m key of Some r \<Rightarrow> ep_serverName r | None \<Rightarrow> None)"

text \<open>The url and the name passed on to the evaluator.\<close>

definition mcpServerInfoFor :: "endpoint_map \<Rightarrow> string \<Rightarrow> string option \<times> string option" where
  "mcpServerInfoFor m key =
     (if key \<noteq> [] then Some key else None,
      case jm_get m key of Some r \<Rightarrow> some_text (ep_serverName r) | None \<Rightarrow> None)"

section \<open>The reply to initialize\<close>

definition extractServerInfo :: "jval \<Rightarrow> string option" where
  "extractServerInfo json =
     (let result = j_field json ''result'' in
      if \<not> j_is_object result then None
      else (let serverInfo = j_field result ''serverInfo'' in
        if \<not> j_is_object serverInfo then None else j_string (j_field serverInfo ''name'')))"

definition tryServerNameFromJson :: "string \<Rightarrow> string option" where
  "tryServerNameFromJson s = (case json_parse s of
     Some json \<Rightarrow> if j_is_object json then extractServerInfo json else None | None \<Rightarrow> None)"

fun scan_lines :: "string \<Rightarrow> string list \<Rightarrow> string option" where
  "scan_lines dataBuf [] = (if dataBuf \<noteq> [] then some_text (tryServerNameFromJson dataBuf) else None)"
| "scan_lines dataBuf (line # ls) =
     (if js_startsWith line ''data:'' then scan_lines (dataBuf @ dropWhile is_ws (drop 5 line)) ls
      else if line = [] \<and> dataBuf \<noteq> [] then
        (case some_text (tryServerNameFromJson dataBuf) of Some n \<Rightarrow> Some n | None \<Rightarrow> scan_lines [] ls)
      else scan_lines dataBuf ls)"

definition scanInitializeSse :: "string \<Rightarrow> string option" where
  "scanInitializeSse chunk = scan_lines [] (split_lines chunk)"

section \<open>Tokens for calls evaluated already\<close>

text \<open>The expiry of each token.\<close>

type_synonym suppression_map = "(string, int) jsmap"

definition SUPPRESSION_TTL_MS :: int where "SUPPRESSION_TTL_MS = 5000"
definition SUPPRESSION_MAX :: int where "SUPPRESSION_MAX = 64"

definition call_text :: "string \<Rightarrow> jval option \<Rightarrow> string" where
  "call_text action args = action @ ''::'' @ (case args of None \<Rightarrow> ''null'' | Some a \<Rightarrow> json_text a)"

definition suppressionKey :: "string \<Rightarrow> jval option \<Rightarrow> string" where
  "suppressionKey action args = take 512 (call_text action args)"

definition pruneSuppression :: "int \<Rightarrow> suppression_map \<Rightarrow> suppression_map" where
  "pruneSuppression now m =
     (let live = filter (\<lambda>(k, expiresAt). \<not> expiresAt \<le> now) m in drop_while_over (length live) SUPPRESSION_MAX live)"

definition markMcpCallEvaluated :: "suppression_map \<Rightarrow> string \<Rightarrow> jval option \<Rightarrow> int \<Rightarrow> suppression_map" where
  "markMcpCallEvaluated m action args now =
     jm_set (suppressionKey action args) (now + SUPPRESSION_TTL_MS) (pruneSuppression now m)"

definition consumeMcpCallEvaluated :: "suppression_map \<Rightarrow> string \<Rightarrow> jval option \<Rightarrow> int \<Rightarrow> bool \<times> suppression_map" where
  "consumeMcpCallEvaluated m action args now =
     (let key = suppressionKey action args in
      case jm_get m key of
        None \<Rightarrow> (False, m)
      | Some expiresAt \<Rightarrow> (\<not> expiresAt \<le> now, jm_del key m))"

section \<open>Audit\<close>

definition sorted_keys :: "jval \<Rightarrow> string list" where
  "sorted_keys v = (case v of JObj kvs \<Rightarrow> sort (map fst kvs) | _ \<Rightarrow> [])"

text \<open>The event type and the detail of an audit row; never an argument's value.\<close>

definition emitMcpHttpAudit :: "bool \<Rightarrow> string \<Rightarrow> jval option \<Rightarrow> string \<Rightarrow> string option \<Rightarrow> string option \<Rightarrow> string \<times> jval" where
  "emitMcpHttpAudit allowed action callArgs endpointKey reason sessionId =
     (if allowed then ''mcp_tool_call'' else ''mcp_tool_deny'',
      JObj [(''tool'', JStr action), (''reason'', j_opt_str reason), (''transport'', JStr ''http''),
        (''source'', JStr ''@lupid/sdk/instrumentation/mcp-http''),
        (''argument_keys'', JArr (case callArgs of Some a \<Rightarrow> map JStr (sorted_keys a) | None \<Rightarrow> [])),
        (''endpoint'', JStr endpointKey), (''mcp_session_id'', j_opt_str sessionId)])"

section \<open>Properties\<close>

lemma drop_while_over_ok: "jm_ok m \<Longrightarrow> jm_ok (drop_while_over n b m)"
  by (induction n b m rule: drop_while_over.induct) (auto simp: jm_simps)

lemma drop_while_over_size:
  assumes "jm_ok m" and "0 \<le> b" and "length m \<le> n"
  shows "jm_size (drop_while_over n b m) \<le> b"
  using assms
proof (induction n b m rule: drop_while_over.induct)
  case (2 n b m)
  then show ?case by (auto simp: jm_simps length_jm_drop_oldest)
qed simp

lemma drop_while_over_get: "jm_get (drop_while_over n b m) k = Some v \<Longrightarrow> jm_get m k = Some v"
  by (induction n b m rule: drop_while_over.induct) (auto split: if_splits dest: jm_get_drop_oldest)

text \<open>The endpoint map keeps its bound.\<close>

lemma endpoint_map_bounded:
  assumes "jm_ok m" and "jm_size m \<le> MAX_ENDPOINTS"
  shows "jm_ok (recordMcpServer m key n s) \<and> jm_size (recordMcpServer m key n s) \<le> MAX_ENDPOINTS"
proof -
  have "recordMcpServer m key n s = m \<or> (\<exists>r. recordMcpServer m key n s =
      drop_while_over (length (jm_set key r (jm_del key m))) MAX_ENDPOINTS (jm_set key r (jm_del key m)))"
    by (auto simp: recordMcpServer_def Let_def)
  then consider "recordMcpServer m key n s = m"
    | r where "recordMcpServer m key n s = drop_while_over (length (jm_set key r (jm_del key m))) MAX_ENDPOINTS (jm_set key r (jm_del key m))"
    by blast
  then show ?thesis
  proof cases
    case (2 r)
    have "jm_ok (jm_set key r (jm_del key m))" using assms(1) by (simp add: jm_simps)
    with drop_while_over_size [OF this _ order_refl, of MAX_ENDPOINTS] drop_while_over_ok 2
    show ?thesis by (simp add: MAX_ENDPOINTS_def)
  qed (use assms in simp)
qed

datatype token_event = Mark_Evaluated string "jval option" int | Consume_Token string "jval option" int

fun token_step :: "suppression_map \<Rightarrow> token_event \<Rightarrow> suppression_map" where
  "token_step m (Mark_Evaluated a x t) = markMcpCallEvaluated m a x t"
| "token_step m (Consume_Token a x t) = snd (consumeMcpCallEvaluated m a x t)"

definition token_key :: "token_event \<Rightarrow> string" where
  "token_key e = (case e of Mark_Evaluated a x t \<Rightarrow> suppressionKey a x | Consume_Token a x t \<Rightarrow> suppressionKey a x)"

text \<open>Newest event first: a token goes back to a mark of its key that no later event of the key used up.\<close>

fun token_of :: "token_event list \<Rightarrow> string \<Rightarrow> int option" where
  "token_of [] k = None"
| "token_of (e # es) k =
     (if token_key e = k then (case e of Mark_Evaluated a x t \<Rightarrow> Some t | Consume_Token a x t \<Rightarrow> None)
      else token_of es k)"

lemma prune_get: "jm_get (pruneSuppression now m) k = Some x \<Longrightarrow> jm_ok m \<Longrightarrow> jm_get m k = Some x"
proof -
  assume "jm_get (pruneSuppression now m) k = Some x" and ok: "jm_ok m"
  then have "jm_get (filter (\<lambda>(k, expiresAt). \<not> expiresAt \<le> now) m) k = Some x"
    by (auto simp only: pruneSuppression_def Let_def intro: drop_while_over_get)
  then have "(k, x) \<in> set m" by (auto dest!: map_of_SomeD)
  with ok show "jm_get m k = Some x" by simp
qed

lemma prune_ok: "jm_ok m \<Longrightarrow> jm_ok (pruneSuppression now m)"
  by (auto simp: pruneSuppression_def Let_def distinct_map_filter intro: drop_while_over_ok)

lemma token_run:
  "jm_ok (foldl token_step [] es) \<and>
   (\<forall>k x. jm_get (foldl token_step [] es) k = Some x \<longrightarrow> (\<exists>t. token_of (rev es) k = Some t \<and> x = t + SUPPRESSION_TTL_MS))"
proof (induction es rule: rev_induct)
  case (snoc e es)
  let ?m = "foldl token_step [] es"
  show ?case
  proof (cases e)
    case (Mark_Evaluated a x t)
    with snoc prune_ok [of ?m t] prune_get [of t ?m] show ?thesis
      by (auto simp: markMcpCallEvaluated_def token_key_def jm_simps)
  next
    case (Consume_Token a x t)
    with snoc show ?thesis
      by (auto simp: consumeMcpCallEvaluated_def Let_def token_key_def jm_simps simp del: map_of_eq_Some_iff
          split: option.splits if_splits)
  qed
qed simp

lemma json_text_inject: "json_valid v \<Longrightarrow> json_valid w \<Longrightarrow> json_text v = json_text w \<Longrightarrow> v = w"
  using json_parse_stringify [of v] json_parse_stringify [of w] by (auto simp: json_text_def split: option.splits)

definition plain_call :: "string \<Rightarrow> jval option \<Rightarrow> bool" where
  "plain_call action args \<longleftrightarrow> CHR '':'' \<notin> set action \<and>
     (case args of None \<Rightarrow> True | Some v \<Rightarrow> json_valid v \<and> j_is_object v)"

lemma call_text_inject:
  assumes "plain_call a x" and "plain_call b y" and "call_text a x = call_text b y"
  shows "a = b \<and> x = y"
proof -
  let ?t = "\<lambda>x. case x of None \<Rightarrow> ''null'' | Some v \<Rightarrow> json_text v"
  have "a @ CHR '':'' # (CHR '':'' # ?t x) = b @ CHR '':'' # (CHR '':'' # ?t y)"
    using assms(3) by (simp add: call_text_def)
  then have e: "a = b" "?t x = ?t y" using assms(1,2) by (simp_all add: plain_call_def separator_inject)
  have brace: "\<exists>r. json_text v = CHR ''{'' # r" if "json_valid v" "j_is_object v" for v
    using that json_stringify_render [OF json_valid_ok [OF that(1)]] by (cases v) (simp_all add: json_text_def j_is_object_def)
  show ?thesis
  proof (cases x)
    case None
    with e assms(2) brace show ?thesis by (cases y) (fastforce simp: plain_call_def)+
  next
    case (Some v)
    with e assms(1,2) brace [of v] json_text_inject [of v] show ?thesis by (cases y) (auto simp: plain_call_def)
  qed
qed

lemma token_of_split:
  "token_of es k = Some t \<Longrightarrow> \<exists>new a x old. es = new @ Mark_Evaluated a x t # old \<and> suppressionKey a x = k \<and> (\<forall>e \<in> set new. token_key e \<noteq> k)"
proof (induction es)
  case (Cons e es)
  show ?case
  proof (cases "token_key e = k")
    case True
    with Cons.prems show ?thesis by (cases e) (fastforce simp: token_key_def)+
  next
    case False
    with Cons obtain new a x old where "es = new @ Mark_Evaluated a x t # old" "suppressionKey a x = k" "\<forall>e \<in> set new. token_key e \<noteq> k"
      by auto
    with False show ?thesis by (intro exI [of _ "e # new"]) auto
  qed
qed simp

lemma skipped_was_marked:
  assumes "fst (consumeMcpCallEvaluated (foldl token_step [] es) action args now)"
    and "length (call_text action args) < 512" and "plain_call action args"
    and "\<forall>a x t. Mark_Evaluated a x t \<in> set es \<longrightarrow> plain_call a x"
  shows "\<exists>before t later. es = before @ Mark_Evaluated action args t # later \<and> now < t + SUPPRESSION_TTL_MS \<and>
    (\<forall>e \<in> set later. token_key e \<noteq> suppressionKey action args)"
proof -
  let ?k = "suppressionKey action args"
  obtain y where y: "jm_get (foldl token_step [] es) ?k = Some y" "now < y"
    using assms(1) by (auto simp: consumeMcpCallEvaluated_def Let_def split: option.splits)
  then obtain t where t: "token_of (rev es) ?k = Some t" "y = t + SUPPRESSION_TTL_MS" using token_run [of es] by blast
  then obtain new a x old where s: "rev es = new @ Mark_Evaluated a x t # old" "suppressionKey a x = ?k" "\<forall>e \<in> set new. token_key e \<noteq> ?k"
    using token_of_split by blast
  have es: "es = rev old @ Mark_Evaluated a x t # rev new" using arg_cong [OF s(1), of rev] by simp
  have "length ?k < 512" using assms(2) by (simp add: suppressionKey_def)
  then have "length (call_text a x) < 512" using s(2) by (metis length_take min_less_iff_disj less_irrefl suppressionKey_def)
  then have "call_text a x = call_text action args" using s(2) assms(2) by (simp add: suppressionKey_def)
  with call_text_inject [of a x action args] assms(3,4) es have "a = action \<and> x = args" by auto
  with es s(3) y(2) t(2) show ?thesis by (intro exI [of _ "rev old"] exI [of _ t] exI [of _ "rev new"]) simp
qed

text \<open>The wire plane skips a call only because the official client's patch has evaluated and allowed that very
  call less than five seconds before, and each evaluation lets one call pass: no other call with
  the mark's key came in between. It holds for calls whose text stays below 512 characters.\<close>

theorem suppressed_call_was_evaluated:
  assumes "fst (consumeMcpCallEvaluated (foldl token_step [] es) action args now)"
    and "length (call_text action args) < 512" and "plain_call action args"
    and "\<forall>a x t. Mark_Evaluated a x t \<in> set es \<longrightarrow> plain_call a x"
  shows "\<exists>before t later. es = before @ Mark_Evaluated action args t # later \<and> now < t + SUPPRESSION_TTL_MS \<and>
    (\<forall>e \<in> set later. token_key e \<noteq> suppressionKey action args)"
  using skipped_was_marked [OF assms] .

theorem suppressed_call_was_evaluated_witness:
  "\<exists>before t later. [Mark_Evaluated ''ls'' None 10] = before @ Mark_Evaluated ''ls'' None t # later \<and> 20 < t + SUPPRESSION_TTL_MS"
  using suppressed_call_was_evaluated [of "[Mark_Evaluated ''ls'' None 10]" "''ls''" None 20]
  by (simp add: consumeMcpCallEvaluated_def markMcpCallEvaluated_def pruneSuppression_def SUPPRESSION_TTL_MS_def
      call_text_def plain_call_def) blast

text \<open>The bound is sharp: two calls that agree on the first 512 characters share a token, so that evaluating the
  one lets the other reach the server without evaluation.\<close>

theorem long_calls_share_a_token:
  assumes "take 512 (call_text a x) = take 512 (call_text b y)" and "now < t + SUPPRESSION_TTL_MS"
  shows "fst (consumeMcpCallEvaluated (markMcpCallEvaluated m a x t) b y now)"
  using assms by (simp add: consumeMcpCallEvaluated_def markMcpCallEvaluated_def suppressionKey_def Let_def jm_simps)

definition write_call :: "string \<Rightarrow> jval option" where
  "write_call target = Some (JObj [(''text'', JStr (replicate 512 (CHR ''x''))), (''path'', JStr target)])"

theorem long_calls_share_a_token_witness:
  "write_call ''/tmp/a'' \<noteq> write_call ''/etc/b'' \<and>
   fst (consumeMcpCallEvaluated (markMcpCallEvaluated [] ''write'' (write_call ''/tmp/a'') 0) ''write'' (write_call ''/etc/b'') 1)"
proof -
  have q: "quote_char (CHR ''x'') = ''x''" by (simp add: quote_char_def)
  have "concat (map quote_char (replicate n (CHR ''x''))) = replicate n (CHR ''x'')" for n
    by (induction n) (simp_all add: q)
  moreover have "json_text v = render v" if "json_ok v" for v using that by (simp add: json_text_def json_stringify_render)
  ultimately have t: "\<exists>r. call_text ''write'' (write_call p) =
      ''write::{\"text\":\"'' @ replicate 512 (CHR ''x'') @ r" for p
    by (simp add: call_text_def write_call_def json_quote_def quote_char_def)
  then obtain r1 r2 where r: "call_text ''write'' (write_call ''/tmp/a'') = ''write::{\"text\":\"'' @ replicate 512 (CHR ''x'') @ r1"
      "call_text ''write'' (write_call ''/etc/b'') = ''write::{\"text\":\"'' @ replicate 512 (CHR ''x'') @ r2"
    by blast
  have "take 512 (call_text ''write'' (write_call ''/tmp/a'')) = take 512 (call_text ''write'' (write_call ''/etc/b''))"
    unfolding r by (simp add: take_append)
  from long_calls_share_a_token [OF this, of 1 0 "[]"] show ?thesis by (simp add: write_call_def SUPPRESSION_TTL_MS_def)
qed

end
