(* ===== verification/Stream_Batch.thy ===== *)
theory Stream_Batch
  imports Stream_Safety
begin

text \<open>
  The abstract specification of streaming enforcement for the text protocols: decode the whole response, cut
  it into frames, resolve the events in one pass. The push-based enforcer of
  \<^verbatim>\<open>instrumentation/_response-enforce.ts\<close>, which sees the response in whatever chunks the network delivers and
  keeps partial characters, frames and calls between them, refines it.
\<close>

section \<open>The specification\<close>

text \<open>A last frame that is not terminated is parsed too.\<close>

definition whole_events :: "'p frame_parser \<Rightarrow> 'p \<Rightarrow> string \<Rightarrow> wire_event list option" where
  "whole_events pf p body = do {
     (evs, p1, left) \<leftarrow> sse_frames pf p body;
     if left = [] then Some evs else do { (final, p2) \<leftarrow> pf p1 left; Some (evs @ final) } }"

definition provider_events :: "stream_provider \<Rightarrow> string \<Rightarrow> wire_event list option" where
  "provider_events provider body = (case provider of
     Sp_OpenAI \<Rightarrow> whole_events openai_parseFrame () body
   | Sp_Anthropic \<Rightarrow> whole_events anthropic_parseFrame [] body
   | Sp_Cohere \<Rightarrow> whole_events cohere_parseFrame () body
   | Sp_Gemini \<Rightarrow> whole_events gemini_parseFrame 0 body
   | _ \<Rightarrow> None)"

definition batch_enforce :: "bool \<Rightarrow> answers \<Rightarrow> stream_enforcer \<Rightarrow> byte list \<Rightarrow> byte list list option" where
  "batch_enforce fd ev s body = map_option (enforcer_output fd ev s) (provider_events (en_provider s) (utf8_decode body))"

section \<open>The refinement\<close>

lemma whole_events_append:
  "whole_events pf p (x @ y) = do {
     (e1, p1, l1) \<leftarrow> sse_frames pf p x;
     e2 \<leftarrow> whole_events pf p1 (l1 @ y);
     Some (e1 @ e2) }"
proof (cases "sse_frames pf p x")
  case (Some r)
  obtain e1 p1 l1 where r: "r = (e1, p1, l1)" by (cases r)
  show ?thesis
    by (cases "sse_frames pf p1 (l1 @ y)")
      (auto simp: whole_events_def sse_frames_append [of pf p x y] Some r split: Option.bind_split)
qed (simp add: whole_events_def sse_frames_append [of pf p x y])

lemma sse_run_whole: "sse_run pf d s chunks = whole_events pf (sp_state s) (sp_buf s @ decode_run d chunks)"
proof (induction chunks arbitrary: d s)
  case Nil
  show ?case
    by (cases "sse_frames pf (sp_state s) (sp_buf s @ fst (utf8_flush d))")
      (auto simp: sse_flush_def sse_drain_def whole_events_def case_prod_unfold split: Option.bind_split)
next
  case (Cons c cs)
  show ?case
    by (cases "sse_frames pf (sp_state s) (sp_buf s @ fst (utf8_stream d c))")
      (auto simp: sse_feed_alt Cons.IH whole_events_append [of pf _ "sp_buf s @ fst (utf8_stream d c)", simplified]
        split: Option.bind_split)
qed

lemma decode_run_start: "decode_run utf8_start chunks = utf8_decode (concat chunks)"
  by (simp add: decode_run_concat utf8_decode_def)

text \<open>C15: the incremental enforcer refines the batch specification: for a text protocol and a decoder without leftovers, however
  the response is cut into chunks, the run gets through exactly where one pass over the whole response does, and then
  forwards the same frames. Where a frame makes the parser throw both fail; what was forwarded before is not
  compared. (Bedrock's binary protocol has no part in this.)\<close>

theorem streaming_refines_batch:
  assumes "createStreamingEnforcer m = Some s" and "en_provider s \<in> {Sp_OpenAI, Sp_Anthropic, Sp_Cohere, Sp_Gemini}"
  shows "enforcer_run fd ev utf8_start s chunks = batch_enforce fd ev s (concat chunks)"
proof -
  have p: "en_parser s = newParserFor (en_provider s)"
    using assms(1) by (auto simp: createStreamingEnforcer_def)
  from assms(2) have "parser_run utf8_start (en_parser s) chunks = provider_events (en_provider s) (utf8_decode (concat chunks))"
    unfolding p by (elim insertE emptyE)
      (simp_all add: parser_run_sse sse_run_whole provider_events_def decode_run_start del: parser_run.simps sse_run.simps)
  then show ?thesis by (simp add: enforcer_run_events batch_enforce_def)
qed

theorem streaming_refines_batch_witness:
  "\<forall>ev. \<exists>s. createStreamingEnforcer \<lparr>hm_provider = Some Prov_Cohere, hm_shape = Some Shape_Cohere_Chat\<rparr> = Some s \<and>
    enforcer_run True ev utf8_start s [[100, 97], [116, 97]] = batch_enforce True ev s [100, 97, 116, 97]"
proof
  fix ev
  obtain s where s: "createStreamingEnforcer \<lparr>hm_provider = Some Prov_Cohere, hm_shape = Some Shape_Cohere_Chat\<rparr> = Some s"
    "en_provider s = Sp_Cohere" by (simp add: createStreamingEnforcer_def)
  from streaming_refines_batch [OF s(1), of True ev "[[100, 97], [116, 97]]"] s
  show "\<exists>s. createStreamingEnforcer \<lparr>hm_provider = Some Prov_Cohere, hm_shape = Some Shape_Cohere_Chat\<rparr> = Some s \<and>
    enforcer_run True ev utf8_start s [[100, 97], [116, 97]] = batch_enforce True ev s [100, 97, 116, 97]" by simp
qed

end
