(* ===== verification/Vault_Resolver.thy ===== *)
theory Vault_Resolver
  imports Ttl_Cache Js_Value
begin

text \<open>
  The placeholder resolver (\<^verbatim>\<open>vault/resolver.ts\<close>): a header value may name a leased secret as
  \<^verbatim>\<open>agentum://SECRET/<lease>\<close>; the SDK asks the vault for it, keeps the answer for a while, and puts it into
  the header. The vault's answers are inputs. The operations are cut at their one \<^verbatim>\<open>await\<close>: several requests
  resolve their headers concurrently over one lease cache, and a run is a list of events.
\<close>

section \<open>Placeholders\<close>

definition VAULT_PLACEHOLDER_PREFIX :: string where
  "VAULT_PLACEHOLDER_PREFIX = ''agentum://SECRET/''"

definition id_char :: "char \<Rightarrow> bool" where
  "id_char c \<longleftrightarrow> is_upper c \<or> is_lower c \<or> is_digit c \<or> c = CHR ''_'' \<or> c = CHR ''-''"

text \<open>\<^verbatim>\<open>PLACEHOLDER_REGEX\<close> at the start of a text: the prefix, then up to 128 characters of an id.\<close>

definition lease_at :: "string \<Rightarrow> string" where
  "lease_at s = (if js_startsWith s VAULT_PLACEHOLDER_PREFIX
     then take 128 (takeWhile id_char (drop (length VAULT_PLACEHOLDER_PREFIX) s)) else [])"

text \<open>\<^verbatim>\<open>v.matchAll(PLACEHOLDER_REGEX)\<close>.\<close>

function placeholders :: "string \<Rightarrow> string list" where
  "placeholders s = (case s of
     [] \<Rightarrow> []
   | c # r \<Rightarrow>
       if lease_at s = [] then placeholders r
       else let m = VAULT_PLACEHOLDER_PREFIX @ lease_at s in m # placeholders (drop (length m) s))"
  by pat_completeness auto
termination by (relation "measure length") (auto simp: VAULT_PLACEHOLDER_PREFIX_def)

text \<open>\<^verbatim>\<open>s.split(d)\<close> for a text \<open>d\<close> that is not empty.\<close>

function split_on :: "string \<Rightarrow> string \<Rightarrow> string list" where
  "split_on d s = (case s of
     [] \<Rightarrow> [[]]
   | c # r \<Rightarrow>
       if d \<noteq> [] \<and> js_startsWith s d then [] # split_on d (drop (length d) s)
       else case split_on d r of [] \<Rightarrow> [[c]] | w # ws \<Rightarrow> (c # w) # ws)"
  by pat_completeness auto
termination by (relation "measure (length \<circ> snd)") auto

declare placeholders.simps [simp del] split_on.simps [simp del]

text \<open>\<^verbatim>\<open>resolved.split(ph).join(secret)\<close>\<close>

definition put_secret :: "string \<Rightarrow> string \<times> string \<Rightarrow> string" where
  "put_secret resolved = (\<lambda>(ph, secret). js_join secret (split_on ph resolved))"

section \<open>One lease\<close>

record vault_opts =
  vo_apiBaseUrl :: string
  vo_apiKey :: string
  vo_has_fetch :: bool
  vo_cacheTtlMs :: "int option"

record lease_entry =
  le_value :: string
  le_expiresAt :: int

type_synonym lease_cache = "(string, lease_entry) jsmap"

datatype vault_error =
    Not_A_Placeholder string
  | No_Fetch
  | Vault_Unreachable
  | Vault_Failed int
  | Vault_Bad_Body
  | Vault_No_Value

definition DEFAULT_TTL_MS :: int where "DEFAULT_TTL_MS = 5 * 60000"

text \<open>The match of \<^verbatim>\<open>/^agentum:\/\/SECRET\/([A-Za-z0-9_-]+)$/\<close>.\<close>

definition lease_of :: "string \<Rightarrow> string option" where
  "lease_of placeholder = (let i = drop (length VAULT_PLACEHOLDER_PREFIX) placeholder in
     if js_startsWith placeholder VAULT_PLACEHOLDER_PREFIX \<and> i \<noteq> [] \<and> list_all id_char i then Some i else None)"

definition lease_cached :: "lease_cache \<Rightarrow> string \<Rightarrow> int \<Rightarrow> string option" where
  "lease_cached cache leaseId now = (case jm_get cache leaseId of
     Some e \<Rightarrow> if le_expiresAt e > now then Some (le_value e) else None
   | None \<Rightarrow> None)"

definition lease_store :: "lease_cache \<Rightarrow> string \<Rightarrow> string \<Rightarrow> int \<Rightarrow> int \<Rightarrow> lease_cache" where
  "lease_store cache leaseId v ttl now = jm_set leaseId \<lparr>le_value = v, le_expiresAt = now + ttl\<rparr> cache"

text \<open>\<^verbatim>\<open>opts.apiBaseUrl.replace(/\/$/, "")\<close>\<close>

definition drop_slash :: "string \<Rightarrow> string" where
  "drop_slash u = (if js_endsWith u ''/'' then butlast u else u)"

record lease_request =
  lr_url :: string
  lr_apiKey :: string
  lr_body :: jval
  lr_lease :: string
  lr_ttl :: int
  lr_now :: int

datatype lease_start = Ls_Error vault_error | Ls_Hit string | Ls_Fetch lease_request

text \<open>\<^verbatim>\<open>resolvePlaceholder\<close> up to its request, and from the reply on.\<close>

definition resolve_begin :: "vault_opts \<Rightarrow> lease_cache \<Rightarrow> string \<Rightarrow> int \<Rightarrow> lease_start" where
  "resolve_begin opts cache placeholder now = (case lease_of placeholder of
     None \<Rightarrow> Ls_Error (Not_A_Placeholder placeholder)
   | Some leaseId \<Rightarrow>
       (case lease_cached cache leaseId now of
          Some v \<Rightarrow> Ls_Hit v
        | None \<Rightarrow>
            if \<not> vo_has_fetch opts then Ls_Error No_Fetch
            else Ls_Fetch \<lparr>lr_url = drop_slash (vo_apiBaseUrl opts) @ ''/api/v1/vault/resolve'',
              lr_apiKey = vo_apiKey opts, lr_body = JObj [(''placeholder'', JStr placeholder)], lr_lease = leaseId,
              lr_ttl = (case vo_cacheTtlMs opts of Some t \<Rightarrow> t | None \<Rightarrow> DEFAULT_TTL_MS), lr_now = now\<rparr>))"

text \<open>The request failed, was answered outside 2xx, or was answered with a body (\<^const>\<open>None\<close>: not JSON).\<close>

datatype vault_reply = Vr_Throws | Vr_Status int | Vr_Body "jval option"

definition resolve_end :: "lease_cache \<Rightarrow> lease_request \<Rightarrow> vault_reply \<Rightarrow> (vault_error + string) \<times> lease_cache" where
  "resolve_end cache r reply = (case reply of
     Vr_Throws \<Rightarrow> (Inl Vault_Unreachable, cache)
   | Vr_Status s \<Rightarrow> (Inl (Vault_Failed s), cache)
   | Vr_Body None \<Rightarrow> (Inl Vault_Bad_Body, cache)
   | Vr_Body (Some body) \<Rightarrow>
       (case j_prop body ''value'' of
          None \<Rightarrow> (Inl Vault_Bad_Body, cache)
        | Some (JStr v) \<Rightarrow> (Inr v, lease_store cache (lr_lease r) v (lr_ttl r) (lr_now r))
        | Some _ \<Rightarrow> (Inl Vault_No_Value, cache)))"

section \<open>The headers of a request\<close>

type_synonym headers = "(string \<times> string) list"

datatype header_init =
    Hi_None
  | Hi_Headers headers
  | Hi_Pairs "string option list list"
  | Hi_Record "(string \<times> jval) list"

definition header_pair :: "string option list \<Rightarrow> (string \<times> string) option" where
  "header_pair pair = (case pair of Some k # Some v # _ \<Rightarrow> Some (k, v) | _ \<Rightarrow> None)"

definition header_entries :: "header_init \<Rightarrow> headers" where
  "header_entries raw = (case raw of
     Hi_None \<Rightarrow> []
   | Hi_Headers hs \<Rightarrow> hs
   | Hi_Pairs ps \<Rightarrow> List.map_filter header_pair ps
   | Hi_Record kvs \<Rightarrow> map (\<lambda>(k, v). (k, j_text v)) kvs)"

record header_job =
  hj_opts :: vault_opts
  hj_done :: headers
  hj_name :: string
  hj_resolved :: string
  hj_matches :: "string list"
  hj_rest :: headers
  hj_wait :: "lease_request option"

text \<open>The result: \<^const>\<open>None\<close> is the unchanged \<^verbatim>\<open>init\<close>.\<close>

datatype job_state = Job_Running header_job | Job_Failed vault_error | Job_Finished "headers option"

fun walk_headers :: "vault_opts \<Rightarrow> headers \<Rightarrow> bool \<Rightarrow> headers \<Rightarrow> job_state" where
  "walk_headers opts done_so_far anyResolved [] = Job_Finished (if anyResolved then Some done_so_far else None)"
| "walk_headers opts done_so_far anyResolved ((k, v) # rest) =
     (if \<not> js_includes v VAULT_PLACEHOLDER_PREFIX then walk_headers opts (done_so_far @ [(k, v)]) anyResolved rest
      else case placeholders v of
        [] \<Rightarrow> walk_headers opts (done_so_far @ [(k, v)]) True rest
      | m # ms \<Rightarrow> Job_Running \<lparr>hj_opts = opts, hj_done = done_so_far, hj_name = k, hj_resolved = v,
          hj_matches = m # ms, hj_rest = rest, hj_wait = None\<rparr>)"

definition resolveHeaderPlaceholders :: "header_init \<Rightarrow> vault_opts \<Rightarrow> job_state" where
  "resolveHeaderPlaceholders init opts = (case init of
     Hi_None \<Rightarrow> Job_Finished None
   | _ \<Rightarrow> walk_headers opts [] False (header_entries init))"

text \<open>The secret of the first pending match has arrived.\<close>

definition job_secret :: "header_job \<Rightarrow> string \<Rightarrow> job_state" where
  "job_secret j secret = (case hj_matches j of
     [] \<Rightarrow> Job_Running j
   | ph # ms \<Rightarrow>
       (let resolved = put_secret (hj_resolved j) (ph, secret) in
        if ms = [] then walk_headers (hj_opts j) (hj_done j @ [(hj_name j, resolved)]) True (hj_rest j)
        else Job_Running (j\<lparr>hj_resolved := resolved, hj_matches := ms, hj_wait := None\<rparr>)))"

definition job_turn :: "lease_cache \<Rightarrow> int \<Rightarrow> header_job \<Rightarrow> job_state" where
  "job_turn cache now j = (case hj_matches j of
     [] \<Rightarrow> Job_Running j
   | ph # ms \<Rightarrow>
       (case resolve_begin (hj_opts j) cache ph now of
          Ls_Error e \<Rightarrow> Job_Failed e
        | Ls_Hit secret \<Rightarrow> job_secret j secret
        | Ls_Fetch r \<Rightarrow> Job_Running (j\<lparr>hj_wait := Some r\<rparr>)))"

definition job_reply :: "lease_cache \<Rightarrow> header_job \<Rightarrow> lease_request \<Rightarrow> vault_reply \<Rightarrow> job_state \<times> lease_cache" where
  "job_reply cache j r reply = (case resolve_end cache r reply of
     (Inl e, cache') \<Rightarrow> (Job_Failed e, cache')
   | (Inr secret, cache') \<Rightarrow> (job_secret j secret, cache'))"

section \<open>Concurrent requests\<close>

datatype vault_event =
    Ve_Start header_init vault_opts
  | Ve_Turn nat int
  | Ve_Reply nat vault_reply

record vault_state =
  vs_cache :: lease_cache
  vs_jobs :: "job_state list"

definition vault_initial :: vault_state where
  "vault_initial = \<lparr>vs_cache = [], vs_jobs = []\<rparr>"

fun vault_step :: "vault_state \<Rightarrow> vault_event \<Rightarrow> vault_state" where
  "vault_step s (Ve_Start init opts) = s\<lparr>vs_jobs := vs_jobs s @ [resolveHeaderPlaceholders init opts]\<rparr>"
| "vault_step s (Ve_Turn i now) =
     (if i < length (vs_jobs s) then
        (case vs_jobs s ! i of
           Job_Running j \<Rightarrow>
             if hj_wait j = None then s\<lparr>vs_jobs := (vs_jobs s)[i := job_turn (vs_cache s) now j]\<rparr> else s
         | _ \<Rightarrow> s)
      else s)"
| "vault_step s (Ve_Reply i reply) =
     (if i < length (vs_jobs s) then
        (case vs_jobs s ! i of
           Job_Running j \<Rightarrow>
             (case hj_wait j of
                Some r \<Rightarrow> (case job_reply (vs_cache s) j r reply of (j', cache') \<Rightarrow>
                  s\<lparr>vs_cache := cache', vs_jobs := (vs_jobs s)[i := j']\<rparr>)
              | None \<Rightarrow> s)
         | _ \<Rightarrow> s)
      else s)"

definition vault_run :: "vault_event list \<Rightarrow> vault_state" where
  "vault_run es = foldl vault_step vault_initial es"

section \<open>The lease cache keeps the contract of the caches\<close>

definition lease_lookup :: "lease_cache \<Rightarrow> string \<Rightarrow> (string \<times> int) option" where
  "lease_lookup cache l = map_option (\<lambda>e. (le_value e, le_expiresAt e)) (jm_get cache l)"

interpretation lease: ttl_cache_hits "\<lambda>c. True" lease_lookup "\<lambda>c l now. (lease_cached c l now, c)" lease_store
  "\<lambda>c. []" "\<lambda>ttl now. now + ttl" "\<lambda>c ttl. True"
  by unfold_locales
    (auto simp: lease_lookup_def lease_cached_def lease_store_def jm_simps split: option.splits if_splits)

text \<open>A secret is taken from the cache only while the vault's answer is younger than the time to live it was stored
  with, whatever was stored and reset before.\<close>

lemma cached_secret_is_fresh:
  assumes "resolve_begin opts (cache_run (\<lambda>c l now. (lease_cached c l now, c)) lease_store (\<lambda>c. []) [] ops)
    placeholder now = Ls_Hit v"
  shows "\<exists>l ttl t. lease_of placeholder = Some l \<and> (l, v, ttl, t) \<in> set (live_puts ops) \<and> now < t + ttl"
proof -
  obtain l where "lease_of placeholder = Some l"
    "lease_cached (cache_run (\<lambda>c l now. (lease_cached c l now, c)) lease_store (\<lambda>c. []) [] ops) l now = Some v"
    using assms by (auto simp: resolve_begin_def split: option.splits if_splits)
  then show ?thesis using lease.served_was_put [of "[]" ops l now v] by (auto simp: lease_lookup_def)
qed

section \<open>Scanning and replacing\<close>

lemma prefix_length [simp]: "length VAULT_PLACEHOLDER_PREFIX = 17"
  by (simp add: VAULT_PLACEHOLDER_PREFIX_def)

lemma lease_at_ids: "list_all id_char (lease_at s)"
  by (auto simp: lease_at_def list_all_iff dest: in_set_takeD set_takeWhileD)

lemma placeholder_lease: "l \<noteq> [] \<Longrightarrow> list_all id_char l \<Longrightarrow> lease_of (VAULT_PLACEHOLDER_PREFIX @ l) = Some l"
  by (simp add: lease_of_def js_startsWith_iff Let_def)

lemma lease_placeholder: "lease_of ph = Some l \<Longrightarrow> ph = VAULT_PLACEHOLDER_PREFIX @ l"
  by (auto simp: lease_of_def js_startsWith_iff Let_def split: if_splits)

text \<open>Every match of the scan is a placeholder the resolver takes, so its first check never fails here.\<close>

lemma placeholders_resolve: "m \<in> set (placeholders s) \<Longrightarrow> \<exists>l. lease_of m = Some l"
proof (induction s rule: placeholders.induct)
  case (1 s)
  show ?case
  proof (cases s)
    case (Cons c r)
    show ?thesis
    proof (cases "lease_at s = []")
      case True
      then show ?thesis using 1 Cons by (subst (asm) (2) placeholders.simps) auto
    next
      case False
      then show ?thesis using 1(2) [OF Cons] 1(3) Cons placeholder_lease [OF False lease_at_ids]
        by (subst (asm) (2) placeholders.simps) (auto simp: Let_def)
    qed
  qed (use 1 in \<open>simp add: placeholders.simps\<close>)
qed

lemma split_on_absent:
  assumes "l \<noteq> []" and "list_all id_char l"
  shows "placeholders s = [] \<Longrightarrow> split_on (VAULT_PLACEHOLDER_PREFIX @ l) s = [s]"
proof (induction s)
  case Nil
  show ?case by (simp add: split_on.simps)
next
  case (Cons c r)
  have none: "lease_at (c # r) = []" "placeholders r = []"
    using Cons.prems by (auto simp: placeholders.simps [of "c # r"] Let_def split: if_splits)
  obtain x y where l: "l = x # y" "id_char x" using assms by (cases l) auto
  have "\<not> js_startsWith (c # r) (VAULT_PLACEHOLDER_PREFIX @ l)"
  proof
    assume "js_startsWith (c # r) (VAULT_PLACEHOLDER_PREFIX @ l)"
    then obtain t where "c # r = VAULT_PLACEHOLDER_PREFIX @ (x # y @ t)" by (auto simp: js_startsWith_iff l)
    then have "lease_at (c # r) \<noteq> []" using l(2) by (simp add: lease_at_def js_startsWith_iff)
    then show False using none(1) by simp
  qed
  then show ?case using Cons.IH [OF none(2)] by (simp add: split_on.simps [of _ "c # r"])
qed

lemma split_on_single:
  "placeholders s = [m] \<Longrightarrow> \<exists>pre post. s = pre @ m @ post \<and> split_on m s = [pre, post]"
proof (induction s rule: placeholders.induct)
  case (1 s)
  show ?case
  proof (cases s)
    case Nil
    then show ?thesis using "1.prems" by (simp add: placeholders.simps)
  next
    case (Cons c r)
    obtain l where m: "m = VAULT_PLACEHOLDER_PREFIX @ l" "l \<noteq> []" "list_all id_char l"
      using placeholders_resolve [of m s] "1.prems"
      by (auto simp: lease_of_def js_startsWith_iff Let_def split: if_splits)
    show ?thesis
    proof (cases "lease_at s = []")
      case True
      then have "placeholders r = [m]" using "1.prems" Cons by (simp add: placeholders.simps [of "c # r"])
      then obtain pre post where r: "r = pre @ m @ post" "split_on m r = [pre, post]" using "1.IH"(1) [OF Cons True] by auto
      have "\<not> js_startsWith s m"
      proof
        assume "js_startsWith s m"
        then obtain t where "s = m @ t" by (auto simp: js_startsWith_iff)
        then have "lease_at s \<noteq> []" using m by (cases l) (auto simp: lease_at_def js_startsWith_iff)
        then show False using True by simp
      qed
      then have "split_on m s = [c # pre, post]" using r(2) by (simp add: split_on.simps [of m "c # r"] Cons)
      then show ?thesis using r(1) Cons by (intro exI [of _ "c # pre"] exI [of _ post]) simp
    next
      case False
      then have e: "m = VAULT_PLACEHOLDER_PREFIX @ lease_at s" "placeholders (drop (length m) s) = []"
        using "1.prems" Cons by (auto simp: placeholders.simps [of "c # r"] Let_def)
      have st: "js_startsWith s m" unfolding e(1)
        using False by (auto simp: lease_at_def js_startsWith_iff split: if_splits)
          (metis append_take_drop_id takeWhile_dropWhile_id append.assoc)
      then have "split_on m s = [[], drop (length m) s]"
        using split_on_absent [OF m(2,3) e(2) [unfolded m(1)]] Cons m
        by (simp add: split_on.simps [of _ "c # r"])
      then show ?thesis using st by (intro exI [of _ "[]"] exI [of _ "drop (length m) s"]) (auto simp: js_startsWith_iff)
    qed
  qed
qed

text \<open>A header value with one placeholder: that placeholder gives way to the secret, nothing else changes.\<close>

lemma single_placeholder_filled:
  assumes "placeholders v = [m]"
  shows "\<exists>pre post. v = pre @ m @ post \<and> put_secret v (m, secret) = pre @ secret @ post"
proof -
  obtain pre post where "v = pre @ m @ post" "split_on m v = [pre, post]" using split_on_single [OF assms] by blast
  then show ?thesis by (intro exI [of _ pre] exI [of _ post]) (simp add: put_secret_def)
qed

text \<open>Replacing one placeholder everywhere in the value also hits a longer lease name that starts with it: the second
  header field below is sent with the first lease's secret, not its own.\<close>

lemma lease_with_a_common_prefix_is_garbled:
  "placeholders ''agentum://SECRET/db agentum://SECRET/db2'' = [''agentum://SECRET/db'', ''agentum://SECRET/db2''] \<and>
   foldl put_secret ''agentum://SECRET/db agentum://SECRET/db2''
     [(''agentum://SECRET/db'', ''s1''), (''agentum://SECRET/db2'', ''s2'')] = ''s1 s12''"
  by code_simp

section \<open>What a finished request carries\<close>

text \<open>The vault answered a request for that lease with that secret.\<close>

definition vault_answered :: "vault_event list \<Rightarrow> string \<Rightarrow> string \<Rightarrow> bool" where
  "vault_answered es leaseId secret \<longleftrightarrow> (\<exists>pre i body post j r.
     es = pre @ Ve_Reply i (Vr_Body (Some body)) # post \<and> i < length (vs_jobs (vault_run pre)) \<and>
     vs_jobs (vault_run pre) ! i = Job_Running j \<and> hj_wait j = Some r \<and>
     lr_body r = JObj [(''placeholder'', JStr (VAULT_PLACEHOLDER_PREFIX @ leaseId))] \<and>
     j_prop body ''value'' = Some (JStr secret))"

definition secret_ok :: "(string \<Rightarrow> string \<Rightarrow> bool) \<Rightarrow> string \<times> string \<Rightarrow> bool" where
  "secret_ok A = (\<lambda>(ph, secret). \<exists>l. lease_of ph = Some l \<and> A l secret)"

text \<open>A header value and what it is forwarded as: one answered secret for each placeholder.\<close>

definition filled :: "(string \<Rightarrow> string \<Rightarrow> bool) \<Rightarrow> string \<times> string \<Rightarrow> string \<times> string \<Rightarrow> bool" where
  "filled A = (\<lambda>(k, v) (k', v'). k' = k \<and> (\<exists>used. map fst used = placeholders v \<and> list_all (secret_ok A) used \<and>
     v' = foldl put_secret v used))"

definition request_ok :: "string \<Rightarrow> lease_request \<Rightarrow> bool" where
  "request_ok ph r \<longleftrightarrow> lease_of ph = Some (lr_lease r) \<and> lr_body r = JObj [(''placeholder'', JStr ph)]"

fun job_ok :: "(string \<Rightarrow> string \<Rightarrow> bool) \<Rightarrow> headers \<Rightarrow> job_state \<Rightarrow> bool" where
  "job_ok A hs (Job_Failed e) \<longleftrightarrow> True"
| "job_ok A hs (Job_Finished None) \<longleftrightarrow> (\<forall>(k, v) \<in> set hs. placeholders v = [])"
| "job_ok A hs (Job_Finished (Some out)) \<longleftrightarrow> list_all2 (filled A) hs out"
| "job_ok A hs (Job_Running j) \<longleftrightarrow> (\<exists>before v used.
     hs = before @ (hj_name j, v) # hj_rest j \<and> list_all2 (filled A) before (hj_done j) \<and>
     placeholders v = map fst used @ hj_matches j \<and> hj_matches j \<noteq> [] \<and> list_all (secret_ok A) used \<and>
     hj_resolved j = foldl put_secret v used \<and> (\<forall>r. hj_wait j = Some r \<longrightarrow> request_ok (hd (hj_matches j)) r))"

definition cache_answered :: "(string \<Rightarrow> string \<Rightarrow> bool) \<Rightarrow> lease_cache \<Rightarrow> bool" where
  "cache_answered A cache \<longleftrightarrow> (\<forall>l e. jm_get cache l = Some e \<longrightarrow> A l (le_value e))"

lemma placeholders_prefix: "placeholders v \<noteq> [] \<Longrightarrow> js_includes v VAULT_PLACEHOLDER_PREFIX"
proof (induction v rule: placeholders.induct)
  case (1 s)
  show ?case
  proof (cases s)
    case (Cons c r)
    show ?thesis
    proof (cases "lease_at s = []")
      case True
      then show ?thesis using 1 Cons
        by (auto simp: placeholders.simps [of "c # r"] js_includes_def js_indexOf.simps [of "c # r"])
    next
      case False
      then show ?thesis
        by (auto simp: lease_at_def js_includes_def js_indexOf.simps [of s] split: if_splits)
    qed
  qed (use 1 in \<open>simp add: placeholders.simps\<close>)
qed

lemma filled_plain: "placeholders v = [] \<Longrightarrow> filled A (k, v) (k, v)"
  by (simp add: filled_def)

lemma filled_same: "\<forall>(k, v) \<in> set hs. placeholders v = [] \<Longrightarrow> list_all2 (filled A) hs hs"
  by (induction hs) (auto simp: filled_plain)

lemma walk_headers_ok:
  "list_all2 (filled A) before out \<Longrightarrow> (\<not> any_so_far \<Longrightarrow> \<forall>(k, v) \<in> set before. placeholders v = []) \<Longrightarrow>
    job_ok A (before @ hs) (walk_headers opts out any_so_far hs)"
proof (induction opts out any_so_far hs arbitrary: before rule: walk_headers.induct)
  case (1 opts out a)
  then show ?case by auto
next
  case (2 opts out a k v rest)
  show ?case
  proof (cases "placeholders v")
    case Nil
    then have *: "list_all2 (filled A) (before @ [(k, v)]) (out @ [(k, v)])"
      using "2.prems"(1) by (auto intro!: list_all2_appendI simp: filled_plain)
    show ?thesis
    proof (cases "js_includes v VAULT_PLACEHOLDER_PREFIX")
      case True
      then show ?thesis using "2.IH"(2) [of "before @ [(k, v)]"] * Nil by simp
    next
      case False
      then show ?thesis using "2.IH"(1) [of "before @ [(k, v)]"] * Nil "2.prems"(2) by simp
    qed
  next
    case (Cons m ms)
    then have "js_includes v VAULT_PLACEHOLDER_PREFIX" using placeholders_prefix by simp
    then show ?thesis using Cons "2.prems"(1)
      by (auto intro!: exI [of _ before] exI [of _ v] exI [of _ "[]"])
  qed
qed

lemma start_ok: "job_ok A (header_entries init) (resolveHeaderPlaceholders init opts)"
  using walk_headers_ok [of A "[]" "[]" False "header_entries init" opts]
  by (cases init) (auto simp: resolveHeaderPlaceholders_def header_entries_def)

lemma job_secret_ok:
  assumes "job_ok A hs (Job_Running j)" and "secret_ok A (hd (hj_matches j), secret)"
  shows "job_ok A hs (job_secret j secret)"
proof -
  obtain before v used where j: "hs = before @ (hj_name j, v) # hj_rest j" "list_all2 (filled A) before (hj_done j)"
      "placeholders v = map fst used @ hj_matches j" "hj_matches j \<noteq> []" "list_all (secret_ok A) used"
      "hj_resolved j = foldl put_secret v used"
    using assms(1) by auto
  obtain ph ms where ms: "hj_matches j = ph # ms" using j(4) by (cases "hj_matches j") auto
  define used' where "used' = used @ [(ph, secret)]"
  have u: "placeholders v = map fst used' @ ms" "list_all (secret_ok A) used'"
      "put_secret (hj_resolved j) (ph, secret) = foldl put_secret v used'"
    using j(3,5,6) ms assms(2) by (simp_all add: used'_def)
  show ?thesis
  proof (cases "ms = []")
    case True
    have "filled A (hj_name j, v) (hj_name j, put_secret (hj_resolved j) (ph, secret))"
      unfolding filled_def u(3) using u(1,2) True by (auto intro!: exI [of _ used'])
    then have "list_all2 (filled A) (before @ [(hj_name j, v)])
        (hj_done j @ [(hj_name j, put_secret (hj_resolved j) (ph, secret))])"
      using j(2) by (auto intro!: list_all2_appendI)
    from walk_headers_ok [OF this, of True "hj_rest j" "hj_opts j"] show ?thesis
      using True ms j(1) by (simp add: job_secret_def)
  next
    case False
    then show ?thesis using ms j(1,2) u by (auto simp: job_secret_def Let_def intro!: exI [of _ before] exI [of _ v] exI [of _ used'])
  qed
qed

lemma begin_hit_answered:
  "cache_answered A cache \<Longrightarrow> resolve_begin opts cache ph now = Ls_Hit secret \<Longrightarrow> secret_ok A (ph, secret)"
  by (auto simp: resolve_begin_def lease_cached_def cache_answered_def secret_ok_def split: option.splits if_splits)

lemma begin_fetch_request: "resolve_begin opts cache ph now = Ls_Fetch r \<Longrightarrow> request_ok ph r"
  by (auto simp: resolve_begin_def request_ok_def split: option.splits if_splits)

lemma turn_ok:
  assumes "cache_answered A cache" and "job_ok A hs (Job_Running j)"
  shows "job_ok A hs (job_turn cache now j)"
proof (cases "hj_matches j")
  case Nil
  then show ?thesis using assms(2) by auto
next
  case (Cons ph ms)
  show ?thesis
  proof (cases "resolve_begin (hj_opts j) cache ph now")
    case (Ls_Error e)
    then show ?thesis using Cons by (simp add: job_turn_def)
  next
    case (Ls_Hit secret)
    then show ?thesis using Cons job_secret_ok [OF assms(2), of secret] begin_hit_answered [OF assms(1) Ls_Hit]
      by (simp add: job_turn_def)
  next
    case (Ls_Fetch r)
    then have "job_turn cache now j = Job_Running (j\<lparr>hj_wait := Some r\<rparr>)" using Cons by (simp add: job_turn_def)
    then show ?thesis using assms(2) begin_fetch_request [OF Ls_Fetch] Cons by auto
  qed
qed

lemma reply_ok:
  assumes "cache_answered A cache" and "job_ok A hs (Job_Running j)" and "hj_wait j = Some r"
    and "\<And>body secret. reply = Vr_Body (Some body) \<Longrightarrow> j_prop body ''value'' = Some (JStr secret) \<Longrightarrow> A (lr_lease r) secret"
  shows "job_ok A hs (fst (job_reply cache j r reply)) \<and> cache_answered A (snd (job_reply cache j r reply))"
proof (cases "\<exists>body secret. reply = Vr_Body (Some body) \<and> j_prop body ''value'' = Some (JStr secret)")
  case True
  then obtain body secret where b: "reply = Vr_Body (Some body)" "j_prop body ''value'' = Some (JStr secret)" by blast
  have a: "A (lr_lease r) secret" using assms(4) [OF b] .
  have "request_ok (hd (hj_matches j)) r" using assms(2,3) by auto
  then have "secret_ok A (hd (hj_matches j), secret)" using a by (simp add: secret_ok_def request_ok_def)
  then show ?thesis using job_secret_ok [OF assms(2)] assms(1) a b
    by (auto simp: job_reply_def resolve_end_def cache_answered_def lease_store_def jm_simps split: if_splits)
next
  case False
  then have "\<exists>e. resolve_end cache r reply = (Inl e, cache)"
    by (auto simp: resolve_end_def split: vault_reply.splits option.splits jval.splits)
  then obtain e where "resolve_end cache r reply = (Inl e, cache)" by blast
  then show ?thesis using assms(1) by (simp add: job_reply_def)
qed

section \<open>Any interleaving\<close>

text \<open>The headers each request started with.\<close>

fun started :: "vault_event list \<Rightarrow> headers list" where
  "started [] = []"
| "started (Ve_Start init opts # es) = header_entries init # started es"
| "started (_ # es) = started es"

definition vault_inv :: "(string \<Rightarrow> string \<Rightarrow> bool) \<Rightarrow> headers list \<Rightarrow> vault_state \<Rightarrow> bool" where
  "vault_inv A hss s \<longleftrightarrow> cache_answered A (vs_cache s) \<and> list_all2 (job_ok A) hss (vs_jobs s)"

lemma started_append [simp]: "started (es @ fs) = started es @ started fs"
  by (induction es rule: started.induct) auto

lemma answered_mono: "vault_answered es l x \<Longrightarrow> vault_answered (es @ [e]) l x"
  unfolding vault_answered_def by (metis append.assoc append_Cons)

lemma secret_ok_mono: "(\<And>l x. A l x \<Longrightarrow> B l x) \<Longrightarrow> secret_ok A p \<Longrightarrow> secret_ok B p"
  by (auto simp: secret_ok_def)

lemma filled_mono:
  assumes "\<And>l x. A l x \<Longrightarrow> B l x"
  shows "filled A p q \<Longrightarrow> filled B p q"
  using secret_ok_mono [OF assms] by (fastforce simp: filled_def elim: list.pred_mono_strong)

lemma job_ok_mono:
  assumes "\<And>l x. A l x \<Longrightarrow> B l x" and "job_ok A hs js"
  shows "job_ok B hs js"
proof -
  have s: "list_all (secret_ok A) us \<Longrightarrow> list_all (secret_ok B) us" for us
    by (erule list.pred_mono_strong) (rule secret_ok_mono [OF assms(1)])
  have f: "list_all2 (filled A) xs ys \<Longrightarrow> list_all2 (filled B) xs ys" for xs ys
    by (erule list_all2_mono) (rule filled_mono [OF assms(1)])
  show ?thesis using assms(2) by (cases "(A, hs, js)" rule: job_ok.cases) (auto dest: s f)
qed

lemma vault_inv_mono:
  assumes "\<And>l x. A l x \<Longrightarrow> B l x" and "vault_inv A hss s"
  shows "vault_inv B hss s"
  using assms(2) job_ok_mono [OF assms(1)]
  by (auto simp: vault_inv_def cache_answered_def assms(1) elim: list_all2_mono)

lemma vault_inv_update:
  assumes "vault_inv A hss s" and "i < length (vs_jobs s)" and "job_ok A (hss ! i) j" and "cache_answered A cache"
  shows "vault_inv A hss (s\<lparr>vs_cache := cache, vs_jobs := (vs_jobs s)[i := j]\<rparr>)"
  using assms by (auto simp: vault_inv_def list_all2_conv_all_nth nth_list_update)

lemma vault_run_snoc: "vault_run (es @ [e]) = vault_step (vault_run es) e"
  by (simp add: vault_run_def)

lemma vault_run_inv: "vault_inv (vault_answered es) (started es) (vault_run es)"
proof (induction es rule: rev_induct)
  case Nil
  show ?case by (simp add: vault_inv_def vault_run_def vault_initial_def cache_answered_def)
next
  case (snoc e es)
  let ?s = "vault_run es" and ?A = "vault_answered (es @ [e])"
  have i: "vault_inv ?A (started es) ?s" by (rule vault_inv_mono [OF answered_mono snoc])
  show ?case
  proof (cases e)
    case (Ve_Start init opts)
    then show ?thesis using i start_ok [of ?A init opts] unfolding vault_run_snoc
      by (auto simp: vault_inv_def intro!: list_all2_appendI)
  next
    case (Ve_Turn n now)
    show ?thesis
    proof (cases "\<exists>j. n < length (vs_jobs ?s) \<and> vs_jobs ?s ! n = Job_Running j \<and> hj_wait j = None")
      case True
      then obtain j where j: "n < length (vs_jobs ?s)" "vs_jobs ?s ! n = Job_Running j" "hj_wait j = None" by blast
      have "job_ok ?A (started es ! n) (Job_Running j)" using i j by (auto simp: vault_inv_def list_all2_conv_all_nth)
      from turn_ok [OF _ this] vault_inv_update [OF i j(1)] i show ?thesis
        using j Ve_Turn unfolding vault_run_snoc by (auto simp: vault_inv_def)
    next
      case False
      then have "vault_step ?s e = ?s" using Ve_Turn by (auto split: job_state.splits)
      then show ?thesis using i Ve_Turn by (simp add: vault_run_snoc)
    qed
  next
    case (Ve_Reply n reply)
    show ?thesis
    proof (cases "\<exists>j r. n < length (vs_jobs ?s) \<and> vs_jobs ?s ! n = Job_Running j \<and> hj_wait j = Some r")
      case True
      then obtain j r where j: "n < length (vs_jobs ?s)" "vs_jobs ?s ! n = Job_Running j" "hj_wait j = Some r" by blast
      have ok: "job_ok ?A (started es ! n) (Job_Running j)" using i j by (auto simp: vault_inv_def list_all2_conv_all_nth)
      have r: "lr_body r = JObj [(''placeholder'', JStr (VAULT_PLACEHOLDER_PREFIX @ lr_lease r))]"
        using ok j(3) lease_placeholder by (auto simp: request_ok_def)
      have ans: "?A (lr_lease r) secret" if "reply = Vr_Body (Some body)" "j_prop body ''value'' = Some (JStr secret)" for body secret
        using that j r Ve_Reply unfolding vault_answered_def by fastforce
      have "job_ok ?A (started es ! n) (fst (job_reply (vs_cache ?s) j r reply)) \<and>
          cache_answered ?A (snd (job_reply (vs_cache ?s) j r reply))"
        by (rule reply_ok [OF _ ok j(3) ans]) (use i in \<open>auto simp: vault_inv_def\<close>)
      then have "vault_inv ?A (started es) (vault_step ?s e)" using vault_inv_update [OF i j(1)] j Ve_Reply
        by (simp add: case_prod_unfold)
      then show ?thesis using Ve_Reply by (simp add: vault_run_snoc)
    next
      case False
      then have "vault_step ?s e = ?s" using Ve_Reply by (auto split: job_state.splits option.splits)
      then show ?thesis using i Ve_Reply by (simp add: vault_run_snoc)
    qed
  qed
qed

text \<open>What a forwarded header owes to the vault, without a word on how it is computed: its name is kept, each of its
  placeholders was answered, a value without placeholders is kept, and in a value with one of them an answered secret
  stands in its place, between the text before it and the text after it.\<close>

definition delivered :: "(string \<Rightarrow> string \<Rightarrow> bool) \<Rightarrow> string \<times> string \<Rightarrow> string \<times> string \<Rightarrow> bool" where
  "delivered A = (\<lambda>(k, v) (k', v'). k' = k \<and> (\<forall>m \<in> set (placeholders v). \<exists>l secret. lease_of m = Some l \<and> A l secret) \<and>
     (case placeholders v of
        [] \<Rightarrow> v' = v
      | [m] \<Rightarrow> \<exists>before after l secret. v = before @ m @ after \<and> lease_of m = Some l \<and> A l secret \<and> v' = before @ secret @ after
      | _ \<Rightarrow> True))"

lemma filled_delivered:
  assumes "filled A h h'"
  shows "delivered A h h'"
proof -
  obtain k v k' v' where h: "h = (k, v)" "h' = (k', v')" by (cases h; cases h') auto
  from assms obtain used where u: "k' = k" "map fst used = placeholders v" "list_all (secret_ok A) used" "v' = foldl put_secret v used"
    by (auto simp: h filled_def)
  have each: "\<exists>l secret. lease_of m = Some l \<and> A l secret" if "m \<in> set (placeholders v)" for m
    using that u(3) unfolding u(2) [symmetric] by (force simp: list_all_iff secret_ok_def)
  have "\<exists>before after l secret. v = before @ m @ after \<and> lease_of m = Some l \<and> A l secret \<and> v' = before @ secret @ after"
    if m: "placeholders v = [m]" for m
  proof -
    obtain secret where us: "used = [(m, secret)]" using u(2) m by (cases used) auto
    then obtain l where "lease_of m = Some l" "A l secret" using u(3) by (auto simp: secret_ok_def)
    with single_placeholder_filled [OF m, of secret] u(4) us show ?thesis by auto
  qed
  with each u show ?thesis by (auto simp: h delivered_def split: list.splits)
qed

text \<open>C16: however the requests of a process interleave, once the headers of a request are resolved every name is kept,
  and every value without a placeholder; the vault has answered each placeholder's lease with a text; and a value with
  exactly one placeholder has become the text before it, a secret so answered for just that lease, and the text
  after it. (A value with several placeholders is rewritten once for each of them, in the whole text, so that a lease
  whose name begins with another's is garbled, see \<open>lease_with_a_common_prefix_is_garbled\<close>.)\<close>

theorem forwarded_secrets_were_answered:
  assumes "i < length (vs_jobs (vault_run es))" and "vs_jobs (vault_run es) ! i = Job_Finished result"
  shows "list_all2 (delivered (vault_answered es)) (started es ! i) (case result of Some hs \<Rightarrow> hs | None \<Rightarrow> started es ! i)"
proof -
  have "job_ok (vault_answered es) (started es ! i) (Job_Finished result)"
    using vault_run_inv [of es] assms by (auto simp: vault_inv_def list_all2_conv_all_nth)
  then have "list_all2 (filled (vault_answered es)) (started es ! i) (case result of Some hs \<Rightarrow> hs | None \<Rightarrow> started es ! i)"
    by (cases result) (auto intro: filled_same)
  then show ?thesis by (rule list_all2_mono) (rule filled_delivered)
qed

definition sample_vault_opts :: vault_opts where
  "sample_vault_opts = \<lparr>vo_apiBaseUrl = ''https://central/'', vo_apiKey = ''k'', vo_has_fetch = True, vo_cacheTtlMs = None\<rparr>"

definition sample_vault_events :: "vault_event list" where
  "sample_vault_events = [Ve_Start (Hi_Pairs [[Some ''Authorization'', Some ''Bearer agentum://SECRET/db'']]) sample_vault_opts,
     Ve_Turn 0 5, Ve_Reply 0 (Vr_Body (Some (JObj [(''value'', JStr ''s1'')])))]"

theorem forwarded_secrets_were_answered_witness:
  "vs_jobs (vault_run sample_vault_events) ! 0 = Job_Finished (Some [(''Authorization'', ''Bearer s1'')]) \<and>
   delivered (vault_answered sample_vault_events) (''Authorization'', ''Bearer agentum://SECRET/db'') (''Authorization'', ''Bearer s1'')"
proof -
  have l: "0 < length (vs_jobs (vault_run sample_vault_events))" by code_simp
  have f: "vs_jobs (vault_run sample_vault_events) ! 0 = Job_Finished (Some [(''Authorization'', ''Bearer s1'')])" by code_simp
  have h: "started sample_vault_events ! 0 = [(''Authorization'', ''Bearer agentum://SECRET/db'')]" by code_simp
  show ?thesis using forwarded_secrets_were_answered [OF l f] f by (simp add: h)
qed

text \<open>The cache is keyed by the lease alone: a lease resolved with one set of credentials is served, without a
  request, to a caller with other credentials and another vault.\<close>

lemma lease_cache_ignores_credentials:
  "lease_cached cache l now = Some v \<Longrightarrow> lease_of ph = Some l \<Longrightarrow>
    resolve_begin opts cache ph now = Ls_Hit v \<and> resolve_begin opts' cache ph now = Ls_Hit v"
  by (simp add: resolve_begin_def)

end
