(* ===== verification/Pii_Block.thy ===== *)
theory Pii_Block
  imports Pii_Pipeline Resolve_Dimensions
begin

text \<open>
  The \<^verbatim>\<open>pii\<close> block of the manifest (\<^verbatim>\<open>pii/manifest-block.ts\<close>): the checks that turn a raw value into the typed
  block, and the start-up of the masking pipeline in \<^verbatim>\<open>init.ts\<close>: the block is parsed, its field rules are
  compiled to the trie, its first text scanner is compiled, the secrets are loaded and checked. Every step that
  fails stops the start-up.
\<close>

section \<open>The block\<close>

record pii_block =
  pb_field_rules :: "field_rule list option"
  pb_text_scanners :: "scanner_config list option"

text \<open>\<^verbatim>\<open>PiiManifestValidationError\<close>: the locator and the detail.\<close>

type_synonym block_error = "string \<times> string"

definition describe :: "jval \<Rightarrow> string" where
  "describe v = (case v of JNull \<Rightarrow> ''null'' | JArr _ \<Rightarrow> ''array'' | _ \<Rightarrow> j_typeof v)"

definition index_locator :: "string \<Rightarrow> nat \<Rightarrow> string" where
  "index_locator path i = path @ ''['' @ nat_text i @ '']''"

definition expected :: "string \<Rightarrow> string \<Rightarrow> jval \<Rightarrow> block_error + 'a" where
  "expected path what v = Inl (path, ''expected '' @ what @ '', got '' @ describe v)"

text \<open>\<^verbatim>\<open>xs.map((entry, i) => f(entry, `path[i]`))\<close>; the first entry that throws ends it.\<close>

fun each_entry :: "(jval \<Rightarrow> string \<Rightarrow> block_error + 'a) \<Rightarrow> string \<Rightarrow> nat \<Rightarrow> jval list \<Rightarrow> block_error + 'a list" where
  "each_entry f path i [] = Inr []"
| "each_entry f path i (v # vs) =
     (case f v (index_locator path i) of
        Inl e \<Rightarrow> Inl e
      | Inr x \<Rightarrow> (case each_entry f path (Suc i) vs of Inl e \<Rightarrow> Inl e | Inr xs \<Rightarrow> Inr (x # xs)))"

definition need_object :: "jval \<Rightarrow> string \<Rightarrow> (jval \<Rightarrow> block_error + 'a) \<Rightarrow> block_error + 'a" where
  "need_object raw path f = (if j_is_object raw then f raw else expected path ''object'' raw)"

definition need_text :: "jval \<Rightarrow> string \<Rightarrow> (string \<Rightarrow> block_error + 'a) \<Rightarrow> block_error + 'a" where
  "need_text v path f = (case j_nonempty_string v of Some s \<Rightarrow> f s | None \<Rightarrow> expected path ''non-empty string'' v)"

text \<open>An absent array is kept absent.\<close>

definition optional_array :: "jval \<Rightarrow> string \<Rightarrow> (jval \<Rightarrow> string \<Rightarrow> block_error + 'a) \<Rightarrow> block_error + 'a list option" where
  "optional_array v path f =
     (if v = JUndefined then Inr None
      else case v of
        JArr vs \<Rightarrow> (case each_entry f path 0 vs of Inl e \<Rightarrow> Inl e | Inr xs \<Rightarrow> Inr (Some xs))
      | _ \<Rightarrow> expected path ''array'' v)"

text \<open>The loop over the characters: \<^const>\<open>None\<close> once a closing bracket has no opening one.\<close>

fun path_depth :: "nat \<Rightarrow> string \<Rightarrow> nat option" where
  "path_depth d [] = Some d"
| "path_depth d (c # cs) =
     (if c = CHR ''['' then path_depth (Suc d) cs
      else if c = CHR '']'' then (case d of 0 \<Rightarrow> None | Suc d' \<Rightarrow> path_depth d' cs)
      else path_depth d cs)"

definition assertJsonPathSyntax :: "string \<Rightarrow> string \<Rightarrow> block_error option" where
  "assertJsonPathSyntax expr locator =
     (if \<not> js_startsWith expr ''$.'' then
        Some (locator, ''not a valid JSONPath expression (must start with '' @ Field_Rules.quoted ''$.'' @ ''): '' @ expr)
      else case path_depth 0 expr of
        None \<Rightarrow> Some (locator, ''unbalanced '' @ Field_Rules.quoted '']'' @ '' in JSONPath expression: '' @ expr)
      | Some 0 \<Rightarrow> None
      | Some (Suc _) \<Rightarrow> Some (locator, ''unbalanced '' @ Field_Rules.quoted ''['' @ '' in JSONPath expression: '' @ expr))"

definition field_mode :: "jval \<Rightarrow> rule_mode option" where
  "field_mode v = map_of [(JStr ''drop'', Rule_Drop), (JStr ''hash'', Rule_Hash), (JStr ''tokenize'', Rule_Tokenize),
     (JStr ''mask'', Rule_Mask)] v"

definition VALID_SEVERITIES :: "string list" where
  "VALID_SEVERITIES = [''low'', ''medium'', ''high'']"

definition validateFieldRule :: "jval \<Rightarrow> string \<Rightarrow> block_error + field_rule" where
  "validateFieldRule raw path = need_object raw path (\<lambda>obj.
     need_text (j_field obj ''tool'') (path @ ''.tool'') (\<lambda>tool.
     need_text (j_field obj ''path'') (path @ ''.path'') (\<lambda>rulePath.
       case assertJsonPathSyntax rulePath (path @ ''.path'') of
         Some e \<Rightarrow> Inl e
       | None \<Rightarrow>
           (case field_mode (j_field obj ''mode'') of
              None \<Rightarrow> expected (path @ ''.mode'') ''one of drop|hash|tokenize|mask'' (j_field obj ''mode'')
            | Some mode \<Rightarrow> Inr \<lparr>fr_tool = tool, fr_path = rulePath, fr_mode = mode\<rparr>))))"

definition validateCustomPattern :: "jval \<Rightarrow> string \<Rightarrow> block_error + custom_pattern" where
  "validateCustomPattern raw path = need_object raw path (\<lambda>obj.
     need_text (j_field obj ''id'') (path @ ''.id'') (\<lambda>i.
     need_text (j_field obj ''pattern'') (path @ ''.pattern'') (\<lambda>pattern.
       case j_field obj ''severity'' of
         JUndefined \<Rightarrow> Inr \<lparr>cu_id = i, cu_pattern = pattern, cu_severity = None\<rparr>
       | JStr sev \<Rightarrow>
           if sev \<in> set VALID_SEVERITIES then Inr \<lparr>cu_id = i, cu_pattern = pattern, cu_severity = Some sev\<rparr>
           else expected (path @ ''.severity'') ''one of low|medium|high'' (JStr sev)
       | sev \<Rightarrow> expected (path @ ''.severity'') ''one of low|medium|high'' sev)))"

definition validateTextScanner :: "jval \<Rightarrow> string \<Rightarrow> block_error + scanner_config" where
  "validateTextScanner raw path = need_object raw path (\<lambda>obj.
     case j_bool (j_field obj ''enabled'') of
       None \<Rightarrow> expected (path @ ''.enabled'') ''boolean'' (j_field obj ''enabled'')
     | Some enabled \<Rightarrow>
         (case optional_array (j_field obj ''patterns'') (path @ ''.patterns'') (\<lambda>v p. need_text v p Inr) of
            Inl e \<Rightarrow> Inl e
          | Inr patterns \<Rightarrow>
              (case optional_array (j_field obj ''custom'') (path @ ''.custom'') validateCustomPattern of
                 Inl e \<Rightarrow> Inl e
               | Inr custom \<Rightarrow> Inr \<lparr>sn_enabled = enabled, sn_patterns = patterns, sn_custom = custom\<rparr>)))"

definition parsePiiManifestBlock :: "jval \<Rightarrow> block_error + pii_block" where
  "parsePiiManifestBlock raw =
     (if j_nullish raw then Inr \<lparr>pb_field_rules = None, pb_text_scanners = None\<rparr>
      else need_object raw ''pii'' (\<lambda>obj.
        case optional_array (j_field obj ''field_rules'') ''pii.field_rules'' validateFieldRule of
          Inl e \<Rightarrow> Inl e
        | Inr rules \<Rightarrow>
            (case optional_array (j_field obj ''text_scanners'') ''pii.text_scanners'' validateTextScanner of
               Inl e \<Rightarrow> Inl e
             | Inr scanners \<Rightarrow> Inr \<lparr>pb_field_rules = rules, pb_text_scanners = scanners\<rparr>)))"

section \<open>Start-up\<close>

datatype pii_boot_error =
    Block_Invalid block_error
  | Rule_Uncompilable field_rule string
  | Pattern_Uncompilable
  | Secrets_Refused boot_error

text \<open>The part of \<^verbatim>\<open>init.ts\<close> that sets the pipeline up. The schema is the active one by then.\<close>

definition start_pii :: "(string \<Rightarrow> string \<Rightarrow> regex option) \<Rightarrow> embedded_pattern list \<Rightarrow> pii_crypto \<Rightarrow>
    (string \<Rightarrow> string option) \<Rightarrow> dimension list option \<Rightarrow> jval \<Rightarrow> pii_boot_error + pii_state" where
  "start_pii engine default_patterns pc env schema rawManifest =
     (case parsePiiManifestBlock (case rawManifest of JObj _ \<Rightarrow> j_field rawManifest ''pii'' | _ \<Rightarrow> JUndefined) of
        Inl e \<Rightarrow> Inl (Block_Invalid e)
      | Inr block \<Rightarrow>
          (case compileFieldRuleTrie (case pb_field_rules block of Some rs \<Rightarrow> rs | None \<Rightarrow> []) of
             Inl (rule, detail) \<Rightarrow> Inl (Rule_Uncompilable rule detail)
           | Inr trie \<Rightarrow>
               (case compileScanner engine default_patterns
                   (case pb_text_scanners block of Some (c # _) \<Rightarrow> Some c | _ \<Rightarrow> None) of
                  None \<Rightarrow> Inl Pattern_Uncompilable
                | Some scanner \<Rightarrow>
                    (let secrets = loadPiiSecrets pc env in
                     case assertSecretsForActiveSchema schema (Some secrets) (pb_field_rules block) of
                       Some e \<Rightarrow> Inl (Secrets_Refused e)
                     | None \<Rightarrow> Inr \<lparr>pi_env = \<lparr>pe_crypto = pc, pe_secrets = Some secrets\<rparr>, pi_trie = Some trie,
                         pi_scanner = Some scanner\<rparr>))))"

section \<open>The type of the block\<close>

definition path_ok :: "string \<Rightarrow> bool" where
  "path_ok p \<longleftrightarrow> js_startsWith p ''$.'' \<and> path_depth 0 p = Some 0"

definition rule_ok :: "field_rule \<Rightarrow> bool" where
  "rule_ok r \<longleftrightarrow> fr_tool r \<noteq> [] \<and> path_ok (fr_path r)"

definition custom_ok :: "custom_pattern \<Rightarrow> bool" where
  "custom_ok c \<longleftrightarrow> cu_id c \<noteq> [] \<and> cu_pattern c \<noteq> [] \<and> pred_option (\<lambda>s. s \<in> set VALID_SEVERITIES) (cu_severity c)"

definition scanner_ok :: "scanner_config \<Rightarrow> bool" where
  "scanner_ok c \<longleftrightarrow> pred_option (list_all (\<lambda>i. i \<noteq> [])) (sn_patterns c) \<and> pred_option (list_all custom_ok) (sn_custom c)"

definition pii_block_ok :: "pii_block \<Rightarrow> bool" where
  "pii_block_ok b \<longleftrightarrow> pred_option (list_all rule_ok) (pb_field_rules b) \<and>
     pred_option (list_all scanner_ok) (pb_text_scanners b)"

text \<open>The block as a manifest would write it.\<close>

definition opt_field :: "string \<Rightarrow> ('a \<Rightarrow> jval) \<Rightarrow> 'a option \<Rightarrow> (string \<times> jval) list" where
  "opt_field k f x = (case x of Some y \<Rightarrow> [(k, f y)] | None \<Rightarrow> [])"

definition mode_text :: "rule_mode \<Rightarrow> string" where
  "mode_text m = (case m of Rule_Drop \<Rightarrow> ''drop'' | Rule_Hash \<Rightarrow> ''hash'' | Rule_Tokenize \<Rightarrow> ''tokenize'' | Rule_Mask \<Rightarrow> ''mask'')"

definition rule_json :: "field_rule \<Rightarrow> jval" where
  "rule_json r = JObj [(''tool'', JStr (fr_tool r)), (''path'', JStr (fr_path r)), (''mode'', JStr (mode_text (fr_mode r)))]"

definition custom_json :: "custom_pattern \<Rightarrow> jval" where
  "custom_json c = JObj ([(''id'', JStr (cu_id c)), (''pattern'', JStr (cu_pattern c))] @ opt_field ''severity'' JStr (cu_severity c))"

definition scanner_json :: "scanner_config \<Rightarrow> jval" where
  "scanner_json c = JObj ([(''enabled'', JBool (sn_enabled c))] @
     opt_field ''patterns'' (\<lambda>ps. JArr (map JStr ps)) (sn_patterns c) @
     opt_field ''custom'' (\<lambda>cs. JArr (map custom_json cs)) (sn_custom c))"

definition block_json :: "pii_block \<Rightarrow> jval" where
  "block_json b = JObj (opt_field ''field_rules'' (\<lambda>rs. JArr (map rule_json rs)) (pb_field_rules b) @
     opt_field ''text_scanners'' (\<lambda>cs. JArr (map scanner_json cs)) (pb_text_scanners b))"

lemma syntax_iff: "assertJsonPathSyntax p loc = None \<longleftrightarrow> path_ok p"
  by (auto simp: assertJsonPathSyntax_def path_ok_def split: option.splits nat.splits)

lemma syntax_then:
  "(case assertJsonPathSyntax p loc of None \<Rightarrow> x | Some e \<Rightarrow> Inl e) = Inr y \<longleftrightarrow> path_ok p \<and> x = Inr y"
  using syntax_iff [of p loc] by (cases "assertJsonPathSyntax p loc") auto

lemma path_ok_nonempty: "path_ok p \<Longrightarrow> p \<noteq> []"
  by (auto simp: path_ok_def js_startsWith_iff)

lemma need_object_Inr: "need_object raw path f = Inr x \<longleftrightarrow> j_is_object raw \<and> f raw = Inr x"
  by (simp add: need_object_def expected_def)

lemma need_text_Inr: "need_text v path f = Inr x \<longleftrightarrow> (\<exists>s. v = JStr s \<and> s \<noteq> [] \<and> f s = Inr x)"
  by (auto simp: need_text_def j_nonempty_string_def expected_def split: jval.splits option.splits)

lemma each_entry_sound:
  "each_entry f path i vs = Inr xs \<Longrightarrow> (\<And>v p x. f v p = Inr x \<Longrightarrow> P x) \<Longrightarrow> list_all P xs"
  by (induction vs arbitrary: i xs) (auto split: sum.splits)

lemma each_entry_complete:
  "(\<And>x p. x \<in> set xs \<Longrightarrow> f (g x) p = Inr x) \<Longrightarrow> each_entry f path i (map g xs) = Inr xs"
  by (induction xs arbitrary: i) auto

lemma optional_array_sound:
  "optional_array v path f = Inr r \<Longrightarrow> (\<And>v p x. f v p = Inr x \<Longrightarrow> P x) \<Longrightarrow> pred_option (list_all P) r"
  by (auto simp: optional_array_def expected_def split: if_splits jval.splits sum.splits dest: each_entry_sound [where P = P])

lemma optional_array_complete:
  assumes "pred_option (list_all P) r" and "\<And>x p. P x \<Longrightarrow> f (g x) p = Inr x"
    and "v = (case r of Some xs \<Rightarrow> JArr (map g xs) | None \<Rightarrow> JUndefined)"
  shows "optional_array v path f = Inr r"
  using assms(1) each_entry_complete [of _ f g, OF assms(2)]
  by (cases r) (auto simp: optional_array_def assms(3) list_all_iff)

lemma field_opt [simp]:
  "j_field (JObj kvs) k = (case map_of kvs k of Some w \<Rightarrow> w | None \<Rightarrow> JUndefined)"
  by (simp add: j_field_def j_prop_def)

lemma opt_field_get [simp]:
  "map_of (opt_field k f x @ kvs) k' = (if k' = k \<and> x \<noteq> None then map_option f x else map_of kvs k')"
  "map_of (opt_field k f x) k' = (if k' = k then map_option f x else None)"
  by (auto simp: opt_field_def split: option.splits)

lemma field_mode_text [simp]: "field_mode (JStr (mode_text m)) = Some m"
  by (cases m) (simp_all add: field_mode_def mode_text_def)

lemma rule_sound: "validateFieldRule raw path = Inr r \<Longrightarrow> rule_ok r"
  by (auto simp: validateFieldRule_def need_object_Inr need_text_Inr rule_ok_def syntax_then expected_def split: option.splits)

lemma rule_complete: "rule_ok r \<Longrightarrow> validateFieldRule (rule_json r) path = Inr r"
  using path_ok_nonempty [of "fr_path r"]
  by (simp add: validateFieldRule_def rule_json_def rule_ok_def need_object_Inr need_text_Inr j_is_object_def syntax_then)

lemma custom_sound: "validateCustomPattern raw path = Inr c \<Longrightarrow> custom_ok c"
  by (cases "j_field raw ''severity''")
    (auto simp: validateCustomPattern_def need_object_Inr need_text_Inr custom_ok_def expected_def split: if_splits)

lemma custom_complete: "custom_ok c \<Longrightarrow> validateCustomPattern (custom_json c) path = Inr c"
  by (cases "cu_severity c")
    (auto simp: validateCustomPattern_def custom_json_def custom_ok_def need_object_def need_text_def j_is_object_def
      j_nonempty_string_def opt_field_def)

lemma text_entry_sound: "need_text v p Inr = Inr s \<Longrightarrow> s \<noteq> []"
  by (simp add: need_text_Inr)

lemma text_entry_complete: "s \<noteq> [] \<Longrightarrow> need_text (JStr s) p Inr = Inr s"
  by (simp add: need_text_def j_nonempty_string_def)

lemma scanner_sound: "validateTextScanner raw path = Inr c \<Longrightarrow> scanner_ok c"
  by (auto simp: validateTextScanner_def need_object_Inr scanner_ok_def expected_def split: option.splits sum.splits
      dest: optional_array_sound [where P = custom_ok, OF _ custom_sound]
        optional_array_sound [where P = "\<lambda>i. i \<noteq> []", OF _ text_entry_sound])

lemma scanner_complete:
  assumes "scanner_ok c"
  shows "validateTextScanner (scanner_json c) path = Inr c"
proof -
  have p: "optional_array (j_field (scanner_json c) ''patterns'') q (\<lambda>v p. need_text v p Inr) = Inr (sn_patterns c)" for q
    using assms by (intro optional_array_complete [where P = "\<lambda>i. i \<noteq> []" and g = JStr])
      (auto simp: scanner_ok_def scanner_json_def text_entry_complete split: option.splits)
  have q: "optional_array (j_field (scanner_json c) ''custom'') q validateCustomPattern = Inr (sn_custom c)" for q
    using assms by (intro optional_array_complete [where P = custom_ok and g = custom_json])
      (auto simp: scanner_ok_def scanner_json_def custom_complete split: option.splits)
  have o: "j_is_object (scanner_json c)" "j_bool (j_field (scanner_json c) ''enabled'') = Some (sn_enabled c)"
    by (simp_all add: scanner_json_def j_is_object_def j_bool_def)
  show ?thesis unfolding validateTextScanner_def need_object_def p q by (simp add: o)
qed

lemma block_sound:
  assumes "parsePiiManifestBlock raw = Inr b"
  shows "pii_block_ok b"
  using assms
  by (auto simp: parsePiiManifestBlock_def need_object_Inr pii_block_ok_def split: sum.splits if_splits
      dest: optional_array_sound [where P = rule_ok, OF _ rule_sound] optional_array_sound [where P = scanner_ok, OF _ scanner_sound])

lemma block_complete:
  assumes "pii_block_ok b"
  shows "parsePiiManifestBlock (block_json b) = Inr b"
proof -
  have r: "optional_array (j_field (block_json b) ''field_rules'') q validateFieldRule = Inr (pb_field_rules b)" for q
    using assms by (intro optional_array_complete [where P = rule_ok and g = rule_json])
      (auto simp: pii_block_ok_def block_json_def rule_complete split: option.splits)
  have s: "optional_array (j_field (block_json b) ''text_scanners'') q validateTextScanner = Inr (pb_text_scanners b)" for q
    using assms by (intro optional_array_complete [where P = scanner_ok and g = scanner_json])
      (auto simp: pii_block_ok_def block_json_def scanner_complete split: option.splits)
  have o: "j_is_object (block_json b)" "\<not> j_nullish (block_json b)"
    by (simp_all add: block_json_def j_is_object_def j_nullish_def)
  show ?thesis unfolding parsePiiManifestBlock_def need_object_def r s using o by simp
qed

text \<open>C29: what the block's checks let through is exactly the typed blocks: a block comes out only with non-empty
  names, balanced paths below the root, known modes and severities; and every such block, written as a manifest
  would, is read back as itself.\<close>

theorem accepted_blocks_are_typed:
  "((\<exists>raw. parsePiiManifestBlock raw = Inr b) \<longleftrightarrow> pii_block_ok b) \<and>
   (pii_block_ok b \<longleftrightarrow> parsePiiManifestBlock (block_json b) = Inr b)"
  using block_sound block_complete by blast

section \<open>A started process can mask\<close>

definition walk_total :: "'a walk \<Rightarrow> bool" where
  "walk_total w \<longleftrightarrow> (\<forall>st. \<exists>y st'. w st = (Inr y, st'))"

lemma total_wret: "walk_total (wret x)"
  by (simp add: walk_total_def wret_def)

lemma total_wbind: "walk_total w \<Longrightarrow> (\<And>y. walk_total (f y)) \<Longrightarrow> walk_total (wbind w f)"
  unfolding walk_total_def
proof
  fix st
  assume w: "\<forall>st. \<exists>y st'. w st = (Inr y, st')" and f: "\<And>y. \<forall>st. \<exists>z st'. f y st = (Inr z, st')"
  obtain y st' where "w st = (Inr y, st')" using w by blast
  then show "\<exists>y st'. wbind w f st = (Inr y, st')" using f [of y] by (simp add: wbind_def)
qed

lemma total_wmap: "(\<And>x. walk_total (f x)) \<Longrightarrow> walk_total (wmap f xs)"
  by (induction xs) (auto intro: total_wret total_wbind)

lemma total_children: "(\<And>x. walk_total (f x)) \<Longrightarrow> walk_total (walkChildren f v)"
  by (auto simp: walkChildren_def split: jval.splits intro!: total_wret total_wbind total_wmap)

lemma total_descend: "(\<And>x. walk_total (f x)) \<Longrightarrow> walk_total (descend f n v)"
  by (induction n arbitrary: v) (auto intro!: total_wbind total_children)

definition mode_usable :: "pii_secrets \<Rightarrow> rule_mode \<Rightarrow> bool" where
  "mode_usable s m \<longleftrightarrow> (m = Rule_Hash \<longrightarrow> ps_hashSecret s \<noteq> None) \<and> (m = Rule_Tokenize \<longrightarrow> ps_tokenizeKey s \<noteq> None)"

lemma total_mode: "pe_secrets env = Some s \<Longrightarrow> mode_usable s m \<Longrightarrow> walk_total (applyMode env m v)"
  by (cases m) (auto simp: walk_total_def applyMode_def mode_usable_def getPiiSecrets_def pii_hash_def pii_tokenize_def
      walk_lift_def Let_def)

lemma total_segment:
  assumes "pe_secrets env = Some s" and "mode_usable s m"
  shows "walk_total (applyAtSegment env m segs v)"
proof (induction segs arbitrary: v)
  case Nil
  show ?case using total_mode [OF assms] by simp
next
  case (Cons seg segs)
  then show ?case
    by (cases seg) (auto intro!: total_descend total_children total_wret total_wbind split: jval.splits option.splits)
qed

lemma total_rules:
  assumes "pe_secrets env = Some s"
  shows "list_all (\<lambda>c. mode_usable s (cr_mode c)) rs \<Longrightarrow> walk_total (applyRules env rs v)"
  by (induction rs arbitrary: v) (auto intro!: total_wret total_wbind total_segment [OF assms])

lemma first_error_Some: "first_error es = Some e \<Longrightarrow> Some e \<in> set es"
  by (induction es rule: first_error.induct) (auto split: option.splits)

lemma selfCheck_error: "selfCheck t ps = Some e \<Longrightarrow> \<exists>i m. e = Self_Check_Failed i m"
  by (induction t ps rule: selfCheck.induct) (auto split: option.splits if_splits)

lemma read_only_error: "walkStringsReadOnly ps v = Some e \<Longrightarrow> \<exists>i m. e = Self_Check_Failed i m"
proof (induction ps v rule: walkStringsReadOnly.induct)
  case (2 ps vs)
  then show ?case by (auto dest!: first_error_Some)
next
  case (3 ps kvs)
  then show ?case by (fastforce dest!: first_error_Some)
qed (auto dest: selfCheck_error)

lemma compiled_modes:
  assumes "compileFieldRuleTrie rules = Inr trie" and "\<forall>r \<in> set rules. mode_usable s (fr_mode r)"
  shows "list_all (\<lambda>c. mode_usable s (cr_mode c)) (ft_wildcardTool trie)"
    and "list_all (\<lambda>c. mode_usable s (cr_mode c)) (bucket_of trie tool)"
  using compile_rules_buckets [OF assms(1) [unfolded compileFieldRuleTrie_def]] assms(2)
  by (auto simp: buckets_full_def bucket_of_def list_all_iff compiled_def)

lemma boot_rules:
  assumes "assertSecretsForActiveSchema schema (Some s) rules = None" and "r \<in> set (case rules of Some rs \<Rightarrow> rs | None \<Rightarrow> [])"
  shows "mode_usable s (fr_mode r)"
proof -
  obtain rs where rs: "rules = Some rs" "r \<in> set rs" using assms(2) by (auto split: option.splits)
  then obtain i where "i < length rs" "rs ! i = r" by (auto simp: in_set_conv_nth)
  then have "(i, r) \<in> set (enumerate 0 rs)" by (auto simp: in_set_enumerate_eq)
  then have "check_rule s i r = None"
    using assms(1) rs(1) by (auto simp: assertSecretsForActiveSchema_def getPiiSecrets_def first_message_None split: option.splits)
  then show ?thesis by (auto simp: check_rule_def missing_secret_def mode_usable_def split: if_splits)
qed

text \<open>The start-up checks of the block, the rules and the secrets are enough: once the process has started, a
  pipeline run never fails for want of a secret or for any other reason than its own self-check.\<close>

theorem started_pipeline_only_fails_its_self_check:
  assumes "start_pii engine default_patterns pc env schema rawManifest = Inr s"
    and "runPiiPipeline s draws detail tool = (Inl e, d)"
  shows "\<exists>i m. e = Self_Check_Failed i m"
proof -
  let ?raw = "case rawManifest of JObj _ \<Rightarrow> j_field rawManifest ''pii'' | _ \<Rightarrow> JUndefined"
  obtain block where block: "parsePiiManifestBlock ?raw = Inr block"
    using assms(1) by (cases "parsePiiManifestBlock ?raw") (auto simp: start_pii_def)
  let ?rules = "case pb_field_rules block of Some rs \<Rightarrow> rs | None \<Rightarrow> []"
  let ?cfg = "case pb_text_scanners block of Some (c # _) \<Rightarrow> Some c | _ \<Rightarrow> None"
  obtain trie where trie: "compileFieldRuleTrie ?rules = Inr trie"
    using assms(1) block by (cases "compileFieldRuleTrie ?rules") (auto simp: start_pii_def)
  obtain sc where sc: "compileScanner engine default_patterns ?cfg = Some sc"
    using assms(1) block trie by (cases "compileScanner engine default_patterns ?cfg") (auto simp: start_pii_def)
  have secrets: "assertSecretsForActiveSchema schema (Some (loadPiiSecrets pc env)) (pb_field_rules block) = None"
    using assms(1) block trie sc
    by (cases "assertSecretsForActiveSchema schema (Some (loadPiiSecrets pc env)) (pb_field_rules block)")
      (auto simp: start_pii_def Let_def)
  have b: "pi_trie s = Some trie" "pe_secrets (pi_env s) = Some (loadPiiSecrets pc env)"
    using assms(1) block trie sc secrets by (auto simp: start_pii_def Let_def)
  have "walk_total (applyTrie (pi_env s) trie tool detail)"
    using compiled_modes [OF trie] boot_rules [OF secrets] total_rules [OF b(2)]
    unfolding applyTrie_def bucket_of_def [symmetric] Let_def by (auto intro!: total_wret total_wbind)
  then obtain y st where "applyTrie (pi_env s) trie tool detail \<lparr>wk_draws = draws, wk_fired = False\<rparr> = (Inr y, st)"
    unfolding walk_total_def by blast
  then have "\<exists>v. walkStringsReadOnly (getActiveTextScanner s) v = Some e"
    using assms(2) b(1) by (auto simp: runPiiPipeline_def getActiveFieldRuleTrie_def Let_def split: if_splits option.splits)
  then show ?thesis using read_only_error by blast
qed

definition sample_engine :: "string \<Rightarrow> string \<Rightarrow> regex option" where
  "sample_engine src flags = Some \<lparr>rx_replace = \<lambda>t r. t, rx_exec = \<lambda>t. if t = src then Some t else None\<rparr>"

definition sample_manifest :: jval where
  "sample_manifest = JObj [(''pii'', JObj [(''field_rules'',
     JArr [JObj [(''tool'', JStr ''t''), (''path'', JStr ''$.a''), (''mode'', JStr ''mask'')]])])]"

definition plain_crypto :: pii_crypto where
  "plain_crypto = \<lparr>pc_base64 = id, pc_hmacHex = (\<lambda>k v. v), pc_sealed = (\<lambda>k d v. v), pc_sha256Hex = None\<rparr>"

theorem started_pipeline_only_fails_its_self_check_witness:
  "\<exists>s d. start_pii sample_engine [\<lparr>ep_id = ''p'', ep_severity = ''low'', ep_regexSource = ''x'', ep_regexFlags = ''g''\<rparr>]
      plain_crypto (\<lambda>v. None) (Some []) sample_manifest = Inr s \<and>
    runPiiPipeline s 0 (JObj [(''b'', JStr ''x'')]) ''t'' = (Inl (Self_Check_Failed ''p'' ''x''), d)"
proof -
  let ?d = "[\<lparr>ep_id = ''p'', ep_severity = ''low'', ep_regexSource = ''x'', ep_regexFlags = ''g''\<rparr>]"
  define s where "s = projr (start_pii sample_engine ?d plain_crypto (\<lambda>v. None) (Some []) sample_manifest)"
  have ok: "\<not> isl (start_pii sample_engine ?d plain_crypto (\<lambda>v. None) (Some []) sample_manifest)" by code_simp
  have e: "start_pii sample_engine ?d plain_crypto (\<lambda>v. None) (Some []) sample_manifest = Inr s"
    unfolding s_def using ok by (simp add: isl_def)
  have "map_sum id (\<lambda>y. ()) (fst (runPiiPipeline s 0 (JObj [(''b'', JStr ''x'')]) ''t'')) = Inl (Self_Check_Failed ''p'' ''x'')"
    unfolding s_def by code_simp
  then obtain d where r: "runPiiPipeline s 0 (JObj [(''b'', JStr ''x'')]) ''t'' = (Inl (Self_Check_Failed ''p'' ''x''), d)"
    by (cases "runPiiPipeline s 0 (JObj [(''b'', JStr ''x'')]) ''t''") (auto simp: map_sum_Inl)
  from started_pipeline_only_fails_its_self_check [OF e r] e r show ?thesis by blast
qed

text \<open>The two grammars of a path differ both ways: the block refuses a path the trie compiles, and lets one through
  that the trie refuses at start-up.\<close>

lemma block_and_trie_disagree:
  "assertJsonPathSyntax ''$[0].a'' loc \<noteq> None" "parsePath ''$[0].a'' = Inr [Seg_Index 0, Seg_Key ''a'']"
  "assertJsonPathSyntax ''$.a[?(@.b)]'' loc = None" "\<exists>e. parsePath ''$.a[?(@.b)]'' = Inl e"
proof -
  show "parsePath ''$[0].a'' = Inr [Seg_Index 0, Seg_Key ''a'']"
    by (simp add: parsePath_def js_startsWith_def parse_rest.simps key_char_def add_segments_def parseBracket_def
        is_digit_def digits_val_def digit_val_def dq_def sq_def)
  have "isl (parsePath ''$.a[?(@.b)]'')" by code_simp
  then show "\<exists>e. parsePath ''$.a[?(@.b)]'' = Inl e" by (simp add: isl_def)
  show "assertJsonPathSyntax ''$[0].a'' loc \<noteq> None" "assertJsonPathSyntax ''$.a[?(@.b)]'' loc = None"
    unfolding syntax_iff by code_simp+
qed

end
