(* ===== verification/Fetch_Request.thy ===== *)
theory Fetch_Request
  imports Vault_Resolver Mcp_Http Response_Safety Stream_Notices
begin

text \<open>
  Requests and responses as the fetch plane sees them (the helpers of \<^verbatim>\<open>instrumentation/fetch-interceptor.ts\<close>):
  reading the url, the method and the body of \<^verbatim>\<open>fetch(input, init)\<close>, looking for vault placeholders, marking
  a request for the other planes, and the reply built in place of a refused one. A \<^verbatim>\<open>Headers\<close> object is a map
  of lower-case names; the order in which it is iterated plays no part. The URL parser is an argument.
\<close>

section \<open>Requests\<close>

datatype init_body = Ib_Absent | Ib_Text string | Ib_Bytes "byte list" | Ib_Opaque

text \<open>\<^verbatim>\<open>init\<close>; an absent one has no member.\<close>

record fetch_init =
  fi_method :: "string option"
  fi_headers :: header_init
  fi_body :: init_body

text \<open>A \<^verbatim>\<open>Request\<close>; its body is \<^const>\<open>None\<close> where \<^verbatim>\<open>clone().text()\<close> rejects.\<close>

record fetch_object =
  fo_url :: string
  fo_method :: string
  fo_headers :: headers
  fo_body :: "byte list option"

datatype fetch_input = In_Text string | In_Url string | In_Request fetch_object | In_Other

record url_parts =
  up_origin :: string
  up_hostname :: string
  up_path :: string

type_synonym url_parser = "string \<Rightarrow> url_parts option"

definition extractUrl :: "fetch_input \<Rightarrow> string option" where
  "extractUrl input = (case input of
     In_Text s \<Rightarrow> Some s | In_Url s \<Rightarrow> Some s | In_Request r \<Rightarrow> Some (fo_url r) | In_Other \<Rightarrow> None)"

definition parseOrigin :: "url_parser \<Rightarrow> string option \<Rightarrow> string option" where
  "parseOrigin new_URL raw = (case some_text raw of Some s \<Rightarrow> map_option up_origin (new_URL s) | None \<Rightarrow> None)"

text \<open>\<^verbatim>\<open>headers.get(name)\<close> for a lower-case name, and \<^verbatim>\<open>new Headers(...)\<close>, which joins repeated names.\<close>

definition headers_append :: "headers \<Rightarrow> string \<times> string \<Rightarrow> headers" where
  "headers_append hs = (\<lambda>(k, v). jm_set (js_lower k)
     (case jm_get hs (js_lower k) of Some w \<Rightarrow> w @ '', '' @ v | None \<Rightarrow> v) hs)"

definition new_Headers :: "header_init \<Rightarrow> headers" where
  "new_Headers raw = (case raw of Hi_Headers hs \<Rightarrow> hs | _ \<Rightarrow> foldl headers_append [] (header_entries raw))"

fun first_named :: "string \<Rightarrow> headers \<Rightarrow> string option" where
  "first_named name [] = None"
| "first_named name ((k, v) # hs) = (if js_lower k = name then Some v else first_named name hs)"

text \<open>The first pair of that name decides, even where its value is missing.\<close>

fun pair_named :: "string \<Rightarrow> string option list list \<Rightarrow> string option" where
  "pair_named name [] = None"
| "pair_named name (p # ps) = (case p of
     Some k # v # _ \<Rightarrow> if js_lower k = name then v else pair_named name ps
   | _ \<Rightarrow> pair_named name ps)"

definition headerValueFrom :: "header_init \<Rightarrow> string \<Rightarrow> string option" where
  "headerValueFrom raw name = (case raw of
     Hi_None \<Rightarrow> None
   | Hi_Headers hs \<Rightarrow> jm_get hs (js_lower name)
   | Hi_Pairs ps \<Rightarrow> pair_named (js_lower name) ps
   | Hi_Record kvs \<Rightarrow> first_named (js_lower name) (map (\<lambda>(k, v). (k, j_text v)) kvs))"

definition readMethodAndAccept :: "fetch_input \<Rightarrow> fetch_init \<Rightarrow> string option \<times> string option" where
  "readMethodAndAccept input init =
     (let (m, a) = (case input of
          In_Request r \<Rightarrow> (Some (fo_method r), jm_get (fo_headers r) ''accept'') | _ \<Rightarrow> (None, None))
      in (case some_text (fi_method init) of Some x \<Rightarrow> Some x | None \<Rightarrow> m,
          case headerValueFrom (fi_headers init) ''accept'' of Some x \<Rightarrow> Some x | None \<Rightarrow> a))"

section \<open>Bodies and placeholders\<close>

definition readRequestBody :: "fetch_input \<Rightarrow> fetch_init \<Rightarrow> string option" where
  "readRequestBody input init = (case fi_body init of
     Ib_Text s \<Rightarrow> Some s
   | Ib_Bytes bs \<Rightarrow> Some (utf8_decode bs)
   | Ib_Opaque \<Rightarrow> None
   | Ib_Absent \<Rightarrow> (case input of In_Request r \<Rightarrow> map_option utf8_decode (fo_body r) | _ \<Rightarrow> None))"

definition bodyContainsPlaceholder :: "fetch_input \<Rightarrow> fetch_init \<Rightarrow> bool" where
  "bodyContainsPlaceholder input init = (case fi_body init of
     Ib_Text s \<Rightarrow> js_includes s VAULT_PLACEHOLDER_PREFIX
   | Ib_Bytes bs \<Rightarrow> js_includes (utf8_decode bs) VAULT_PLACEHOLDER_PREFIX
   | Ib_Opaque \<Rightarrow> False
   | Ib_Absent \<Rightarrow> (case input of
         In_Request r \<Rightarrow> (case fo_body r of Some bs \<Rightarrow> js_includes (utf8_decode bs) VAULT_PLACEHOLDER_PREFIX | None \<Rightarrow> False)
       | _ \<Rightarrow> False))"

definition headersContainPlaceholder :: "header_init \<Rightarrow> bool" where
  "headersContainPlaceholder raw = (case raw of
     Hi_None \<Rightarrow> False
   | Hi_Headers hs \<Rightarrow> list_ex (\<lambda>(k, v). js_includes v VAULT_PLACEHOLDER_PREFIX) hs
   | Hi_Pairs ps \<Rightarrow> list_ex (\<lambda>p. case p of k # Some v # _ \<Rightarrow> js_includes v VAULT_PLACEHOLDER_PREFIX | _ \<Rightarrow> False) ps
   | Hi_Record kvs \<Rightarrow> list_ex (\<lambda>(k, v). js_includes (j_text v) VAULT_PLACEHOLDER_PREFIX) kvs)"

text \<open>An object or an array; anything else is \<^const>\<open>None\<close>.\<close>

definition safeParseJson :: "string option \<Rightarrow> jval option" where
  "safeParseJson s = (case some_text s of
     None \<Rightarrow> None
   | Some t \<Rightarrow> (case json_parse t of
         Some (JObj kvs) \<Rightarrow> Some (JObj kvs) | Some (JArr vs) \<Rightarrow> Some (JArr vs) | _ \<Rightarrow> None))"

definition AGENTUM_PLANE_HEADER :: string where "AGENTUM_PLANE_HEADER = ''x-agentum-plane''"

definition stampPlaneMarker :: "fetch_input \<Rightarrow> fetch_init \<Rightarrow> string option \<Rightarrow> fetch_init" where
  "stampPlaneMarker input init reqBody =
     (let own = (case input of In_Request r \<Rightarrow> fo_headers r | _ \<Rightarrow> []);
          merged = foldl (\<lambda>hs (k, v). jm_set k v hs) own (new_Headers (fi_headers init));
          stamped = init\<lparr>fi_headers := Hi_Headers (jm_set AGENTUM_PLANE_HEADER ''fetch'' merged)\<rparr>
      in case reqBody of Some b \<Rightarrow> stamped\<lparr>fi_body := Ib_Text b\<rparr> | None \<Rightarrow> stamped)"

section \<open>Responses\<close>

text \<open>The body arrives in chunks; \<^const>\<open>None\<close> is a null body. Reading it does not fail.\<close>

record http_response =
  rp_status :: int
  rp_headers :: headers
  rp_body :: "byte list list option"

definition rp_header :: "http_response \<Rightarrow> string \<Rightarrow> string option" where
  "rp_header r name = jm_get (rp_headers r) name"

definition content_type :: "http_response \<Rightarrow> string" where
  "content_type r = (case rp_header r ''content-type'' of Some ct \<Rightarrow> ct | None \<Rightarrow> [])"

definition response_text :: "http_response \<Rightarrow> string" where
  "response_text r = (case rp_body r of Some chunks \<Rightarrow> utf8_decode (concat chunks) | None \<Rightarrow> [])"

definition with_text :: "http_response \<Rightarrow> string \<Rightarrow> http_response" where
  "with_text r s = r\<lparr>rp_body := Some [utf8_encode s]\<rparr>"

definition isEventStream :: "http_response \<Rightarrow> bool" where
  "isEventStream r \<longleftrightarrow> js_includes (content_type r) ''text/event-stream'' \<or>
     js_includes (content_type r) ''application/vnd.amazon.eventstream''"

definition json_reply :: "int \<Rightarrow> jval \<Rightarrow> http_response" where
  "json_reply status body = \<lparr>rp_status = status,
     rp_headers = [(''content-type'', ''application/json''), (''x-agentum-policy'', ''sdk-denied'')],
     rp_body = Some [utf8_encode (json_text body)]\<rparr>"

definition mcpJsonResponse :: "jval \<Rightarrow> int \<Rightarrow> http_response" where
  "mcpJsonResponse body status = json_reply status body"

section \<open>The reply to a refused request\<close>

definition assistant_text :: "jval \<Rightarrow> jval" where
  "assistant_text content = JObj [(''role'', JStr ''assistant''), (''content'', content)]"

definition no_tokens :: "string list \<Rightarrow> jval" where
  "no_tokens names = JObj (map (\<lambda>n. (n, JNum ''0'')) names)"

definition deny_body :: "wire_shape option \<Rightarrow> int \<Rightarrow> string \<Rightarrow> jval" where
  "deny_body shape now notice = (case shape of
     Some Shape_Bedrock_Converse \<Rightarrow> JObj [
       (''output'', JObj [(''message'', assistant_text (JArr [JObj [(''text'', JStr notice)]]))]),
       (''stopReason'', JStr ''end_turn''), (''usage'', no_tokens [''inputTokens'', ''outputTokens'', ''totalTokens''])]
   | Some Shape_Gemini_Generate \<Rightarrow> JObj [(''candidates'', JArr [JObj [
       (''content'', JObj [(''role'', JStr ''model''), (''parts'', JArr [JObj [(''text'', JStr notice)]])]),
       (''finishReason'', JStr ''STOP'')]])]
   | Some Shape_Cohere_Chat \<Rightarrow> JObj [(''id'', JStr (''cohere-agentum-deny-'' @ int_text now)),
       (''message'', assistant_text (JArr [text_block notice])), (''finish_reason'', JStr ''COMPLETE'')]
   | _ \<Rightarrow> if shape = Some Shape_Anthropic_Messages \<or> shape = Some Shape_Bedrock_Invoke then
         JObj [(''id'', JStr (''msg_agentum_deny_'' @ int_text now)), (''type'', JStr ''message''), (''role'', JStr ''assistant''),
           (''model'', JStr ''agentum-policy''), (''content'', JArr [text_block notice]), (''stop_reason'', JStr ''end_turn''),
           (''usage'', no_tokens [''input_tokens'', ''output_tokens''])]
       else JObj [(''id'', JStr (''chatcmpl-agentum-deny-'' @ int_text now)), (''object'', JStr ''chat.completion''),
           (''created'', JNum (int_text (now div 1000))), (''model'', JStr ''agentum-policy''),
           (''choices'', JArr [JObj [(''index'', JNum ''0''), (''message'', assistant_text (JStr notice)),
              (''finish_reason'', JStr ''stop'')]]),
           (''usage'', no_tokens [''prompt_tokens'', ''completion_tokens'', ''total_tokens''])])"

definition shortCircuitDeny :: "host_match \<Rightarrow> int \<Rightarrow> jval \<Rightarrow> string option \<Rightarrow> jval option \<Rightarrow> http_response" where
  "shortCircuitDeny m now reason toolName toolArgs =
     json_reply 200 (deny_body (hm_shape m) now
       (makeBlockNoticeText (case toolName of Some n \<Rightarrow> n | None \<Rightarrow> ''request'')
         (safeStringify (case toolArgs of Some a \<Rightarrow> j_default a (JObj []) | None \<Rightarrow> JObj [])) (Some reason) None None))"

section \<open>A refusal carries no call\<close>

lemma number_valid [simp]: "json_valid (JNum ''0'')" "json_valid (JNum (int_text n))"
  using int_text_valid [of n] int_text_valid [of 0] by (simp_all add: int_text_def nat_text_0)

lemma deny_body_valid: "json_valid (deny_body shape now notice)"
  by (auto simp: deny_body_def no_tokens_def assistant_text_def text_block_def simp del: json_valid.simps(2)
      split: option.splits wire_shape.splits)

lemma deny_body_no_calls: "extractResponseToolCalls m (deny_body (hm_shape m) now notice) = Some []"
  by (cases "hm_shape m"; (cases "the (hm_shape m)")?)
    (auto simp: deny_body_def extractResponseToolCalls_def assistant_text_def text_block_def no_tokens_def
      openAIResponseToolCalls_def anthropicResponseToolCalls_def cohereResponseToolCalls_def geminiResponseToolCalls_def
      bedrockConverseResponseToolCalls_def anthropic_response_call_def gemini_response_call_def converse_response_call_def
      named_response_def collect_in_def j_prop_def j_field_def j_array_def j_string_def)

text \<open>The reply that stands in for a refused request is a well-formed answer of the provider's shape with
  status 200 and without any tool call, whatever the request and the reason were.\<close>

theorem refusal_has_no_calls:
  "rp_status (shortCircuitDeny m now reason n a) = 200 \<and>
   (\<exists>json. json_parse (response_text (shortCircuitDeny m now reason n a)) = Some json \<and>
     extractResponseToolCalls m json = Some [])"
proof
  show "rp_status (shortCircuitDeny m now reason n a) = 200" by (simp add: shortCircuitDeny_def json_reply_def)
  obtain notice where "response_text (shortCircuitDeny m now reason n a) =
      utf8_decode (utf8_encode (json_text (deny_body (hm_shape m) now notice)))"
    by (simp add: shortCircuitDeny_def json_reply_def response_text_def)
  then show "\<exists>json. json_parse (response_text (shortCircuitDeny m now reason n a)) = Some json \<and>
      extractResponseToolCalls m json = Some []"
    using printed_body [OF deny_body_valid] deny_body_no_calls by metis
qed

end
