(* ===== verification/Prompt_Capture.thy ===== *)
theory Prompt_Capture
  imports Pii_Pipeline Tool_Client Fetch_Request
begin

text \<open>
  The observation of prompts: the capture mode and the masking of \<^verbatim>\<open>instrumentation/prompt-capture.ts\<close>, and the
  post of the fetch plane (\<open>postObservePrompt\<close> and its helpers in \<^verbatim>\<open>instrumentation/fetch-interceptor.ts\<close>): the
  messages of the request body are flattened and cut at a byte bound, masked, and posted, again after a failure,
  a bounded number of times. The service's replies are an argument.
\<close>

section \<open>The mode\<close>

datatype prompt_mode = Pm_Off | Pm_Masked | Pm_Raw

definition resolvePromptCaptureMode :: "bool option \<Rightarrow> prompt_mode option \<Rightarrow> feature_state option \<Rightarrow> prompt_mode" where
  "resolvePromptCaptureMode capturePrompts requested piiAdvanced =
     (if capturePrompts = Some False then Pm_Off
      else (let mode = (case requested of Some m \<Rightarrow> m | None \<Rightarrow> Pm_Masked) in
        if mode = Pm_Raw \<and> piiAdvanced \<noteq> Some Feature_Enabled then Pm_Masked else mode))"

text \<open>\<^verbatim>\<open>messages\<close> and \<^verbatim>\<open>tools_advertised\<close>. Only called with a mode other than \<^verbatim>\<open>off\<close>.\<close>

definition maskObserveContent :: "pii_state \<Rightarrow> nat \<Rightarrow> prompt_mode \<Rightarrow> jval \<times> jval \<Rightarrow> (pii_error + jval \<times> jval) \<times> nat" where
  "maskObserveContent s draws mode = (\<lambda>(messages, tools).
     if mode = Pm_Raw \<or> isPiiPipelineNoOp s then (Inr (messages, tools), draws)
     else (case runPiiPipeline s draws (JObj [(''messages'', messages), (''tools_advertised'', tools)]) ''*'' of
         (Inl e, d) \<Rightarrow> (Inl e, d)
       | (Inr (detail, key), d) \<Rightarrow> (Inr (j_field detail ''messages'', j_field detail ''tools_advertised''), d)))"

section \<open>The messages\<close>

definition buildObserveMsg :: "string \<Rightarrow> string \<Rightarrow> string option \<Rightarrow> nat \<Rightarrow> jval" where
  "buildObserveMsg role content name cap =
     (let encoded = utf8_encode content;
          size = JNum (int_text (int (length encoded)));
          name = (case some_text name of Some n \<Rightarrow> [(''name'', JStr n)] | None \<Rightarrow> [])
      in if length encoded \<le> cap then JObj ([(''role'', JStr role), (''content'', JStr content), (''byte_count'', size)] @ name)
         else JObj ([(''role'', JStr role), (''content'', JStr (utf8_decode (take cap encoded))), (''byte_count'', size),
           (''truncated'', JBool True)] @ name))"

definition observe_part :: "jval \<Rightarrow> string option" where
  "observe_part c = (case c of
     JStr s \<Rightarrow> Some s
   | _ \<Rightarrow> do {
       ty \<leftarrow> j_prop c ''type'';
       case (ty, j_field c ''text'') of
         (JStr t, JStr s) \<Rightarrow> Some (if t = ''text'' then s else json_text c)
       | _ \<Rightarrow> Some (json_text c) })"

fun option_all :: "'a option list \<Rightarrow> 'a list option" where
  "option_all [] = Some []"
| "option_all (x # xs) = do { y \<leftarrow> x; ys \<leftarrow> option_all xs; Some (y # ys) }"

definition observe_content :: "jval \<Rightarrow> string option" where
  "observe_content c = (case c of
     JStr s \<Rightarrow> Some s
   | JArr parts \<Rightarrow> map_option (js_join [CHR 0x0A]) (option_all (map observe_part parts))
   | _ \<Rightarrow> Some (safeStringify c))"

definition observe_message :: "nat \<Rightarrow> jval \<Rightarrow> jval option" where
  "observe_message cap m = do {
     role \<leftarrow> j_prop m ''role'';
     t \<leftarrow> observe_content (j_field m ''content'');
     Some (buildObserveMsg (j_text (j_default role (JStr ''user''))) t (j_string (j_field m ''name'')) cap) }"

definition observe_system :: "nat \<Rightarrow> jval \<Rightarrow> jval list option" where
  "observe_system cap sys = (case sys of
     JStr s \<Rightarrow> Some (if s \<noteq> [] then [buildObserveMsg ''system'' s None cap] else [])
   | JArr blocks \<Rightarrow> collect (\<lambda>b. do { t \<leftarrow> j_prop b ''text'';
       Some (case t of JStr s \<Rightarrow> [buildObserveMsg ''system'' s None cap] | _ \<Rightarrow> []) }) blocks
   | _ \<Rightarrow> Some [])"

text \<open>\<^const>\<open>None\<close>: a \<^verbatim>\<open>null\<close> where an object is expected throws.\<close>

definition normalizeMessagesForObserve :: "host_match \<Rightarrow> jval \<Rightarrow> nat \<Rightarrow> jval option" where
  "normalizeMessagesForObserve m body cap = do {
     sys \<leftarrow> (if hm_shape m = Some Shape_Anthropic_Messages then observe_system cap (j_field body ''system'') else Some []);
     msgs \<leftarrow> (case j_field body ''messages'' of JArr ms \<Rightarrow> option_all (map (observe_message cap) ms) | _ \<Rightarrow> Some []);
     Some (JArr (sys @ msgs)) }"

section \<open>The post\<close>

record observe_ids =
  oi_agentId :: string
  oi_requestId :: string
  oi_sessionId :: "string option"
  oi_userId :: "string option"
  oi_clientTs :: string

definition provider_text :: "provider option \<Rightarrow> string" where
  "provider_text p = (case p of
     Some Prov_OpenAI \<Rightarrow> ''openai'' | Some Prov_Anthropic \<Rightarrow> ''anthropic'' | Some Prov_OpenAI_Compatible \<Rightarrow> ''openai-compatible''
   | Some Prov_Bedrock \<Rightarrow> ''bedrock'' | Some Prov_Cohere \<Rightarrow> ''cohere'' | Some Prov_Gemini \<Rightarrow> ''gemini'' | Some Prov_Mcp_Http \<Rightarrow> ''mcp-http'' | None \<Rightarrow> ''other'')"

definition observe_params :: "jval \<Rightarrow> (string \<times> jval) list" where
  "observe_params body = List.map_filter (\<lambda>k. if j_in k body = Some True then Some (k, j_field body k) else None)
     [''temperature'', ''max_tokens'', ''top_p'', ''stream'']"

text \<open>The payload, \<^const>\<open>None\<close> where masking fails (the post is dropped) or the body makes the helper throw.\<close>

definition observe_payload :: "pii_state \<Rightarrow> nat \<Rightarrow> prompt_mode \<Rightarrow> nat \<Rightarrow> observe_ids \<Rightarrow> host_match \<Rightarrow> jval \<Rightarrow> jval option \<times> nat" where
  "observe_payload s draws mode cap ids m body =
     (case normalizeMessagesForObserve m body cap of
        None \<Rightarrow> (None, draws)
      | Some msgs \<Rightarrow>
          (case maskObserveContent s draws mode (msgs, j_default (j_field body ''tools'') (JArr [])) of
             (Inl e, d) \<Rightarrow> (None, d)
           | (Inr (messages, tools), d) \<Rightarrow>
               (Some (JObj [(''agent_id'', JStr (oi_agentId ids)), (''request_id'', JStr (oi_requestId ids)),
                 (''provider'', JStr (provider_text (hm_provider m))),
                 (''model'', case j_field body ''model'' of JStr t \<Rightarrow> JStr t | _ \<Rightarrow> JStr ''unknown''),
                 (''params'', JObj (observe_params body)), (''messages'', messages), (''tools_advertised'', tools),
                 (''session_id'', j_opt_str (oi_sessionId ids)), (''user_id'', j_opt_str (oi_userId ids)),
                 (''client_ts'', JStr (oi_clientTs ids))]), d)))"

datatype observe_reply = Or_Status int | Or_Throws string

datatype observe_event = Oe_Post nat | Oe_Sleep nat

datatype observe_outcome = Oo_Delivered | Oo_Rejected int | Oo_Dropped "string option"

definition attempts_of :: "int \<Rightarrow> nat" where
  "attempts_of maxRetries = nat (max 1 (maxRetries + 1))"

text \<open>The loop from attempt \<open>i\<close> on.\<close>

function observe_loop :: "(nat \<Rightarrow> observe_reply) \<Rightarrow> nat \<Rightarrow> nat \<Rightarrow> string option \<Rightarrow> observe_event list \<times> observe_outcome" where
  "observe_loop reply attempts i lastError =
     (if i \<ge> attempts then ([], Oo_Dropped lastError)
      else (let again = (\<lambda>e. case observe_loop reply attempts (Suc i) (Some e) of
              (es, r) \<Rightarrow> (Oe_Post i # (if i < attempts - 1 then [Oe_Sleep (50 * 4 ^ i)] else []) @ es, r))
        in case reply i of
          Or_Status s \<Rightarrow>
            if 200 \<le> s \<and> s \<le> 299 then ([Oe_Post i], Oo_Delivered)
            else if 400 \<le> s \<and> s < 500 then ([Oe_Post i], Oo_Rejected s)
            else again (''HTTP '' @ int_text s)
        | Or_Throws msg \<Rightarrow> again msg))"
  by pat_completeness auto
termination by (relation "measure (\<lambda>(reply, attempts, i, e). attempts - i)") auto

declare observe_loop.simps [simp del]

definition postObservePrompt :: "(nat \<Rightarrow> observe_reply) \<Rightarrow> int \<Rightarrow> observe_event list \<times> observe_outcome" where
  "postObservePrompt reply maxRetries = observe_loop reply (attempts_of maxRetries) 0 None"

section \<open>Properties\<close>

definition posts :: "observe_event list \<Rightarrow> nat list" where
  "posts es = List.map_filter (\<lambda>e. case e of Oe_Post i \<Rightarrow> Some i | Oe_Sleep _ \<Rightarrow> None) es"

definition sleeps :: "observe_event list \<Rightarrow> nat list" where
  "sleeps es = List.map_filter (\<lambda>e. case e of Oe_Sleep t \<Rightarrow> Some t | Oe_Post _ \<Rightarrow> None) es"

text \<open>The replies after which the loop goes on.\<close>

definition try_again :: "observe_reply \<Rightarrow> bool" where
  "try_again r = (case r of Or_Status s \<Rightarrow> \<not> (200 \<le> s \<and> s \<le> 299) \<and> \<not> (400 \<le> s \<and> s < 500) | Or_Throws _ \<Rightarrow> True)"

lemma posts_simps [simp]:
  "posts [] = []" "posts (Oe_Post i # es) = i # posts es" "posts (Oe_Sleep t # es) = posts es"
  "sleeps [] = []" "sleeps (Oe_Post i # es) = sleeps es" "sleeps (Oe_Sleep t # es) = t # sleeps es"
  by (simp_all add: posts_def sleeps_def List.map_filter_def)

lemma loop_again:
  assumes "i < attempts" and "try_again (reply i)"
  shows "\<exists>e'. observe_loop reply attempts i e = (case observe_loop reply attempts (Suc i) (Some e') of
     (es, r) \<Rightarrow> (Oe_Post i # (if i < attempts - 1 then [Oe_Sleep (50 * 4 ^ i)] else []) @ es, r))"
  using assms
  by (cases "reply i") (auto simp: observe_loop.simps [of reply attempts i e] try_again_def Let_def)

lemma loop_stops:
  assumes "i < attempts" and "\<not> try_again (reply i)"
  shows "fst (observe_loop reply attempts i e) = [Oe_Post i] \<and> \<not> (\<exists>d. snd (observe_loop reply attempts i e) = Oo_Dropped d)"
  using assms
  by (cases "reply i") (auto simp: observe_loop.simps [of reply attempts i e] try_again_def Let_def)

text \<open>The attempts are \<open>i\<close> up to the first reply that ends the loop, or all of them.\<close>

lemma loop_run:
  "i < attempts \<Longrightarrow> \<exists>k. i < k \<and> k \<le> attempts \<and> posts (fst (observe_loop reply attempts i e)) = [i..<k] \<and>
    sleeps (fst (observe_loop reply attempts i e)) = map (\<lambda>n. 50 * 4 ^ n) [i..<k - 1] \<and>
    (\<forall>n. i \<le> n \<and> n < k - 1 \<longrightarrow> try_again (reply n)) \<and>
    ((\<exists>d. snd (observe_loop reply attempts i e) = Oo_Dropped d) \<longleftrightarrow> try_again (reply (k - 1))) \<and>
    (try_again (reply (k - 1)) \<longrightarrow> k = attempts)"
proof (induction "attempts - i" arbitrary: i e)
  case (Suc left)
  show ?case
  proof (cases "try_again (reply i)")
    case False
    then show ?thesis using Suc.prems loop_stops [of i attempts reply e] by (intro exI [of _ "Suc i"]) auto
  next
    case True
    obtain e' where step: "observe_loop reply attempts i e = (case observe_loop reply attempts (Suc i) (Some e') of
        (es, r) \<Rightarrow> (Oe_Post i # (if i < attempts - 1 then [Oe_Sleep (50 * 4 ^ i)] else []) @ es, r))"
      using loop_again [where i = i and attempts = attempts and reply = reply and e = e] Suc.prems True by blast
    show ?thesis
    proof (cases "Suc i < attempts")
      case False
      then have "Suc i = attempts" "observe_loop reply attempts (Suc i) (Some e') = ([], Oo_Dropped (Some e'))"
        using Suc.prems by (simp_all add: observe_loop.simps [of reply attempts "Suc i"])
      then show ?thesis using step True by (intro exI [of _ "Suc i"]) auto
    next
      case more: True
      have left: "left = attempts - Suc i" using Suc.hyps(2) by simp
      from Suc.hyps(1) [OF left more, of "Some e'"] obtain k where k: "Suc i < k" "k \<le> attempts"
          "posts (fst (observe_loop reply attempts (Suc i) (Some e'))) = [Suc i..<k]"
          "sleeps (fst (observe_loop reply attempts (Suc i) (Some e'))) = map (\<lambda>n. 50 * 4 ^ n) [Suc i..<k - 1]"
          "\<forall>n. Suc i \<le> n \<and> n < k - 1 \<longrightarrow> try_again (reply n)"
          "(\<exists>d. snd (observe_loop reply attempts (Suc i) (Some e')) = Oo_Dropped d) \<longleftrightarrow> try_again (reply (k - 1))"
          "try_again (reply (k - 1)) \<longrightarrow> k = attempts" by blast
      have "n = i \<or> Suc i \<le> n" if "i \<le> n" for n using that by auto
      then show ?thesis using k step True more
        by (intro exI [of _ k]) (auto simp: case_prod_unfold upt_conv_Cons [of i])
    qed
  qed
qed simp

text \<open>The retry loop of the observation ends: it posts at least once and at most \<open>maxRetries + 1\<close> times, one attempt
  after the other, waits 50 ms times a power of four between two of them, goes on only after a failure worth
  repeating, and reports the event dropped exactly when all attempts failed that way.\<close>

theorem observe_retries_end:
  "\<exists>k. 1 \<le> k \<and> int k \<le> max 1 (maxRetries + 1) \<and> posts (fst (postObservePrompt reply maxRetries)) = [0..<k] \<and>
    sleeps (fst (postObservePrompt reply maxRetries)) = map (\<lambda>n. 50 * 4 ^ n) [0..<k - 1] \<and>
    list_all (\<lambda>n. try_again (reply n)) [0..<k - 1] \<and>
    ((\<exists>d. snd (postObservePrompt reply maxRetries) = Oo_Dropped d) \<longleftrightarrow>
      int k = max 1 (maxRetries + 1) \<and> try_again (reply (k - 1)))"
proof -
  have n: "0 < attempts_of maxRetries" "int (attempts_of maxRetries) = max 1 (maxRetries + 1)" by (simp_all add: attempts_of_def)
  from loop_run [OF n(1), of reply None] show ?thesis
    unfolding postObservePrompt_def n(2) [symmetric] by (auto simp: list_all_iff Suc_le_eq)
qed

text \<open>C19: prompts leave in clear only on an explicit wish and with the advanced add-on enabled: in every other case no
  active pattern matches any string value in the messages and tools of a payload (the names of properties and the other
  fields of the payload are not scanned), and where masking or the check after it fails there is no payload.\<close>

theorem observed_prompts_are_clean:
  assumes "\<not> (requested = Some Pm_Raw \<and> addon = Some Feature_Enabled)"
    and "mode = resolvePromptCaptureMode capturePrompts requested addon"
  shows "(\<forall>payload d t. observe_payload s draws mode cap ids m body = (Some payload, d) \<longrightarrow>
      t \<in> set (string_leaves (j_field payload ''messages'')) \<union> set (string_leaves (j_field payload ''tools_advertised'')) \<longrightarrow>
      clean (getActiveTextScanner s) t) \<and>
    (\<forall>msgs. normalizeMessagesForObserve m body cap = Some msgs \<longrightarrow>
      isl (fst (maskObserveContent s draws mode (msgs, j_default (j_field body ''tools'') (JArr [])))) \<longrightarrow>
      fst (observe_payload s draws mode cap ids m body) = None)"
proof (intro conjI allI impI)
  have mode: "mode \<noteq> Pm_Raw" using assms by (auto simp: resolvePromptCaptureMode_def Let_def split: option.splits)
  fix payload d t
  assume "observe_payload s draws mode cap ids m body = (Some payload, d)"
  then obtain msgs messages tools where p: "maskObserveContent s draws mode (msgs, j_default (j_field body ''tools'') (JArr [])) = (Inr (messages, tools), d)"
      "j_field payload ''messages'' = messages" "j_field payload ''tools_advertised'' = tools"
    by (auto simp: observe_payload_def j_field_def j_prop_def split: option.splits prod.splits sum.splits)
  assume t: "t \<in> set (string_leaves (j_field payload ''messages'')) \<union> set (string_leaves (j_field payload ''tools_advertised''))"
  show "clean (getActiveTextScanner s) t"
  proof (cases "isPiiPipelineNoOp s")
    case True
    then show ?thesis by (simp add: isPiiPipelineNoOp_def clean_def)
  next
    case False
    then obtain detail key where r: "runPiiPipeline s draws (JObj [(''messages'', msgs), (''tools_advertised'',
        j_default (j_field body ''tools'') (JArr []))]) ''*'' = (Inr (detail, key), d)"
        "messages = j_field detail ''messages''" "tools = j_field detail ''tools_advertised''"
      using p(1) mode by (auto simp: maskObserveContent_def split: prod.splits sum.splits)
    have "set (string_leaves (j_field detail k)) \<subseteq> set (string_leaves detail)" for k
      by (cases detail) (auto simp: j_field_def j_prop_def split: option.splits dest: map_of_SomeD)
    then have "t \<in> set (string_leaves detail)" using t p(2,3) r(2,3) by auto
    then show ?thesis by (rule pipeline_clean [OF r(1)])
  qed
next
  fix msgs
  assume "normalizeMessagesForObserve m body cap = Some msgs"
    "isl (fst (maskObserveContent s draws mode (msgs, j_default (j_field body ''tools'') (JArr []))))"
  then show "fst (observe_payload s draws mode cap ids m body) = None"
    by (auto simp: observe_payload_def split: prod.splits sum.splits)
qed

definition sample_ids :: observe_ids where
  "sample_ids = \<lparr>oi_agentId = ''a'', oi_requestId = ''r'', oi_sessionId = None, oi_userId = None, oi_clientTs = ''t''\<rparr>"

definition sample_chat :: "string \<Rightarrow> jval" where
  "sample_chat text_of_user = JObj [(''messages'', JArr [JObj [(''role'', JStr ''user''), (''content'', JStr text_of_user)]])]"

definition posted_content :: "jval \<Rightarrow> jval" where
  "posted_content payload = (case j_field payload ''messages'' of JArr (m # _) \<Rightarrow> j_field m ''content'' | _ \<Rightarrow> JUndefined)"

lemma sample_observed:
  "map_option (\<lambda>p. ''***email***'' \<in> set (string_leaves (j_field p ''messages'')))
     (fst (observe_payload sample_pii 0 (resolvePromptCaptureMode None None None) 8 sample_ids
       \<lparr>hm_provider = None, hm_shape = Some Shape_OpenAI_Chat\<rparr> (sample_chat ''a@b''))) = Some True"
  by code_simp

theorem observed_prompts_are_clean_witness:
  "\<exists>payload d. observe_payload sample_pii 0 Pm_Masked 8 sample_ids \<lparr>hm_provider = None, hm_shape = Some Shape_OpenAI_Chat\<rparr>
      (sample_chat ''a@b'') = (Some payload, d) \<and>
    ''***email***'' \<in> set (string_leaves (j_field payload ''messages'')) \<and>
    (\<forall>t \<in> set (string_leaves (j_field payload ''messages'')). clean (getActiveTextScanner sample_pii) t)"
proof -
  let ?m = "\<lparr>hm_provider = None, hm_shape = Some Shape_OpenAI_Chat\<rparr>"
  have mode: "Pm_Masked = resolvePromptCaptureMode None None None" by code_simp
  obtain payload d where p: "observe_payload sample_pii 0 Pm_Masked 8 sample_ids ?m (sample_chat ''a@b'') = (Some payload, d)"
      "''***email***'' \<in> set (string_leaves (j_field payload ''messages''))"
    using sample_observed unfolding mode
    by (cases "observe_payload sample_pii 0 (resolvePromptCaptureMode None None None) 8 sample_ids ?m (sample_chat ''a@b'')") auto
  have "\<not> ((None :: prompt_mode option) = Some Pm_Raw \<and> (None :: feature_state option) = Some Feature_Enabled)" by simp
  from observed_prompts_are_clean [OF this mode, of sample_pii 0 8 sample_ids ?m "sample_chat ''a@b''"] p show ?thesis by blast
qed

text \<open>The cut comes before the masking, which only sees what is left: where the byte bound falls inside a personal
  datum, its first part is no longer matched and is posted in clear.\<close>

lemma message_is_cut:
  assumes "length (utf8_encode x) = cap" and "y \<noteq> []"
  shows "j_field (buildObserveMsg role (x @ y) n cap) ''content'' = JStr x"
  using assms utf8_encode_Nil_iff [of y]
  by (simp add: buildObserveMsg_def Let_def utf8_encode_append utf8_decode_encode j_field_def j_prop_def)

end
