(* ===== verification/Fetch_Plane.thy ===== *)
theory Fetch_Plane
  imports Prompt_Capture
begin

text \<open>
  The fetch plane (\<^verbatim>\<open>instrumentation/fetch-interceptor.ts\<close>): every \<^verbatim>\<open>fetch\<close> of the process goes through
  \<open>patchedFetch\<close>. A request to a language model is refused when a tool call it reports is denied, and the
  response's calls are enforced; a request of the MCP protocol is forwarded only if its calls are allowed; vault
  placeholders are resolved in headers and refused in bodies. What the evaluator answers to the n-th question, what
  the network answers to the n-th request, and what the vault answers are arguments; so is the endpoint map at the
  time of each question, as other requests may change it meanwhile. The effects of one call are listed in order.
\<close>

section \<open>Effects\<close>

datatype fetch_effect =
    Fe_Observe prompt_mode jval
  | Fe_Sent fetch_input fetch_init
  | Fe_Unenforced
  | Fe_Audit bool "string \<times> jval"

text \<open>The call rejects, returns a response, or returns one whose body breaks off.\<close>

datatype fetch_result = Fr_Throws | Fr_Response http_response | Fr_Broken_Body

type_synonym network = "nat \<Rightarrow> fetch_input \<Rightarrow> fetch_init \<Rightarrow> http_response option"

type_synonym mcp_answers = "nat \<Rightarrow> string \<Rightarrow> jval \<Rightarrow> string option \<times> string option \<Rightarrow> evaluation option"

definition network_result :: "http_response option \<Rightarrow> fetch_result" where
  "network_result r = (case r of Some resp \<Rightarrow> Fr_Response resp | None \<Rightarrow> Fr_Throws)"

record fetch_config =
  fc_baseUrl :: string
  fc_failDeny :: bool
  fc_hosts :: host_registry
  fc_pdpProxyUrl :: "string option"
  fc_new_URL :: url_parser
  fc_mcp_env :: mcp_env
  fc_passthrough :: "string option"

definition fc_match :: "fetch_config \<Rightarrow> string \<Rightarrow> host_match" where
  "fc_match cfg url = classifyUrl (\<lambda>u. map_option (\<lambda>p. (up_hostname p, up_path p)) (fc_new_URL cfg u)) url"

section \<open>A response\<close>

definition streamShapeKey :: "wire_shape option \<Rightarrow> string" where
  "streamShapeKey shape = (case shape of
     Some Shape_OpenAI_Chat \<Rightarrow> ''openai'' | Some Shape_OpenAI_Responses \<Rightarrow> ''openai''
   | Some Shape_Anthropic_Messages \<Rightarrow> ''anthropic'' | Some Shape_Cohere_Chat \<Rightarrow> ''cohere''
   | Some Shape_Gemini_Generate \<Rightarrow> ''gemini'' | Some Shape_Bedrock_Converse \<Rightarrow> ''bedrock''
   | Some Shape_Bedrock_Invoke \<Rightarrow> ''bedrock'' | Some Shape_Mcp_JsonRpc \<Rightarrow> ''mcp-jsonrpc'' | None \<Rightarrow> [])"

definition streamPassthroughSet :: "string option \<Rightarrow> string list" where
  "streamPassthroughSet raw =
     filter (\<lambda>s. s \<noteq> []) (map (\<lambda>s. js_lower (js_trim s)) (split_commas (case raw of Some s \<Rightarrow> s | None \<Rightarrow> [])))"

text \<open>The closures of \<open>wrapStreamingResponse\<close> are those of \<open>createStreamingEnforcer\<close>, line by line, with the
  stream's controller in place of \<open>emit\<close>; \<open>asked\<close> is the number of questions put so far, \<open>dec\<close> the state of
  the shared text decoder.\<close>

definition wrapStreamingResponse :: "fetch_config \<Rightarrow> answers \<Rightarrow> nat \<Rightarrow> utf8_state \<Rightarrow> host_match \<Rightarrow> http_response \<Rightarrow>
    fetch_effect list \<times> fetch_result" where
  "wrapStreamingResponse cfg ev asked dec m upstream = (case rp_body upstream of
     None \<Rightarrow> ([], Fr_Response upstream)
   | Some chunks \<Rightarrow>
       if hm_shape m \<noteq> None \<and> streamShapeKey (hm_shape m) \<in> set (streamPassthroughSet (fc_passthrough cfg)) then
         ([Fe_Unenforced], Fr_Response upstream)
       else (case createStreamingEnforcer m of
           None \<Rightarrow> ([Fe_Unenforced], Fr_Response upstream)
         | Some s \<Rightarrow>
             (case enforcer_run (fc_failDeny cfg) (\<lambda>i. ev (asked + i)) dec s chunks of
                None \<Rightarrow> ([], Fr_Broken_Body)
              | Some fs \<Rightarrow> ([], Fr_Response (upstream\<lparr>rp_body := Some fs,
                  rp_headers := jm_del ''content-length'' (jm_set ''x-agentum-policy'' ''sdk-enforced'' (rp_headers upstream))\<rparr>)))))"

text \<open>\<^const>\<open>None\<close>: it throws.\<close>

definition wrapNonStreamingResponse :: "fetch_config \<Rightarrow> answers \<Rightarrow> nat \<Rightarrow> host_match \<Rightarrow> http_response \<Rightarrow> http_response option" where
  "wrapNonStreamingResponse cfg ev asked m upstream =
     (if \<not> js_includes (content_type upstream) ''application/json'' then Some upstream
      else (let t = response_text upstream in
        case json_parse t of
          None \<Rightarrow> Some (with_text upstream t)
        | Some JNull \<Rightarrow> None
        | Some json \<Rightarrow> do {
            calls \<leftarrow> extractResponseToolCalls m json;
            if calls = [] then Some (with_text upstream t)
            else (let decisions = answer_all (fc_failDeny cfg) (\<lambda>i. ev (asked + i)) calls in
              if \<not> list_ex denied decisions then Some (with_text upstream t)
              else do {
                rewritten \<leftarrow> rewriteResponseBody m json decisions;
                let body = json_text rewritten;
                Some ((with_text upstream body)\<lparr>rp_headers :=
                  jm_set ''x-agentum-policy'' ''sdk-enforced''
                    (jm_set ''content-length'' (nat_text (length (utf8_encode body))) (rp_headers upstream))\<rparr>) }) }))"

section \<open>A request to a language model\<close>

record refusal =
  rf_reason :: jval
  rf_call :: "request_call option"

text \<open>The loop over the calls that the request reports: why it is refused, and the questions put.\<close>

fun preflight :: "bool \<Rightarrow> answers \<Rightarrow> nat \<Rightarrow> request_call list \<Rightarrow> refusal option \<times> nat" where
  "preflight failDeny ev n [] = (None, n)"
| "preflight failDeny ev n (tc # rest) =
     (case ev n (rq_name tc) (rq_args tc) of
        None \<Rightarrow>
          if failDeny then (Some \<lparr>rf_reason = JStr ''agentum-fail-closed'', rf_call = None\<rparr>, Suc n)
          else preflight failDeny ev (Suc n) rest
      | Some verdict \<Rightarrow>
          if te_decision verdict = Dec_Deny then
            (Some \<lparr>rf_reason = (case te_reason verdict of Some r \<Rightarrow> j_default r (JStr ''policy denied'') | None \<Rightarrow> JStr ''policy denied''),
               rf_call = Some tc\<rparr>, Suc n)
          else preflight failDeny ev (Suc n) rest)"

definition refuse :: "host_match \<Rightarrow> int \<Rightarrow> refusal \<Rightarrow> http_response" where
  "refuse m now r = shortCircuitDeny m now (rf_reason r) (map_option rq_name (rf_call r)) (map_option rq_args (rf_call r))"

definition request_calls :: "host_match \<Rightarrow> jval option \<Rightarrow> request_call list option" where
  "request_calls m parsedBody = (case parsedBody of Some b \<Rightarrow> extractRequestToolCalls m b | None \<Rightarrow> Some [])"

definition intercept :: "fetch_config \<Rightarrow> prompt_mode \<Rightarrow> answers \<Rightarrow> network \<Rightarrow> utf8_state \<Rightarrow> int \<Rightarrow> host_match \<Rightarrow>
    fetch_input \<Rightarrow> fetch_init \<Rightarrow> fetch_effect list \<times> fetch_result" where
  "intercept cfg mode ev net dec now m input init =
     (let reqBody = readRequestBody input init;
          parsedBody = safeParseJson reqBody;
          observed = (case parsedBody of Some b \<Rightarrow> if mode \<noteq> Pm_Off then [Fe_Observe mode b] else [] | None \<Rightarrow> [])
      in case request_calls m parsedBody of
        None \<Rightarrow> (observed, Fr_Throws)
      | Some calls \<Rightarrow>
          (case preflight (fc_failDeny cfg) ev 0 calls of
             (Some r, _) \<Rightarrow> (observed, Fr_Response (refuse m now r))
           | (None, asked) \<Rightarrow>
               (let stamped = stampPlaneMarker input init reqBody; sent = observed @ [Fe_Sent input stamped] in
                case net 0 input stamped of
                  None \<Rightarrow> (sent, Fr_Throws)
                | Some upstream \<Rightarrow>
                    if rp_header upstream ''x-agentum-policy'' = Some ''enforced'' then (sent, Fr_Response upstream)
                    else if isEventStream upstream \<and> rp_body upstream \<noteq> None then
                      (case wrapStreamingResponse cfg ev asked dec m upstream of (es, r) \<Rightarrow> (sent @ es, r))
                    else (sent, network_result (wrapNonStreamingResponse cfg ev asked m upstream)))))"

section \<open>A request of the MCP protocol\<close>

definition isMcpSdkOwnOrigin :: "fetch_config \<Rightarrow> string \<Rightarrow> bool" where
  "isMcpSdkOwnOrigin cfg url = (case fc_new_URL cfg url of
     None \<Rightarrow> False
   | Some u \<Rightarrow> fc_baseUrl cfg \<noteq> [] \<and> (case fc_new_URL cfg (fc_baseUrl cfg) of Some b \<Rightarrow> up_origin u = up_origin b | None \<Rightarrow> False))"

text \<open>Whether the call is allowed.\<close>

definition evalMcpCall :: "fetch_config \<Rightarrow> mcp_answers \<Rightarrow> nat \<Rightarrow> endpoint_map \<Rightarrow> string \<Rightarrow> jval option \<Rightarrow> string \<Rightarrow> bool" where
  "evalMcpCall cfg ev n endpoints action args endpointKey =
     (case ev n action (case args of Some a \<Rightarrow> a | None \<Rightarrow> JUndefined) (mcpServerInfoFor endpoints endpointKey) of
        None \<Rightarrow> \<not> fc_failDeny cfg
      | Some v \<Rightarrow> te_decision v \<noteq> Dec_Deny)"

definition mcp_audit :: "bool \<Rightarrow> string \<Rightarrow> jval option \<Rightarrow> string \<Rightarrow> string option \<Rightarrow> fetch_effect" where
  "mcp_audit permitted action args endpointKey sessionId = Fe_Audit permitted
     (emitMcpHttpAudit permitted action args endpointKey (if permitted then None else Some ''policy denied'') sessionId)"

text \<open>The loop over a batch: the audit rows, and whether a call was denied.\<close>

fun mcp_batch :: "fetch_config \<Rightarrow> mcp_answers \<Rightarrow> (nat \<Rightarrow> endpoint_map) \<Rightarrow> string \<Rightarrow> string option \<Rightarrow> nat \<Rightarrow> mcp_call list \<Rightarrow>
    fetch_effect list \<times> bool" where
  "mcp_batch cfg ev endpoints key sessionId n [] = ([], False)"
| "mcp_batch cfg ev endpoints key sessionId n (c # rest) =
     (let action = mcpActionFor (endpoints n) key (mc_toolName c);
          permitted = evalMcpCall cfg ev n (endpoints n) action (mc_args c) key
      in case mcp_batch cfg ev endpoints key sessionId (Suc n) rest of
        (es, anyDeny) \<Rightarrow> (mcp_audit permitted action (mc_args c) key sessionId # es, \<not> permitted \<or> anyDeny))"

definition SSE_SCAN_CAP_BYTES :: nat where "SSE_SCAN_CAP_BYTES = 64 * 1024"

fun scanInitializeStream :: "utf8_state \<Rightarrow> string \<Rightarrow> nat \<Rightarrow> byte list list \<Rightarrow> string option" where
  "scanInitializeStream d acc bytes [] = None"
| "scanInitializeStream d acc bytes (v # vs) =
     (let (t, d') = utf8_stream d v; acc' = acc @ t; bytes' = bytes + length v in
      case some_text (scanInitializeSse acc') of
        Some name \<Rightarrow> Some name
      | None \<Rightarrow> if bytes' \<ge> SSE_SCAN_CAP_BYTES then None else scanInitializeStream d' acc' bytes' vs)"

text \<open>The server name and the session that the reply to \<^verbatim>\<open>initialize\<close> shows, and the response passed on.\<close>

definition initialize_reply :: "http_response \<Rightarrow> (string option \<times> string option) \<times> http_response" where
  "initialize_reply upstream =
     (let sessionId = rp_header upstream ''mcp-session-id''; ct = content_type upstream in
      if js_includes ct ''text/event-stream'' \<and> rp_body upstream \<noteq> None then
        ((scanInitializeStream utf8_start [] 0 (the (rp_body upstream)), sessionId), upstream)
      else if js_includes ct ''application/json'' then
        (let t = response_text upstream in
         ((case json_parse t of Some json \<Rightarrow> (if j_nullish json then None else extractServerInfo json) | None \<Rightarrow> None, sessionId),
          with_text upstream t))
      else ((None, sessionId), upstream))"

record mcp_outcome =
  mo_effects :: "fetch_effect list"
  mo_result :: fetch_result
  mo_tokens :: suppression_map
  mo_learned :: "(string \<times> string option \<times> string option) option"

definition mcp_done :: "suppression_map \<Rightarrow> fetch_effect list \<Rightarrow> fetch_result \<Rightarrow> mcp_outcome" where
  "mcp_done tokens es r = \<lparr>mo_effects = es, mo_result = r, mo_tokens = tokens, mo_learned = None\<rparr>"

definition mcp_forward :: "suppression_map \<Rightarrow> fetch_effect list \<Rightarrow> network \<Rightarrow> fetch_input \<Rightarrow> fetch_init \<Rightarrow> mcp_outcome" where
  "mcp_forward tokens es net input init = mcp_done tokens (es @ [Fe_Sent input init]) (network_result (net 0 input init))"

definition forwardMcpInitialize :: "suppression_map \<Rightarrow> network \<Rightarrow> string \<Rightarrow> fetch_input \<Rightarrow> fetch_init \<Rightarrow> mcp_outcome" where
  "forwardMcpInitialize tokens net endpointKey input init = (case net 0 input init of
     None \<Rightarrow> mcp_done tokens [Fe_Sent input init] Fr_Throws
   | Some upstream \<Rightarrow>
       (case initialize_reply upstream of ((name, sessionId), resp) \<Rightarrow>
          (mcp_done tokens [Fe_Sent input init] (Fr_Response resp))\<lparr>mo_learned := Some (endpointKey, name, sessionId)\<rparr>))"

definition interceptMcpFetch :: "fetch_config \<Rightarrow> mcp_answers \<Rightarrow> network \<Rightarrow> (nat \<Rightarrow> endpoint_map) \<Rightarrow> suppression_map \<Rightarrow> int \<Rightarrow>
    string \<Rightarrow> fetch_input \<Rightarrow> fetch_init \<Rightarrow> mcp_outcome" where
  "interceptMcpFetch cfg ev net endpoints tokens now url input init =
     (let key = mcpEndpointKey (\<lambda>u. map_option (\<lambda>p. (up_origin p, up_path p)) (fc_new_URL cfg u)) url in
      if isMcpSdkOwnOrigin cfg url then mcp_forward tokens [] net input init
      else (case readRequestBody input init of
          None \<Rightarrow> mcp_forward tokens [] net input init
        | Some rawBody \<Rightarrow>
            (let oldTransport = isOldTransportEndpoint (fc_mcp_env cfg) url;
                 sessionId = Option.bind (lookupMcpServer (endpoints 0) key) ep_sessionId
             in case parseMcpBody rawBody of
               None \<Rightarrow> mcp_forward tokens [] net input init
             | Some Mp_Other \<Rightarrow> mcp_forward tokens [] net input init
             | Some (Mp_Initialize i) \<Rightarrow> forwardMcpInitialize tokens net key input init
             | Some (Mp_Batch calls others) \<Rightarrow>
                 (case mcp_batch cfg ev endpoints key sessionId 0 calls of
                    (es, anyDeny) \<Rightarrow>
                      if anyDeny then mcp_done tokens es (Fr_Response (mcpJsonResponse
                        (JArr (map (\<lambda>c. buildMcpDenyResult (mc_id c) (Some ''policy denied'')) calls @
                          map (\<lambda>i. buildMcpDenyError i (Some ''policy denied'')) others))
                        (if oldTransport then 403 else 200)))
                      else mcp_forward tokens es net input init)
             | Some (Mp_Call c) \<Rightarrow>
                 (let action = mcpActionFor (endpoints 0) key (mc_toolName c) in
                  case consumeMcpCallEvaluated tokens action (mc_args c) now of
                    (True, tokens') \<Rightarrow> mcp_forward tokens' [] net input init
                  | (False, tokens') \<Rightarrow>
                      (let permitted = evalMcpCall cfg ev 0 (endpoints 0) action (mc_args c) key;
                           es = [mcp_audit permitted action (mc_args c) key sessionId]
                       in if permitted then mcp_forward tokens' es net input init
                          else mcp_done tokens' es (Fr_Response
                            (if oldTransport then mcpJsonResponse (buildMcpDenyError (mc_id c) (Some ''policy denied'')) 403
                             else mcpJsonResponse (buildMcpDenyResult (mc_id c) (Some ''policy denied'')) 200)))))))"

section \<open>The patched fetch\<close>

definition is_sent :: "fetch_effect \<Rightarrow> bool" where
  "is_sent e = (case e of Fe_Sent _ _ \<Rightarrow> True | _ \<Rightarrow> False)"

definition isR22Destination :: "fetch_config \<Rightarrow> string \<Rightarrow> bool" where
  "isR22Destination cfg url = (case parseOrigin (fc_new_URL cfg) (fc_pdpProxyUrl cfg) of
     Some orig \<Rightarrow> parseOrigin (fc_new_URL cfg) (Some url) = Some orig | None \<Rightarrow> False)"

text \<open>What \<open>resolveHeaderPlaceholders\<close> makes of the headers: an error, no change, or new pairs.\<close>

type_synonym vault = "header_init \<Rightarrow> vault_error + headers option"

definition with_headers :: "fetch_init \<Rightarrow> headers option \<Rightarrow> fetch_init" where
  "with_headers init r = (case r of None \<Rightarrow> init
     | Some hs \<Rightarrow> init\<lparr>fi_headers := Hi_Pairs (map (\<lambda>(k, v). [Some k, Some v]) hs)\<rparr>)"

definition resolve_init :: "fetch_config \<Rightarrow> vault \<Rightarrow> string \<Rightarrow> fetch_init \<Rightarrow> vault_error + fetch_init" where
  "resolve_init cfg vault url init =
     (if \<not> isR22Destination cfg url \<and> headersContainPlaceholder (fi_headers init)
      then map_sum id (with_headers init) (vault (fi_headers init)) else Inr init)"

text \<open>The request to a language model, with the catch around it.\<close>

definition guarded_intercept :: "fetch_config \<Rightarrow> prompt_mode \<Rightarrow> answers \<Rightarrow> network \<Rightarrow> utf8_state \<Rightarrow> int \<Rightarrow> host_match \<Rightarrow>
    fetch_input \<Rightarrow> fetch_init \<Rightarrow> fetch_effect list \<times> fetch_result" where
  "guarded_intercept cfg mode ev net dec now m input init =
     (case intercept cfg mode ev net dec now m input init of
        (es, Fr_Throws) \<Rightarrow>
          if fc_failDeny cfg then (es, Fr_Response (shortCircuitDeny m now (JStr ''agentum-internal-error'') None None))
          else (es @ [Fe_Sent input init], network_result (net (length (filter is_sent es)) input init))
      | r \<Rightarrow> r)"

definition patchedFetch :: "fetch_config \<Rightarrow> vault \<Rightarrow> prompt_mode \<Rightarrow> answers \<Rightarrow> mcp_answers \<Rightarrow> network \<Rightarrow> (nat \<Rightarrow> endpoint_map) \<Rightarrow>
    suppression_map \<Rightarrow> utf8_state \<Rightarrow> int \<Rightarrow> fetch_input \<Rightarrow> fetch_init \<Rightarrow> mcp_outcome" where
  "patchedFetch cfg vault mode ev mev net endpoints tokens dec now input init =
     (case some_text (extractUrl input) of
        None \<Rightarrow> mcp_forward tokens [] net input init
      | Some url \<Rightarrow>
          (case resolve_init cfg vault url init of
             Inl e \<Rightarrow> mcp_done tokens [] Fr_Throws
           | Inr init' \<Rightarrow>
               if bodyContainsPlaceholder input init' then mcp_done tokens [] Fr_Throws
               else (case fc_new_URL cfg url of
                   None \<Rightarrow> mcp_forward tokens [] net input init'
                 | Some u \<Rightarrow>
                     (let (meth, acc) = readMethodAndAccept input init';
                          gate = isMcpWireCandidate (fc_mcp_env cfg) meth acc url;
                          m = fc_match cfg url
                      in if \<not> hr_matches (fc_hosts cfg) (js_lower (up_hostname u)) \<or> hm_shape m = None then
                           (if gate then interceptMcpFetch cfg mev net endpoints tokens now url input init'
                            else mcp_forward tokens [] net input init')
                         else (case guarded_intercept cfg mode ev net dec now m input init' of
                             (es, r) \<Rightarrow> mcp_done tokens es r)))))"

section \<open>Properties\<close>

lemma with_headers_body [simp]: "fi_body (with_headers init r) = fi_body init"
  by (simp add: with_headers_def split: option.splits)

lemma resolve_init_body: "resolve_init cfg vault url init = Inr init' \<Longrightarrow> fi_body init' = fi_body init"
  by (cases "vault (fi_headers init)") (auto simp: resolve_init_def split: if_splits)

lemma body_scan_frame: "fi_body init' = fi_body init \<Longrightarrow> bodyContainsPlaceholder input init' = bodyContainsPlaceholder input init"
  "fi_body init' = fi_body init \<Longrightarrow> readRequestBody input init' = readRequestBody input init"
  by (simp_all add: bodyContainsPlaceholder_def readRequestBody_def)

text \<open>No request leaves with a placeholder it could not resolve: whatever the destination, a request with a
  placeholder in its readable body, or one in its headers that the vault did not resolve (unless it goes to the
  resolving proxy), is not sent at all.\<close>

theorem unresolved_placeholders_stay:
  assumes "Fe_Sent inp ini \<in> set (mo_effects (patchedFetch cfg vault mode ev mev net endpoints tokens dec now input init))"
    and "some_text (extractUrl input) = Some url"
  shows "\<not> bodyContainsPlaceholder input init \<and>
    (isR22Destination cfg url \<or> \<not> headersContainPlaceholder (fi_headers init) \<or> (\<exists>hs. vault (fi_headers init) = Inr hs))"
proof -
  obtain init' where r: "resolve_init cfg vault url init = Inr init'" "\<not> bodyContainsPlaceholder input init'"
    using assms by (auto simp: patchedFetch_def mcp_done_def split: sum.splits if_splits)
  have "\<not> bodyContainsPlaceholder input init" using r body_scan_frame(1) [OF resolve_init_body [OF r(1)]] by simp
  moreover have "isR22Destination cfg url \<or> \<not> headersContainPlaceholder (fi_headers init) \<or> (\<exists>hs. vault (fi_headers init) = Inr hs)"
    using r(1) by (cases "vault (fi_headers init)") (auto simp: resolve_init_def split: if_splits)
  ultimately show ?thesis by simp
qed

lemma preflight_passes:
  "fd \<Longrightarrow> fst (preflight fd ev n calls) = None \<Longrightarrow>
    list_all (\<lambda>(i, c). \<exists>v. ev i (rq_name c) (rq_args c) = Some v \<and> te_decision v \<noteq> Dec_Deny) (enumerate n calls)"
  by (induction fd ev n calls rule: preflight.induct) (auto split: option.splits if_splits)

lemma streaming_effects: "Fe_Sent inp ini \<notin> set (fst (wrapStreamingResponse cfg ev asked dec m upstream))"
  by (simp add: wrapStreamingResponse_def split: option.splits)

lemma intercept_sent:
  assumes "Fe_Sent inp ini \<in> set (fst (intercept cfg mode ev net dec now m input init))"
  shows "\<exists>calls. request_calls m (safeParseJson (readRequestBody input init)) = Some calls \<and>
    fst (preflight (fc_failDeny cfg) ev 0 calls) = None \<and>
    inp = input \<and> ini = stampPlaneMarker input init (readRequestBody input init)"
proof -
  let ?r = "request_calls m (safeParseJson (readRequestBody input init))"
  obtain calls where c: "?r = Some calls"
    using assms by (cases ?r) (auto simp: intercept_def Let_def split: option.splits if_splits)
  obtain f asked where p: "preflight (fc_failDeny cfg) ev 0 calls = (f, asked)" by fastforce
  have "f = None" using assms c p by (cases f) (auto simp: intercept_def Let_def split: option.splits if_splits)
  moreover have "inp = input \<and> ini = stampPlaneMarker input init (readRequestBody input init)"
    using assms c p \<open>f = None\<close> streaming_effects [of inp ini cfg ev asked dec m]
    by (auto simp: intercept_def Let_def case_prod_unfold split: option.splits if_splits)
  ultimately show ?thesis using c p by simp
qed

lemma guarded_sent:
  assumes "Fe_Sent inp ini \<in> set (fst (guarded_intercept cfg mode ev net dec now m input init))" and "fc_failDeny cfg"
  shows "\<exists>calls. request_calls m (safeParseJson (readRequestBody input init)) = Some calls \<and>
    list_all (\<lambda>(i, c). \<exists>v. ev i (rq_name c) (rq_args c) = Some v \<and> te_decision v \<noteq> Dec_Deny) (enumerate 0 calls) \<and>
    inp = input \<and> ini = stampPlaneMarker input init (readRequestBody input init)"
proof -
  have "Fe_Sent inp ini \<in> set (fst (intercept cfg mode ev net dec now m input init))"
    using assms by (auto simp: guarded_intercept_def split: prod.splits fetch_result.splits)
  from intercept_sent [OF this] assms(2) preflight_passes show ?thesis by fastforce
qed

text \<open>C17: in fail mode deny a request to a host of the registry whose provider is recognised reaches the network only if
  its headers could be resolved, and the evaluator was asked about each tool call that \<open>extractRequestToolCalls\<close> finds in its JSON
  body, and denied none; what is sent is the request itself, its headers resolved and marked. (A body that is no readable
  JSON text reports no call, and neither does whatever the extractor does not read in one.)\<close>

theorem sent_calls_were_not_denied:
  assumes "Fe_Sent inp ini \<in> set (mo_effects (patchedFetch cfg vault mode ev mev net endpoints tokens dec now input init))"
    and "fc_failDeny cfg" and "some_text (extractUrl input) = Some url" and "fc_new_URL cfg url = Some u"
    and "hr_matches (fc_hosts cfg) (js_lower (up_hostname u))" and "hm_shape (fc_match cfg url) \<noteq> None"
  shows "\<exists>calls init'. resolve_init cfg vault url init = Inr init' \<and> inp = input \<and>
    ini = stampPlaneMarker input init' (readRequestBody input init) \<and>
    request_calls (fc_match cfg url) (safeParseJson (readRequestBody input init)) = Some calls \<and>
    list_all (\<lambda>(i, c). \<exists>v. ev i (rq_name c) (rq_args c) = Some v \<and> te_decision v \<noteq> Dec_Deny) (enumerate 0 calls)"
proof -
  obtain init' where r: "resolve_init cfg vault url init = Inr init'"
      "Fe_Sent inp ini \<in> set (fst (guarded_intercept cfg mode ev net dec now (fc_match cfg url) input init'))"
    using assms by (auto simp: patchedFetch_def mcp_done_def case_prod_unfold Let_def split: sum.splits if_splits)
  from guarded_sent [OF r(2) assms(2)] r(1) body_scan_frame(2) [OF resolve_init_body [OF r(1)]] show ?thesis by auto
qed

definition sample_fetch_cfg :: "bool \<Rightarrow> fetch_config" where
  "sample_fetch_cfg fd = \<lparr>fc_baseUrl = [], fc_failDeny = fd, fc_hosts = hr_new [], fc_pdpProxyUrl = None,
     fc_new_URL = (\<lambda>u. Some \<lparr>up_origin = ''https://api.openai.com'', up_hostname = ''api.openai.com'', up_path = ''/v1/chat/completions''\<rparr>),
     fc_mcp_env = \<lparr>me_http = None, me_endpoints = None\<rparr>, fc_passthrough = None\<rparr>"

definition sample_post :: "string \<Rightarrow> fetch_init" where
  "sample_post t = \<lparr>fi_method = Some ''POST'', fi_headers = Hi_None, fi_body = Ib_Text t\<rparr>"

definition sample_chat_text :: string where
  "sample_chat_text = json_text (JObj [(''messages'', JArr [JObj [(''role'', JStr ''assistant''),
     (''tool_calls'', JArr [JObj [(''function'', JObj [(''name'', JStr ''f''), (''arguments'', JObj [])])]])]])])"

definition allow_f :: answers where
  "allow_f = (\<lambda>i n a. if n = ''f'' then Some (bare_evaluation Dec_Allow 0) else None)"

lemma sample_fetch_facts:
  "some_text (extractUrl (In_Text ''u'')) = Some ''u''"
  "hr_matches (fc_hosts (sample_fetch_cfg True)) (js_lower ''api.openai.com'')"
  "hm_shape (fc_match (sample_fetch_cfg True) ''u'') = Some Shape_OpenAI_Chat"
  "request_calls (fc_match (sample_fetch_cfg True) ''u'') (safeParseJson (Some sample_chat_text)) = Some [\<lparr>rq_name = ''f'', rq_args = JObj []\<rparr>]"
  "\<not> js_includes sample_chat_text VAULT_PLACEHOLDER_PREFIX"
  by code_simp+

lemma sample_fetch_sends:
  "Fe_Sent (In_Text ''u'') (stampPlaneMarker (In_Text ''u'') (sample_post sample_chat_text) (Some sample_chat_text)) \<in> set (mo_effects
     (patchedFetch (sample_fetch_cfg True) (\<lambda>h. Inl No_Fetch) Pm_Off allow_f (\<lambda>i n a s. None) (\<lambda>i inp ini. None)
       (\<lambda>n. []) [] utf8_start 0 (In_Text ''u'') (sample_post sample_chat_text)))"
proof -
  have b: "readRequestBody (In_Text ''u'') (sample_post sample_chat_text) = Some sample_chat_text"
      "\<not> bodyContainsPlaceholder (In_Text ''u'') (sample_post sample_chat_text)"
      "resolve_init (sample_fetch_cfg True) (\<lambda>h. Inl No_Fetch) ''u'' (sample_post sample_chat_text) = Inr (sample_post sample_chat_text)"
    using sample_fetch_facts(5)
    by (simp_all add: readRequestBody_def bodyContainsPlaceholder_def resolve_init_def headersContainPlaceholder_def sample_post_def)
  have c: "fc_new_URL (sample_fetch_cfg True) ''u'' =
      Some \<lparr>up_origin = ''https://api.openai.com'', up_hostname = ''api.openai.com'', up_path = ''/v1/chat/completions''\<rparr>"
      "fc_failDeny (sample_fetch_cfg True)" by (simp_all add: sample_fetch_cfg_def)
  show ?thesis using sample_fetch_facts b c
    by (simp add: patchedFetch_def guarded_intercept_def intercept_def allow_f_def bare_evaluation_def case_prod_unfold Let_def
      mcp_done_def split: option.split)
qed

theorem sent_calls_were_not_denied_witness:
  "Fe_Sent (In_Text ''u'') (stampPlaneMarker (In_Text ''u'') (sample_post sample_chat_text) (Some sample_chat_text)) \<in> set (mo_effects
     (patchedFetch (sample_fetch_cfg True) (\<lambda>h. Inl No_Fetch) Pm_Off allow_f (\<lambda>i n a s. None) (\<lambda>i inp ini. None)
       (\<lambda>n. []) [] utf8_start 0 (In_Text ''u'') (sample_post sample_chat_text))) \<and>
   request_calls (fc_match (sample_fetch_cfg True) ''u'') (safeParseJson (readRequestBody (In_Text ''u'') (sample_post sample_chat_text))) =
     Some [\<lparr>rq_name = ''f'', rq_args = JObj []\<rparr>] \<and>
   (\<exists>v. allow_f 0 ''f'' (JObj []) = Some v \<and> te_decision v \<noteq> Dec_Deny)"
proof -
  have u: "fc_new_URL (sample_fetch_cfg True) ''u'' =
      Some \<lparr>up_origin = ''https://api.openai.com'', up_hostname = ''api.openai.com'', up_path = ''/v1/chat/completions''\<rparr>"
      "fc_failDeny (sample_fetch_cfg True)" by (simp_all add: sample_fetch_cfg_def)
  have b: "readRequestBody (In_Text ''u'') (sample_post sample_chat_text) = Some sample_chat_text"
    by (simp add: readRequestBody_def sample_post_def)
  have "\<exists>v. allow_f 0 ''f'' (JObj []) = Some v \<and> te_decision v \<noteq> Dec_Deny"
    using sent_calls_were_not_denied [OF sample_fetch_sends u(2) sample_fetch_facts(1) u(1)] sample_fetch_facts(2,3,4)
    by (auto simp: b)
  then show ?thesis using sample_fetch_sends sample_fetch_facts(4) by (simp add: b)
qed

theorem unresolved_placeholders_stay_witness: "\<not> bodyContainsPlaceholder (In_Text ''u'') (sample_post sample_chat_text)"
  using unresolved_placeholders_stay [OF sample_fetch_sends sample_fetch_facts(1)] by simp

text \<open>The evaluator was asked about a call of the MCP protocol, under the server's name, and did not deny it.\<close>

definition mcp_permitted :: "mcp_answers \<Rightarrow> (nat \<Rightarrow> endpoint_map) \<Rightarrow> string \<Rightarrow> nat \<Rightarrow> mcp_call \<Rightarrow> bool" where
  "mcp_permitted ev endpoints key i c \<longleftrightarrow> (\<exists>v.
     ev i (mcpActionFor (endpoints i) key (mc_toolName c)) (case mc_args c of Some a \<Rightarrow> a | None \<Rightarrow> JUndefined)
       (mcpServerInfoFor (endpoints i) key) = Some v \<and> te_decision v \<noteq> Dec_Deny)"

lemma evalMcpCall_permitted:
  "fc_failDeny cfg \<Longrightarrow> evalMcpCall cfg ev i (endpoints i) (mcpActionFor (endpoints i) key (mc_toolName c)) (mc_args c) key =
    mcp_permitted ev endpoints key i c"
  by (auto simp: evalMcpCall_def mcp_permitted_def split: option.splits)

lemma mcp_batch_passes:
  assumes "fc_failDeny cfg"
  shows "\<not> snd (mcp_batch cfg ev endpoints key sid n calls) \<Longrightarrow>
    list_all (\<lambda>(i, c). mcp_permitted ev endpoints key i c) (enumerate n calls)"
  by (induction calls arbitrary: n) (auto simp: evalMcpCall_permitted [OF assms] Let_def case_prod_unfold)

lemma mcp_batch_effects: "Fe_Sent inp ini \<notin> set (fst (mcp_batch cfg ev endpoints key sid n calls))"
  by (induction calls arbitrary: n) (auto simp: mcp_audit_def Let_def case_prod_unfold)

lemma mcp_done_sent [simp]: "mo_effects (mcp_done tokens es r) = es" "mo_effects (mcp_forward tokens es net input init) = es @ [Fe_Sent input init]"
  by (simp_all add: mcp_done_def mcp_forward_def)


section \<open>What the plane does not do\<close>

text \<open>A placeholder in the headers of a \<^verbatim>\<open>Request\<close> object is neither resolved nor refused: it is forwarded.\<close>

lemma request_headers_are_not_scanned:
  assumes "fi_headers init = Hi_None" and "fc_new_URL cfg (fo_url r) = None" and "fo_url r \<noteq> []"
    and "\<not> bodyContainsPlaceholder (In_Request r) init"
  shows "Fe_Sent (In_Request r) init \<in> set (mo_effects (patchedFetch cfg vault mode ev mev net endpoints tokens dec now (In_Request r) init))"
  using assms by (simp add: patchedFetch_def extractUrl_def some_text_def resolve_init_def headersContainPlaceholder_def)

text \<open>In the default fail mode a network failure is reported as a refusal of the policy, with status 200.\<close>

lemma network_failure_reads_as_refusal:
  assumes "intercept cfg mode ev net dec now m input init = (es, Fr_Throws)" and "fc_failDeny cfg"
  shows "guarded_intercept cfg mode ev net dec now m input init =
    (es, Fr_Response (shortCircuitDeny m now (JStr ''agentum-internal-error'') None None))"
  using assms by (simp add: guarded_intercept_def)

text \<open>In fail mode allow a request is sent a second time when the network fails, or when its response cannot be
  read (here a reply that is \<^verbatim>\<open>null\<close>).\<close>

lemma unreadable_reply_sends_twice:
  assumes "\<not> fc_failDeny cfg" and "readRequestBody input init = None"
    and "net 0 input (stampPlaneMarker input init None) = Some r" and "rp_header r ''x-agentum-policy'' = None"
    and "content_type r = ''application/json''" and "json_parse (response_text r) = Some JNull"
  shows "fst (guarded_intercept cfg mode ev net dec now m input init) =
    [Fe_Sent input (stampPlaneMarker input init None), Fe_Sent input init]"
proof -
  have "\<not> isEventStream r" using assms(5) by (simp add: isEventStream_def js_includes_def js_indexOf.simps js_startsWith_def)
  moreover have "wrapNonStreamingResponse cfg ev 0 m r = None"
    using assms(5,6) by (simp add: wrapNonStreamingResponse_def js_includes_def js_indexOf.simps js_startsWith_def Let_def)
  ultimately show ?thesis using assms(1-4)
    by (simp add: guarded_intercept_def intercept_def safeParseJson_def some_text_def request_calls_def network_result_def Let_def)
qed

text \<open>A batch that is refused has left an audit row for each of its calls, a row of a call that ran for those that were
  not denied, although none was made.\<close>

lemma refused_batch_audits_allowed_calls:
  assumes "evalMcpCall cfg ev n (endpoints n) (mcpActionFor (endpoints n) key (mc_toolName c)) (mc_args c) key"
  shows "mcp_audit True (mcpActionFor (endpoints n) key (mc_toolName c)) (mc_args c) key sid \<in>
    set (fst (mcp_batch cfg ev endpoints key sid n (c # rest)))"
  using assms by (simp add: Let_def case_prod_unfold)

definition sample_mcp_text :: string where
  "sample_mcp_text = json_text (JObj [(''jsonrpc'', JStr ''2.0''), (''id'', JNum ''1''), (''method'', JStr ''tools/call''),
     (''params'', JObj [(''name'', JStr ''f''), (''arguments'', JObj [])])])"

lemma sample_mcp_parse:
  "parseMcpBody sample_mcp_text = Some (Mp_Call \<lparr>mc_id = JNum ''1'', mc_toolName = ''f'', mc_args = Some (JObj [])\<rparr>)"
  "isMcpSdkOwnOrigin (sample_fetch_cfg True) ''u'' = False"
  by code_simp+


end
