(* ===== verification/Trace_Context.thy ===== *)
theory Trace_Context
  imports Js_Text Json_Text Utf8_Text
begin

text \<open>
  The trace context that every request of the SDK carries (\<^verbatim>\<open>tracing.ts\<close>): printing and parsing the
  \<^verbatim>\<open>traceparent\<close> header, minting a context from random bytes, and the order in which the sources are asked. The
  caller's provider and the \<^verbatim>\<open>@opentelemetry/api\<close> active are arguments, and so are the drawn bytes.
\<close>

record trace_context =
  tr_traceId :: string
  tr_spanId :: string
  tr_flags :: string

definition formatTraceparent :: "trace_context \<Rightarrow> string" where
  "formatTraceparent ctx = ''00-'' @ tr_traceId ctx @ ''-'' @ tr_spanId ctx @ ''-'' @ tr_flags ctx"

definition hex_char :: "char \<Rightarrow> bool" where
  "hex_char c \<longleftrightarrow> is_digit c \<or> of_char c \<in> {97..102 :: nat} \<or> of_char c \<in> {65..70 :: nat}"

definition lower_hex :: "char \<Rightarrow> bool" where
  "lower_hex c \<longleftrightarrow> is_digit c \<or> of_char c \<in> {97..102 :: nat}"

definition all_zero :: "string \<Rightarrow> bool" where
  "all_zero s \<longleftrightarrow> s \<noteq> [] \<and> list_all (\<lambda>c. c = CHR ''0'') s"

text \<open>The regular expression has fixed widths: two, 32, 16 and two hexadecimal digits between dashes.\<close>

definition parseTraceparent :: "string option \<Rightarrow> trace_context option" where
  "parseTraceparent header = (case header of None \<Rightarrow> None | Some v \<Rightarrow>
     let t = js_trim v; version = take 2 t; traceId = take 32 (drop 3 t); spanId = take 16 (drop 36 t);
       flags = take 2 (drop 53 t) in
     if v = [] \<or> length t \<noteq> 55 \<or> \<not> list_all hex_char (version @ traceId @ spanId @ flags) \<or>
        t ! 2 \<noteq> CHR ''-'' \<or> t ! 35 \<noteq> CHR ''-'' \<or> t ! 52 \<noteq> CHR ''-'' then None
     else if version \<noteq> ''00'' then None
     else if all_zero traceId \<or> all_zero spanId then None
     else Some \<lparr>tr_traceId = js_lower traceId, tr_spanId = js_lower spanId, tr_flags = js_lower flags\<rparr>)"

section \<open>Sources\<close>

definition hex_byte :: "nat \<Rightarrow> string" where
  "hex_byte b = [hex_digit (b div 16), hex_digit (b mod 16)]"

definition flagsToHex :: "int \<Rightarrow> string" where
  "flagsToHex flags = hex_byte (nat (flags mod 256))"

text \<open>The active span of \<^verbatim>\<open>@opentelemetry/api\<close>, \<^const>\<open>None\<close> where the package or the span is missing or throws.\<close>

record otel_span =
  ot_traceId :: string
  ot_spanId :: string
  ot_traceFlags :: "int option"

definition readOtelContext :: "otel_span option \<Rightarrow> trace_context option" where
  "readOtelContext active = (case active of None \<Rightarrow> None | Some sc \<Rightarrow>
     if ot_traceId sc = [] \<or> all_zero (ot_traceId sc) then None
     else if ot_spanId sc = [] \<or> all_zero (ot_spanId sc) then None
     else Some \<lparr>tr_traceId = js_lower (ot_traceId sc), tr_spanId = js_lower (ot_spanId sc),
       tr_flags = flagsToHex (case ot_traceFlags sc of Some f \<Rightarrow> f | None \<Rightarrow> 0)\<rparr>)"

text \<open>\<open>draw i\<close> is the array that the \<open>i\<close>-th call to the generator fills.\<close>

definition randomHex :: "byte list \<Rightarrow> string" where
  "randomHex bs = concat (map (\<lambda>b. hex_byte (unat b)) bs)"

definition nonZeroHex :: "nat \<Rightarrow> (nat \<Rightarrow> byte list) \<Rightarrow> string" where
  "nonZeroHex bytes draw = (case find (\<lambda>v. \<not> all_zero v) (map (\<lambda>i. randomHex (draw i)) [0..<4]) of
     Some v \<Rightarrow> v
   | None \<Rightarrow> CHR ''1'' # replicate (bytes * 2 - 1) (CHR ''0''))"

definition mintTraceContext :: "(nat \<Rightarrow> byte list) \<Rightarrow> (nat \<Rightarrow> byte list) \<Rightarrow> trace_context" where
  "mintTraceContext draw draw' =
     \<lparr>tr_traceId = nonZeroHex 16 draw, tr_spanId = nonZeroHex 8 draw', tr_flags = ''01''\<rparr>"

text \<open>The provider is \<^const>\<open>None\<close> where there is none, where it throws and where it answers null.\<close>

definition resolveTraceContext :: "trace_context option \<Rightarrow> otel_span option \<Rightarrow> (nat \<Rightarrow> byte list) \<Rightarrow> (nat \<Rightarrow> byte list) \<Rightarrow>
    trace_context" where
  "resolveTraceContext provider active draw draw' = (case provider of
     Some ctx \<Rightarrow> ctx
   | None \<Rightarrow> (case readOtelContext active of Some ctx \<Rightarrow> ctx | None \<Rightarrow> mintTraceContext draw draw'))"

section \<open>What a header carries\<close>

definition trace_ok :: "trace_context \<Rightarrow> bool" where
  "trace_ok ctx \<longleftrightarrow> length (tr_traceId ctx) = 32 \<and> length (tr_spanId ctx) = 16 \<and> length (tr_flags ctx) = 2 \<and>
     list_all lower_hex (tr_traceId ctx @ tr_spanId ctx @ tr_flags ctx) \<and>
     \<not> all_zero (tr_traceId ctx) \<and> \<not> all_zero (tr_spanId ctx)"

lemma lower_hex_char: "lower_hex c \<Longrightarrow> hex_char c"
  by (auto simp: lower_hex_def hex_char_def)

lemma lower_hex_lower: "hex_char c \<Longrightarrow> lower_hex (lower_char c)"
  by (auto simp: hex_char_def lower_hex_def lower_char_def is_upper_def is_digit_def)

lemma lower_hex_fix: "lower_hex c \<Longrightarrow> lower_char c = c"
  by (auto simp: lower_hex_def lower_char_def is_upper_def is_digit_def)

lemma hex_not_ws: "hex_char c \<Longrightarrow> \<not> is_ws c"
  by (auto simp: hex_char_def is_digit_def is_ws_def)

lemma lower_zero: "hex_char c \<Longrightarrow> lower_char c = CHR ''0'' \<longleftrightarrow> c = CHR ''0''"
proof -
  assume h: "hex_char c"
  have z: "c = CHR ''0'' \<longleftrightarrow> of_char c = (48 :: nat)" for c
  proof -
    have "of_char (CHR ''0'') = (48 :: nat)" by simp
    then show "c = CHR ''0'' \<longleftrightarrow> of_char c = (48 :: nat)" by (metis of_char_eq_iff)
  qed
  show ?thesis using h by (auto simp: z hex_char_def lower_char_def is_upper_def is_digit_def)
qed

lemma all_zero_lower: "list_all hex_char s \<Longrightarrow> all_zero (js_lower s) \<longleftrightarrow> all_zero s"
  by (auto simp: all_zero_def js_lower_def list_all_iff lower_zero)

lemma js_lower_fix: "list_all lower_hex s \<Longrightarrow> js_lower s = s"
  by (auto simp: js_lower_def list_all_iff lower_hex_fix intro: map_idI)

lemma length_js_lower [simp]: "length (js_lower s) = length s"
  by (simp add: js_lower_def)

lemma parsed_ok:
  assumes "parseTraceparent header = Some ctx"
  shows "trace_ok ctx"
proof -
  obtain v where "header = Some v" using assms by (cases header) (auto simp: parseTraceparent_def)
  moreover define t where "t = js_trim v"
  ultimately have t: "length t = 55" "list_all hex_char (take 32 (drop 3 t))" "list_all hex_char (take 16 (drop 36 t))"
      "list_all hex_char (take 2 (drop 53 t))" "\<not> all_zero (take 32 (drop 3 t))" "\<not> all_zero (take 16 (drop 36 t))"
    and c: "ctx = \<lparr>tr_traceId = js_lower (take 32 (drop 3 t)), tr_spanId = js_lower (take 16 (drop 36 t)),
      tr_flags = js_lower (take 2 (drop 53 t))\<rparr>"
    using assms by (auto simp: parseTraceparent_def Let_def t_def split: if_splits)
  have hex: "list_all hex_char s \<Longrightarrow> list_all lower_hex (js_lower s)" for s
    by (auto simp: js_lower_def list_all_iff lower_hex_lower)
  show ?thesis using t by (simp add: c trace_ok_def hex all_zero_lower)
qed

lemma drop_solid: "\<lbrakk>xs \<noteq> []; \<not> P (hd xs)\<rbrakk> \<Longrightarrow> dropWhile P xs = xs"
  by (cases xs) auto

lemma trim_solid: "\<lbrakk>s \<noteq> []; \<not> is_ws (hd s); \<not> is_ws (last s)\<rbrakk> \<Longrightarrow> js_trim s = s"
  by (simp add: js_trim_def drop_solid hd_rev)

lemma formatted_parses:
  assumes "trace_ok ctx"
  shows "parseTraceparent (Some (formatTraceparent ctx)) = Some ctx"
proof -
  let ?s = "formatTraceparent ctx"
  have len: "length (tr_traceId ctx) = 32" "length (tr_spanId ctx) = 16" "length (tr_flags ctx) = 2"
    and hex: "list_all lower_hex (tr_traceId ctx)" "list_all lower_hex (tr_spanId ctx)" "list_all lower_hex (tr_flags ctx)"
    using assms by (auto simp: trace_ok_def)
  have ne: "tr_flags ctx \<noteq> []" using len by auto
  have "hex_char (last (tr_flags ctx))"
    using hex(3) ne by (meson last_in_set list_all_iff lower_hex_char)
  then have ws: "\<not> is_ws (last ?s)" using ne by (simp add: formatTraceparent_def hex_not_ws)
  have ws0: "\<not> is_ws (hd ?s)" by (simp add: formatTraceparent_def is_ws_def)
  have nonempty: "?s \<noteq> []" by (simp add: formatTraceparent_def)
  then have trim: "js_trim ?s = ?s" using nonempty ws ws0 trim_solid by blast
  have parts: "take 2 ?s = ''00''" "take 32 (drop 3 ?s) = tr_traceId ctx" "take 16 (drop 36 ?s) = tr_spanId ctx"
      "take 2 (drop 53 ?s) = tr_flags ctx" "?s ! 2 = CHR ''-''" "?s ! 35 = CHR ''-''" "?s ! 52 = CHR ''-''"
      "length ?s = 55"
    using len by (simp_all add: formatTraceparent_def nth_append eval_nat_numeral)
  have hx: "list_all lower_hex s \<Longrightarrow> list_all hex_char s" for s by (auto simp: list_all_iff lower_hex_char)
  have "hex_char (CHR ''0'')" by (simp add: hex_char_def is_digit_def)
  then show ?thesis
    using assms unfolding parseTraceparent_def option.case Let_def trim parts
    by (simp add: nonempty hx hex js_lower_fix trace_ok_def)
qed

lemma hex_byte_lower: "b < 256 \<Longrightarrow> list_all lower_hex (hex_byte b)"
proof -
  assume b: "b < 256"
  have digit: "n < 16 \<Longrightarrow> lower_hex (hex_digit n)" for n
    by (auto simp: hex_digit_def lower_hex_def is_digit_def)
  have "b div 16 < 16" "b mod 16 < 16" using b by auto
  then show ?thesis using digit by (simp add: hex_byte_def)
qed

lemma random_hex: "list_all lower_hex (randomHex bs)" "length (randomHex bs) = 2 * length bs"
proof -
  have "unat b < 256" for b :: byte using unsigned_less [of b] by simp
  then show "list_all lower_hex (randomHex bs)" by (induction bs) (auto simp: randomHex_def hex_byte_lower)
  show "length (randomHex bs) = 2 * length bs" by (induction bs) (auto simp: randomHex_def hex_byte_def)
qed

lemma non_zero_hex:
  assumes "\<And>i. length (draw i) = bytes" and "0 < bytes"
  shows "list_all lower_hex (nonZeroHex bytes draw) \<and> length (nonZeroHex bytes draw) = 2 * bytes \<and> \<not> all_zero (nonZeroHex bytes draw)"
proof (cases "find (\<lambda>v. \<not> all_zero v) (map (\<lambda>i. randomHex (draw i)) [0..<4])")
  case None
  have "lower_hex (CHR ''0'')" "lower_hex (CHR ''1'')" by (simp_all add: lower_hex_def is_digit_def)
  then show ?thesis using None assms by (auto simp: nonZeroHex_def all_zero_def list_all_iff)
next
  case (Some v)
  then obtain i where "v = randomHex (draw i)" "\<not> all_zero v" by (auto simp: find_Some_iff)
  then show ?thesis using Some random_hex [of "draw i"] assms by (simp add: nonZeroHex_def)
qed

lemma minted_ok:
  assumes "\<And>i. length (draw i) = 16" and "\<And>i. length (draw' i) = 8"
  shows "trace_ok (mintTraceContext draw draw')"
proof -
  have "list_all lower_hex ''01''" by (simp add: lower_hex_def is_digit_def)
  then show ?thesis
    using non_zero_hex [of draw 16] non_zero_hex [of draw' 8] assms by (simp add: mintTraceContext_def trace_ok_def)
qed

text \<open>A context survives the header exactly when it is well formed (32, 16 and two lower-case hexadecimal
  digits, neither id all zero); everything read from a header is well formed, and so is every context minted
  from random bytes, all-zero draws included.\<close>

theorem traceparent_roundtrip:
  "(parseTraceparent (Some (formatTraceparent ctx)) = Some ctx \<longleftrightarrow> trace_ok ctx) \<and>
   ((\<exists>header. parseTraceparent header = Some ctx) \<longleftrightarrow> trace_ok ctx) \<and>
   trace_ok (mintTraceContext (\<lambda>i. take 16 (draw i @ replicate 16 0)) (\<lambda>i. take 8 (draw' i @ replicate 8 0)))"
proof -
  have minted: "trace_ok (mintTraceContext (\<lambda>i. take 16 (draw i @ replicate 16 0)) (\<lambda>i. take 8 (draw' i @ replicate 8 0)))"
    by (rule minted_ok) simp_all
  show ?thesis using formatted_parses parsed_ok minted by blast
qed

text \<open>A context from the caller's provider is not checked: a malformed one goes out as it is and no collector
  reads it back.\<close>

lemma provider_context_unchecked:
  "parseTraceparent (Some (formatTraceparent (resolveTraceContext
     (Some \<lparr>tr_traceId = ''abc'', tr_spanId = ''1'', tr_flags = ''01''\<rparr>) None (\<lambda>i. []) (\<lambda>i. [])))) = None"
  by code_simp

end
