(* ===== verification/Api_Request.thy ===== *)
theory Api_Request
  imports Trace_Context Json_Parse Js_Value
begin

text \<open>
  One call to the control plane: the request loop shared by \<^verbatim>\<open>client.ts\<close> and \<^verbatim>\<open>admin/http.ts\<close>, with its url
  and headers, its retries and waits, the single token refresh and the errors it ends in; and \<^verbatim>\<open>redact\<close>, which
  every error body goes through. A run is a function of the replies, of the drawn random numbers and of the clock; its
  value holds the requests and waits in order. \<open>net i\<close> is what the fetch function does when it is called for
  the \<open>i\<close>-th time: it rejects with a value, or resolves to a reply.
\<close>

section \<open>Redaction\<close>

text \<open>\<^verbatim>\<open>/token|secret|password|authorization|api[-_]?key/i\<close>\<close>

definition secret_key :: "string \<Rightarrow> bool" where
  "secret_key k \<longleftrightarrow> list_ex (js_includes (js_lower k))
     [''token'', ''secret'', ''password'', ''authorization'', ''apikey'', ''api-key'', ''api_key'']"

fun redact :: "nat \<Rightarrow> jval \<Rightarrow> jval" where
  "redact depth (JArr vs) = (if depth > 4 then JArr vs else JArr (map (redact (depth + 1)) vs))"
| "redact depth (JObj kvs) = (if depth > 4 then JObj kvs else
     JObj (map (\<lambda>(k, v). (k, if secret_key k then JStr ''[REDACTED]'' else redact (depth + 1) v)) kvs))"
| "redact depth v = v"

section \<open>Errors\<close>

datatype error_class = Agentum_Error | Auth_Error | Permission_Error | Role_Insufficient string string | Not_Found_Error | Conflict_Error

text \<open>\<open>Undefined_Thrown\<close>: \<^verbatim>\<open>throw lastError\<close> with nothing in it; \<open>Type_Error\<close>: the language's own.\<close>

datatype api_error =
  Api_Error error_class string "int option" jval
| Undefined_Thrown
| Type_Error

definition plain_error :: "string \<Rightarrow> api_error" where
  "plain_error msg = Api_Error Agentum_Error msg None JUndefined"

definition networkErrorCode :: "jval \<Rightarrow> string option" where
  "networkErrorCode err = (if \<not> j_truthy err then None else
     case j_field err ''code'' of JStr c \<Rightarrow> Some c
     | _ \<Rightarrow> if j_truthy (j_field err ''cause'') then j_string (j_field (j_field err ''cause'') ''code'') else None)"

definition RETRYABLE_STATUSES :: "int list" where
  "RETRYABLE_STATUSES = [429, 502, 503, 504]"

definition RETRYABLE_NET_CODES :: "string list" where
  "RETRYABLE_NET_CODES = [''ECONNRESET'', ''ECONNREFUSED'', ''ETIMEDOUT'', ''ENOTFOUND'', ''EAI_AGAIN'',
     ''UND_ERR_SOCKET'', ''UND_ERR_CONNECT_TIMEOUT'']"

section \<open>The client and its calls\<close>

record api_client =
  ac_baseUrl :: string
  ac_timeoutMs :: int
  ac_retries :: int
  ac_retryDelayMs :: rat
  ac_defaultHeaders :: "(string, string) jsmap"
  ac_apiKey :: "string option"
  ac_token :: "string option"

text \<open>A query entry is \<^const>\<open>None\<close> where its value is undefined. A body is \<^const>\<open>None\<close> where it is.\<close>

record api_call =
  cl_method :: string
  cl_path :: string
  cl_body :: "jval option"
  cl_query :: "(string \<times> string option) list"
  cl_headers :: "(string, string) jsmap option"
  cl_absoluteUrl :: bool

definition strip_slash_end :: "string \<Rightarrow> string" where
  "strip_slash_end s = (if s \<noteq> [] \<and> last s = CHR ''/'' then butlast s else s)"

definition strip_slash_start :: "string \<Rightarrow> string" where
  "strip_slash_start s = (case s of c # r \<Rightarrow> if c = CHR ''/'' then r else s | [] \<Rightarrow> [])"

definition truthy_text :: "string option \<Rightarrow> string option" where
  "truthy_text s = (if s = Some [] then None else s)"

text \<open>The constructor, as far as requests depend on it. \<open>valid_url\<close> is \<^verbatim>\<open>new URL\<close> not throwing.\<close>

record api_config =
  cf_baseUrl :: string
  cf_timeoutMs :: "int option"
  cf_retries :: "int option"
  cf_retryDelayMs :: "rat option"
  cf_defaultHeaders :: "(string, string) jsmap"
  cf_tenantId :: "string option"
  cf_apiKey :: "string option"
  cf_token :: "string option"

definition new_client :: "(string \<Rightarrow> bool) \<Rightarrow> api_config \<Rightarrow> api_error + api_client" where
  "new_client valid_url cfg =
     (if cf_baseUrl cfg = [] then Inl (plain_error ''Invalid baseUrl: must be a non-empty string'')
      else if \<not> js_startsWith (cf_baseUrl cfg) ''http://'' \<and> \<not> js_startsWith (cf_baseUrl cfg) ''https://'' then
        Inl (plain_error (''Invalid baseUrl \"'' @ cf_baseUrl cfg @ ''\": must start with http:// or https://''))
      else if \<not> valid_url (cf_baseUrl cfg) then
        Inl (plain_error (''Invalid baseUrl \"'' @ cf_baseUrl cfg @ ''\": not a valid URL''))
      else Inr \<lparr>ac_baseUrl = strip_slash_end (cf_baseUrl cfg),
        ac_timeoutMs = (case cf_timeoutMs cfg of Some t \<Rightarrow> t | None \<Rightarrow> 15000),
        ac_retries = (case cf_retries cfg of Some r \<Rightarrow> r | None \<Rightarrow> 3),
        ac_retryDelayMs = (case cf_retryDelayMs cfg of Some d \<Rightarrow> d | None \<Rightarrow> 250),
        ac_defaultHeaders = (let base = foldl (\<lambda>hs (k, v). jm_set k v hs)
            [(''Content-Type'', ''application/json''), (''Accept'', ''application/json'')] (cf_defaultHeaders cfg)
          in case truthy_text (cf_tenantId cfg) of Some t \<Rightarrow> jm_set ''X-Tenant-ID'' t base | None \<Rightarrow> base),
        ac_apiKey = cf_apiKey cfg, ac_token = cf_token cfg\<rparr>)"

definition buildHeaders :: "api_client \<Rightarrow> string option \<Rightarrow> (string, string) jsmap option \<Rightarrow> trace_context \<Rightarrow> (string, string) jsmap" where
  "buildHeaders c token extra trace =
     (let h = ac_defaultHeaders c;
        h1 = (case truthy_text (ac_apiKey c) of Some k \<Rightarrow> jm_set ''X-API-Key'' k h | None \<Rightarrow> h);
        h2 = (case truthy_text token of Some t \<Rightarrow> jm_set ''Authorization'' (''Bearer '' @ t) h1 | None \<Rightarrow> h1);
        h3 = (if (case extra of Some e \<Rightarrow> jm_has e ''traceparent'' | None \<Rightarrow> False) then h2
              else jm_set ''traceparent'' (formatTraceparent trace) h2)
      in case extra of Some e \<Rightarrow> foldl (\<lambda>hs (k, v). jm_set k v hs) h3 e | None \<Rightarrow> h3)"

definition api_url :: "api_client \<Rightarrow> string \<Rightarrow> string" where
  "api_url c path = ac_baseUrl c @ ''/api/v1/'' @ strip_slash_start path"

text \<open>\<^verbatim>\<open>URLSearchParams\<close>: \<^verbatim>\<open>set\<close> and the form serializer.\<close>

definition form_char :: "char \<Rightarrow> string" where
  "form_char c = (if is_digit c \<or> is_lower c \<or> is_upper c \<or> c \<in> set ''*-._'' then [c]
     else if c = CHR '' '' then ''+''
     else concat (map (\<lambda>b. CHR ''%'' # map upper_char (hex_byte (unat b))) (utf8_char c)))"

definition form_encode :: "string \<Rightarrow> string" where
  "form_encode s = concat (map form_char s)"

definition query_text :: "(string \<times> string option) list \<Rightarrow> string" where
  "query_text q = js_join ''&'' (map (\<lambda>(k, v). form_encode k @ ''='' @ form_encode v)
     (foldl (\<lambda>ps (k, v). case v of Some t \<Rightarrow> jm_set k t ps | None \<Rightarrow> ps) [] q))"

definition request_url :: "api_client \<Rightarrow> api_call \<Rightarrow> string" where
  "request_url c call =
     (let url = (if cl_absoluteUrl call then cl_path call else api_url c (cl_path call)); qs = query_text (cl_query call)
      in if qs \<noteq> [] then url @ ''?'' @ qs else url)"

section \<open>Replies\<close>

text \<open>\<open>ap_text\<close> is \<^const>\<open>None\<close> where reading the body rejects.\<close>

record api_reply =
  ap_status :: int
  ap_headers :: "(string, string) jsmap"
  ap_text :: "string option"

definition reply_ok :: "api_reply \<Rightarrow> bool" where
  "reply_ok r \<longleftrightarrow> 200 \<le> ap_status r \<and> ap_status r < 300"

definition reply_body :: "api_reply \<Rightarrow> jval" where
  "reply_body r =
     (if js_includes (case jm_get (ap_headers r) ''content-type'' of Some ct \<Rightarrow> ct | None \<Rightarrow> []) ''application/json'' \<and>
         ap_status r \<noteq> 204
      then case Option.bind (ap_text r) json_parse of Some v \<Rightarrow> v | None \<Rightarrow> JUndefined
      else JUndefined)"

definition reply_message :: "api_reply \<Rightarrow> string" where
  "reply_message r = (case j_in ''error'' (reply_body r) of
     Some True \<Rightarrow> j_text (j_field (reply_body r) ''error'')
   | _ \<Rightarrow> ''HTTP '' @ int_text (ap_status r))"

text \<open>How long \<^verbatim>\<open>Retry-After\<close> asks to wait. \<open>date\<close> reads an HTTP date.\<close>

definition retry_after :: "(string \<Rightarrow> int option) \<Rightarrow> int \<Rightarrow> api_reply \<Rightarrow> rat option" where
  "retry_after date now r = (case truthy_text (jm_get (ap_headers r) ''retry-after'') of
     None \<Rightarrow> None
   | Some h \<Rightarrow>
       let waitMs = (case js_number h of
           Some seconds \<Rightarrow> Some (seconds * 1000)
         | None \<Rightarrow> map_option (\<lambda>t. of_int (max 0 (t - now))) (date h))
       in case waitMs of Some w \<Rightarrow> if w > 0 then Some w else None | None \<Rightarrow> None)"

text \<open>The errors of the runtime client and of the admin client.\<close>

datatype client_kind = Runtime_Client | Admin_Client

definition expired_hint :: string where
  "expired_hint = '' ? session token has likely expired. Configure `apiKey` (long-lived, agent-scoped) '' @
     ''to enable automatic session refresh, or call `connect()` again to mint a fresh session.''"

definition revoked_hint :: string where
  "revoked_hint = '' ? token refresh failed with 401: the underlying API key has been revoked or expired. '' @
     ''Mint a new key and update your SDK config.''"

definition status_error :: "bool \<Rightarrow> string \<Rightarrow> api_reply \<Rightarrow> api_error" where
  "status_error tokenOnlyNoRefresh path r =
     (let msg = reply_message r; body = redact 0 (reply_body r) in
      if ap_status r = 401 then Api_Error Auth_Error (if tokenOnlyNoRefresh then msg @ expired_hint else msg) (Some 401) body
      else if ap_status r = 403 then Api_Error Permission_Error msg (Some 403) body
      else if ap_status r = 404 then Api_Error Not_Found_Error (''Not found: '' @ path) (Some 404) body
      else if ap_status r = 409 then Api_Error Conflict_Error msg (Some 409) body
      else Api_Error Agentum_Error msg (Some (ap_status r)) body)"

definition text_or_empty :: "jval \<Rightarrow> string" where
  "text_or_empty v = (case v of JStr s \<Rightarrow> s | _ \<Rightarrow> [])"

definition admin_status_error :: "string \<Rightarrow> api_reply \<Rightarrow> api_error" where
  "admin_status_error path r =
     (let msg = reply_message r; body = redact 0 (reply_body r) in
      if ap_status r = 401 then Api_Error Auth_Error msg (Some 401) body
      else if ap_status r = 403 then
        (if (j_is_object body \<or> j_array body \<noteq> None) \<and> j_field body ''code'' = JStr ''role_insufficient'' then
           let required = text_or_empty (j_field body ''required''); actual = text_or_empty (j_field body ''actual'') in
           Api_Error (Role_Insufficient required actual) (''requires '' @ required @ '' role, caller has '' @ actual) (Some 403) body
         else Api_Error Permission_Error msg (Some 403) body)
      else if ap_status r = 404 then Api_Error Not_Found_Error (''Not found: '' @ path) (Some 404) body
      else if ap_status r = 409 then Api_Error Conflict_Error msg (Some 409) body
      else Api_Error Agentum_Error msg (Some (ap_status r)) body)"

section \<open>The request loop\<close>

text \<open>The callback that refreshes the token, when there is one: a fresh token, an authentication error, or
  another failure. The loop calls it at most once.\<close>

datatype refresh_result = Fresh_Token string | Refresh_Unauthorized | Refresh_Failed

record api_env =
  ae_net :: "nat \<Rightarrow> jval + api_reply"
  ae_refresh :: "refresh_result option"
  ae_random :: "nat \<Rightarrow> rat"
  ae_clock :: "nat \<Rightarrow> int"
  ae_date :: "string \<Rightarrow> int option"
  ae_trace :: trace_context

datatype verdict =
  Vd_Throw api_error
| Vd_Return jval api_reply
| Vd_Retry api_error "rat option"
| Vd_Refreshed string

definition judge_rejection :: "api_client \<Rightarrow> api_call \<Rightarrow> int \<Rightarrow> jval \<Rightarrow> verdict" where
  "judge_rejection c call attempt err = (case j_prop err ''name'' of
     None \<Rightarrow> Vd_Throw Type_Error
   | Some name \<Rightarrow>
       if name = JStr ''AbortError'' then Vd_Throw (plain_error (''Request timed out after '' @ int_text (ac_timeoutMs c) @
         ''ms: '' @ cl_method call @ '' '' @ cl_path call))
       else case truthy_text (networkErrorCode err) of
         Some code \<Rightarrow> if code \<in> set RETRYABLE_NET_CODES \<and> attempt < ac_retries c
           then Vd_Retry (plain_error (''Network error ('' @ code @ ''): '' @ j_text (j_field err ''message''))) None
           else Vd_Throw (plain_error (''Network error: '' @ j_text (j_field err ''message'')))
       | None \<Rightarrow> Vd_Throw (plain_error (''Network error: '' @ j_text (j_field err ''message''))))"

definition final_error :: "client_kind \<Rightarrow> api_client \<Rightarrow> api_env \<Rightarrow> string option \<Rightarrow> api_call \<Rightarrow> api_reply \<Rightarrow> api_error" where
  "final_error kind c env token call r = (case kind of
     Runtime_Client \<Rightarrow> status_error (token \<noteq> None \<and> ae_refresh env = None \<and> ac_apiKey c = None) (cl_path call) r
   | Admin_Client \<Rightarrow> admin_status_error (cl_path call) r)"

definition judge_reply :: "client_kind \<Rightarrow> api_client \<Rightarrow> api_env \<Rightarrow> int \<Rightarrow> string option \<Rightarrow> api_call \<Rightarrow> int \<Rightarrow> bool \<Rightarrow>
    api_reply \<Rightarrow> verdict" where
  "judge_reply kind c env now token call attempt refreshedOnce r =
     (let final = Vd_Throw (final_error kind c env token call r) in
      if reply_ok r then Vd_Return (reply_body r) r
      else if ap_status r = 401 \<and> ae_refresh env \<noteq> None \<and> \<not> refreshedOnce \<and> attempt < ac_retries c then
        (case ae_refresh env of
           Some (Fresh_Token t) \<Rightarrow> Vd_Refreshed t
         | Some Refresh_Unauthorized \<Rightarrow>
             if kind = Runtime_Client
             then Vd_Throw (Api_Error Auth_Error (reply_message r @ revoked_hint) (Some 401) (redact 0 (reply_body r)))
             else final
         | _ \<Rightarrow> final)
      else if ap_status r \<in> set RETRYABLE_STATUSES \<and> attempt < ac_retries c then
        Vd_Retry (Api_Error Agentum_Error (reply_message r) (Some (ap_status r)) (redact 0 (reply_body r)))
          (retry_after (ae_date env) now r)
      else final)"

definition judge :: "client_kind \<Rightarrow> api_client \<Rightarrow> api_env \<Rightarrow> nat \<Rightarrow> string option \<Rightarrow> api_call \<Rightarrow> int \<Rightarrow> bool \<Rightarrow> verdict" where
  "judge kind c env n token call attempt refreshedOnce = (case ae_net env n of
     Inl err \<Rightarrow> judge_rejection c call attempt err
   | Inr r \<Rightarrow> judge_reply kind c env (ae_clock env n) token call attempt refreshedOnce r)"

definition backoffDelay :: "rat \<Rightarrow> int \<Rightarrow> rat \<Rightarrow> rat \<Rightarrow> rat" where
  "backoffDelay base attempt prevMs random =
     (let cap = base * 2 ^ nat (min attempt 10); hi = min cap (max (base * 3) (prevMs * 3))
      in base + random * (hi - base))"

datatype api_event =
  Ev_Sleep rat
| Ev_Send string string "(string, string) jsmap" "string option"
| Ev_Refresh string

record api_run =
  ar_events :: "api_event list"
  ar_result :: "api_error + jval \<times> api_reply"
  ar_token :: "string option"

definition before_run :: "api_event list \<Rightarrow> api_run \<Rightarrow> api_run" where
  "before_run evs run = run\<lparr>ar_events := evs @ ar_events run\<rparr>"

definition send_event :: "api_client \<Rightarrow> api_env \<Rightarrow> string option \<Rightarrow> api_call \<Rightarrow> api_event" where
  "send_event c env token call = Ev_Send (cl_method call) (request_url c call)
     (buildHeaders c token (cl_headers call) (ae_trace env)) (Option.bind (cl_body call) json_stringify)"

lemma judge_refreshed:
  "judge kind c env n token call attempt refreshedOnce = Vd_Refreshed t \<Longrightarrow>
     \<not> refreshedOnce \<and> ae_refresh env = Some (Fresh_Token t) \<and> attempt < ac_retries c \<and>
     (\<exists>r. ae_net env n = Inr r \<and> ap_status r = 401)"
  by (auto simp: judge_def judge_reply_def judge_rejection_def Let_def
      split: sum.splits option.splits refresh_result.splits if_splits)

lemma judge_retry:
  "judge kind c env n token call attempt refreshedOnce = Vd_Retry e wait \<Longrightarrow>
     attempt < ac_retries c \<and>
     (case ae_net env n of Inl err \<Rightarrow> (\<exists>code \<in> set RETRYABLE_NET_CODES. networkErrorCode err = Some code)
        | Inr r \<Rightarrow> ap_status r \<in> set RETRYABLE_STATUSES)"
  by (auto simp: judge_def judge_reply_def judge_rejection_def Let_def truthy_text_def
      split: sum.splits option.splits refresh_result.splits if_splits)

text \<open>\<open>attempt\<close> counts up to \<^verbatim>\<open>retries\<close>, \<open>n\<close> counts the calls of fetch. A refresh repeats the attempt, with the
  wait in front of it, and happens once.\<close>

function request_loop :: "client_kind \<Rightarrow> api_client \<Rightarrow> api_env \<Rightarrow> api_call \<Rightarrow> int \<Rightarrow> nat \<Rightarrow> rat \<Rightarrow> bool \<Rightarrow> string option \<Rightarrow>
    api_error \<Rightarrow> api_run" where
  "request_loop kind c env call attempt n lastDelay refreshedOnce token lastError =
     (if attempt > ac_retries c then \<lparr>ar_events = [], ar_result = Inl lastError, ar_token = token\<rparr>
      else
        let delay = (if attempt > 0 then backoffDelay (ac_retryDelayMs c) attempt lastDelay (ae_random env n) else lastDelay);
            sleeps = (if attempt > 0 then [Ev_Sleep delay] else []);
            sent = sleeps @ [send_event c env token call]
        in case judge kind c env n token call attempt refreshedOnce of
             Vd_Throw e \<Rightarrow> \<lparr>ar_events = sent, ar_result = Inl e, ar_token = token\<rparr>
           | Vd_Return body r \<Rightarrow> \<lparr>ar_events = sent, ar_result = Inr (body, r), ar_token = token\<rparr>
           | Vd_Refreshed t \<Rightarrow> before_run (sent @ [Ev_Refresh t])
               (request_loop kind c env call attempt (n + 1) delay True (Some t) lastError)
           | Vd_Retry e wait \<Rightarrow> before_run (sent @ (case wait of Some w \<Rightarrow> [Ev_Sleep w] | None \<Rightarrow> []))
               (request_loop kind c env call (attempt + 1) (n + 1) delay refreshedOnce token e))"
  by pat_completeness auto

termination request_loop
  by (relation "measures [\<lambda>(kind, c, env, call, attempt, n, lastDelay, refreshedOnce, token, lastError). nat (ac_retries c + 1 - attempt),
      \<lambda>(kind, c, env, call, attempt, n, lastDelay, refreshedOnce, token, lastError). if refreshedOnce then 0 else 1]")
    (auto dest: judge_refreshed)

declare request_loop.simps [simp del]

definition request_run :: "client_kind \<Rightarrow> api_client \<Rightarrow> api_env \<Rightarrow> api_call \<Rightarrow> api_run" where
  "request_run kind c env call = request_loop kind c env call 0 0 0 False (ac_token c) Undefined_Thrown"

definition is_send :: "api_event \<Rightarrow> bool" where
  "is_send e \<longleftrightarrow> (case e of Ev_Send _ _ _ _ \<Rightarrow> True | _ \<Rightarrow> False)"

definition sends :: "api_run \<Rightarrow> api_event list" where
  "sends run = filter is_send (ar_events run)"

lemma sends_simps [simp]:
  "sends \<lparr>ar_events = evs, ar_result = res, ar_token = tok\<rparr> = filter is_send evs"
  "sends (before_run evs run) = filter is_send evs @ sends run"
  "ar_result (before_run evs run) = ar_result run"
  "ar_token (before_run evs run) = ar_token run"
  "is_send (send_event c env token call)" "\<not> is_send (Ev_Sleep d)" "\<not> is_send (Ev_Refresh t)"
  by (simp_all add: sends_def before_run_def is_send_def send_event_def)

lemma no_attempt_left: "attempt > ac_retries c \<Longrightarrow> request_loop kind c env call attempt n d f token err =
    \<lparr>ar_events = [], ar_result = Inl err, ar_token = token\<rparr>"
  by (subst request_loop.simps) simp

text \<open>One turn of the loop: it sends once, and then ends or goes on.\<close>

lemma loop_turn:
  assumes "attempt \<le> ac_retries c"
  obtains (Throw) e sent where "judge kind c env n token call attempt f = Vd_Throw e"
      "request_loop kind c env call attempt n d f token err = \<lparr>ar_events = sent, ar_result = Inl e, ar_token = token\<rparr>"
      "filter is_send sent = [send_event c env token call]"
    | (Return) b r sent where "judge kind c env n token call attempt f = Vd_Return b r"
      "request_loop kind c env call attempt n d f token err = \<lparr>ar_events = sent, ar_result = Inr (b, r), ar_token = token\<rparr>"
      "filter is_send sent = [send_event c env token call]"
    | (Refreshed) t sent d' where "judge kind c env n token call attempt f = Vd_Refreshed t"
      "request_loop kind c env call attempt n d f token err =
        before_run sent (request_loop kind c env call attempt (n + 1) d' True (Some t) err)"
      "filter is_send sent = [send_event c env token call]"
    | (Retry) e w sent d' where "judge kind c env n token call attempt f = Vd_Retry e w"
      "request_loop kind c env call attempt n d f token err =
        before_run sent (request_loop kind c env call (attempt + 1) (n + 1) d' f token e)"
      "filter is_send sent = [send_event c env token call]"
proof -
  note unfold = request_loop.simps [of kind c env call attempt n d f token err]
  show ?thesis
  proof (cases "judge kind c env n token call attempt f")
    case (Vd_Throw e)
    then show ?thesis using assms by (intro Throw) (auto simp: unfold Let_def)
  next
    case (Vd_Return b r)
    then show ?thesis using assms by (intro Return) (auto simp: unfold Let_def)
  next
    case (Vd_Refreshed t)
    then show ?thesis using assms by (intro Refreshed [OF Vd_Refreshed]) (auto simp: unfold Let_def)
  next
    case (Vd_Retry e w)
    then show ?thesis using assms by (intro Retry [OF Vd_Retry]) (auto simp: unfold Let_def split: option.splits)
  qed
qed

lemma loop_induct [case_names Stop Throw Return Refreshed Retry]:
  assumes "\<And>attempt n f token err. attempt > ac_retries c \<Longrightarrow>
      P attempt n f token err \<lparr>ar_events = [], ar_result = Inl err, ar_token = token\<rparr>"
    and "\<And>attempt n f token err e sent. \<lbrakk>attempt \<le> ac_retries c; judge kind c env n token call attempt f = Vd_Throw e;
      filter is_send sent = [send_event c env token call]\<rbrakk> \<Longrightarrow>
      P attempt n f token err \<lparr>ar_events = sent, ar_result = Inl e, ar_token = token\<rparr>"
    and "\<And>attempt n f token err b r sent. \<lbrakk>attempt \<le> ac_retries c; judge kind c env n token call attempt f = Vd_Return b r;
      filter is_send sent = [send_event c env token call]\<rbrakk> \<Longrightarrow>
      P attempt n f token err \<lparr>ar_events = sent, ar_result = Inr (b, r), ar_token = token\<rparr>"
    and "\<And>attempt n f token err t sent run. \<lbrakk>attempt \<le> ac_retries c; judge kind c env n token call attempt f = Vd_Refreshed t;
      filter is_send sent = [send_event c env token call]; P attempt (n + 1) True (Some t) err run\<rbrakk> \<Longrightarrow>
      P attempt n f token err (before_run sent run)"
    and "\<And>attempt n f token err e w sent run. \<lbrakk>attempt \<le> ac_retries c; judge kind c env n token call attempt f = Vd_Retry e w;
      filter is_send sent = [send_event c env token call]; P (attempt + 1) (n + 1) f token e run\<rbrakk> \<Longrightarrow>
      P attempt n f token err (before_run sent run)"
  shows "P attempt n f token err (request_loop kind c env call attempt n d f token err)"
proof (induction "nat (ac_retries c + 1 - attempt) * 2 + (if f then 0 else 1)" arbitrary: attempt n d f token err
    rule: less_induct)
  case less
  show ?case
  proof (cases "attempt > ac_retries c")
    case True
    then show ?thesis using assms(1) by (simp add: no_attempt_left)
  next
    case False
    then have le: "attempt \<le> ac_retries c" by simp
    then show ?thesis
    proof (cases rule: loop_turn [where kind = kind and env = env and n = n and token = token and call = call and f = f
        and d = d and err = err])
      case (Throw e sent)
      then show ?thesis using assms(2) le by simp
    next
      case (Return b r sent)
      then show ?thesis using assms(3) le by simp
    next
      case (Refreshed t sent d')
      then have "\<not> f" using judge_refreshed by blast
      then have "P attempt (n + 1) True (Some t) err (request_loop kind c env call attempt (n + 1) d' True (Some t) err)"
        by (intro less) simp
      then show ?thesis using Refreshed assms(4) le by simp
    next
      case (Retry e w sent d')
      have "P (attempt + 1) (n + 1) f token e (request_loop kind c env call (attempt + 1) (n + 1) d' f token e)"
        using le by (intro less) auto
      then show ?thesis using Retry assms(5) le by simp
    qed
  qed
qed

section \<open>How many requests, and what they end in\<close>

text \<open>The outcomes a call goes on from: a transient failure of the network or of the server, or a 401 (which is
  followed by a refresh).\<close>

definition passing :: "jval + api_reply \<Rightarrow> bool" where
  "passing x = (case x of
     Inl err \<Rightarrow> (\<exists>code \<in> set RETRYABLE_NET_CODES. networkErrorCode err = Some code)
   | Inr r \<Rightarrow> ap_status r \<in> set RETRYABLE_STATUSES \<or> ap_status r = 401)"

lemma judged_return:
  "judge kind c env n token call attempt f = Vd_Return b r \<longleftrightarrow>
     ae_net env n = Inr r \<and> reply_ok r \<and> b = reply_body r"
  by (auto simp: judge_def judge_reply_def judge_rejection_def Let_def
      split: sum.splits option.splits refresh_result.splits if_splits)

lemma passing_goes_on:
  "judge kind c env n token call attempt f = Vd_Refreshed t \<Longrightarrow> passing (ae_net env n)"
  "judge kind c env n token call attempt f = Vd_Retry e w \<Longrightarrow> passing (ae_net env n)"
  by (auto dest!: judge_refreshed judge_retry simp: passing_def split: sum.splits)

lemma passing_not_ok: "passing (Inr r) \<Longrightarrow> \<not> reply_ok r"
  by (auto simp: passing_def reply_ok_def RETRYABLE_STATUSES_def)

definition refreshes_left :: "api_env \<Rightarrow> bool \<Rightarrow> nat" where
  "refreshes_left env refreshedOnce = (if ae_refresh env = None \<or> refreshedOnce then 0 else 1)"

lemma loop_bound:
  "int (length (sends (request_loop kind c env call attempt n d f token err))) \<le>
     (if attempt \<le> ac_retries c then ac_retries c + 1 - attempt + refreshes_left env f else 0)"
proof (rule loop_induct [where P = "\<lambda>attempt n f token err run. int (length (sends run)) \<le>
     (if attempt \<le> ac_retries c then ac_retries c + 1 - attempt + refreshes_left env f else 0)" and kind = kind and env = env and call = call])
  fix attempt n f token err t sent run
  assume "judge kind c env n token call attempt f = Vd_Refreshed t"
  then have "refreshes_left env f = 1" "refreshes_left env True = 0" by (auto simp: refreshes_left_def dest: judge_refreshed)
  moreover assume "attempt \<le> ac_retries c" "filter is_send sent = [send_event c env token call]"
    "int (length (sends run)) \<le> (if attempt \<le> ac_retries c then ac_retries c + 1 - attempt + refreshes_left env True else 0)"
  ultimately show "int (length (sends (before_run sent run))) \<le>
      (if attempt \<le> ac_retries c then ac_retries c + 1 - attempt + refreshes_left env f else 0)" by simp
qed (auto split: if_splits)

definition run_shape :: "api_client \<Rightarrow> api_env \<Rightarrow> int \<Rightarrow> nat \<Rightarrow> api_run \<Rightarrow> bool" where
  "run_shape c env attempt n run \<longleftrightarrow>
     (let k = length (sends run) in
      if attempt > ac_retries c then k = 0 \<and> isl (ar_result run)
      else 0 < k \<and> (\<forall>i<k - 1. passing (ae_net env (n + i))) \<and>
        (\<forall>b r. ar_result run = Inr (b, r) \<longleftrightarrow> ae_net env (n + (k - 1)) = Inr r \<and> reply_ok r \<and> b = reply_body r))"

lemma shape_step:
  assumes "passing (ae_net env n)" and "attempt \<le> ac_retries c" and "length (filter is_send sent) = 1"
    and "run_shape c env attempt' (n + 1) run"
  shows "run_shape c env attempt n (before_run sent run)"
proof (cases "attempt' > ac_retries c")
  case True
  then have "sends run = []" "isl (ar_result run)" using assms(4) by (auto simp: run_shape_def)
  then show ?thesis using assms passing_not_ok by (cases "ar_result run") (auto simp: run_shape_def)
next
  case False
  define k where "k = length (sends run)"
  have k: "0 < k" "\<And>i. i < k - 1 \<Longrightarrow> passing (ae_net env (n + 1 + i))"
    "\<And>b r. ar_result run = Inr (b, r) \<longleftrightarrow> ae_net env (n + 1 + (k - 1)) = Inr r \<and> reply_ok r \<and> b = reply_body r"
    using False assms(4) by (auto simp: run_shape_def k_def Let_def)
  have "passing (ae_net env (n + i))" if "i < k" for i
    using that assms(1) k(2) [of "i - 1"] by (cases i) auto
  moreover have "n + 1 + (k - 1) = n + k" using k(1) by simp
  ultimately show ?thesis using k assms by (simp add: run_shape_def k_def [symmetric])
qed

lemma loop_shape: "run_shape c env attempt n (request_loop kind c env call attempt n d f token err)"
proof (rule loop_induct [where P = "\<lambda>attempt n f token err run. run_shape c env attempt n run" and kind = kind and env = env and call = call])
  fix attempt n f token err t sent run
  assume "judge kind c env n token call attempt f = Vd_Refreshed t" "attempt \<le> ac_retries c"
    "filter is_send sent = [send_event c env token call]" "run_shape c env attempt (n + 1) run"
  then show "run_shape c env attempt n (before_run sent run)" by (intro shape_step) (auto intro: passing_goes_on)
next
  fix attempt n f token err e w sent run
  assume "judge kind c env n token call attempt f = Vd_Retry e w" "attempt \<le> ac_retries c"
    "filter is_send sent = [send_event c env token call]" "run_shape c env (attempt + 1) (n + 1) run"
  then show "run_shape c env attempt n (before_run sent run)" by (intro shape_step) (auto intro: passing_goes_on)
next
  fix attempt n f token err e sent
  assume "judge kind c env n token call attempt f = Vd_Throw e" "attempt \<le> ac_retries c"
    "filter is_send sent = [send_event c env token call]"
  then show "run_shape c env attempt n \<lparr>ar_events = sent, ar_result = Inl e, ar_token = token\<rparr>"
    using judged_return [of kind c env n token call attempt f] by (auto simp: run_shape_def)
next
  fix attempt n f token err b r sent
  assume "judge kind c env n token call attempt f = Vd_Return b r" "attempt \<le> ac_retries c"
    "filter is_send sent = [send_event c env token call]"
  then show "run_shape c env attempt n \<lparr>ar_events = sent, ar_result = Inr (b, r), ar_token = token\<rparr>"
    using judged_return [of kind c env n token call attempt f] by (auto simp: run_shape_def)
qed (auto simp: run_shape_def)

section \<open>Waits and errors\<close>

lemma backoff_bounds:
  assumes "0 \<le> base" and "0 \<le> rnd" and "rnd < 1" and "0 < attempt"
  shows "base \<le> backoffDelay base attempt prev rnd \<and> backoffDelay base attempt prev rnd \<le> base * 2 ^ nat (min attempt 10)"
proof -
  define cap where "cap = base * 2 ^ nat (min attempt 10)"
  define hi where "hi = min cap (max (base * 3) (prev * 3))"
  have "(2 :: rat) ^ 1 \<le> 2 ^ nat (min attempt 10)" using assms(4) by (intro power_increasing) auto
  then have "base * 2 \<le> cap" unfolding cap_def using assms(1) by (intro mult_left_mono) auto
  then have lo: "base \<le> hi" using assms(1) by (auto simp: hi_def)
  then have "0 \<le> rnd * (hi - base)" using assms(2) by simp
  moreover have "rnd * (hi - base) \<le> 1 * (hi - base)" using assms(3) lo by (intro mult_right_mono) auto
  moreover have "hi \<le> cap" by (simp add: hi_def)
  ultimately show ?thesis by (simp add: backoffDelay_def Let_def cap_def [symmetric] hi_def [symmetric])
qed

text \<open>What was slept before each request.\<close>

fun pauses :: "rat list \<Rightarrow> api_event list \<Rightarrow> rat list list" where
  "pauses slept [] = []"
| "pauses slept (Ev_Sleep d # es) = pauses (slept @ [d]) es"
| "pauses slept (Ev_Send m u h b # es) = slept # pauses [] es"
| "pauses slept (Ev_Refresh t # es) = pauses slept es"

lemma pauses_send [simp]: "pauses slept (send_event c env token call # es) = slept # pauses [] es"
  by (simp add: send_event_def)

lemma pauses_length: "length (pauses slept es) = length (filter is_send es)"
  by (induction slept es rule: pauses.induct) (simp_all add: is_send_def)

text \<open>What a transient reply asked for in its \<^verbatim>\<open>Retry-After\<close>, and the wait in front of a further attempt: at least the
  configured delay, at most that times \<open>2 ^ attempt\<close>.\<close>

definition asked_pause :: "api_env \<Rightarrow> nat \<Rightarrow> rat list" where
  "asked_pause env n = (case ae_net env n of
     Inr r \<Rightarrow> if ap_status r \<in> set RETRYABLE_STATUSES
       then (case retry_after (ae_date env) (ae_clock env n) r of Some w \<Rightarrow> [w] | None \<Rightarrow> []) else []
   | Inl err \<Rightarrow> [])"

definition backs_off :: "api_client \<Rightarrow> nat \<Rightarrow> rat list \<Rightarrow> bool" where
  "backs_off c n ws \<longleftrightarrow> (\<exists>d. ws = [d] \<and> ac_retryDelayMs c \<le> d \<and> d \<le> ac_retryDelayMs c * 2 ^ min n 10)"

definition refreshed_after :: "api_env \<Rightarrow> nat \<Rightarrow> bool" where
  "refreshed_after env n \<longleftrightarrow> (\<exists>r. ae_net env n = Inr r \<and> ap_status r = 401) \<and> (\<exists>t. ae_refresh env = Some (Fresh_Token t))"

definition paused :: "api_client \<Rightarrow> api_env \<Rightarrow> nat \<Rightarrow> rat list \<Rightarrow> bool" where
  "paused c env n ws \<longleftrightarrow> (case n of
     0 \<Rightarrow> ws = []
   | Suc m \<Rightarrow> \<exists>back. ws = asked_pause env m @ back \<and> (backs_off c n back \<or> m = 0 \<and> refreshed_after env m \<and> back = []))"

text \<open>The error a reply or a rejection ends in.\<close>

definition class_for :: "api_reply \<Rightarrow> error_class \<Rightarrow> bool" where
  "class_for r cls \<longleftrightarrow>
     (if ap_status r = 401 then cls = Auth_Error
      else if ap_status r = 403 then cls = Permission_Error \<or> (\<exists>a b. cls = Role_Insufficient a b)
      else if ap_status r = 404 then cls = Not_Found_Error
      else if ap_status r = 409 then cls = Conflict_Error
      else cls = Agentum_Error)"

definition error_of :: "jval + api_reply \<Rightarrow> api_error \<Rightarrow> bool" where
  "error_of x e \<longleftrightarrow> (case x of
     Inl err \<Rightarrow> if j_prop err ''name'' = None then e = Type_Error else (\<exists>msg. e = plain_error msg)
   | Inr r \<Rightarrow> \<not> reply_ok r \<and> (\<exists>cls msg. e = Api_Error cls msg (Some (ap_status r)) (redact 0 (reply_body r)) \<and> class_for r cls))"

lemma final_error_of: "\<not> reply_ok r \<Longrightarrow> error_of (Inr r) (final_error kind c env token call r)"
  by (cases kind) (auto simp: error_of_def final_error_def status_error_def admin_status_error_def class_for_def Let_def)

lemma reply_thrown:
  assumes "judge_reply kind c env now token call attempt f r = Vd_Throw e"
  shows "error_of (Inr r) e"
proof -
  have "\<not> reply_ok r" using assms by (auto simp: judge_reply_def Let_def)
  moreover have "e = final_error kind c env token call r \<or>
      ap_status r = 401 \<and> (\<exists>msg. e = Api_Error Auth_Error msg (Some 401) (redact 0 (reply_body r)))"
    using assms by (auto simp: judge_reply_def Let_def split: option.splits refresh_result.splits if_splits)
  ultimately show ?thesis
  proof (elim disjE)
    assume "\<not> reply_ok r" "e = final_error kind c env token call r"
    then show ?thesis using final_error_of by simp
  qed (auto simp: error_of_def class_for_def)
qed

lemma judged_throw: "judge kind c env n token call attempt f = Vd_Throw e \<Longrightarrow> error_of (ae_net env n) e"
  using reply_thrown by (auto simp: judge_def judge_rejection_def error_of_def Let_def split: sum.splits option.splits if_splits)

lemma judged_pause:
  "judge kind c env n token call attempt f = Vd_Retry e w \<Longrightarrow> (case w of Some d \<Rightarrow> [d] | None \<Rightarrow> []) = asked_pause env n"
  "judge kind c env n token call attempt f = Vd_Refreshed t \<Longrightarrow> asked_pause env n = [] \<and> refreshed_after env n"
  by (auto simp: judge_def judge_reply_def judge_rejection_def Let_def asked_pause_def refreshed_after_def RETRYABLE_STATUSES_def
      split: sum.splits option.splits refresh_result.splits if_splits)

text \<open>The error of the last reply.\<close>

lemma loop_error:
  "attempt \<le> ac_retries c \<longrightarrow> 0 < length (sends (request_loop kind c env call attempt n d f token err)) \<and>
    (\<forall>e. ar_result (request_loop kind c env call attempt n d f token err) = Inl e \<longrightarrow>
      error_of (ae_net env (n + (length (sends (request_loop kind c env call attempt n d f token err)) - 1))) e)"
proof (rule loop_induct [where P = "\<lambda>attempt n f token err run. attempt \<le> ac_retries c \<longrightarrow> 0 < length (sends run) \<and>
    (\<forall>e. ar_result run = Inl e \<longrightarrow> error_of (ae_net env (n + (length (sends run) - 1))) e)" and kind = kind and env = env and call = call])
  fix attempt n f token err e w sent run
  assume "judge kind c env n token call attempt f = Vd_Retry e w" and "filter is_send sent = [send_event c env token call]"
    and run: "attempt + 1 \<le> ac_retries c \<longrightarrow> 0 < length (sends run) \<and>
      (\<forall>e. ar_result run = Inl e \<longrightarrow> error_of (ae_net env (n + 1 + (length (sends run) - 1))) e)"
  moreover from this(1) have "attempt + 1 \<le> ac_retries c" by (auto dest: judge_retry)
  ultimately show "attempt \<le> ac_retries c \<longrightarrow> 0 < length (sends (before_run sent run)) \<and>
      (\<forall>e. ar_result (before_run sent run) = Inl e \<longrightarrow> error_of (ae_net env (n + (length (sends (before_run sent run)) - 1))) e)"
    by (cases "length (sends run)") auto
next
  fix attempt n f token err t sent run
  assume "filter is_send sent = [send_event c env token call]"
    and "attempt \<le> ac_retries c \<longrightarrow> 0 < length (sends run) \<and>
      (\<forall>e. ar_result run = Inl e \<longrightarrow> error_of (ae_net env (n + 1 + (length (sends run) - 1))) e)"
  then show "attempt \<le> ac_retries c \<longrightarrow> 0 < length (sends (before_run sent run)) \<and>
      (\<forall>e. ar_result (before_run sent run) = Inl e \<longrightarrow> error_of (ae_net env (n + (length (sends (before_run sent run)) - 1))) e)"
    by (cases "length (sends run)") auto
qed (auto dest: judged_throw)

text \<open>The pauses between the requests.\<close>

lemma pauses_slept [simp]: "pauses slept (map Ev_Sleep ds @ es) = pauses (slept @ ds) es"
  by (induction ds arbitrary: slept) simp_all

definition due_pause :: "api_env \<Rightarrow> nat \<Rightarrow> rat list" where
  "due_pause env n = (case n of 0 \<Rightarrow> [] | Suc m \<Rightarrow> asked_pause env m)"

lemma backed_off:
  assumes "0 \<le> ac_retryDelayMs c" and "0 \<le> rnd" and "rnd < 1" and "0 < attempt" and "attempt \<le> int n"
  shows "backs_off c n [backoffDelay (ac_retryDelayMs c) attempt prev rnd]"
proof -
  have "(2 :: rat) ^ nat (min attempt 10) \<le> 2 ^ min n 10" using assms(4,5) by (intro power_increasing) auto
  then have "ac_retryDelayMs c * 2 ^ nat (min attempt 10) \<le> ac_retryDelayMs c * 2 ^ min n 10"
    using assms(1) by (rule mult_left_mono)
  then show ?thesis using backoff_bounds [OF assms(1-4), of prev] by (auto simp: backs_off_def)
qed

definition pace :: "api_client \<Rightarrow> api_env \<Rightarrow> nat \<Rightarrow> rat list list \<Rightarrow> bool" where
  "pace c env n ps \<longleftrightarrow> (\<forall>i < length ps. paused c env (n + i) (ps ! i))"

lemma pace_Cons: "pace c env n (p # ps) \<longleftrightarrow> paused c env n p \<and> pace c env (Suc n) ps"
  by (simp add: pace_def All_less_Suc2)

lemma loop_pace:
  assumes "0 \<le> ac_retryDelayMs c" and "\<forall>n. 0 \<le> ae_random env n \<and> ae_random env n < 1"
  shows "0 \<le> attempt \<Longrightarrow> attempt \<le> int n \<Longrightarrow> attempt = 0 \<longrightarrow> n = 0 \<or> n = 1 \<and> f \<and> refreshed_after env 0 \<Longrightarrow>
    pace c env n (pauses (due_pause env n) (ar_events (request_loop kind c env call attempt n d f token err)))"
proof (induction "nat (ac_retries c + 1 - attempt) * 2 + (if f then 0 else 1)" arbitrary: attempt n d f token err
    rule: less_induct)
  case less
  note turn = request_loop.simps [of kind c env call attempt n d f token err]
  show ?case
  proof (cases "attempt > ac_retries c")
    case True
    then show ?thesis by (simp add: no_attempt_left pace_def)
  next
    case False
    define delay where "delay = (if attempt > 0 then backoffDelay (ac_retryDelayMs c) attempt d (ae_random env n) else d)"
    define wait where "wait = (if attempt > 0 then [delay] else [])"
    have sleeps: "(if attempt > 0 then [Ev_Sleep delay] else []) = map Ev_Sleep wait" by (simp add: wait_def)
    have here: "paused c env n (due_pause env n @ wait)"
    proof (cases "attempt > 0")
      case True
      then have "backs_off c n wait" using assms less.prems by (simp add: wait_def delay_def backed_off)
      then show ?thesis using True less.prems by (cases n) (auto simp: paused_def due_pause_def)
    next
      case False
      then show ?thesis using less.prems by (auto simp: paused_def due_pause_def wait_def)
    qed
    show ?thesis
    proof (cases "judge kind c env n token call attempt f")
      case (Vd_Throw e)
      then show ?thesis using False here
        by (simp add: turn Let_def delay_def [symmetric] sleeps pace_Cons) (simp add: pace_def)
    next
      case (Vd_Return b r)
      then show ?thesis using False here
        by (simp add: turn Let_def delay_def [symmetric] sleeps pace_Cons) (simp add: pace_def)
    next
      case (Vd_Refreshed t)
      let ?next = "ar_events (request_loop kind c env call attempt (n + 1) delay True (Some t) err)"
      have f: "\<not> f" "due_pause env (n + 1) = []" "refreshed_after env n"
        using judge_refreshed [OF Vd_Refreshed] judged_pause(2) [OF Vd_Refreshed] by (simp_all add: due_pause_def)
      have "pace c env (n + 1) (pauses (due_pause env (n + 1)) ?next)"
        using less.prems f False by (intro less.hyps) auto
      then show ?thesis unfolding turn using False here Vd_Refreshed f
        by (simp add: Let_def delay_def [symmetric] sleeps before_run_def pace_Cons)
    next
      case (Vd_Retry e w)
      let ?next = "ar_events (request_loop kind c env call (attempt + 1) (n + 1) delay f token e)"
      have w: "(case w of Some d \<Rightarrow> [Ev_Sleep d] | None \<Rightarrow> []) = map Ev_Sleep (due_pause env (n + 1))"
        unfolding due_pause_def by (cases w) (simp_all add: judged_pause(1) [OF Vd_Retry, symmetric])
      have "pace c env (n + 1) (pauses (due_pause env (n + 1)) ?next)"
        using less.prems False by (intro less.hyps) auto
      then show ?thesis using False here Vd_Retry w
        by (simp add: turn Let_def delay_def [symmetric] sleeps before_run_def pace_Cons)
    qed
  qed
qed

text \<open>C35: a call of a client with no negative number of retries sends at least one request and at most one per attempt
  plus one after a refresh; it goes past a reply only where that was a transient failure or a 401. Before the first
  request it does not wait; before each later one it waits as long as a \<^verbatim>\<open>Retry-After\<close> of the reply before asked for, and then once
  between the configured delay and that delay times two to the number of the request (ten at most), or, after
  a refresh in the first attempt, not at all. It returns a body exactly when the last reply was a success, and then
  that reply's body; otherwise it throws an error with the last reply's status and redacted body, of the status's class, or, after a
  rejection, a plain error (the language's own for \<^verbatim>\<open>null\<close> and \<^verbatim>\<open>undefined\<close>).\<close>

theorem request_outcome:
  assumes "0 \<le> ac_retries c" and "0 \<le> ac_retryDelayMs c" and "\<forall>n. 0 \<le> ae_random env n \<and> ae_random env n < 1"
  shows "let run = request_run kind c env call; k = length (sends run) in
    0 < k \<and> int k \<le> ac_retries c + 1 + (if ae_refresh env = None then 0 else 1) \<and>
    (\<forall>i<k - 1. passing (ae_net env i)) \<and>
    length (pauses [] (ar_events run)) = k \<and> (\<forall>i<k. paused c env i (pauses [] (ar_events run) ! i)) \<and>
    (\<forall>b r. ar_result run = Inr (b, r) \<longleftrightarrow> ae_net env (k - 1) = Inr r \<and> reply_ok r \<and> b = reply_body r) \<and>
    (\<forall>e. ar_result run = Inl e \<longrightarrow> error_of (ae_net env (k - 1)) e)"
proof -
  define run where "run = request_run kind c env call"
  have run: "request_loop kind c env call 0 0 0 False (ac_token c) Undefined_Thrown = run"
    by (simp add: run_def request_run_def)
  have k: "length (pauses [] (ar_events run)) = length (sends run)" by (simp add: pauses_length sends_def)
  have "pace c env 0 (pauses [] (ar_events run))"
    using loop_pace [OF assms(2,3), of 0 0 False kind call 0 "ac_token c" Undefined_Thrown] by (simp add: run due_pause_def)
  then have "\<forall>i < length (sends run). paused c env i (pauses [] (ar_events run) ! i)" by (simp add: pace_def k)
  moreover have "run_shape c env 0 0 run" "int (length (sends run)) \<le> ac_retries c + 1 + (if ae_refresh env = None then 0 else 1)"
    using assms(1) loop_shape [of c env 0 0 kind call 0 False "ac_token c" Undefined_Thrown]
      loop_bound [of kind c env call 0 0 0 False "ac_token c" Undefined_Thrown] by (auto simp: run refreshes_left_def)
  moreover have "\<forall>e. ar_result run = Inl e \<longrightarrow> error_of (ae_net env (length (sends run) - 1)) e"
    using assms(1) loop_error [of 0 c kind env call 0 0 False "ac_token c" Undefined_Thrown] by (simp add: run)
  ultimately show ?thesis using assms(1) k by (auto simp: run_def [symmetric] run_shape_def Let_def)
qed

definition sample_api_client :: api_client where
  "sample_api_client = \<lparr>ac_baseUrl = ''http://c'', ac_timeoutMs = 15000, ac_retries = 1, ac_retryDelayMs = 250,
     ac_defaultHeaders = [], ac_apiKey = None, ac_token = Some ''old''\<rparr>"

definition sample_api_env :: "(nat \<Rightarrow> jval + api_reply) \<Rightarrow> api_env" where
  "sample_api_env net = \<lparr>ae_net = net, ae_refresh = Some (Fresh_Token ''new''), ae_random = (\<lambda>n. 0), ae_clock = (\<lambda>n. 0),
     ae_date = (\<lambda>s. None), ae_trace = \<lparr>tr_traceId = ''a'', tr_spanId = ''b'', tr_flags = ''01''\<rparr>\<rparr>"

definition sample_api_reply :: "int \<Rightarrow> string \<Rightarrow> api_reply" where
  "sample_api_reply status body = \<lparr>ap_status = status, ap_headers = [(''content-type'', ''application/json'')], ap_text = Some body\<rparr>"

definition sample_api_call :: api_call where
  "sample_api_call = \<lparr>cl_method = ''POST'', cl_path = ''/agents/a/kill'', cl_body = None, cl_query = [], cl_headers = None,
     cl_absoluteUrl = False\<rparr>"

definition sample_api_net :: "nat \<Rightarrow> jval + api_reply" where
  "sample_api_net n = Inr (sample_api_reply (if n = 0 then 401 else if n = 1 then 503 else 200) ''1'')"

lemma sample_api_run:
  "length (sends (request_run Runtime_Client sample_api_client (sample_api_env sample_api_net) sample_api_call)) = 3 \<and>
   (case ar_result (request_run Runtime_Client sample_api_client (sample_api_env sample_api_net) sample_api_call) of
      Inr (b, r) \<Rightarrow> b = JNum ''1'' | Inl e \<Rightarrow> False)"
  by code_simp

theorem request_outcome_witness:
  "let run = request_run Runtime_Client sample_api_client (sample_api_env sample_api_net) sample_api_call in
     length (sends run) = 3 \<and> passing (sample_api_net 0) \<and> passing (sample_api_net 1) \<and> \<not> isl (ar_result run) \<and>
     pauses [] (ar_events run) ! 0 = [] \<and> pauses [] (ar_events run) ! 1 = [] \<and> backs_off sample_api_client 2 (pauses [] (ar_events run) ! 2)"
proof -
  let ?run = "request_run Runtime_Client sample_api_client (sample_api_env sample_api_net) sample_api_call"
  have h: "0 \<le> ac_retries sample_api_client" "0 \<le> ac_retryDelayMs sample_api_client"
      "\<forall>n. 0 \<le> ae_random (sample_api_env sample_api_net) n \<and> ae_random (sample_api_env sample_api_net) n < 1"
    by (simp_all add: sample_api_client_def sample_api_env_def)
  from request_outcome [OF h, of Runtime_Client sample_api_call]
  have "\<forall>i<length (sends ?run) - 1. passing (ae_net (sample_api_env sample_api_net) i)"
    and p: "\<forall>i<length (sends ?run). paused sample_api_client (sample_api_env sample_api_net) i (pauses [] (ar_events ?run) ! i)"
    by (simp_all add: Let_def)
  then have pass: "\<forall>i<2. passing (sample_api_net i)" using sample_api_run by (simp add: sample_api_env_def)
  have three: "length (sends ?run) = 3" using sample_api_run by simp
  have "pauses [] (ar_events ?run) ! 0 = []" using p [rule_format, of 0] three by (simp add: paused_def)
  moreover have "pauses [] (ar_events ?run) ! 1 = []" by code_simp
  moreover have "paused sample_api_client (sample_api_env sample_api_net) (Suc 1) (pauses [] (ar_events ?run) ! Suc 1)"
    using p three by simp
  then have "backs_off sample_api_client 2 (pauses [] (ar_events ?run) ! 2)"
    by (auto simp: paused_def asked_pause_def sample_api_env_def sample_api_net_def sample_api_reply_def retry_after_def
        truthy_text_def numeral_2_eq_2)
  ultimately show ?thesis using pass three sample_api_run by (auto simp: Let_def split: sum.splits)
qed

section \<open>Tokens\<close>

text \<open>Every request of a call carries the client's token, or, once it has been refreshed, the fresh one, which the
  client then keeps.\<close>

definition carries :: "api_client \<Rightarrow> api_env \<Rightarrow> api_call \<Rightarrow> bool \<Rightarrow> string option \<Rightarrow> api_run \<Rightarrow> bool" where
  "carries c env call f token run \<longleftrightarrow>
     (\<exists>k. sends run = replicate k (send_event c env token call) \<and> ar_token run = token) \<or>
     (\<exists>k m t. sends run = replicate k (send_event c env token call) @ replicate m (send_event c env (Some t) call) \<and>
        ar_token run = Some t \<and> \<not> f \<and> ae_refresh env = Some (Fresh_Token t))"

lemma carries_stop: "filter is_send sent = replicate k (send_event c env token call) \<Longrightarrow>
    carries c env call f token \<lparr>ar_events = sent, ar_result = res, ar_token = token\<rparr>"
  by (auto simp: carries_def)

lemma carries_more:
  assumes "filter is_send sent = [send_event c env token call]" and "carries c env call f token run"
  shows "carries c env call f token (before_run sent run)"
  using assms(2) unfolding carries_def [of c env call f token run]
proof (elim disjE exE conjE)
  fix k
  assume "sends run = replicate k (send_event c env token call)" "ar_token run = token"
  then show ?thesis using assms(1) unfolding carries_def by (intro disjI1 exI [of _ "Suc k"]) simp
next
  fix k m t
  assume "sends run = replicate k (send_event c env token call) @ replicate m (send_event c env (Some t) call)"
    "ar_token run = Some t" "\<not> f" "ae_refresh env = Some (Fresh_Token t)"
  then show ?thesis using assms(1) unfolding carries_def
    by (intro disjI2 exI [of _ "Suc k"] exI [of _ m] exI [of _ t]) simp
qed

lemma loop_carries: "carries c env call f token (request_loop kind c env call attempt n d f token err)"
proof (rule loop_induct [where P = "\<lambda>attempt n f token err run. carries c env call f token run" and kind = kind and env = env and call = call])
  fix attempt n f token err t sent run
  assume "judge kind c env n token call attempt f = Vd_Refreshed t"
  then have f: "\<not> f" "ae_refresh env = Some (Fresh_Token t)" by (auto dest: judge_refreshed)
  assume sent: "filter is_send sent = [send_event c env token call]" and "carries c env call True (Some t) run"
  then obtain k where "sends run = replicate k (send_event c env (Some t) call)" "ar_token run = Some t"
    by (auto simp: carries_def)
  then show "carries c env call f token (before_run sent run)"
    using f sent unfolding carries_def
    by (intro disjI2 exI [of _ 1] exI [of _ k] exI [of _ t]) simp
next
  fix attempt n f token err
  show "carries c env call f token \<lparr>ar_events = [], ar_result = Inl err, ar_token = token\<rparr>"
    by (rule carries_stop [where k = 0]) simp
next
  fix attempt n f token err e sent
  assume "filter is_send sent = [send_event c env token call]"
  then show "carries c env call f token \<lparr>ar_events = sent, ar_result = Inl e, ar_token = token\<rparr>"
    by (intro carries_stop [where k = 1]) simp
next
  fix attempt n f token err b r sent
  assume "filter is_send sent = [send_event c env token call]"
  then show "carries c env call f token \<lparr>ar_events = sent, ar_result = Inr (b, r), ar_token = token\<rparr>"
    by (intro carries_stop [where k = 1]) simp
qed (rule carries_more)

section \<open>What the error bodies still show\<close>

text \<open>Down to the fifth level no field of an error body with a secret's name keeps its value; below that, every
  field does.\<close>

fun hides :: "nat \<Rightarrow> jval \<Rightarrow> bool" where
  "hides n (JArr vs) = (case n of 0 \<Rightarrow> True | Suc m \<Rightarrow> list_all (hides m) vs)"
| "hides n (JObj kvs) = (case n of 0 \<Rightarrow> True | Suc m \<Rightarrow>
     list_all (\<lambda>(k, v). if secret_key k then v = JStr ''[REDACTED]'' else hides m v) kvs)"
| "hides n v = True"

lemma redact_hides: "hides (5 - depth) (redact depth v)"
proof (induction depth v rule: redact.induct)
  case (1 depth vs)
  have "depth \<le> 4 \<Longrightarrow> 5 - depth = Suc (4 - depth)" by simp
  then show ?case using 1 by (cases "depth > 4") (auto simp: list_all_iff)
next
  case (2 depth kvs)
  have "depth \<le> 4 \<Longrightarrow> 5 - depth = Suc (4 - depth)" by simp
  then show ?case using 2 by (cases "depth > 4") (auto simp: list_all_iff)
qed auto

lemma redact_idem: "redact depth (redact depth v) = redact depth v"
  by (induction depth v rule: redact.induct) auto

lemma deep_secret_leaks:
  "redact 0 (JArr [JArr [JArr [JArr [JArr [JObj [(''token'', JStr ''t'')]]]]]]) =
     JArr [JArr [JArr [JArr [JArr [JObj [(''token'', JStr ''t'')]]]]]]"
  by simp

text \<open>A negative number of retries sends nothing, and throws nothing that says so.\<close>

lemma negative_retries: "ac_retries c < 0 \<Longrightarrow> sends (request_run kind c env call) = [] \<and>
    ar_result (request_run kind c env call) = Inl Undefined_Thrown"
  by (simp add: request_run_def no_attempt_left)

text \<open>A request that changes something is sent again after a gateway error, although the first may have been carried
  out.\<close>

lemma kill_is_sent_twice:
  "let run = request_run Runtime_Client sample_api_client
      (sample_api_env (\<lambda>n. Inr (sample_api_reply (if n = 0 then 504 else 200) ''{}''))) sample_api_call in
   length (sends run) = 2 \<and> cl_method sample_api_call = ''POST'' \<and> \<not> isl (ar_result run)"
  by code_simp

end
