(* ===== verification/Audit_Buffer.thy ===== *)
theory Audit_Buffer
  imports Api_Request Pii_Pipeline
begin

text \<open>
  The audit side of \<^verbatim>\<open>client.ts\<close>: events are stamped with the trace they belong to and buffered; a timer, a flush
  and \<^verbatim>\<open>close\<close> drain the buffer in batches, each of which goes through the PII pipeline and is posted at once; failed
  posts back off. A drain is cut at its two awaits (the pipeline, the post), so any other call may come in
  between; \<open>ab_drain\<close> holds the drain under way, and \<^verbatim>\<open>auditFlushing\<close> is its being there.
\<close>

section \<open>Events\<close>

text \<open>\<open>ai_details\<close> is the deprecated field, \<open>ai_rest\<close> holds the fields that are only passed on.\<close>

record audit_event =
  ai_event_type :: string
  ai_tool :: "string option"
  ai_detail :: "jval option"
  ai_details :: "jval option"
  ai_trace_id :: "string option"
  ai_span_id :: "string option"
  ai_pii_key_id :: "string option"
  ai_rest :: "(string \<times> jval) list"

definition remap_details :: "audit_event \<Rightarrow> audit_event" where
  "remap_details req = (if ai_details req \<noteq> None \<and> ai_detail req = None
     then req\<lparr>ai_detail := ai_details req, ai_details := None\<rparr> else req)"

definition stamp_trace :: "trace_context \<Rightarrow> audit_event \<Rightarrow> audit_event" where
  "stamp_trace ctx req = (if ai_trace_id req = None
     then req\<lparr>ai_trace_id := Some (tr_traceId ctx), ai_span_id := Some (tr_spanId ctx)\<rparr> else req)"

definition freshnessHeaders :: "string \<Rightarrow> int \<Rightarrow> (string, string) jsmap" where
  "freshnessHeaders uuid now = [(''x-agentum-nonce'', uuid), (''x-agentum-timestamp'', int_text now)]"

text \<open>\<^const>\<open>None\<close> is a dropped event; an error other than the self-check's is thrown on.\<close>

definition applyPiiPipelineOrDrop :: "pii_state \<Rightarrow> nat \<Rightarrow> audit_event \<Rightarrow> (pii_error + audit_event option) \<times> nat" where
  "applyPiiPipelineOrDrop s draws req = (case ai_detail req of
     None \<Rightarrow> (Inr (Some req), draws)
   | Some detail \<Rightarrow>
       (case runPiiPipeline s draws detail (case ai_tool req of Some t \<Rightarrow> t | None \<Rightarrow> ''*'') of
          (Inr (scrubbed, key), d) \<Rightarrow>
            (Inr (Some (let out = req\<lparr>ai_detail := Some scrubbed\<rparr> in
               case key of Some k \<Rightarrow> out\<lparr>ai_pii_key_id := Some k\<rparr> | None \<Rightarrow> out)), d)
        | (Inl (Self_Check_Failed i m), d) \<Rightarrow> (Inr None, d)
        | (Inl e, d) \<Rightarrow> (Inl e, d)))"

fun scrub_batch :: "pii_state \<Rightarrow> nat \<Rightarrow> audit_event list \<Rightarrow> (pii_error + audit_event list) \<times> nat" where
  "scrub_batch s draws [] = (Inr [], draws)"
| "scrub_batch s draws (ev # evs) = (case applyPiiPipelineOrDrop s draws ev of
     (Inl e, d) \<Rightarrow> (Inl e, d)
   | (Inr kept, d) \<Rightarrow> (case scrub_batch s d evs of
       (Inl e, d') \<Rightarrow> (Inl e, d')
     | (Inr rest, d') \<Rightarrow> (Inr (case kept of Some ev' \<Rightarrow> ev' # rest | None \<Rightarrow> rest), d')))"

text \<open>An event with the buffer disabled: what is posted, when something is.\<close>

definition ingest_unbuffered :: "pii_state \<Rightarrow> nat \<Rightarrow> trace_context \<Rightarrow> audit_event \<Rightarrow> (pii_error + audit_event option) \<times> nat" where
  "ingest_unbuffered s draws ctx req =
     (let req = stamp_trace ctx (remap_details req) in
      if ai_detail req \<noteq> None \<and> \<not> isPiiPipelineNoOp s then applyPiiPipelineOrDrop s draws req
      else (Inr (Some req), draws))"

section \<open>The buffer\<close>

record audit_config =
  au_size :: nat
  au_intervalMs :: int
  au_batch :: nat
  au_maxBackoffMs :: int

definition audit_settings :: "int option \<Rightarrow> int option \<Rightarrow> int option \<Rightarrow> int option \<Rightarrow> audit_config" where
  "audit_settings bufferSize interval batch maxBackoff =
     (let i = max 50 (case interval of Some n \<Rightarrow> n | None \<Rightarrow> 2000) in
      \<lparr>au_size = nat (max 1 (case bufferSize of Some n \<Rightarrow> n | None \<Rightarrow> 1000)), au_intervalMs = i,
       au_batch = nat (max 1 (case batch of Some n \<Rightarrow> n | None \<Rightarrow> 100)),
       au_maxBackoffMs = max i (case maxBackoff of Some n \<Rightarrow> n | None \<Rightarrow> 60000)\<rparr>)"

text \<open>Reports to \<^verbatim>\<open>onAuditError\<close>: the number dropped and the number still buffered where the call has them.\<close>

datatype audit_report =
  Overflow int int
| Ingest_Failed int "int option" int api_error
| Dropped_On_Close int

datatype drain_phase = Scrubbing | Posting "audit_event list"

text \<open>\<open>dr_close\<close>: the drain was started by \<^verbatim>\<open>close\<close>, which goes on when it returns.\<close>

record drain =
  dr_batch :: "audit_event list"
  dr_phase :: drain_phase
  dr_ignore :: bool
  dr_attempt :: int
  dr_close :: bool

record audit_state =
  ab_buffer :: "audit_event list"
  ab_timer :: bool
  ab_backoffMs :: int
  ab_deadline :: int
  ab_drain :: "drain option"
  ab_closed :: bool
  ab_reports :: "audit_report list"
  ab_posts :: "audit_event list list"

definition audit_new :: audit_state where
  "audit_new = \<lparr>ab_buffer = [], ab_timer = False, ab_backoffMs = 0, ab_deadline = 0, ab_drain = None, ab_closed = False,
     ab_reports = [], ab_posts = []\<rparr>"

definition report :: "audit_report \<Rightarrow> audit_state \<Rightarrow> audit_state" where
  "report r s = s\<lparr>ab_reports := ab_reports s @ [r]\<rparr>"

definition ensureAuditFlushTimer :: "audit_state \<Rightarrow> audit_state" where
  "ensureAuditFlushTimer s = (if ab_timer s \<or> ab_closed s then s else s\<lparr>ab_timer := True\<rparr>)"

definition ingestAuditEvent :: "audit_config \<Rightarrow> trace_context \<Rightarrow> audit_event \<Rightarrow> audit_state \<Rightarrow> audit_state" where
  "ingestAuditEvent cfg ctx req s =
     (let req = stamp_trace ctx (remap_details req) in
      if ab_closed s then report (Dropped_On_Close 1) s
      else let s1 = (if au_size cfg \<le> length (ab_buffer s)
             then report (Overflow 1 (int (length (tl (ab_buffer s))))) (s\<lparr>ab_buffer := tl (ab_buffer s)\<rparr>) else s)
           in ensureAuditFlushTimer (s1\<lparr>ab_buffer := ab_buffer s1 @ [req]\<rparr>))"

section \<open>Draining\<close>

definition close_rest :: "audit_state \<Rightarrow> audit_state" where
  "close_rest s = (if ab_buffer s \<noteq> []
     then report (Dropped_On_Close (int (length (ab_buffer s)))) (s\<lparr>ab_buffer := []\<rparr>) else s)"

definition drain_end :: "bool \<Rightarrow> audit_state \<Rightarrow> audit_state" where
  "drain_end closing s = (if closing then close_rest (s\<lparr>ab_drain := None\<rparr>) else s\<lparr>ab_drain := None\<rparr>)"

definition post_batch :: "drain \<Rightarrow> audit_event list \<Rightarrow> audit_state \<Rightarrow> audit_state" where
  "post_batch d evs s = s\<lparr>ab_drain := Some (d\<lparr>dr_phase := Posting evs\<rparr>), ab_posts := ab_posts s @ [evs]\<rparr>"

text \<open>One turn of the loop, up to its first await.\<close>

definition drain_turn :: "audit_config \<Rightarrow> pii_state \<Rightarrow> bool \<Rightarrow> int \<Rightarrow> bool \<Rightarrow> audit_state \<Rightarrow> audit_state" where
  "drain_turn cfg pii ignoreBackoff attempt closing s =
     (if ab_buffer s = [] then drain_end closing s
      else let batch = take (au_batch cfg) (ab_buffer s); s1 = s\<lparr>ab_buffer := drop (au_batch cfg) (ab_buffer s)\<rparr>;
             d = \<lparr>dr_batch = batch, dr_phase = Scrubbing, dr_ignore = ignoreBackoff, dr_attempt = attempt, dr_close = closing\<rparr>
           in if isPiiPipelineNoOp pii then post_batch d batch s1 else s1\<lparr>ab_drain := Some d\<rparr>)"

definition drainAuditBuffer :: "audit_config \<Rightarrow> pii_state \<Rightarrow> bool \<Rightarrow> bool \<Rightarrow> int \<Rightarrow> audit_state \<Rightarrow> audit_state" where
  "drainAuditBuffer cfg pii ignoreBackoff closing now s =
     (if ab_drain s \<noteq> None \<or> ab_buffer s = [] then (if closing then close_rest s else s)
      else if \<not> ignoreBackoff \<and> now < ab_deadline s then s
      else drain_turn cfg pii ignoreBackoff 0 closing s)"

definition reset_backoff :: "audit_state \<Rightarrow> audit_state" where
  "reset_backoff s = s\<lparr>ab_backoffMs := 0, ab_deadline := 0\<rparr>"

text \<open>The pipeline is through with the batch. Where it throws, the drain rejects, and so does a \<^verbatim>\<open>close\<close> behind it.\<close>

definition drain_scrubbed :: "audit_config \<Rightarrow> pii_state \<Rightarrow> nat \<Rightarrow> drain \<Rightarrow> audit_state \<Rightarrow> audit_state" where
  "drain_scrubbed cfg pii draws d s = (case fst (scrub_batch pii draws (dr_batch d)) of
     Inl e \<Rightarrow> s\<lparr>ab_drain := None\<rparr>
   | Inr [] \<Rightarrow>
       if dr_ignore d then drain_turn cfg pii True (dr_attempt d) (dr_close d) (reset_backoff s)
       else drain_end (dr_close d) (reset_backoff s)
   | Inr evs \<Rightarrow> post_batch d evs s)"

text \<open>The post has settled, with an error where there is one.\<close>

definition permanent :: "api_error \<Rightarrow> bool" where
  "permanent e = (case e of
     Api_Error Auth_Error _ _ _ \<Rightarrow> True
   | Api_Error _ _ (Some status) _ \<Rightarrow> 400 \<le> status \<and> status < 500
   | _ \<Rightarrow> False)"

definition drain_posted :: "audit_config \<Rightarrow> pii_state \<Rightarrow> api_error option \<Rightarrow> int \<Rightarrow> drain \<Rightarrow> audit_state \<Rightarrow> audit_state" where
  "drain_posted cfg pii outcome now d s = (case outcome of
     None \<Rightarrow>
       if dr_ignore d then drain_turn cfg pii True (dr_attempt d) (dr_close d) (reset_backoff s)
       else drain_end (dr_close d) (reset_backoff s)
   | Some e \<Rightarrow>
       let attempt = dr_attempt d + 1;
         backoff = min (if 0 < ab_backoffMs s then ab_backoffMs s * 2 else au_intervalMs cfg) (au_maxBackoffMs cfg);
         s1 = s\<lparr>ab_backoffMs := backoff, ab_deadline := now + backoff\<rparr>
       in if permanent e then
            drain_end (dr_close d) (report (Ingest_Failed attempt (Some (int (length (dr_batch d)))) (int (length (ab_buffer s1))) e) s1)
          else
            let s2 = s1\<lparr>ab_buffer := dr_batch d @ ab_buffer s1\<rparr> in
            drain_end (dr_close d) (report (Ingest_Failed attempt None (int (length (ab_buffer s2))) e) s2))"

definition close_client :: "audit_config \<Rightarrow> pii_state \<Rightarrow> int \<Rightarrow> audit_state \<Rightarrow> audit_state" where
  "close_client cfg pii now s = drainAuditBuffer cfg pii True True now (s\<lparr>ab_closed := True, ab_timer := False\<rparr>)"

section \<open>Any interleaving\<close>

datatype audit_op =
  Op_Ingest audit_event trace_context
| Op_Tick int
| Op_Flush int
| Op_Close int
| Op_Scrubbed nat
| Op_Posted "api_error option" int

text \<open>A settling step happens only where a drain waits for it.\<close>

definition audit_apply :: "audit_config \<Rightarrow> pii_state \<Rightarrow> audit_op \<Rightarrow> audit_state \<Rightarrow> audit_state" where
  "audit_apply cfg pii op s = (case op of
     Op_Ingest ev ctx \<Rightarrow> ingestAuditEvent cfg ctx ev s
   | Op_Tick now \<Rightarrow> if ab_timer s then drainAuditBuffer cfg pii False False now s else s
   | Op_Flush now \<Rightarrow> drainAuditBuffer cfg pii False False now s
   | Op_Close now \<Rightarrow> close_client cfg pii now s
   | Op_Scrubbed draws \<Rightarrow> (case ab_drain s of
       Some d \<Rightarrow> if dr_phase d = Scrubbing then drain_scrubbed cfg pii draws d s else s
     | None \<Rightarrow> s)
   | Op_Posted outcome now \<Rightarrow> (case ab_drain s of
       Some d \<Rightarrow> if dr_phase d = Scrubbing then s else drain_posted cfg pii outcome now d s
     | None \<Rightarrow> s))"

text \<open>What became of the events, beside the state: the ones taken in, the ones settled (posted and answered, or
  withheld as a whole batch by the self-check), and the ones a throwing pipeline lost.\<close>

record audit_log =
  al_state :: audit_state
  al_in :: "audit_event list"
  al_done :: "audit_event list"
  al_lost :: "audit_event list"

definition in_flight :: "audit_state \<Rightarrow> audit_event list" where
  "in_flight s = (case ab_drain s of Some d \<Rightarrow> dr_batch d | None \<Rightarrow> [])"

definition taken_in :: "audit_op \<Rightarrow> audit_event list" where
  "taken_in op = (case op of Op_Ingest ev ctx \<Rightarrow> [stamp_trace ctx (remap_details ev)] | _ \<Rightarrow> [])"

definition settled_by :: "pii_state \<Rightarrow> audit_op \<Rightarrow> audit_state \<Rightarrow> audit_event list" where
  "settled_by pii op s = (case (op, ab_drain s) of
     (Op_Scrubbed draws, Some d) \<Rightarrow> if dr_phase d = Scrubbing \<and> fst (scrub_batch pii draws (dr_batch d)) = Inr [] then dr_batch d else []
   | (Op_Posted None now, Some d) \<Rightarrow> if dr_phase d = Scrubbing then [] else dr_batch d
   | _ \<Rightarrow> [])"

definition lost_by :: "pii_state \<Rightarrow> audit_op \<Rightarrow> audit_state \<Rightarrow> audit_event list" where
  "lost_by pii op s = (case (op, ab_drain s) of
     (Op_Scrubbed draws, Some d) \<Rightarrow> if dr_phase d = Scrubbing \<and> isl (fst (scrub_batch pii draws (dr_batch d))) then dr_batch d else []
   | _ \<Rightarrow> [])"

definition audit_step :: "audit_config \<Rightarrow> pii_state \<Rightarrow> audit_log \<Rightarrow> audit_op \<Rightarrow> audit_log" where
  "audit_step cfg pii l op = \<lparr>al_state = audit_apply cfg pii op (al_state l), al_in = al_in l @ taken_in op,
     al_done = al_done l @ settled_by pii op (al_state l), al_lost = al_lost l @ lost_by pii op (al_state l)\<rparr>"

definition audit_run :: "audit_config \<Rightarrow> pii_state \<Rightarrow> audit_op list \<Rightarrow> audit_log" where
  "audit_run cfg pii ops = foldl (audit_step cfg pii) \<lparr>al_state = audit_new, al_in = [], al_done = [], al_lost = []\<rparr> ops"

fun reported_dropped :: "audit_report \<Rightarrow> int" where
  "reported_dropped (Overflow n r) = n"
| "reported_dropped (Ingest_Failed a d r e) = (case d of Some n \<Rightarrow> n | None \<Rightarrow> 0)"
| "reported_dropped (Dropped_On_Close n) = n"

definition dropped_count :: "audit_state \<Rightarrow> int" where
  "dropped_count s = sum_list (map reported_dropped (ab_reports s))"

text \<open>The two halves of the invariant, on the settled events, the state and what came in.\<close>

definition in_order :: "audit_event list \<Rightarrow> audit_state \<Rightarrow> audit_event list \<Rightarrow> bool" where
  "in_order settled s came \<longleftrightarrow> subseq (settled @ in_flight s @ ab_buffer s) came"

definition accounted :: "int \<Rightarrow> audit_state \<Rightarrow> int \<Rightarrow> bool" where
  "accounted gone s came \<longleftrightarrow> came = gone + int (length (in_flight s)) + int (length (ab_buffer s)) + dropped_count s"

definition fits :: "audit_config \<Rightarrow> audit_state \<Rightarrow> bool" where
  "fits cfg s \<longleftrightarrow> length (in_flight s) \<le> au_batch cfg \<and>
     length (ab_buffer s) \<le> au_size cfg + (if ab_drain s = None then au_batch cfg else 0)"

lemmas audit_defs = in_order_def accounted_def in_flight_def dropped_count_def report_def close_rest_def drain_end_def
  post_batch_def reset_backoff_def ensureAuditFlushTimer_def

lemma report_simps [simp]:
  "ab_buffer (report r s) = ab_buffer s" "ab_drain (report r s) = ab_drain s" "in_flight (report r s) = in_flight s"
  "dropped_count (report r s) = dropped_count s + reported_dropped r"
  "ab_buffer (ensureAuditFlushTimer s) = ab_buffer s" "ab_drain (ensureAuditFlushTimer s) = ab_drain s"
  "in_flight (ensureAuditFlushTimer s) = in_flight s" "dropped_count (ensureAuditFlushTimer s) = dropped_count s"
  "ab_buffer (reset_backoff s) = ab_buffer s" "ab_drain (reset_backoff s) = ab_drain s"
  "in_flight (reset_backoff s) = in_flight s" "dropped_count (reset_backoff s) = dropped_count s"
  by (simp_all add: audit_defs)

lemma update_simps [simp]:
  "in_flight (s\<lparr>ab_buffer := b\<rparr>) = in_flight s" "dropped_count (s\<lparr>ab_buffer := b\<rparr>) = dropped_count s"
  "in_flight (s\<lparr>ab_drain := None\<rparr>) = []" "in_flight (s\<lparr>ab_drain := Some d\<rparr>) = dr_batch d"
  "dropped_count (s\<lparr>ab_drain := x\<rparr>) = dropped_count s"
  "in_flight (s\<lparr>ab_backoffMs := m, ab_deadline := t\<rparr>) = in_flight s"
  "dropped_count (s\<lparr>ab_backoffMs := m, ab_deadline := t\<rparr>) = dropped_count s"
  "in_flight (s\<lparr>ab_closed := c, ab_timer := i\<rparr>) = in_flight s"
  "dropped_count (s\<lparr>ab_closed := c, ab_timer := i\<rparr>) = dropped_count s"
  "in_flight (s\<lparr>ab_posts := p\<rparr>) = in_flight s" "dropped_count (s\<lparr>ab_posts := p\<rparr>) = dropped_count s"
  by (simp_all add: audit_defs)

lemma in_flight_none: "ab_drain s = None \<Longrightarrow> in_flight s = []"
  by (simp add: in_flight_def)

section \<open>The invariant\<close>

text \<open>A step of a drain takes the batch in flight away (to a place given by the step) and may start the next one.
  \<open>kept settled\<close>: what an operation may do with the rest of the buffer.\<close>

definition keeps :: "audit_config \<Rightarrow> audit_state \<Rightarrow> audit_state \<Rightarrow> bool" where
  "keeps cfg s s' \<longleftrightarrow>
     subseq (in_flight s' @ ab_buffer s') (ab_buffer s) \<and>
     int (length (in_flight s')) + int (length (ab_buffer s')) + dropped_count s' = int (length (ab_buffer s)) + dropped_count s \<and>
     (length (ab_buffer s) \<le> au_size cfg + au_batch cfg \<longrightarrow> fits cfg s')"

lemma keeps_close_rest: "ab_drain s = None \<Longrightarrow> keeps cfg s (close_rest s)"
  by (auto simp: keeps_def close_rest_def in_flight_none fits_def)

lemma keeps_end: "keeps cfg s (drain_end closing s)"
  using keeps_close_rest [of "s\<lparr>ab_drain := None\<rparr>" cfg]
  by (auto simp: drain_end_def keeps_def fits_def in_flight_none)

lemma keeps_turn: "keeps cfg s (drain_turn cfg pii ign attempt closing s)"
proof (cases "ab_buffer s = []")
  case True
  then show ?thesis by (simp add: drain_turn_def keeps_end)
next
  case False
  then show ?thesis by (auto simp: drain_turn_def Let_def post_batch_def keeps_def fits_def)
qed

lemma keeps_cong: "\<lbrakk>keeps cfg s s'; ab_buffer s = ab_buffer t; dropped_count s = dropped_count t\<rbrakk> \<Longrightarrow> keeps cfg t s'"
  by (simp add: keeps_def)

definition audit_inv :: "audit_config \<Rightarrow> audit_event list \<Rightarrow> int \<Rightarrow> audit_state \<Rightarrow> audit_event list \<Rightarrow> bool" where
  "audit_inv cfg settled gone s came \<longleftrightarrow>
     in_order settled s came \<and> accounted gone s (int (length came)) \<and> fits cfg s"

lemma inv_resume:
  assumes "audit_inv cfg settled gone s came"
    and "subseq (x @ ab_buffer m) (in_flight s @ ab_buffer s)"
    and "gone' + int (length (ab_buffer m)) + dropped_count m =
      gone + int (length (in_flight s)) + int (length (ab_buffer s)) + dropped_count s"
    and "length (ab_buffer m) \<le> au_size cfg + au_batch cfg"
    and "keeps cfg m s'"
  shows "audit_inv cfg (settled @ x) gone' s' came"
proof -
  have "subseq (x @ in_flight s' @ ab_buffer s') (x @ ab_buffer m)"
    using assms(5) by (simp add: keeps_def list_emb_append_mono)
  then have "subseq (x @ in_flight s' @ ab_buffer s') (in_flight s @ ab_buffer s)"
    using assms(2) subseq_order.order_trans by blast
  then have "subseq (settled @ x @ in_flight s' @ ab_buffer s') (settled @ in_flight s @ ab_buffer s)"
    by (simp add: list_emb_append_mono)
  then have "in_order (settled @ x) s' came"
    using assms(1) subseq_order.order_trans unfolding audit_inv_def in_order_def append_assoc by blast
  moreover have "fits cfg s'" using assms(4,5) by (simp add: keeps_def)
  moreover have "accounted gone' s' (int (length came))"
    using assms(1,3,5) by (auto simp: audit_inv_def accounted_def keeps_def)
  ultimately show ?thesis by (simp add: audit_inv_def)
qed

lemma inv_close_rest:
  assumes "audit_inv cfg settled gone s came"
  shows "audit_inv cfg settled gone (close_rest s) came"
proof -
  have "subseq (settled @ in_flight s) (settled @ in_flight s @ ab_buffer s)" by (metis append_assoc list_emb_prefix subseq_order.refl)
  then have "in_order settled (close_rest s) came"
    using assms subseq_order.order_trans by (auto simp: audit_inv_def in_order_def close_rest_def)
  then show ?thesis using assms by (auto simp: audit_inv_def close_rest_def accounted_def fits_def)
qed

lemma inv_drain:
  assumes inv: "audit_inv cfg settled gone s came"
  shows "audit_inv cfg settled gone (drainAuditBuffer cfg pii ign closing now s) came"
proof (cases "ab_drain s \<noteq> None \<or> ab_buffer s = []")
  case True
  then show ?thesis using inv inv_close_rest by (simp add: drainAuditBuffer_def)
next
  case False
  then have "audit_inv cfg (settled @ []) gone (drain_turn cfg pii ign 0 closing s) came"
    using inv by (intro inv_resume [OF inv _ _ _ keeps_turn]) (auto simp: in_flight_none audit_inv_def fits_def)
  then show ?thesis using inv False by (simp add: drainAuditBuffer_def)
qed

lemma inv_after_drain:
  assumes inv: "audit_inv cfg settled gone s came" and drain: "ab_drain s = Some d"
    and "ab_buffer m = ab_buffer s" and "dropped_count m = dropped_count s" and "keeps cfg m s'"
  shows "audit_inv cfg (settled @ dr_batch d) (gone + int (length (dr_batch d))) s' came"
proof -
  have "in_flight s = dr_batch d" using drain by (simp add: in_flight_def)
  moreover have "length (ab_buffer s) \<le> au_size cfg + au_batch cfg" using inv by (auto simp: audit_inv_def fits_def split: if_splits)
  ultimately show ?thesis using assms by (intro inv_resume [OF inv _ _ _ assms(5)]) auto
qed

lemma inv_scrubbed:
  assumes inv: "audit_inv cfg settled gone s came" and drain: "ab_drain s = Some d"
  shows "case fst (scrub_batch pii draws (dr_batch d)) of
      Inl e \<Rightarrow> audit_inv cfg settled (gone + int (length (dr_batch d))) (drain_scrubbed cfg pii draws d s) came
    | Inr evs \<Rightarrow> audit_inv cfg (settled @ (if evs = [] then dr_batch d else []))
        (gone + (if evs = [] then int (length (dr_batch d)) else 0)) (drain_scrubbed cfg pii draws d s) came"
proof (cases "fst (scrub_batch pii draws (dr_batch d))")
  case (Inl e)
  have "keeps cfg s (s\<lparr>ab_drain := None\<rparr>)" by (simp add: keeps_def fits_def)
  from inv_after_drain [OF inv drain refl refl this]
  have "audit_inv cfg (settled @ dr_batch d) (gone + int (length (dr_batch d))) (s\<lparr>ab_drain := None\<rparr>) came" .
  moreover have "in_order settled (s\<lparr>ab_drain := None\<rparr>) came" if "in_order (settled @ dr_batch d) (s\<lparr>ab_drain := None\<rparr>) came"
  proof -
    have "subseq (settled @ ab_buffer s) (settled @ dr_batch d @ ab_buffer s)"
      by (intro list_emb_append_mono list_emb_append2) simp_all
    then show ?thesis using that subseq_order.order_trans by (simp add: in_order_def)
  qed
  ultimately show ?thesis by (simp add: Inl drain_scrubbed_def audit_inv_def)
next
  case (Inr evs)
  show ?thesis
  proof (cases evs)
    case Nil
    show ?thesis
      using inv_after_drain [OF inv drain _ _ keeps_turn, of "reset_backoff s"]
        inv_after_drain [OF inv drain _ _ keeps_end, of "reset_backoff s"]
      by (simp add: Inr Nil drain_scrubbed_def)
  next
    case (Cons ev evs')
    then have "drain_scrubbed cfg pii draws d s = post_batch d evs s" by (simp add: Inr drain_scrubbed_def)
    then show ?thesis using inv drain
      by (simp add: Inr Cons audit_inv_def post_batch_def in_order_def accounted_def fits_def in_flight_def dropped_count_def)
  qed
qed

lemma inv_posted:
  assumes inv: "audit_inv cfg settled gone s came" and drain: "ab_drain s = Some d"
  shows "audit_inv cfg (settled @ (if outcome = None then dr_batch d else []))
    (gone + (if outcome = None then int (length (dr_batch d)) else 0)) (drain_posted cfg pii outcome now d s) came"
proof (cases outcome)
  case None
  then show ?thesis
    using inv_after_drain [OF inv drain _ _ keeps_turn, of "reset_backoff s"]
      inv_after_drain [OF inv drain _ _ keeps_end, of "reset_backoff s"]
    by (simp add: drain_posted_def)
next
  case (Some e)
  have batch: "in_flight s = dr_batch d" using drain by (simp add: in_flight_def)
  have fit: "length (ab_buffer s) \<le> au_size cfg" "length (dr_batch d) \<le> au_batch cfg"
    using inv drain batch by (auto simp: audit_inv_def fits_def)
  show ?thesis
  proof (cases "permanent e")
    case True
    have "audit_inv cfg (settled @ []) gone (drain_posted cfg pii outcome now d s) came"
      unfolding drain_posted_def Some option.case Let_def using True fit batch
      by (simp only: if_True) (intro inv_resume [OF inv _ _ _ keeps_end], auto simp: list_emb_append2)
    then show ?thesis by (simp add: Some)
  next
    case False
    have "audit_inv cfg (settled @ []) gone (drain_posted cfg pii outcome now d s) came"
      unfolding drain_posted_def Some option.case Let_def using False fit batch
      by (simp only: if_False) (intro inv_resume [OF inv _ _ _ keeps_end], auto)
    then show ?thesis by (simp add: Some)
  qed
qed

lemma inv_ingest:
  assumes inv: "audit_inv cfg settled gone s came" and size: "0 < au_size cfg"
  shows "audit_inv cfg settled gone (ingestAuditEvent cfg ctx ev s) (came @ [stamp_trace ctx (remap_details ev)])"
proof (cases "ab_closed s")
  case True
  then show ?thesis using inv
    by (auto simp: audit_inv_def ingestAuditEvent_def Let_def in_order_def accounted_def fits_def intro: list_emb_append2)
next
  case False
  let ?b = "if au_size cfg \<le> length (ab_buffer s) then tl (ab_buffer s) else ab_buffer s"
  have "subseq ?b (ab_buffer s)" by (cases "ab_buffer s") auto
  then have "subseq (settled @ in_flight s @ ?b) (settled @ in_flight s @ ab_buffer s)"
    by (simp add: list_emb_append_mono)
  then have "subseq (settled @ in_flight s @ ?b) came"
    using inv subseq_order.order_trans by (auto simp: audit_inv_def in_order_def)
  then have "subseq ((settled @ in_flight s @ ?b) @ [stamp_trace ctx (remap_details ev)]) (came @ [stamp_trace ctx (remap_details ev)])"
    by (simp only: subseq_append)
  then show ?thesis using inv False size
    by (cases "ab_buffer s") (auto simp: audit_inv_def ingestAuditEvent_def Let_def in_order_def accounted_def fits_def)
qed

lemma inv_step:
  assumes inv: "audit_inv cfg (al_done l) (int (length (al_done l)) + int (length (al_lost l))) (al_state l) (al_in l)"
    and size: "0 < au_size cfg"
  shows "audit_inv cfg (al_done (audit_step cfg pii l op))
    (int (length (al_done (audit_step cfg pii l op))) + int (length (al_lost (audit_step cfg pii l op))))
    (al_state (audit_step cfg pii l op)) (al_in (audit_step cfg pii l op))"
proof -
  have closed: "audit_inv cfg settled gone s came \<Longrightarrow> audit_inv cfg settled gone (s\<lparr>ab_closed := True, ab_timer := False\<rparr>) came"
    for settled gone s came by (simp add: audit_inv_def in_order_def accounted_def fits_def)
  show ?thesis
  proof (cases op)
    case (Op_Ingest ev ctx)
    then show ?thesis using inv_ingest [OF inv size]
      by (simp add: audit_step_def audit_apply_def taken_in_def settled_by_def lost_by_def)
  next
    case (Op_Close now)
    then show ?thesis using inv_drain [OF closed [OF inv]]
      by (simp add: audit_step_def audit_apply_def taken_in_def settled_by_def lost_by_def close_client_def)
  next
    case (Op_Scrubbed draws)
    then show ?thesis using inv inv_scrubbed [OF inv, of _ pii draws]
      by (auto simp: audit_step_def audit_apply_def taken_in_def settled_by_def lost_by_def algebra_simps
          split: option.splits sum.splits)
  next
    case (Op_Posted outcome now)
    then show ?thesis using inv inv_posted [OF inv, of _ outcome pii now]
      by (auto simp: audit_step_def audit_apply_def taken_in_def settled_by_def lost_by_def algebra_simps
          split: option.splits)
  qed (use inv inv_drain [OF inv] in
      \<open>simp_all add: audit_step_def audit_apply_def taken_in_def settled_by_def lost_by_def\<close>)
qed

lemma inv_run:
  assumes "0 < au_size cfg"
  shows "audit_inv cfg (al_done (audit_run cfg pii ops)) (int (length (al_done (audit_run cfg pii ops))) +
    int (length (al_lost (audit_run cfg pii ops)))) (al_state (audit_run cfg pii ops)) (al_in (audit_run cfg pii ops))"
proof (induction ops rule: rev_induct)
  case Nil
  show ?case by (simp add: audit_run_def audit_new_def audit_inv_def in_order_def accounted_def fits_def in_flight_def dropped_count_def)
next
  case (snoc op ops)
  then show ?case using inv_step [OF _ assms] by (simp add: audit_run_def)
qed

text \<open>C36: whatever calls, ticks, replies and failures come in whatever order: the events that are settled, in flight
  and buffered are, in this order, a part of the events taken in, in the order they came; every other event
  was reported to the error handler or lost to a throwing pipeline; and the buffer never holds more than its
  bound and one batch.\<close>

theorem audit_events_accounted:
  "let cfg = audit_settings a b c d; l = audit_run cfg pii ops; s = al_state l in
   subseq (al_done l @ in_flight s @ ab_buffer s) (al_in l) \<and>
   int (length (al_in l)) = int (length (al_done l)) + int (length (al_lost l)) + int (length (in_flight s)) +
     int (length (ab_buffer s)) + dropped_count s \<and>
   length (ab_buffer s) \<le> au_size cfg + au_batch cfg"
proof -
  have "0 < au_size (audit_settings a b c d)" by (simp add: audit_settings_def Let_def)
  from inv_run [OF this, of pii ops] show ?thesis
    by (auto simp: Let_def audit_inv_def in_order_def accounted_def fits_def split: if_splits)
qed

section \<open>What is posted\<close>

lemma scrubbed_clean:
  assumes "applyPiiPipelineOrDrop pii draws ev = (Inr (Some ev'), d)" and "ai_detail ev' = Some v" and "t \<in> set (string_leaves v)"
  shows "clean (getActiveTextScanner pii) t"
  using assms pipeline_clean [where s = pii]
  by (auto simp: applyPiiPipelineOrDrop_def Let_def split: option.splits prod.splits sum.splits pii_error.splits)

definition clean_event :: "pii_state \<Rightarrow> audit_event \<Rightarrow> bool" where
  "clean_event pii ev \<longleftrightarrow> (\<forall>v t. ai_detail ev = Some v \<longrightarrow> t \<in> set (string_leaves v) \<longrightarrow> clean (getActiveTextScanner pii) t)"

lemma scrub_batch_clean:
  "fst (scrub_batch pii draws evs) = Inr out \<Longrightarrow> list_all (clean_event pii) out"
proof (induction evs arbitrary: draws out)
  case (Cons ev evs)
  obtain r d where a: "applyPiiPipelineOrDrop pii draws ev = (r, d)" by fastforce
  with Cons.prems obtain kept where k: "r = Inr kept" by (cases r) auto
  obtain r' d' where b: "scrub_batch pii d evs = (r', d')" by fastforce
  with Cons.prems a k obtain rest where r: "r' = Inr rest" by (cases r') auto
  have "list_all (clean_event pii) rest" using Cons.IH [of d rest] b r by simp
  moreover have "kept = Some ev' \<Longrightarrow> clean_event pii ev'" for ev'
    using scrubbed_clean a k by (auto simp: clean_event_def)
  ultimately show ?case using Cons.prems a b k r by (cases kept) auto
qed simp

definition posts_clean :: "pii_state \<Rightarrow> audit_state \<Rightarrow> bool" where
  "posts_clean pii s \<longleftrightarrow> list_all (list_all (clean_event pii)) (ab_posts s)"

lemma noop_clean: "isPiiPipelineNoOp pii \<Longrightarrow> clean_event pii ev"
  by (simp add: isPiiPipelineNoOp_def clean_event_def clean_def)

lemma posts_end: "ab_posts (close_rest s) = ab_posts s" "ab_posts (drain_end c s) = ab_posts s"
    "ab_posts (reset_backoff s) = ab_posts s" "ab_posts (report r s) = ab_posts s"
    "ab_posts (ensureAuditFlushTimer s) = ab_posts s"
  by (simp_all add: audit_defs)

lemma posts_turn: "posts_clean pii s \<Longrightarrow> posts_clean pii (drain_turn cfg pii ign n c s)"
  by (auto simp: drain_turn_def posts_clean_def posts_end post_batch_def Let_def list_all_iff noop_clean dest: in_set_takeD)

lemma posts_drain: "posts_clean pii s \<Longrightarrow> posts_clean pii (drainAuditBuffer cfg pii ign c now s)"
  using posts_turn by (auto simp: drainAuditBuffer_def posts_clean_def posts_end)

lemma posts_scrubbed: "posts_clean pii s \<Longrightarrow> posts_clean pii (drain_scrubbed cfg pii draws d s)"
  using posts_turn [of pii "reset_backoff s"] scrub_batch_clean [of pii draws "dr_batch d"]
  by (auto simp: drain_scrubbed_def posts_clean_def posts_end post_batch_def split: sum.splits list.splits)

lemma posts_posted: "posts_clean pii s \<Longrightarrow> posts_clean pii (drain_posted cfg pii outcome now d s)"
  using posts_turn [of pii "reset_backoff s"]
  by (auto simp: drain_posted_def posts_clean_def posts_end Let_def split: option.splits)

lemma posts_step: "posts_clean pii s \<Longrightarrow> posts_clean pii (audit_apply cfg pii op s)"
proof (cases op)
  case (Op_Ingest ev ctx)
  assume "posts_clean pii s"
  then show ?thesis by (simp add: Op_Ingest audit_apply_def ingestAuditEvent_def posts_clean_def posts_end Let_def)
next
  case (Op_Close now)
  assume "posts_clean pii s"
  then show ?thesis using posts_drain [of pii "s\<lparr>ab_closed := True, ab_timer := False\<rparr>"]
    by (simp add: Op_Close audit_apply_def close_client_def posts_clean_def)
qed (auto simp: audit_apply_def intro: posts_drain posts_scrubbed posts_posted split: option.splits)

lemma posts_run: "posts_clean pii (al_state (audit_run cfg pii ops))"
proof (induction ops rule: rev_induct)
  case Nil
  show ?case by (simp add: audit_run_def posts_clean_def audit_new_def)
next
  case (snoc op ops)
  then show ?case by (simp add: audit_run_def audit_step_def posts_step)
qed

text \<open>C37: whatever comes in whatever order, in the detail of every event of every batch that was posted no active pattern
  matches any string value (the names of properties, and the event's other fields, are not scanned).\<close>

theorem audit_posts_are_clean:
  assumes "evs \<in> set (ab_posts (al_state (audit_run cfg pii ops)))" and "ev \<in> set evs"
    and "ai_detail ev = Some v" and "t \<in> set (string_leaves v)"
  shows "clean (getActiveTextScanner pii) t"
  using assms posts_run [of pii cfg ops] by (auto simp: posts_clean_def list_all_iff clean_event_def)

definition sample_event :: "string \<Rightarrow> audit_event" where
  "sample_event s = \<lparr>ai_event_type = ''tool'', ai_tool = Some ''mail'', ai_detail = Some (JObj [(''to'', JStr s)]), ai_details = None,
     ai_trace_id = Some ''t'', ai_span_id = None, ai_pii_key_id = None, ai_rest = []\<rparr>"

definition sample_trace :: trace_context where
  "sample_trace = \<lparr>tr_traceId = ''t'', tr_spanId = ''s'', tr_flags = ''01''\<rparr>"

definition sample_audit_cfg :: audit_config where
  "sample_audit_cfg = \<lparr>au_size = 1, au_intervalMs = 50, au_batch = 1, au_maxBackoffMs = 60000\<rparr>"

definition scan_only :: pii_state where
  "scan_only = \<lparr>pi_env = sample_pii_env, pi_trie = None, pi_scanner = pi_scanner sample_pii\<rparr>"

definition no_pii :: pii_state where
  "no_pii = \<lparr>pi_env = sample_pii_env, pi_trie = None, pi_scanner = None\<rparr>"

lemma sample_audit_run:
  "ab_posts (al_state (audit_run sample_audit_cfg scan_only
     [Op_Ingest (sample_event ''a@b'') sample_trace, Op_Flush 0, Op_Scrubbed 0])) =
   [[(sample_event ''***email***'')]]"
  by code_simp

theorem audit_posts_are_clean_witness:
  "\<exists>ev v. ab_posts (al_state (audit_run sample_audit_cfg scan_only
       [Op_Ingest (sample_event ''a@b'') sample_trace, Op_Flush 0, Op_Scrubbed 0])) = [[ev]] \<and> ai_detail ev = Some v \<and>
     string_leaves v = [''***email***''] \<and> clean (getActiveTextScanner scan_only) ''***email***'' \<and>
     \<not> clean (getActiveTextScanner scan_only) ''a@b''"
proof -
  let ?ops = "[Op_Ingest (sample_event ''a@b'') sample_trace, Op_Flush 0, Op_Scrubbed 0]"
  let ?ev = "sample_event ''***email***'' :: audit_event"
  have d: "ai_detail ?ev = Some (JObj [(''to'', JStr ''***email***'')])" by (simp add: sample_event_def)
  have "clean (getActiveTextScanner scan_only) ''***email***''"
    by (rule audit_posts_are_clean [where cfg = sample_audit_cfg and evs = "[?ev]" and ops = ?ops and ev = ?ev, OF _ _ d])
      (simp_all add: sample_audit_run)
  moreover have "\<not> clean (getActiveTextScanner scan_only) ''a@b''" by code_simp
  ultimately show ?thesis using d by (simp add: sample_audit_run)
qed

section \<open>Closing\<close>

lemma closed_kept:
  "ab_closed (drain_turn cfg pii ign n c s) = ab_closed s" "ab_closed (drain_posted cfg pii outcome now d s) = ab_closed s"
  "ab_closed (drain_scrubbed cfg pii draws d s) = ab_closed s"
  by (simp_all add: drain_turn_def drain_posted_def drain_scrubbed_def audit_defs Let_def split: option.split sum.split list.split)

text \<open>What of a batch is posted: all of it without a pipeline, else what the pipeline lets through, masked.\<close>

definition let_through :: "pii_state \<Rightarrow> nat \<Rightarrow> audit_event list \<Rightarrow> audit_event list" where
  "let_through pii draws batch = (if isPiiPipelineNoOp pii then batch
     else case fst (scrub_batch pii draws batch) of Inr evs \<Rightarrow> evs | Inl e \<Rightarrow> [])"

text \<open>The pipeline gets through with a batch, and its post is answered.\<close>

definition accept_all :: "int \<Rightarrow> nat list \<Rightarrow> audit_op list" where
  "accept_all now ds = concat (map (\<lambda>d. [Op_Scrubbed d, Op_Posted None now]) ds)"

text \<open>One batch of a closing drain.\<close>

lemma closing_batch:
  assumes "ab_buffer s \<noteq> []" and "0 < au_batch cfg" and "\<forall>b. isPiiPipelineNoOp pii \<or> \<not> isl (fst (scrub_batch pii d b))"
  shows "\<exists>r. foldl (\<lambda>s op. audit_apply cfg pii op s) (drain_turn cfg pii True n True s) [Op_Scrubbed d, Op_Posted None now] =
      drain_turn cfg pii True n True r \<and> ab_buffer r = drop (au_batch cfg) (ab_buffer s) \<and> ab_reports r = ab_reports s \<and>
      ab_closed r = ab_closed s \<and>
      ab_posts r = ab_posts s @ filter (\<lambda>evs. evs \<noteq> []) [let_through pii d (take (au_batch cfg) (ab_buffer s))]"
proof -
  let ?b = "take (au_batch cfg) (ab_buffer s)" and ?s1 = "s\<lparr>ab_buffer := drop (au_batch cfg) (ab_buffer s)\<rparr>"
  let ?d = "\<lambda>ph. \<lparr>dr_batch = ?b, dr_phase = ph, dr_ignore = True, dr_attempt = n, dr_close = True\<rparr>"
  show ?thesis
  proof (cases "isPiiPipelineNoOp pii")
    case True
    then have t: "drain_turn cfg pii True n True s = ?s1\<lparr>ab_drain := Some (?d (Posting ?b)), ab_posts := ab_posts s @ [?b]\<rparr>"
      using assms(1) by (simp add: drain_turn_def post_batch_def Let_def)
    show ?thesis
    proof (cases "?b = []")
      case False
      then show ?thesis using True unfolding t
        by (intro exI [of _ "reset_backoff (?s1\<lparr>ab_drain := Some (?d (Posting ?b)), ab_posts := ab_posts s @ [?b]\<rparr>)"])
          (simp add: audit_apply_def drain_posted_def let_through_def reset_backoff_def)
    qed (use assms in \<open>simp\<close>)
  next
    case False
    then have "\<not> isl (fst (scrub_batch pii d ?b))" using assms(3) by blast
    then obtain evs where evs: "fst (scrub_batch pii d ?b) = Inr evs" by (cases "fst (scrub_batch pii d ?b)") auto
    have t: "drain_turn cfg pii True n True s = ?s1\<lparr>ab_drain := Some (?d Scrubbing)\<rparr>"
      using assms(1) False by (simp add: drain_turn_def Let_def)
    show ?thesis
    proof (cases evs)
      case Nil
      let ?r = "reset_backoff (?s1\<lparr>ab_drain := Some (?d Scrubbing)\<rparr>)"
      have scrubbed: "audit_apply cfg pii (Op_Scrubbed d) (drain_turn cfg pii True n True s) = drain_turn cfg pii True n True ?r"
        using evs Nil unfolding t by (simp add: audit_apply_def drain_scrubbed_def)
      have "audit_apply cfg pii (Op_Posted None now) (drain_turn cfg pii True n True ?r) = drain_turn cfg pii True n True ?r"
        using False by (auto simp: audit_apply_def drain_turn_def drain_end_def close_rest_def reset_backoff_def report_def Let_def)
      then show ?thesis using scrubbed evs Nil False by (intro exI [of _ ?r]) (simp add: let_through_def reset_backoff_def)
    next
      case (Cons x xs)
      let ?q = "post_batch (?d Scrubbing) evs (?s1\<lparr>ab_drain := Some (?d Scrubbing)\<rparr>)"
      have scrubbed: "audit_apply cfg pii (Op_Scrubbed d) (drain_turn cfg pii True n True s) = ?q"
        using evs Cons unfolding t by (simp add: audit_apply_def drain_scrubbed_def)
      have "audit_apply cfg pii (Op_Posted None now) ?q = drain_turn cfg pii True n True (reset_backoff ?q)"
        by (simp add: audit_apply_def post_batch_def drain_posted_def)
      then show ?thesis using scrubbed evs Cons False
        by (intro exI [of _ "reset_backoff ?q"]) (simp add: let_through_def reset_backoff_def post_batch_def)
    qed
  qed
qed

lemma closing_run:
  assumes batch: "0 < au_batch cfg" and pii: "\<forall>d \<in> set ds. \<forall>b. isPiiPipelineNoOp pii \<or> \<not> isl (fst (scrub_batch pii d b))"
    and "length (ab_buffer s) \<le> length ds"
  shows "let s' = foldl (\<lambda>s op. audit_apply cfg pii op s) (drain_turn cfg pii True n True s) (accept_all now ds) in
     ab_closed s' = ab_closed s \<and> ab_buffer s' = [] \<and> ab_drain s' = None \<and> ab_reports s' = ab_reports s \<and>
     (\<exists>batches. concat batches = ab_buffer s \<and> list_all (\<lambda>b. length b \<le> au_batch cfg) batches \<and> length batches \<le> length ds \<and>
       ab_posts s' = ab_posts s @ filter (\<lambda>evs. evs \<noteq> []) (map2 (let_through pii) ds batches))"
  using pii assms(3)
proof (induction ds arbitrary: s)
  case Nil
  then show ?case by (simp add: accept_all_def drain_turn_def drain_end_def close_rest_def)
next
  case (Cons d ds)
  have ops: "accept_all now (d # ds) = [Op_Scrubbed d, Op_Posted None now] @ accept_all now ds" by (simp add: accept_all_def)
  show ?case
  proof (cases "ab_buffer s = []")
    case True
    have idle: "foldl (\<lambda>s op. audit_apply cfg pii op s) t (accept_all now es) = t" if "ab_drain t = None" for t es
      using that by (induction es) (simp_all add: accept_all_def audit_apply_def)
    from True have "drain_turn cfg pii True n True s = s\<lparr>ab_drain := None\<rparr>" by (simp add: drain_turn_def drain_end_def close_rest_def)
    then show ?thesis using True idle [of "s\<lparr>ab_drain := None\<rparr>" "d # ds"] by (simp add: exI [of _ "[]"])
  next
    case False
    let ?b = "take (au_batch cfg) (ab_buffer s)"
    from closing_batch [OF False batch, of pii d n now] Cons.prems(1) obtain r where r:
      "foldl (\<lambda>s op. audit_apply cfg pii op s) (drain_turn cfg pii True n True s) [Op_Scrubbed d, Op_Posted None now] =
        drain_turn cfg pii True n True r"
      "ab_buffer r = drop (au_batch cfg) (ab_buffer s)" "ab_reports r = ab_reports s" "ab_closed r = ab_closed s"
      "ab_posts r = ab_posts s @ filter (\<lambda>evs. evs \<noteq> []) [let_through pii d ?b]" by auto
    have "length (ab_buffer r) \<le> length ds" using Cons.prems(2) batch False r(2) by (cases "ab_buffer s") auto
    from Cons.IH [OF _ this] Cons.prems(1) obtain batches where s':
      "let s' = foldl (\<lambda>s op. audit_apply cfg pii op s) (drain_turn cfg pii True n True r) (accept_all now ds) in
       ab_closed s' = ab_closed r \<and> ab_buffer s' = [] \<and> ab_drain s' = None \<and> ab_reports s' = ab_reports r \<and>
       ab_posts s' = ab_posts r @ filter (\<lambda>evs. evs \<noteq> []) (map2 (let_through pii) ds batches)"
      "concat batches = ab_buffer r" "list_all (\<lambda>b. length b \<le> au_batch cfg) batches" "length batches \<le> length ds"
      unfolding Let_def by auto
    then show ?thesis unfolding ops foldl_append r(1) Let_def using r(2-5)
      by (intro conjI exI [of _ "?b # batches"]) auto
  qed
qed

text \<open>C38: closing a client that no other drain is busy with puts everything that is buffered on its way, in order and in batches
  within the bound: each batch is posted as the pipeline lets it through (all of it where no masking is active;
  nothing where the check after the masking withholds all of it), nothing stays behind and no drop is reported, as long as
  the posts are answered and the pipeline throws nothing but its own check's error (\<open>no_rules_never_throw\<close>: without field rules it never does).\<close>

theorem close_delivers_everything:
  assumes "\<forall>d \<in> set ds. \<forall>b. isPiiPipelineNoOp pii \<or> \<not> isl (fst (scrub_batch pii d b))" and "ab_drain s = None"
    and "cfg = audit_settings a b c d" and "length (ab_buffer s) \<le> length ds"
  shows "let s' = foldl (\<lambda>s op. audit_apply cfg pii op s) s (Op_Close now # accept_all now ds) in
    ab_closed s' \<and> ab_buffer s' = [] \<and> ab_drain s' = None \<and> ab_reports s' = ab_reports s \<and>
    (\<exists>batches. concat batches = ab_buffer s \<and> list_all (\<lambda>b. length b \<le> au_batch cfg) batches \<and> length batches \<le> length ds \<and>
      ab_posts s' = ab_posts s @ filter (\<lambda>evs. evs \<noteq> []) (map2 (let_through pii) ds batches))"
proof -
  let ?s0 = "s\<lparr>ab_closed := True, ab_timer := False\<rparr>"
  have "0 < au_batch cfg" by (simp add: assms(3) audit_settings_def Let_def)
  note run = closing_run [OF this assms(1), of ?s0 0 now]
  have "audit_apply cfg pii (Op_Close now) s = drain_turn cfg pii True 0 True ?s0"
    using assms(2) by (cases "ab_buffer s = []")
      (simp_all add: audit_apply_def close_client_def drainAuditBuffer_def drain_turn_def drain_end_def close_rest_def)
  then show ?thesis using run assms(4) by (simp add: Let_def)
qed


text \<open>A pipeline without field rules throws nothing but its check's error.\<close>

lemma check_error: "selfCheck t ps \<noteq> Some (Pii_Error e)"
  by (induction ps) (auto split: option.splits)

lemma read_only_check_error: "walkStringsReadOnly ps v \<noteq> Some (Pii_Error e)"
proof -
  have first: "first_error rs = Some x \<Longrightarrow> Some x \<in> set rs" for rs and x :: pii_error
    by (induction rs) (auto split: option.splits)
  show ?thesis
  proof (induction ps v rule: walkStringsReadOnly.induct)
    case (2 ps vs)
    show ?case using first [of "map (walkStringsReadOnly ps) vs" "Pii_Error e"] 2 by force
  next
    case (3 ps kvs)
    show ?case using first [of "map (\<lambda>(k, v). walkStringsReadOnly ps v) kvs" "Pii_Error e"] 3 by force
  qed (simp_all add: check_error)
qed

lemma no_rules_never_throw:
  assumes "pi_trie pii = None"
  shows "\<not> isl (fst (scrub_batch pii d b))"
proof (induction b arbitrary: d)
  case (Cons ev evs)
  have "fst (applyPiiPipelineOrDrop pii d ev) \<noteq> Inl e" for e
    using assms read_only_check_error
    by (auto simp: applyPiiPipelineOrDrop_def runPiiPipeline_def applyTrie_def wret_def getActiveFieldRuleTrie_def
      Let_def split: option.splits prod.splits sum.splits pii_error.splits if_splits)
  then show ?case using Cons by (cases "applyPiiPipelineOrDrop pii d ev"; cases "scrub_batch pii (snd (applyPiiPipelineOrDrop pii d ev)) evs")
      (use Cons [of "snd (applyPiiPipelineOrDrop pii d ev)"] in \<open>auto split: sum.splits\<close>)
qed simp

theorem close_delivers_everything_witness:
  "let cfg = audit_settings (Some 3) None (Some 2) None;
     s = al_state (audit_run cfg scan_only (map (\<lambda>t. Op_Ingest (sample_event t) sample_trace) [''x'', ''a@b'', ''z'']));
     s' = foldl (\<lambda>s op. audit_apply cfg scan_only op s) s (Op_Close 5 # accept_all 5 [0, 0, 0]) in
   ab_drain s = None \<and> ab_buffer s = [sample_event ''x'', sample_event ''a@b'', sample_event ''z''] \<and>
   ab_posts s' = [[sample_event ''x'', sample_event ''***email***''], [sample_event ''z'']] \<and> ab_buffer s' = []"
proof -
  let ?cfg = "audit_settings (Some 3) None (Some 2) None"
  let ?s = "al_state (audit_run ?cfg scan_only (map (\<lambda>t. Op_Ingest (sample_event t) sample_trace) [''x'', ''a@b'', ''z'']))"
  let ?s' = "foldl (\<lambda>s op. audit_apply ?cfg scan_only op s) ?s (Op_Close 5 # accept_all 5 [0, 0, 0])"
  have h: "\<forall>d \<in> set [0, 0, 0 :: nat]. \<forall>b. isPiiPipelineNoOp scan_only \<or> \<not> isl (fst (scrub_batch scan_only d b))"
    using no_rules_never_throw [of scan_only] by (simp add: scan_only_def)
  have idle: "ab_drain ?s = None" "length (ab_buffer ?s) \<le> length [0, 0, 0 :: nat]" by code_simp+
  from close_delivers_everything [OF h idle(1) refl idle(2), where now = 5] have "ab_buffer ?s' = []" by (simp add: Let_def)
  moreover have "ab_posts ?s' = [[sample_event ''x'', sample_event ''***email***''], [sample_event ''z'']]"
    "ab_buffer ?s = [sample_event ''x'', sample_event ''a@b'', sample_event ''z'']" by code_simp+
  ultimately show ?thesis using idle by (simp add: Let_def)
qed

section \<open>Where the buffer does otherwise\<close>

text \<open>A batch put back after a failed post is added to a buffer that has filled up meanwhile: the bound is exceeded and
  nothing is reported.\<close>

lemma buffer_exceeds_its_bound:
  "let s = al_state (audit_run sample_audit_cfg no_pii [Op_Ingest (sample_event ''x'') sample_trace, Op_Flush 0,
      Op_Ingest (sample_event ''y'') sample_trace, Op_Posted (Some (plain_error ''down'')) 1]) in
   length (ab_buffer s) = 2 \<and> au_size sample_audit_cfg = 1 \<and> dropped_count s = 0"
  by code_simp

text \<open>A client closed while a drain is in flight: when that post then fails, its batch goes back into the buffer of the
  closed client, neither delivered nor reported, and no timer is left to send it.\<close>

lemma close_strands_a_batch:
  "let l = audit_run sample_audit_cfg no_pii [Op_Ingest (sample_event ''x'') sample_trace, Op_Flush 0, Op_Close 1,
      Op_Posted (Some (plain_error ''down'')) 2]; s = al_state l in
   ab_closed s \<and> \<not> ab_timer s \<and> ab_buffer s = [sample_event ''x''] \<and> ab_drain s = None \<and> al_done l = [] \<and> dropped_count s = 0"
  by code_simp

text \<open>A server that still throttles after the last attempt makes the client throw its batch away, as if the batch were
  malformed.\<close>

definition throttled_net :: "nat \<Rightarrow> jval + api_reply" where
  "throttled_net n = Inr (sample_api_reply 429 ''1'')"

lemma throttled_batch_is_dropped:
  "case ar_result (request_run Runtime_Client sample_api_client (sample_api_env throttled_net) sample_api_call) of
     Inl e \<Rightarrow> permanent e \<and> (let l = audit_run sample_audit_cfg no_pii [Op_Ingest (sample_event ''x'') sample_trace,
         Op_Flush 0, Op_Posted (Some e) 1] in ab_buffer (al_state l) = [] \<and> al_done l = [] \<and> dropped_count (al_state l) = 1)
   | Inr r \<Rightarrow> False"
  by code_simp

text \<open>Every attempt of one post carries the same nonce: a post that the server took before a gateway failed is
  repeated with a nonce the server has seen.\<close>

lemma retried_post_repeats_its_nonce:
  "let run = request_run Runtime_Client sample_api_client (sample_api_env (\<lambda>n. Inr (sample_api_reply (if n = 0 then 504 else 200) ''{}'')))
      (sample_api_call\<lparr>cl_headers := Some (freshnessHeaders ''n1'' 7)\<rparr>) in
   map (\<lambda>e. case e of Ev_Send m u h b \<Rightarrow> jm_get h ''x-agentum-nonce'' | _ \<Rightarrow> None) (sends run) = [Some ''n1'', Some ''n1'']"
  by code_simp

text \<open>The deprecated field is moved to \<^verbatim>\<open>detail\<close> only where there is none: with both, it goes out beside the masked
  detail as it came.\<close>

lemma both_details_leak:
  "fst (ingest_unbuffered scan_only 0 sample_trace (sample_event ''a@b''\<lparr>ai_details := Some (JStr ''a@b'')\<rparr>)) =
     Inr (Some (sample_event ''***email***''\<lparr>ai_details := Some (JStr ''a@b'')\<rparr>))"
  by code_simp

text \<open>A pipeline that fails by its self-check only loses nothing; one that throws otherwise takes the whole batch along
  without a report.\<close>

lemma scrub_fails_otherwise:
  assumes "\<And>draws v tool e d. runPiiPipeline pii draws v tool = (Inl e, d) \<Longrightarrow> \<exists>i m. e = Self_Check_Failed i m"
  shows "\<not> isl (fst (scrub_batch pii draws evs))"
proof (induction evs arbitrary: draws)
  case (Cons ev evs)
  have "\<not> isl (fst (applyPiiPipelineOrDrop pii draws ev))" for draws
    using assms by (fastforce simp: applyPiiPipelineOrDrop_def Let_def split: option.splits prod.splits sum.splits pii_error.splits)
  then obtain kept d where a: "applyPiiPipelineOrDrop pii draws ev = (Inr kept, d)"
    by (metis old.prod.exhaust fst_conv sum.collapse(2) isl_def sum.exhaust)
  show ?case using Cons [of d] a by (auto split: prod.splits sum.splits)
qed simp

lemma started_pipeline_loses_nothing:
  assumes "\<And>draws v tool e d. runPiiPipeline pii draws v tool = (Inl e, d) \<Longrightarrow> \<exists>i m. e = Self_Check_Failed i m"
  shows "al_lost (audit_run cfg pii ops) = []"
proof -
  have "lost_by pii op s = []" for op s
    using scrub_fails_otherwise [of pii] assms by (auto simp: lost_by_def split: audit_op.splits option.splits)
  then show ?thesis by (induction ops rule: rev_induct) (simp_all add: audit_run_def audit_step_def)
qed

lemma throwing_pipeline_loses_the_batch:
  assumes "isl (fst (scrub_batch pii 0 [sample_event ''x'']))"
  shows "let l = audit_run sample_audit_cfg pii [Op_Ingest (sample_event ''x'') sample_trace, Op_Flush 0, Op_Scrubbed 0] in
    al_lost l = [sample_event ''x''] \<and> ab_buffer (al_state l) = [] \<and> ab_reports (al_state l) = []"
proof -
  have "\<not> isPiiPipelineNoOp pii"
  proof
    assume "isPiiPipelineNoOp pii"
    then have "\<not> isl (fst (scrub_batch pii 0 [sample_event ''x'']))"
      by (simp add: isPiiPipelineNoOp_def sample_event_def applyPiiPipelineOrDrop_def runPiiPipeline_def applyTrie_def wret_def Let_def)
    with assms show False by simp
  qed
  moreover obtain e where "fst (scrub_batch pii 0 [sample_event ''x'']) = Inl e" using assms by (auto simp: isl_def)
  moreover define ev where "ev = sample_event ''x''"
  moreover have "stamp_trace sample_trace (remap_details ev) = ev"
    by (simp add: ev_def sample_event_def stamp_trace_def remap_details_def)
  ultimately show ?thesis
    by (simp add: audit_run_def audit_step_def audit_apply_def audit_new_def ingestAuditEvent_def sample_audit_cfg_def
      ensureAuditFlushTimer_def taken_in_def settled_by_def lost_by_def drainAuditBuffer_def drain_turn_def drain_scrubbed_def
      Let_def del: scrub_batch.simps)
qed

end
