(* ===== verification/Agent_Session.thy ===== *)
theory Agent_Session
  imports Audit_Buffer Event_Stream_Properties Tool_System Express_Guard
begin

text \<open>
  \<^verbatim>\<open>session.ts\<close>: the session of an agent. The token's expiry is read from the token; one refresh at a time keeps it
  fresh; closing ends the session on the server. \<open>requestApproval\<close> asks for a human's decision and polls for it: its
  loop reads the clock and one reply per turn, and may not return if the clock stands still, so it is a partial
  function. An approval is recorded with the evaluator of \<open>Tool_Client\<close>.
\<close>

section \<open>The advice of a decision\<close>

fun timeout_pairs :: "string list \<Rightarrow> int option" where
  "timeout_pairs [] = None"
| "timeout_pairs (p # ps) =
     (let pair = js_trim p in
      case (if pair = [] then None else js_indexOf pair ''='') of
        None \<Rightarrow> timeout_pairs ps
      | Some eq \<Rightarrow>
          let key = js_trim (take eq pair); val = js_trim (drop (eq + 1) pair) in
          if key = ''timeout'' \<and> val \<noteq> [] \<and> list_all is_digit val \<and> 0 < digits_val val
          then Some (int (digits_val val) * 1000) else timeout_pairs ps)"

fun timeout_advice :: "string list \<Rightarrow> int option" where
  "timeout_advice [] = None"
| "timeout_advice (raw # rest) =
     (if js_startsWith raw ''require_hitl:''
      then case timeout_pairs (js_split CHR '','' (drop (length ''require_hitl:'') raw)) of
          Some ms \<Rightarrow> Some ms | None \<Rightarrow> timeout_advice rest
      else timeout_advice rest)"

definition parseRequireHitlTimeoutMs :: "string list option \<Rightarrow> int option" where
  "parseRequireHitlTimeoutMs advice = (case advice of None \<Rightarrow> None | Some a \<Rightarrow> timeout_advice a)"

section \<open>The token's expiry\<close>

text \<open>A \<^verbatim>\<open>Date\<close> is its time in milliseconds, \<^const>\<open>None\<close> for an invalid one.\<close>

definition max_date :: int where "max_date = 8640000000000000"

definition js_date :: "rat \<Rightarrow> int option" where
  "js_date x = (let t = (if 0 \<le> x then \<lfloor>x\<rfloor> else \<lceil>x\<rceil>) in if \<bar>t\<bar> \<le> max_date then Some t else None)"

definition from_url_char :: "char \<Rightarrow> char" where
  "from_url_char c = (if c = CHR ''-'' then CHR ''+'' else if c = CHR ''_'' then CHR ''/'' else c)"

definition decodeJwtExpiry :: "string \<Rightarrow> int option" where
  "decodeJwtExpiry jwt =
     (let parts = js_split CHR ''.'' jwt in
      if length parts < 2 then Some max_date
      else case Option.bind (base64ToBytes (map from_url_char (parts ! 1))) (\<lambda>bs. json_parse (map (\<lambda>b. char_of (unat b)) bs)) of
        None \<Rightarrow> Some max_date
      | Some payload \<Rightarrow> (case j_prop payload ''exp'' of
          None \<Rightarrow> Some max_date
        | Some (JNum t) \<Rightarrow> (case js_number t of Some n \<Rightarrow> js_date (n * 1000) | None \<Rightarrow> None)
        | Some _ \<Rightarrow> Some max_date))"

section \<open>The session\<close>

record session =
  ss_agentId :: string
  ss_sessionId :: string
  ss_jwt :: string
  ss_expiresAt :: "int option"
  ss_refreshThresholdMs :: int
  ss_hasRefreshFn :: bool
  ss_refreshing :: bool
  ss_token :: "string option"

definition session_new :: "string \<Rightarrow> string \<Rightarrow> string \<Rightarrow> bool \<Rightarrow> int option \<Rightarrow> string option \<Rightarrow> session" where
  "session_new agentId sessionId jwt hasRefreshFn threshold token =
     \<lparr>ss_agentId = agentId, ss_sessionId = sessionId, ss_jwt = jwt, ss_expiresAt = decodeJwtExpiry jwt,
      ss_refreshThresholdMs = (case threshold of Some t \<Rightarrow> t | None \<Rightarrow> 60000), ss_hasRefreshFn = hasRefreshFn,
      ss_refreshing = False, ss_token = token\<rparr>"

definition isExpired :: "session \<Rightarrow> int \<Rightarrow> bool" where
  "isExpired s now \<longleftrightarrow> (case ss_expiresAt s of Some t \<Rightarrow> t \<le> now | None \<Rightarrow> False)"

definition isNearExpiry :: "session \<Rightarrow> int \<Rightarrow> bool" where
  "isNearExpiry s now \<longleftrightarrow> (case ss_expiresAt s of Some t \<Rightarrow> t - ss_refreshThresholdMs s \<le> now | None \<Rightarrow> False)"

definition adopt :: "string \<Rightarrow> string \<Rightarrow> session \<Rightarrow> session" where
  "adopt jwt session_id s = s\<lparr>ss_jwt := jwt, ss_sessionId := session_id, ss_expiresAt := decodeJwtExpiry jwt\<rparr>"

text \<open>\<open>refresh\<close> up to its await: whether it rejects, and whether it calls the callback (a call under way is
  joined); then its end. \<open>client_refreshed\<close> is the callback the session installs in its client for a 401; the client
  keeps the token it returns.\<close>

datatype refresh_start = No_Callback | Joined | Called

definition refresh_begin :: "session \<Rightarrow> refresh_start \<times> session" where
  "refresh_begin s = (if \<not> ss_hasRefreshFn s then (No_Callback, s)
     else if ss_refreshing s then (Joined, s) else (Called, s\<lparr>ss_refreshing := True\<rparr>))"

definition refresh_end :: "(string \<times> string) option \<Rightarrow> session \<Rightarrow> session" where
  "refresh_end result s = (case result of
     Some (jwt, sid) \<Rightarrow> (adopt jwt sid s)\<lparr>ss_token := Some jwt, ss_refreshing := False\<rparr>
   | None \<Rightarrow> s\<lparr>ss_refreshing := False\<rparr>)"

definition client_refreshed :: "string \<Rightarrow> string \<Rightarrow> session \<Rightarrow> session" where
  "client_refreshed jwt session_id s = (adopt jwt session_id s)\<lparr>ss_token := Some jwt\<rparr>"

definition needs_refresh :: "session \<Rightarrow> int \<Rightarrow> bool" where
  "needs_refresh s now \<longleftrightarrow> ss_hasRefreshFn s \<and> isNearExpiry s now"

text \<open>The checks, given how \<open>_ensureFresh\<close> ended and what the client answers (an error propagates).\<close>

datatype session_outcome = Outcome_Allow | Outcome_Deny string

definition session_isAllowed :: "bool \<Rightarrow> 'e + bool \<Rightarrow> 'e + bool" where
  "session_isAllowed fresh verdict_of = (if \<not> fresh then Inr False else verdict_of)"

definition checkPolicy :: "bool \<Rightarrow> 'e + bool \<Rightarrow> 'e + session_outcome" where
  "checkPolicy fresh verdict_of = (if \<not> fresh then Inr (Outcome_Deny ''refresh_failed'')
     else map_sum id (\<lambda>allowed. if allowed then Outcome_Allow else Outcome_Deny ''policy_deny'') verdict_of)"

text \<open>\<open>close\<close> clears the client's token whether or not the server ended the session, and only then closes the client.\<close>

definition session_close :: "audit_config \<Rightarrow> pii_state \<Rightarrow> bool \<Rightarrow> int \<Rightarrow> session \<Rightarrow> audit_state \<Rightarrow> session \<times> audit_state" where
  "session_close cfg pii ownsClient now s a =
     (s\<lparr>ss_token := None\<rparr>, if ownsClient then close_client cfg pii now a else a)"

section \<open>Asking for approval\<close>

record approval_options =
  ro_action :: string
  ro_resource :: string
  ro_context :: "(string \<times> jval) list option"
  ro_reason :: "string option"
  ro_timeout :: "int option"
  ro_requiredApprovals :: "int option"
  ro_pollIntervalMs :: "int option"
  ro_toolName :: "string option"
  ro_toolArgs :: "jval option"
  ro_advice :: "string list option"

definition approval_timeout :: "approval_options \<Rightarrow> int" where
  "approval_timeout opts = (case ro_timeout opts of Some t \<Rightarrow> t | None \<Rightarrow> 60000)"

definition poll_interval :: "approval_options \<Rightarrow> int" where
  "poll_interval opts = max 250 (min (case ro_pollIntervalMs opts of Some p \<Rightarrow> p | None \<Rightarrow> 1000) 10000)"

text \<open>\<^verbatim>\<open>{ ...context, arguments: toolArgs }\<close>\<close>

definition approval_context :: "approval_options \<Rightarrow> jval option" where
  "approval_context opts = (case ro_toolArgs opts of
     Some args \<Rightarrow> Some (JObj (jm_set ''arguments'' args (case ro_context opts of Some c \<Rightarrow> c | None \<Rightarrow> [])))
   | None \<Rightarrow> map_option JObj (ro_context opts))"

definition approval_body :: "approval_options \<Rightarrow> jval" where
  "approval_body opts = JObj
     ([(''action'', JStr (ro_action opts)), (''resource'', JStr (ro_resource opts)),
       (''timeout_seconds'', JNum (int_text (max 10 (\<lceil>of_int (approval_timeout opts) / 1000 :: rat\<rceil> + 5)))),
       (''required_approvals'', JNum (int_text (case ro_requiredApprovals opts of Some n \<Rightarrow> n | None \<Rightarrow> 1)))] @
      (case approval_context opts of Some c \<Rightarrow> [(''context'', c)] | None \<Rightarrow> []) @
      (case ro_reason opts of Some r \<Rightarrow> [(''reason'', JStr r)] | None \<Rightarrow> []))"

record hitl_reply =
  hy_status :: string
  hy_decided_by :: "string list"
  hy_reason :: "string option"

text \<open>One turn of the loop: the clock at its test, the caller's abort (with the message of its reason, if that is an
  error), the reply, and the clock after it.\<close>

record poll_turn =
  pt_now :: int
  pt_aborted :: "string option option"
  pt_reply :: "api_error + hitl_reply"
  pt_later :: int

datatype approval_end =
  Approved "string list" "string option"
| Denied "string list" "string option"
| Timed_Out
| Aborted string
| Failed api_error

partial_function (option) approval_poll :: "(nat \<Rightarrow> poll_turn) \<Rightarrow> int \<Rightarrow> int \<Rightarrow> nat \<Rightarrow> (approval_end \<times> int list) option" where
  "approval_poll turns deadline pollMs i =
     (if deadline \<le> pt_now (turns i) then Some (Timed_Out, [])
      else case pt_aborted (turns i) of
        Some reason \<Rightarrow> Some (Aborted (case reason of Some m \<Rightarrow> m | None \<Rightarrow> ''requestApproval aborted by caller''), [])
      | None \<Rightarrow> (case pt_reply (turns i) of
          Inl e \<Rightarrow> Some (Failed e, [])
        | Inr p \<Rightarrow>
            if hy_status p = ''approved'' then Some (Approved (hy_decided_by p) (hy_reason p), [])
            else if hy_status p = ''denied'' then Some (Denied (hy_decided_by p) (hy_reason p), [])
            else if hy_status p = ''timeout'' then Some (Timed_Out, [])
            else if deadline - pt_later (turns i) \<le> 0 then Some (Timed_Out, [])
            else Option.bind (approval_poll turns deadline pollMs (i + 1))
              (\<lambda>(r, ws). Some (r, min pollMs (deadline - pt_later (turns i)) # ws))))"

text \<open>What a call does: the body it posts, how it ends, its waits, and the grant it records.\<close>

record approval_run =
  av_body :: "jval option"
  av_end :: approval_end
  av_sleeps :: "int list"
  av_grant :: "client_op option"

definition recorded_grant :: "string \<Rightarrow> approval_options \<Rightarrow> string \<Rightarrow> int \<Rightarrow> client_op option" where
  "recorded_grant agentId opts requestId now = (case truthy_text (ro_toolName opts) of
     None \<Rightarrow> None
   | Some tool \<Rightarrow> Some (Co_RecordGrant agentId tool
       (case parseRequireHitlTimeoutMs (ro_advice opts) of Some ms \<Rightarrow> ms | None \<Rightarrow> 300000) (Some requestId)
       (case ro_toolArgs opts of Some args \<Rightarrow> args | None \<Rightarrow> JUndefined) now))"

definition is_approved :: "approval_end \<Rightarrow> bool" where
  "is_approved e \<longleftrightarrow> (case e of Approved _ _ \<Rightarrow> True | _ \<Rightarrow> False)"

text \<open>\<open>created\<close> is the answer to the post (the request's id), \<open>start\<close> the clock after it, \<open>later\<close> the clock when a
  grant is recorded.\<close>

definition requestApproval :: "string \<Rightarrow> approval_options \<Rightarrow> api_error + string \<Rightarrow> int \<Rightarrow> (nat \<Rightarrow> poll_turn) \<Rightarrow> int \<Rightarrow>
    approval_run option" where
  "requestApproval agentId opts created start turns later =
     (if ro_action opts = [] \<or> ro_resource opts = [] then
        Some \<lparr>av_body = None, av_end = Failed (plain_error ''requestApproval: action and resource are required''),
          av_sleeps = [], av_grant = None\<rparr>
      else case created of
        Inl e \<Rightarrow> Some \<lparr>av_body = Some (approval_body opts), av_end = Failed e, av_sleeps = [], av_grant = None\<rparr>
      | Inr requestId \<Rightarrow>
          map_option (\<lambda>(r, ws). \<lparr>av_body = Some (approval_body opts), av_end = r, av_sleeps = ws,
            av_grant = (if is_approved r then recorded_grant agentId opts requestId later else None)\<rparr>)
          (approval_poll turns (start + approval_timeout opts) (poll_interval opts) 0))"

section \<open>The poll ends\<close>

text \<open>The clock goes on between two readings, and a wait takes its time.\<close>

definition timely :: "(nat \<Rightarrow> poll_turn) \<Rightarrow> int \<Rightarrow> int \<Rightarrow> bool" where
  "timely turns deadline pollMs \<longleftrightarrow> (\<forall>i. pt_now (turns i) \<le> pt_later (turns i) \<and>
     pt_later (turns i) + min pollMs (deadline - pt_later (turns i)) \<le> pt_now (turns (i + 1)))"

lemma poll_ends:
  assumes "timely turns deadline pollMs" and "0 < pollMs"
  shows "nat (deadline - pt_now (turns i)) \<le> n \<Longrightarrow> \<exists>r ws. approval_poll turns deadline pollMs i = Some (r, ws) \<and>
    sum_list ws \<le> max 0 (deadline - pt_now (turns i)) \<and>
    (int (length ws) - 1) * pollMs \<le> max 0 (deadline - pt_now (turns i))"
proof (induction n arbitrary: i rule: less_induct)
  case (less n)
  let ?t = "turns i"
  show ?case
  proof (cases "pt_now ?t < deadline \<and> pt_aborted ?t = None \<and>
      (\<exists>p. pt_reply ?t = Inr p \<and> hy_status p \<notin> {''approved'', ''denied'', ''timeout''}) \<and> pt_later ?t < deadline")
    case False
    then have "\<exists>r. approval_poll turns deadline pollMs i = Some (r, [])"
      by (subst approval_poll.simps) (auto split: option.splits sum.splits)
    then obtain r where r: "approval_poll turns deadline pollMs i = Some (r, [])" by blast
    show ?thesis using r assms(2) by (intro exI [of _ r] exI [of _ "[]"]) auto
  next
    case True
    define w where "w = min pollMs (deadline - pt_later ?t)"
    have step: "approval_poll turns deadline pollMs i =
        Option.bind (approval_poll turns deadline pollMs (i + 1)) (\<lambda>(r, ws). Some (r, w # ws))"
      using True by (subst approval_poll.simps) (auto simp: w_def split: option.splits sum.splits)
    have time: "pt_now ?t \<le> pt_later ?t" "pt_later ?t + w \<le> pt_now (turns (i + 1))" "0 < w"
      using assms True by (auto simp: timely_def w_def)
    then have "nat (deadline - pt_now (turns (i + 1))) < n" using True less.prems by auto
    from less.IH [OF this order_refl] obtain r ws where
      ws: "approval_poll turns deadline pollMs (i + 1) = Some (r, ws)"
        "sum_list ws \<le> max 0 (deadline - pt_now (turns (i + 1)))"
        "(int (length ws) - 1) * pollMs \<le> max 0 (deadline - pt_now (turns (i + 1)))" by blast
    have bound: "(int (length (w # ws)) - 1) * pollMs \<le> max 0 (deadline - pt_now ?t) \<and>
        sum_list (w # ws) \<le> max 0 (deadline - pt_now ?t)"
    proof (cases "pt_now (turns (i + 1)) < deadline")
      case True
      then have "w = pollMs" using time(2) by (auto simp: w_def)
      then show ?thesis using ws(2,3) time True by (simp add: algebra_simps)
    next
      case False
      then have "ws = []" using ws(1) by (subst (asm) approval_poll.simps) auto
      then show ?thesis using time \<open>pt_now ?t < deadline \<and> _\<close> by (simp add: w_def)
    qed
    have "approval_poll turns deadline pollMs i = Some (r, w # ws)" using ws(1) step by simp
    then show ?thesis using bound by blast
  qed
qed

text \<open>C39: as long as the clock goes on, asking for approval comes to an end; it waits no longer than the caller's
  timeout in all, and polls at most once per interval, and once more.\<close>

theorem approval_request_ends:
  assumes "timely turns (start + approval_timeout opts) (poll_interval opts)" and "start \<le> pt_now (turns 0)"
  shows "\<exists>run. requestApproval agentId opts created start turns later = Some run \<and>
    sum_list (av_sleeps run) \<le> max 0 (approval_timeout opts) \<and>
    (int (length (av_sleeps run)) - 1) * 250 \<le> max 0 (approval_timeout opts)"
proof -
  let ?d = "start + approval_timeout opts"
  have p: "250 \<le> poll_interval opts" by (simp add: poll_interval_def)
  then obtain r ws where poll: "approval_poll turns ?d (poll_interval opts) 0 = Some (r, ws)"
      and le: "sum_list ws \<le> max 0 (?d - pt_now (turns 0))" "(int (length ws) - 1) * poll_interval opts \<le> max 0 (?d - pt_now (turns 0))"
    using poll_ends [OF assms(1), of 0 "nat (?d - pt_now (turns 0))"] by auto
  have "(int (length ws) - 1) * 250 \<le> max 0 (approval_timeout opts)"
  proof (cases ws)
    case (Cons w ws')
    then have "(int (length ws) - 1) * 250 \<le> (int (length ws) - 1) * poll_interval opts" using p by (intro mult_left_mono) auto
    then show ?thesis using le(2) assms(2) by linarith
  qed simp
  moreover have "sum_list ws \<le> max 0 (approval_timeout opts)" using le(1) assms(2) by linarith
  ultimately show ?thesis using poll by (auto simp: requestApproval_def split: sum.splits)
qed

definition sample_turns :: "nat \<Rightarrow> poll_turn" where
  "sample_turns i = \<lparr>pt_now = int i * 1000, pt_aborted = None,
     pt_reply = Inr \<lparr>hy_status = (if i < 2 then ''pending'' else ''approved''), hy_decided_by = [''ann''], hy_reason = None\<rparr>,
     pt_later = int i * 1000\<rparr>"

definition sample_approval :: approval_options where
  "sample_approval = \<lparr>ro_action = ''http.post'', ro_resource = ''api'', ro_context = None, ro_reason = None, ro_timeout = Some 5000,
     ro_requiredApprovals = None, ro_pollIntervalMs = None, ro_toolName = Some ''mail'',
     ro_toolArgs = Some (JObj [(''to'', JStr ''bob'')]), ro_advice = Some [''require_hitl:timeout=60'']\<rparr>"

lemma sample_timely: "timely sample_turns 5000 1000"
  by (auto simp: timely_def sample_turns_def)

theorem approval_request_ends_witness:
  "\<exists>run. requestApproval ''a1'' sample_approval (Inr ''r1'') 0 sample_turns 2001 = Some run \<and> sum_list (av_sleeps run) \<le> 5000"
  using approval_request_ends [of sample_turns 0 sample_approval "''a1''" "Inr ''r1''" 2001] sample_timely
  by (auto simp: sample_approval_def approval_timeout_def poll_interval_def sample_turns_def)

section \<open>What an approval rests on\<close>

definition undecided :: "poll_turn \<Rightarrow> bool" where
  "undecided t \<longleftrightarrow> (\<exists>p. pt_reply t = Inr p \<and> hy_status p \<notin> {''approved'', ''denied'', ''timeout''})"

definition approving :: "poll_turn \<Rightarrow> string list \<Rightarrow> string option \<Rightarrow> bool" where
  "approving t who why \<longleftrightarrow> (\<exists>p. pt_reply t = Inr p \<and> hy_status p = ''approved'' \<and> hy_decided_by p = who \<and> hy_reason p = why)"

lemma poll_turn_cases:
  assumes "approval_poll turns deadline pollMs i = Some (Approved who why, ws)"
  shows "pt_now (turns i) < deadline \<and> pt_aborted (turns i) = None \<and>
    (if ws = [] then approving (turns i) who why
     else undecided (turns i) \<and> approval_poll turns deadline pollMs (i + 1) = Some (Approved who why, tl ws))"
  using assms
  by (subst (asm) approval_poll.simps)
    (auto simp: undecided_def approving_def split: if_splits option.splits sum.splits bind_splits)

lemma poll_approved:
  assumes "approval_poll turns deadline pollMs i = Some (Approved who why, ws)"
  shows "pt_now (turns (i + length ws)) < deadline \<and> approving (turns (i + length ws)) who why \<and>
    (\<forall>k < length ws. undecided (turns (i + k)))"
  using assms
proof (induction ws arbitrary: i)
  case Nil
  then show ?case using poll_turn_cases [OF Nil] by simp
next
  case (Cons w ws)
  have t: "undecided (turns i)" "approval_poll turns deadline pollMs (i + 1) = Some (Approved who why, ws)"
    using poll_turn_cases [OF Cons.prems] by simp_all
  have "undecided (turns (i + k))" if "k < length (w # ws)" for k
    using that t(1) Cons.IH [OF t(2)] by (cases k) auto
  then show ?case using Cons.IH [OF t(2)] by simp
qed

text \<open>An approval is returned only where a reply that arrived before the deadline said so, after replies that had
  left the request open; the grant that is recorded names this agent, the caller's tool and its arguments, and
  nothing is recorded without an approval.\<close>

theorem approval_is_backed:
  assumes "requestApproval agentId opts created start turns later = Some run"
  shows "case av_end run of
      Approved who why \<Rightarrow> \<exists>requestId k. created = Inr requestId \<and> pt_now (turns k) < start + approval_timeout opts \<and>
        approving (turns k) who why \<and> (\<forall>j<k. undecided (turns j)) \<and> av_grant run = recorded_grant agentId opts requestId later
    | _ \<Rightarrow> av_grant run = None"
  using assms poll_approved [of turns "start + approval_timeout opts" "poll_interval opts" 0]
  by (fastforce simp: requestApproval_def is_approved_def split: if_splits sum.splits approval_end.splits)

lemma sample_poll: "approval_poll sample_turns 5000 1000 0 = Some (Approved [''ann''] None, [1000, 1000])"
proof -
  have "approval_poll sample_turns 5000 1000 2 = Some (Approved [''ann''] None, [])"
    by (subst approval_poll.simps) (simp add: sample_turns_def)
  then have "approval_poll sample_turns 5000 1000 1 = Some (Approved [''ann''] None, [1000])"
    by (subst approval_poll.simps) (simp add: sample_turns_def numeral_2_eq_2)
  then show ?thesis by (subst approval_poll.simps) (simp add: sample_turns_def)
qed

lemma sample_approval_run:
  "requestApproval ''a1'' sample_approval (Inr ''r1'') 0 sample_turns 2001 =
     Some \<lparr>av_body = Some (approval_body sample_approval), av_end = Approved [''ann''] None, av_sleeps = [1000, 1000],
       av_grant = Some (Co_RecordGrant ''a1'' ''mail'' 60000 (Some ''r1'') (JObj [(''to'', JStr ''bob'')]) 2001)\<rparr>"
proof -
  have "0 + approval_timeout sample_approval = 5000" "poll_interval sample_approval = 1000" by code_simp+
  moreover have "recorded_grant ''a1'' sample_approval ''r1'' 2001 =
      Some (Co_RecordGrant ''a1'' ''mail'' 60000 (Some ''r1'') (JObj [(''to'', JStr ''bob'')]) 2001)" by code_simp
  moreover have "ro_action sample_approval \<noteq> []" "ro_resource sample_approval \<noteq> []" by (simp_all add: sample_approval_def)
  ultimately show ?thesis using sample_poll by (simp add: requestApproval_def is_approved_def)
qed

theorem approval_is_backed_witness:
  "\<exists>k. pt_now (sample_turns k) < 5000 \<and> approving (sample_turns k) [''ann''] None \<and> (\<forall>j<k. undecided (sample_turns j))"
  using approval_is_backed [OF sample_approval_run] by (auto simp: sample_approval_def approval_timeout_def)

section \<open>From the approval to the call\<close>

lemma put_then_find:
  assumes "now < later + ttl"
  shows "fst (ag_find (ag_put g a t h ttl r later) a t h now) = Some \<lparr>ge_expiresAt = later + ttl, ge_requestId = r\<rparr>"
  using assms by (simp add: ag_find_def ag_put_def ag_put_key_def ag_find_Some Let_def jm_get_set)

lemma put_not_empty: "ag_size (ag_put g a t h ttl r later) > 0"
proof -
  have "ag_entries (ag_put g a t h ttl r later) \<noteq> []"
    unfolding ag_put_def ag_put_key_def Let_def by (auto dest: arg_cong [where f = "\<lambda>m. map_of m (ag_key a t h)"] simp: jm_get_set)
  then show ?thesis by (simp add: ag_size_def)
qed

text \<open>Events that leave the grants alone and do not suspend the agent: changes of the policy, activations, suspensions of
  other agents.\<close>

definition harmless :: "string \<Rightarrow> client_op \<Rightarrow> bool" where
  "harmless agentId op \<longleftrightarrow> (case op of
     Co_InvalidatePolicy a \<Rightarrow> True | Co_InvalidateCapability sc \<Rightarrow> True | Co_Activate a \<Rightarrow> True | Co_Suspend a \<Rightarrow> a \<noteq> agentId | _ \<Rightarrow> False)"

lemma harmless_run:
  "list_all (harmless (tc_agentId c)) ops \<Longrightarrow>
    tc_approvalGrants (foldl (client_step env) c ops) = tc_approvalGrants c \<and> tc_agentId (foldl (client_step env) c ops) = tc_agentId c \<and>
    (\<not> isSuspended c (tc_agentId c) \<longrightarrow> \<not> isSuspended (foldl (client_step env) c ops) (tc_agentId c))"
proof (induction ops arbitrary: c)
  case (Cons op ops)
  have "tc_approvalGrants (client_step env c op) = tc_approvalGrants c \<and> tc_agentId (client_step env c op) = tc_agentId c \<and>
      (\<not> isSuspended c (tc_agentId c) \<longrightarrow> \<not> isSuspended (client_step env c op) (tc_agentId c))"
    using Cons.prems by (cases op) (auto simp: harmless_def invalidatePolicyCache_def invalidateCapabilityCache_def drop_policy_state_def
      markSuspended_def clearSuspended_def isSuspended_def split: option.splits)
  then show ?case using Cons.IH [of "client_step env c op"] Cons.prems by simp
qed simp

text \<open>C40: when the approval of a tool call has been returned and its grant recorded, then that call, evaluated before the
  grant's time is over, goes through without being asked again, also where the policy changes in the meantime, once or
  often, before the call or while its arguments are hashed. The agent is not suspended, the arguments can be hashed, and the approval's
  window is still positive as a 32-bit integer. (A full invalidation, a suspension of the agent or the eviction of the grant by
  others takes it away, and a window that turns negative in 32 bits records none.)\<close>

theorem approved_call_goes_through:
  assumes "requestApproval (tc_agentId c) opts created start turns later = Some run" and "is_approved (av_end run)"
    and "ro_toolName opts = Some (tq_toolName q)" and "tq_toolName q \<noteq> []"
    and "tq_arguments q = (case ro_toolArgs opts of Some args \<Rightarrow> args | None \<Rightarrow> JUndefined)"
    and "hashArgsCanonical (ev_crypto env) (tq_arguments q) \<noteq> None"
    and "ttl = (case parseRequireHitlTimeoutMs (ro_advice opts) of Some ms \<Rightarrow> ms | None \<Rightarrow> 300000)"
    and "now < later + max 0 (to_int32 ttl)" and "0 < to_int32 ttl" and "\<not> isSuspended c (tc_agentId c)"
    and "list_all (harmless (tc_agentId c)) (before @ meanwhile)"
  shows "\<exists>op. av_grant run = Some op \<and>
    (let c1 = foldl (client_step env) (client_step env c op) before; c2 = foldl (client_step env) c1 meanwhile in
     eval_start c1 (ev_ctx env) q = Waiting (Wait_Hash q) \<and>
     (\<exists>e audits c3. eval_resume env c2 (Wait_Hash q) In_Digest now = (Finished e audits, c3) \<and> te_decision e = Dec_Allow))"
proof -
  obtain requestId where grant: "av_grant run = recorded_grant (tc_agentId c) opts requestId later"
    using assms(1,2) approval_is_backed [OF assms(1)] by (auto simp: is_approved_def split: approval_end.splits)
  obtain h where h: "hashArgsCanonical (ev_crypto env) (tq_arguments q) = Some h" using assms(6) by auto
  let ?op = "Co_RecordGrant (tc_agentId c) (tq_toolName q) ttl (Some requestId) (tq_arguments q) later"
  let ?g = "ag_put (tc_approvalGrants c) (tc_agentId c) (tq_toolName q) h (to_int32 ttl) (Some requestId) later"
  have op: "av_grant run = Some ?op"
    using assms(3-5,7) by (simp add: grant recorded_grant_def truthy_text_def)
  have c': "client_step env c ?op = c\<lparr>tc_approvalGrants := ?g\<rparr>"
    using assms(4,9) h by (simp add: recordApprovalGrant_def Let_def)
  define c0 where "c0 = client_step env c ?op"
  have c0: "tc_approvalGrants c0 = ?g" "tc_agentId c0 = tc_agentId c" "\<not> isSuspended c0 (tc_agentId c)"
    unfolding c0_def c' using assms(10) by (simp_all add: isSuspended_def)
  define c1 where "c1 = foldl (client_step env) c0 before"
  define c2 where "c2 = foldl (client_step env) c1 meanwhile"
  have c1: "tc_approvalGrants c1 = ?g" "tc_agentId c1 = tc_agentId c" "\<not> isSuspended c1 (tc_agentId c)"
    using harmless_run [of c0 before env] assms(11) c0 by (simp_all add: c1_def)
  have c2: "tc_approvalGrants c2 = ?g" "tc_agentId c2 = tc_agentId c"
    using harmless_run [of c1 meanwhile env] assms(11) c1 by (simp_all add: c2_def)
  have found: "fst (ag_find ?g (tc_agentId c) (tq_toolName q) h now) =
      Some \<lparr>ge_expiresAt = later + to_int32 ttl, ge_requestId = Some requestId\<rparr>"
    using assms(8,9) by (intro put_then_find) simp
  have "eval_start c1 (ev_ctx env) q = Waiting (Wait_Hash q)"
    using c1 put_not_empty by (simp add: eval_start_def)
  moreover have "\<exists>e audits c3. eval_resume env c2 (Wait_Hash q) In_Digest now = (Finished e audits, c3) \<and> te_decision e = Dec_Allow"
    using found h c2 by (cases "ag_find ?g (tc_agentId c) (tq_toolName q) h now")
      (simp add: eval_resume_def eval_grant_def Let_def bare_evaluation_def)
  ultimately show ?thesis using op
    by (simp only: Let_def c0_def [symmetric] c1_def [symmetric] c2_def [symmetric]) (auto simp del: client_step.simps simp: c0_def [symmetric] c1_def [symmetric] c2_def [symmetric])
qed

definition sample_mail :: tool_call where
  "sample_mail = \<lparr>tq_toolName = ''mail'', tq_arguments = JObj [(''to'', JStr ''bob'')],
     tq_mcpServerUrl = None, tq_mcpServerName = None\<rparr>"

theorem approved_call_goes_through_witness:
  "\<exists>op. (let c1 = foldl (client_step sample_env) (client_step sample_env sample_client op) [Co_InvalidatePolicy None, Co_Suspend ''a2''];
      c2 = foldl (client_step sample_env) c1 [Co_InvalidateCapability None] in
     eval_start c1 (ev_ctx sample_env) sample_mail = Waiting (Wait_Hash sample_mail) \<and>
     (\<exists>e audits c3. eval_resume sample_env c2 (Wait_Hash sample_mail) In_Digest 5000 = (Finished e audits, c3) \<and> te_decision e = Dec_Allow))"
proof -
  have h: "hashArgsCanonical (ev_crypto sample_env) (tq_arguments sample_mail) \<noteq> None"
    by (simp add: hashArgsCanonical_def sample_env_def Let_def)
  have a: "tc_agentId sample_client = ''a1''" "\<not> isSuspended sample_client (tc_agentId sample_client)"
    by (simp_all add: sample_client_def isSuspended_def)
  have t: "60000 = (case parseRequireHitlTimeoutMs (ro_advice sample_approval) of Some ms \<Rightarrow> ms | None \<Rightarrow> 300000)" by code_simp
  have n: "(5000 :: int) < 2001 + max 0 (to_int32 60000)" "0 < to_int32 60000" by (simp_all add: to_int32_def)
  note run = sample_approval_run [folded a(1)]
  have ops: "list_all (harmless (tc_agentId sample_client)) ([Co_InvalidatePolicy None, Co_Suspend ''a2''] @ [Co_InvalidateCapability None])"
    by (simp add: harmless_def a)
  have q: "ro_toolName sample_approval = Some (tq_toolName sample_mail)" "tq_toolName sample_mail \<noteq> []"
    "tq_arguments sample_mail = (case ro_toolArgs sample_approval of Some args \<Rightarrow> args | None \<Rightarrow> JUndefined)"
    by (simp_all add: sample_mail_def sample_approval_def)
  from approved_call_goes_through [OF run _ q h t n a(2) ops] show ?thesis
    by (simp only: is_approved_def approval_run.simps approval_end.case simp_thms) blast
qed

section \<open>Where the session does otherwise\<close>

text \<open>A timeout that does not parse still gives a grant, of five minutes; the guards read the same text as a timeout.\<close>

lemma unparseable_timeout_still_grants:
  "recorded_grant ''a1'' (sample_approval\<lparr>ro_advice := Some [''require_hitl:timeout=60s'']\<rparr>) ''r1'' 0 =
     Some (Co_RecordGrant ''a1'' ''mail'' 300000 (Some ''r1'') (JObj [(''to'', JStr ''bob'')]) 0) \<and>
   map_option ha_timeoutSeconds (parseHitlAdvice (Some [''require_hitl:timeout=60s''])) = Some (Some 60)"
  by code_simp

text \<open>A timeout beyond some 24 days wraps to a negative number of milliseconds, and no grant is recorded.\<close>

lemma long_timeout_records_nothing:
  "client_step env c (Co_RecordGrant (tc_agentId c) t (2147484 * 1000) r args now) = c"
  by (simp add: recordApprovalGrant_def to_int32_def)

text \<open>A refresh that ends after the session was closed authenticates the client again.\<close>

lemma refresh_outlives_close:
  "ss_token (refresh_end (Some (''new'', ''s2'')) (fst (session_close cfg pii owns now (snd (refresh_begin s)) a))) = Some ''new''"
  by (simp add: refresh_end_def adopt_def)

text \<open>The token is cleared before the audit buffer is drained: the last batches go out without it.\<close>

lemma last_batches_carry_no_token:
  assumes "jm_get (ac_defaultHeaders c) ''Authorization'' = None"
  shows "jm_get (buildHeaders c (ss_token (fst (session_close cfg pii True now s a))) (Some (freshnessHeaders nonce t)) trace) ''Authorization'' = None"
  using assms by (simp add: session_close_def buildHeaders_def freshnessHeaders_def truthy_text_def Let_def jm_get_set split: option.split)

section \<open>The expiry of a token\<close>

definition to_url_char :: "char \<Rightarrow> char" where
  "to_url_char c = (if c = CHR ''+'' then CHR ''-'' else if c = CHR ''/'' then CHR ''_'' else c)"

definition base64url :: "byte list \<Rightarrow> string" where
  "base64url bs = map to_url_char (filter (\<lambda>c. c \<noteq> CHR ''='') (bytesToBase64 bs))"

lemma base64url_alt: "base64url bs = map (to_url_char \<circ> b64_char) (b64_values bs)"
proof -
  have "filter (\<lambda>c. c \<noteq> CHR ''='') (map b64_char (b64_values bs)) = map b64_char (b64_values bs)"
    using b64_char_plain b64_values_small by (auto simp: filter_id_conv)
  then show ?thesis by (simp add: base64url_def bytesToBase64_alt b64_pad_def)
qed

lemma url_char_back: "v < 64 \<Longrightarrow> from_url_char (to_url_char (b64_char v)) = b64_char v"
proof -
  assume v: "v < 64"
  have "b64_value (CHR ''-'') = None" "b64_value (CHR ''_'') = None" by (simp_all add: b64_value_def)
  then have "b64_char v \<noteq> CHR ''-''" "b64_char v \<noteq> CHR ''_''" using b64_value_char [OF v] by auto
  then show ?thesis by (auto simp: from_url_char_def to_url_char_def)
qed

lemma base64url_decodes: "base64ToBytes (map from_url_char (base64url bs)) = Some bs"
proof -
  let ?m = "map b64_char (b64_values bs)"
  have m: "map from_url_char (base64url bs) = ?m"
    using url_char_back b64_values_small by (auto simp: base64url_alt)
  have plain: "c \<noteq> CHR ''=''" "of_char c \<notin> {9, 10, 12, 13, 32 :: nat}" if "c \<in> set ?m" for c
    using that b64_char_plain b64_values_small by auto
  have f: "filter (\<lambda>c. of_char c \<notin> {9, 10, 12, 13, 32 :: nat}) ?m = ?m"
    using plain(2) by (auto simp: filter_id_conv)
  have e: "\<not> js_endsWith ?m ''=''" "\<not> js_endsWith ?m ''==''"
  proof -
    have "?m = r @ ''='' \<Longrightarrow> False" "?m = r @ ''=='' \<Longrightarrow> False" for r
      using plain(1) [of "CHR ''=''"] by (metis in_set_conv_decomp append_Cons append_Nil)+
    then show "\<not> js_endsWith ?m ''=''" "\<not> js_endsWith ?m ''==''" by (auto simp: js_endsWith_iff)
  qed
  have strip: "b64_strip ?m = ?m" unfolding b64_strip_def Let_def f using e by simp
  have "map b64_value ?m = map Some (b64_values bs)" using b64_values_small b64_value_char by auto
  moreover have "map the (map Some (b64_values bs)) = b64_values bs" by (simp add: o_def)
  ultimately show ?thesis by (simp add: m base64ToBytes_def strip b64_groups_values Let_def del: map_map)
qed

lemma js_split_at: "d \<notin> set xs \<Longrightarrow> js_split d (xs @ d # ys) = xs # js_split d ys"
  by (induction xs) auto

lemma base64url_no_dot: "CHR ''.'' \<notin> set (base64url bs)"
proof
  assume "CHR ''.'' \<in> set (base64url bs)"
  then obtain v where m: "v \<in> set (b64_values bs)" and c: "CHR ''.'' = to_url_char (b64_char v)"
    by (auto simp: base64url_alt)
  then have v: "v < 64" "to_url_char (b64_char v) = CHR ''.''" using b64_values_small by simp_all
  then have "b64_char v = CHR ''.''" by (auto simp: to_url_char_def split: if_splits)
  moreover have "b64_value (CHR ''.'') = None" by (simp add: b64_value_def)
  ultimately show False using b64_value_char [OF v(1)] by simp
qed

definition jwt_text :: "string \<Rightarrow> string \<Rightarrow> string \<Rightarrow> string" where
  "jwt_text header payload signature = header @ ''.'' @ base64url (map (\<lambda>c. word_of_nat (of_char c)) payload) @ ''.'' @ signature"

text \<open>The expiry of a session is the one its token states: of a token whose payload is an object with a numeric
  claim, that many seconds, and of any other readable payload, never.\<close>

theorem jwt_expiry_is_read:
  assumes "CHR ''.'' \<notin> set header" and "json_parse payload = Some (JObj claims)"
  shows "decodeJwtExpiry (jwt_text header payload signature) = (case map_of claims ''exp'' of
      Some (JNum t) \<Rightarrow> Option.bind (js_number t) (\<lambda>n. js_date (n * 1000))
    | _ \<Rightarrow> Some max_date)"
proof -
  let ?p = "base64url (map (\<lambda>c. word_of_nat (of_char c)) payload)"
  have parts: "js_split CHR ''.'' (jwt_text header payload signature) = header # ?p # js_split CHR ''.'' signature"
    using js_split_at [OF assms(1), of "?p @ CHR ''.'' # signature"] js_split_at [OF base64url_no_dot, of _ signature]
    by (simp add: jwt_text_def)
  have "char_of (unat (word_of_nat (of_char c) :: byte)) = c" for c
  proof -
    have "(of_char c :: nat) < 256" by simp
    then show ?thesis by (simp add: unat_of_nat)
  qed
  then have "map (\<lambda>b. char_of (unat b)) (map (\<lambda>c. word_of_nat (of_char c) :: byte) payload) = payload"
    by (simp add: map_idI)
  then have payload: "Option.bind (base64ToBytes (map from_url_char ?p)) (\<lambda>bs. json_parse (map (\<lambda>b. char_of (unat b)) bs)) =
      Some (JObj claims)" using assms(2) by (simp only: base64url_decodes Option.bind.simps)
  have "decodeJwtExpiry (jwt_text header payload signature) = (case j_prop (JObj claims) ''exp'' of
      None \<Rightarrow> Some max_date
    | Some (JNum t) \<Rightarrow> (case js_number t of Some n \<Rightarrow> js_date (n * 1000) | None \<Rightarrow> None)
    | Some _ \<Rightarrow> Some max_date)"
    unfolding decodeJwtExpiry_def Let_def parts nth_Cons_Suc nth_Cons_0 One_nat_def payload by simp
  also have "\<dots> = (case map_of claims ''exp'' of
      Some (JNum t) \<Rightarrow> Option.bind (js_number t) (\<lambda>n. js_date (n * 1000)) | _ \<Rightarrow> Some max_date)"
    by (auto simp: j_prop_def split: option.split jval.split)
  finally show ?thesis .
qed

theorem jwt_expiry_is_read_witness:
  "decodeJwtExpiry (jwt_text ''h'' ''{\"exp\":17}'' ''s'') = Some 17000"
proof -
  have "json_parse ''{\"exp\":17}'' = Some (JObj [(''exp'', JNum ''17'')])" by code_simp
  from jwt_expiry_is_read [OF _ this, of "''h''" "''s''"]
  have "decodeJwtExpiry (jwt_text ''h'' ''{\"exp\":17}'' ''s'') = Option.bind (js_number ''17'') (\<lambda>n. js_date (n * 1000))"
    by simp
  moreover have "Option.bind (js_number ''17'') (\<lambda>n. js_date (n * 1000)) = Some 17000" by code_simp
  ultimately show ?thesis by simp
qed

end
