(* ===== verification/Policy_Builder.thy ===== *)
theory Policy_Builder
  imports Js_Text
begin

text \<open>
  The policy builder of the admin client (\<^verbatim>\<open>admin/policy-builder.ts\<close>): it collects rules and roles, translating the
  caller's shapes to the wire's, and hands out a specification. An input object may carry several keys, so each of
  them is a field; a number is \<^const>\<open>None\<close> where it is not finite. What a call throws is a value, and a call that
  throws leaves the builder as it was.
\<close>

section \<open>The wire shapes\<close>

datatype user_condition = Email_Like string | Attribute_Equals string string | Trust_Equals string

datatype context_condition =
  Field_Equals string string
| Field_Not_Equals string string
| Field_Greater_Than string "rat option"
| Field_Less_Than string "rat option"

datatype http_verb = Verb_Get | Verb_Post | Verb_Put | Verb_Delete | Verb_Patch | Verb_Any

datatype rule_target =
  Http_Target http_verb string "string option"
| Mcp_Target "string option" string
| All_Actions

record approval_config =
  pc_required_approvals :: "rat option option"
  pc_timeout_seconds :: "rat option option"

record policy_rule =
  pr_target :: rule_target
  pr_permit :: bool
  pr_when_user :: "user_condition option"
  pr_when_context :: "context_condition option"
  pr_require_approval :: bool
  pr_approval_config :: "approval_config option"

datatype pattern_list = Every_Action | Patterns "string list"

record role_definition =
  rd_allow :: "pattern_list option"
  rd_deny :: "pattern_list option"

record policy_spec =
  sp_agent_id :: string
  sp_rules :: "policy_rule list"
  sp_roles :: "(string \<times> role_definition) list option"
  sp_user_role_field :: "string option"

section \<open>The caller's shapes\<close>

record when_user =
  wu_wire :: "user_condition option"
  wu_emailLike :: "string option"
  wu_attributeEquals :: "(string \<times> string) option"
  wu_trustEquals :: "string option"

record when_context =
  wc_wire :: "context_condition option"
  wc_fieldEquals :: "(string \<times> string) option"
  wc_fieldNotEquals :: "(string \<times> string) option"
  wc_fieldGreaterThan :: "(string \<times> rat option) option"
  wc_fieldLessThan :: "(string \<times> rat option) option"

record rule_input =
  ri_whenUser :: "when_user option"
  ri_whenContext :: "when_context option"
  ri_requireApproval :: bool
  ri_approvalConfig :: "approval_config option"

datatype builder_error =
  Empty_Agent_Id
| Bad_When_User
| Bad_When_Context
| Not_An_Integer string
| Approval_On_Permit string
| Config_Without_Approval string
| Not_Positive string string
| Empty_Role_Name
| Empty_Role_Field

definition js_isInteger :: "rat option \<Rightarrow> bool" where
  "js_isInteger x \<longleftrightarrow> (case x of Some n \<Rightarrow> of_int \<lfloor>n\<rfloor> = n | None \<Rightarrow> False)"

definition normalizeWhenUser :: "when_user \<Rightarrow> builder_error + user_condition" where
  "normalizeWhenUser input = (case wu_wire input of
     Some c \<Rightarrow> Inr c
   | None \<Rightarrow> (case wu_emailLike input of
       Some p \<Rightarrow> Inr (Email_Like p)
     | None \<Rightarrow> (case wu_attributeEquals input of
         Some (k, v) \<Rightarrow> Inr (Attribute_Equals k v)
       | None \<Rightarrow> (case wu_trustEquals input of Some t \<Rightarrow> Inr (Trust_Equals t) | None \<Rightarrow> Inl Bad_When_User))))"

definition normalizeWhenContext :: "when_context \<Rightarrow> builder_error + context_condition" where
  "normalizeWhenContext input = (case wc_wire input of
     Some c \<Rightarrow> Inr c
   | None \<Rightarrow> (case wc_fieldEquals input of
       Some (f, v) \<Rightarrow> Inr (Field_Equals f v)
     | None \<Rightarrow> (case wc_fieldNotEquals input of
         Some (f, v) \<Rightarrow> Inr (Field_Not_Equals f v)
       | None \<Rightarrow> (case wc_fieldGreaterThan input of
           Some (f, n) \<Rightarrow> if js_isInteger n then Inr (Field_Greater_Than f n) else Inl (Not_An_Integer ''fieldGreaterThan'')
         | None \<Rightarrow> (case wc_fieldLessThan input of
             Some (f, n) \<Rightarrow> if js_isInteger n then Inr (Field_Less_Than f n) else Inl (Not_An_Integer ''fieldLessThan'')
           | None \<Rightarrow> Inl Bad_When_Context)))))"

section \<open>Rules\<close>

definition positive_integer :: "rat option \<Rightarrow> bool" where
  "positive_integer x \<longleftrightarrow> js_isInteger x \<and> (case x of Some n \<Rightarrow> 0 < n | None \<Rightarrow> False)"

definition validateHitl :: "bool \<Rightarrow> rule_input \<Rightarrow> string \<Rightarrow> builder_error option" where
  "validateHitl permit r kind =
     (if ri_requireApproval r \<and> permit then Some (Approval_On_Permit kind)
      else if ri_approvalConfig r \<noteq> None \<and> \<not> ri_requireApproval r then Some (Config_Without_Approval kind)
      else case ri_approvalConfig r of
        None \<Rightarrow> None
      | Some cfg \<Rightarrow>
          if (case pc_required_approvals cfg of Some n \<Rightarrow> \<not> positive_integer n | None \<Rightarrow> False)
          then Some (Not_Positive kind ''requiredApprovals'')
          else if (case pc_timeout_seconds cfg of Some n \<Rightarrow> \<not> positive_integer n | None \<Rightarrow> False)
          then Some (Not_Positive kind ''timeoutSeconds'') else None)"

definition applyHitl :: "rule_input \<Rightarrow> policy_rule \<Rightarrow> policy_rule" where
  "applyHitl r rule = rule\<lparr>pr_require_approval := ri_requireApproval r, pr_approval_config := ri_approvalConfig r\<rparr>"

fun opt_result :: "('a \<Rightarrow> 'e + 'b) \<Rightarrow> 'a option \<Rightarrow> 'e + 'b option" where
  "opt_result f None = Inr None"
| "opt_result f (Some x) = map_sum id Some (f x)"

text \<open>The end that the three kinds of rule share: the two conditions, then the approval.\<close>

definition finish_rule :: "string \<Rightarrow> bool \<Rightarrow> rule_target \<Rightarrow> rule_input \<Rightarrow> builder_error + policy_rule" where
  "finish_rule kind permit target r = (case validateHitl permit r kind of
     Some e \<Rightarrow> Inl e
   | None \<Rightarrow> (case opt_result normalizeWhenUser (ri_whenUser r) of
       Inl e \<Rightarrow> Inl e
     | Inr user \<Rightarrow> (case opt_result normalizeWhenContext (ri_whenContext r) of
         Inl e \<Rightarrow> Inl e
       | Inr ctx \<Rightarrow> Inr (applyHitl r \<lparr>pr_target = target, pr_permit = permit, pr_when_user = user, pr_when_context = ctx,
           pr_require_approval = False, pr_approval_config = None\<rparr>))))"

definition httpRule :: "bool \<Rightarrow> http_verb \<Rightarrow> string \<Rightarrow> string option \<Rightarrow> rule_input \<Rightarrow> builder_error + policy_rule" where
  "httpRule permit verb host pathLike r = finish_rule ''http'' permit (Http_Target verb host pathLike) r"

definition mcpRule :: "bool \<Rightarrow> string option \<Rightarrow> string \<Rightarrow> rule_input \<Rightarrow> builder_error + policy_rule" where
  "mcpRule permit server tool r =
     finish_rule ''mcp'' permit (Mcp_Target (if server = Some [] then None else server) tool) r"

definition allActionsRule :: "bool \<Rightarrow> rule_input \<Rightarrow> builder_error + policy_rule" where
  "allActionsRule permit r = finish_rule ''all_actions'' permit All_Actions r"

section \<open>The builder\<close>

record policy_builder =
  pb_agentId :: string
  pb_rules :: "policy_rule list"
  pb_roles :: "(string, role_definition) jsmap"
  pb_userRoleField :: "string option"

datatype builder_call =
  Http_Rule bool http_verb string "string option" rule_input
| Mcp_Rule bool "string option" string rule_input
| Any_Rule bool rule_input
| Role string role_definition
| User_Role_Field string
| Reset

definition builder_new :: "string \<Rightarrow> builder_error + policy_builder" where
  "builder_new agentId = (if agentId = [] then Inl Empty_Agent_Id
     else Inr \<lparr>pb_agentId = agentId, pb_rules = [], pb_roles = [], pb_userRoleField = None\<rparr>)"

definition push_rule :: "policy_builder \<Rightarrow> builder_error + policy_rule \<Rightarrow> builder_error + policy_builder" where
  "push_rule b rule = map_sum id (\<lambda>r. b\<lparr>pb_rules := pb_rules b @ [r]\<rparr>) rule"

text \<open>Assigning to \<^verbatim>\<open>__proto__\<close> replaces the prototype of the roles object, and adds no role.\<close>

definition builder_call :: "policy_builder \<Rightarrow> builder_call \<Rightarrow> builder_error + policy_builder" where
  "builder_call b call = (case call of
     Http_Rule permit verb host path r \<Rightarrow> push_rule b (httpRule permit verb host path r)
   | Mcp_Rule permit server tool r \<Rightarrow> push_rule b (mcpRule permit server tool r)
   | Any_Rule permit r \<Rightarrow> push_rule b (allActionsRule permit r)
   | Role name def \<Rightarrow> if js_trim name = [] then Inl Empty_Role_Name
       else Inr (if name = ''__proto__'' then b else b\<lparr>pb_roles := jm_set name def (pb_roles b)\<rparr>)
   | User_Role_Field f \<Rightarrow> if js_trim f = [] then Inl Empty_Role_Field else Inr (b\<lparr>pb_userRoleField := Some f\<rparr>)
   | Reset \<Rightarrow> Inr (b\<lparr>pb_rules := [], pb_roles := [], pb_userRoleField := None\<rparr>))"

definition build :: "policy_builder \<Rightarrow> policy_spec" where
  "build b = \<lparr>sp_agent_id = pb_agentId b, sp_rules = pb_rules b,
     sp_roles = (if pb_roles b = [] then None else Some (pb_roles b)), sp_user_role_field = pb_userRoleField b\<rparr>"

definition ruleCount :: "policy_builder \<Rightarrow> nat" where
  "ruleCount b = length (pb_rules b)"

definition roleCount :: "policy_builder \<Rightarrow> nat" where
  "roleCount b = length (pb_roles b)"

text \<open>A chain of calls whose errors the caller catches: each call sees the builder as the last one left it.\<close>

definition builder_run :: "policy_builder \<Rightarrow> builder_call list \<Rightarrow> policy_builder" where
  "builder_run b calls = foldl (\<lambda>b c. case builder_call b c of Inl e \<Rightarrow> b | Inr b' \<Rightarrow> b') b calls"

section \<open>What is built\<close>

text \<open>A rule the server can compile: an approval is asked for on forbidding rules only, its parameters are positive
  integers and there only with it, and a numeric comparison that came in the caller's shape is with an integer.\<close>

definition rule_ok :: "policy_rule \<Rightarrow> bool" where
  "rule_ok r \<longleftrightarrow> (pr_require_approval r \<longrightarrow> \<not> pr_permit r) \<and>
     (case pr_approval_config r of None \<Rightarrow> True | Some cfg \<Rightarrow> pr_require_approval r \<and>
       (\<forall>n. pc_required_approvals cfg = Some n \<longrightarrow> positive_integer n) \<and>
       (\<forall>n. pc_timeout_seconds cfg = Some n \<longrightarrow> positive_integer n)) \<and>
     (case pr_target r of Mcp_Target server _ \<Rightarrow> server \<noteq> Some [] | _ \<Rightarrow> True)"

lemma finish_rule_ok:
  "finish_rule kind permit target r = Inr rule \<Longrightarrow> (case target of Mcp_Target server _ \<Rightarrow> server \<noteq> Some [] | _ \<Rightarrow> True) \<Longrightarrow> rule_ok rule"
  by (auto simp: finish_rule_def validateHitl_def applyHitl_def rule_ok_def
      split: option.splits sum.splits if_splits rule_target.splits)

definition rule_of :: "builder_call \<Rightarrow> (builder_error + policy_rule) option" where
  "rule_of call = (case call of
     Http_Rule permit verb host path r \<Rightarrow> Some (httpRule permit verb host path r)
   | Mcp_Rule permit server tool r \<Rightarrow> Some (mcpRule permit server tool r)
   | Any_Rule permit r \<Rightarrow> Some (allActionsRule permit r)
   | _ \<Rightarrow> None)"

lemma rule_of_ok: "rule_of call = Some (Inr rule) \<Longrightarrow> rule_ok rule"
  by (cases call) (auto simp: rule_of_def httpRule_def mcpRule_def allActionsRule_def elim!: finish_rule_ok)

text \<open>The calls since the last reset, and the rules they add.\<close>

fun since_reset :: "builder_call list \<Rightarrow> builder_call list" where
  "since_reset [] = []"
| "since_reset (c # cs) = (if Reset \<in> set cs then since_reset cs else if c = Reset then cs else c # cs)"

definition added_rules :: "builder_call list \<Rightarrow> policy_rule list" where
  "added_rules calls = List.map_filter (\<lambda>c. case rule_of c of Some (Inr r) \<Rightarrow> Some r | _ \<Rightarrow> None) calls"

lemma since_reset_snoc: "since_reset (calls @ [c]) = (if c = Reset then [] else since_reset calls @ [c])"
  by (induction calls) auto

lemma added_snoc: "added_rules (calls @ [c]) = added_rules calls @ (case rule_of c of Some (Inr r) \<Rightarrow> [r] | _ \<Rightarrow> [])"
  by (auto simp: added_rules_def map_filter_def split: option.splits sum.splits)

definition builder_inv :: "string \<Rightarrow> builder_call list \<Rightarrow> policy_builder \<Rightarrow> bool" where
  "builder_inv a calls b \<longleftrightarrow> pb_agentId b = a \<and> pb_rules b = added_rules (since_reset calls) \<and> list_all rule_ok (pb_rules b) \<and>
     jm_ok (pb_roles b) \<and> list_all (\<lambda>(n, d). js_trim n \<noteq> []) (pb_roles b)"

lemma set_role: "list_all (\<lambda>(n, d). js_trim n \<noteq> []) m \<Longrightarrow> js_trim k \<noteq> [] \<Longrightarrow> list_all (\<lambda>(n, d). js_trim n \<noteq> []) (jm_set k v m)"
  by (induction m) auto

lemma builder_step:
  assumes "builder_inv a calls b"
  shows "builder_inv a (calls @ [c]) (case builder_call b c of Inl e \<Rightarrow> b | Inr b' \<Rightarrow> b')"
proof (cases "rule_of c")
  case None
  then show ?thesis using assms
    by (cases c) (auto simp: builder_inv_def builder_call_def since_reset_snoc added_snoc rule_of_def set_role distinct_update
        added_rules_def map_filter_def)
next
  case (Some r)
  have call: "builder_call b c = push_rule b r" using Some by (cases c) (simp_all add: rule_of_def builder_call_def)
  have "c \<noteq> Reset" using Some by (auto simp: rule_of_def)
  then show ?thesis using assms Some call rule_of_ok
    by (cases r) (auto simp: builder_inv_def since_reset_snoc added_snoc push_rule_def)
qed

lemma builder_run_inv:
  assumes "builder_new a = Inr b"
  shows "builder_inv a calls (builder_run b calls)"
proof (induction calls rule: rev_induct)
  case Nil
  then show ?case using assms by (auto simp: builder_new_def builder_run_def builder_inv_def added_rules_def map_filter_def split: if_splits)
next
  case (snoc c calls)
  then show ?case using builder_step by (simp add: builder_run_def)
qed

text \<open>Whatever calls a builder has seen, some of which may have thrown, its specification holds the rules of the
  calls since the last reset that did not throw, in their order; every one of them is a rule the server can
  compile, and every role has a name, once.\<close>

theorem built_spec_is_well_formed:
  assumes "builder_new a = Inr b"
  shows "let spec = build (builder_run b calls) in
    sp_agent_id spec = a \<and> sp_rules spec = added_rules (since_reset calls) \<and> list_all rule_ok (sp_rules spec) \<and>
    (case sp_roles spec of Some roles \<Rightarrow> roles \<noteq> [] \<and> distinct (map fst roles) \<and> list_all (\<lambda>(n, d). js_trim n \<noteq> []) roles | None \<Rightarrow> True)"
  using builder_run_inv [OF assms, of calls] by (auto simp: Let_def build_def builder_inv_def)

definition plain_input :: rule_input where
  "plain_input = \<lparr>ri_whenUser = None, ri_whenContext = None, ri_requireApproval = False, ri_approvalConfig = None\<rparr>"

definition sample_calls :: "builder_call list" where
  "sample_calls = [Any_Rule True plain_input, Reset, Http_Rule True Verb_Get ''h'' None plain_input,
     Any_Rule True (plain_input\<lparr>ri_requireApproval := True\<rparr>),
     Any_Rule False (plain_input\<lparr>ri_requireApproval := True, ri_approvalConfig := Some \<lparr>pc_required_approvals = Some (Some 2), pc_timeout_seconds = None\<rparr>\<rparr>)]"

theorem built_spec_is_well_formed_witness:
  "\<exists>b. builder_new ''a'' = Inr b \<and> length (added_rules (since_reset sample_calls)) = 2 \<and>
     list_all rule_ok (sp_rules (build (builder_run b sample_calls)))"
proof -
  have "builder_new ''a'' = Inr \<lparr>pb_agentId = ''a'', pb_rules = [], pb_roles = [], pb_userRoleField = None\<rparr>" by (simp add: builder_new_def)
  moreover from built_spec_is_well_formed [OF this, of sample_calls]
  have "list_all rule_ok (sp_rules (build (builder_run \<lparr>pb_agentId = ''a'', pb_rules = [], pb_roles = [], pb_userRoleField = None\<rparr> sample_calls)))"
    unfolding Let_def by blast
  moreover have "length (added_rules (since_reset sample_calls)) = 2" by code_simp
  ultimately show ?thesis by blast
qed

section \<open>Where the builder does otherwise\<close>

text \<open>A condition in the wire's shape is passed on unchecked, a fraction included.\<close>

lemma wire_condition_unchecked:
  "normalizeWhenContext \<lparr>wc_wire = Some (Field_Greater_Than ''amount'' (Some (1/2))), wc_fieldEquals = None,
     wc_fieldNotEquals = None, wc_fieldGreaterThan = None, wc_fieldLessThan = None\<rparr> = Inr (Field_Greater_Than ''amount'' (Some (1/2)))"
  by (simp add: normalizeWhenContext_def)

text \<open>A role of the name \<^verbatim>\<open>__proto__\<close> is accepted and not there.\<close>

lemma proto_role_is_dropped: "builder_call b (Role ''__proto__'' def) = Inr b"
proof -
  have "js_trim ''__proto__'' \<noteq> []" by code_simp
  then show ?thesis by (simp add: builder_call_def)
qed

text \<open>A server that is the empty text is no server: the rule is for every server.\<close>

lemma blank_server_matches_any:
  "map_sum id pr_target (mcpRule True (Some []) tool plain_input) = Inr (Mcp_Target None tool)"
  by (simp add: mcpRule_def finish_rule_def validateHitl_def applyHitl_def plain_input_def)

end
