(* ===== verification/Policy_Client.thy ===== *)
theory Policy_Client
  imports Simulate_Cache Api_Request
begin

text \<open>
  The operations of \<^verbatim>\<open>client.ts\<close> that keep state of their own or loop, over the request loop of \<open>Api_Request\<close>:
  \<open>simulatePolicy\<close> with its decision cache, cut at its request; \<open>captureEnabled\<close>; the listing of agents and its
  iterator, which asks for one page after the other and is a partial function; and the body of a new session.
\<close>

section \<open>Simulated decisions\<close>

record simulate_request =
  sq_agent_id :: string
  sq_action :: string
  sq_resource :: string
  sq_user :: jval
  sq_context :: jval

definition undefined_text :: "string option \<Rightarrow> string" where
  "undefined_text t = (case t of Some s \<Rightarrow> s | None \<Rightarrow> ''undefined'')"

definition simulate_key :: "simulate_request \<Rightarrow> string" where
  "simulate_key req = sc_key (sq_agent_id req) (sq_action req) (sq_resource req)
     (undefined_text (stable_stringify (sq_user req))) (undefined_text (stable_stringify (sq_context req)))"

definition has_advice :: "jval \<Rightarrow> bool" where
  "has_advice body \<longleftrightarrow> (case j_array (j_field body ''advice'') of Some vs \<Rightarrow> vs \<noteq> [] | None \<Rightarrow> False)"

text \<open>The answer has arrived: what the call returns (\<^const>\<open>None\<close> where reading the body throws), and the cache.\<close>

definition simulate_settle :: "string \<Rightarrow> jval \<Rightarrow> (string \<Rightarrow> string option) \<Rightarrow> int \<Rightarrow> jval sim_cache \<Rightarrow> jval option \<times> jval sim_cache" where
  "simulate_settle key body get now c =
     (let c1 = sc_observeGeneration c (get ''x-agentum-policy-generation'') in
      if j_nullish body then (None, c1)
      else if has_advice body then (Some body, c1)
      else (Some body, sc_put c1 key body (case parseMaxAgeMs get of Some ms \<Rightarrow> ms | None \<Rightarrow> 0) now))"

definition policy_allows :: "jval \<Rightarrow> bool" where
  "policy_allows body \<longleftrightarrow> j_field body ''outcome'' = JStr ''Allow''"

text \<open>Any number of calls at once: a call reads the cache, its answer comes at any later time.\<close>

datatype simulate_event =
  Sm_Call string int
| Sm_Answer string jval "string \<Rightarrow> string option" int
| Sm_Invalidate

definition simulate_step :: "jval sim_cache \<Rightarrow> simulate_event \<Rightarrow> jval sim_cache" where
  "simulate_step c e = (case e of
     Sm_Call key now \<Rightarrow> snd (sc_get c key now)
   | Sm_Answer key body get now \<Rightarrow> snd (simulate_settle key body get now c)
   | Sm_Invalidate \<Rightarrow> sc_invalidateAll c)"

definition simulate_run :: "bool option \<Rightarrow> int option \<Rightarrow> simulate_event list \<Rightarrow> jval sim_cache" where
  "simulate_run enabled maxSize es = foldl simulate_step (sc_new enabled maxSize) es"

definition answered_with :: "simulate_event list \<Rightarrow> string \<Rightarrow> jval \<Rightarrow> int \<Rightarrow> bool" where
  "answered_with es key body expires \<longleftrightarrow> (\<exists>before get t ms later. es = before @ Sm_Answer key body get t # later \<and>
     parseMaxAgeMs get = Some ms \<and> expires = t + ms \<and> \<not> has_advice body \<and> Sm_Invalidate \<notin> set later)"

lemma lookup_observe: "sc_lookup (sc_observeGeneration c g) k = Some x \<Longrightarrow> sc_lookup c k = Some x"
  by (auto simp: sc_lookup_def sc_observeGeneration_def sc_invalidateAll_def Let_def split: option.splits if_splits)

lemma lookup_put_zero: "sc_put c k v 0 now = c"
  by (simp add: sc_put_def)

lemma answered_with_mono: "answered_with es k v x \<Longrightarrow> e \<noteq> Sm_Invalidate \<Longrightarrow> answered_with (es @ [e]) k v x"
  unfolding answered_with_def by fastforce

lemma lookup_settle:
  assumes "sc_lookup (snd (simulate_settle key body get now c)) k = Some (v, x)"
  shows "sc_lookup c k = Some (v, x) \<or>
    (k = key \<and> v = body \<and> \<not> has_advice body \<and> (\<exists>ms. parseMaxAgeMs get = Some ms \<and> x = now + ms))"
proof -
  let ?c1 = "sc_observeGeneration c (get ''x-agentum-policy-generation'')"
  have kept: "sc_lookup ?c1 k = Some (v, x) \<Longrightarrow> sc_lookup c k = Some (v, x)" by (rule lookup_observe)
  show ?thesis
  proof (cases "parseMaxAgeMs get")
    case None
    then show ?thesis using assms kept by (auto simp: simulate_settle_def Let_def lookup_put_zero split: if_splits)
  next
    case (Some ms)
    then show ?thesis using assms kept sc_lookup_put [of ?c1 key body ms now k "(v, x)"]
      by (auto simp: simulate_settle_def Let_def split: if_splits)
  qed
qed

lemma simulate_backed:
  "sc_inv (simulate_run en m es) \<and> (\<forall>k v x. sc_lookup (simulate_run en m es) k = Some (v, x) \<longrightarrow> answered_with es k v x)"
proof (induction es rule: rev_induct)
  case Nil
  show ?case by (simp add: simulate_run_def sc_inv_new) (simp add: sc_lookup_def sc_new_def)
next
  case (snoc e es)
  let ?c = "simulate_run en m es"
  have inv: "sc_inv ?c" using snoc by simp
  show ?case
  proof (cases e)
    case (Sm_Call key now)
    then show ?thesis using snoc sc_inv_get [OF inv] sc_lookup_get [OF inv]
      by (auto simp: simulate_run_def simulate_step_def intro!: answered_with_mono split: if_splits)
  next
    case (Sm_Answer key body get now)
    have "sc_inv (snd (simulate_settle key body get now ?c))"
      using inv by (simp add: simulate_settle_def Let_def sc_inv_observeGeneration sc_inv_put)
    moreover have "answered_with (es @ [e]) k v x" if l: "sc_lookup (snd (simulate_settle key body get now ?c)) k = Some (v, x)" for k v x
      using lookup_settle [OF l]
    proof
      assume "sc_lookup ?c k = Some (v, x)"
      then show ?thesis using snoc Sm_Answer by (intro answered_with_mono) auto
    next
      assume "k = key \<and> v = body \<and> \<not> has_advice body \<and> (\<exists>ms. parseMaxAgeMs get = Some ms \<and> x = now + ms)"
      then show ?thesis unfolding answered_with_def Sm_Answer by (metis append_is_Nil_conv empty_iff list.set(1))
    qed
    ultimately show ?thesis by (simp add: Sm_Answer simulate_run_def simulate_step_def)
  next
    case Sm_Invalidate
    then show ?thesis using inv sc_inv_def
      by (auto simp: simulate_run_def simulate_step_def sc_lookup_def sc_invalidateAll_def sc_inv_def)
  qed
qed

text \<open>A decision that is returned without a request was the answer to a request with the same key, made without
  advice, whose stated age has not run out, and no invalidation came after it.\<close>

theorem simulated_decision_was_answered:
  assumes "fst (sc_get (simulate_run en m es) (simulate_key req) now) = Some body"
  shows "\<exists>expires. answered_with es (simulate_key req) body expires \<and> now < expires"
  using assms simulate_backed [of en m es] by (auto simp: sc_get_Some)

definition allow_body :: jval where
  "allow_body = JObj [(''outcome'', JStr ''Allow'')]"

definition aged :: "string \<Rightarrow> string \<Rightarrow> string \<Rightarrow> string option" where
  "aged seconds generation name = (if name = ''x-agentum-cache-max-age'' then Some seconds
     else if name = ''x-agentum-policy-generation'' then Some generation else None)"

definition sample_simulate :: simulate_request where
  "sample_simulate = \<lparr>sq_agent_id = ''a'', sq_action = ''act'', sq_resource = ''r'', sq_user = JUndefined, sq_context = JUndefined\<rparr>"

theorem simulated_decision_was_answered_witness:
  "\<exists>expires. answered_with [Sm_Answer (simulate_key sample_simulate) allow_body (aged ''30'' ''7'') 5] (simulate_key sample_simulate)
     allow_body expires \<and> 7 < expires"
  by (rule simulated_decision_was_answered [where en = None and m = None]) code_simp

text \<open>Answers may overtake each other: one made under an older policy generation that arrives last clears what the newer
  ones left and is then served for its age.\<close>

lemma older_generation_is_served:
  "let key = simulate_key sample_simulate; deny = JObj [(''outcome'', JStr ''Deny'')];
     c = simulate_run None None [Sm_Call key 0, Sm_Answer key deny (aged ''30'' ''8'') 5, Sm_Answer key allow_body (aged ''30'' ''7'') 6] in
   fst (sc_get c key 7) = Some allow_body \<and> sc_generation c = 7"
  by code_simp

section \<open>Capture\<close>

type_synonym capture_cache = "(string, bool \<times> int) jsmap"

definition capture_scope :: "string option \<Rightarrow> string" where
  "capture_scope sessionId = (case truthy_text sessionId of Some s \<Rightarrow> ''session:'' @ s | None \<Rightarrow> ''tenant'')"

definition capture_cached :: "capture_cache \<Rightarrow> string option \<Rightarrow> int \<Rightarrow> bool option" where
  "capture_cached c sessionId now = (case jm_get c (capture_scope sessionId) of
     Some (enabled, since) \<Rightarrow> if now - since < 30000 then Some enabled else None | None \<Rightarrow> None)"

text \<open>A failed request, and a reply without a list of triggers, count as off.\<close>

definition capture_settle :: "capture_cache \<Rightarrow> string option \<Rightarrow> int \<Rightarrow> api_error + jval \<Rightarrow> bool \<times> capture_cache" where
  "capture_settle c sessionId now reply =
     (let enabled = (case reply of Inl e \<Rightarrow> False
        | Inr v \<Rightarrow> (case j_array (j_field v ''triggers'') of Some ts \<Rightarrow> ts \<noteq> [] | None \<Rightarrow> False))
      in (enabled, jm_set (capture_scope sessionId) (enabled, now) c))"

section \<open>Agents\<close>

text \<open>A flat list from one of three shapes; \<^const>\<open>None\<close> where \<^verbatim>\<open>in\<close> throws.\<close>

definition listAgents :: "jval \<Rightarrow> jval option" where
  "listAgents result = (case result of
     JArr vs \<Rightarrow> Some result
   | _ \<Rightarrow> (case j_in ''items'' result of
       None \<Rightarrow> None
     | Some True \<Rightarrow> Some (j_field result ''items'')
     | Some False \<Rightarrow> (case j_in ''agents'' result of
         Some True \<Rightarrow> Some (j_default (j_field result ''agents'') (JArr []))
       | _ \<Rightarrow> Some (JArr []))))"

text \<open>\<open>fetch limit offset\<close> is a page as a list, or the error the call ends in. The value holds what has been yielded, and
  the error at the end when there is one.\<close>

partial_function (option) agents_loop :: "(int \<Rightarrow> int \<Rightarrow> api_error + jval list) \<Rightarrow> int \<Rightarrow> int \<Rightarrow> (jval list \<times> api_error option) option" where
  "agents_loop fetch pageSize offset = (case fetch pageSize offset of
     Inl e \<Rightarrow> Some ([], Some e)
   | Inr page \<Rightarrow>
       if int (length page) < pageSize then Some (page, None)
       else Option.bind (agents_loop fetch pageSize (offset + int (length page))) (\<lambda>(rest, e). Some (page @ rest, e)))"

definition listAgentsIterator :: "(int \<Rightarrow> int \<Rightarrow> api_error + jval list) \<Rightarrow> int option \<Rightarrow> int option \<Rightarrow> (jval list \<times> api_error option) option" where
  "listAgentsIterator fetch limit offset = agents_loop fetch (case limit of Some l \<Rightarrow> l | None \<Rightarrow> 100) (case offset of Some n \<Rightarrow> n | None \<Rightarrow> 0)"

definition serving :: "jval list \<Rightarrow> int \<Rightarrow> int \<Rightarrow> api_error + jval list" where
  "serving agents limit offset = Inr (take (nat limit) (drop (nat offset) agents))"

lemma agents_loop_all:
  assumes "0 < pageSize"
  shows "agents_loop (serving agents) pageSize (int n) = Some (drop n agents, None)"
proof (induction "length agents - n" arbitrary: n rule: less_induct)
  case less
  let ?page = "take (nat pageSize) (drop n agents)"
  show ?case
  proof (cases "int (length ?page) < pageSize")
    case True
    then have "?page = drop n agents" by simp
    with True show ?thesis by (subst agents_loop.simps) (simp add: serving_def)
  next
    case False
    then have k: "length ?page = nat pageSize" "nat pageSize \<le> length agents - n" by auto
    then have "length agents - (n + nat pageSize) < length agents - n" using assms by linarith
    from less [OF this] have "agents_loop (serving agents) pageSize (int (n + nat pageSize)) = Some (drop (n + nat pageSize) agents, None)" .
    moreover have "?page @ drop (n + nat pageSize) agents = drop n agents"
      by (metis add.commute append_take_drop_id drop_drop)
    ultimately show ?thesis using False k by (subst agents_loop.simps) (simp add: serving_def)
  qed
qed

text \<open>Over a server that holds a list of agents and answers with the part asked for, the iterator ends and yields
  every agent from the offset on, once and in order, whatever the size of a page.\<close>

theorem iterator_yields_every_agent:
  assumes "case limit of Some l \<Rightarrow> 0 < l | None \<Rightarrow> True"
  shows "listAgentsIterator (serving agents) limit (Some (int n)) = Some (drop n agents, None)"
  unfolding listAgentsIterator_def option.case using assms by (intro agents_loop_all) (simp split: option.splits)

theorem iterator_yields_every_agent_witness:
  "listAgentsIterator (serving [JNum ''1'', JNum ''2'', JNum ''3'']) (Some 2) (Some (int 1)) = Some ([JNum ''2'', JNum ''3''], None)"
  using iterator_yields_every_agent [of "Some 2" "[JNum ''1'', JNum ''2'', JNum ''3'']" 1] by simp

text \<open>With a limit of zero the iterator never returns: each page is empty, and none is shorter than the limit.\<close>

lemma zero_limit_never_ends: "listAgentsIterator (serving agents) (Some 0) offset = None"
proof -
  have never: "\<not> (fetch = serving agents \<and> l = 0)" if ret: "agents_loop fetch l n = Some r" for fetch l n r
  proof (rule agents_loop.raw_induct [where P = "\<lambda>fetch l n r. \<not> (fetch = serving agents \<and> l = 0)", OF _ ret])
    fix rec fetch l n r
    assume IH: "\<And>fetch l n r. rec fetch l n = Some r \<Longrightarrow> \<not> (fetch = serving agents \<and> l = 0)"
      and eq: "(case fetch l n of Inl e \<Rightarrow> Some ([], Some e)
        | Inr page \<Rightarrow> if int (length page) < l then Some (page, None)
            else Option.bind (rec fetch l (n + int (length page))) (\<lambda>(rest, e). Some (page @ rest, e))) = Some r"
    show "\<not> (fetch = serving agents \<and> l = 0)"
    proof
      assume "fetch = serving agents \<and> l = 0"
      then have "\<exists>x. rec (serving agents) 0 n = Some x" using eq by (auto simp: serving_def split: bind_splits)
      then show False using IH by blast
    qed
  qed
  show ?thesis
  proof (rule ccontr)
    assume "listAgentsIterator (serving agents) (Some 0) offset \<noteq> None"
    then obtain r n where "agents_loop (serving agents) 0 n = Some r" by (auto simp: listAgentsIterator_def)
    then show False using never by blast
  qed
qed

text \<open>A server that gives at most ten agents at a time makes an iterator with larger pages stop after the first.\<close>

lemma capped_server_cuts_the_listing:
  assumes "10 < l"
  shows "listAgentsIterator (\<lambda>limit. serving agents (min limit 10)) (Some l) None = Some (take 10 agents, None)"
proof -
  have "int (min (length agents) 10) < l" using assms by linarith
  then show ?thesis using assms by (simp add: listAgentsIterator_def) (subst agents_loop.simps, simp add: serving_def)
qed

section \<open>A new session\<close>

datatype user_binding = Token_Binding string | Service_Binding string "string option" | Trusted_Binding jval

definition start_session_body :: "string \<Rightarrow> user_binding option \<Rightarrow> string option \<Rightarrow> string option \<Rightarrow> jval" where
  "start_session_body agentId user sourceIp anonymousClientId = JObj
     ([(''agent_id'', JStr agentId)] @
      (case user of None \<Rightarrow> []
       | Some (Token_Binding t) \<Rightarrow> [(''user_token'', JStr t)]
       | Some (Service_Binding s src) \<Rightarrow> (''service'', JStr s) #
           (case truthy_text src of Some x \<Rightarrow> [(''service_source'', JStr x)] | None \<Rightarrow> [])
       | Some (Trusted_Binding u) \<Rightarrow> [(''user'', u)]) @
      (case truthy_text sourceIp of Some ip \<Rightarrow> [(''source_ip'', JStr ip)] | None \<Rightarrow> []) @
      (case truthy_text anonymousClientId of Some a \<Rightarrow> [(''anonymous_client_id'', JStr a)] | None \<Rightarrow> []))"

end
