(* ===== verification/Mcp_Stdio.thy ===== *)
theory Mcp_Stdio
  imports Fetch_Plane
begin

text \<open>
  \<^verbatim>\<open>instrumentation/mcp-stdio-patch.ts\<close>: the patch of the official MCP client. \<open>connect\<close> remembers the server's name
  and the kind of transport; \<open>callTool\<close> asks for an evaluation first and writes to the server only if it allows.
  The handler is cut at its one await: \<open>patched_begin\<close> up to the question, \<open>patched_end\<close> from the answer on. The
  package, its client and the network are inputs; log lines and the search for duplicate copies are left out.
\<close>

section \<open>Installation\<close>

record stdio_config =
  sg_gateway :: string
  sg_apiKey :: string
  sg_agentId :: string

record stdio_options =
  so_gateway :: "string option"
  so_apiKey :: "string option"
  so_agentId :: "string option"
  so_hasGetEvaluator :: bool

record stdio_environment =
  sn_AGENTUM_BASE_URL :: "string option"
  sn_AGENTUM_GATEWAY :: "string option"
  sn_AGENTUM_API_KEY :: "string option"
  sn_AGENTUM_AGENT_ID :: "string option"

definition or_else :: "'a option \<Rightarrow> 'a option \<Rightarrow> 'a option" where
  "or_else x y = (case x of Some a \<Rightarrow> Some a | None \<Rightarrow> y)"

definition install_config :: "stdio_options \<Rightarrow> stdio_environment \<Rightarrow> stdio_config option" where
  "install_config opts env =
     (case (some_text (or_else (so_apiKey opts) (sn_AGENTUM_API_KEY env)),
            some_text (or_else (so_agentId opts) (sn_AGENTUM_AGENT_ID env))) of
        (Some k, Some a) \<Rightarrow> Some \<lparr>sg_gateway = (case or_else (so_gateway opts) (or_else (sn_AGENTUM_BASE_URL env) (sn_AGENTUM_GATEWAY env)) of
            Some g \<Rightarrow> g | None \<Rightarrow> ''http://localhost:7071''), sg_apiKey = k, sg_agentId = a\<rparr>
      | _ \<Rightarrow> None)"

text \<open>The module's variables and the mark on the client class.\<close>

record stdio_module =
  sm_config :: "stdio_config option"
  sm_getEvaluator :: bool
  sm_patched :: bool

definition installMcpStdioPatch :: "bool \<Rightarrow> stdio_options \<Rightarrow> stdio_environment \<Rightarrow> stdio_module \<Rightarrow> bool \<times> stdio_module" where
  "installMcpStdioPatch available opts env m =
     (case install_config opts env of
        None \<Rightarrow> (False, m)
      | Some cfg \<Rightarrow> if \<not> available then (False, m)
          else (True, \<lparr>sm_config = Some cfg, sm_getEvaluator = so_hasGetEvaluator opts, sm_patched = True\<rparr>))"

definition uninstallMcpStdioPatch :: "bool \<Rightarrow> stdio_module \<Rightarrow> bool \<times> stdio_module" where
  "uninstallMcpStdioPatch available m =
     (if \<not> available \<or> \<not> sm_patched m then (False, m) else (True, m\<lparr>sm_patched := False\<rparr>))"

definition isMcpStdioPatched :: "bool \<Rightarrow> stdio_module \<Rightarrow> bool" where
  "isMcpStdioPatched available m \<longleftrightarrow> available \<and> sm_patched m"

section \<open>The client\<close>

datatype transport_kind = Transport_Http | Transport_Stdio

text \<open>A transport object: the name of its constructor and \<^verbatim>\<open>_url ?? url\<close>.\<close>

record transport_object =
  to_ctorName :: string
  to_urlish :: jval

definition detectTransportKind :: "transport_object option \<Rightarrow> transport_kind" where
  "detectTransportKind transport = (case transport of
     None \<Rightarrow> Transport_Stdio
   | Some t \<Rightarrow>
       let ctor = js_lower (to_ctorName t) in
       if js_includes ctor ''streamablehttp'' \<or> js_includes ctor ''sse'' then Transport_Http
       else (case to_urlish t of
           JStr u \<Rightarrow> if js_startsWith (js_lower u) ''http:'' \<or> js_startsWith (js_lower u) ''https:'' then Transport_Http else Transport_Stdio
         | JObj kvs \<Rightarrow> if j_string (j_field (JObj kvs) ''href'') \<noteq> None then Transport_Http else Transport_Stdio
         | _ \<Rightarrow> Transport_Stdio))"

record mcp_client =
  mk_serverName :: "string option"
  mk_transportKind :: "transport_kind option"

definition mcp_client_new :: mcp_client where
  "mcp_client_new = \<lparr>mk_serverName = None, mk_transportKind = None\<rparr>"

text \<open>\<open>version\<close> is the name \<open>getServerVersion\<close> reports, if it is there and does not throw.\<close>

definition learn_name :: "string option \<Rightarrow> mcp_client \<Rightarrow> mcp_client" where
  "learn_name version c = (if some_text (mk_serverName c) = None then
     (case some_text version of Some n \<Rightarrow> c\<lparr>mk_serverName := Some n\<rparr> | None \<Rightarrow> c) else c)"

definition patchedConnect :: "transport_object option \<Rightarrow> bool \<Rightarrow> string option \<Rightarrow> mcp_client \<Rightarrow> mcp_client" where
  "patchedConnect transport connects version c =
     (let c' = (if mk_transportKind c = None then c\<lparr>mk_transportKind := Some (detectTransportKind transport)\<rparr> else c)
      in if connects then learn_name version c' else c')"

section \<open>The evaluation\<close>

record eval_response =
  er_decision :: jval
  er_reason :: jval
  er_rule_id :: jval
  er_advice :: jval
  er_ttl_ms :: "rat option"

definition deny_response :: "string \<Rightarrow> eval_response" where
  "deny_response reason = \<lparr>er_decision = JStr ''deny'', er_reason = JStr reason, er_rule_id = JUndefined,
     er_advice = JUndefined, er_ttl_ms = None\<rparr>"

datatype stdio_question = Ask_Nobody | Ask_Evaluator tool_call | Ask_Central string jval

definition evaluate_begin :: "stdio_config option \<Rightarrow> bool \<Rightarrow> string \<Rightarrow> jval option \<Rightarrow> string option \<Rightarrow> stdio_question" where
  "evaluate_begin config evaluator toolName args mcpServerName =
     (case config of
        None \<Rightarrow> Ask_Nobody
      | Some cfg \<Rightarrow>
          if evaluator then Ask_Evaluator \<lparr>tq_toolName = toolName,
              tq_arguments = (case args of Some a \<Rightarrow> a | None \<Rightarrow> JUndefined), tq_mcpServerUrl = None,
              tq_mcpServerName = some_text mcpServerName\<rparr>
          else Ask_Central (sg_gateway cfg @ ''/api/v1/sdk/evaluate-tool-call'')
            (JObj ([(''agent_id'', JStr (sg_agentId cfg)), (''tool_name'', JStr toolName)] @
              (case args of Some (JObj kvs) \<Rightarrow> if kvs \<noteq> [] then [(''arguments'', JObj kvs)] else [] | _ \<Rightarrow> []) @
              (case some_text mcpServerName of Some n \<Rightarrow> [(''mcp_server_name'', JStr n)] | None \<Rightarrow> []))))"

text \<open>The answers: the evaluator throws or returns; the central service answers with a status other than 200 and a
  text, with a body, or the exchange throws (the timer's abort and an unreadable body included).\<close>

datatype stdio_answer =
  Nobody_Answers
| Evaluator_Answers "string + evaluation"
| Central_Status nat string
| Central_Body jval
| Central_Throws string

text \<open>\<^const>\<open>None\<close>: the body is \<^verbatim>\<open>null\<close>, and reading its decision throws.\<close>

definition evaluate_end :: "stdio_answer \<Rightarrow> eval_response option" where
  "evaluate_end a = (case a of
     Nobody_Answers \<Rightarrow> Some (deny_response ''agentum SDK not configured'')
   | Evaluator_Answers (Inl msg) \<Rightarrow> Some (deny_response (''agentum evaluator failure: '' @ msg))
   | Evaluator_Answers (Inr e) \<Rightarrow> Some \<lparr>er_decision = JStr (case te_decision e of Dec_Allow \<Rightarrow> ''allow'' | Dec_Deny \<Rightarrow> ''deny''),
       er_reason = (case te_reason e of Some r \<Rightarrow> if j_truthy r then r else JUndefined | None \<Rightarrow> JUndefined),
       er_rule_id = (case te_ruleId e of Some r \<Rightarrow> if j_truthy r then r else JUndefined | None \<Rightarrow> JUndefined),
       er_advice = (case te_advice e of Some vs \<Rightarrow> JArr vs | None \<Rightarrow> JUndefined), er_ttl_ms = Some (te_ttlMs e)\<rparr>
   | Central_Status status t \<Rightarrow> Some (deny_response (''agentum evaluate-tool-call HTTP '' @ nat_text status @ '': '' @ take 200 t))
   | Central_Body v \<Rightarrow> if j_nullish v then None else Some \<lparr>er_decision = j_field v ''decision'', er_reason = j_field v ''reason'',
       er_rule_id = j_field v ''rule_id'', er_advice = j_field v ''advice'', er_ttl_ms = j_number (j_field v ''ttl_ms'')\<rparr>
   | Central_Throws msg \<Rightarrow> Some (deny_response (''agentum gateway unreachable: '' @ msg)))"

section \<open>The audit row\<close>

datatype audit_path = Via_Evaluator | Via_Fetch string jval | No_Audit

record stdio_audit =
  sa_eventType :: string
  sa_outcome :: string
  sa_tool :: string
  sa_detail :: jval
  sa_path :: audit_path

definition transport_name :: "transport_kind \<Rightarrow> string" where
  "transport_name k = (case k of Transport_Http \<Rightarrow> ''http'' | Transport_Stdio \<Rightarrow> ''stdio'')"

definition emitAuditBestEffort :: "stdio_config option \<Rightarrow> bool \<Rightarrow> string \<Rightarrow> string \<Rightarrow> jval \<Rightarrow> jval option \<Rightarrow> transport_kind \<Rightarrow> stdio_audit option" where
  "emitAuditBestEffort config evaluator toolName outcome reason args kind = (case config of
     None \<Rightarrow> None
   | Some cfg \<Rightarrow>
       let eventType = (if outcome = ''deny'' then ''mcp_tool_deny'' else ''mcp_tool_call'');
           detail = JObj [(''tool'', JStr toolName), (''reason'', j_default reason JNull), (''transport'', JStr (transport_name kind)),
             (''source'', JStr ''@lupid/sdk/instrumentation/mcp-stdio-patch''),
             (''argument_keys'', JArr (case args of Some a \<Rightarrow> map JStr (sorted_keys a) | None \<Rightarrow> []))]
       in Some \<lparr>sa_eventType = eventType, sa_outcome = outcome, sa_tool = toolName, sa_detail = detail,
         sa_path = (if evaluator then Via_Evaluator
           else Via_Fetch (sg_gateway cfg @ ''/api/v1/audit/ingest'') (JObj [(''agent_id'', JStr (sg_agentId cfg)),
             (''session_id'', JStr []), (''event_type'', JStr eventType), (''outcome'', JStr outcome), (''tool'', JStr toolName),
             (''detail'', detail)]))\<rparr>)"

text \<open>The raw post, with one retry: what each exchange comes to is \<^const>\<open>None\<close> if it throws, or its status. The result
  is the number of requests and whether the row was taken.\<close>

fun ship_from :: "(nat \<Rightarrow> nat option) \<Rightarrow> nat \<Rightarrow> nat \<Rightarrow> nat \<times> bool" where
  "ship_from reply i 0 = (i, False)"
| "ship_from reply i (Suc left) = (case reply i of
     Some status \<Rightarrow>
       if http_ok status then (Suc i, True)
       else if 400 \<le> status \<and> status < 500 then (Suc i, False)
       else ship_from reply (Suc i) left
   | None \<Rightarrow> ship_from reply (Suc i) left)"

definition shipWithRetry :: "(nat \<Rightarrow> nat option) \<Rightarrow> nat \<times> bool" where
  "shipWithRetry reply = ship_from reply 0 2"

section \<open>The call\<close>

record pending_call =
  pc_action :: string
  pc_args :: "jval option"
  pc_serverName :: "string option"
  pc_kind :: transport_kind

definition patched_begin :: "string option \<Rightarrow> string \<Rightarrow> jval option \<Rightarrow> mcp_client \<Rightarrow> pending_call \<times> mcp_client" where
  "patched_begin version name args c =
     (let c' = learn_name version c;
          serverName = (if some_text (mk_serverName c) = None then or_else version (mk_serverName c) else mk_serverName c)
      in (\<lparr>pc_action = namespacedToolName name serverName, pc_args = args, pc_serverName = serverName,
           pc_kind = (case mk_transportKind c' of Some k \<Rightarrow> k | None \<Rightarrow> Transport_Stdio)\<rparr>, c'))"

datatype patched_result = Forwarded | Denied_Result jval | Throws_Type_Error

definition patched_end :: "stdio_config option \<Rightarrow> bool \<Rightarrow> pending_call \<Rightarrow> stdio_answer \<Rightarrow> suppression_map \<Rightarrow> int \<Rightarrow>
    patched_result \<times> stdio_audit option \<times> suppression_map" where
  "patched_end config evaluator p a tokens now = (case evaluate_end a of
     None \<Rightarrow> (Throws_Type_Error, None, tokens)
   | Some d \<Rightarrow>
       if er_decision d \<noteq> JStr ''allow'' then
         (Denied_Result (JObj [(''content'', JArr [JObj [(''type'', JStr ''text''), (''text'', JStr (denied_by_policy
             (if j_nullish (er_reason d) then None else Some (j_text (er_reason d)))))]]), (''isError'', JBool True)]),
          emitAuditBestEffort config evaluator (pc_action p) ''deny'' (er_reason d) (pc_args p) (pc_kind p), tokens)
       else (Forwarded, emitAuditBestEffort config evaluator (pc_action p) ''allow'' (er_reason d) (pc_args p) (pc_kind p),
         markMcpCallEvaluated tokens (pc_action p) (pc_args p) now))"

section \<open>What a call comes to\<close>

definition answer_allows :: "stdio_answer \<Rightarrow> bool" where
  "answer_allows a = (case a of
     Evaluator_Answers (Inr e) \<Rightarrow> te_decision e = Dec_Allow
   | Central_Body v \<Rightarrow> j_field v ''decision'' = JStr ''allow''
   | _ \<Rightarrow> False)"

lemma j_field_nullish: "j_nullish v \<Longrightarrow> j_field v k = JUndefined"
  by (auto simp: j_nullish_def j_field_def j_prop_def)

lemma answer_allows_iff: "answer_allows a \<longleftrightarrow> (\<exists>d. evaluate_end a = Some d \<and> er_decision d = JStr ''allow'')"
  by (auto simp: answer_allows_def evaluate_end_def deny_response_def j_field_nullish
      split: stdio_answer.splits sum.splits tool_decision.splits)

lemma patched_end_forwards: "fst (patched_end config evaluator p a tokens now) = Forwarded \<longleftrightarrow> answer_allows a"
  by (auto simp: patched_end_def answer_allows_iff split: option.splits)

lemma patched_end_tokens:
  "snd (snd (patched_end config evaluator p a tokens now)) =
     (if answer_allows a then markMcpCallEvaluated tokens (pc_action p) (pc_args p) now else tokens)"
  by (auto simp: patched_end_def answer_allows_iff split: option.splits)

lemma mark_then_consume:
  "consumeMcpCallEvaluated (markMcpCallEvaluated m a x t) a x now =
     (now < t + SUPPRESSION_TTL_MS, jm_del (suppressionKey a x) (markMcpCallEvaluated m a x t))"
  by (simp add: consumeMcpCallEvaluated_def markMcpCallEvaluated_def Let_def jm_get_set not_le)

lemma consume_deleted: "\<not> fst (consumeMcpCallEvaluated (jm_del (suppressionKey a x) m) a x now)"
  by (simp add: consumeMcpCallEvaluated_def Let_def jm_simps)

text \<open>C13: a call of a patched client over HTTP is evaluated once, by the patch. If its answer allows, the message that follows
  with nothing in between, within the token's five seconds, is sent on by the wire plane without another question or audit
  row, where the plane knows the server by the name the client knows it by; the same message sent again
  is asked about. If the answer does not allow, nothing is sent and no token is left.\<close>

theorem patched_call_is_evaluated_once:
  assumes "patched_begin version name args c = (p, c')"
    and "patched_end config evaluator p a tokens now = (result, audit, tokens')"
    and "parseMcpBody body = Some (Mp_Call \<lparr>mc_id = i, mc_toolName = name, mc_args = args\<rparr>)"
    and "readRequestBody input init = Some body" and "\<not> isMcpSdkOwnOrigin cfg url"
    and "key = mcpEndpointKey (\<lambda>u. map_option (\<lambda>q. (up_origin q, up_path q)) (fc_new_URL cfg u)) url"
    and "some_text (case jm_get (endpoints 0) key of Some r \<Rightarrow> ep_serverName r | None \<Rightarrow> None) = some_text (pc_serverName p)"
    and "now \<le> later" and "later < now + SUPPRESSION_TTL_MS"
  shows "let first = interceptMcpFetch cfg ev net endpoints tokens' later url input init in
    if answer_allows a then result = Forwarded \<and> mo_effects first = [Fe_Sent input init] \<and>
      (let again = interceptMcpFetch cfg ev net endpoints (mo_tokens first) later' url input init in
        \<exists>allowed row. Fe_Audit allowed row \<in> set (mo_effects again))
    else result \<noteq> Forwarded \<and> tokens' = tokens"
proof -
  have action: "mcpActionFor (endpoints 0) key name = pc_action p"
    using assms(1,7) by (auto simp: patched_begin_def mcpActionFor_def namespacedToolName_def Let_def)
  have args: "pc_args p = args" using assms(1) by (auto simp: patched_begin_def Let_def)
  have r: "result = Forwarded \<longleftrightarrow> answer_allows a"
    using patched_end_forwards [of config evaluator p a tokens now] assms(2) by simp
  have t: "tokens' = (if answer_allows a then markMcpCallEvaluated tokens (pc_action p) args now else tokens)"
    using patched_end_tokens [of config evaluator p a tokens now] assms(2) args by simp
  show ?thesis
  proof (cases "answer_allows a")
    case True
    let ?m = "markMcpCallEvaluated tokens (pc_action p) args now"
    let ?rest = "jm_del (suppressionKey (pc_action p) args) ?m"
    have first: "interceptMcpFetch cfg ev net endpoints tokens' later url input init = mcp_forward ?rest [] net input init"
      using assms(3-6,9) action t True by (simp add: interceptMcpFetch_def mark_then_consume Let_def)
    obtain m' where miss: "consumeMcpCallEvaluated ?rest (pc_action p) args later' = (False, m')"
      using consume_deleted [of "pc_action p" args ?m later'] by (metis (full_types) prod.exhaust fst_conv)
    have "\<exists>allowed sid. mcp_audit allowed (pc_action p) args key sid \<in> set (mo_effects (interceptMcpFetch cfg ev net endpoints ?rest later' url input init))"
      using assms(3-6) action miss by (simp add: interceptMcpFetch_def Let_def mcp_forward_def mcp_done_def) blast
    then have "\<exists>allowed row. Fe_Audit allowed row \<in> set (mo_effects (interceptMcpFetch cfg ev net endpoints ?rest later' url input init))"
      unfolding mcp_audit_def by blast
    then show ?thesis using True r first by (simp add: Let_def mcp_forward_def mcp_done_def)
  qed (simp add: r t Let_def)
qed

lemma empty_call_parses:
  "parseMcpBody sample_mcp_text = Some (Mp_Call \<lparr>mc_id = JNum ''1'', mc_toolName = ''f'', mc_args = Some (JObj [])\<rparr>)"
  by (simp add: sample_mcp_parse)

theorem patched_call_is_evaluated_once_witness:
  "let (p, c') = patched_begin None ''f'' (Some (JObj [])) mcp_client_new;
     (result, audit, tokens') = patched_end None True p (Evaluator_Answers (Inr (bare_evaluation Dec_Allow 0))) [] 0
   in result = Forwarded \<and> mo_effects (interceptMcpFetch (sample_fetch_cfg True) (\<lambda>i n a s. allow_f i n a) (\<lambda>i inp ini. None)
     (\<lambda>n. []) tokens' 100 ''u'' (In_Text ''u'') (sample_post sample_mcp_text)) = [Fe_Sent (In_Text ''u'') (sample_post sample_mcp_text)]"
proof -
  obtain p c' where b: "patched_begin None ''f'' (Some (JObj [])) mcp_client_new = (p, c')" by fastforce
  let ?a = "Evaluator_Answers (Inr (bare_evaluation Dec_Allow 0))"
  obtain result audit tokens' where e: "patched_end None True p ?a [] 0 = (result, audit, tokens')" by (metis prod_cases3)
  have rb: "readRequestBody (In_Text ''u'') (sample_post sample_mcp_text) = Some sample_mcp_text"
    by (simp add: readRequestBody_def sample_post_def)
  have own: "\<not> isMcpSdkOwnOrigin (sample_fetch_cfg True) ''u''" using sample_mcp_parse(2) by simp
  have name: "some_text (pc_serverName p) = None"
    using b by (auto simp: patched_begin_def mcp_client_new_def or_else_def some_text_def Let_def)
  have allows: "answer_allows ?a" by (simp add: answer_allows_def bare_evaluation_def)
  from patched_call_is_evaluated_once [OF b e empty_call_parses rb own refl,
      where endpoints = "\<lambda>n. []" and later = 100 and later' = 200 and ev = "\<lambda>i n a s. allow_f i n a" and net = "\<lambda>i inp ini. None"]
  show ?thesis using name allows by (simp add: b e Let_def SUPPRESSION_TTL_MS_def some_text_def)
qed

section \<open>All interleavings\<close>

text \<open>Any number of clients connect and call, their answers come in any order, and messages pass the wire plane.\<close>

datatype stdio_event =
  Sv_Connect nat "transport_object option" bool "string option"
| Sv_Call nat "string option" string "jval option"
| Sv_Answer nat bool stdio_answer int
| Sv_Wire string "jval option" int

record stdio_world =
  sw_clients :: "nat \<Rightarrow> mcp_client"
  sw_pending :: "pending_call list"
  sw_tokens :: suppression_map

definition stdio_start :: stdio_world where
  "stdio_start = \<lparr>sw_clients = (\<lambda>i. mcp_client_new), sw_pending = [], sw_tokens = []\<rparr>"

definition drop_nth :: "nat \<Rightarrow> 'a list \<Rightarrow> 'a list" where
  "drop_nth i xs = take i xs @ drop (Suc i) xs"

definition stdio_step :: "stdio_config option \<Rightarrow> stdio_world \<Rightarrow> stdio_event \<Rightarrow> stdio_world" where
  "stdio_step config w e = (case e of
     Sv_Connect i t connects v \<Rightarrow> w\<lparr>sw_clients := (sw_clients w)(i := patchedConnect t connects v (sw_clients w i))\<rparr>
   | Sv_Call i v name args \<Rightarrow> (case patched_begin v name args (sw_clients w i) of
       (p, c) \<Rightarrow> w\<lparr>sw_clients := (sw_clients w)(i := c), sw_pending := sw_pending w @ [p]\<rparr>)
   | Sv_Answer j evaluator a now \<Rightarrow>
       if j < length (sw_pending w) then
         w\<lparr>sw_pending := drop_nth j (sw_pending w),
           sw_tokens := snd (snd (patched_end config evaluator (sw_pending w ! j) a (sw_tokens w) now))\<rparr>
       else w
   | Sv_Wire action args now \<Rightarrow> w\<lparr>sw_tokens := snd (consumeMcpCallEvaluated (sw_tokens w) action args now)\<rparr>)"

definition stdio_run :: "stdio_config option \<Rightarrow> stdio_event list \<Rightarrow> stdio_world" where
  "stdio_run config = foldl (stdio_step config) stdio_start"

text \<open>What an event does to the tokens, in the terms of \<open>Mcp_Http\<close>.\<close>

definition token_events :: "stdio_world \<Rightarrow> stdio_event \<Rightarrow> token_event list" where
  "token_events w e = (case e of
     Sv_Answer j evaluator a now \<Rightarrow>
       if j < length (sw_pending w) \<and> answer_allows a
       then [Mark_Evaluated (pc_action (sw_pending w ! j)) (pc_args (sw_pending w ! j)) now] else []
   | Sv_Wire action args now \<Rightarrow> [Consume_Token action args now]
   | _ \<Rightarrow> [])"

fun token_history :: "stdio_config option \<Rightarrow> stdio_world \<Rightarrow> stdio_event list \<Rightarrow> token_event list" where
  "token_history config w [] = []"
| "token_history config w (e # es) = token_events w e @ token_history config (stdio_step config w e) es"

lemma step_tokens: "sw_tokens (stdio_step config w e) = foldl token_step (sw_tokens w) (token_events w e)"
  by (auto simp: stdio_step_def token_events_def patched_end_tokens split: stdio_event.splits prod.splits)

lemma run_tokens: "sw_tokens (foldl (stdio_step config) w es) = foldl token_step (sw_tokens w) (token_history config w es)"
  by (induction es arbitrary: w) (simp_all add: step_tokens)

text \<open>A call is answered with an allow at time \<open>t\<close> by the last event of \<open>es\<close>.\<close>

definition allowed_by :: "stdio_config option \<Rightarrow> stdio_event list \<Rightarrow> string \<Rightarrow> jval option \<Rightarrow> int \<Rightarrow> stdio_event \<Rightarrow> bool" where
  "allowed_by config es action args t e \<longleftrightarrow> (\<exists>j evaluator a. e = Sv_Answer j evaluator a t \<and> answer_allows a \<and>
     j < length (sw_pending (stdio_run config es)) \<and> pc_action (sw_pending (stdio_run config es) ! j) = action \<and>
     pc_args (sw_pending (stdio_run config es) ! j) = args)"

lemma history_append:
  "token_history config w (es @ fs) = token_history config w es @ token_history config (foldl (stdio_step config) w es) fs"
  by (induction es arbitrary: w) simp_all

lemma token_events_cases:
  "token_events w e = [] \<or> (\<exists>a x s. token_events w e = [Consume_Token a x s]) \<or> (\<exists>a x s. token_events w e = [Mark_Evaluated a x s])"
  by (auto simp: token_events_def split: stdio_event.splits)

lemma mark_in_history:
  assumes "token_history config stdio_start es = before @ Mark_Evaluated action args t # later"
  shows "\<exists>xs e ys. es = xs @ e # ys \<and> allowed_by config xs action args t e \<and>
    later = token_history config (stdio_run config (xs @ [e])) ys"
  using assms
proof (induction es arbitrary: later rule: rev_induct)
  case (snoc e es)
  let ?last = "token_events (stdio_run config es) e"
  have h: "token_history config stdio_start es @ ?last = before @ Mark_Evaluated action args t # later"
    using snoc.prems by (simp add: history_append stdio_run_def)
  consider "?last = []" | a x s where "?last = [Consume_Token a x s]" | a x s where "?last = [Mark_Evaluated a x s]"
    using token_events_cases by blast
  then have "(\<exists>later'. token_history config stdio_start es = before @ Mark_Evaluated action args t # later' \<and> later = later' @ ?last) \<or>
      (later = [] \<and> ?last = [Mark_Evaluated action args t])"
    using h by cases (auto simp: append_eq_append_conv2 Cons_eq_append_conv append_eq_Cons_conv)
  then show ?case
  proof (elim disjE exE conjE)
    fix later' assume l: "token_history config stdio_start es = before @ Mark_Evaluated action args t # later'" "later = later' @ ?last"
    from snoc.IH [OF l(1)] obtain xs e' ys where i: "es = xs @ e' # ys" "allowed_by config xs action args t e'"
        "later' = token_history config (stdio_run config (xs @ [e'])) ys" by blast
    have "later = token_history config (stdio_run config (xs @ [e'])) (ys @ [e])"
      using l(2) i(1,3) by (simp add: history_append stdio_run_def)
    then show ?thesis using i(1,2) by (intro exI [of _ xs] exI [of _ e'] exI [of _ "ys @ [e]"]) simp
  next
    assume l: "later = []" "?last = [Mark_Evaluated action args t]"
    then have "allowed_by config es action args t e"
      by (cases e) (auto simp: token_events_def allowed_by_def split: if_splits)
    then show ?thesis using l(1) by (intro exI [of _ es] exI [of _ e] exI [of _ "[]"]) simp
  qed
qed simp

lemma wire_in_history: "Sv_Wire a x s \<in> set es \<Longrightarrow> Consume_Token a x s \<in> set (token_history config w es)"
  by (induction es arbitrary: w) (auto simp: token_events_def)

text \<open>C14: among any number of patched clients, whose calls and answers interleave with the messages on the wire: the
  wire plane lets a message pass without asking only if an answer less than five seconds before allowed a call
  waiting for just that action with just those arguments, and no message with the same key has passed since. It holds
  where the call's text stays below 512 characters (longer ones can share a token: \<open>long_calls_share_a_token\<close>), the name of
  the action has no colon and the arguments are a JSON object, and likewise for the calls that were allowed before.\<close>

theorem wire_skip_was_allowed:
  assumes "fst (consumeMcpCallEvaluated (sw_tokens (stdio_run config evs)) action args now)"
    and "length (call_text action args) < 512" and "plain_call action args"
    and "\<forall>before e later a x t. evs = before @ e # later \<and> allowed_by config before a x t e \<longrightarrow> plain_call a x"
  shows "\<exists>before e later t. evs = before @ e # later \<and> allowed_by config before action args t e \<and>
    now < t + SUPPRESSION_TTL_MS \<and> (\<forall>a x s. Sv_Wire a x s \<in> set later \<longrightarrow> suppressionKey a x \<noteq> suppressionKey action args)"
proof -
  let ?h = "token_history config stdio_start evs"
  have tokens: "sw_tokens (stdio_run config evs) = foldl token_step [] ?h"
    using run_tokens [of config stdio_start evs] by (simp add: stdio_run_def stdio_start_def)
  have "\<forall>a x t. Mark_Evaluated a x t \<in> set ?h \<longrightarrow> plain_call a x"
    using assms(4) by (metis mark_in_history split_list)
  from skipped_was_marked [OF assms(1) [unfolded tokens] assms(2,3) this] obtain before t later where
    h: "?h = before @ Mark_Evaluated action args t # later" "now < t + SUPPRESSION_TTL_MS"
      "\<forall>e \<in> set later. token_key e \<noteq> suppressionKey action args" by blast
  from mark_in_history [OF h(1)] obtain xs e ys where s: "evs = xs @ e # ys" "allowed_by config xs action args t e"
    "later = token_history config (stdio_run config (xs @ [e])) ys" by blast
  have "\<forall>a x s. Sv_Wire a x s \<in> set ys \<longrightarrow> suppressionKey a x \<noteq> suppressionKey action args"
    using h(3) s(3) wire_in_history [of _ _ _ ys config "stdio_run config (xs @ [e])"]
    by (metis token_event.simps(6) token_key_def)
  with s(1,2) h(2) show ?thesis by blast
qed

definition sample_stdio_run :: "stdio_event list" where
  "sample_stdio_run = [Sv_Connect 0 None True (Some ''files''), Sv_Call 0 None ''ls'' None,
     Sv_Answer 0 True (Evaluator_Answers (Inr (bare_evaluation Dec_Allow 0))) 10]"

theorem wire_skip_was_allowed_witness:
  "\<exists>before e later t. sample_stdio_run = before @ e # later \<and> allowed_by None before ''ls_mcp_files'' None t e \<and> 20 < t + SUPPRESSION_TTL_MS"
proof -
  have hit: "fst (consumeMcpCallEvaluated (sw_tokens (stdio_run None sample_stdio_run)) ''ls_mcp_files'' None 20)"
    by code_simp
  have "plain_call a x" if "sample_stdio_run = before @ e # later" "allowed_by None before a x t e" for before e later a x t
  proof -
    have "allowed_by None (take n sample_stdio_run) a x t (sample_stdio_run ! n) \<Longrightarrow> n < 3 \<Longrightarrow> plain_call a x" for n
      by (auto simp: allowed_by_def sample_stdio_run_def less_Suc_eq numeral_3_eq_3 stdio_run_def stdio_step_def stdio_start_def
        patchedConnect_def patched_begin_def learn_name_def mcp_client_new_def some_text_def namespacedToolName_def plain_call_def Let_def)
    moreover have "before = take (length before) sample_stdio_run" "e = sample_stdio_run ! length before"
      by (simp_all add: that(1))
    moreover have "length before < 3" using arg_cong [OF that(1), of length] by (simp add: sample_stdio_run_def)
    ultimately show ?thesis using that(2) by metis
  qed
  then show ?thesis using wire_skip_was_allowed [OF hit] by (simp add: call_text_def plain_call_def) blast
qed

section \<open>Where the patch does otherwise\<close>

text \<open>The action of a call does not tell its server: a tool with the separator in its name, on a server without a name,
  is asked about as another server's tool.\<close>

lemma actions_collide: "namespacedToolName ''read_mcp_vault'' None = namespacedToolName ''read'' (Some ''vault'')"
  by code_simp

text \<open>The server's name and the kind of transport are learnt once: a client that connects to another server keeps asking
  under the first one's name.\<close>

lemma reconnected_client_keeps_its_name:
  "let c = patchedConnect None True (Some ''prod'') (patchedConnect None True (Some ''test'') mcp_client_new) in
   pc_action (fst (patched_begin (Some ''prod'') ''drop'' None c)) = ''drop_mcp_test''"
  by code_simp

text \<open>A call over pipes leaves its token behind, as no message passes the wire plane: another client's call of the same name
  and arguments within five seconds passes without a question.\<close>

lemma stdio_token_lets_another_call_pass:
  "fst (consumeMcpCallEvaluated (sw_tokens (stdio_run None [Sv_Connect 0 (Some \<lparr>to_ctorName = ''StdioClientTransport'', to_urlish = JUndefined\<rparr>) True None,
     Sv_Call 0 None ''ls'' None, Sv_Answer 0 True (Evaluator_Answers (Inr (bare_evaluation Dec_Allow 0))) 10])) ''ls'' None 4000)"
  by code_simp

text \<open>The test of the constructor's name looks for three letters anywhere in it.\<close>

lemma process_transport_reads_as_http:
  "detectTransportKind (Some \<lparr>to_ctorName = ''ProcessExecTransport'', to_urlish = JUndefined\<rparr>) = Transport_Http"
  by code_simp

text \<open>The raw post of an audit row makes at most two requests.\<close>

lemma ship_bounded: "fst (shipWithRetry reply) \<in> {1, 2}"
  by (simp add: shipWithRetry_def numeral_2_eq_2 split: option.split)

end
