(* ===== verification/Session_Pool.thy ===== *)
theory Session_Pool
  imports Sdk_Prelude "HOL-Library.Multiset"
begin

text \<open>
  The pool of sessions that the framework adapters keep (\<open>SessionPool\<close> of \<^verbatim>\<open>frameworks/express/index.ts\<close>, whose text
  \<open>ServiceSessionPool\<close> and the Fastify plugin repeat). A session is the number of its minting; whether it has
  expired is read from the object when it is looked up. \<open>getOrCreate\<close> is cut at its await: \<open>getOrCreate\<close> up to the
  promise it returns, \<open>session_minted\<close> and \<open>mint_failed\<close> when that settles. The system runs any number of requests,
  whose identities a client of the pool turns into keys: the locale states what it must promise.
\<close>

section \<open>The pool\<close>

record session_pool =
  sp_pool :: "(string, nat) jsmap"
  sp_inflight :: "string list"
  sp_maxSize :: int

definition pool_new :: "int \<Rightarrow> session_pool" where
  "pool_new maxSize = \<lparr>sp_pool = [], sp_inflight = [], sp_maxSize = max 1 (to_int32 maxSize)\<rparr>"

definition pool_get :: "string \<Rightarrow> session_pool \<Rightarrow> nat option \<times> session_pool" where
  "pool_get key p = (case jm_get (sp_pool p) key of
     None \<Rightarrow> (None, p)
   | Some s \<Rightarrow> (Some s, p\<lparr>sp_pool := jm_set key s (jm_del key (sp_pool p))\<rparr>))"

text \<open>The oldest session, which is closed, and the pool without it.\<close>

definition evictIfFull :: "string \<Rightarrow> session_pool \<Rightarrow> nat list \<times> session_pool" where
  "evictIfFull key p = (if jm_size (sp_pool p) \<ge> sp_maxSize p \<and> \<not> jm_has (sp_pool p) key then
     (case sp_pool p of [] \<Rightarrow> ([], p) | (oldest, s) # _ \<Rightarrow> ([s], p\<lparr>sp_pool := jm_drop_oldest (sp_pool p)\<rparr>))
   else ([], p))"

datatype pool_answer = Has_Session nat | Joins_Mint | Starts_Mint

text \<open>With the sessions that are closed on the way.\<close>

definition getOrCreate :: "string \<Rightarrow> (nat \<Rightarrow> bool) \<Rightarrow> session_pool \<Rightarrow> pool_answer \<times> nat list \<times> session_pool" where
  "getOrCreate key expired p =
     (case pool_get key p of
        (Some s, p') \<Rightarrow>
          if \<not> expired s then (Has_Session s, [], p')
          else (let p'' = p'\<lparr>sp_pool := jm_del key (sp_pool p')\<rparr> in
            if key \<in> set (sp_inflight p'') then (Joins_Mint, [s], p'')
            else (Starts_Mint, [s], p''\<lparr>sp_inflight := sp_inflight p'' @ [key]\<rparr>))
      | (None, p') \<Rightarrow>
          if key \<in> set (sp_inflight p') then (Joins_Mint, [], p')
          else (Starts_Mint, [], p'\<lparr>sp_inflight := sp_inflight p' @ [key]\<rparr>))"

definition session_minted :: "string \<Rightarrow> nat \<Rightarrow> session_pool \<Rightarrow> nat list \<times> session_pool" where
  "session_minted key s p =
     (case evictIfFull key (p\<lparr>sp_inflight := removeAll key (sp_inflight p)\<rparr>) of
        (closed, p') \<Rightarrow> (closed, p'\<lparr>sp_pool := jm_set key s (sp_pool p')\<rparr>))"

definition mint_failed :: "string \<Rightarrow> session_pool \<Rightarrow> session_pool" where
  "mint_failed key p = p\<lparr>sp_inflight := removeAll key (sp_inflight p)\<rparr>"

definition closeAll :: "session_pool \<Rightarrow> nat list \<times> session_pool" where
  "closeAll p = (map snd (sp_pool p), p\<lparr>sp_pool := []\<rparr>)"

section \<open>Requests over a pool\<close>

datatype 'id pool_op = Pool_Request 'id "nat \<Rightarrow> bool" | Pool_Minted string | Pool_Failed string | Pool_Close

text \<open>Beside the pool: who started the mint under way for a key, who waits for it, and the history: the sessions minted
  and for whom, who was served which, and those closed.\<close>

record 'id pool_world =
  pw_pool :: session_pool
  pw_minting :: "(string \<times> 'id) list"
  pw_waiting :: "(string \<times> 'id) list"
  pw_minted :: "(nat \<times> 'id) list"
  pw_served :: "('id \<times> nat) list"
  pw_closed :: "nat list"

definition pool_start :: "int \<Rightarrow> 'id pool_world" where
  "pool_start maxSize = \<lparr>pw_pool = pool_new maxSize, pw_minting = [], pw_waiting = [], pw_minted = [], pw_served = [], pw_closed = []\<rparr>"

definition pool_step :: "('id \<Rightarrow> string) \<Rightarrow> 'id pool_world \<Rightarrow> 'id pool_op \<Rightarrow> 'id pool_world" where
  "pool_step key_of w e = (case e of
     Pool_Request i expired \<Rightarrow>
       (case getOrCreate (key_of i) expired (pw_pool w) of
          (Has_Session s, closed, p) \<Rightarrow> w\<lparr>pw_pool := p, pw_served := (i, s) # pw_served w\<rparr>
        | (Joins_Mint, closed, p) \<Rightarrow> w\<lparr>pw_pool := p, pw_waiting := (key_of i, i) # pw_waiting w, pw_closed := closed @ pw_closed w\<rparr>
        | (Starts_Mint, closed, p) \<Rightarrow> w\<lparr>pw_pool := p, pw_minting := (key_of i, i) # pw_minting w,
            pw_waiting := (key_of i, i) # pw_waiting w, pw_closed := closed @ pw_closed w\<rparr>)
   | Pool_Minted key \<Rightarrow>
       (case map_of (pw_minting w) key of
          None \<Rightarrow> w
        | Some i \<Rightarrow>
            let s = length (pw_minted w) in
            (case session_minted key s (pw_pool w) of
               (closed, p) \<Rightarrow> w\<lparr>pw_pool := p, pw_minting := filter (\<lambda>(k, _). k \<noteq> key) (pw_minting w),
                 pw_waiting := filter (\<lambda>(k, _). k \<noteq> key) (pw_waiting w), pw_minted := (s, i) # pw_minted w,
                 pw_served := map (\<lambda>(_, j). (j, s)) (filter (\<lambda>(k, _). k = key) (pw_waiting w)) @ pw_served w,
                 pw_closed := closed @ pw_closed w\<rparr>))
   | Pool_Failed key \<Rightarrow> w\<lparr>pw_pool := mint_failed key (pw_pool w), pw_minting := filter (\<lambda>(k, _). k \<noteq> key) (pw_minting w),
       pw_waiting := filter (\<lambda>(k, _). k \<noteq> key) (pw_waiting w)\<rparr>
   | Pool_Close \<Rightarrow> (case closeAll (pw_pool w) of (closed, p) \<Rightarrow> w\<lparr>pw_pool := p, pw_closed := closed @ pw_closed w\<rparr>))"

definition pool_run :: "('id \<Rightarrow> string) \<Rightarrow> int \<Rightarrow> 'id pool_op list \<Rightarrow> 'id pool_world" where
  "pool_run key_of maxSize = foldl (pool_step key_of) (pool_start maxSize)"

section \<open>What the pool promises\<close>

text \<open>Sessions are served under the key they were minted for.\<close>

definition keyed :: "('id \<Rightarrow> string) \<Rightarrow> 'id pool_world \<Rightarrow> bool" where
  "keyed key_of w \<longleftrightarrow>
     (\<forall>k s. jm_get (sp_pool (pw_pool w)) k = Some s \<longrightarrow> (\<exists>i. (s, i) \<in> set (pw_minted w) \<and> key_of i = k)) \<and>
     (\<forall>(k, i) \<in> set (pw_minting w). key_of i = k) \<and> (\<forall>(k, i) \<in> set (pw_waiting w). key_of i = k) \<and>
     (\<forall>(j, s) \<in> set (pw_served w). \<exists>i. (s, i) \<in> set (pw_minted w) \<and> key_of i = key_of j)"

lemma getOrCreate_lookup:
  assumes "getOrCreate k expired p = (r, closed, p')" and "jm_get (sp_pool p') k' = Some s"
  shows "jm_get (sp_pool p) k' = Some s"
  using assms by (auto simp: getOrCreate_def pool_get_def Let_def jm_simps split: option.splits if_splits)

lemma getOrCreate_has:
  assumes "getOrCreate k expired p = (Has_Session s, closed, p')"
  shows "jm_get (sp_pool p) k = Some s \<and> \<not> expired s \<and> closed = []"
  using assms by (auto simp: getOrCreate_def pool_get_def Let_def split: option.splits if_splits)

lemma session_minted_lookup:
  assumes "session_minted k s p = (closed, p')" and "jm_get (sp_pool p') k' = Some s'"
  shows "(k' = k \<and> s' = s) \<or> jm_get (sp_pool p) k' = Some s'"
  using assms by (auto simp: session_minted_def evictIfFull_def jm_simps split: prod.splits if_splits list.splits
      dest: jm_get_drop_oldest)

lemma keyed_step:
  assumes "keyed key_of w"
  shows "keyed key_of (pool_step key_of w e)"
proof (cases e)
  case (Pool_Request i expired)
  obtain r closed p where g: "getOrCreate (key_of i) expired (pw_pool w) = (r, closed, p)" by (metis prod_cases3)
  show ?thesis using assms Pool_Request g getOrCreate_lookup [OF g] getOrCreate_has [of "key_of i" expired "pw_pool w" _ closed p]
    by (cases r) (fastforce simp: keyed_def pool_step_def)+
next
  case (Pool_Minted key)
  show ?thesis
  proof (cases "map_of (pw_minting w) key")
    case None
    then show ?thesis using assms Pool_Minted by (simp add: pool_step_def)
  next
    case (Some i)
    obtain closed p where s: "session_minted key (length (pw_minted w)) (pw_pool w) = (closed, p)" by fastforce
    have i: "key_of i = key" using assms map_of_SomeD [OF Some] by (auto simp: keyed_def)
    show ?thesis using assms Pool_Minted Some s i session_minted_lookup [OF s]
      by (fastforce simp: keyed_def pool_step_def Let_def)
  qed
qed (use assms in \<open>auto simp: keyed_def pool_step_def mint_failed_def closeAll_def\<close>)

lemma keyed_run: "keyed key_of (pool_run key_of maxSize es)"
  by (induction es rule: rev_induct) (simp_all add: pool_run_def keyed_step, simp add: keyed_def pool_start_def pool_new_def)

text \<open>Every session is in the pool or has been closed, and only once; the pool keeps its bound.\<close>

definition conserved :: "'id pool_world \<Rightarrow> bool" where
  "conserved w \<longleftrightarrow> jm_ok (sp_pool (pw_pool w)) \<and> 1 \<le> sp_maxSize (pw_pool w) \<and> jm_size (sp_pool (pw_pool w)) \<le> sp_maxSize (pw_pool w) \<and>
     (\<forall>k \<in> fst ` set (pw_minting w). jm_get (sp_pool (pw_pool w)) k = None) \<and> set (sp_inflight (pw_pool w)) = fst ` set (pw_minting w) \<and>
     mset (map fst (pw_minted w)) = mset (pw_closed w) + mset (map snd (sp_pool (pw_pool w))) \<and>
     distinct (map fst (pw_minted w)) \<and> (\<forall>(s, i) \<in> set (pw_minted w). s < length (pw_minted w))"

lemma mset_jm_del:
  "jm_ok m \<Longrightarrow> jm_get m k = Some v \<Longrightarrow> mset (map snd m) = add_mset v (mset (map snd (jm_del k m)))"
  by (induction m) (auto simp: jm_del_id split: if_splits)

lemma mset_jm_set: "jm_get m k = None \<Longrightarrow> mset (map snd (jm_set k v m)) = add_mset v (mset (map snd m))"
  by (induction m) (auto split: if_splits)

lemma getOrCreate_conserves:
  assumes "getOrCreate k expired p = (r, closed, p')" and "jm_ok (sp_pool p)"
  shows "jm_ok (sp_pool p') \<and> sp_maxSize p' = sp_maxSize p \<and> jm_size (sp_pool p') \<le> jm_size (sp_pool p) \<and>
    mset (map snd (sp_pool p)) = mset closed + mset (map snd (sp_pool p')) \<and>
    (\<forall>k'. jm_get (sp_pool p) k' = None \<longrightarrow> jm_get (sp_pool p') k' = None) \<and>
    (case r of Has_Session s \<Rightarrow> sp_inflight p' = sp_inflight p
     | Joins_Mint \<Rightarrow> sp_inflight p' = sp_inflight p \<and> k \<in> set (sp_inflight p)
     | Starts_Mint \<Rightarrow> sp_inflight p' = sp_inflight p @ [k] \<and> k \<notin> set (sp_inflight p) \<and> jm_get (sp_pool p') k = None)"
proof (cases "jm_get (sp_pool p) k")
  case None
  then show ?thesis using assms by (auto simp: getOrCreate_def pool_get_def split: if_splits)
next
  case (Some s)
  let ?m = "jm_set k s (jm_del k (sp_pool p))"
  have bump: "jm_ok ?m" "jm_size ?m = jm_size (sp_pool p)" "\<And>k'. jm_get ?m k' = jm_get (sp_pool p) k'"
    using jm_bump [OF assms(2) Some] by auto
  have del: "jm_del k ?m = jm_del k (sp_pool p)"
    by (simp add: delete_update_same delete_idem)
  have ms: "mset (map snd ?m) = mset (map snd (sp_pool p))"
    using mset_jm_del [OF assms(2) Some] mset_jm_set [of "jm_del k (sp_pool p)" k s] by (simp add: jm_simps)
  show ?thesis using assms Some bump del ms mset_jm_del [OF assms(2) Some] jm_size_del_le [of k "sp_pool p"]
    by (auto simp: getOrCreate_def pool_get_def Let_def jm_simps split: if_splits)
qed

lemma session_minted_conserves:
  assumes "session_minted k s p = (closed, p')" and "jm_ok (sp_pool p)" and "jm_get (sp_pool p) k = None"
    and "1 \<le> sp_maxSize p" and "jm_size (sp_pool p) \<le> sp_maxSize p"
  shows "jm_ok (sp_pool p') \<and> sp_maxSize p' = sp_maxSize p \<and> jm_size (sp_pool p') \<le> sp_maxSize p \<and>
    add_mset s (mset (map snd (sp_pool p))) = mset closed + mset (map snd (sp_pool p')) \<and>
    (\<forall>k'. k' \<noteq> k \<longrightarrow> jm_get (sp_pool p) k' = None \<longrightarrow> jm_get (sp_pool p') k' = None) \<and>
    sp_inflight p' = removeAll k (sp_inflight p)"
proof (cases "jm_size (sp_pool p) \<ge> sp_maxSize p")
  case False
  then show ?thesis using assms mset_jm_set [OF assms(3), of s]
    by (auto simp: session_minted_def evictIfFull_def jm_simps length_jm_set)
next
  case True
  with assms(4) obtain k0 s0 rest where m: "sp_pool p = (k0, s0) # rest" by (cases "sp_pool p") auto
  have d: "jm_drop_oldest (sp_pool p) = rest" using jm_drop_oldest_tl [OF assms(2)] m by simp
  have n: "jm_get rest k = None" "k \<noteq> k0" using assms(3) m by (auto split: if_splits)
  have ok: "jm_ok rest" "k0 \<notin> fst ` set rest" using assms(2) m by auto
  show ?thesis using assms True m d n ok mset_jm_set [OF n(1), of s]
    by (auto simp: session_minted_def evictIfFull_def jm_simps length_jm_set split: if_splits)
qed

lemma conserved_step:
  assumes "conserved w"
  shows "conserved (pool_step key_of w e)"
proof (cases e)
  case (Pool_Request i expired)
  obtain r closed p where g: "getOrCreate (key_of i) expired (pw_pool w) = (r, closed, p)" by (metis prod_cases3)
  have ok: "jm_ok (sp_pool (pw_pool w))" using assms by (simp add: conserved_def)
  note c = getOrCreate_conserves [OF g ok]
  show ?thesis using assms Pool_Request g c
    by (cases r) (auto simp: conserved_def pool_step_def getOrCreate_has dest: getOrCreate_has)
next
  case (Pool_Minted key)
  show ?thesis
  proof (cases "map_of (pw_minting w) key")
    case None
    then show ?thesis using assms Pool_Minted by (simp add: pool_step_def)
  next
    case (Some i)
    obtain closed p where s: "session_minted key (length (pw_minted w)) (pw_pool w) = (closed, p)" by fastforce
    have n: "jm_get (sp_pool (pw_pool w)) key = None" using assms map_of_SomeD [OF Some] by (force simp: conserved_def)
    have w: "jm_ok (sp_pool (pw_pool w))" "1 \<le> sp_maxSize (pw_pool w)" "jm_size (sp_pool (pw_pool w)) \<le> sp_maxSize (pw_pool w)"
        "set (sp_inflight (pw_pool w)) = fst ` set (pw_minting w)" "distinct (map fst (pw_minted w))"
        "\<forall>(s, i) \<in> set (pw_minted w). s < length (pw_minted w)" "\<forall>k \<in> fst ` set (pw_minting w). jm_get (sp_pool (pw_pool w)) k = None"
        "mset (map fst (pw_minted w)) = mset (pw_closed w) + mset (map snd (sp_pool (pw_pool w)))"
      using assms by (simp_all add: conserved_def)
    note c = session_minted_conserves [OF s w(1) n w(2,3)]
    let ?w = "pool_step key_of w e"
    have p: "pw_pool ?w = p" "pw_minting ?w = filter (\<lambda>(k, _). k \<noteq> key) (pw_minting w)"
        "pw_minted ?w = (length (pw_minted w), i) # pw_minted w" "pw_closed ?w = closed @ pw_closed w"
      using Pool_Minted Some s by (simp_all add: pool_step_def Let_def)
    have "\<forall>k \<in> fst ` set (pw_minting ?w). jm_get (sp_pool p) k = None" using w(7) c by (auto simp: p(2))
    moreover have "set (sp_inflight p) = fst ` set (pw_minting ?w)" using w(4) c by (auto simp: p(2) image_iff)
    moreover have "mset (map fst (pw_minted ?w)) = mset (pw_closed ?w) + mset (map snd (sp_pool p))"
      using w(8) c by (simp add: p(3,4))
    moreover have "distinct (map fst (pw_minted ?w))" "\<forall>(s, i) \<in> set (pw_minted ?w). s < length (pw_minted ?w)"
      using w(5,6) by (auto simp: p(3))
    ultimately show ?thesis using c w(2) by (simp add: conserved_def p(1))
  qed
next
  case (Pool_Failed key)
  have "fst ` set (filter (\<lambda>(k, _). k \<noteq> key) (pw_minting w)) = fst ` set (pw_minting w) - {key}" by (auto simp: image_iff)
  then show ?thesis using assms Pool_Failed by (auto simp: conserved_def pool_step_def mint_failed_def)
next
  case Pool_Close
  then show ?thesis using assms by (simp add: conserved_def pool_step_def closeAll_def)
qed

lemma conserved_run: "conserved (pool_run key_of maxSize es)"
  by (induction es rule: rev_induct) (simp_all add: pool_run_def conserved_step,
    simp add: conserved_def pool_start_def pool_new_def)

lemma run_bound: "sp_maxSize (pw_pool (pool_run key_of maxSize es)) = max 1 (to_int32 maxSize)"
proof (induction es rule: rev_induct)
  case (snoc e es)
  have "sp_maxSize (pw_pool (pool_step key_of w e)) = sp_maxSize (pw_pool w)" for w
    by (cases e) (auto simp: pool_step_def getOrCreate_def pool_get_def session_minted_def evictIfFull_def mint_failed_def closeAll_def
      Let_def split: prod.splits pool_answer.splits option.splits if_splits list.splits)
  with snoc show ?case by (simp add: pool_run_def)
qed (simp add: pool_run_def pool_start_def pool_new_def)

text \<open>Only identities that were requested turn up in the history.\<close>

definition requested :: "'id pool_op list \<Rightarrow> 'id set" where
  "requested es = {i. \<exists>expired. Pool_Request i expired \<in> set es}"

definition known :: "'id set \<Rightarrow> 'id pool_world \<Rightarrow> bool" where
  "known ids w \<longleftrightarrow> (\<forall>(k, i) \<in> set (pw_minting w). i \<in> ids) \<and> (\<forall>(k, i) \<in> set (pw_waiting w). i \<in> ids) \<and>
     (\<forall>(s, i) \<in> set (pw_minted w). i \<in> ids) \<and> (\<forall>(i, s) \<in> set (pw_served w). i \<in> ids)"

lemma known_step: "known ids w \<Longrightarrow> known (ids \<union> requested [e]) (pool_step key_of w e)"
proof (cases e)
  case (Pool_Minted key)
  assume "known ids w"
  then show ?thesis using Pool_Minted
    by (fastforce simp: known_def pool_step_def Let_def dest: map_of_SomeD split: prod.split option.split)
qed (auto simp: known_def requested_def pool_step_def closeAll_def split: prod.splits pool_answer.splits)

lemma known_run: "known (requested es) (pool_run key_of maxSize es)"
proof (induction es rule: rev_induct)
  case (snoc e es)
  have "requested (es @ [e]) = requested es \<union> requested [e]" by (auto simp: requested_def)
  then show ?case using known_step [OF snoc, of e key_of] by (simp add: pool_run_def)
qed (simp add: known_def pool_run_def pool_start_def)

text \<open>The contract of a client: its keys tell apart the principals its sessions are bound to, among the identities that are
  fit to be turned into keys.\<close>

locale pooled_sessions =
  fixes key_of :: "'id \<Rightarrow> string" and principal :: "'id \<Rightarrow> 'p" and fit :: "'id \<Rightarrow> bool"
  assumes key_inject: "fit a \<Longrightarrow> fit b \<Longrightarrow> key_of a = key_of b \<Longrightarrow> principal a = principal b"
begin

lemma served_own:
  assumes "\<forall>i \<in> requested es. fit i" and "(j, s) \<in> set (pw_served (pool_run key_of maxSize es))"
  shows "\<exists>i \<in> requested es. (s, i) \<in> set (pw_minted (pool_run key_of maxSize es)) \<and> principal i = principal j"
proof -
  obtain i where i: "(s, i) \<in> set (pw_minted (pool_run key_of maxSize es))" "key_of i = key_of j"
    using keyed_run [of key_of maxSize es] assms(2) by (auto simp: keyed_def)
  have "i \<in> requested es" "j \<in> requested es"
    using known_run [of es key_of maxSize] i(1) assms(2) by (force simp: known_def)+
  with i assms(1) key_inject [of i j] show ?thesis by blast
qed

text \<open>A session serves one principal only.\<close>

lemma served_same:
  assumes "\<forall>i \<in> requested es. fit i" and "(j, s) \<in> set (pw_served (pool_run key_of maxSize es))"
    and "(j', s) \<in> set (pw_served (pool_run key_of maxSize es))"
  shows "principal j = principal j'"
proof -
  have "distinct (map fst (pw_minted (pool_run key_of maxSize es)))"
    using conserved_run [of key_of maxSize es] by (simp add: conserved_def)
  moreover obtain i i' where "(s, i) \<in> set (pw_minted (pool_run key_of maxSize es))" "principal i = principal j"
      "(s, i') \<in> set (pw_minted (pool_run key_of maxSize es))" "principal i' = principal j'"
    using served_own [OF assms(1,2)] served_own [OF assms(1,3)] by blast
  ultimately show ?thesis by (metis eq_key_imp_eq_value)
qed

end

section \<open>Where the pool does otherwise\<close>

text \<open>An evicted session is closed though a request may still be using it.\<close>

lemma evicted_in_use:
  "let w = pool_run id 1 [Pool_Request ''a'' (\<lambda>s. False), Pool_Minted ''a'', Pool_Request ''b'' (\<lambda>s. False), Pool_Minted ''b''] in
   (''a'', 0) \<in> set (pw_served w) \<and> pw_closed w = [0]"
  by code_simp

text \<open>A mint that ends after \<open>closeAll\<close> puts its session into the closed pool, where nobody closes it.\<close>

lemma late_mint_stays_open:
  "let w = pool_run id 5 [Pool_Request ''a'' (\<lambda>s. False), Pool_Close, Pool_Minted ''a''] in
   sp_pool (pw_pool w) = [(''a'', 0)] \<and> pw_closed w = []"
  by code_simp

text \<open>A bound of \<open>2 ^ 31\<close> or more wraps to a pool of one session.\<close>

lemma huge_bound_wraps: "sp_maxSize (pool_new (2 ^ 31)) = 1"
  by (simp add: pool_new_def to_int32_def)

end
