(* ===== verification/Express_Middleware.thy ===== *)
theory Express_Middleware
  imports Session_Pool Express_Guard Mcp_Http
begin

text \<open>
  \<^verbatim>\<open>frameworks/express/index.ts\<close>: the middleware that gives each request a session, and \<^verbatim>\<open>webhook-guard.ts\<close> of the
  Express and Next.js adapters. A handler is cut at its awaits: the callbacks of the host (who the user is, which
  agent), the pool (\<open>Session_Pool\<close>), and the policy check. The host's callbacks for refusals are the host's; the
  default ones are written out.
\<close>

section \<open>Configuration\<close>

record middleware_opts =
  xm_client :: bool
  xm_userFromRequest :: bool
  xm_tokenFromRequest :: bool
  xm_resolveAgent :: bool
  xm_agentId :: "string option"
  xm_observe :: bool
  xm_failMode :: "fail_mode option"
  xm_sessionCacheMax :: "int option"
  xm_maxPoolSize :: "int option"

definition DEFAULT_SESSION_POOL_SIZE :: int where "DEFAULT_SESSION_POOL_SIZE = 256"

text \<open>\<^verbatim>\<open>agentumMiddleware\<close>: the message it throws, or the pool it starts with and its fail mode.\<close>

definition agentumMiddleware :: "middleware_opts \<Rightarrow> string + session_pool \<times> fail_mode" where
  "agentumMiddleware opts =
     (if \<not> xm_client opts then Inl ''agentumMiddleware: `runtime` (or legacy `client`) is required''
      else if xm_userFromRequest opts \<and> xm_tokenFromRequest opts then
        Inl ''agentumMiddleware: `userFromRequest` and `tokenFromRequest` are mutually exclusive''
      else if \<not> xm_resolveAgent opts \<and> some_text (xm_agentId opts) = None then
        Inl ''agentumMiddleware: either `agentId` (with optional `userFromRequest`) or `resolveAgent` must be provided''
      else Inr (pool_new (case xm_sessionCacheMax opts of Some n \<Rightarrow> n
          | None \<Rightarrow> (case xm_maxPoolSize opts of Some n \<Rightarrow> n | None \<Rightarrow> DEFAULT_SESSION_POOL_SIZE)),
        case xm_failMode opts of Some m \<Rightarrow> m | None \<Rightarrow> Fail_Closed))"

section \<open>Who is asking\<close>

datatype 'a callback = Cb_Throws | Cb_Null | Cb_Gives 'a

record agent_identity =
  ai_agentId :: "string option"
  ai_name :: "string option"
  ai_ownerEmail :: "string option"
  ai_purpose :: "string option"
  ai_tenantId :: "string option"

datatype request_user = User_Bound string string | Token_Bound string | No_User

record request_identity =
  ri_agent :: agent_identity
  ri_user :: request_user

definition agentKey :: "agent_identity \<Rightarrow> string" where
  "agentKey a = (case ai_agentId a of Some i \<Rightarrow> i | None \<Rightarrow> (case ai_name a of Some n \<Rightarrow> n | None \<Rightarrow> ''unknown''))"

definition tenantKey :: "string option \<Rightarrow> string" where
  "tenantKey t = (case t of Some x \<Rightarrow> x | None \<Rightarrow> ''system'')"

text \<open>\<^verbatim>\<open>s.slice(-n)\<close>\<close>

definition last_chars :: "nat \<Rightarrow> string \<Rightarrow> string" where
  "last_chars n s = drop (length s - n) s"

definition userKey :: "request_user \<Rightarrow> string" where
  "userKey u = (case u of User_Bound i email \<Rightarrow> i | Token_Bound t \<Rightarrow> if t \<noteq> [] then ''tok:'' @ last_chars 32 t else ''anon'' | No_User \<Rightarrow> ''anon'')"

definition poolKey :: "request_identity \<Rightarrow> string" where
  "poolKey i = agentKey (ri_agent i) @ '':'' @ tenantKey (ai_tenantId (ri_agent i)) @ '':'' @ userKey (ri_user i)"

text \<open>The first part of the handler, from the callbacks' answers.\<close>

datatype middleware_begin = Mw_Next | Mw_Next_Error | Mw_Unauthenticated | Mw_Session request_identity

definition resolve_user :: "middleware_opts \<Rightarrow> (string \<times> string) callback \<Rightarrow> string callback \<Rightarrow> middleware_begin + request_user" where
  "resolve_user opts user token =
     (if xm_userFromRequest opts then (case user of
         Cb_Throws \<Rightarrow> Inl Mw_Next_Error | Cb_Null \<Rightarrow> Inl Mw_Unauthenticated | Cb_Gives (i, email) \<Rightarrow> Inr (User_Bound i email))
      else if xm_tokenFromRequest opts then (case token of
         Cb_Throws \<Rightarrow> Inl Mw_Next_Error | Cb_Null \<Rightarrow> Inl Mw_Unauthenticated | Cb_Gives t \<Rightarrow> Inr (Token_Bound t))
      else Inr No_User)"

definition middleware_begin :: "middleware_opts \<Rightarrow> bool \<Rightarrow> (string \<times> string) callback \<Rightarrow> string callback \<Rightarrow> agent_identity option \<Rightarrow> middleware_begin" where
  "middleware_begin opts already user token agent =
     (if already then Mw_Next
      else case resolve_user opts user token of
        Inl r \<Rightarrow> r
      | Inr u \<Rightarrow>
          if xm_resolveAgent opts then (case agent of None \<Rightarrow> Mw_Next_Error | Some a \<Rightarrow> Mw_Session \<lparr>ri_agent = a, ri_user = u\<rparr>)
          else Mw_Session \<lparr>ri_agent = \<lparr>ai_agentId = xm_agentId opts, ai_name = None, ai_ownerEmail = None, ai_purpose = None,
            ai_tenantId = None\<rparr>, ri_user = u\<rparr>)"

text \<open>How the session is minted.\<close>

datatype mint_call =
  Connect_Existing string "string option" request_user
| Connect_New string string string "string option" request_user

definition mint_session :: "request_identity \<Rightarrow> mint_call" where
  "mint_session i =
     (let a = ri_agent i; u = (if ri_user i = Token_Bound [] then No_User else ri_user i) in
      case some_text (ai_agentId a) of
        Some agent \<Rightarrow> Connect_Existing agent (ai_tenantId a) u
      | None \<Rightarrow> Connect_New (case ai_name a of Some n \<Rightarrow> n | None \<Rightarrow> ''express-agent'')
          (case ai_ownerEmail a of Some e \<Rightarrow> e | None \<Rightarrow> ''express@agentum.local'')
          (case ai_purpose a of Some p \<Rightarrow> p | None \<Rightarrow> ''express-middleware'') (ai_tenantId a) u)"

section \<open>The session is there\<close>

record middleware_event =
  mv_type :: string
  mv_detail :: "(string \<times> jval) list"

datatype middleware_reply = Passed_On | Mint_Error | Refused_403 string

text \<open>\<open>allowed\<close>: what \<open>isAllowed\<close> answers, \<^const>\<open>None\<close> if it throws; it is asked in enforce mode only. The events are those
  before the response; \<open>request_end\<close> follows when a response of a request that was passed on is finished.\<close>

definition middleware_finish :: "middleware_opts \<Rightarrow> string \<Rightarrow> string \<Rightarrow> bool \<Rightarrow> bool option \<Rightarrow> middleware_event list \<times> middleware_reply" where
  "middleware_finish opts meth path minted allowed =
     (if \<not> minted then ([], Mint_Error)
      else
        let start = \<lparr>mv_type = ''request_start'', mv_detail = [(''method'', JStr meth), (''path'', JStr path)]\<rparr>;
            action = ''http.'' @ js_lower meth
        in if \<not> xm_observe opts \<and> allowed \<noteq> Some True then
             ([start, \<lparr>mv_type = ''request_denied'', mv_detail = [(''action'', JStr action), (''path'', JStr path)]\<rparr>],
              Refused_403 (''Agentum: request denied by policy ('' @ action @ '' '' @ path @ '')''))
           else ([start], Passed_On))"

definition request_end :: "string \<Rightarrow> string \<Rightarrow> int \<Rightarrow> middleware_event" where
  "request_end meth path status = \<lparr>mv_type = ''request_end'',
     mv_detail = [(''method'', JStr meth), (''path'', JStr path), (''status_code'', JNum (int_text status))]\<rparr>"

section \<open>Webhooks\<close>

record webhook_opts =
  wk_runtime :: bool
  wk_agentId :: string
  wk_tenantId :: "string option"
  wk_source :: string
  wk_serviceIdentity :: string
  wk_serviceSource :: "string option"
  wk_action :: "string option"
  wk_maxPoolSize :: "int option"

definition DEFAULT_POOL_SIZE :: int where "DEFAULT_POOL_SIZE = 16"

definition agentumWebhookGuard :: "webhook_opts \<Rightarrow> string + session_pool" where
  "agentumWebhookGuard g =
     (if \<not> wk_runtime g then Inl ''agentumWebhookGuard: `runtime` (or `client`) is required''
      else if wk_agentId g = [] then Inl ''agentumWebhookGuard: `agentId` is required''
      else if wk_source g = [] then Inl ''agentumWebhookGuard: `source` is required''
      else if wk_serviceIdentity g = [] then Inl ''agentumWebhookGuard: `serviceIdentity` is required''
      else Inr (pool_new (case wk_maxPoolSize g of Some n \<Rightarrow> n | None \<Rightarrow> DEFAULT_POOL_SIZE)))"

definition webhook_key :: "webhook_opts \<Rightarrow> string" where
  "webhook_key g = wk_agentId g @ '':'' @ tenantKey (wk_tenantId g) @ '':svc:'' @ wk_serviceIdentity g"

text \<open>The service a session is minted for, and the origin it states.\<close>

definition webhook_binding :: "webhook_opts \<Rightarrow> string \<times> string option" where
  "webhook_binding g = (wk_serviceIdentity g, some_text (wk_serviceSource g))"

definition webhook_action :: "webhook_opts \<Rightarrow> string" where
  "webhook_action g = (case wk_action g of Some a \<Rightarrow> a | None \<Rightarrow> ''webhook.receive'')"

datatype webhook_reply = Hook_Accepted | Hook_Denied_403 string | Hook_Error_503 string

text \<open>The rest of the handler: the mint's error, and what \<open>isAllowed\<close> answers.\<close>

definition webhook_denied :: "webhook_opts \<Rightarrow> middleware_event list \<times> webhook_reply" where
  "webhook_denied g = ([\<lparr>mv_type = ''request_denied'', mv_detail = [(''action'', JStr (webhook_action g)),
      (''resource'', JStr (wk_source g)), (''source'', JStr ''webhook''), (''service'', JStr (wk_serviceIdentity g))]\<rparr>],
     Hook_Denied_403 (''Agentum: webhook '' @ wk_source g @ '' denied by policy ('' @ webhook_action g @ '')''))"

definition webhook_finish :: "webhook_opts \<Rightarrow> string \<Rightarrow> string \<Rightarrow> string option \<Rightarrow> string + bool \<Rightarrow> middleware_event list \<times> webhook_reply" where
  "webhook_finish g meth path mint_error allowed = (case mint_error of
     Some msg \<Rightarrow> ([], Hook_Error_503 msg)
   | None \<Rightarrow> (case allowed of
       Inl msg \<Rightarrow> ([], Hook_Error_503 msg)
     | Inr False \<Rightarrow> webhook_denied g
     | Inr True \<Rightarrow> ([\<lparr>mv_type = ''webhook_receive'', mv_detail = [(''source'', JStr (wk_source g)), (''service'', JStr (wk_serviceIdentity g))] @
         opt_entry ''service_source'' (some_text (wk_serviceSource g)) @ [(''method'', JStr meth), (''path'', JStr path)]\<rparr>], Hook_Accepted)))"

text \<open>Next.js: the runtime keeps one pool for all its guards, and the row of an accepted webhook has no path.\<close>

definition createAgentumWebhookRuntime :: "webhook_opts \<Rightarrow> string + session_pool" where
  "createAgentumWebhookRuntime g =
     (if \<not> wk_runtime g then Inl ''createAgentumWebhookRuntime: `runtime` is required''
      else if wk_agentId g = [] then Inl ''createAgentumWebhookRuntime: `agentId` is required''
      else Inr (pool_new (case wk_maxPoolSize g of Some n \<Rightarrow> n | None \<Rightarrow> 16)))"

definition next_webhook_finish :: "webhook_opts \<Rightarrow> string \<Rightarrow> string option \<Rightarrow> string + bool \<Rightarrow> middleware_event list \<times> webhook_reply" where
  "next_webhook_finish g meth mint_error allowed = (case mint_error of
     Some msg \<Rightarrow> ([], Hook_Error_503 msg)
   | None \<Rightarrow> (case allowed of
       Inl msg \<Rightarrow> ([], Hook_Error_503 msg)
     | Inr False \<Rightarrow> webhook_denied g
     | Inr True \<Rightarrow> ([\<lparr>mv_type = ''webhook_receive'', mv_detail = [(''source'', JStr (wk_source g)), (''service'', JStr (wk_serviceIdentity g))] @
         opt_entry ''service_source'' (some_text (wk_serviceSource g)) @ [(''method'', JStr meth)]\<rparr>], Hook_Accepted)))"

section \<open>Sessions are not shared\<close>

text \<open>The principal of a session: agent, tenant and user.\<close>

definition request_principal :: "request_identity \<Rightarrow> string \<times> string \<times> string" where
  "request_principal i = (agentKey (ri_agent i), tenantKey (ai_tenantId (ri_agent i)),
     case ri_user i of User_Bound u email \<Rightarrow> u | _ \<Rightarrow> [])"

text \<open>Identities of one middleware with \<^verbatim>\<open>userFromRequest\<close>, whose agents and tenants have no colon in their names.\<close>

definition user_identity :: "request_identity \<Rightarrow> bool" where
  "user_identity i \<longleftrightarrow> CHR '':'' \<notin> set (agentKey (ri_agent i)) \<and> CHR '':'' \<notin> set (tenantKey (ai_tenantId (ri_agent i))) \<and>
     (\<exists>u email. ri_user i = User_Bound u email)"

interpretation user_pool: pooled_sessions poolKey request_principal user_identity
proof
  fix a b
  assume "user_identity a" "user_identity b" "poolKey a = poolKey b"
  then show "request_principal a = request_principal b"
    by (auto simp: user_identity_def poolKey_def request_principal_def userKey_def separator_inject)
qed

text \<open>Guards of one webhook runtime (one agent and tenant) are told apart by their service.\<close>

definition webhook_of :: "string \<Rightarrow> string option \<Rightarrow> webhook_opts \<Rightarrow> bool" where
  "webhook_of agent tenant g \<longleftrightarrow> wk_agentId g = agent \<and> wk_tenantId g = tenant"

interpretation webhook_pool: pooled_sessions webhook_key wk_serviceIdentity "webhook_of agent tenant" for agent tenant
  by unfold_locales (simp add: webhook_key_def webhook_of_def)


definition sample_identity :: "string \<Rightarrow> string option \<Rightarrow> request_user \<Rightarrow> request_identity" where
  "sample_identity agent tenant u = \<lparr>ri_agent = \<lparr>ai_agentId = Some agent, ai_name = None, ai_ownerEmail = None, ai_purpose = None,
     ai_tenantId = tenant\<rparr>, ri_user = u\<rparr>"

definition sample_pool_run :: "request_identity pool_op list" where
  "sample_pool_run = [Pool_Request (sample_identity ''a'' None (User_Bound ''u:1'' ''e'')) (\<lambda>s. False),
     Pool_Request (sample_identity ''a'' None (User_Bound ''u:2'' ''f'')) (\<lambda>s. False), Pool_Minted ''a:system:u:2'',
     Pool_Minted ''a:system:u:1'']"


text \<open>C7: no session is lost: each one that was minted is in the pool or has been closed, exactly once, and the pool never
  holds more than its bound.\<close>

theorem sessions_are_pooled_or_closed:
  "mset (map fst (pw_minted (pool_run poolKey maxSize es))) =
     mset (pw_closed (pool_run poolKey maxSize es)) + mset (map snd (sp_pool (pw_pool (pool_run poolKey maxSize es)))) \<and>
   distinct (map fst (pw_minted (pool_run poolKey maxSize es))) \<and>
   jm_size (sp_pool (pw_pool (pool_run poolKey maxSize es))) \<le> max 1 (to_int32 maxSize)"
  using conserved_run [of poolKey maxSize es] run_bound [of poolKey maxSize es] by (simp add: conserved_def)

section \<open>Where the adapters do otherwise\<close>

text \<open>A verified user is told apart by the last 32 characters of the token alone: whoever presents any text with the same
  end, verified by nobody, is served the session of the user it was taken from.\<close>

lemma token_tail_opens_the_session:
  "let bob = sample_identity ''a'' None (Token_Bound (''header.payload.'' @ replicate 32 CHR ''s''));
     eve = sample_identity ''a'' None (Token_Bound (replicate 32 CHR ''s''));
     w = pool_run poolKey 8 [Pool_Request bob (\<lambda>s. False), Pool_Minted (poolKey bob), Pool_Request eve (\<lambda>s. False)] in
   (eve, 0) \<in> set (pw_served w) \<and> (0, bob) \<in> set (pw_minted w)"
  by code_simp

text \<open>With a colon in a tenant's name two tenants share a session; so do no tenant and one of the name \<^verbatim>\<open>system\<close>, and a user
  of the name \<^verbatim>\<open>anon\<close> has the key of no user.\<close>

lemma keys_collide:
  "poolKey (sample_identity ''a'' (Some ''x'') (User_Bound ''y:z'' e)) = poolKey (sample_identity ''a'' (Some ''x:y'') (User_Bound ''z'' f))"
  "poolKey (sample_identity ''a'' None u) = poolKey (sample_identity ''a'' (Some ''system'') u)"
  "poolKey (sample_identity ''a'' t (User_Bound ''anon'' e)) = poolKey (sample_identity ''a'' t No_User)"
  by (simp_all add: poolKey_def sample_identity_def agentKey_def tenantKey_def userKey_def)

text \<open>The test that makes a second mount harmless also skips an enforcing middleware behind an observing one.\<close>

lemma second_mount_does_not_enforce: "middleware_begin opts True user token agent = Mw_Next"
  by (simp add: middleware_begin_def)

text \<open>The key of a webhook leaves out where it comes from: of two guards of one runtime with one service, the second's
  requests run in a session that states the first's origin.\<close>

lemma webhook_origin_is_shared:
  "let w = pool_run webhook_key 16 [Pool_Request g (\<lambda>s. False), Pool_Minted (webhook_key g),
     Pool_Request (g\<lparr>wk_serviceSource := Some ''staging''\<rparr>) (\<lambda>s. False)] in
   (g\<lparr>wk_serviceSource := Some ''staging''\<rparr>, 0) \<in> set (pw_served w) \<and> pw_minted w = [(0, g)]"
  by (simp add: pool_run_def pool_start_def pool_new_def pool_step_def getOrCreate_def pool_get_def session_minted_def evictIfFull_def
      webhook_key_def to_int32_def Let_def)

end
