(* ===== verification/Framework_Guards.thy ===== *)
theory Framework_Guards
  imports Express_Middleware
begin

text \<open>
  The guards of the other adapters: \<^verbatim>\<open>frameworks/fastify/guard.ts\<close> and the plugin in \<^verbatim>\<open>fastify/index.ts\<close>,
  \<^verbatim>\<open>frameworks/nestjs/guard.ts\<close> and \<^verbatim>\<open>frameworks/nextjs/route-handler.ts\<close>. Each repeats the Express guard's text with its
  own dispatch, audit rows and escalation. What they share is \<open>adapter_begin\<close> and \<open>adapter_finish\<close>, over the
  dispatch, the escalation and the test of what is cached; each adapter is these with its own parts, and so is the
  Express guard.
\<close>

section \<open>The shared text\<close>

definition adapter_answer :: "(guard_opts \<Rightarrow> guard_decision \<Rightarrow> guard_response \<times> audit_event list) \<Rightarrow> guard_opts \<Rightarrow> guard_decision \<Rightarrow>
    audit_event list \<Rightarrow> guard_step" where
  "adapter_answer disp opts d audits = (let (r, more) = disp opts d in Answered r (audits @ more))"

definition adapter_begin :: "(guard_opts \<Rightarrow> guard_decision \<Rightarrow> guard_response \<times> audit_event list) \<Rightarrow> guard_opts \<Rightarrow> guard_internals \<Rightarrow>
    guard_request \<Rightarrow> bool option \<Rightarrow> int \<Rightarrow> guard_shared \<Rightarrow> guard_step \<times> guard_shared" where
  "adapter_begin disp opts ints req health now sh =
     (let failMode = guard_mode opts ints; cacheKey = guard_key opts ints req sh;
          (hit, sh) = guard_cache_read opts cacheKey now sh in
      case hit of
        Some cached \<Rightarrow> (adapter_answer disp opts (toDecision cached Src_Cache) [], sh)
      | None \<Rightarrow>
          let (skip, sh) = guard_breaker_skip now sh in
          if skip then (adapter_answer disp opts (fallback failMode (gs_cache sh) cacheKey Src_Breaker_Open) [], sh)
          else if health = Some False then (adapter_answer disp opts (fallback failMode (gs_cache sh) cacheKey Src_Health_Down) [], sh)
          else
            (Awaiting \<lparr>gp_req = req, gp_opts = opts, gp_failMode = failMode, gp_cacheKey = cacheKey, gp_path = guard_path opts req,
               gp_call = \<lparr>cl_agent_id = gi_agentId ints, cl_action = go_action opts, cl_resource = go_resource opts,
                 cl_context = guard_context opts req,
                 cl_user = map_option (\<lambda>u. u\<lparr>gu_trust := Some (case gu_trust u of Some t \<Rightarrow> t | None \<Rightarrow> ''trusted'')\<rparr>) (gi_user ints)\<rparr>\<rparr>, sh))"

text \<open>\<open>degraded\<close>: whether a row tells of a failure that was let through.\<close>

definition adapter_finish :: "(guard_opts \<Rightarrow> guard_decision \<Rightarrow> guard_response \<times> audit_event list) \<Rightarrow> bool \<Rightarrow>
    (simulate_response \<Rightarrow> guard_decision option \<times> audit_event list) \<Rightarrow> (simulate_response \<Rightarrow> bool) \<Rightarrow> guard_pending \<Rightarrow>
    simulate_result \<Rightarrow> int \<Rightarrow> guard_shared \<Rightarrow> guard_step \<times> guard_shared" where
  "adapter_finish disp degraded escalate caches p r now sh =
     (case r of
        Sim_Throws err \<Rightarrow>
          let sh = sh\<lparr>gs_breaker := map_option (\<lambda>b. cb_recordFailure b now) (gs_breaker sh)\<rparr>;
              audits = (if degraded \<and> gp_failMode p = Fail_Open then [degraded_audit p err] else []) in
          (adapter_answer disp (gp_opts p) (fallback (gp_failMode p) (gs_cache sh) (gp_cacheKey p) (Src_Fail (gp_failMode p))) audits, sh)
      | Sim_Ok result \<Rightarrow>
          let sh = sh\<lparr>gs_breaker := map_option cb_recordSuccess (gs_breaker sh)\<rparr>;
              (hitl, audits) = escalate result in
          case hitl of
            Some d \<Rightarrow> (adapter_answer disp (gp_opts p) d audits, sh)
          | None \<Rightarrow>
              let cache = (case (gs_cache sh, gp_cacheKey p) of
                    (Some c, Some k) \<Rightarrow> if caches result then Some (dc_put c k result now) else Some c
                  | (c, _) \<Rightarrow> c) in
              (adapter_answer disp (gp_opts p) (toDecision result Src_Network) audits, sh\<lparr>gs_cache := cache\<rparr>))"

definition express_escalate :: "(approval_request \<Rightarrow> approval_result) \<Rightarrow> bool \<Rightarrow> guard_pending \<Rightarrow> simulate_response \<Rightarrow>
    guard_decision option \<times> audit_event list" where
  "express_escalate requestApproval hitlEnabled p result =
     (let shouldEscalate = (go_autoEscalateHitl (gp_opts p) \<noteq> Some False \<and> hitlEnabled) in
      case (if shouldEscalate \<and> sr_outcome result = Deny then parseHitlAdvice (sr_advice result) else None) of
        None \<Rightarrow> (None, [])
      | Some adv \<Rightarrow> runHitlEscalation requestApproval (gp_req p) (gp_opts p) result adv)"

lemma answer_is_adapter: "answer = adapter_answer dispatch"
  by (intro ext) (simp add: answer_def adapter_answer_def)

lemma express_begin_is_adapter: "guard_begin opts (Some ints) req health now sh = adapter_begin dispatch opts ints req health now sh"
  unfolding guard_begin_def adapter_begin_def answer_is_adapter by simp

lemma express_finish_is_adapter:
  "guard_finish requestApproval hitlEnabled p r now sh =
     adapter_finish dispatch True (express_escalate requestApproval hitlEnabled p) cacheable p r now sh"
  unfolding guard_finish_def adapter_finish_def answer_is_adapter express_escalate_def
  by (cases r) (simp_all add: Let_def)

section \<open>Escalation without a hook that cancels\<close>

text \<open>The request for approval from what the hook gives and the advice says.\<close>

definition ask_approval :: "(approval_request \<Rightarrow> approval_result) \<Rightarrow> guard_opts \<Rightarrow> simulate_response \<Rightarrow> hitl_advice \<Rightarrow>
    hitl_override option \<Rightarrow> guard_decision" where
  "ask_approval requestApproval opts result parsed override =
     approval_decision result (requestApproval \<lparr>ar_action = go_action opts, ar_resource = go_resource opts,
       ar_context = Option.bind override ho_context, ar_reason = Option.bind override ho_reason,
       ar_timeout = first_some (Option.bind override ho_timeoutMs) (map_option (\<lambda>s. s * 1000) (ha_timeoutSeconds parsed)),
       ar_requiredApprovals = first_some (Option.bind override ho_requiredApprovals) (ha_requiredApprovals parsed)\<rparr>)"

definition hook_info :: "guard_opts \<Rightarrow> simulate_response \<Rightarrow> hitl_advice \<Rightarrow> hitl_info" where
  "hook_info opts result parsed = \<lparr>hi_action = go_action opts, hi_resource = go_resource opts,
     hi_advice = (case sr_advice result of None \<Rightarrow> [] | Some a \<Rightarrow> a),
     hi_requiredApprovals = ha_requiredApprovals parsed, hi_timeoutSeconds = ha_timeoutSeconds parsed\<rparr>"

section \<open>Fastify\<close>

text \<open>A hook that returns nothing, or throws, does not cancel here.\<close>

definition fastify_runHitlEscalation :: "(approval_request \<Rightarrow> approval_result) \<Rightarrow> guard_request \<Rightarrow> guard_opts \<Rightarrow> simulate_response \<Rightarrow>
    hitl_advice \<Rightarrow> guard_decision" where
  "fastify_runHitlEscalation requestApproval req opts result parsed =
     ask_approval requestApproval opts result parsed
       (case go_onHitlRequested opts of None \<Rightarrow> None
        | Some hook \<Rightarrow> (case hook (hook_info opts result parsed) req of Hook_Override ov \<Rightarrow> Some ov | _ \<Rightarrow> None))"

definition fastify_dispatch :: "guard_opts \<Rightarrow> guard_decision \<Rightarrow> guard_response \<times> audit_event list" where
  "fastify_dispatch opts d = (if gd_allowed d then (Next, [])
     else (if go_onDeny opts then On_Deny d else Forbidden_403 d, [denied_audit opts d]))"

definition js_strip_query :: "string \<Rightarrow> string" where
  "js_strip_query url = (case js_indexOf url ''?'' of Some q \<Rightarrow> take q url | None \<Rightarrow> url)"

text \<open>\<open>url\<close> is \<^const>\<open>None\<close> where reading it throws.\<close>

definition fastify_defaultPath :: "string option \<Rightarrow> string option \<Rightarrow> string" where
  "fastify_defaultPath routerPath url = (case some_text routerPath of Some p \<Rightarrow> p
     | None \<Rightarrow> (case url of Some u \<Rightarrow> js_strip_query u | None \<Rightarrow> ''/''))"

definition fastify_begin :: "guard_opts \<Rightarrow> guard_internals option \<Rightarrow> guard_request \<Rightarrow> bool option \<Rightarrow> int \<Rightarrow> guard_shared \<Rightarrow>
    guard_step \<times> guard_shared" where
  "fastify_begin opts internals req health now sh = (case internals of
     None \<Rightarrow> (Answered Missing_500 [], sh)
   | Some ints \<Rightarrow> adapter_begin fastify_dispatch opts ints req health now sh)"

definition fastify_finish :: "(approval_request \<Rightarrow> approval_result) \<Rightarrow> bool \<Rightarrow> guard_pending \<Rightarrow> simulate_result \<Rightarrow> int \<Rightarrow> guard_shared \<Rightarrow>
    guard_step \<times> guard_shared" where
  "fastify_finish requestApproval hitlEnabled p =
     adapter_finish fastify_dispatch True (\<lambda>result.
       (case (if go_autoEscalateHitl (gp_opts p) \<noteq> Some False \<and> hitlEnabled \<and> sr_outcome result = Deny
              then parseHitlAdvice (sr_advice result) else None) of
          None \<Rightarrow> None
        | Some parsed \<Rightarrow> Some (fastify_runHitlEscalation requestApproval (gp_req p) (gp_opts p) result parsed), [])) cacheable p"

text \<open>The plugin: its checks, the first part of its handler, and its pool key.\<close>

definition agentumPlugin :: "middleware_opts \<Rightarrow> string + session_pool \<times> fail_mode" where
  "agentumPlugin opts =
     (if \<not> xm_client opts then Inl ''agentumPlugin: `runtime` (or legacy `client`) is required''
      else if some_text (xm_agentId opts) = None \<and> \<not> xm_resolveAgent opts then
        Inl ''agentumPlugin: either `agentId` or `resolveAgent` must be provided''
      else Inr (pool_new (case xm_sessionCacheMax opts of Some n \<Rightarrow> n
          | None \<Rightarrow> (case xm_maxPoolSize opts of Some n \<Rightarrow> n | None \<Rightarrow> DEFAULT_SESSION_POOL_SIZE)),
        case xm_failMode opts of Some m \<Rightarrow> m | None \<Rightarrow> Fail_Closed))"

datatype plugin_begin = Pl_User_Failed_500 | Pl_Agent_Failed_500 | Pl_Unauthenticated_401 | Pl_Session request_identity

definition plugin_begin :: "middleware_opts \<Rightarrow> (string \<times> string) callback \<Rightarrow> agent_identity option \<Rightarrow> plugin_begin" where
  "plugin_begin opts user agent =
     (case (if xm_userFromRequest opts then (case user of Cb_Throws \<Rightarrow> Inl Pl_User_Failed_500 | Cb_Null \<Rightarrow> Inl Pl_Unauthenticated_401
              | Cb_Gives (i, email) \<Rightarrow> Inr (User_Bound i email)) else Inr No_User) of
        Inl r \<Rightarrow> r
      | Inr u \<Rightarrow>
          if xm_resolveAgent opts then (case agent of None \<Rightarrow> Pl_Agent_Failed_500 | Some a \<Rightarrow> Pl_Session \<lparr>ri_agent = a, ri_user = u\<rparr>)
          else Pl_Session \<lparr>ri_agent = \<lparr>ai_agentId = xm_agentId opts, ai_name = None, ai_ownerEmail = None, ai_purpose = None,
            ai_tenantId = None\<rparr>, ri_user = u\<rparr>)"

definition plugin_poolKey :: "request_identity \<Rightarrow> string" where
  "plugin_poolKey i = agentKey (ri_agent i) @ '':'' @ tenantKey (ai_tenantId (ri_agent i)) @ '':'' @
     (case ri_user i of User_Bound u email \<Rightarrow> u | _ \<Rightarrow> ''anon'')"

section \<open>NestJS\<close>

definition nest_denied_audit :: "string \<Rightarrow> guard_opts \<Rightarrow> guard_decision \<Rightarrow> audit_event" where
  "nest_denied_audit framework opts d = (denied_audit opts d)\<lparr>ae_detail :=
     [(''action'', JStr (go_action opts)), (''resource'', JStr (go_resource opts)), (''framework'', JStr framework),
      (''source'', JStr (path_text (gd_source d)))] @ pdpObservabilityDetailRaw (gd_rule_id d) (gd_reason d)\<rparr>"

definition nest_resolve :: "guard_opts \<Rightarrow> guard_decision \<Rightarrow> guard_response \<times> audit_event list" where
  "nest_resolve opts d = (if gd_allowed d then (Next, [])
     else (if go_onDeny opts then On_Deny d else Forbidden_403 d, [nest_denied_audit ''nestjs'' opts d]))"

datatype nest_step = Nest_Metadata_Missing_500 | Nest_Throws | Nest_Unauthenticated_401 | Nest_Goes_On guard_step

text \<open>The route's options are its decorator's metadata; who the user is, is the host's callback.\<close>

definition nest_begin :: "guard_opts option \<Rightarrow> guard_internals \<Rightarrow> guard_user callback \<Rightarrow> guard_request \<Rightarrow> bool option \<Rightarrow> int \<Rightarrow>
    guard_shared \<Rightarrow> nest_step \<times> guard_shared" where
  "nest_begin metadata ints user req health now sh = (case metadata of
     None \<Rightarrow> (Nest_Metadata_Missing_500, sh)
   | Some opts \<Rightarrow> (case user of
       Cb_Throws \<Rightarrow> (Nest_Throws, sh)
     | Cb_Null \<Rightarrow> (Nest_Unauthenticated_401, sh)
     | Cb_Gives u \<Rightarrow> (case adapter_begin nest_resolve opts (ints\<lparr>gi_user := Some u\<rparr>) req health now sh of
         (step, sh') \<Rightarrow> (Nest_Goes_On step, sh'))))"

definition nest_defaultPath :: "string option \<Rightarrow> string option \<Rightarrow> string option \<Rightarrow> string option \<Rightarrow> string" where
  "nest_defaultPath routerPath path originalUrl url = (case some_text routerPath of Some p \<Rightarrow> p
     | None \<Rightarrow> (case some_text path of Some p \<Rightarrow> p
       | None \<Rightarrow> (case some_text originalUrl of Some u \<Rightarrow> js_strip_query u
         | None \<Rightarrow> (case some_text url of Some u \<Rightarrow> js_strip_query u | None \<Rightarrow> ''/''))))"

definition nest_runHitlEscalation :: "(approval_request \<Rightarrow> approval_result) option \<Rightarrow> guard_request \<Rightarrow> guard_opts \<Rightarrow> simulate_response \<Rightarrow>
    hitl_advice \<Rightarrow> guard_decision option" where
  "nest_runHitlEscalation approvalSession req opts result parsed = (case approvalSession of
     None \<Rightarrow> None
   | Some requestApproval \<Rightarrow>
       (case go_onHitlRequested opts of
          None \<Rightarrow> Some (ask_approval requestApproval opts result parsed None)
        | Some hook \<Rightarrow> (case hook (hook_info opts result parsed) req of
            Hook_Override ov \<Rightarrow> Some (ask_approval requestApproval opts result parsed (Some ov))
          | _ \<Rightarrow> None)))"

text \<open>\<open>pending\<close> is the answer's \<^verbatim>\<open>hitl_pending\<close>.\<close>

definition nest_parsed :: "bool option \<Rightarrow> simulate_response \<Rightarrow> hitl_advice option" where
  "nest_parsed pending result = (case pending of
     Some True \<Rightarrow> Some (case parseHitlAdvice (sr_advice result) of Some a \<Rightarrow> a | None \<Rightarrow> no_hitl_params)
   | Some False \<Rightarrow> None
   | None \<Rightarrow> parseHitlAdvice (sr_advice result))"

definition nest_finish :: "(approval_request \<Rightarrow> approval_result) option \<Rightarrow> bool \<Rightarrow> bool option \<Rightarrow> guard_pending \<Rightarrow> simulate_result \<Rightarrow> int \<Rightarrow>
    guard_shared \<Rightarrow> guard_step \<times> guard_shared" where
  "nest_finish approvalSession hitlEnabled pending p =
     adapter_finish nest_resolve False (\<lambda>result.
       (case (if go_autoEscalateHitl (gp_opts p) \<noteq> Some False \<and> approvalSession \<noteq> None \<and> hitlEnabled \<and> sr_outcome result = Deny
              then nest_parsed pending result else None) of
          None \<Rightarrow> None
        | Some parsed \<Rightarrow> nest_runHitlEscalation approvalSession (gp_req p) (gp_opts p) result parsed, [])) cacheable p"

section \<open>Next.js\<close>

definition next_dispatch :: "guard_opts \<Rightarrow> guard_decision \<Rightarrow> guard_response \<times> audit_event list" where
  "next_dispatch opts d = (if gd_allowed d then (Next, [])
     else (if go_onDeny opts then On_Deny d else Forbidden_403 d, [nest_denied_audit ''nextjs.route-handler'' opts d]))"

datatype next_step = Next_User_Failed_500 | Next_Unauthenticated_401 | Next_Goes_On guard_step

definition next_begin :: "guard_opts \<Rightarrow> guard_internals \<Rightarrow> guard_user callback \<Rightarrow> guard_request \<Rightarrow> bool option \<Rightarrow> int \<Rightarrow>
    guard_shared \<Rightarrow> next_step \<times> guard_shared" where
  "next_begin opts ints user req health now sh = (case user of
     Cb_Throws \<Rightarrow> (Next_User_Failed_500, sh)
   | Cb_Null \<Rightarrow> (Next_Unauthenticated_401, sh)
   | Cb_Gives u \<Rightarrow> (case adapter_begin next_dispatch opts (ints\<lparr>gi_user := Some u\<rparr>) req health now sh of
       (step, sh') \<Rightarrow> (Next_Goes_On step, sh')))"

text \<open>\<^verbatim>\<open>nextUrl\<close>'s path name, or that of \<^verbatim>\<open>new URL\<close>.\<close>

definition next_defaultPath :: "string option \<Rightarrow> string option \<Rightarrow> string" where
  "next_defaultPath nextUrl parsed = (case nextUrl of Some p \<Rightarrow> p | None \<Rightarrow> (case parsed of Some p \<Rightarrow> p | None \<Rightarrow> ''/''))"

definition next_finish :: "guard_pending \<Rightarrow> simulate_result \<Rightarrow> int \<Rightarrow> guard_shared \<Rightarrow> guard_step \<times> guard_shared" where
  "next_finish p = adapter_finish next_dispatch False (\<lambda>result. (None, [])) (\<lambda>result. True) p"

section \<open>The adapters decide alike\<close>

text \<open>What a step does to the request and to the shared state; the audit rows are left out.\<close>

definition reply_of :: "guard_step \<times> guard_shared \<Rightarrow> (guard_response + guard_pending) \<times> guard_shared" where
  "reply_of s = (case s of (Answered r audits, sh) \<Rightarrow> (Inl r, sh) | (Awaiting p, sh) \<Rightarrow> (Inr p, sh))"

definition same_replies :: "(guard_opts \<Rightarrow> guard_decision \<Rightarrow> guard_response \<times> audit_event list) \<Rightarrow>
    (guard_opts \<Rightarrow> guard_decision \<Rightarrow> guard_response \<times> audit_event list) \<Rightarrow> bool" where
  "same_replies disp disp' \<longleftrightarrow> (\<forall>opts d. fst (disp opts d) = fst (disp' opts d))"

lemma dispatches_reply_alike: "same_replies fastify_dispatch dispatch" "same_replies nest_resolve dispatch" "same_replies next_dispatch dispatch"
  by (simp_all add: same_replies_def fastify_dispatch_def nest_resolve_def next_dispatch_def dispatch_def)

lemma reply_of_answer: "reply_of (adapter_answer disp opts d audits, sh) = (Inl (fst (disp opts d)), sh)"
  by (simp add: reply_of_def adapter_answer_def split: prod.split)

lemma begins_alike:
  "same_replies disp disp' \<Longrightarrow> reply_of (adapter_begin disp opts ints req health now sh) = reply_of (adapter_begin disp' opts ints req health now sh)"
  by (simp add: adapter_begin_def reply_of_answer same_replies_def Let_def split: prod.split option.split)

lemma finishes_alike:
  assumes "same_replies disp disp'" and "\<And>result. r = Sim_Ok result \<Longrightarrow> fst (esc result) = fst (esc' result)"
    and "\<And>result. r = Sim_Ok result \<Longrightarrow> caches result = caches' result"
  shows "reply_of (adapter_finish disp b esc caches p r now sh) = reply_of (adapter_finish disp' b' esc' caches' p r now sh)"
proof (cases r)
  case (Sim_Ok result)
  obtain d as as' where e: "esc result = (d, as)" "esc' result = (d, as')" using assms(2) [OF Sim_Ok] by (metis prod.collapse)
  show ?thesis using assms(1,3) Sim_Ok e by (simp add: adapter_finish_def reply_of_answer same_replies_def Let_def split: option.split)
next
  case (Sim_Throws err)
  then show ?thesis using assms(1) by (simp add: adapter_finish_def reply_of_answer same_replies_def Let_def)
qed

text \<open>A hook that never cancels.\<close>

definition never_cancels :: "guard_opts \<Rightarrow> guard_request \<Rightarrow> bool" where
  "never_cancels opts req \<longleftrightarrow> (\<forall>hook info. go_onHitlRequested opts = Some hook \<longrightarrow> (\<exists>ov. hook info req = Hook_Override ov))"

lemma express_asks:
  "fst (runHitlEscalation requestApproval req opts result parsed) =
     (case go_onHitlRequested opts of
        None \<Rightarrow> Some (ask_approval requestApproval opts result parsed None)
      | Some hook \<Rightarrow> (case hook (hook_info opts result parsed) req of
          Hook_Override ov \<Rightarrow> Some (ask_approval requestApproval opts result parsed (Some ov)) | _ \<Rightarrow> None))"
  by (simp add: runHitlEscalation_def ask_approval_def hook_info_def Let_def split: option.split hook_result.split)

lemma fastify_asks:
  assumes "never_cancels opts req"
  shows "Some (fastify_runHitlEscalation requestApproval req opts result parsed) = fst (runHitlEscalation requestApproval req opts result parsed)"
proof (cases "go_onHitlRequested opts")
  case (Some hook)
  with assms obtain ov where "hook (hook_info opts result parsed) req = Hook_Override ov" by (auto simp: never_cancels_def)
  with Some show ?thesis by (simp add: express_asks fastify_runHitlEscalation_def)
qed (simp add: express_asks fastify_runHitlEscalation_def)

text \<open>C24: the guards of the four frameworks decide alike, request by request, in the response and in what they leave in the cache
  and the breaker (the audit rows are left out): Fastify's as Express's where the host's hook never cancels an escalation;
  NestJS's, once a user is resolved, where it has an approval session and the answer has no \<^verbatim>\<open>hitl_pending\<close>; and Next.js's,
  once a user is resolved, as Express's with escalation switched off, where every answer may be cached.\<close>

theorem adapters_decide_alike:
  shows "(reply_of (fastify_begin opts internals req health now sh) = reply_of (guard_begin opts internals req health now sh)) \<and>
    (never_cancels (gp_opts p) (gp_req p) \<longrightarrow>
      reply_of (fastify_finish ask enabled p r now' sh') = reply_of (guard_finish ask enabled p r now' sh')) \<and>
    (\<exists>step sh1. nest_begin (Some opts) ints (Cb_Gives u) req health now sh = (Nest_Goes_On step, sh1) \<and>
      reply_of (step, sh1) = reply_of (guard_begin opts (Some (ints\<lparr>gi_user := Some u\<rparr>)) req health now sh)) \<and>
    reply_of (nest_finish (Some ask) enabled None p r now' sh') = reply_of (guard_finish ask enabled p r now' sh') \<and>
    (\<exists>step sh1. next_begin opts ints (Cb_Gives u) req health now sh = (Next_Goes_On step, sh1) \<and>
      reply_of (step, sh1) = reply_of (guard_begin opts (Some (ints\<lparr>gi_user := Some u\<rparr>)) req health now sh)) \<and>
    ((\<forall>result. r = Sim_Ok result \<longrightarrow> cacheable result) \<longrightarrow>
      reply_of (next_finish p r now' sh') = reply_of (guard_finish ask False p r now' sh'))"
proof (intro conjI impI)
  show "reply_of (fastify_begin opts internals req health now sh) = reply_of (guard_begin opts internals req health now sh)"
    by (cases internals) (simp_all add: fastify_begin_def guard_begin_def [of _ None] express_begin_is_adapter begins_alike dispatches_reply_alike)
next
  assume n: "never_cancels (gp_opts p) (gp_req p)"
  show "reply_of (fastify_finish ask enabled p r now' sh') = reply_of (guard_finish ask enabled p r now' sh')"
    unfolding fastify_finish_def express_finish_is_adapter
    by (rule finishes_alike [OF dispatches_reply_alike(1)])
      (auto simp: express_escalate_def fastify_asks [OF n] split: option.split)
next
  obtain step sh1 where s: "adapter_begin nest_resolve opts (ints\<lparr>gi_user := Some u\<rparr>) req health now sh = (step, sh1)" by fastforce
  show "\<exists>step sh1. nest_begin (Some opts) ints (Cb_Gives u) req health now sh = (Nest_Goes_On step, sh1) \<and>
      reply_of (step, sh1) = reply_of (guard_begin opts (Some (ints\<lparr>gi_user := Some u\<rparr>)) req health now sh)"
    using begins_alike [OF dispatches_reply_alike(2), of opts "ints\<lparr>gi_user := Some u\<rparr>" req health now sh]
    by (simp add: nest_begin_def express_begin_is_adapter s)
next
  show "reply_of (nest_finish (Some ask) enabled None p r now' sh') = reply_of (guard_finish ask enabled p r now' sh')"
    unfolding nest_finish_def express_finish_is_adapter
    by (rule finishes_alike [OF dispatches_reply_alike(2)])
      (auto simp: express_escalate_def nest_parsed_def nest_runHitlEscalation_def express_asks split: option.split)
next
  obtain step sh1 where s: "adapter_begin next_dispatch opts (ints\<lparr>gi_user := Some u\<rparr>) req health now sh = (step, sh1)" by fastforce
  show "\<exists>step sh1. next_begin opts ints (Cb_Gives u) req health now sh = (Next_Goes_On step, sh1) \<and>
      reply_of (step, sh1) = reply_of (guard_begin opts (Some (ints\<lparr>gi_user := Some u\<rparr>)) req health now sh)"
    using begins_alike [OF dispatches_reply_alike(3), of opts "ints\<lparr>gi_user := Some u\<rparr>" req health now sh]
    by (simp add: next_begin_def express_begin_is_adapter s)
next
  assume c: "\<forall>result. r = Sim_Ok result \<longrightarrow> cacheable result"
  show "reply_of (next_finish p r now' sh') = reply_of (guard_finish ask False p r now' sh')"
    unfolding next_finish_def express_finish_is_adapter
    by (rule finishes_alike [OF dispatches_reply_alike(3)]) (simp_all add: express_escalate_def c)
qed

definition sample_guard_opts :: guard_opts where
  "sample_guard_opts = \<lparr>go_action = ''http.get'', go_resource = ''api'', go_pathLike = Path_Unset, go_contextExtra = None,
     go_failModeOverride = None, go_skipCache = False, go_autoEscalateHitl = None, go_onHitlRequested = None, go_onDeny = False\<rparr>"

definition adapter_pending :: guard_pending where
  "adapter_pending = \<lparr>gp_req = \<lparr>gr_path = ''/''\<rparr>, gp_opts = sample_guard_opts, gp_failMode = Fail_Closed, gp_cacheKey = Some ''k'',
     gp_path = ''/'', gp_call = \<lparr>cl_agent_id = ''a'', cl_action = ''http.get'', cl_resource = ''api'', cl_context = JObj [], cl_user = None\<rparr>\<rparr>"

definition sample_denial :: simulate_response where
  "sample_denial = \<lparr>sr_outcome = Deny, sr_rule_id = None, sr_reason = None, sr_advice = Some [''require_hitl''],
     sr_policy_hash = None, sr_decision_source = None\<rparr>"

definition no_shared :: guard_shared where
  "no_shared = \<lparr>gs_cache = None, gs_breaker = None\<rparr>"

text \<open>The response and the rows of a step that answers.\<close>

definition response_of :: "guard_step \<times> guard_shared \<Rightarrow> guard_response option" where
  "response_of s = (case fst (reply_of s) of Inl r \<Rightarrow> Some r | Inr p \<Rightarrow> None)"

definition rows_of :: "guard_step \<Rightarrow> audit_event list" where
  "rows_of s = (case s of Answered r audits \<Rightarrow> audits | Awaiting p \<Rightarrow> [])"

theorem adapters_decide_alike_witness:
  "response_of (fastify_finish (\<lambda>a. Approved_By ''ann'') True adapter_pending (Sim_Ok sample_denial) 0 no_shared) = Some Next \<and>
   response_of (next_finish adapter_pending (Sim_Throws ''down'') 0 no_shared) =
     Some (Forbidden_403 (plain_decision Deny None (Some ''fail_closed'') (Src_Fail Fail_Closed)))"
proof -
  have n: "never_cancels (gp_opts adapter_pending) (gp_req adapter_pending)"
    by (simp add: never_cancels_def adapter_pending_def sample_guard_opts_def)
  have "response_of (guard_finish (\<lambda>a. Approved_By ''ann'') True adapter_pending (Sim_Ok sample_denial) 0 no_shared) = Some Next"
    "response_of (guard_finish (\<lambda>a. Approved_By ''ann'') False adapter_pending (Sim_Throws ''down'') 0 no_shared) =
       Some (Forbidden_403 (plain_decision Deny None (Some ''fail_closed'') (Src_Fail Fail_Closed)))"
    by code_simp+
  then show ?thesis
    using adapters_decide_alike [of _ _ _ _ _ _ adapter_pending "\<lambda>a. Approved_By ''ann''" True "Sim_Ok sample_denial" 0 no_shared] n
      adapters_decide_alike [of _ _ _ _ _ _ adapter_pending "\<lambda>a. Approved_By ''ann''" True "Sim_Throws ''down''" 0 no_shared]
    by (simp add: response_of_def)
qed

section \<open>Where they do not\<close>

text \<open>A hook that returns nothing is documented to cancel the escalation. It does in Express, and the denial stands; in
  Fastify the approval is asked for all the same, and lets the request through. A hook that throws is said to be ignored; it
  cancels in Express and NestJS.\<close>

lemma fastify_cannot_cancel:
  "let p = adapter_pending\<lparr>gp_opts := sample_guard_opts\<lparr>go_onHitlRequested := Some (\<lambda>info req. Hook_Nothing)\<rparr>\<rparr> in
   response_of (fastify_finish (\<lambda>a. Approved_By ''ann'') True p (Sim_Ok sample_denial) 0 no_shared) = Some Next \<and>
   response_of (guard_finish (\<lambda>a. Approved_By ''ann'') True p (Sim_Ok sample_denial) 0 no_shared) =
     Some (Forbidden_403 (toDecision sample_denial Src_Network))"
  by code_simp

lemma throwing_hook_cancels:
  "let p = adapter_pending\<lparr>gp_opts := sample_guard_opts\<lparr>go_onHitlRequested := Some (\<lambda>info req. Hook_Throws ''bug'')\<rparr>\<rparr> in
   response_of (guard_finish (\<lambda>a. Approved_By ''ann'') True p (Sim_Ok sample_denial) 0 no_shared) =
     Some (Forbidden_403 (toDecision sample_denial Src_Network)) \<and>
   response_of (nest_finish (Some (\<lambda>a. Approved_By ''ann'')) True None p (Sim_Ok sample_denial) 0 no_shared) =
     Some (Forbidden_403 (toDecision sample_denial Src_Network))"
  by code_simp

text \<open>A denial with advice is cached by Next.js: until it expires a request is refused without the server's advice being seen
  again.\<close>

lemma next_caches_escalations:
  "let sh = snd (next_finish adapter_pending (Sim_Ok sample_denial) 5 (no_shared\<lparr>gs_cache := Some (dc_new 10 1000)\<rparr>)) in
   map_option (\<lambda>c. fst (dc_get c ''k'' 6)) (gs_cache sh) = Some (Some sample_denial)"
  by code_simp

text \<open>In fail mode open, NestJS and Next.js let a request through without a row that says so.\<close>

lemma silent_fail_open:
  "let p = adapter_pending\<lparr>gp_failMode := Fail_Open\<rparr> in
   rows_of (fst (nest_finish None False None p (Sim_Throws ''down'') 0 no_shared)) = [] \<and>
   rows_of (fst (next_finish p (Sim_Throws ''down'') 0 no_shared)) = [] \<and>
   rows_of (fst (fastify_finish (\<lambda>a. Approval_Timeout) False p (Sim_Throws ''down'') 0 no_shared)) = [degraded_audit p ''down''] \<and>
   response_of (nest_finish None False None p (Sim_Throws ''down'') 0 no_shared) = Some Next"
  by code_simp

end
