(* ===== verification/Tool_Accumulators.thy ===== *)
theory Tool_Accumulators
  imports Provider_Extractors
begin

text \<open>
  The accumulators of \<^verbatim>\<open>instrumentation/_parsers.ts\<close>: what the client patches and the wrapped OpenAI client
  put together from a streamed completion, and the calls they read from a whole one. A value is \<^const>\<open>None\<close> where
  the code throws (reading a property of null).
\<close>

section \<open>OpenAI\<close>

record tool_acc =
  ka_id :: "string option"
  ka_type :: "string option"
  ka_name :: string
  ka_arguments :: string

record openai_state =
  os_toolCalls :: "(rat, tool_acc) jsmap"
  os_finishReason :: "string option"
  os_usage :: "jval option"

definition newOpenAIStreamState :: openai_state where
  "newOpenAIStreamState = \<lparr>os_toolCalls = [], os_finishReason = None, os_usage = None\<rparr>"

definition empty_acc :: tool_acc where
  "empty_acc = \<lparr>ka_id = None, ka_type = None, ka_name = [], ka_arguments = []\<rparr>"

definition number_or_0 :: "jval \<Rightarrow> rat" where
  "number_or_0 v = (case j_number v of Some n \<Rightarrow> n | None \<Rightarrow> 0)"

definition part_index :: "jval \<Rightarrow> rat" where
  "part_index part = number_or_0 (j_field part ''index'')"

definition text_of :: "jval \<Rightarrow> string" where
  "text_of v = (case v of JStr s \<Rightarrow> s | _ \<Rightarrow> [])"

definition part_name :: "jval \<Rightarrow> string" where
  "part_name part = text_of (j_field (j_field part ''function'') ''name'')"

definition part_arguments :: "jval \<Rightarrow> string" where
  "part_arguments part = text_of (j_field (j_field part ''function'') ''arguments'')"

definition replaced_by :: "string option \<Rightarrow> jval \<Rightarrow> string option" where
  "replaced_by old v = (case v of JStr s \<Rightarrow> Some s | _ \<Rightarrow> old)"

definition ingest_part :: "(rat, tool_acc) jsmap \<Rightarrow> jval \<Rightarrow> (rat, tool_acc) jsmap option" where
  "ingest_part m part = (if j_nullish part then None
     else (let acc = (case jm_get m (part_index part) of Some a \<Rightarrow> a | None \<Rightarrow> empty_acc) in
       Some (jm_set (part_index part)
         \<lparr>ka_id = replaced_by (ka_id acc) (j_field part ''id''), ka_type = replaced_by (ka_type acc) (j_field part ''type''),
          ka_name = ka_name acc @ part_name part, ka_arguments = ka_arguments acc @ part_arguments part\<rparr> m)))"

fun ingest_parts :: "(rat, tool_acc) jsmap \<Rightarrow> jval list \<Rightarrow> (rat, tool_acc) jsmap option" where
  "ingest_parts m [] = Some m"
| "ingest_parts m (part # parts) = Option.bind (ingest_part m part) (\<lambda>m'. ingest_parts m' parts)"

definition delta_parts :: "jval \<Rightarrow> jval list" where
  "delta_parts choice = (case j_field (j_field choice ''delta'') ''tool_calls'' of JArr parts \<Rightarrow> parts | _ \<Rightarrow> [])"

definition ingest_choice :: "openai_state \<Rightarrow> jval \<Rightarrow> openai_state option" where
  "ingest_choice state choice = (if j_nullish choice then None
     else map_option (\<lambda>m. state\<lparr>os_toolCalls := m, os_finishReason := replaced_by (os_finishReason state) (j_field choice ''finish_reason'')\<rparr>)
       (ingest_parts (os_toolCalls state) (delta_parts choice)))"

definition ingest_usage :: "jval \<Rightarrow> openai_state \<Rightarrow> openai_state" where
  "ingest_usage chunk state = (case j_field chunk ''usage'' of
     JObj kvs \<Rightarrow> state\<lparr>os_usage := Some (JObj kvs)\<rparr> | JArr vs \<Rightarrow> state\<lparr>os_usage := Some (JArr vs)\<rparr> | _ \<Rightarrow> state)"

definition ingestOpenAIChunk :: "openai_state \<Rightarrow> jval \<Rightarrow> openai_state option" where
  "ingestOpenAIChunk state chunk = (if j_nullish chunk then None
     else map_option (ingest_usage chunk)
       (case j_field chunk ''choices'' of JArr (choice # others) \<Rightarrow> ingest_choice state choice | _ \<Rightarrow> Some state))"

record openai_call =
  oc_id :: string
  oc_type :: string
  oc_name :: string
  oc_arguments :: string

definition string_or :: "jval \<Rightarrow> string \<Rightarrow> string" where
  "string_or v d = j_text (j_default v (JStr d))"

definition read_call :: "jval \<Rightarrow> openai_call list option" where
  "read_call t = (case j_prop t ''function'' of None \<Rightarrow> None
   | Some fn \<Rightarrow> Some (if \<not> j_truthy fn then []
       else [\<lparr>oc_id = string_or (j_field t ''id'') [], oc_type = string_or (j_field t ''type'') ''function'',
              oc_name = string_or (j_field fn ''name'') [], oc_arguments = text_of (j_field fn ''arguments'')\<rparr>]))"

definition extractOpenAIToolCalls :: "jval \<Rightarrow> openai_call list option" where
  "extractOpenAIToolCalls resp = do {
     choices \<leftarrow> j_prop resp ''choices'';
     (case choices of
        JArr (choice # others) \<Rightarrow> do {
          message \<leftarrow> j_prop choice ''message'';
          collect_in read_call (j_field message ''tool_calls'') }
      | _ \<Rightarrow> Some []) }"

section \<open>Anthropic\<close>

record tool_use_acc =
  tu_id :: string
  tu_name :: string
  tu_partialJson :: string

record anthropic_state =
  as_toolUses :: "(rat, tool_use_acc) jsmap"
  as_stopReason :: "string option"
  as_stopped :: "rat list"

definition newAnthropicStreamState :: anthropic_state where
  "newAnthropicStreamState = \<lparr>as_toolUses = [], as_stopReason = None, as_stopped = []\<rparr>"

definition ingestAnthropicEvent :: "anthropic_state \<Rightarrow> jval \<Rightarrow> anthropic_state option" where
  "ingestAnthropicEvent state evt = (case j_prop evt ''type'' of None \<Rightarrow> None
   | Some type \<Rightarrow>
       let idx = part_index evt; delta = j_field evt ''delta'' in
       Some (
         if type = JStr ''content_block_start'' then
           (let block = j_field evt ''content_block'' in
            if j_field block ''type'' = JStr ''tool_use''
            then state\<lparr>as_toolUses := jm_set idx \<lparr>tu_id = string_or (j_field block ''id'') [],
                   tu_name = string_or (j_field block ''name'') [], tu_partialJson = []\<rparr> (as_toolUses state)\<rparr>
            else state)
         else if type = JStr ''content_block_delta'' then
           (if j_field delta ''type'' = JStr ''input_json_delta''
            then (case jm_get (as_toolUses state) idx of
                Some acc \<Rightarrow> state\<lparr>as_toolUses := jm_set idx (acc\<lparr>tu_partialJson := tu_partialJson acc @ text_of (j_field delta ''partial_json'')\<rparr>)
                    (as_toolUses state)\<rparr>
              | None \<Rightarrow> state)
            else state)
         else if type = JStr ''content_block_stop'' then state\<lparr>as_stopped := List.insert idx (as_stopped state)\<rparr>
         else if type = JStr ''message_delta'' then state\<lparr>as_stopReason := replaced_by (as_stopReason state) (j_field delta ''stop_reason'')\<rparr>
         else state))"

record tool_use =
  au_id :: string
  au_name :: string
  au_input :: jval
  au_index :: nat

fun read_tool_uses :: "nat \<Rightarrow> jval list \<Rightarrow> tool_use list option" where
  "read_tool_uses i [] = Some []"
| "read_tool_uses i (block # blocks) = (case j_prop block ''type'' of None \<Rightarrow> None
   | Some type \<Rightarrow> map_option (\<lambda>rest. if type = JStr ''tool_use''
        then \<lparr>au_id = string_or (j_field block ''id'') [], au_name = string_or (j_field block ''name'') [],
               au_input = j_field block ''input'', au_index = i\<rparr> # rest
        else rest) (read_tool_uses (Suc i) blocks))"

definition extractAnthropicToolUses :: "jval \<Rightarrow> tool_use list option" where
  "extractAnthropicToolUses resp = (case j_prop resp ''content'' of None \<Rightarrow> None
   | Some content \<Rightarrow> (case content of JArr blocks \<Rightarrow> read_tool_uses 0 blocks | _ \<Rightarrow> Some []))"

section \<open>What is accumulated\<close>

text \<open>The fragments of one call among a list of parts, as a consumer of the stream puts them together.\<close>

definition call_name :: "rat \<Rightarrow> jval list \<Rightarrow> string" where
  "call_name i parts = concat (map part_name (filter (\<lambda>p. part_index p = i) parts))"

definition call_arguments :: "rat \<Rightarrow> jval list \<Rightarrow> string" where
  "call_arguments i parts = concat (map part_arguments (filter (\<lambda>p. part_index p = i) parts))"

definition chunk_parts :: "jval \<Rightarrow> jval list" where
  "chunk_parts chunk = (case j_field chunk ''choices'' of JArr (choice # others) \<Rightarrow> delta_parts choice | _ \<Rightarrow> [])"

definition accumulated :: "jval list \<Rightarrow> (rat, tool_acc) jsmap \<Rightarrow> bool" where
  "accumulated parts m \<longleftrightarrow> jm_ok m \<and> fst ` set m = part_index ` set parts \<and>
     (\<forall>i acc. jm_get m i = Some acc \<longrightarrow> ka_name acc = call_name i parts \<and> ka_arguments acc = call_arguments i parts)"

lemma accumulated_Nil [simp]: "accumulated [] []"
  by (simp add: accumulated_def)

lemma jm_get_None_iff: "jm_get m i = None \<longleftrightarrow> i \<notin> fst ` set m"
  by (rule map_of_eq_None_iff)

lemma no_fragments: "i \<notin> part_index ` set parts \<Longrightarrow> call_name i parts = [] \<and> call_arguments i parts = []"
  by (auto simp: call_name_def call_arguments_def filter_empty_conv)

lemma accumulated_part:
  assumes "accumulated parts m" and "ingest_part m part = Some m'"
  shows "accumulated (parts @ [part]) m'"
proof -
  from assms(1) have ok: "jm_ok m" and keys: "fst ` set m = part_index ` set parts"
    and acc: "\<And>i a. jm_get m i = Some a \<Longrightarrow> ka_name a = call_name i parts \<and> ka_arguments a = call_arguments i parts"
    by (auto simp: accumulated_def)
  let ?i = "part_index part"
  let ?a = "case jm_get m ?i of Some a \<Rightarrow> a | None \<Rightarrow> empty_acc"
  have a: "ka_name ?a = call_name ?i parts" "ka_arguments ?a = call_arguments ?i parts"
    using acc [of ?i] no_fragments [of ?i parts] keys jm_get_None_iff [of m ?i]
    by (auto simp: empty_acc_def split: option.splits)
  obtain b where m': "m' = jm_set ?i b m" and b: "ka_name b = ka_name ?a @ part_name part" "ka_arguments b = ka_arguments ?a @ part_arguments part"
    using assms(2) by (auto simp: ingest_part_def Let_def split: if_splits)
  have "\<forall>i c. jm_get m' i = Some c \<longrightarrow> ka_name c = call_name i (parts @ [part]) \<and> ka_arguments c = call_arguments i (parts @ [part])"
    using acc a b by (auto simp: m' jm_get_set call_name_def call_arguments_def)
  then show ?thesis using ok keys by (auto simp: accumulated_def m' jm_ok_set dom_update)
qed

lemma accumulated_parts: "accumulated parts m \<Longrightarrow> ingest_parts m others = Some m' \<Longrightarrow> accumulated (parts @ others) m'"
proof (induction others arbitrary: parts m)
  case (Cons part others)
  from Cons.prems(2) obtain m1 where "ingest_part m part = Some m1" and rest: "ingest_parts m1 others = Some m'"
    by (auto simp: bind_eq_Some_conv)
  then show ?case using Cons.IH [OF accumulated_part [OF Cons.prems(1)] rest] by simp
qed simp

lemma usage_keeps [simp]: "os_toolCalls (ingest_usage chunk state) = os_toolCalls state"
  "os_finishReason (ingest_usage chunk state) = os_finishReason state"
  by (auto simp: ingest_usage_def split: jval.split)

lemma accumulated_chunk:
  assumes "accumulated parts (os_toolCalls state)" and "ingestOpenAIChunk state chunk = Some state'"
  shows "accumulated (parts @ chunk_parts chunk) (os_toolCalls state')"
proof (cases "\<exists>choice others. j_field chunk ''choices'' = JArr (choice # others)")
  case True
  then obtain choice others where c: "j_field chunk ''choices'' = JArr (choice # others)" by blast
  then obtain m where "ingest_parts (os_toolCalls state) (delta_parts choice) = Some m" and "os_toolCalls state' = m"
    using assms(2) by (auto simp: ingestOpenAIChunk_def ingest_choice_def split: if_splits)
  then show ?thesis using accumulated_parts [OF assms(1)] c by (simp add: chunk_parts_def)
next
  case False
  then have "os_toolCalls state' = os_toolCalls state" and "chunk_parts chunk = []"
    using assms(2) by (auto simp: ingestOpenAIChunk_def chunk_parts_def split: if_splits jval.splits list.splits)
  then show ?thesis using assms(1) by simp
qed

text \<open>A chunk with no null in the way is always ingested.\<close>

lemma ingest_parts_total: "list_all (\<lambda>p. \<not> j_nullish p) parts \<Longrightarrow> \<exists>m'. ingest_parts m parts = Some m'"
  by (induction parts arbitrary: m) (auto simp: ingest_part_def Let_def)

end
