(* ===== verification/Client_Patches.thy ===== *)
theory Client_Patches
  imports Tool_Accumulators Response_Safety Stream_Notices Utf8_Text
begin

text \<open>
  The patches of the provider clients, \<^verbatim>\<open>instrumentation/openai-patch.ts\<close> and \<^verbatim>\<open>anthropic-patch.ts\<close>: where they are
  put, and what the patched \<^verbatim>\<open>create\<close> makes of a whole completion and of a streamed one. The evaluator is a
  function of the tool's name and arguments, \<^const>\<open>None\<close> where it rejects; a stream is the list of its chunks and
  whether it then fails. What a generator does is the chunks it yields and whether it throws after them.
\<close>

type_synonym judge = "string \<Rightarrow> jval \<Rightarrow> evaluation option"

definition judge_all :: "judge \<Rightarrow> (string \<times> jval) list \<Rightarrow> evaluation list option" where
  "judge_all judge calls = those (map (\<lambda>(name, args). judge name args) calls)"

definition is_denied :: "evaluation \<Rightarrow> bool" where
  "is_denied d \<longleftrightarrow> te_decision d = Dec_Deny"

definition block_notice :: "string \<Rightarrow> string \<Rightarrow> evaluation \<Rightarrow> string" where
  "block_notice name args d = makeBlockNoticeText name args (te_reason d) None None"

section \<open>A whole completion\<close>

text \<open>OpenAI: the entries are matched with the decisions by position; one without a decision throws.\<close>

fun openai_remaining :: "jval list \<Rightarrow> evaluation list \<Rightarrow> (jval list \<times> string list) option" where
  "openai_remaining [] ds = Some ([], [])"
| "openai_remaining (tc # tcs) [] = None"
| "openai_remaining (tc # tcs) (d # ds) = map_option (\<lambda>(remaining, notices).
     if is_denied d
     then (remaining, (let fn = j_default (j_field tc ''function'') (JObj []) in
       block_notice (string_or (j_field fn ''name'') []) (string_or (j_field fn ''arguments'') []) d) # notices)
     else (tc # remaining, notices)) (openai_remaining tcs ds)"

definition openai_rewrite :: "jval \<Rightarrow> jval list \<Rightarrow> string list \<Rightarrow> jval" where
  "openai_rewrite resp remaining notices = (case j_field resp ''choices'' of
     JArr (choice # others) \<Rightarrow>
       let message = j_field choice ''message'';
           message1 = (if remaining \<noteq> [] then j_put ''tool_calls'' (JArr remaining) message else j_delete ''tool_calls'' message);
           choice1 = (if remaining \<noteq> [] then choice else j_put ''finish_reason'' (JStr ''stop'') choice);
           message2 = j_put ''content'' (with_notices (text_of (j_field message1 ''content'')) notices) message1
       in j_put ''choices'' (JArr (j_put ''message'' message2 choice1 # others)) resp
   | _ \<Rightarrow> resp)"

record plaintext_completion =
  pc_provider :: string
  pc_model :: string
  pc_finishReason :: "string option"
  pc_role :: "string option"
  pc_completionId :: "string option"
  pc_usage :: "jval option"
  pc_contentByteCount :: "nat option"

text \<open>\<^const>\<open>None\<close>: something in the way is null; the failure is swallowed and nothing is recorded.\<close>

definition emitPlaintextAuditBestEffort :: "jval \<Rightarrow> string option \<Rightarrow> plaintext_completion option" where
  "emitPlaintextAuditBestEffort resp requestModel = do {
     choices \<leftarrow> j_prop resp ''choices'';
     let firstChoice = (case choices of JArr (c # others) \<Rightarrow> c | _ \<Rightarrow> JUndefined);
     let message = j_field firstChoice ''message'';
     Some \<lparr>pc_provider = ''openai'',
       pc_model = (case j_field resp ''model'' of JStr m \<Rightarrow> m | _ \<Rightarrow> (case requestModel of Some m \<Rightarrow> m | None \<Rightarrow> ''unknown'')),
       pc_finishReason = j_string (j_field firstChoice ''finish_reason''), pc_role = j_string (j_field message ''role''),
       pc_completionId = j_string (j_field resp ''id''),
       pc_usage = (case j_field resp ''usage'' of JObj kvs \<Rightarrow> Some (JObj kvs) | JArr vs \<Rightarrow> Some (JArr vs) | _ \<Rightarrow> None),
       pc_contentByteCount = map_option (\<lambda>s. length (utf8_encode s)) (j_string (j_field message ''content''))\<rparr> }"

definition opt_field :: "string \<Rightarrow> ('a \<Rightarrow> jval) \<Rightarrow> 'a option \<Rightarrow> (string \<times> jval) list" where
  "opt_field k f v = (case v of Some x \<Rightarrow> [(k, f x)] | None \<Rightarrow> [])"

definition nonempty :: "string option \<Rightarrow> string option" where
  "nonempty t = (case t of Some s \<Rightarrow> if s = [] then None else Some s | None \<Rightarrow> None)"

text \<open>What is posted for it; nothing where there is no source of identifiers.\<close>

definition recordPlaintextCompletion :: "string \<Rightarrow> string option \<Rightarrow> string option \<Rightarrow> string option \<Rightarrow> string \<Rightarrow> plaintext_completion \<Rightarrow> jval option" where
  "recordPlaintextCompletion agentId requestId sessionId userId client_ts m = (case nonempty requestId of None \<Rightarrow> None
   | Some i \<Rightarrow> Some (JObj [(''agent_id'', JStr agentId), (''request_id'', JStr i), (''provider'', JStr (pc_provider m)),
       (''model'', JStr (if pc_model m = [] then ''unknown'' else pc_model m)),
       (''params'', JObj ((''kind'', JStr ''plaintext_completion'') # opt_field ''finish_reason'' JStr (pc_finishReason m) @
          opt_field ''role'' JStr (nonempty (pc_role m)) @ opt_field ''completion_id'' JStr (nonempty (pc_completionId m)) @
          opt_field ''usage'' id (pc_usage m) @ opt_field ''content_byte_count'' (\<lambda>n. JNum (nat_text n)) (pc_contentByteCount m))),
       (''messages'', JArr []), (''tools_advertised'', JArr []), (''session_id'', j_opt_str sessionId),
       (''user_id'', j_opt_str userId), (''client_ts'', JStr client_ts)]))"

definition enforceNonStreamingOpenAI :: "judge \<Rightarrow> string option \<Rightarrow> jval \<Rightarrow> (jval \<times> plaintext_completion option) option" where
  "enforceNonStreamingOpenAI judge requestModel resp = do {
     calls \<leftarrow> extractOpenAIToolCalls resp;
     if calls = [] then Some (resp, emitPlaintextAuditBestEffort resp requestModel)
     else do {
       ds \<leftarrow> judge_all judge (map (\<lambda>c. (oc_name c, safeJsonParse (oc_arguments c))) calls);
       (case j_field resp ''choices'' of
          JArr (choice # others) \<Rightarrow> (case j_field (j_field choice ''message'') ''tool_calls'' of
              JArr entries \<Rightarrow> do {
                (remaining, notices) \<leftarrow> openai_remaining entries ds;
                Some (if notices = [] then resp else openai_rewrite resp remaining notices, None) }
            | _ \<Rightarrow> None)
        | _ \<Rightarrow> None) } }"

text \<open>Anthropic: a denied block is replaced where it stands.\<close>

fun replace_denied :: "jval list \<Rightarrow> (tool_use \<times> evaluation) list \<Rightarrow> jval list" where
  "replace_denied content [] = content"
| "replace_denied content ((t, d) # rest) = (let content' = replace_denied content rest in
     if is_denied d then content'[au_index t := text_block (block_notice (au_name t) (safeStringify (au_input t)) d)] else content')"

definition enforceNonStreamingAnthropic :: "judge \<Rightarrow> jval \<Rightarrow> jval option" where
  "enforceNonStreamingAnthropic judge resp = do {
     tools \<leftarrow> extractAnthropicToolUses resp;
     if tools = [] then Some resp
     else do {
       ds \<leftarrow> judge_all judge (map (\<lambda>t. (au_name t, au_input t)) tools);
       (case j_field resp ''content'' of
          JArr content \<Rightarrow> (let content' = replace_denied content (zip tools ds) in
            Some (if list_ex is_denied ds then end_turn ''stop_reason'' (list_ex is_tool_use content') (j_put ''content'' (JArr content') resp)
                  else resp))
        | _ \<Rightarrow> None) } }"

section \<open>A streamed completion: OpenAI\<close>

text \<open>
  The loop over the source: the chunks it passes on at once, and the state, the flag and the chunks it holds back
  where it comes to its end (\<^const>\<open>None\<close> where it throws).
\<close>

fun openai_collect :: "openai_state \<Rightarrow> bool \<Rightarrow> jval list \<Rightarrow> bool \<Rightarrow> jval list \<times> (openai_state \<times> bool \<times> jval list) option" where
  "openai_collect state hasToolCalls [] fails = ([], if fails then None else Some (state, hasToolCalls, []))"
| "openai_collect state hasToolCalls (chunk # rest) fails =
     (case ingestOpenAIChunk state chunk of
        None \<Rightarrow> ([], None)
      | Some st \<Rightarrow>
          let has = (hasToolCalls \<or> os_toolCalls st \<noteq> []) in
          if has \<or> os_finishReason st = None then
            (if os_finishReason st = Some ''tool_calls'' then ([], Some (st, has, [chunk]))
             else (case openai_collect st has rest fails of
                (out, r) \<Rightarrow> (out, map_option (\<lambda>(s, h, buffered). (s, h, chunk # buffered)) r)))
          else (case openai_collect st has rest fails of (out, r) \<Rightarrow> (chunk # out, r)))"

text \<open>\<^verbatim>\<open>{ ...v }\<close>\<close>

definition spread :: "jval \<Rightarrow> (string \<times> jval) list" where
  "spread v = (case v of JObj kvs \<Rightarrow> kvs | JArr vs \<Rightarrow> zip (map nat_text [0..<length vs]) vs
     | JStr s \<Rightarrow> zip (map nat_text [0..<length s]) (map (\<lambda>c. JStr [c]) s) | _ \<Rightarrow> [])"

definition rewrite_delta :: "rat set \<Rightarrow> (string \<times> jval) list \<Rightarrow> (string \<times> jval) list" where
  "rewrite_delta refused choice = (let delta = j_field (JObj choice) ''delta'' in
     (case j_field delta ''tool_calls'' of
        JArr parts \<Rightarrow>
          let kept = filter (\<lambda>p. part_index p \<notin> refused) parts in
          jm_set ''delta'' (JObj (if kept = [] then jm_del ''tool_calls'' (spread delta) else jm_set ''tool_calls'' (JArr kept) (spread delta))) choice
      | _ \<Rightarrow> choice))"

definition rewrite_finish :: "(string \<times> jval) list \<Rightarrow> (string \<times> jval) list" where
  "rewrite_finish choice = (if j_field (JObj choice) ''finish_reason'' = JStr ''tool_calls''
     then jm_set ''finish_reason'' (JStr (case j_field (j_field (JObj choice) ''delta'') ''tool_calls'' of
         JArr (p # ps) \<Rightarrow> ''tool_calls'' | _ \<Rightarrow> ''stop'')) choice
     else choice)"

definition rewriteChunkDroppingDenied :: "rat set \<Rightarrow> jval \<Rightarrow> jval" where
  "rewriteChunkDroppingDenied refused chunk = (case j_field chunk ''choices'' of
     JArr (choice # others) \<Rightarrow>
       JObj (jm_set ''choices'' (JArr (JObj (rewrite_finish (rewrite_delta refused (spread choice))) # others)) (spread chunk))
   | _ \<Rightarrow> chunk)"

definition notice_chunk :: "string \<Rightarrow> jval" where
  "notice_chunk notice = JObj [(''choices'', JArr [JObj [(''index'', JNum ''0''),
     (''delta'', JObj [(''role'', JStr ''assistant''), (''content'', JStr notice)]), (''finish_reason'', JNull)]])]"

definition stop_chunk :: jval where
  "stop_chunk = JObj [(''choices'', JArr [JObj [(''index'', JNum ''0''), (''delta'', JObj []), (''finish_reason'', JStr ''stop'')]])]"

definition wrapOpenAIStream :: "judge \<Rightarrow> jval list \<Rightarrow> bool \<Rightarrow> jval list \<times> bool" where
  "wrapOpenAIStream judge chunks fails = (case openai_collect newOpenAIStreamState False chunks fails of
     (out, None) \<Rightarrow> (out, True)
   | (out, Some (state, hasToolCalls, buffered)) \<Rightarrow>
       if \<not> hasToolCalls then (out @ buffered, False)
       else (case judge_all judge (map (\<lambda>(i, tc). (ka_name tc, safeJsonParse (ka_arguments tc))) (os_toolCalls state)) of
          None \<Rightarrow> (out, True)
        | Some ds \<Rightarrow>
            let refused = filter (\<lambda>(e, d). is_denied d) (zip (os_toolCalls state) ds) in
            if refused = [] then (out @ buffered, False)
            else (out @ map (rewriteChunkDroppingDenied (fst ` fst ` set refused)) buffered @
                  map (\<lambda>((i, tc), d). notice_chunk (block_notice (ka_name tc) (ka_arguments tc) d)) refused @ [stop_chunk], False)))"

section \<open>A streamed completion: Anthropic\<close>

definition event_index :: "jval \<Rightarrow> rat option" where
  "event_index evt = j_number (j_field evt ''index'')"

text \<open>A buffered event with the block it belongs to, whose number is kept as it was written.\<close>

type_synonym held_event = "jval \<times> (rat \<times> jval) option"

definition starts_tool :: "jval \<Rightarrow> bool" where
  "starts_tool evt \<longleftrightarrow> j_field evt ''type'' = JStr ''content_block_start'' \<and> j_field (j_field evt ''content_block'') ''type'' = JStr ''tool_use''"

definition continues_block :: "jval \<Rightarrow> bool" where
  "continues_block evt \<longleftrightarrow> j_field evt ''type'' = JStr ''content_block_delta'' \<or> j_field evt ''type'' = JStr ''content_block_stop''"

definition ends_message :: "jval \<Rightarrow> bool" where
  "ends_message evt \<longleftrightarrow> j_field evt ''type'' = JStr ''message_delta'' \<or> j_field evt ''type'' = JStr ''message_stop''"

text \<open>Whether the event is held back, and what the set of tool blocks becomes.\<close>

definition hold_event :: "rat list \<Rightarrow> jval \<Rightarrow> (rat \<times> jval) option option \<times> rat list" where
  "hold_event blocks evt = (case event_index evt of
     Some i \<Rightarrow>
       if starts_tool evt then (Some (Some (i, j_field evt ''index'')), List.insert i blocks)
       else if continues_block evt \<and> i \<in> set blocks then (Some (Some (i, j_field evt ''index'')), blocks)
       else (if ends_message evt then Some None else None, blocks)
   | None \<Rightarrow> (if ends_message evt then Some None else None, blocks))"

fun anthropic_collect :: "anthropic_state \<Rightarrow> rat list \<Rightarrow> jval list \<Rightarrow> bool \<Rightarrow>
    jval list \<times> (anthropic_state \<times> rat list \<times> held_event list) option" where
  "anthropic_collect state blocks [] fails = ([], if fails then None else Some (state, blocks, []))"
| "anthropic_collect state blocks (evt # rest) fails =
     (case ingestAnthropicEvent state evt of
        None \<Rightarrow> ([], None)
      | Some st \<Rightarrow> (case hold_event blocks evt of (held, blocks') \<Rightarrow>
          (case anthropic_collect st blocks' rest fails of (out, r) \<Rightarrow>
             (case held of
                None \<Rightarrow> (evt # out, r)
              | Some b \<Rightarrow> (out, map_option (\<lambda>(s, bs, buffered). (s, bs, (evt, b) # buffered)) r)))))"

definition notice_events :: "jval \<Rightarrow> string \<Rightarrow> jval list" where
  "notice_events index notice =
     [JObj [(''type'', JStr ''content_block_start''), (''index'', index), (''content_block'', JObj [(''type'', JStr ''text''), (''text'', JStr [])])],
      JObj [(''type'', JStr ''content_block_delta''), (''index'', index), (''delta'', JObj [(''type'', JStr ''text_delta''), (''text'', JStr notice)])],
      JObj [(''type'', JStr ''content_block_stop''), (''index'', index)]]"

definition rewriteMessageDeltaStopReason :: "jval \<Rightarrow> jval" where
  "rewriteMessageDeltaStopReason evt = (let d = j_field evt ''delta'' in
     if j_field d ''stop_reason'' = JStr ''tool_use'' then j_put ''delta'' (j_put ''stop_reason'' (JStr ''end_turn'') d) evt else evt)"

fun anthropic_emit :: "(rat, evaluation) jsmap \<Rightarrow> (rat, tool_use_acc) jsmap \<Rightarrow> rat list \<Rightarrow> bool \<Rightarrow> held_event list \<Rightarrow> jval list" where
  "anthropic_emit refused accs handled rewrote [] = []"
| "anthropic_emit refused accs handled rewrote ((evt, b) # rest) =
     (case Option.bind b (\<lambda>(i, index). map_option (Pair (i, index)) (jm_get refused i)) of
        Some ((i, index), d) \<Rightarrow>
          if i \<in> set handled then anthropic_emit refused accs handled rewrote rest
          else (case jm_get accs i of None \<Rightarrow> [] | Some acc \<Rightarrow> notice_events index (block_notice (tu_name acc) (tu_partialJson acc) d)) @
            anthropic_emit refused accs (i # handled) True rest
      | None \<Rightarrow>
          (if rewrote \<and> j_field evt ''type'' = JStr ''message_delta'' then rewriteMessageDeltaStopReason evt else evt) #
          anthropic_emit refused accs handled rewrote rest)"

definition wrapAnthropicStream :: "judge \<Rightarrow> jval list \<Rightarrow> bool \<Rightarrow> jval list \<times> bool" where
  "wrapAnthropicStream judge events fails = (case anthropic_collect newAnthropicStreamState [] events fails of
     (out, None) \<Rightarrow> (out, True)
   | (out, Some (state, blocks, buffered)) \<Rightarrow>
       if blocks = [] then (out @ map fst buffered, False)
       else (case judge_all judge (map (\<lambda>(i, acc). (tu_name acc, safeJsonParse (tu_partialJson acc))) (as_toolUses state)) of
          None \<Rightarrow> (out, True)
        | Some ds \<Rightarrow>
            let refused = filter (\<lambda>(i, d). is_denied d) (zip (map fst (as_toolUses state)) ds) in
            (out @ anthropic_emit refused (as_toolUses state) [] False buffered, False)))"

section \<open>What a streamed OpenAI completion lets through\<close>

lemma text_is_number: "list_all is_digit s \<and> s \<noteq> [] \<Longrightarrow> s \<notin> {''delta'', ''finish_reason'', ''tool_calls'', ''choices''}"
  by (auto simp: is_digit_def)

lemma no_number_key: "k \<in> {''delta'', ''finish_reason'', ''tool_calls'', ''choices''} \<Longrightarrow> map_of (zip (map nat_text ns) vs) k = None"
proof -
  assume k: "k \<in> {''delta'', ''finish_reason'', ''tool_calls'', ''choices''}"
  have "k \<notin> range nat_text" using text_is_number [of k] nat_text_is_number k by auto
  then show ?thesis by (auto simp: map_of_eq_None_iff dest!: set_zip_leftD)
qed

lemma field_spread:
  assumes "k \<in> {''delta'', ''finish_reason'', ''tool_calls'', ''choices''}"
  shows "j_field (JObj (spread v)) k = j_field v k"
  by (cases v) (simp_all add: spread_def j_field_def j_prop_def no_number_key [OF assms] del: zip_map_map zip_map1 zip_map2)

lemma field_set: "j_field (JObj (jm_set k v kvs)) k' = (if k' = k then v else j_field (JObj kvs) k')"
  by (simp add: j_field_def j_prop_def update_conv')

lemma field_del: "j_field (JObj (jm_del k kvs)) k' = (if k' = k then JUndefined else j_field (JObj kvs) k')"
  by (simp add: j_field_def j_prop_def delete_conv')

lemmas field_laws = field_set field_del field_spread

lemma delta_parts_finish: "delta_parts (JObj (rewrite_finish kvs)) = delta_parts (JObj kvs)"
  by (simp add: rewrite_finish_def delta_parts_def field_set)

lemma delta_parts_rewritten: "delta_parts (JObj (rewrite_delta bad kvs)) = filter (\<lambda>p. part_index p \<notin> bad) (delta_parts (JObj kvs))"
  by (auto simp: rewrite_delta_def delta_parts_def Let_def field_laws filter_empty_conv split: jval.splits)

lemma delta_parts_spread: "delta_parts (JObj (spread choice)) = delta_parts choice"
  by (simp add: delta_parts_def field_spread)

lemma rewritten_parts: "chunk_parts (rewriteChunkDroppingDenied bad chunk) = filter (\<lambda>p. part_index p \<notin> bad) (chunk_parts chunk)"
  by (auto simp: rewriteChunkDroppingDenied_def chunk_parts_def field_set delta_parts_finish delta_parts_rewritten delta_parts_spread
      split: jval.splits list.splits)

lemma notice_parts [simp]: "chunk_parts (notice_chunk t) = []" "chunk_parts stop_chunk = []"
  by (simp_all add: chunk_parts_def notice_chunk_def stop_chunk_def delta_parts_def j_field_def j_prop_def)

definition parts_of :: "jval list \<Rightarrow> jval list" where
  "parts_of chunks = concat (map chunk_parts chunks)"

lemma parts_of_simps [simp]: "parts_of [] = []" "parts_of (c # cs) = chunk_parts c @ parts_of cs"
  "parts_of (cs @ ds) = parts_of cs @ parts_of ds"
  by (simp_all add: parts_of_def)

lemma parts_of_notices [simp]: "parts_of (map (\<lambda>x. notice_chunk (f x)) xs) = []"
  by (induction xs) simp_all

lemma accumulated_empty: "accumulated parts [] \<Longrightarrow> parts = []"
  by (simp add: accumulated_def)

text \<open>Nothing of a call is passed on at once, and what is held back is all that was accumulated.\<close>

lemma collected:
  assumes "openai_collect state has chunks fails = (out, r)" and "accumulated parts (os_toolCalls state)"
    and "has \<longleftrightarrow> os_toolCalls state \<noteq> []"
  shows "parts_of out = [] \<and> (\<forall>st h buffered. r = Some (st, h, buffered) \<longrightarrow>
     accumulated (parts @ parts_of buffered) (os_toolCalls st) \<and> (h \<longleftrightarrow> os_toolCalls st \<noteq> []))"
  using assms
proof (induction chunks arbitrary: state has out r parts)
  case Nil
  then show ?case by (auto split: if_splits)
next
  case (Cons chunk rest)
  show ?case
  proof (cases "ingestOpenAIChunk state chunk")
    case None
    then show ?thesis using Cons.prems(1) by auto
  next
    case (Some st)
    note acc = accumulated_chunk [OF Cons.prems(2) Some]
    let ?has = "has \<or> os_toolCalls st \<noteq> []"
    have kept: "\<not> has \<and> chunk_parts chunk = []" if "os_toolCalls st = []"
      using that acc Cons.prems(2,3) accumulated_empty [of "parts @ chunk_parts chunk"] by (auto simp: accumulated_def)
    then have h: "?has \<longleftrightarrow> os_toolCalls st \<noteq> []" by blast
    obtain out1 r1 where step: "openai_collect st ?has rest fails = (out1, r1)" by (cases "openai_collect st ?has rest fails")
    note IH = Cons.IH [OF step acc h]
    show ?thesis
    proof (cases "?has \<or> os_finishReason st = None")
      case True
      then show ?thesis using Cons.prems(1) Some IH step acc h by (auto simp: Let_def split: if_splits)
    next
      case False
      then have "out = chunk # out1" "r = r1" and "os_toolCalls st = []" using Cons.prems(1) Some step by auto
      then show ?thesis using IH kept by simp
    qed
  qed
qed

lemma judge_all_nth:
  "judge_all judge calls = Some ds \<Longrightarrow> length ds = length calls \<and> (\<forall>i < length calls. judge (fst (calls ! i)) (snd (calls ! i)) = Some (ds ! i))"
proof (induction calls arbitrary: ds)
  case (Cons c calls)
  then obtain d ds' where "ds = d # ds'" "case c of (n, a) \<Rightarrow> judge n a = Some d" "judge_all judge calls = Some ds'"
    by (auto simp: judge_all_def split: option.splits prod.splits)
  then show ?case using Cons.IH [of ds'] by (auto simp: nth_Cons split: nat.split prod.splits)
qed (simp add: judge_all_def)

text \<open>The decision on the call with a given number.\<close>

lemma judged_call:
  assumes "judge_all judge (map f m) = Some ds" and "jm_ok m" and "jm_get m i = Some acc"
  obtains d where "judge (fst (f (i, acc))) (snd (f (i, acc))) = Some d" and "((i, acc), d) \<in> set (zip m ds)"
proof -
  obtain k where k: "k < length m" "m ! k = (i, acc)" using map_of_SomeD [OF assms(3)] by (auto simp: in_set_conv_nth)
  have "length ds = length m" "judge (fst (f (i, acc))) (snd (f (i, acc))) = Some (ds ! k)"
    using judge_all_nth [OF assms(1)] k by auto
  moreover from this have "((i, acc), ds ! k) \<in> set (zip m ds)" using k by (auto simp: in_set_zip intro!: exI [of _ k])
  ultimately show thesis using that by blast
qed

lemma kept_call: "i \<notin> bad \<Longrightarrow> call_name i (filter (\<lambda>p. part_index p \<notin> bad) parts) = call_name i parts \<and>
    call_arguments i (filter (\<lambda>p. part_index p \<notin> bad) parts) = call_arguments i parts"
  by (auto simp: call_name_def call_arguments_def intro!: arg_cong [of _ _ concat] arg_cong [of _ _ "map _"] filter_cong)

lemma parts_of_rewritten: "parts_of (map (rewriteChunkDroppingDenied bad) chunks) = filter (\<lambda>p. part_index p \<notin> bad) (parts_of chunks)"
  by (induction chunks) (simp_all add: rewritten_parts)

text \<open>C10: of a completion streamed through the patched OpenAI client, a consumer who puts together the forwarded fragments of
  a call of the first choice has a call that the evaluator was asked about, with that name and those arguments, and
  allowed. (The other choices are not looked at: \<open>second_choice_is_not_evaluated\<close>.)\<close>

theorem openai_stream_forwards_allowed_calls:
  assumes "wrapOpenAIStream judge chunks fails = (out, threw)" and "part \<in> set (parts_of out)"
  shows "\<exists>d. judge (call_name (part_index part) (parts_of out)) (safeJsonParse (call_arguments (part_index part) (parts_of out))) = Some d \<and>
    te_decision d = Dec_Allow"
proof -
  obtain live r where c: "openai_collect newOpenAIStreamState False chunks fails = (live, r)"
    by (cases "openai_collect newOpenAIStreamState False chunks fails")
  have live: "parts_of live = []" and held: "\<And>st h buffered. r = Some (st, h, buffered) \<Longrightarrow>
      accumulated (parts_of buffered) (os_toolCalls st) \<and> (h \<longleftrightarrow> os_toolCalls st \<noteq> [])"
    using collected [OF c, of "[]"] by (auto simp: newOpenAIStreamState_def)
  obtain st h buffered where r: "r = Some (st, h, buffered)" using assms c live by (cases r) (auto simp: wrapOpenAIStream_def)
  note acc = held [OF r]
  let ?i = "part_index part"
  let ?f = "\<lambda>(i, tc). (ka_name tc, safeJsonParse (ka_arguments tc))"
  have "h"
  proof (rule ccontr)
    assume "\<not> h"
    then have "os_toolCalls st = []" and out: "out = live @ buffered" using acc assms(1) c r by (auto simp: wrapOpenAIStream_def)
    then have "parts_of buffered = []" by (intro accumulated_empty) (metis acc)
    then show False using live assms(2) out by simp
  qed
  with assms obtain ds where ds: "judge_all judge (map ?f (os_toolCalls st)) = Some ds"
    using c r live by (auto simp: wrapOpenAIStream_def split: option.splits)
  define bad where "bad = fst ` fst ` set (filter (\<lambda>(e, d). is_denied d) (zip (os_toolCalls st) ds))"
  have out: "parts_of out = filter (\<lambda>p. part_index p \<notin> bad) (parts_of buffered)"
  proof (cases "filter (\<lambda>(e, d). is_denied d) (zip (os_toolCalls st) ds) = []")
    case True
    then have "bad = {}" unfolding bad_def by simp
    moreover have "out = live @ buffered" using assms(1) c r ds \<open>h\<close> True by (simp add: wrapOpenAIStream_def)
    ultimately show ?thesis using live by simp
  next
    case False
    then show ?thesis using assms(1) c r live ds \<open>h\<close>
      by (auto simp: wrapOpenAIStream_def Let_def bad_def case_prod_unfold parts_of_rewritten)
  qed
  from assms(2) have p: "part \<in> set (parts_of buffered)" "?i \<notin> bad" by (auto simp: out)
  obtain a where a: "jm_get (os_toolCalls st) ?i = Some a"
    using p acc jm_get_None_iff [of "os_toolCalls st" ?i] by (cases "jm_get (os_toolCalls st) ?i") (auto simp: accumulated_def)
  obtain d where d: "judge (ka_name a) (safeJsonParse (ka_arguments a)) = Some d" "((?i, a), d) \<in> set (zip (os_toolCalls st) ds)"
    using judged_call [OF ds _ a] acc by (auto simp: accumulated_def)
  have "\<not> is_denied d" using d(2) p(2) by (force simp: bad_def)
  then have "te_decision d = Dec_Allow" by (cases "te_decision d") (simp_all add: is_denied_def)
  moreover have "ka_name a = call_name ?i (parts_of out)" "ka_arguments a = call_arguments ?i (parts_of out)"
    using acc a kept_call [OF p(2)] by (auto simp: accumulated_def out)
  ultimately show ?thesis using d(1) by auto
qed

section \<open>What a streamed Anthropic completion lets through\<close>

fun ingest_events :: "anthropic_state \<Rightarrow> jval list \<Rightarrow> anthropic_state option" where
  "ingest_events state [] = Some state"
| "ingest_events state (evt # events) = Option.bind (ingestAnthropicEvent state evt) (\<lambda>st. ingest_events st events)"

text \<open>An event of a block has a number.\<close>

definition indexed :: "jval \<Rightarrow> bool" where
  "indexed evt \<longleftrightarrow> (starts_tool evt \<or> continues_block evt \<longrightarrow> event_index evt \<noteq> None)"

text \<open>What an event makes of the call accumulated for one block.\<close>

definition seen :: "rat \<Rightarrow> tool_use_acc option \<Rightarrow> jval \<Rightarrow> tool_use_acc option" where
  "seen i a evt = (if part_index evt \<noteq> i then a
     else if starts_tool evt then Some \<lparr>tu_id = string_or (j_field (j_field evt ''content_block'') ''id'') [],
       tu_name = string_or (j_field (j_field evt ''content_block'') ''name'') [], tu_partialJson = []\<rparr>
     else if j_field evt ''type'' = JStr ''content_block_delta'' \<and> j_field (j_field evt ''delta'') ''type'' = JStr ''input_json_delta''
       then map_option (\<lambda>acc. acc\<lparr>tu_partialJson := tu_partialJson acc @ text_of (j_field (j_field evt ''delta'') ''partial_json'')\<rparr>) a
     else a)"

lemma prop_field: "j_prop v k = Some w \<Longrightarrow> j_field v k = w"
  by (simp add: j_field_def)

lemma ingested: "ingestAnthropicEvent st evt = Some st' \<Longrightarrow> jm_get (as_toolUses st') i = seen i (jm_get (as_toolUses st) i) evt"
  by (auto simp: ingestAnthropicEvent_def seen_def starts_tool_def Let_def jm_get_set split: option.splits if_splits dest!: prop_field)

lemma ingested_ok: "ingestAnthropicEvent st evt = Some st' \<Longrightarrow> jm_ok (as_toolUses st) \<Longrightarrow> jm_ok (as_toolUses st')"
  by (auto simp: ingestAnthropicEvent_def Let_def jm_ok_set split: option.splits if_splits)

lemma ingested_events: "ingest_events st events = Some st' \<Longrightarrow> jm_get (as_toolUses st') i = foldl (seen i) (jm_get (as_toolUses st) i) events"
  by (induction events arbitrary: st) (auto simp: bind_eq_Some_conv ingested)

lemma seen_started: "seen i a evt = Some acc \<Longrightarrow> a = None \<Longrightarrow> starts_tool evt \<and> part_index evt = i"
  by (auto simp: seen_def split: if_splits)

lemma index_part: "event_index evt = Some i \<Longrightarrow> part_index evt = i"
  by (simp add: event_index_def part_index_def number_or_0_def)

text \<open>An event that is passed on at once does not touch a call, and a block is held from its start on.\<close>

lemma live_event:
  assumes "hold_event blocks evt = (None, blocks')" and "indexed evt" and "\<And>i. i \<in> set blocks \<longleftrightarrow> a i \<noteq> None"
  shows "seen i (a i) evt = a i \<and> \<not> starts_tool evt \<and> blocks' = blocks"
  using assms(1,2) assms(3) [of i]
  by (auto simp: hold_event_def indexed_def seen_def starts_tool_def continues_block_def split: option.splits if_splits dest: index_part)

lemma held_event:
  assumes "hold_event blocks evt = (Some b, blocks')" and "\<And>i. i \<in> set blocks \<longleftrightarrow> a i \<noteq> None"
  shows "(i \<in> set blocks' \<longleftrightarrow> seen i (a i) evt \<noteq> None) \<and> (case b of Some (j, index) \<Rightarrow> part_index evt = j \<and> index = j_field evt ''index'' \<and> j_number index = Some j | None \<Rightarrow> ends_message evt)"
  using assms(1) assms(2) [of i]
  by (auto simp: hold_event_def seen_def starts_tool_def continues_block_def event_index_def part_index_def number_or_0_def ends_message_def
      split: option.splits if_splits)

definition well_held :: "held_event \<Rightarrow> bool" where
  "well_held h \<longleftrightarrow> (case snd h of Some (j, index) \<Rightarrow> part_index (fst h) = j \<and> j_number index = Some j | None \<Rightarrow> ends_message (fst h))"

lemma anthropic_collected:
  assumes "anthropic_collect state blocks events fails = (out, r)" and "list_all indexed events"
    and "\<And>i. i \<in> set blocks \<longleftrightarrow> jm_get (as_toolUses state) i \<noteq> None" and "jm_ok (as_toolUses state)"
  shows "list_all (\<lambda>e. \<not> starts_tool e) out \<and> (\<forall>st bs buffered. r = Some (st, bs, buffered) \<longrightarrow>
    (\<forall>i. jm_get (as_toolUses st) i = foldl (seen i) (jm_get (as_toolUses state) i) (map fst buffered)) \<and>
    list_all well_held buffered \<and> jm_ok (as_toolUses st) \<and> (\<forall>i. i \<in> set bs \<longleftrightarrow> jm_get (as_toolUses st) i \<noteq> None))"
  using assms
proof (induction events arbitrary: state blocks out r)
  case Nil
  then show ?case by (auto split: if_splits)
next
  case (Cons evt rest)
  show ?case
  proof (cases "ingestAnthropicEvent state evt")
    case None
    then show ?thesis using Cons.prems(1) by auto
  next
    case (Some st)
    obtain held blocks' where h: "hold_event blocks evt = (held, blocks')" by (cases "hold_event blocks evt")
    obtain out1 r1 where step: "anthropic_collect st blocks' rest fails = (out1, r1)" by (cases "anthropic_collect st blocks' rest fails")
    have rest: "list_all indexed rest" and evt: "indexed evt" using Cons.prems(2) by auto
    show ?thesis
    proof (cases held)
      case None
      have live: "jm_get (as_toolUses st) i = jm_get (as_toolUses state) i \<and> \<not> starts_tool evt \<and> blocks' = blocks" for i
        using live_event [OF h [unfolded None] evt Cons.prems(3)] ingested [OF Some] by simp
      then have "\<And>i. i \<in> set blocks' \<longleftrightarrow> jm_get (as_toolUses st) i \<noteq> None" using Cons.prems(3) by simp
      note IH = Cons.IH [OF step rest this ingested_ok [OF Some Cons.prems(4)]]
      have "out = evt # out1" "r = r1" using Cons.prems(1) Some h step None by auto
      then show ?thesis using IH live by simp
    next
      case (Some b)
      note held = held_event [OF h [unfolded Some] Cons.prems(3)]
      have "\<And>i. i \<in> set blocks' \<longleftrightarrow> jm_get (as_toolUses st) i \<noteq> None" using held ingested [OF \<open>ingestAnthropicEvent state evt = Some st\<close>] by simp
      note IH = Cons.IH [OF step rest this ingested_ok [OF \<open>ingestAnthropicEvent state evt = Some st\<close> Cons.prems(4)]]
      have "out = out1" "r = map_option (\<lambda>(s, bs, buffered). (s, bs, (evt, b) # buffered)) r1"
        using Cons.prems(1) \<open>ingestAnthropicEvent state evt = Some st\<close> h step Some by auto
      moreover have "well_held (evt, b)" using held [of 0] by (auto simp: well_held_def split: option.splits)
      ultimately show ?thesis using IH ingested [OF \<open>ingestAnthropicEvent state evt = Some st\<close>] by auto
    qed
  qed
qed

lemma live_unseen: "list_all (\<lambda>e. \<not> starts_tool e) out \<Longrightarrow> foldl (seen i) None out = None"
proof (induction out)
  case (Cons e out)
  have "seen i None e = None" using Cons.prems by (simp add: seen_def)
  then show ?case using Cons by simp
qed simp

lemma message_unseen: "ends_message evt \<Longrightarrow> seen i a evt = a"
  by (auto simp: ends_message_def seen_def starts_tool_def)

lemma rewritten_unseen: "j_field evt ''type'' = JStr ''message_delta'' \<Longrightarrow> seen i a (rewriteMessageDeltaStopReason evt) = a"
proof -
  assume t: "j_field evt ''type'' = JStr ''message_delta''"
  then have "j_is_object evt" using field_object [of evt "''type''"] by simp
  then have "j_field (rewriteMessageDeltaStopReason evt) ''type'' = JStr ''message_delta''"
    using t by (simp add: rewriteMessageDeltaStopReason_def Let_def field_put)
  then show ?thesis by (simp add: seen_def starts_tool_def)
qed

lemma kept_unseen: "seen i a (if rewrote \<and> j_field evt ''type'' = JStr ''message_delta'' then rewriteMessageDeltaStopReason evt else evt) = seen i a evt"
  using rewritten_unseen [of evt i a] by (auto simp: seen_def starts_tool_def)

lemma notice_unseen: "foldl (seen i) a (notice_events index t) = a"
  by (simp add: notice_events_def seen_def starts_tool_def j_field_def j_prop_def)

lemma other_unseen: "part_index evt \<noteq> i \<Longrightarrow> seen i a evt = a"
  by (simp add: seen_def)

text \<open>What is emitted holds the calls that were not refused, as they were held back, and no other.\<close>

lemma emitted:
  assumes "list_all well_held buffered"
  shows "foldl (seen i) (if jm_get bad i = None then a else None) (anthropic_emit bad accs handled rewrote buffered) =
    (if jm_get bad i = None then foldl (seen i) a (map fst buffered) else None)"
  using assms
proof (induction buffered arbitrary: a handled rewrote)
  case (Cons h rest)
  obtain evt b where h: "h = (evt, b)" by (cases h)
  have rest: "list_all well_held rest" and wh: "well_held (evt, b)" using Cons.prems h by auto
  note IH = Cons.IH [OF rest]
  show ?case
  proof (cases b)
    case None
    then have "seen i x evt = x" for x using wh message_unseen by (simp add: well_held_def)
    then show ?thesis using IH [of a] kept_unseen by (auto simp: h None)
  next
    case (Some p)
    then obtain j index where b: "b = Some (j, index)" by (cases p) auto
    then have j: "part_index evt = j" using wh by (simp add: well_held_def)
    show ?thesis
    proof (cases "jm_get bad j")
      case None
      have e: "seen i x evt = x" if "i \<noteq> j" for x using other_unseen j that by simp
      show ?thesis using IH e kept_unseen None by (cases "i = j") (auto simp: h b None)
    next
      case (Some d)
      then have e: "jm_get bad i = None \<Longrightarrow> seen i x evt = x" for x using other_unseen [of evt i] j by (cases "part_index evt = i") auto
      show ?thesis using IH e by (auto simp: h b Some notice_unseen split: option.split)
    qed
  qed
qed simp

text \<open>C11: of a completion streamed through the patched Anthropic client, where every event of a block has a number, a consumer
  who puts tool calls together from their starts and their streamed arguments has only calls that the evaluator was
  asked about, with that name and those arguments, and allowed. (Input that a start carries itself is not looked
  at, nor is a block without a number: \<open>start_input_is_not_evaluated\<close>, \<open>unnumbered_block_passes\<close>.)\<close>

theorem anthropic_stream_forwards_allowed_calls:
  assumes "wrapAnthropicStream judge events fails = (out, threw)" and "list_all indexed events"
    and "ingest_events newAnthropicStreamState out = Some st" and "jm_get (as_toolUses st) i = Some acc"
  shows "\<exists>d. judge (tu_name acc) (safeJsonParse (tu_partialJson acc)) = Some d \<and> te_decision d = Dec_Allow"
proof -
  obtain live r where c: "anthropic_collect newAnthropicStreamState [] events fails = (live, r)"
    by (cases "anthropic_collect newAnthropicStreamState [] events fails")
  note coll = anthropic_collected [OF c assms(2)]
  have live: "foldl (seen i) None live = None" using coll live_unseen by (simp add: newAnthropicStreamState_def)
  have got: "foldl (seen i) None out = Some acc"
    using ingested_events [OF assms(3), of i] assms(4) by (simp add: newAnthropicStreamState_def)
  obtain end_st bs buffered where r: "r = Some (end_st, bs, buffered)"
    using assms(1) c live got by (cases r) (auto simp: wrapAnthropicStream_def)
  have uses: "\<And>k. jm_get (as_toolUses end_st) k = foldl (seen k) None (map fst buffered)" and held: "list_all well_held buffered"
    and ok: "jm_ok (as_toolUses end_st)" and bs: "\<And>k. k \<in> set bs \<longleftrightarrow> jm_get (as_toolUses end_st) k \<noteq> None"
    using coll r by (auto simp: newAnthropicStreamState_def)
  let ?f = "\<lambda>(i, a). (tu_name a, safeJsonParse (tu_partialJson a))"
  have "bs \<noteq> []"
  proof
    assume b: "bs = []"
    then have "out = live @ map fst buffered" using assms(1) c r by (simp add: wrapAnthropicStream_def)
    then show False using got live uses [of i] bs [of i] b by simp
  qed
  with assms(1) c r obtain ds where ds: "judge_all judge (map ?f (as_toolUses end_st)) = Some ds"
    using live got by (auto simp: wrapAnthropicStream_def split: option.splits)
  define bad where "bad = filter (\<lambda>(i, d). is_denied d) (zip (map fst (as_toolUses end_st)) ds)"
  have "out = live @ anthropic_emit bad (as_toolUses end_st) [] False buffered"
    using assms(1) c r ds \<open>bs \<noteq> []\<close> by (simp add: wrapAnthropicStream_def bad_def Let_def)
  then have "jm_get bad i = None" and "jm_get (as_toolUses end_st) i = Some acc"
    using got live emitted [OF held, of i bad None "as_toolUses end_st" "[]" False] uses [of i] by (auto split: if_splits)
  from judged_call [OF ds ok this(2)] obtain d where d: "judge (tu_name acc) (safeJsonParse (tu_partialJson acc)) = Some d"
      and z: "((i, acc), d) \<in> set (zip (as_toolUses end_st) ds)" by auto
  have "(i, d) \<in> set (zip (map fst (as_toolUses end_st)) ds)" using z by (force simp: zip_map1)
  then have "\<not> is_denied d" using \<open>jm_get bad i = None\<close> by (force simp: bad_def map_of_eq_None_iff)
  then show ?thesis using d by (cases "te_decision d") (auto simp: is_denied_def)
qed

section \<open>What a whole completion lets through\<close>

lemma collect_length: "collect read_call entries = Some calls \<Longrightarrow> length calls \<le> length entries"
proof (induction entries arbitrary: calls)
  case (Cons e entries)
  then obtain c cs where "read_call e = Some c" "collect read_call entries = Some cs" "calls = c @ cs" by (auto simp: bind_eq_Some_conv)
  moreover from this have "length c \<le> 1" by (auto simp: read_call_def split: option.splits if_splits)
  ultimately show ?case using Cons.IH [of cs] by simp
qed simp

lemma remaining_length: "openai_remaining entries ds = Some x \<Longrightarrow> length entries \<le> length ds"
  by (induction entries ds arbitrary: x rule: openai_remaining.induct) auto

text \<open>Where no entry lacks a decision, entries, calls and decisions agree by position.\<close>

lemma remaining_calls:
  assumes "collect read_call entries = Some calls" and "length ds = length calls" and "openai_remaining entries ds = Some (remaining, notices)"
  shows "collect read_call remaining = Some (map fst (filter (\<lambda>(c, d). \<not> is_denied d) (zip calls ds))) \<and>
    (notices = [] \<longrightarrow> remaining = entries)"
  using assms
proof (induction entries arbitrary: calls ds remaining notices)
  case (Cons e entries)
  then obtain c cs where c: "read_call e = Some c" "collect read_call entries = Some cs" "calls = c @ cs" by (auto simp: bind_eq_Some_conv)
  have "length c \<le> 1" using c(1) by (auto simp: read_call_def split: option.splits if_splits)
  moreover have "Suc (length entries) \<le> length c + length cs" using remaining_length [OF Cons.prems(3)] Cons.prems(2) c(3) by simp
  moreover have "length cs \<le> length entries" by (rule collect_length [OF c(2)])
  ultimately obtain x where x: "c = [x]" by (cases c) auto
  then obtain d ds' where ds: "ds = d # ds'" "length ds' = length cs" using Cons.prems(2) c(3) by (cases ds) auto
  obtain rem ns where r: "openai_remaining entries ds' = Some (rem, ns)" using Cons.prems(3) ds by auto
  note IH = Cons.IH [OF c(2) ds(2) r]
  show ?case using IH Cons.prems(3) c x ds r by (auto simp: Let_def split: if_splits)
qed simp

lemma extract_object: "extractOpenAIToolCalls resp = Some calls \<Longrightarrow> calls \<noteq> [] \<Longrightarrow> \<exists>choice others entries.
    j_field resp ''choices'' = JArr (choice # others) \<and> j_field (j_field choice ''message'') ''tool_calls'' = JArr entries \<and>
    collect read_call entries = Some calls"
proof -
  assume e: "extractOpenAIToolCalls resp = Some calls" and "calls \<noteq> []"
  from e obtain cs where cs: "j_field resp ''choices'' = cs" "(case cs of
        JArr (choice # others) \<Rightarrow> do { message \<leftarrow> j_prop choice ''message''; collect_in read_call (j_field message ''tool_calls'') }
      | _ \<Rightarrow> Some []) = Some calls"
    unfolding extractOpenAIToolCalls_def by (auto simp: bind_eq_Some_conv dest!: prop_field)
  then obtain choice others where c: "cs = JArr (choice # others)" using \<open>calls \<noteq> []\<close> by (auto split: jval.splits list.splits)
  then obtain message where m: "j_field choice ''message'' = message" "collect_in read_call (j_field message ''tool_calls'') = Some calls"
    using cs(2) by (auto simp: bind_eq_Some_conv dest!: prop_field)
  then obtain entries where "j_field message ''tool_calls'' = JArr entries" "collect read_call entries = Some calls"
    using \<open>calls \<noteq> []\<close> by (auto simp: collect_in_def array_eq split: option.splits)
  then show ?thesis using cs(1) c m(1) by blast
qed

lemma rewritten_calls:
  assumes "j_field resp ''choices'' = JArr (choice # others)" and "j_field (j_field choice ''message'') ''tool_calls'' = JArr entries"
  shows "extractOpenAIToolCalls (openai_rewrite resp remaining notices) = collect read_call remaining"
proof -
  have o: "j_is_object resp" "j_is_object (j_field choice ''message'')"
    using field_object [of resp "''choices''"] field_object [of "j_field choice ''message''" "''tool_calls''"] assms by auto
  moreover from o(2) have "j_is_object choice" by (rule object_by_object)
  ultimately show ?thesis using assms
    by (auto simp: extractOpenAIToolCalls_def openai_rewrite_def Let_def field_put field_delete prop_object collect_in_def j_array_def)
qed

lemma openai_keeps_allowed:
  assumes "enforceNonStreamingOpenAI judge model resp = Some (out, row)" and "extractOpenAIToolCalls out = Some left" and "c \<in> set left"
  shows "\<exists>d. judge (oc_name c) (safeJsonParse (oc_arguments c)) = Some d \<and> te_decision d = Dec_Allow"
proof -
  obtain calls where calls: "extractOpenAIToolCalls resp = Some calls" using assms(1) by (auto simp: enforceNonStreamingOpenAI_def bind_eq_Some_conv)
  have "calls \<noteq> []" using assms calls by (auto simp: enforceNonStreamingOpenAI_def)
  from extract_object [OF calls this] obtain choice others entries where
    shape: "j_field resp ''choices'' = JArr (choice # others)" "j_field (j_field choice ''message'') ''tool_calls'' = JArr entries"
    and entries: "collect read_call entries = Some calls" by blast
  obtain ds remaining notices where
    ds: "judge_all judge (map (\<lambda>c. (oc_name c, safeJsonParse (oc_arguments c))) calls) = Some ds"
    and rem: "openai_remaining entries ds = Some (remaining, notices)"
    and out: "out = (if notices = [] then resp else openai_rewrite resp remaining notices)"
    using assms(1) calls \<open>calls \<noteq> []\<close> shape by (auto simp: enforceNonStreamingOpenAI_def bind_eq_Some_conv)
  have len: "length ds = length calls" and judged: "\<And>k. k < length calls \<Longrightarrow> judge (oc_name (calls ! k)) (safeJsonParse (oc_arguments (calls ! k))) = Some (ds ! k)"
    using judge_all_nth [OF ds] by auto
  note left = remaining_calls [OF entries len rem]
  have "extractOpenAIToolCalls out = collect read_call remaining"
    using left out rewritten_calls [OF shape] calls entries by auto
  then have "c \<in> set (map fst (filter (\<lambda>(c, d). \<not> is_denied d) (zip calls ds)))" using left assms(2,3) by simp
  then obtain k where "k < length calls" "c = calls ! k" "\<not> is_denied (ds ! k)" by (auto simp: set_zip)
  then show ?thesis using judged by (cases "te_decision (ds ! k)") (auto simp: is_denied_def)
qed

definition use_of :: "nat \<Rightarrow> jval \<Rightarrow> tool_use" where
  "use_of k block = \<lparr>au_id = string_or (j_field block ''id'') [], au_name = string_or (j_field block ''name'') [],
     au_input = j_field block ''input'', au_index = k\<rparr>"

lemma read_uses: "read_tool_uses i blocks = Some tools \<Longrightarrow>
    tools = map (\<lambda>(k, b). use_of k b) (filter (\<lambda>(k, b). is_tool_use b) (enumerate i blocks))"
  by (induction i blocks arbitrary: tools rule: read_tool_uses.induct)
    (auto simp: use_of_def is_tool_use_def split: option.splits if_splits dest!: prop_field)

lemma read_use: "read_tool_uses 0 blocks = Some tools \<Longrightarrow>
    t \<in> set tools \<longleftrightarrow> (\<exists>k < length blocks. is_tool_use (blocks ! k) \<and> t = use_of k (blocks ! k))"
  using read_uses [of 0 blocks tools] by (auto simp: in_set_enumerate_eq image_iff)

lemma text_block_no_tool [simp]: "\<not> is_tool_use (text_block t)"
  by (simp add: is_tool_use_def text_block_def j_field_def j_prop_def)

lemma replaced_length [simp]: "length (replace_denied content tds) = length content"
  by (induction content tds rule: replace_denied.induct) (simp_all add: Let_def)

lemma updated_nth: "j < length xs \<Longrightarrow> xs[i := x] ! j = (if i = j then x else xs ! j)"
  by (cases "i = j") auto

lemma replaced_hit: "(t, d) \<in> set tds \<Longrightarrow> is_denied d \<Longrightarrow> au_index t < length content \<Longrightarrow> \<not> is_tool_use (replace_denied content tds ! au_index t)"
  by (induction content tds rule: replace_denied.induct) (auto simp: Let_def updated_nth)

lemma replaced_miss: "(\<And>t d. (t, d) \<in> set tds \<Longrightarrow> is_denied d \<Longrightarrow> au_index t \<noteq> k) \<Longrightarrow> replace_denied content tds ! k = content ! k"
proof (induction content tds rule: replace_denied.induct)
  case (2 content t d rest)
  then have "is_denied d \<Longrightarrow> au_index t \<noteq> k" and "replace_denied content rest ! k = content ! k" by auto
  then show ?case by (auto simp: Let_def)
qed simp

lemma anthropic_keeps_allowed:
  assumes "enforceNonStreamingAnthropic judge resp = Some out" and "extractAnthropicToolUses out = Some left" and "t \<in> set left"
  shows "\<exists>d. judge (au_name t) (au_input t) = Some d \<and> te_decision d = Dec_Allow"
proof -
  obtain tools where tools: "extractAnthropicToolUses resp = Some tools" using assms(1) by (auto simp: enforceNonStreamingAnthropic_def bind_eq_Some_conv)
  have "tools \<noteq> []" using assms tools by (auto simp: enforceNonStreamingAnthropic_def)
  then obtain content where content: "j_field resp ''content'' = JArr content" and read: "read_tool_uses 0 content = Some tools"
    using tools by (auto simp: extractAnthropicToolUses_def dest!: prop_field split: option.splits jval.splits)
  obtain ds where ds: "judge_all judge (map (\<lambda>t. (au_name t, au_input t)) tools) = Some ds"
    and out: "out = (if list_ex is_denied ds then end_turn ''stop_reason'' (list_ex is_tool_use (replace_denied content (zip tools ds)))
        (j_put ''content'' (JArr (replace_denied content (zip tools ds))) resp) else resp)"
    using assms(1) tools \<open>tools \<noteq> []\<close> content by (auto simp: enforceNonStreamingAnthropic_def bind_eq_Some_conv Let_def)
  let ?new = "replace_denied content (zip tools ds)"
  have len: "length ds = length tools" and judged: "\<And>k. k < length tools \<Longrightarrow> judge (au_name (tools ! k)) (au_input (tools ! k)) = Some (ds ! k)"
    using judge_all_nth [OF ds] by auto
  have resp: "j_is_object resp" using field_object [of resp "''content''"] content by simp
  have same: "?new = content" if "\<not> list_ex is_denied ds"
    using that by (intro nth_equalityI replaced_miss) (auto simp: list_ex_iff dest: set_zip_rightD)
  have "j_field out ''content'' = JArr ?new"
    using out content resp same by (auto simp: end_turn_def field_put)
  then have "read_tool_uses 0 ?new = Some left"
    using assms(2) by (auto simp: extractAnthropicToolUses_def split: option.splits dest!: prop_field)
  then obtain k where k: "k < length content" "is_tool_use (?new ! k)" "t = use_of k (?new ! k)"
    using read_use assms(3) by auto
  have miss: "\<not> is_denied d" if "(u, d) \<in> set (zip tools ds)" and "au_index u = k" for u d
    using replaced_hit [OF that(1), of content] that(2) k(1,2) by auto
  then have "?new ! k = content ! k" by (intro replaced_miss) blast
  then have "t \<in> set tools" using read_use [OF read] k by auto
  then obtain j where j: "j < length tools" "t = tools ! j" by (auto simp: in_set_conv_nth)
  have "(t, ds ! j) \<in> set (zip tools ds)" using j len by (auto simp: in_set_zip intro!: exI [of _ j])
  then have "\<not> is_denied (ds ! j)" using miss k(3) by (simp add: use_of_def)
  then show ?thesis using judged j by (cases "te_decision (ds ! j)") (auto simp: is_denied_def)
qed


section \<open>Examples\<close>

definition allow_read :: judge where
  "allow_read name args = Some (bare_evaluation (if name = ''read'' then Dec_Allow else Dec_Deny) 0)"

definition call_chunk :: "string \<Rightarrow> string \<Rightarrow> string \<Rightarrow> jval" where
  "call_chunk i name args = JObj [(''choices'', JArr [JObj [(''delta'', JObj [(''tool_calls'', JArr [JObj [(''index'', JNum i),
     (''function'', JObj [(''name'', JStr name), (''arguments'', JStr args)])]])])]])]"

definition text_chunk :: "string \<Rightarrow> jval" where
  "text_chunk t = JObj [(''choices'', JArr [JObj [(''delta'', JObj [(''content'', JStr t)])]])]"

definition finish_chunk :: "string \<Rightarrow> jval" where
  "finish_chunk reason = JObj [(''choices'', JArr [JObj [(''delta'', JObj []), (''finish_reason'', JStr reason)]])]"

lemmas sample_defs = allow_read_def call_chunk_def text_chunk_def finish_chunk_def bare_evaluation_def

definition sample_openai_out :: "jval list" where
  "sample_openai_out = fst (wrapOpenAIStream allow_read
     [call_chunk ''0'' ''re'' ''{'', call_chunk ''1'' ''drop'' ''{}'', call_chunk ''0'' ''ad'' ''}'', finish_chunk ''tool_calls''] False)"

theorem openai_stream_forwards_allowed_calls_witness:
  "map (\<lambda>p. (part_index p, call_name (part_index p) (parts_of sample_openai_out), call_arguments (part_index p) (parts_of sample_openai_out)))
     (parts_of sample_openai_out) = [(0, ''read'', ''{}''), (0, ''read'', ''{}'')] \<and>
   (\<exists>d. allow_read (call_name (part_index (hd (parts_of sample_openai_out))) (parts_of sample_openai_out))
     (safeJsonParse (call_arguments (part_index (hd (parts_of sample_openai_out))) (parts_of sample_openai_out))) = Some d \<and>
     te_decision d = Dec_Allow)"
proof -
  have m: "map (\<lambda>p. (part_index p, call_name (part_index p) (parts_of sample_openai_out), call_arguments (part_index p) (parts_of sample_openai_out)))
     (parts_of sample_openai_out) = [(0, ''read'', ''{}''), (0, ''read'', ''{}'')]" by code_simp
  then have "hd (parts_of sample_openai_out) \<in> set (parts_of sample_openai_out)" by (cases "parts_of sample_openai_out") auto
  with m show ?thesis
    using openai_stream_forwards_allowed_calls [OF prod.collapse [symmetric], of _ allow_read
      "[call_chunk ''0'' ''re'' ''{'', call_chunk ''1'' ''drop'' ''{}'', call_chunk ''0'' ''ad'' ''}'', finish_chunk ''tool_calls'']" False]
    by (simp add: sample_openai_out_def [symmetric])
qed

definition block_start :: "string \<Rightarrow> string \<Rightarrow> jval \<Rightarrow> jval" where
  "block_start i name input = JObj [(''type'', JStr ''content_block_start''), (''index'', JNum i),
     (''content_block'', JObj [(''type'', JStr ''tool_use''), (''name'', JStr name), (''input'', input)])]"

definition block_delta :: "string \<Rightarrow> string \<Rightarrow> jval" where
  "block_delta i json = JObj [(''type'', JStr ''content_block_delta''), (''index'', JNum i),
     (''delta'', JObj [(''type'', JStr ''input_json_delta''), (''partial_json'', JStr json)])]"

definition sample_events :: "jval list" where
  "sample_events = [block_start ''0'' ''drop'' (JObj []), block_delta ''0'' ''{}'', block_start ''1'' ''read'' (JObj []), block_delta ''1'' ''{}'']"

definition sample_anthropic_end :: anthropic_state where
  "sample_anthropic_end = \<lparr>as_toolUses = [(1, \<lparr>tu_id = [], tu_name = ''read'', tu_partialJson = ''{}''\<rparr>)], as_stopReason = None, as_stopped = [0]\<rparr>"

theorem anthropic_stream_forwards_allowed_calls_witness:
  "ingest_events newAnthropicStreamState (fst (wrapAnthropicStream allow_read sample_events False)) = Some sample_anthropic_end \<and>
   (\<exists>d. allow_read ''read'' (safeJsonParse ''{}'') = Some d \<and> te_decision d = Dec_Allow)"
proof -
  have i: "list_all indexed sample_events" by code_simp
  have e: "ingest_events newAnthropicStreamState (fst (wrapAnthropicStream allow_read sample_events False)) = Some sample_anthropic_end" by code_simp
  show ?thesis using e anthropic_stream_forwards_allowed_calls [OF prod.collapse [symmetric] i e, of 1]
    by (simp add: sample_anthropic_end_def)
qed

definition sample_openai_body :: jval where
  "sample_openai_body = JObj [(''choices'', JArr [JObj [(''message'', JObj [(''tool_calls'', JArr [
     JObj [(''function'', JObj [(''name'', JStr ''drop''), (''arguments'', JStr ''{}'')])],
     JObj [(''function'', JObj [(''name'', JStr ''read''), (''arguments'', JStr ''{}'')])]])])]])]"

definition sample_anthropic_body :: jval where
  "sample_anthropic_body = JObj [(''content'', JArr [
     JObj [(''type'', JStr ''tool_use''), (''name'', JStr ''read''), (''input'', JObj [])],
     JObj [(''type'', JStr ''tool_use''), (''name'', JStr ''drop''), (''input'', JObj [])]])]"


section \<open>Where the code differs from its comments\<close>

text \<open>"Plain text completion - pass through immediately": the text is held back until the end, and the chunk that ends
  the completion comes first.\<close>

lemma text_stream_is_reordered:
  "wrapOpenAIStream judge [text_chunk ''a'', text_chunk ''b'', finish_chunk ''stop''] False =
     ([finish_chunk ''stop'', text_chunk ''a'', text_chunk ''b''], False)"
  by (simp add: wrapOpenAIStream_def newOpenAIStreamState_def ingestOpenAIChunk_def ingest_choice_def text_chunk_def finish_chunk_def
      delta_parts_def j_field_def j_prop_def j_nullish_def replaced_by_def ingest_usage_def)

text \<open>What comes after the end of a completion with calls is lost, such as the chunk with the usage.\<close>

lemma usage_is_lost:
  "wrapOpenAIStream allow_read [call_chunk ''0'' ''read'' ''{}'', finish_chunk ''tool_calls'', JObj [(''usage'', JObj [])]] False =
   ([call_chunk ''0'' ''read'' ''{}'', finish_chunk ''tool_calls''], False)"
  by code_simp

text \<open>"\<^verbatim>\<open>tool_calls\<close> if some calls survived": only those of the last chunk count, so a completion with a surviving
  call ends with \<^verbatim>\<open>stop\<close>.\<close>

lemma surviving_call_ends_with_stop:
  "map (\<lambda>c. j_field (hd (case j_field c ''choices'' of JArr cs \<Rightarrow> cs | _ \<Rightarrow> [])) ''finish_reason'') sample_openai_out =
     [JUndefined, JUndefined, JUndefined, JStr ''stop'', JNull, JStr ''stop'']"
  by code_simp

text \<open>Only the first choice is looked at.\<close>

lemma second_choice_is_not_evaluated:
  "wrapOpenAIStream (\<lambda>_ _. None) [JObj [(''choices'', JArr [JObj [(''delta'', JObj [])], JObj [(''delta'', JObj [(''tool_calls'', JArr [j])])]])]] False =
   ([JObj [(''choices'', JArr [JObj [(''delta'', JObj [])], JObj [(''delta'', JObj [(''tool_calls'', JArr [j])])]])]], False)"
  by (simp add: wrapOpenAIStream_def newOpenAIStreamState_def ingestOpenAIChunk_def ingest_choice_def
      delta_parts_def j_field_def j_prop_def j_nullish_def replaced_by_def ingest_usage_def)

text \<open>An entry that is no function (a custom tool) has no decision, and the whole completion is lost.\<close>

lemma custom_tool_throws:
  "enforceNonStreamingOpenAI allow_read None (JObj [(''choices'', JArr [JObj [(''message'', JObj [(''tool_calls'', JArr [
     JObj [(''type'', JStr ''custom'')],
     JObj [(''function'', JObj [(''name'', JStr ''read''), (''arguments'', JStr ''{}'')])]])])]])]) = None"
  by code_simp

text \<open>The input that comes with a block's start is not looked at: the call is evaluated with empty arguments and forwarded.\<close>

lemma start_input_is_not_evaluated:
  "wrapAnthropicStream (\<lambda>name args. if args = JObj [] then Some (bare_evaluation Dec_Allow 0) else None)
     [block_start ''0'' ''drop'' (JObj [(''path'', JStr ''/'')])] False = ([block_start ''0'' ''drop'' (JObj [(''path'', JStr ''/'')])], False)"
  by code_simp

text \<open>A block without a number is accumulated as number 0 but passed on at once.\<close>

lemma unnumbered_block_passes:
  "wrapAnthropicStream (\<lambda>_ _. None) [JObj [(''type'', JStr ''content_block_start''),
      (''content_block'', JObj [(''type'', JStr ''tool_use''), (''name'', JStr name)])]] False =
   ([JObj [(''type'', JStr ''content_block_start''), (''content_block'', JObj [(''type'', JStr ''tool_use''), (''name'', JStr name)])]], False)"
  by (simp add: wrapAnthropicStream_def newAnthropicStreamState_def ingestAnthropicEvent_def hold_event_def event_index_def
      ends_message_def j_field_def j_prop_def j_number_def)

end
