(* ===== verification/Client_Install.thy ===== *)
theory Client_Install
  imports Client_Patches
begin

text \<open>
  Where the patches of the provider clients are put (\<^verbatim>\<open>instrumentation/openai-patch.ts\<close>, \<^verbatim>\<open>anthropic-patch.ts\<close>): the search for
  the prototype that owns \<^verbatim>\<open>create\<close>, the installation with its check that a new client reaches the patch, and
  its removal. The two files differ in the names of the exports only. A prototype is a number, a prototype chain the
  list of its objects with what each one's own \<^verbatim>\<open>create\<close> is.
\<close>

datatype own_create = No_Create | Create_Function | Create_Other

type_synonym proto_chain = "(nat \<times> own_create) list"

text \<open>
  The package: whether it exports the constructor, the chain of the resource of a new client (\<^const>\<open>None\<close> where
  constructing one throws or it has no such object), and the chains of the exported resource classes.
\<close>

record sdk_package =
  sp_ctor :: bool
  sp_probe :: "proto_chain option"
  sp_static :: "proto_chain list"

definition findOwnCreateOwner :: "proto_chain \<Rightarrow> nat option" where
  "findOwnCreateOwner chain = map_option fst (List.find (\<lambda>(p, c). c = Create_Function) (take 16 chain))"

definition locate_prototype :: "sdk_package \<Rightarrow> (nat \<times> bool) option" where
  "locate_prototype pkg = (case (if sp_ctor pkg then Option.bind (sp_probe pkg) findOwnCreateOwner else None) of
     Some owner \<Rightarrow> Some (owner, True)
   | None \<Rightarrow> (case List.map_filter findOwnCreateOwner (sp_static pkg) of
       owner # others \<Rightarrow> Some (owner, sp_ctor pkg) | [] \<Rightarrow> None))"

text \<open>The object whose \<^verbatim>\<open>create\<close> a new client calls.\<close>

definition resolved_owner :: "sdk_package \<Rightarrow> nat option" where
  "resolved_owner pkg = (if sp_ctor pkg then Option.bind (sp_probe pkg) (\<lambda>chain.
     map_option fst (List.find (\<lambda>(p, c). c \<noteq> No_Create) chain)) else None)"

definition verifyPatchReachable :: "sdk_package \<Rightarrow> nat \<Rightarrow> bool" where
  "verifyPatchReachable pkg owner \<longleftrightarrow> resolved_owner pkg = Some owner"

text \<open>The patched prototypes with the evaluator of each; a second installation only replaces the evaluator.\<close>

definition install_patch :: "sdk_package option \<Rightarrow> 'e \<Rightarrow> (nat, 'e) jsmap \<Rightarrow> bool \<times> (nat, 'e) jsmap" where
  "install_patch pkg getEvaluator patched = (case pkg of None \<Rightarrow> (False, patched)
   | Some p \<Rightarrow> (case locate_prototype p of None \<Rightarrow> (False, patched)
     | Some (owner, ctor) \<Rightarrow>
         if jm_has patched owner then (True, jm_set owner getEvaluator patched)
         else if ctor \<and> \<not> verifyPatchReachable p owner then (False, patched)
         else (True, jm_set owner getEvaluator patched)))"

definition uninstall_patch :: "sdk_package option \<Rightarrow> (nat, 'e) jsmap \<Rightarrow> (nat, 'e) jsmap" where
  "uninstall_patch pkg patched = (case Option.bind pkg locate_prototype of
     None \<Rightarrow> patched | Some (owner, ctor) \<Rightarrow> jm_del owner patched)"

definition installAnthropicPatch :: "sdk_package option \<Rightarrow> 'e \<Rightarrow> (nat, 'e) jsmap \<Rightarrow> bool \<times> (nat, 'e) jsmap" where
  "installAnthropicPatch = install_patch"

definition uninstallAnthropicPatch :: "sdk_package option \<Rightarrow> (nat, 'e) jsmap \<Rightarrow> (nat, 'e) jsmap" where
  "uninstallAnthropicPatch = uninstall_patch"

text \<open>What the patched \<^verbatim>\<open>create\<close> does with a request: before the evaluator is there, nothing.\<close>

datatype create_plan = Pass_Through | Enforce_Whole "string option" | Enforce_Stream

definition patched_create :: "bool \<Rightarrow> jval \<Rightarrow> create_plan" where
  "patched_create evaluator request = (let req = j_default request (JObj []) in
     if \<not> evaluator then Pass_Through
     else if j_truthy (j_field req ''stream'') then Enforce_Stream
     else Enforce_Whole (j_string (j_field req ''model'')))"

section \<open>An installed patch is reached\<close>

lemma failed_install: "install_patch pkg e patched = (False, patched') \<Longrightarrow> patched' = patched"
  by (auto simp: install_patch_def split: option.splits if_splits)

lemma installed_patch_is_reached:
  assumes "install_patch (Some pkg) e [] = (True, patched)" and "sp_ctor pkg"
  obtains owner where "resolved_owner pkg = Some owner" and "jm_get patched owner = Some e"
proof -
  obtain owner ctor where l: "locate_prototype pkg = Some (owner, ctor)" and ctor: "ctor \<longrightarrow> verifyPatchReachable pkg owner"
    and p: "patched = [(owner, e)]"
    using assms(1) by (auto simp: install_patch_def split: option.splits if_splits)
  have ctor using l assms(2) by (auto simp: locate_prototype_def split: option.splits list.splits if_splits)
  then show thesis using that ctor p by (auto simp: verifyPatchReachable_def)
qed

lemma del_set: "k \<notin> fst ` set m \<Longrightarrow> jm_del k (jm_set k v m) = m"
  by (induction m) (auto simp: jm_del_id)

lemma install_then_remove:
  assumes "locate_prototype pkg = Some (owner, ctor)" and "\<not> jm_has patched owner"
  shows "uninstall_patch (Some pkg) (snd (install_patch (Some pkg) e patched)) = patched"
  using assms by (auto simp: install_patch_def uninstall_patch_def del_set map_of_eq_None_iff split: option.splits)

text \<open>"Fall back to the static export candidates only when the constructor refuses to build": the check builds a client
  too, so what the fallback finds is always taken back.\<close>

lemma static_fallback_is_dead:
  assumes "sp_ctor pkg" and "sp_probe pkg = None"
  shows "install_patch (Some pkg) e [] = (False, [])"
  using assms by (auto simp: install_patch_def locate_prototype_def verifyPatchReachable_def resolved_owner_def
      split: option.splits list.splits)

end
