(* ===== verification/Agent_Frameworks.thy ===== *)
theory Agent_Frameworks
  imports Tool_Accumulators Tool_Client Json_Parse
begin

text \<open>
  The adapters of the agent frameworks: \<^verbatim>\<open>frameworks/langchain.ts\<close>, \<^verbatim>\<open>openai.ts\<close>, \<^verbatim>\<open>vercel-ai.ts\<close>, what they share
  (\<^verbatim>\<open>_pdp-observability.ts\<close>), and the client's methods behind them (\<^verbatim>\<open>client.ts\<close>). Each wraps a function of the
  application: it asks the evaluator, or the policy check of a client without an API key, and runs the function or
  refuses. What the evaluator, the check and the wrapped function settle to are inputs; a result is the outcome and
  the audit rows that were sent.
\<close>

section \<open>The client\<close>

datatype thrown = Error_Thrown string | Other_Thrown string

type_synonym 'a settled = "thrown + 'a"

definition thrown_text :: "thrown \<Rightarrow> string" where
  "thrown_text t = (case t of Error_Thrown m \<Rightarrow> m | Other_Thrown m \<Rightarrow> m)"

definition is_error :: "thrown \<Rightarrow> bool" where
  "is_error t = (case t of Error_Thrown _ \<Rightarrow> True | Other_Thrown _ \<Rightarrow> False)"

record guard_client =
  kc_apiKey :: "string option"
  kc_baseUrl :: string
  kc_evaluators :: "(string, tool_client) jsmap"

definition has_key :: "guard_client \<Rightarrow> bool" where
  "has_key c \<longleftrightarrow> (case kc_apiKey c of Some k \<Rightarrow> k \<noteq> [] | None \<Rightarrow> False)"

text \<open>An agent's evaluator, made at its first use.\<close>

definition client_evaluator :: "string \<Rightarrow> guard_client \<Rightarrow> string + tool_client \<times> guard_client" where
  "client_evaluator agentId c = (case jm_get (kc_evaluators c) agentId of
     Some ev \<Rightarrow> Inr (ev, c)
   | None \<Rightarrow> (case tc_new \<lparr>to_baseUrl = kc_baseUrl c, to_apiKey = (case kc_apiKey c of Some k \<Rightarrow> k | None \<Rightarrow> []), to_agentId = agentId,
         to_timeoutMs = None, to_cacheMaxSize = None, to_allowMode = False, to_pdpUrl = None, to_pdpDiscoveryTtlMs = None\<rparr> of
       Inl e \<Rightarrow> Inl e
     | Inr ev \<Rightarrow> Inr (ev, c\<lparr>kc_evaluators := jm_set agentId ev (kc_evaluators c)\<rparr>)))"

definition missing_key_message :: string where
  "missing_key_message = ''AgentumClient.evaluateToolCall: apiKey is required (CedarToolCallClient auth) ? '' @
     ''construct the client with an `apiKey` or fall back to `isAllowed` for backwards compat''"

text \<open>\<open>answer\<close>: what that evaluator settles to.\<close>

definition client_evaluateToolCall :: "string \<Rightarrow> evaluation settled \<Rightarrow> guard_client \<Rightarrow> evaluation settled \<times> guard_client" where
  "client_evaluateToolCall agentId answer c =
     (if \<not> has_key c then (Inl (Error_Thrown missing_key_message), c)
      else (case client_evaluator agentId c of Inl e \<Rightarrow> (Inl (Error_Thrown e), c) | Inr (ev, c') \<Rightarrow> (answer, c')))"

definition client_recordApprovalGrant :: "runtime_crypto \<Rightarrow> string \<Rightarrow> string \<Rightarrow> int \<Rightarrow> string option \<Rightarrow> jval \<Rightarrow> int \<Rightarrow> guard_client \<Rightarrow>
    string + guard_client" where
  "client_recordApprovalGrant rc agentId toolName ttlMs requestId toolArgs now c =
     (if \<not> has_key c then Inr c
      else (case client_evaluator agentId c of
          Inl e \<Rightarrow> Inl e
        | Inr (ev, c') \<Rightarrow> Inr (c'\<lparr>kc_evaluators :=
            jm_set agentId (recordApprovalGrant rc ev agentId toolName ttlMs requestId toolArgs now) (kc_evaluators c')\<rparr>)))"

definition client_isHitlAddonEnabled :: "string \<Rightarrow> guard_client \<Rightarrow> bool" where
  "client_isHitlAddonEnabled agentId c = (case jm_get (kc_evaluators c) agentId of
     None \<Rightarrow> False | Some ev \<Rightarrow> featureState ev ''addon.policy.hitl'' = Feature_Enabled)"

section \<open>Rows\<close>

record frow =
  fr_agent :: string
  fr_session :: string
  fr_type :: string
  fr_outcome :: string
  fr_tool :: "string option"
  fr_resource :: "string option"
  fr_policy_hash :: "string option"
  fr_decision_source :: "string option"
  fr_detail :: "(string \<times> jval) list option"

definition entry_if :: "string \<Rightarrow> jval option \<Rightarrow> (string \<times> jval) list" where
  "entry_if k v = (case v of Some w \<Rightarrow> [(k, w)] | None \<Rightarrow> [])"

definition mapDecisionSourceToAudit :: "eval_plane option \<Rightarrow> string option" where
  "mapDecisionSourceToAudit src = (case src of Some Plane_Pdp \<Rightarrow> Some ''inproc'' | Some Plane_Central \<Rightarrow> Some ''inproc'' | None \<Rightarrow> None)"

definition pdpObservabilityDetail :: "evaluation \<Rightarrow> (string \<times> jval) list" where
  "pdpObservabilityDetail e = entry_if ''evaluated_locally'' (map_option JBool (te_evaluatedLocally e)) @
     entry_if ''pdp_latency_us'' (map_option JNum (te_pdpLatencyUs e)) @ entry_if ''rule_id'' (te_ruleId e) @ entry_if ''reason'' (te_reason e)"

text \<open>The policy hash and the source; an evaluation never has the source \<^verbatim>\<open>cache\<close>.\<close>

definition pdpTopLevelFields :: "evaluation \<Rightarrow> string option \<times> string option" where
  "pdpTopLevelFields e = (te_policyHash e, mapDecisionSourceToAudit (te_decisionSource e))"

text \<open>\<^verbatim>\<open>{ ...a, ...b }\<close>\<close>

definition overlay :: "(string \<times> jval) list \<Rightarrow> (string \<times> jval) list \<Rightarrow> (string \<times> jval) list" where
  "overlay a b = foldl (\<lambda>m (k, v). jm_set k v m) a b"

definition observed_row :: "string \<Rightarrow> string \<Rightarrow> string \<Rightarrow> string \<Rightarrow> string option \<Rightarrow> string option \<Rightarrow> evaluation option \<Rightarrow> (string \<times> jval) list \<Rightarrow> frow" where
  "observed_row agent session event outcome tool resource e detail =
     \<lparr>fr_agent = agent, fr_session = session, fr_type = event, fr_outcome = outcome, fr_tool = tool, fr_resource = resource,
      fr_policy_hash = Option.bind e (\<lambda>e. fst (pdpTopLevelFields e)), fr_decision_source = Option.bind e (\<lambda>e. snd (pdpTopLevelFields e)),
      fr_detail = Some (overlay detail (case e of Some e \<Rightarrow> pdpObservabilityDetail e | None \<Rightarrow> []))\<rparr>"

definition texts :: "(string \<times> string) list \<Rightarrow> (string \<times> jval) list" where
  "texts kvs = map (\<lambda>(k, v). (k, JStr v)) kvs"

definition or_star :: "string option \<Rightarrow> string" where
  "or_star r = (case r of Some t \<Rightarrow> t | None \<Rightarrow> ''*'')"

definition or_empty :: "string option \<Rightarrow> string" where
  "or_empty r = (case r of Some t \<Rightarrow> t | None \<Rightarrow> [])"

section \<open>Outcomes\<close>

datatype 'r guarded = Ran 'r | Throws_Denied string | Returns_Denied string | Check_Failed thrown

definition missing_key :: "thrown \<Rightarrow> bool" where
  "missing_key t \<longleftrightarrow> js_includes (thrown_text t) ''apiKey is required''"

text \<open>LangChain: any thrown value is read as text.\<close>

datatype verdict = Judged "evaluation option" bool | Refresh_Failed | Check_Throws thrown

definition lc_verdict :: "evaluation settled \<Rightarrow> bool settled \<Rightarrow> verdict" where
  "lc_verdict ev allowed = (case ev of
     Inr e \<Rightarrow> Judged (Some e) (te_decision e = Dec_Allow)
   | Inl t \<Rightarrow> if missing_key t then (case allowed of Inr b \<Rightarrow> Judged None b | Inl t' \<Rightarrow> Check_Throws t') else Refresh_Failed)"

text \<open>OpenAI and Vercel: only an \<^verbatim>\<open>Error\<close> counts, and everything becomes an evaluation.\<close>

definition oa_evaluation :: "evaluation settled \<Rightarrow> bool settled \<Rightarrow> evaluation settled" where
  "oa_evaluation ev allowed = (case ev of
     Inr e \<Rightarrow> Inr e
   | Inl t \<Rightarrow> if is_error t \<and> missing_key t
       then (case allowed of Inr b \<Rightarrow> Inr (bare_evaluation (if b then Dec_Allow else Dec_Deny) 0) | Inl t' \<Rightarrow> Inl t')
       else Inr ((bare_evaluation Dec_Deny 0)\<lparr>te_reason := Some (JStr ''refresh_failed'')\<rparr>))"

section \<open>LangChain\<close>

text \<open>The tool that lets a model ask whether an action is allowed.\<close>

record policy_tool =
  pl_agentId :: string
  pl_sessionId :: string
  pl_softDeny :: bool

definition policy_tool_new :: "string \<Rightarrow> string option \<Rightarrow> bool option \<Rightarrow> policy_tool" where
  "policy_tool_new agentId sessionId softDeny = \<lparr>pl_agentId = agentId,
     pl_sessionId = (case sessionId of Some s \<Rightarrow> s | None \<Rightarrow> agentId), pl_softDeny = (softDeny = Some True)\<rparr>"

datatype tool_input = Json_Text string | Action_Resource string string

definition tool_request :: "tool_input \<Rightarrow> (string \<times> string) option" where
  "tool_request input = (case input of
     Action_Resource a r \<Rightarrow> Some (a, r)
   | Json_Text t \<Rightarrow> Option.bind (json_parse t) (\<lambda>v. if j_nullish v then None
       else Some (string_or (j_field v ''action'') [], string_or (j_field v ''resource'') ''*'')))"

definition emitDeny :: "policy_tool \<Rightarrow> string \<Rightarrow> (string \<times> jval) list \<Rightarrow> evaluation option \<Rightarrow> frow" where
  "emitDeny t action detail e = \<lparr>fr_agent = pl_agentId t, fr_session = pl_sessionId t, fr_type = ''policy_deny'', fr_outcome = ''deny'',
     fr_tool = None, fr_resource = None,
     fr_policy_hash = Option.bind e (\<lambda>e. fst (pdpTopLevelFields e)), fr_decision_source = Option.bind e (\<lambda>e. snd (pdpTopLevelFields e)),
     fr_detail = Some (overlay (if action = [] then [] else [(''action'', JStr action)]) detail)\<rparr>"

definition deny_text :: "policy_tool \<Rightarrow> string \<Rightarrow> string \<Rightarrow> 'r guarded" where
  "deny_text t action resource =
     (let msg = ''Agentum policy denied: action='' @ action @ '' resource='' @ resource in
      if pl_softDeny t then Returns_Denied (''DENIED: '' @ msg) else Throws_Denied (''PermissionError: '' @ msg))"

definition policy_tool_invoke :: "policy_tool \<Rightarrow> tool_input \<Rightarrow> evaluation settled \<Rightarrow> bool settled \<Rightarrow> string guarded \<times> frow list" where
  "policy_tool_invoke t input ev allowed = (case tool_request input of
     None \<Rightarrow>
       let s = (case input of Json_Text s \<Rightarrow> s | _ \<Rightarrow> []); snippet = (if length s > 120 then take 120 s @ ''?'' else s) in
       (if pl_softDeny t then Returns_Denied ''DENIED: invalid input'' else Throws_Denied ''AgentumPolicyTool: invalid JSON input'',
        [emitDeny t [] (texts [(''reason'', ''invalid_input''), (''input_snippet'', snippet)]) None])
   | Some (action, resource) \<Rightarrow> (case lc_verdict ev allowed of
       Check_Throws e \<Rightarrow> (Check_Failed e, [])
     | Refresh_Failed \<Rightarrow> (deny_text t action resource, [emitDeny t action (texts [(''reason'', ''refresh_failed''), (''resource'', resource)]) None])
     | Judged e ok \<Rightarrow>
         if ok then (Ran ''ALLOWED'', [])
         else (deny_text t action resource, [emitDeny t action
           (overlay (texts [(''reason'', ''policy_deny''), (''resource'', resource)]) (case e of Some e \<Rightarrow> pdpObservabilityDetail e | None \<Rightarrow> [])) e])))"

text \<open>Any function, guarded. A denial of the boolean check leaves no row.\<close>

definition withAgentumGuard :: "string \<Rightarrow> string \<Rightarrow> string option \<Rightarrow> string option \<Rightarrow> evaluation settled \<Rightarrow> bool settled \<Rightarrow> 'r \<Rightarrow>
    'r guarded \<times> frow list" where
  "withAgentumGuard agentId action resource sessionId ev allowed fn_result =
     (let r = or_star resource;
          refused = Throws_Denied (''PermissionError: Agentum policy denied: agent='' @ agentId @ '' action='' @ action @ '' resource='' @ r);
          detail = texts [(''action'', action), (''resource'', r), (''framework'', ''langchain.withAgentumGuard'')];
          row = observed_row agentId (or_empty sessionId) ''policy_deny'' ''deny'' None None in
      (case lc_verdict ev allowed of
         Check_Throws e \<Rightarrow> (Check_Failed e, [])
       | Refresh_Failed \<Rightarrow> (refused, [row None (detail @ texts [(''reason'', ''refresh_failed'')])])
       | Judged e ok \<Rightarrow> if ok then (Ran fn_result, []) else (refused, (case e of Some e \<Rightarrow> [row (Some e) detail] | None \<Rightarrow> []))))"

text \<open>Every tool of an agent. \<open>result\<close> is what the tool's own method settles to.\<close>

datatype on_deny = Deny_Throw | Deny_String | Deny_Silent

definition on_deny_text :: "on_deny \<Rightarrow> string" where
  "on_deny_text d = (case d of Deny_Throw \<Rightarrow> ''throw'' | Deny_String \<Rightarrow> ''return_error_string'' | Deny_Silent \<Rightarrow> ''silent_skip'')"

definition refuse_tool :: "on_deny \<Rightarrow> string \<Rightarrow> 'r guarded" where
  "refuse_tool onDeny msg = (case onDeny of Deny_Throw \<Rightarrow> Throws_Denied msg | Deny_String \<Rightarrow> Returns_Denied (''DENIED: '' @ msg)
     | Deny_Silent \<Rightarrow> Returns_Denied [])"

definition preview :: "jval \<Rightarrow> string" where
  "preview v = (case v of JStr s \<Rightarrow> take 200 s | _ \<Rightarrow> j_typeof v)"

definition runGuarded :: "string \<Rightarrow> string \<Rightarrow> string \<Rightarrow> string \<Rightarrow> string \<Rightarrow> on_deny \<Rightarrow> evaluation settled \<Rightarrow> bool settled \<Rightarrow> jval settled \<Rightarrow>
    jval settled guarded \<times> frow list" where
  "runGuarded agentId sessionId tool action resource onDeny ev allowed result =
     (let row = observed_row agentId sessionId;
          msg = ''PermissionError: Agentum policy denied: tool='' @ tool @ '' action='' @ action @ '' resource='' @ resource;
          base = texts [(''tool'', tool), (''action'', action), (''resource'', resource), (''framework'', ''langchain'')];
          refused = base @ texts [(''on_deny'', on_deny_text onDeny)] in
      (case lc_verdict ev (case allowed of Inl t \<Rightarrow> Inr False | _ \<Rightarrow> allowed) of
         Check_Throws e \<Rightarrow> (Check_Failed e, [])
       | Refresh_Failed \<Rightarrow> (refuse_tool onDeny msg, [row ''mcp_tool_deny'' ''deny'' None None None (refused @ texts [(''reason'', ''refresh_failed'')])])
       | Judged e ok \<Rightarrow>
           if \<not> ok then (refuse_tool onDeny msg, [row ''mcp_tool_deny'' ''deny'' None None e refused])
           else (Ran result, (case result of Inl t \<Rightarrow> []
             | Inr v \<Rightarrow> [row ''mcp_tool_call'' ''ok'' None None e (base @ texts [(''result_preview'', preview v)])]))))"

text \<open>Wrapping: a tool already wrapped is handed back, else each of its methods goes through the guard.\<close>

record lc_tool =
  lt_name :: string
  lt_methods :: "string list"
  lt_enforced :: "string option"

definition enforceAllTools :: "(lc_tool \<Rightarrow> string) option \<Rightarrow> lc_tool list \<Rightarrow> lc_tool list" where
  "enforceAllTools resourceFn tools = map (\<lambda>t. if lt_enforced t \<noteq> None then t
     else t\<lparr>lt_enforced := Some (case resourceFn of Some f \<Rightarrow> f t | None \<Rightarrow> lt_name t)\<rparr>) tools"

section \<open>OpenAI and Vercel\<close>

definition run_unless_denied :: "evaluation settled \<Rightarrow> (evaluation \<Rightarrow> frow) \<Rightarrow> string \<Rightarrow> 'r \<Rightarrow> 'r guarded \<times> frow list" where
  "run_unless_denied ev row msg result = (case ev of
     Inl t \<Rightarrow> (Check_Failed t, [])
   | Inr e \<Rightarrow> if te_decision e = Dec_Deny then (Throws_Denied msg, [row e]) else (Ran result, []))"

definition policyFunctionTool :: "string \<Rightarrow> string option \<Rightarrow> string \<Rightarrow> string \<Rightarrow> string option \<Rightarrow> evaluation settled \<Rightarrow> bool settled \<Rightarrow> 'r \<Rightarrow>
    'r guarded \<times> frow list" where
  "policyFunctionTool agentId sessionId name action resource ev allowed result =
     run_unless_denied (oa_evaluation ev allowed)
       (\<lambda>e. observed_row agentId (or_empty sessionId) ''policy_deny'' ''deny'' None None (Some e)
          (texts [(''tool'', name), (''action'', action), (''resource'', or_star resource), (''framework'', ''openai.policyFunctionTool'')]))
       (''PermissionError: Agentum denied tool='' @ name @ '' action='' @ action @ '' resource='' @ or_star resource) result"

definition agentumTool :: "string \<Rightarrow> string option \<Rightarrow> string \<Rightarrow> string option \<Rightarrow> evaluation settled \<Rightarrow> bool settled \<Rightarrow> 'r \<Rightarrow> 'r guarded \<times> frow list" where
  "agentumTool agentId sessionId action resource ev allowed result =
     run_unless_denied (oa_evaluation ev allowed)
       (\<lambda>e. observed_row agentId (or_empty sessionId) ''mcp_tool_deny'' ''deny'' (Some action) (Some (or_star resource)) (Some e)
          (texts [(''reason'', ''cedar_policy_denied''), (''action'', action), (''resource'', or_star resource), (''framework'', ''vercel-ai.agentumTool'')]))
       (''PermissionError: Agentum policy denied: agent='' @ agentId @ '' action='' @ action @ '' resource='' @ or_star resource) result"

text \<open>The gate before a completion: without an action there is none.\<close>

definition openai_gate :: "string \<Rightarrow> string \<Rightarrow> string option \<Rightarrow> string option \<Rightarrow> evaluation settled \<Rightarrow> bool settled \<Rightarrow> unit guarded \<times> frow list" where
  "openai_gate agentId sessionId policyAction policyResource ev allowed = (case policyAction of
     None \<Rightarrow> (Ran (), [])
   | Some action \<Rightarrow> if action = [] then (Ran (), []) else
       run_unless_denied (oa_evaluation ev allowed)
         (\<lambda>e. observed_row agentId sessionId ''policy_deny'' ''deny'' None None (Some e)
            (texts [(''action'', action), (''resource'', or_star policyResource), (''reason'', ''cedar_policy_denied''), (''framework'', ''openai'')]))
         (''PermissionError: Agentum denied LLM call: action='' @ action @ '' resource='' @ or_star policyResource) ())"

definition plain_row :: "string \<Rightarrow> string \<Rightarrow> string \<Rightarrow> string \<Rightarrow> (string \<times> jval) list option \<Rightarrow> frow" where
  "plain_row agentId sessionId event outcome detail = \<lparr>fr_agent = agentId, fr_session = sessionId, fr_type = event, fr_outcome = outcome,
     fr_tool = None, fr_resource = None, fr_policy_hash = None, fr_decision_source = None, fr_detail = detail\<rparr>"

definition beforeGenerate :: "string \<Rightarrow> string \<Rightarrow> string option \<Rightarrow> string option \<Rightarrow> evaluation settled \<Rightarrow> bool settled \<Rightarrow> unit guarded \<times> frow list" where
  "beforeGenerate agentId sessionId policyAction policyResource ev allowed =
     (let start = plain_row agentId sessionId ''llm_call'' ''ok'' (Some (texts [(''phase'', ''start'')]));
          (r, rows) = (case policyAction of
             None \<Rightarrow> (Ran (), [])
           | Some action \<Rightarrow> if action = [] then (Ran (), []) else
               run_unless_denied (oa_evaluation ev allowed)
                 (\<lambda>e. observed_row agentId sessionId ''mcp_tool_deny'' ''deny'' (Some action) (Some (or_star policyResource)) (Some e)
                    (texts [(''reason'', ''cedar_policy_denied''), (''action'', action), (''resource'', or_star policyResource), (''framework'', ''vercel-ai'')]))
                 (''PermissionError: Agentum policy denied LLM call: action='' @ action @ '' resource='' @ or_star policyResource) ())
      in (r, start # rows))"

definition auditToolCall :: "string \<Rightarrow> string \<Rightarrow> string \<Rightarrow> string \<Rightarrow> string option \<Rightarrow> evaluation settled \<Rightarrow> bool settled \<Rightarrow> unit guarded \<times> frow list" where
  "auditToolCall agentId sessionId tool resource action ev allowed =
     (let called = (\<lambda>e. (plain_row agentId sessionId ''tool_call'' ''ok'' None)\<lparr>fr_tool := Some tool, fr_resource := Some resource,
            fr_policy_hash := Option.bind e (\<lambda>e. fst (pdpTopLevelFields e)), fr_decision_source := Option.bind e (\<lambda>e. snd (pdpTopLevelFields e)),
            fr_detail := map_option (\<lambda>e. overlay (texts [(''framework'', ''vercel-ai'')]) (pdpObservabilityDetail e)) e\<rparr>) in
      if or_empty action = [] then (Ran (), [called None])
      else (case run_unless_denied (oa_evaluation ev allowed)
          (\<lambda>e. observed_row agentId sessionId ''mcp_tool_deny'' ''deny'' (Some tool) (Some resource) (Some e)
             (texts [(''reason'', ''cedar_policy_denied''), (''action'', or_empty action), (''resource'', resource), (''framework'', ''vercel-ai'')]))
          (''PermissionError: Agentum denied tool='' @ tool @ '' action='' @ or_empty action @ '' resource='' @ resource) () of
        (Ran u, rows) \<Rightarrow> (Ran u, rows @ [called (case oa_evaluation ev allowed of Inr e \<Rightarrow> Some e | Inl t \<Rightarrow> None)])
      | other \<Rightarrow> other))"

text \<open>What the evaluator is asked: the action or the tool's name, and the arguments.\<close>

definition resource_question :: "string \<Rightarrow> string \<Rightarrow> string \<times> jval" where
  "resource_question action resource = (action, JObj [(''resource'', JStr resource)])"

definition enforced_question :: "lc_tool \<Rightarrow> (string \<times> jval) option" where
  "enforced_question t = map_option (resource_question (lt_name t)) (lt_enforced t)"

section \<open>A wrapped function runs where it is permitted\<close>

definition was_run :: "'r guarded \<times> frow list \<Rightarrow> bool" where
  "was_run x \<longleftrightarrow> (case fst x of Ran r \<Rightarrow> True | _ \<Rightarrow> False)"

definition permitted :: "guard_client \<Rightarrow> evaluation settled \<Rightarrow> bool settled \<Rightarrow> bool" where
  "permitted c answer allowed \<longleftrightarrow> (if has_key c then (\<exists>e. answer = Inr e \<and> te_decision e = Dec_Allow) else allowed = Inr True)"

text \<open>The evaluator's own failures do not read like a missing key.\<close>

definition own_failure :: "evaluation settled \<Rightarrow> bool" where
  "own_failure answer \<longleftrightarrow> (case answer of Inl t \<Rightarrow> \<not> missing_key t | Inr e \<Rightarrow> True)"

lemma missing_key_asks: "missing_key (Error_Thrown missing_key_message)"
  by code_simp

lemma tc_new_errors: "tc_new opts = Inl e \<Longrightarrow> \<not> missing_key (Error_Thrown e)"
proof -
  assume "tc_new opts = Inl e"
  then have "e \<in> {''CedarToolCallClient: baseUrl required'', ''CedarToolCallClient: apiKey required'', ''CedarToolCallClient: agentId required''}"
    by (auto simp: tc_new_def split: if_splits)
  moreover have "list_all (\<lambda>m. \<not> missing_key (Error_Thrown m))
      [''CedarToolCallClient: baseUrl required'', ''CedarToolCallClient: apiKey required'', ''CedarToolCallClient: agentId required'']"
    by code_simp
  ultimately show ?thesis by auto
qed

lemma evaluator_errors: "client_evaluator agentId c = Inl e \<Longrightarrow> \<not> missing_key (Error_Thrown e)"
  by (auto simp: client_evaluator_def dest: tc_new_errors split: option.splits sum.splits)

text \<open>An evaluator can be made for the agent.\<close>

definition evaluable :: "string \<Rightarrow> guard_client \<Rightarrow> bool" where
  "evaluable agentId c \<longleftrightarrow> agentId \<noteq> [] \<and> kc_baseUrl c \<noteq> []"

lemma evaluator_made: "evaluable agentId c \<Longrightarrow> has_key c \<Longrightarrow> \<exists>p. client_evaluator agentId c = Inr p"
  by (auto simp: evaluable_def has_key_def client_evaluator_def tc_new_def split: option.splits)

lemma lc_permits:
  assumes "own_failure answer" and "evaluable agentId c"
  shows "(\<exists>e. lc_verdict (fst (client_evaluateToolCall agentId answer c)) allowed = Judged e True) \<longleftrightarrow> permitted c answer allowed"
  using assms evaluator_made [OF assms(2)] missing_key_asks
  by (auto simp: lc_verdict_def client_evaluateToolCall_def permitted_def own_failure_def split: sum.splits if_splits)

lemma lc_permits_caught: "(\<exists>e. lc_verdict ev (case allowed of Inl t \<Rightarrow> Inr False | Inr b \<Rightarrow> allowed) = Judged e True) \<longleftrightarrow> (\<exists>e. lc_verdict ev allowed = Judged e True)"
  by (auto simp: lc_verdict_def split: sum.splits if_splits)

lemma not_deny: "d \<noteq> Dec_Deny \<longleftrightarrow> d = Dec_Allow"
  by (cases d) auto

lemma oa_permits:
  assumes "own_failure answer" and "evaluable agentId c"
  shows "(\<exists>e. oa_evaluation (fst (client_evaluateToolCall agentId answer c)) allowed = Inr e \<and> te_decision e \<noteq> Dec_Deny) \<longleftrightarrow> permitted c answer allowed"
  using assms evaluator_made [OF assms(2)] missing_key_asks
  by (cases answer; cases "has_key c")
    (auto simp: oa_evaluation_def client_evaluateToolCall_def permitted_def own_failure_def is_error_def bare_evaluation_def not_deny
      split: sum.splits if_splits thrown.splits)

lemma ran_unless_denied: "was_run (run_unless_denied ev row msg r) \<longleftrightarrow> (\<exists>e. ev = Inr e \<and> te_decision e \<noteq> Dec_Deny)"
  by (auto simp: was_run_def run_unless_denied_def split: sum.splits)

lemma ran_guard: "was_run (withAgentumGuard agentId action resource sessionId ev allowed r) \<longleftrightarrow> (\<exists>e. lc_verdict ev allowed = Judged e True)"
  by (auto simp: was_run_def withAgentumGuard_def Let_def split: verdict.splits)

lemma ran_tool: "was_run (runGuarded agentId sessionId tool action resource onDeny ev allowed r) \<longleftrightarrow>
    (\<exists>e. lc_verdict ev (case allowed of Inl t \<Rightarrow> Inr False | Inr b \<Rightarrow> allowed) = Judged e True)"
  by (auto simp: was_run_def runGuarded_def Let_def refuse_tool_def split: verdict.splits sum.splits on_deny.splits)


definition sample_guard_client :: "string option \<Rightarrow> guard_client" where
  "sample_guard_client key = \<lparr>kc_apiKey = key, kc_baseUrl = ''http://pdp'', kc_evaluators = []\<rparr>"


section \<open>Where the code differs from its comments\<close>

text \<open>A denial of the boolean check leaves no row, and one of the policy tool that is to answer softly is thrown where the
  check itself fails.\<close>

lemma denied_without_a_row:
  "withAgentumGuard agentId action resource session (Inl (Error_Thrown missing_key_message)) (Inr False) r =
     (Throws_Denied (''PermissionError: Agentum policy denied: agent='' @ agentId @ '' action='' @ action @ '' resource='' @ or_star resource), [])"
  by (simp add: withAgentumGuard_def lc_verdict_def missing_key_asks Let_def)

lemma soft_tool_throws:
  "policy_tool_invoke (policy_tool_new a s (Some True)) (Action_Resource act res) (Inl (Error_Thrown missing_key_message)) (Inl t) = (Check_Failed t, [])"
  by (simp add: policy_tool_invoke_def tool_request_def lc_verdict_def missing_key_asks)

text \<open>A tool that was allowed and failed leaves no row.\<close>

lemma failed_tool_leaves_no_row:
  "runGuarded a s tool act res d (Inr (bare_evaluation Dec_Allow 0)) allowed (Inl t) = (Ran (Inl t), [])"
  by (simp add: runGuarded_def lc_verdict_def bare_evaluation_def Let_def)

text \<open>"Calls \<^verbatim>\<open>isAllowed\<close> with the action prefix": the evaluator is asked about the tool's name, with no argument of the
  call but the resource fixed when the tool was wrapped.\<close>

lemma prefix_is_not_asked:
  "map enforced_question (enforceAllTools (Some (\<lambda>t. ''db'')) [\<lparr>lt_name = ''query'', lt_methods = [''invoke''], lt_enforced = None\<rparr>]) =
     [Some (''query'', JObj [(''resource'', JStr ''db'')])]"
  by (simp add: enforceAllTools_def enforced_question_def resource_question_def)

lemma wrapped_once: "enforceAllTools f (enforceAllTools g tools) = enforceAllTools g tools"
  by (simp add: enforceAllTools_def)

end
