(* ===== verification/Framework_Streams.thy ===== *)
theory Framework_Streams
  imports Agent_Frameworks
begin

text \<open>
  What the framework adapters report of a model's calls: the wrapped completion and its relayed stream, and the
  assistant runner (\<^verbatim>\<open>frameworks/openai.ts\<close>), the wrapped stream of \<^verbatim>\<open>frameworks/vercel-ai.ts\<close>, and the callback handler
  of \<^verbatim>\<open>frameworks/langchain.ts\<close>.
\<close>

section \<open>A wrapped OpenAI completion\<close>

definition extractPromptFromArgs :: "jval \<Rightarrow> string" where
  "extractPromptFromArgs request = (case j_prop request ''messages'' of
     Some (JArr ms) \<Rightarrow> if list_ex j_nullish ms then []
       else js_join [CHR 0x0A] (map (\<lambda>m. j_text (j_field m ''role'') @ '': '' @ string_or (j_field m ''content'') []) ms)
   | _ \<Rightarrow> [])"

definition quarter :: "string \<Rightarrow> nat" where
  "quarter s = (length s + 3) div 4"

text \<open>The rows of a call that came through the gate, with what is handed on: a stream is relayed.\<close>

datatype completion_reply = Fails string | Gives jval | Streams

definition llm_start_row :: "string \<Rightarrow> string \<Rightarrow> jval \<Rightarrow> frow" where
  "llm_start_row agentId sessionId request = plain_row agentId sessionId ''llm_call'' ''ok'' (Some
     [(''phase'', JStr ''start''), (''model'', j_default (j_field request ''model'') (JStr ''unknown'')), (''provider'', JStr ''openai''),
      (''prompt_preview'', JStr (take 500 (extractPromptFromArgs request))),
      (''prompt_tokens'', JNum (nat_text (quarter (extractPromptFromArgs request))))])"

definition wrapped_create :: "string \<Rightarrow> string \<Rightarrow> string option \<Rightarrow> string option \<Rightarrow> evaluation settled \<Rightarrow> bool settled \<Rightarrow> jval \<Rightarrow> completion_reply \<Rightarrow>
    completion_reply guarded \<times> frow list" where
  "wrapped_create agentId sessionId policyAction policyResource ev allowed request reply =
     (case openai_gate agentId sessionId policyAction policyResource ev allowed of
        (Ran u, rows) \<Rightarrow> (Ran reply, rows @ llm_start_row agentId sessionId request #
          (case reply of
             Fails m \<Rightarrow> [plain_row agentId sessionId ''llm_error'' ''error'' (Some [(''error'', JStr m)])]
           | Gives v \<Rightarrow> [plain_row agentId sessionId ''llm_end'' ''ok'' None]
           | Streams \<Rightarrow> if j_truthy (j_field request ''stream'') then [] else [plain_row agentId sessionId ''llm_end'' ''ok'' None]))
      | (Throws_Denied m, rows) \<Rightarrow> (Throws_Denied m, rows)
      | (Returns_Denied m, rows) \<Rightarrow> (Returns_Denied m, rows)
      | (Check_Failed t, rows) \<Rightarrow> (Check_Failed t, rows))"

section \<open>A relayed OpenAI stream\<close>

text \<open>What happens to the iterator: its source yields, ends or fails, or the consumer stops it. The rows are the calls with
  their number, the end with the finish reason, the count and the usage, and an error.\<close>

datatype relay_event = Source_Chunk jval | Source_Done | Source_Fails string | Consumer_Returns | Consumer_Throws string

datatype relay_row = Relay_Tool rat tool_acc | Relay_End "string option" nat "jval option" | Relay_Error string

record relay =
  rl_state :: openai_state
  rl_finalized :: bool

definition relay_start :: relay where
  "relay_start = \<lparr>rl_state = newOpenAIStreamState, rl_finalized = False\<rparr>"

definition relay_report :: "openai_state \<Rightarrow> relay_row list" where
  "relay_report st = map (\<lambda>(i, tc). Relay_Tool i tc) (os_toolCalls st) @
     [Relay_End (os_finishReason st) (length (os_toolCalls st)) (os_usage st)]"

definition relay_finalize :: "relay \<Rightarrow> relay_row list \<times> relay" where
  "relay_finalize r = (if rl_finalized r then ([], r)
     else (relay_report (rl_state r), r\<lparr>rl_finalized := True\<rparr>))"

text \<open>\<open>type_error\<close>: the message of the runtime's own error.\<close>

definition relay_step :: "string \<Rightarrow> relay \<Rightarrow> relay_event \<Rightarrow> relay_row list \<times> relay" where
  "relay_step type_error r e = (case e of
     Source_Chunk chunk \<Rightarrow> (case ingestOpenAIChunk (rl_state r) chunk of
         Some st \<Rightarrow> ([], r\<lparr>rl_state := st\<rparr>)
       | None \<Rightarrow> ([Relay_Error type_error], r\<lparr>rl_finalized := True\<rparr>))
   | Source_Done \<Rightarrow> relay_finalize r
   | Source_Fails m \<Rightarrow> ([Relay_Error m], r\<lparr>rl_finalized := True\<rparr>)
   | Consumer_Returns \<Rightarrow> relay_finalize r
   | Consumer_Throws m \<Rightarrow> if rl_finalized r then ([], r) else ([Relay_Error m], r\<lparr>rl_finalized := True\<rparr>))"

fun relay_run :: "string \<Rightarrow> relay \<Rightarrow> relay_event list \<Rightarrow> relay_row list" where
  "relay_run type_error r [] = []"
| "relay_run type_error r (e # es) = (case relay_step type_error r e of (rows, r') \<Rightarrow> rows @ relay_run type_error r' es)"

text \<open>Once finalized, only errors of the source are reported, and before that nothing is.\<close>

definition is_relay_error :: "relay_row \<Rightarrow> bool" where
  "is_relay_error x = (case x of Relay_Error _ \<Rightarrow> True | _ \<Rightarrow> False)"

lemma finalized_reports_errors: "rl_finalized r \<Longrightarrow> list_all is_relay_error (relay_run te r es)"
proof (induction es arbitrary: r)
  case (Cons e es)
  have "list_all is_relay_error (fst (relay_step te r e)) \<and> rl_finalized (snd (relay_step te r e))"
    using Cons.prems by (auto simp: relay_step_def relay_finalize_def is_relay_error_def split: relay_event.splits option.splits)
  then show ?case using Cons.IH by (auto split: prod.splits)
qed simp

text \<open>Whatever happens to the iterator, the calls and the end are reported at most once, together, and nothing but errors
  after them.\<close>

lemma relay_reports_once:
  assumes "\<not> rl_finalized r"
  shows "\<exists>report errors. relay_run te r es = report @ errors \<and> list_all is_relay_error errors \<and>
    (report = [] \<or> (\<exists>st. report = relay_report st))"
  using assms
proof (induction es arbitrary: r)
  case (Cons e es)
  obtain rows r' where s: "relay_step te r e = (rows, r')" by (cases "relay_step te r e")
  show ?case
  proof (cases "rl_finalized r'")
    case False
    then have "rows = []" using s Cons.prems by (auto simp: relay_step_def relay_finalize_def split: relay_event.splits option.splits if_splits)
    then show ?thesis using Cons.IH [OF False] s by simp
  next
    case True
    note errs = finalized_reports_errors [OF True, of te es]
    have "list_all is_relay_error rows \<or> rows = relay_report (rl_state r)"
      using s Cons.prems True by (auto simp: relay_step_def relay_finalize_def is_relay_error_def split: relay_event.splits option.splits if_splits)
    then show ?thesis
    proof
      assume "list_all is_relay_error rows"
      then show ?thesis using errs s by (intro exI [of _ "[]"] exI [of _ "rows @ relay_run te r' es"]) simp
    next
      assume "rows = relay_report (rl_state r)"
      then show ?thesis using errs s by (intro exI [of _ rows] exI [of _ "relay_run te r' es"]) auto
    qed
  qed
qed simp

section \<open>A wrapped Vercel stream\<close>

definition extractToolCallFromChunk :: "jval \<Rightarrow> jval option" where
  "extractToolCallFromChunk chunk = (if j_field chunk ''type'' \<in> {JStr ''tool-call'', JStr ''tool-call-delta''}
     then Some (JObj [(''tool_call_id'', j_default (j_field chunk ''toolCallId'') (j_default (j_field chunk ''id'') JNull)),
       (''tool_name'', j_default (j_field chunk ''toolName'') (j_default (j_field chunk ''name'') JNull)),
       (''args'', j_default (j_field chunk ''args'') (j_default (j_field chunk ''argsDelta'') (j_default (j_field chunk ''arguments'') JNull)))])
     else None)"

definition extractUsageFromChunk :: "jval \<Rightarrow> jval option" where
  "extractUsageFromChunk chunk = (if j_field chunk ''type'' \<in> {JStr ''finish'', JStr ''step-finish''}
     then (let usage = j_field chunk ''usage'' in
       (case j_default (j_field usage ''completionTokens'') (j_field usage ''outputTokens'') of JNum t \<Rightarrow> Some (JNum t) | _ \<Rightarrow> None))
     else None)"

definition afterGenerate :: "jval option \<Rightarrow> jval list \<Rightarrow> (string \<times> string \<times> jval) list" where
  "afterGenerate outputTokens toolCalls = map (\<lambda>tc. (''tool_call'', ''ok'', tc)) toolCalls @
     [(''llm_end'', ''ok'', JObj [(''output_tokens'', case outputTokens of Some t \<Rightarrow> t | None \<Rightarrow> JNum ''0''),
        (''tool_call_count'', JNum (nat_text (length toolCalls)))])]"

text \<open>The wrapped iterable has no guard against a second end.\<close>

record vercel_stream =
  vs_toolCalls :: "jval list"
  vs_outputTokens :: "jval option"

definition vercel_tap :: "vercel_stream \<Rightarrow> jval \<Rightarrow> vercel_stream" where
  "vercel_tap s chunk = s\<lparr>vs_toolCalls := vs_toolCalls s @ (case extractToolCallFromChunk chunk of Some tc \<Rightarrow> [tc] | None \<Rightarrow> []),
     vs_outputTokens := (case extractUsageFromChunk chunk of Some u \<Rightarrow> Some u | None \<Rightarrow> vs_outputTokens s)\<rparr>"

definition vercel_step :: "vercel_stream \<Rightarrow> relay_event \<Rightarrow> (string \<times> string \<times> jval) list \<times> vercel_stream" where
  "vercel_step s e = (case e of
     Source_Chunk chunk \<Rightarrow> ([], vercel_tap s chunk)
   | Source_Done \<Rightarrow> (afterGenerate (vs_outputTokens s) (vs_toolCalls s), s)
   | Consumer_Returns \<Rightarrow> (afterGenerate (vs_outputTokens s) (vs_toolCalls s), s)
   | Source_Fails m \<Rightarrow> ([(''llm_error'', ''error'', JObj [(''error'', JStr m), (''streaming'', JBool True)])], s)
   | Consumer_Throws m \<Rightarrow> ([(''llm_error'', ''error'', JObj [(''error'', JStr m), (''streaming'', JBool True)])], s))"

text \<open>A web stream is tapped by a transform, whose flush runs only when the source ends.\<close>

definition vercel_readable_step :: "vercel_stream \<Rightarrow> relay_event \<Rightarrow> (string \<times> string \<times> jval) list \<times> vercel_stream" where
  "vercel_readable_step s e = (case e of
     Source_Chunk chunk \<Rightarrow> ([], vercel_tap s chunk)
   | Source_Done \<Rightarrow> (afterGenerate (vs_outputTokens s) (vs_toolCalls s), s)
   | _ \<Rightarrow> ([], s))"

text \<open>A second end reports everything again, and a web stream that is cancelled or fails reports nothing.\<close>

lemma vercel_reports_twice:
  "fst (vercel_step s Source_Done) = fst (vercel_step (snd (vercel_step s Source_Done)) Consumer_Returns) \<and> fst (vercel_step s Source_Done) \<noteq> []"
  by (simp add: vercel_step_def afterGenerate_def)

lemma cancelled_web_stream_reports_nothing: "fst (vercel_readable_step s Consumer_Returns) = [] \<and> fst (vercel_readable_step s (Source_Fails m)) = []"
  by (simp add: vercel_readable_step_def)

section \<open>The assistant runner\<close>

text \<open>One turn of the poll: the clock at its check, and what retrieving the run settles to: its status and whether an
  action is required.\<close>

record run_turn =
  rt_now :: int
  rt_run :: "(string \<times> bool) settled"

datatype run_end = Run_Ended string | Run_Overdue | Run_Failed thrown

datatype run_row = Run_Poll string | Run_Tool_Call | Run_End_Row string bool

definition poll_rows :: "string \<Rightarrow> bool \<Rightarrow> run_row list" where
  "poll_rows status required = Run_Poll status # (if status = ''requires_action'' \<and> required then [Run_Tool_Call] else [])"

definition final_statuses :: "string list" where
  "final_statuses = [''completed'', ''failed'', ''cancelled'', ''expired'']"

partial_function (option) run_poll :: "(nat \<Rightarrow> run_turn) \<Rightarrow> int \<Rightarrow> nat \<Rightarrow> (run_end \<times> run_row list) option" where
  "run_poll turns deadline i =
     (if deadline < rt_now (turns i) then Some (Run_Overdue, [])
      else (case rt_run (turns i) of
        Inl t \<Rightarrow> Some (Run_Failed t, [])
      | Inr (status, required) \<Rightarrow>
          if status \<in> set final_statuses
          then Some (Run_Ended status, poll_rows status required @ [Run_End_Row status (status = ''completed'')])
          else Option.bind (run_poll turns deadline (i + 1)) (\<lambda>(r, rows). Some (r, poll_rows status required @ rows))))"

definition waitForCompletion :: "int option \<Rightarrow> int \<Rightarrow> (nat \<Rightarrow> run_turn) \<Rightarrow> (run_end \<times> run_row list) option" where
  "waitForCompletion maxWaitMs start turns = run_poll turns (start + (case maxWaitMs of Some m \<Rightarrow> m | None \<Rightarrow> 120000)) 0"

text \<open>A turn waits at least the interval.\<close>

definition waits :: "(nat \<Rightarrow> run_turn) \<Rightarrow> int \<Rightarrow> bool" where
  "waits turns pollMs \<longleftrightarrow> (\<forall>i. rt_now (turns i) + pollMs \<le> rt_now (turns (i + 1)))"

definition polls :: "run_row list \<Rightarrow> int" where
  "polls rows = int (length (filter (\<lambda>r. case r of Run_Poll _ \<Rightarrow> True | _ \<Rightarrow> False) rows))"

lemma polls_simps [simp]: "polls [] = 0" "polls (Run_Poll s # rows) = 1 + polls rows" "polls (Run_Tool_Call # rows) = polls rows"
  "polls (Run_End_Row s b # rows) = polls rows" "polls (rows @ more_rows) = polls rows + polls more_rows"
  by (simp_all add: polls_def)

lemma polls_poll [simp]: "polls (poll_rows status required) = 1"
  by (simp add: poll_rows_def)

lemma run_poll_ends:
  assumes "waits turns pollMs" and "0 < pollMs"
  shows "nat (deadline + 1 - rt_now (turns i)) \<le> n \<Longrightarrow> \<exists>r rows. run_poll turns deadline i = Some (r, rows) \<and>
    (polls rows - 1) * pollMs \<le> max 0 (deadline - rt_now (turns i))"
proof (induction n arbitrary: i rule: less_induct)
  case (less n)
  have step: "rt_now (turns i) + pollMs \<le> rt_now (turns (i + 1))" using assms(1) by (simp add: waits_def)
  show ?case
  proof (cases "rt_now (turns i) \<le> deadline \<and> (\<exists>status required. rt_run (turns i) = Inr (status, required) \<and> status \<notin> set final_statuses)")
    case True
    then obtain status required where run: "rt_run (turns i) = Inr (status, required)" "status \<notin> set final_statuses" by blast
    have "nat (deadline + 1 - rt_now (turns (i + 1))) < n" using step assms(2) True less.prems by linarith
    from less.IH [OF this order.refl] obtain r rows where r: "run_poll turns deadline (i + 1) = Some (r, rows)"
      and b: "(polls rows - 1) * pollMs \<le> max 0 (deadline - rt_now (turns (i + 1)))" by blast
    have "run_poll turns deadline i = Some (r, poll_rows status required @ rows)"
      using True run r by (subst run_poll.simps) auto
    moreover have "polls rows * pollMs \<le> max 0 (deadline - rt_now (turns i))"
    proof (cases "rt_now (turns (i + 1)) \<le> deadline")
      case True
      then show ?thesis using b step by (simp add: algebra_simps)
    next
      case False
      then have "run_poll turns deadline (i + 1) = Some (Run_Overdue, [])" by (subst run_poll.simps) simp
      then show ?thesis using r by simp
    qed
    ultimately show ?thesis by simp
  next
    case False
    then show ?thesis using assms(2) by (subst run_poll.simps) (auto split: sum.splits)
  qed
qed

text \<open>As long as each poll waits its interval, waiting for an assistant's run ends, and no more polls are made than fit
  into the time given.\<close>

lemma assistant_wait_ends:
  assumes "waits turns pollMs" and "0 < pollMs" and "start \<le> rt_now (turns 0)" and "0 \<le> (case maxWaitMs of Some m \<Rightarrow> m | None \<Rightarrow> 120000)"
  shows "\<exists>r rows. waitForCompletion maxWaitMs start turns = Some (r, rows) \<and>
    (polls rows - 1) * pollMs \<le> (case maxWaitMs of Some m \<Rightarrow> m | None \<Rightarrow> 120000)"
proof -
  let ?d = "start + (case maxWaitMs of Some m \<Rightarrow> m | None \<Rightarrow> 120000)"
  obtain r rows where "run_poll turns ?d 0 = Some (r, rows)" and "(polls rows - 1) * pollMs \<le> max 0 (?d - rt_now (turns 0))"
    using run_poll_ends [OF assms(1,2) order.refl, of ?d 0] by blast
  then show ?thesis using assms(3,4) by (auto simp: waitForCompletion_def)
qed

definition slow_run :: "nat \<Rightarrow> run_turn" where
  "slow_run i = \<lparr>rt_now = 1000 * int i, rt_run = Inr (if i < 2 then ''in_progress'' else ''completed'', False)\<rparr>"

lemma assistant_wait_example:
  "waits slow_run 1000 \<and> waitForCompletion None 0 slow_run = Some (Run_Ended ''completed'',
     [Run_Poll ''in_progress'', Run_Poll ''in_progress'', Run_Poll ''completed'', Run_End_Row ''completed'' True]) \<and>
   (\<exists>r rows. waitForCompletion None 0 slow_run = Some (r, rows) \<and> (polls rows - 1) * 1000 \<le> 120000)"
proof -
  have w: "waits slow_run 1000" by (simp add: waits_def slow_run_def)
  have "waitForCompletion None 0 slow_run = Some (Run_Ended ''completed'',
     [Run_Poll ''in_progress'', Run_Poll ''in_progress'', Run_Poll ''completed'', Run_End_Row ''completed'' True])"
    by (simp add: waitForCompletion_def run_poll.simps slow_run_def final_statuses_def poll_rows_def)
  then show ?thesis using w assistant_wait_ends [OF w, of 0 None] by (simp add: slow_run_def)
qed

text \<open>A run that ends as \<^verbatim>\<open>incomplete\<close> is polled until the time is up.\<close>

lemma incomplete_is_not_final: "''incomplete'' \<notin> set final_statuses"
  by (simp add: final_statuses_def)

section \<open>The LangChain callbacks\<close>

text \<open>The callbacks that report, each with what it reads; a part that may be missing is \<^const>\<open>JUndefined\<close>.\<close>

datatype lc_callback =
  LLM_Start jval "string list" | LLM_End | LLM_Error string
| Chat_End | Agent_Action jval | Agent_End jval
| Retriever_Start jval jval | Retriever_End jval | Retriever_Error string
| Tool_Start jval string | Tool_End string | Tool_Error string
| Chain_Start jval | Chain_End | Chain_Error string

definition text_length :: "jval \<Rightarrow> jval" where
  "text_length v = JNum (nat_text (length (text_of v)))"

definition last_id :: "jval \<Rightarrow> jval" where
  "last_id serialized = (case j_field serialized ''id'' of JArr vs \<Rightarrow> if vs = [] then JStr ''unknown'' else j_default (last vs) (JStr ''unknown'')
     | _ \<Rightarrow> JStr ''unknown'')"

definition count_text :: "nat \<Rightarrow> jval" where
  "count_text n = JNum (nat_text n)"

definition lc_event :: "lc_callback \<Rightarrow> string \<times> (string \<times> jval) list" where
  "lc_event cb = (case cb of
     LLM_Start serialized prompts \<Rightarrow> (let combined = js_join [CHR 0x0A] prompts in (''llm_call'',
       [(''model'', last_id serialized), (''prompt_preview'', JStr (take 500 combined)), (''prompt_tokens'', count_text (quarter combined)),
        (''framework'', JStr ''langchain'')]))
   | LLM_End \<Rightarrow> (''llm_end'', [])
   | LLM_Error m \<Rightarrow> (''llm_error'', [(''error'', JStr m)])
   | Chat_End \<Rightarrow> (''llm_end'', [(''kind'', JStr ''chat_model'')])
   | Agent_Action a \<Rightarrow> (''agent_action'', [(''tool'', j_default (j_field a ''tool'') (JStr ''unknown'')),
       (''tool_input'', j_default (j_field a ''toolInput'') JNull), (''log_length'', text_length (j_field a ''log''))])
   | Agent_End a \<Rightarrow> (''agent_end'', [(''log_length'', text_length (j_field a ''log'')),
       (''return_value_keys'', JArr (case j_field a ''returnValues'' of JObj kvs \<Rightarrow> map (JStr \<circ> fst) kvs | _ \<Rightarrow> []))])
   | Retriever_Start serialized query \<Rightarrow> (''retriever_start'', [(''retriever'', last_id serialized), (''query_length'', text_length query)])
   | Retriever_End documents \<Rightarrow> (let docs = (case documents of JArr ds \<Rightarrow> ds | _ \<Rightarrow> []) in
       (''retriever_end'', [(''doc_count'', count_text (length docs)),
         (''total_chars'', count_text (sum_list (map (\<lambda>d. length (text_of (j_field d ''pageContent''))) docs)))]))
   | Retriever_Error m \<Rightarrow> (''retriever_error'', [(''error'', JStr m)])
   | Tool_Start serialized input \<Rightarrow> (''tool_start'', [(''tool'', j_field serialized ''name''), (''input_length'', count_text (length input))])
   | Tool_End output \<Rightarrow> (''tool_end'', [(''output_length'', count_text (length output))])
   | Tool_Error m \<Rightarrow> (''tool_error'', [(''error'', JStr m)])
   | Chain_Start serialized \<Rightarrow> (''chain_start'', [(''chain'', last_id serialized)])
   | Chain_End \<Rightarrow> (''chain_end'', [])
   | Chain_Error m \<Rightarrow> (''chain_error'', [(''error'', JStr m)]))"

text \<open>Chat messages are flattened to one prompt; \<open>role\<close> is \<^verbatim>\<open>_getType()\<close> where the message has it.\<close>

definition flatten_message :: "string option \<times> jval \<Rightarrow> string" where
  "flatten_message m = (case m of (role, content) \<Rightarrow> (case role of Some r \<Rightarrow> r | None \<Rightarrow> ''message'') @ '': '' @
     (case content of JStr s \<Rightarrow> s | _ \<Rightarrow> (case json_stringify (j_default content (JStr [])) of Some t \<Rightarrow> t | None \<Rightarrow> ''undefined'')))"

definition handleChatModelStart :: "jval \<Rightarrow> (string option \<times> jval) list list \<Rightarrow> lc_callback" where
  "handleChatModelStart serialized messages = LLM_Start serialized [js_join [CHR 0x0A] (map flatten_message (concat messages))]"

definition callback_emit :: "string \<Rightarrow> string \<Rightarrow> lc_callback \<Rightarrow> frow" where
  "callback_emit agentId sessionId cb = plain_row agentId sessionId (fst (lc_event cb)) ''ok'' (Some (snd (lc_event cb)))"

text \<open>An error is reported with the outcome \<^verbatim>\<open>ok\<close>.\<close>

lemma error_reads_ok: "fr_outcome (callback_emit a s (LLM_Error m)) = ''ok'' \<and> fr_type (callback_emit a s (LLM_Error m)) = ''llm_error''"
  by (simp add: callback_emit_def plain_row_def lc_event_def)

end
