(* ===== verification/Spec2Isabelle.thy ===== *)
theory Spec2Isabelle
  imports Simulate_Cache Guard_System Tool_Safety Pii_Pipeline Resolve_Dimensions Enrichment_System
    Live_Updates Stream_Samples Node_Stream_Properties
    Response_Safety Mcp_Http Stream_Batch Vault_Resolver Pii_Block Fetch_Plane
    Agent_Session Policy_Builder Policy_Client
    Mcp_Stdio Framework_Guards Client_Install Framework_Streams
begin

text \<open>
  A verification development of the Lupid SDK (\<^verbatim>\<open>packages/sdk/src\<close>), a TypeScript library that keeps the agents of a
  host application within a tenant's policy. Paths below are relative to that directory. What is verified is the
  code that decides whether an agent's action may go on, the code that takes denied tool calls out of a model's
  traffic, the code that keeps personal data out of the audit trail, and what these rest on.

  \<^bold>\<open>The program.\<close> The tool-call evaluator (\<^verbatim>\<open>evaluation/cedar-client.ts\<close>) is asked before every tool call: it denies a
  suspended agent, honours a human approval, looks into its decision cache, then asks a local sidecar and, where
  that fails, the central service, and fails closed. It is asked by five planes: the interception of \<^verbatim>\<open>fetch\<close>, which reads
  the calls in a model's requests and responses and in MCP messages (\<^verbatim>\<open>instrumentation/fetch-interceptor.ts\<close> and its
  helpers), the patches of the OpenAI, Anthropic and MCP clients (\<^verbatim>\<open>openai-patch.ts\<close>, \<^verbatim>\<open>anthropic-patch.ts\<close>,
  \<^verbatim>\<open>mcp-stdio-patch.ts\<close>), and the adapters of agent frameworks (\<^verbatim>\<open>frameworks/langchain.ts\<close>, \<^verbatim>\<open>openai.ts\<close>, \<^verbatim>\<open>vercel-ai.ts\<close>).
  The HTTP guards (\<^verbatim>\<open>frameworks/express\<close> and its ports) ask the policy simulation instead, for the requests a server
  receives, with a cache, a circuit breaker and a fail mode, in a session that a pool keeps per agent, tenant and
  user. The client (\<^verbatim>\<open>client.ts\<close>, \<^verbatim>\<open>session.ts\<close>) carries their requests, sessions, approvals and audit rows to the control
  plane. A row's detail goes through the PII pipeline (\<^verbatim>\<open>pii/\<close>: field rules, then pattern masking, then a
  self-check) before it is posted. The tenant schema (\<^verbatim>\<open>manifest/\<close>) names the dimensions of a call; some are looked up by
  a webhook (\<^verbatim>\<open>enrichment/\<close>) behind a cache, a breaker and a rate limiter. A live-update channel calls the evaluator's
  invalidation, suspension and approval methods.

  \<^bold>\<open>Shared theories.\<close>
  \<^item> \<open>Sdk_Prelude\<close>: insertion-ordered maps (a JavaScript \<^verbatim>\<open>Map\<close> or record object), joined keys,
    \<^verbatim>\<open>| 0\<close> arithmetic; the collection \<open>jm_simps\<close>.
  \<^item> \<open>Js_Text\<close>, \<open>Js_Value\<close>: the string, number and dynamic-value operations of the language that the
    code uses. A parsed body or tool argument is a \<open>jval\<close>; reading a property of null is \<^const>\<open>None\<close> (the code
    throws). Numbers are the exact rationals of their literals, times are integer milliseconds.
  \<^item> \<open>Json_Text\<close> and \<open>Json_Parse\<close>: the two stable printers of the code with their injectivity up to key order, and
    \<^verbatim>\<open>JSON.parse\<close> with the law that it inverts \<^verbatim>\<open>JSON.stringify\<close>; \<open>Utf8_Text\<close>: \<^verbatim>\<open>TextEncoder\<close> and the streaming \<^verbatim>\<open>TextDecoder\<close>.
  \<^item> The interfaces are locales with the clients' theorems, interpreted on the code's own definitions: \<open>Ttl_Cache\<close> (what a
    bounded expiring cache may serve over any sequence of operations: both decision caches and the approval ledger),
    \<open>Breaker_Interface\<close> (how a breaker rejects and recovers: both breakers), \<open>pooled_sessions\<close> of \<open>Session_Pool\<close> (whose
    session a request is served: the middleware's and the webhook guards' keys).

  \<^bold>\<open>Decisions.\<close>
  \<^item> \<open>Decision_Cache\<close>, \<open>Simulate_Cache\<close>, \<open>Approval_Grants\<close>: the three caches
    (\<^verbatim>\<open>frameworks/express/decision-cache.ts\<close>, \<^verbatim>\<open>simulate-cache.ts\<close>, \<^verbatim>\<open>ApprovalGrantCache\<close>); \<open>Express_Breaker\<close>:
    \<^verbatim>\<open>frameworks/express/circuit-breaker.ts\<close>.
  \<^item> \<open>Tool_Evaluation\<close> (evaluations, wire bodies, audit rows), \<open>Tool_Client\<close> (the client's state and
    the evaluation cut at its awaits), \<open>Tool_System\<close> (all interleavings of evaluations and of the
    live-update operations, with logs of answers and approvals) and \<open>Tool_Safety\<close> (failure routes, cache
    keys, invalidation, feature snapshot).
  \<^item> \<open>Live_Updates\<close>: \<^verbatim>\<open>manifest/sse-subscriber.ts\<close> and \<^verbatim>\<open>manifest/client.ts\<close>, every pushed event with what the evaluator makes
    of it, and the refresh of the schema.
  \<^item> \<open>Express_Guard\<close>: the guard, cut at its network call (\<open>guard_begin\<close>, \<open>guard_finish\<close>), human
    escalation, fallback, dispatch; \<open>Guard_System\<close> interleaves requests over the shared cache and
    breaker, keeps a log of server answers, and proves that every request let through is backed.
    \<open>Session_Pool\<close> and \<open>Express_Middleware\<close>: the pool of \<^verbatim>\<open>frameworks/express/index.ts\<close>, the middleware, and the webhook
    guards of \<^verbatim>\<open>express\<close> and \<^verbatim>\<open>nextjs\<close>. \<open>Framework_Guards\<close>: the guards of \<^verbatim>\<open>fastify\<close>, \<^verbatim>\<open>nestjs\<close> and \<^verbatim>\<open>nextjs\<close> and how they
    differ from the Express guard.
  \<^item> \<open>Agent_Frameworks\<close>: the wrappers of the agent frameworks over the client's evaluators, and that a wrapped function
    runs exactly where it is permitted; \<open>Framework_Streams\<close>: what they report, with their streams and polls.

  \<^bold>\<open>The traffic of models and tools.\<close>
  \<^item> \<open>Host_Registry\<close>: \<^verbatim>\<open>instrumentation/host-registry.ts\<close>, which hosts are watched and in what shape they speak.
  \<^item> \<open>Sse_Parsers\<close>, \<open>Sse_Properties\<close>, \<open>Event_Stream\<close>, \<open>Event_Stream_Properties\<close>: \<^verbatim>\<open>instrumentation/wire-parsers.ts\<close>, the text
    streams of the providers and the binary framing of Bedrock with its CRC; chunking is irrelevant, no byte is
    lost, and what is printed is read back.
  \<^item> \<open>Provider_Extractors\<close>, \<open>Response_Safety\<close>: \<^verbatim>\<open>instrumentation/provider-extractors.ts\<close>, the calls of a whole body and its
    rewriting, of which exactly the allowed calls survive.
  \<^item> \<open>Stream_Enforcer\<close>, \<open>Stream_Safety\<close>, \<open>Stream_Notices\<close>: \<^verbatim>\<open>instrumentation/_response-enforce.ts\<close>, the push-based enforcer;
    \<open>Stream_Batch\<close> is its abstract specification (one pass over the whole response) and the refinement. \<open>Stream_Samples\<close>:
    frames of a stream with a call, which the others evaluate their models on.
  \<^item> \<open>Node_Stream\<close>, \<open>Node_Stream_Properties\<close>: the streams of \<^verbatim>\<open>instrumentation/node-http-interceptor.ts\<close> (\<open>wrapStreaming\<close>), whose handlers
    may overlap: what reaches the application under any interleaving, and what goes wrong under some.
  \<^item> \<open>Tool_Accumulators\<close>, \<open>Client_Patches\<close>, \<open>Client_Install\<close>: \<^verbatim>\<open>instrumentation/_parsers.ts\<close> and the patches of the OpenAI and
    Anthropic clients; a consumer that puts the forwarded fragments together has only calls that were allowed.
  \<^item> \<open>Mcp_Http\<close>: \<^verbatim>\<open>instrumentation/mcp-http.ts\<close>, MCP messages and the tokens by which one plane tells another that it has
    asked; \<open>Mcp_Stdio\<close>: the patch of the MCP client, its composition with the fetch plane (one question per call), and
    all interleavings of both.
  \<^item> \<open>Vault_Resolver\<close>: \<^verbatim>\<open>vault/resolver.ts\<close>, secrets put in for placeholders, under any interleaving.
  \<^item> \<open>Fetch_Request\<close>, \<open>Fetch_Plane\<close>: the patched \<^verbatim>\<open>fetch\<close> with all it calls; what reaches the network was not denied.
  \<^item> \<open>Prompt_Capture\<close>: \<^verbatim>\<open>instrumentation/prompt-capture.ts\<close> and the posting of prompts.

  \<^bold>\<open>Personal data.\<close>
  \<^item> \<open>Field_Rules\<close>: secrets, masking modes, the path parser and the field-rule trie of
    \<^verbatim>\<open>pii/field-rule-trie.ts\<close> in a small state-and-error monad (\<open>walk\<close>); \<open>Field_Rules_Sound\<close> proves a
    mask rule masks every location its path selects and nothing else; \<open>Rule_Paths\<close> is the parser's
    round trip; \<open>Field_Rule_Trie\<close> the trie's equivalence with applying the rules in order.
  \<^item> \<open>Pii_Block\<close>: \<^verbatim>\<open>pii/manifest-block.ts\<close>, the typing of the manifest's block, and the pipeline's start in \<^verbatim>\<open>init.ts\<close>.
  \<^item> \<open>Pii_Pipeline\<close>: \<^verbatim>\<open>pii/text-scanner.ts\<close>, \<^verbatim>\<open>pii/pipeline.ts\<close> and \<^verbatim>\<open>postAuditEvent\<close>: no row is sent with a
    string value that an active pattern still matches.

  \<^bold>\<open>Schema and enrichments.\<close>
  \<^item> \<open>Manifest_Validator\<close>: \<^verbatim>\<open>manifest/validator.ts\<close> rule by rule on raw values, its equivalence with the
    rules stated over the schema alone (where the code is laxer than its rules, they say so), and \<^verbatim>\<open>manifest/reconcile.ts\<close>.
  \<^item> \<open>Enrichment_Limits\<close>: \<^verbatim>\<open>enrichment/circuit-breaker.ts\<close> and \<^verbatim>\<open>enrichment/rate-limit.ts\<close>.
  \<^item> \<open>Enrichment_Defs\<close>: \<^verbatim>\<open>enrichment/types.ts\<close>; \<open>Enrichment_Client\<close>: \<^verbatim>\<open>enrichment/client.ts\<close> and
    \<^verbatim>\<open>enrichment/cache.ts\<close>, cut at the awaits; \<open>Enrichment_System\<close>: a step relation over concurrent calls, with
    the invariant that ties every cached result to a reply or to a failure the schema lets through.
  \<^item> \<open>Derived_Template\<close>: \<^verbatim>\<open>instrumentation/derived-template.ts\<close>, with the round trip of its tokenizer;
    \<open>Resolve_Dimensions\<close>: \<^verbatim>\<open>instrumentation/resolve-dimensions.ts\<close>, \<^verbatim>\<open>frameworks/express/dimensions.ts\<close> and the
    start-up check of \<^verbatim>\<open>pii/secrets.ts\<close>: declared personal data is masked before anything else sees it.

  \<^bold>\<open>The client.\<close>
  \<^item> \<open>Trace_Context\<close>: \<^verbatim>\<open>tracing.ts\<close>. \<open>Api_Request\<close>: the request loop of \<^verbatim>\<open>client.ts\<close> and \<^verbatim>\<open>admin/http.ts\<close>, its retries, waits and
    errors. \<open>Audit_Buffer\<close>: the buffer of audit events, its drains, flushes and closing; every event is accounted for.
  \<^item> \<open>Agent_Session\<close>: \<^verbatim>\<open>session.ts\<close>, tokens, policy checks and the wait for a human approval, composed with the evaluator's
    ledger. \<open>Policy_Client\<close>: simulation over its cache, the listing of agents. \<open>Policy_Builder\<close>: \<^verbatim>\<open>admin/policy-builder.ts\<close>.

  \<^bold>\<open>Concurrency.\<close> JavaScript runs a handler from one \<^verbatim>\<open>await\<close> to the next without interruption. Each
  handler is a definition per such segment; the system theories run the segments of any number of calls
  in any order, with replies, clock readings and callbacks as inputs. Continuations that the language runs
  right after a promise settles are part of the settling step.

  \<^bold>\<open>Bounds and fuel.\<close> Most loops are structural recursion, or recursion with a measure that is proved: the frames of a
  stream and the drains by the length of what is left, placeholders and splitting by the length of the text, the request
  loop by the attempts left and whether the token may still be refreshed, the retries of a post by the attempts left.
  Fuel is used where the bound is the input's own size: the parser of JSON (the length of the text and one, which is
  enough: \<open>json_parse_stringify\<close>), recursive descent (the depth of the tree, since no location is deeper), pruning a
  map (its size), the shipping of an MCP audit row (the two attempts of the code). The polls (an approval, the
  pages of a listing, an assistant's run) may go on for ever and are partial functions; that each ends is proved
  in its theory under what makes it end: the clock goes
  on, the server serves the pages asked for.

  \<^bold>\<open>Parameters.\<close> SHA-256, HMAC, AES and random bytes; the regular expression engine (match test and
  replacement of a pattern); \<^verbatim>\<open>lru-cache\<close> (hypothesis \<open>lru_ok\<close>, its documented contract, shown to be
  satisfiable by an association list); the URL parser; the HTTP replies and provider SDKs; the process environment; the
  user's callbacks. Where a theory composes parts, the evaluator is the parameter of the traffic theories, as a function
  of the call; its own model says what backs its answers.

  \<^bold>\<open>Not modelled.\<close> Log lines, metrics and one-shot warnings; timers, sockets and files; object identity (a detail is a
  tree, so a sub-object referenced twice counts twice); rounding of doubles; characters above 255. The planes for
  \<^verbatim>\<open>node:http\<close> (but for its streams) and \<^verbatim>\<open>undici\<close> (\<^verbatim>\<open>node-http-interceptor.ts\<close>, \<^verbatim>\<open>undici-dispatcher-interceptor.ts\<close>) are event-emitter and
  dispatcher plumbing around the enforcement core modelled here, whose order of events is node's. \<^verbatim>\<open>init.ts\<close>, \<^verbatim>\<open>lite.ts\<close> and
  \<^verbatim>\<open>instrumentation/context.ts\<close> wire the parts together; \<^verbatim>\<open>binding/\<close>, \<^verbatim>\<open>evaluation/uds-fetch.ts\<close>, \<^verbatim>\<open>manifest/loader.ts\<close> and
  \<^verbatim>\<open>express/health-check.ts\<close> are I/O; the methods of \<^verbatim>\<open>admin/\<close> and most of \<^verbatim>\<open>client.ts\<close> are one request each, over the loop
  that is modelled; the \<^verbatim>\<open>auto-register\<close> files post route tables; the middleware and server actions of Next.js and the
  decorators of NestJS are further entry points of the guards; \<^verbatim>\<open>packages/react\<close> is a user interface.
\<close>

end
